(* ===== verification/Ladon_Prelude.thy ===== *)
theory Ladon_Prelude
  imports Main "HOL-Library.Word" "HOL-Library.AList"
begin

text \<open>
  What every component of the development shares: machine integers with Rust's checked and
  saturating arithmetic, big-endian byte strings, \<open>Duration\<close> and \<open>SystemTime\<close>, the
  \<open>Result\<close> plumbing (\<open>and_then\<close> is the \<open>?\<close> operator), hash maps as association lists with
  distinct keys, and a locale for state machines driven by a list of operations.

  \<^item> \<open>usize\<close> values that count bytes or elements of a collection are \<open>nat\<close>; fixed-width values
    whose overflow the code handles (\<open>u64\<close> clocks and revisions) are words.
  \<^item> A \<open>Duration\<close> is its number of nanoseconds, a \<open>SystemTime\<close> the (possibly negative) number of
    nanoseconds since the Unix epoch. The bounds of both types are written out where the code
    checks them.
\<close>

section \<open>Collections of rewrite rules\<close>

named_theorems result_simps \<open>elimination of the error plumbing\<close>
named_theorems map_simps \<open>lookups in updated hash maps\<close>

section \<open>Machine integers\<close>

type_synonym u8 = "8 word"
type_synonym u16 = "16 word"
type_synonym u32 = "32 word"
type_synonym u64 = "64 word"
type_synonym byte = "8 word"
type_synonym uuid = "128 word"

definition u64_max :: nat where
  "u64_max = 2 ^ 64 - 1"

definition saturating_add :: "'a::len word \<Rightarrow> 'a word \<Rightarrow> 'a word" where
  "saturating_add a b = (if unat a + unat b < 2 ^ LENGTH('a) then a + b else - 1)"

definition saturating_sub :: "'a::len word \<Rightarrow> 'a word \<Rightarrow> 'a word" where
  "saturating_sub a b = (if unat a \<le> unat b then 0 else a - b)"

definition checked_add :: "'a::len word \<Rightarrow> 'a word \<Rightarrow> 'a word option" where
  "checked_add a b = (if unat a + unat b < 2 ^ LENGTH('a) then Some (a + b) else None)"

lemma unat_saturating_add:
  "unat (saturating_add a (b :: 'a::len word)) = min (unat a + unat b) (2 ^ LENGTH('a) - 1)"
proof (cases "unat a + unat b < 2 ^ LENGTH('a)")
  case True
  then show ?thesis
    by (simp add: saturating_add_def unat_word_ariths)
next
  case False
  then show ?thesis
    by (simp add: saturating_add_def unsigned_minus_1_eq_mask mask_eq_exp_minus_1)
qed

lemma unat_saturating_sub: "unat (saturating_sub a b) = unat a - unat b"
  by (simp add: saturating_sub_def unat_sub word_le_nat_alt)

lemma checked_add_Some_iff:
  "checked_add a (b :: 'a::len word) = Some c \<longleftrightarrow> unat c = unat a + unat b"
proof
  assume "checked_add a b = Some c"
  then show "unat c = unat a + unat b"
    by (auto simp: checked_add_def unat_word_ariths split: if_splits)
next
  assume c: "unat c = unat a + unat b"
  have "unat c < 2 ^ LENGTH('a)"
    by (rule unsigned_less)
  with c have "unat a + unat b < 2 ^ LENGTH('a)" by simp
  moreover from this have "unat (a + b) = unat c"
    using c by (simp add: unat_word_ariths)
  ultimately show "checked_add a b = Some c"
    by (simp add: checked_add_def word_unat_eq_iff)
qed

lemma checked_add_None_iff:
  "checked_add a (b :: 'a::len word) = None \<longleftrightarrow> 2 ^ LENGTH('a) \<le> unat a + unat b"
  by (simp add: checked_add_def not_less)

lemma checked_add_grows:
  "checked_add a (1 :: 'a::len word) = Some c \<Longrightarrow> unat a < unat c"
  by (simp add: checked_add_Some_iff)

lemma checked_add_one:
  "checked_add x (1 :: 'a::len word) = (if x = - 1 then None else Some (x + 1))"
proof -
  have m: "unat (- 1 :: 'a word) = 2 ^ LENGTH('a) - 1"
    by (simp add: unsigned_minus_1_eq_mask mask_eq_exp_minus_1)
  have "unat x < 2 ^ LENGTH('a)" by (rule unsigned_less)
  then have "unat x + 1 < 2 ^ LENGTH('a) \<longleftrightarrow> x \<noteq> - 1"
    unfolding word_unat_eq_iff m by linarith
  then show ?thesis by (simp add: checked_add_def)
qed

lemma unat_small: "n < 2 ^ 64 \<Longrightarrow> unat (of_nat n :: u64) = n"
  by (simp add: unat_of_nat take_bit_nat_eq_self)

section \<open>Big-endian byte strings\<close>

primrec be_bytes :: "nat \<Rightarrow> nat \<Rightarrow> byte list" where
  "be_bytes 0 n = []"
| "be_bytes (Suc k) n = be_bytes k (n div 256) @ [of_nat (n mod 256)]"

definition be_nat :: "byte list \<Rightarrow> nat" where
  "be_nat bs = foldl (\<lambda>acc b. acc * 256 + unat b) 0 bs"

lemma length_be_bytes [simp]: "length (be_bytes k n) = k"
  by (induction k arbitrary: n) auto

lemma be_nat_snoc [simp]: "be_nat (bs @ [b]) = be_nat bs * 256 + unat b"
  by (simp add: be_nat_def)

lemma be_nat_Nil [simp]: "be_nat [] = 0"
  by (simp add: be_nat_def)

lemma be_nat_be_bytes: "be_nat (be_bytes k n) = n mod 256 ^ k"
proof (induction k arbitrary: n)
  case 0
  then show ?case by simp
next
  case (Suc k)
  have "unat (of_nat (n mod 256) :: byte) = n mod 256"
    by (simp add: unat_of_nat)
  with Suc show ?case
    by (simp add: mod_mult2_eq)
qed

lemma be_nat_be_bytes_small [simp]: "n < 256 ^ k \<Longrightarrow> be_nat (be_bytes k n) = n"
  by (simp add: be_nat_be_bytes)

lemma be_bytes_be_nat: "length bs = k \<Longrightarrow> be_bytes k (be_nat bs) = bs"
proof (induction bs arbitrary: k rule: rev_induct)
  case Nil
  then show ?case by simp
next
  case (snoc b bs)
  then obtain m where k: "k = Suc m" and m: "length bs = m" by auto
  have b: "unat b < 256"
    using unsigned_less [of b, where 'a = nat] by simp
  have "(be_nat bs * 256 + unat b) div 256 = be_nat bs"
    using b by simp
  moreover have "(be_nat bs * 256 + unat b) mod 256 = unat b"
    using b by simp
  ultimately show ?case
    using snoc.IH [OF m] k by simp
qed

lemma be_nat_less: "be_nat bs < 256 ^ length bs"
proof (induction bs rule: rev_induct)
  case Nil
  then show ?case by simp
next
  case (snoc b bs)
  have "unat b < 256"
    using unsigned_less [of b, where 'a = nat] by simp
  with snoc show ?case by simp
qed

section \<open>Durations and the wall clock\<close>

type_synonym duration = nat
type_synonym system_time = int

definition nanos_per_milli :: nat where
  "nanos_per_milli = 1000000"

definition nanos_per_sec :: nat where
  "nanos_per_sec = 1000000000"

text \<open>\<open>Duration::MAX\<close>: \<open>u64::MAX\<close> seconds and 999999999 nanoseconds.\<close>

definition duration_max :: duration where
  "duration_max = u64_max * nanos_per_sec + 999999999"

definition from_millis :: "u64 \<Rightarrow> duration" where
  "from_millis ms = unat ms * nanos_per_milli"

definition from_secs :: "nat \<Rightarrow> duration" where
  "from_secs s = s * nanos_per_sec"

text \<open>\<open>SystemTime::duration_since\<close>: an error when the other time is later.\<close>

definition duration_since :: "system_time \<Rightarrow> system_time \<Rightarrow> duration option" where
  "duration_since t earlier = (if earlier \<le> t then Some (nat (t - earlier)) else None)"

text \<open>On Unix a \<open>SystemTime\<close> holds a signed 64-bit number of seconds.\<close>

definition system_time_max :: system_time where
  "system_time_max = (2 ^ 63 - 1) * 1000000000 + 999999999"

definition checked_add_time :: "system_time \<Rightarrow> duration \<Rightarrow> system_time option" where
  "checked_add_time t d = (if t + int d \<le> system_time_max then Some (t + int d) else None)"

lemma from_millis_pos: "0 < from_millis ms \<longleftrightarrow> 0 < unat ms"
  by (simp add: from_millis_def nanos_per_milli_def)

section \<open>Results\<close>

definition and_then :: "'e + 'a \<Rightarrow> ('a \<Rightarrow> 'e + 'b) \<Rightarrow> 'e + 'b" where
  "and_then m f = (case m of Inl e \<Rightarrow> Inl e | Inr x \<Rightarrow> f x)"

definition ok_or :: "'e \<Rightarrow> 'a option \<Rightarrow> 'e + 'a" where
  "ok_or e m = (case m of None \<Rightarrow> Inl e | Some x \<Rightarrow> Inr x)"

definition map_err :: "'f \<Rightarrow> 'e + 'a \<Rightarrow> 'f + 'a" where
  "map_err f m = (case m of Inl e \<Rightarrow> Inl f | Inr x \<Rightarrow> Inr x)"

lemma and_then_simps [simp]:
  "and_then (Inl e) f = Inl e"
  "and_then (Inr x) f = f x"
  by (simp_all add: and_then_def)

lemma and_then_Inr_iff [result_simps]:
  "and_then m f = Inr y \<longleftrightarrow> (\<exists>x. m = Inr x \<and> f x = Inr y)"
  by (cases m) simp_all

lemma and_then_Inl_iff:
  "and_then m f = Inl e \<longleftrightarrow> m = Inl e \<or> (\<exists>x. m = Inr x \<and> f x = Inl e)"
  by (cases m) simp_all

lemma and_then_cong [fundef_cong]:
  "m = m' \<Longrightarrow> (\<And>x. m' = Inr x \<Longrightarrow> f x = g x) \<Longrightarrow> and_then m f = and_then m' g"
  by (cases m') simp_all

lemma ok_or_simps [simp]: "ok_or e None = Inl e" "ok_or e (Some x) = Inr x"
  by (simp_all add: ok_or_def)

lemma ok_or_Inr_iff [result_simps]: "ok_or e m = Inr x \<longleftrightarrow> m = Some x"
  by (cases m) simp_all

lemma ok_or_Inl_iff [result_simps]: "ok_or e m = Inl f \<longleftrightarrow> m = None \<and> f = e"
  by (cases m) auto

lemma map_err_simps [simp]: "map_err f (Inl e) = Inl f" "map_err f (Inr x) = Inr x"
  by (simp_all add: map_err_def)

lemma map_err_Inr_iff [result_simps]: "map_err f m = Inr x \<longleftrightarrow> m = Inr x"
  by (cases m) simp_all

section \<open>Hash maps\<close>

text \<open>
  A \<open>HashMap\<close> is an association list with distinct keys (\<open>hm_wf\<close>): \<open>get\<close> is \<open>map_of\<close>. The
  iteration order of a hash map is unspecified, so no theorem depends on the list's order.
\<close>

type_synonym ('k, 'v) hashmap = "('k \<times> 'v) list"

definition hm_wf :: "('k, 'v) hashmap \<Rightarrow> bool" where
  "hm_wf m = distinct (map fst m)"

definition hm_insert :: "'k \<Rightarrow> 'v \<Rightarrow> ('k, 'v) hashmap \<Rightarrow> ('k, 'v) hashmap" where
  "hm_insert k v m = AList.update k v m"

definition hm_remove :: "'k \<Rightarrow> ('k, 'v) hashmap \<Rightarrow> ('k, 'v) hashmap" where
  "hm_remove k m = AList.delete k m"

definition hm_retain :: "('k \<Rightarrow> 'v \<Rightarrow> bool) \<Rightarrow> ('k, 'v) hashmap \<Rightarrow> ('k, 'v) hashmap" where
  "hm_retain P m = filter (\<lambda>(k, v). P k v) m"

definition hm_contains :: "('k, 'v) hashmap \<Rightarrow> 'k \<Rightarrow> bool" where
  "hm_contains m k = (map_of m k \<noteq> None)"

lemma hm_wf_Nil [simp]: "hm_wf []"
  by (simp add: hm_wf_def)

lemma hm_wf_insert [simp]: "hm_wf m \<Longrightarrow> hm_wf (hm_insert k v m)"
  by (simp add: hm_wf_def hm_insert_def distinct_update)

lemma hm_wf_remove [simp]: "hm_wf m \<Longrightarrow> hm_wf (hm_remove k m)"
  by (simp add: hm_wf_def hm_remove_def distinct_delete)

lemma hm_wf_retain [simp]: "hm_wf m \<Longrightarrow> hm_wf (hm_retain P m)"
  by (simp add: hm_wf_def hm_retain_def distinct_map_filter)

lemma hm_get_insert [simp]:
  "map_of (hm_insert k v m) k' = (if k' = k then Some v else map_of m k')"
  by (simp add: hm_insert_def update_conv')

lemma hm_get_remove [simp]:
  "map_of (hm_remove k m) k' = (if k' = k then None else map_of m k')"
  by (simp add: hm_remove_def delete_conv')

lemma hm_get_retain:
  "hm_wf m \<Longrightarrow> map_of (hm_retain P m) k =
     (case map_of m k of None \<Rightarrow> None | Some v \<Rightarrow> if P k v then Some v else None)"
proof (induction m)
  case Nil
  then show ?case by (simp add: hm_retain_def)
next
  case (Cons a m)
  obtain k' v' where a: "a = (k', v')" by (cases a)
  from Cons.prems have "hm_wf m" and k': "k' \<notin> fst ` set m"
    by (auto simp: hm_wf_def a)
  then have none: "map_of m k' = None"
    by (simp add: map_of_eq_None_iff)
  from Cons.IH \<open>hm_wf m\<close> none show ?case
    by (auto simp: hm_retain_def a split: option.splits)
qed

lemma hm_get_retain_Some [map_simps]:
  "hm_wf m \<Longrightarrow> map_of (hm_retain P m) k = Some v \<longleftrightarrow> map_of m k = Some v \<and> P k v"
  by (auto simp: hm_get_retain split: option.splits)

lemma hm_get_retain_None [map_simps]:
  "hm_wf m \<Longrightarrow> map_of (hm_retain P m) k = None \<longleftrightarrow> (\<forall>v. map_of m k = Some v \<longrightarrow> \<not> P k v)"
  by (auto simp: hm_get_retain split: option.splits)

lemma hm_mem_iff: "hm_wf m \<Longrightarrow> (k, v) \<in> set m \<longleftrightarrow> map_of m k = Some v"
  by (auto simp: hm_wf_def dest: map_of_SomeD)

lemma hm_length_remove: "length (hm_remove k m) \<le> length m"
  by (simp add: hm_remove_def length_delete_le)

lemma hm_length_insert: "length (hm_insert k v m) = (if hm_contains m k then length m else Suc (length m))"
proof -
  have "length (AList.update k v m) = (if k \<in> fst ` set m then length m else Suc (length m))"
    by (induction m) auto
  then show ?thesis
    by (auto simp: hm_insert_def hm_contains_def map_of_eq_None_iff)
qed

lemma hm_contains_simps [simp]:
  "hm_contains (hm_insert k v m) k' = (k' = k \<or> hm_contains m k')"
  "hm_contains (hm_remove k m) k' = (k' \<noteq> k \<and> hm_contains m k')"
  by (simp_all add: hm_contains_def)

lemma hm_contains_Some [simp]: "map_of m k = Some v \<Longrightarrow> hm_contains m k"
  by (simp add: hm_contains_def)

lemma hm_length_retain: "length (hm_retain P m) \<le> length m"
  by (simp add: hm_retain_def)

section \<open>Deduplication with a set of seen elements\<close>

text \<open>\<open>iter.filter(|x| seen.insert(*x))\<close>: the first occurrence of every element, in order.\<close>

fun first_occurrences :: "'a list \<Rightarrow> 'a list \<Rightarrow> 'a list" where
  "first_occurrences seen [] = []"
| "first_occurrences seen (x # xs) =
     (if x \<in> set seen then first_occurrences seen xs
      else x # first_occurrences (x # seen) xs)"

lemma set_first_occurrences:
  "set (first_occurrences seen xs) = set xs - set seen"
  by (induction seen xs rule: first_occurrences.induct) auto

lemma distinct_first_occurrences [simp]: "distinct (first_occurrences seen xs)"
  by (induction seen xs rule: first_occurrences.induct) (auto simp: set_first_occurrences)

section \<open>State machines driven by operations\<close>

text \<open>
  A component whose public operations are the values of a type \<open>'o\<close> and whose invariant every
  operation keeps. Every run from an initial state keeps the invariant.
\<close>

locale op_machine =
  fixes exec :: "'o \<Rightarrow> 's \<Rightarrow> 's"
    and init :: "'s \<Rightarrow> bool"
    and inv :: "'s \<Rightarrow> bool"
  assumes init_inv: "init s \<Longrightarrow> inv s"
    and exec_inv: "inv s \<Longrightarrow> inv (exec o1 s)"
begin

lemma run_inv_from: "inv s \<Longrightarrow> inv (fold exec os s)"
  by (induction os arbitrary: s) (auto intro: exec_inv)

lemma run_inv: "init s \<Longrightarrow> inv (fold exec os s)"
  by (rule run_inv_from) (rule init_inv)

text \<open>A fact that every operation keeps below the invariant holds along the whole run.\<close>

lemma run_preserves:
  assumes keep: "\<And>o1 s. inv s \<Longrightarrow> P s \<Longrightarrow> P (exec o1 s)"
    and "inv s" and "P s"
  shows "P (fold exec os s)"
  using assms(2,3)
  by (induction os arbitrary: s) (auto intro: exec_inv keep)

end

text \<open>A machine whose steps are a relation: an invariant of the steps holds in every reachable state.\<close>

locale step_machine =
  fixes step :: "'s \<Rightarrow> 's \<Rightarrow> bool"
    and init :: "'s \<Rightarrow> bool"
    and inv :: "'s \<Rightarrow> bool"
  assumes init_inv: "init s \<Longrightarrow> inv s"
    and step_inv: "inv s \<Longrightarrow> step s s' \<Longrightarrow> inv s'"
begin

lemma reach_inv:
  assumes "init s0" and "step\<^sup>*\<^sup>* s0 s"
  shows "inv s"
  using assms(2,1) by (induction rule: rtranclp_induct) (auto intro: init_inv step_inv)

end

text \<open>The range \<open>xs[a..b]\<close> of a slice.\<close>

definition slice :: "nat \<Rightarrow> nat \<Rightarrow> 'a list \<Rightarrow> 'a list" where
  "slice a b xs = take (b - a) (drop a xs)"

end
