(* ===== verification/Ladon_Error.thy ===== *)
theory Ladon_Error
  imports Ladon_Prelude
begin

text \<open>
  The error type of the workspace (\<open>crates/ladon-core/src/error.rs\<close>): its variants, the stable
  code each carries over IPC, the inverse table that reads a code back, and the message shown to
  agents. String literals of the source are ASCII, so they are HOL strings.
\<close>

datatype (plugins only: code) ladon_error =
    InvalidSecretRef
  | InvalidFieldName
  | FieldTooLarge
  | DuplicateField
  | EmptyRecord
  | TooManyFields
  | VaultPayloadTooLarge
  | InvalidVaultPayload
  | InvalidVaultFile
  | UnsupportedVaultVersion
  | VaultAuthenticationFailed
  | CryptoUnavailable
  | DuplicateSecretName
  | SecretNotFound
  | FieldNotFound
  | RevisionOverflow
  | StorageFailure
  | VaultUnavailable
  | VaultLocked
  | InvalidFrame
  | IpcDisconnected
  | IpcTimeout
  | InvalidResponse
  | FrameTooLarge
  | InvalidRequest
  | UnsupportedProtocolVersion
  | InvalidOutputLimit
  | InvalidExecutablePath
  | InvalidWorkingDirectory
  | InvalidBinding
  | TooManyBindings
  | InvalidTimeout
  | InjectedDataTooLarge
  | SecretInCommand
  | Busy
  | ProcessFailure
  | AlreadyRunning
  | UnsafeEndpoint
  | EndpointUnavailable
  | InvalidPeer
  | InvalidPassphrase
  | InvalidPin
  | ApprovalAuthenticationFailed
  | ApprovalDenied
  | ApprovalTimeout
  | ApprovalCancelled
  | TouchIdUnavailable
  | IntegrationFailure

type_synonym 'a res = "ladon_error + 'a"

primrec code :: "ladon_error \<Rightarrow> string" where
  "code InvalidSecretRef = ''invalid_secret_ref''"
| "code InvalidFieldName = ''invalid_field_name''"
| "code FieldTooLarge = ''field_too_large''"
| "code DuplicateField = ''duplicate_field''"
| "code EmptyRecord = ''empty_record''"
| "code TooManyFields = ''too_many_fields''"
| "code VaultPayloadTooLarge = ''vault_payload_too_large''"
| "code InvalidVaultPayload = ''invalid_vault_payload''"
| "code InvalidVaultFile = ''invalid_vault_file''"
| "code UnsupportedVaultVersion = ''unsupported_vault_version''"
| "code VaultAuthenticationFailed = ''vault_authentication_failed''"
| "code CryptoUnavailable = ''crypto_unavailable''"
| "code DuplicateSecretName = ''duplicate_secret_name''"
| "code SecretNotFound = ''secret_not_found''"
| "code FieldNotFound = ''field_not_found''"
| "code RevisionOverflow = ''revision_overflow''"
| "code StorageFailure = ''storage_failure''"
| "code VaultUnavailable = ''vault_unavailable''"
| "code VaultLocked = ''vault_locked''"
| "code InvalidFrame = ''invalid_frame''"
| "code IpcDisconnected = ''ipc_disconnected''"
| "code IpcTimeout = ''ipc_timeout''"
| "code InvalidResponse = ''invalid_response''"
| "code FrameTooLarge = ''frame_too_large''"
| "code InvalidRequest = ''invalid_request''"
| "code UnsupportedProtocolVersion = ''unsupported_protocol_version''"
| "code InvalidOutputLimit = ''invalid_output_limit''"
| "code InvalidExecutablePath = ''invalid_executable_path''"
| "code InvalidWorkingDirectory = ''invalid_working_directory''"
| "code InvalidBinding = ''invalid_binding''"
| "code TooManyBindings = ''too_many_bindings''"
| "code InvalidTimeout = ''invalid_timeout''"
| "code InjectedDataTooLarge = ''injected_data_too_large''"
| "code SecretInCommand = ''secret_in_command''"
| "code Busy = ''busy''"
| "code ProcessFailure = ''process_failure''"
| "code AlreadyRunning = ''already_running''"
| "code UnsafeEndpoint = ''unsafe_endpoint''"
| "code EndpointUnavailable = ''endpoint_unavailable''"
| "code InvalidPeer = ''invalid_peer''"
| "code InvalidPassphrase = ''invalid_passphrase''"
| "code InvalidPin = ''invalid_pin''"
| "code ApprovalAuthenticationFailed = ''approval_authentication_failed''"
| "code ApprovalDenied = ''approval_denied''"
| "code ApprovalTimeout = ''approval_timeout''"
| "code ApprovalCancelled = ''approval_cancelled''"
| "code TouchIdUnavailable = ''touch_id_unavailable''"
| "code IntegrationFailure = ''integration_failure''"

text \<open>The match of \<open>from_code\<close>: its arms in the order of the source.\<close>

definition code_table :: "(string \<times> ladon_error) list" where
  "code_table = [
     (''invalid_secret_ref'', InvalidSecretRef),
     (''invalid_field_name'', InvalidFieldName),
     (''field_too_large'', FieldTooLarge),
     (''duplicate_field'', DuplicateField),
     (''empty_record'', EmptyRecord),
     (''too_many_fields'', TooManyFields),
     (''vault_payload_too_large'', VaultPayloadTooLarge),
     (''invalid_vault_payload'', InvalidVaultPayload),
     (''invalid_vault_file'', InvalidVaultFile),
     (''unsupported_vault_version'', UnsupportedVaultVersion),
     (''vault_authentication_failed'', VaultAuthenticationFailed),
     (''crypto_unavailable'', CryptoUnavailable),
     (''duplicate_secret_name'', DuplicateSecretName),
     (''secret_not_found'', SecretNotFound),
     (''field_not_found'', FieldNotFound),
     (''revision_overflow'', RevisionOverflow),
     (''storage_failure'', StorageFailure),
     (''vault_unavailable'', VaultUnavailable),
     (''vault_locked'', VaultLocked),
     (''invalid_frame'', InvalidFrame),
     (''ipc_disconnected'', IpcDisconnected),
     (''ipc_timeout'', IpcTimeout),
     (''invalid_response'', InvalidResponse),
     (''frame_too_large'', FrameTooLarge),
     (''invalid_request'', InvalidRequest),
     (''unsupported_protocol_version'', UnsupportedProtocolVersion),
     (''invalid_output_limit'', InvalidOutputLimit),
     (''invalid_executable_path'', InvalidExecutablePath),
     (''invalid_working_directory'', InvalidWorkingDirectory),
     (''invalid_binding'', InvalidBinding),
     (''too_many_bindings'', TooManyBindings),
     (''invalid_timeout'', InvalidTimeout),
     (''injected_data_too_large'', InjectedDataTooLarge),
     (''secret_in_command'', SecretInCommand),
     (''busy'', Busy),
     (''process_failure'', ProcessFailure),
     (''already_running'', AlreadyRunning),
     (''unsafe_endpoint'', UnsafeEndpoint),
     (''endpoint_unavailable'', EndpointUnavailable),
     (''invalid_peer'', InvalidPeer),
     (''invalid_passphrase'', InvalidPassphrase),
     (''invalid_pin'', InvalidPin),
     (''approval_authentication_failed'', ApprovalAuthenticationFailed),
     (''approval_denied'', ApprovalDenied),
     (''approval_timeout'', ApprovalTimeout),
     (''approval_cancelled'', ApprovalCancelled),
     (''touch_id_unavailable'', TouchIdUnavailable),
     (''integration_failure'', IntegrationFailure)]"

definition from_code :: "string \<Rightarrow> ladon_error option" where
  "from_code c = map_of code_table c"

primrec safe_message :: "ladon_error \<Rightarrow> string" where
  "safe_message InvalidSecretRef = ''invalid secret reference''"
| "safe_message InvalidFieldName = ''invalid field name''"
| "safe_message FieldTooLarge = ''field value exceeds the size limit''"
| "safe_message DuplicateField = ''record contains duplicate field names''"
| "safe_message EmptyRecord = ''record must contain at least one field''"
| "safe_message TooManyFields = ''record contains too many fields''"
| "safe_message VaultPayloadTooLarge = ''vault payload exceeds the size limit''"
| "safe_message InvalidVaultPayload = ''invalid vault payload''"
| "safe_message InvalidVaultFile = ''invalid vault file''"
| "safe_message UnsupportedVaultVersion = ''unsupported vault version''"
| "safe_message VaultAuthenticationFailed = ''vault authentication failed''"
| "safe_message CryptoUnavailable = ''cryptographic randomness is unavailable''"
| "safe_message DuplicateSecretName = ''a secret with that name already exists''"
| "safe_message SecretNotFound = ''secret not found''"
| "safe_message FieldNotFound = ''secret field not found''"
| "safe_message RevisionOverflow = ''vault revision cannot be incremented''"
| "safe_message StorageFailure = ''vault storage operation failed''"
| "safe_message VaultUnavailable = ''neither managed vault copy can be opened''"
| "safe_message VaultLocked = ''vault is locked''"
| "safe_message InvalidFrame = ''IPC frame is invalid''"
| "safe_message IpcDisconnected = ''local Ladon connection closed before a complete IPC message was received''"
| "safe_message IpcTimeout = ''local Ladon IPC read timed out''"
| "safe_message InvalidResponse = ''local Ladon response is malformed or belongs to another request''"
| "safe_message FrameTooLarge = ''IPC frame exceeds the size limit''"
| "safe_message InvalidRequest = ''IPC request is invalid''"
| "safe_message UnsupportedProtocolVersion = ''unsupported protocol version''"
| "safe_message InvalidOutputLimit = ''output limit is outside the supported range''"
| "safe_message InvalidExecutablePath = ''executable path must be absolute''"
| "safe_message InvalidWorkingDirectory = ''working directory must be absolute''"
| "safe_message InvalidBinding = ''secret binding is invalid''"
| "safe_message TooManyBindings = ''run contains too many secret bindings''"
| "safe_message InvalidTimeout = ''run timeout is outside the supported range''"
| "safe_message InjectedDataTooLarge = ''injected secret data exceeds the size limit''"
| "safe_message SecretInCommand = ''managed secret data appears in command metadata''"
| "safe_message Busy = ''another secret-bearing process is already running''"
| "safe_message ProcessFailure = ''process execution failed''"
| "safe_message AlreadyRunning = ''another Ladon instance is already running''"
| "safe_message UnsafeEndpoint = ''local endpoint failed security checks''"
| "safe_message EndpointUnavailable = ''local Ladon endpoint is unavailable''"
| "safe_message InvalidPeer = ''local IPC peer is not the current user''"
| "safe_message InvalidPassphrase = ''passphrase must match, contain at least 12 Unicode characters, and use at most 1024 UTF-8 bytes''"
| "safe_message InvalidPin = ''PIN must match and contain 4 to 12 ASCII digits''"
| "safe_message ApprovalAuthenticationFailed = ''approval authentication failed''"
| "safe_message ApprovalDenied = ''agent request was denied''"
| "safe_message ApprovalTimeout = ''approval request timed out''"
| "safe_message ApprovalCancelled = ''approval request was cancelled''"
| "safe_message TouchIdUnavailable = ''Touch ID is unavailable; use a session PIN''"
| "safe_message IntegrationFailure = ''coding-agent integration configuration failed''"

definition all_errors :: "ladon_error list" where
  "all_errors = [
     InvalidSecretRef, InvalidFieldName, FieldTooLarge, DuplicateField, EmptyRecord,
     TooManyFields, VaultPayloadTooLarge, InvalidVaultPayload, InvalidVaultFile,
     UnsupportedVaultVersion, VaultAuthenticationFailed, CryptoUnavailable,
     DuplicateSecretName, SecretNotFound, FieldNotFound, RevisionOverflow, StorageFailure,
     VaultUnavailable, VaultLocked, InvalidFrame, IpcDisconnected, IpcTimeout,
     InvalidResponse, FrameTooLarge, InvalidRequest, UnsupportedProtocolVersion,
     InvalidOutputLimit, InvalidExecutablePath, InvalidWorkingDirectory, InvalidBinding,
     TooManyBindings, InvalidTimeout, InjectedDataTooLarge, SecretInCommand, Busy,
     ProcessFailure, AlreadyRunning, UnsafeEndpoint, EndpointUnavailable, InvalidPeer,
     InvalidPassphrase, InvalidPin, ApprovalAuthenticationFailed, ApprovalDenied,
     ApprovalTimeout, ApprovalCancelled, TouchIdUnavailable, IntegrationFailure]"

lemma in_all_errors: "e \<in> set all_errors"
  by (cases e) (simp_all add: all_errors_def)

lemma code_table_eq: "code_table = map (\<lambda>e. (code e, e)) all_errors"
  by (simp add: code_table_def all_errors_def)

lemma code_table_distinct: "distinct (map fst code_table)"
  by code_simp

lemma code_table_complete: "(code e, e) \<in> set code_table"
  using in_all_errors by (auto simp: code_table_eq)

lemma from_code_code: "from_code (code e) = Some e"
  unfolding from_code_def
  by (rule map_of_is_SomeI [OF code_table_distinct code_table_complete])

lemma code_of_from_code: "from_code c = Some e \<Longrightarrow> code e = c"
  by (auto simp: from_code_def code_table_eq dest: map_of_SomeD)

lemma code_inject: "code e = code f \<longleftrightarrow> e = f"
  by (metis from_code_code option.inject)

end
