(* ===== verification/Ladon_Str.thy ===== *)
theory Ladon_Str
  imports Ladon_Prelude "HOL-Library.Sublist"
begin

text \<open>
  Rust strings. A \<open>str\<close> is its UTF-8 bytes, a \<open>char\<close> of such a string the bytes that encode it.
  \<open>utf8_check\<close> is \<open>std::str::from_utf8\<close> with the two numbers of its error, \<open>valid_up_to\<close> and
  \<open>error_len\<close>; \<open>chars\<close>, \<open>codepoint\<close>, \<open>is_char_boundary\<close> and the prefix and substring tests are
  those of \<open>str\<close>.
\<close>

type_synonym str = "byte list"

text \<open>The bytes of an ASCII literal of the source.\<close>

definition ascii :: "string \<Rightarrow> str" where
  "ascii s = map of_char s"

lemma length_ascii [simp]: "length (ascii s) = length s"
  by (simp add: ascii_def)

section \<open>Validation\<close>

definition is_cont :: "byte \<Rightarrow> bool" where
  "is_cont b = (128 \<le> unat b \<and> unat b < 192)"

definition utf8_width :: "byte \<Rightarrow> nat" where
  "utf8_width b =
     (if unat b < 128 then 1
      else if 194 \<le> unat b \<and> unat b \<le> 223 then 2
      else if 224 \<le> unat b \<and> unat b \<le> 239 then 3
      else if 240 \<le> unat b \<and> unat b \<le> 244 then 4
      else 0)"

text \<open>The second byte of a sequence: it excludes overlong forms, surrogates and values above
  U+10FFFF.\<close>

definition second_ok :: "byte \<Rightarrow> byte \<Rightarrow> bool" where
  "second_ok b0 b1 =
     (is_cont b1 \<and>
      (if unat b0 = 224 then 160 \<le> unat b1
       else if unat b0 = 237 then unat b1 \<le> 159
       else if unat b0 = 240 then 144 \<le> unat b1
       else if unat b0 = 244 then unat b1 \<le> 143
       else True))"

datatype utf8_outcome = Scalar nat | Invalid nat | Incomplete

fun utf8_step :: "byte list \<Rightarrow> utf8_outcome" where
  "utf8_step [] = Incomplete"
| "utf8_step (b0 # rest) =
     (if utf8_width b0 = 1 then Scalar 1
      else if utf8_width b0 = 2 then
        (case rest of [] \<Rightarrow> Incomplete
         | b1 # _ \<Rightarrow> if is_cont b1 then Scalar 2 else Invalid 1)
      else if utf8_width b0 = 3 then
        (case rest of [] \<Rightarrow> Incomplete
         | b1 # r1 \<Rightarrow> if second_ok b0 b1 then
             (case r1 of [] \<Rightarrow> Incomplete
              | b2 # _ \<Rightarrow> if is_cont b2 then Scalar 3 else Invalid 2)
           else Invalid 1)
      else if utf8_width b0 = 4 then
        (case rest of [] \<Rightarrow> Incomplete
         | b1 # r1 \<Rightarrow> if second_ok b0 b1 then
             (case r1 of [] \<Rightarrow> Incomplete
              | b2 # r2 \<Rightarrow> if is_cont b2 then
                  (case r2 of [] \<Rightarrow> Incomplete
                   | b3 # _ \<Rightarrow> if is_cont b3 then Scalar 4 else Invalid 3)
                else Invalid 2)
           else Invalid 1)
      else Invalid 1)"

lemma utf8_step_Scalar:
  "utf8_step bs = Scalar w \<Longrightarrow> 0 < w \<and> w \<le> 4 \<and> w \<le> length bs \<and> utf8_width (hd bs) = w"
  by (cases bs) (auto split: if_splits list.splits)

lemma utf8_step_Invalid:
  "utf8_step bs = Invalid n \<Longrightarrow> 0 < n \<and> n \<le> 3 \<and> n \<le> length bs"
  by (cases bs) (auto split: if_splits list.splits)

lemma utf8_step_append:
  "utf8_step bs = Scalar w \<Longrightarrow> utf8_step (bs @ cs) = Scalar w"
  by (cases bs) (auto split: if_splits list.splits)

lemma utf8_step_take:
  "utf8_step bs = Scalar w \<Longrightarrow> utf8_step (take w bs) = Scalar w"
  by (cases bs) (auto split: if_splits list.splits simp: take_Cons' numeral_eq_Suc)

function utf8_check :: "byte list \<Rightarrow> (nat \<times> nat option) + unit" where
  "utf8_check bs =
     (if bs = [] then Inr ()
      else case utf8_step bs of
        Scalar w \<Rightarrow>
          (case utf8_check (drop w bs) of
             Inr u \<Rightarrow> Inr u
           | Inl (valid_up_to, error_len) \<Rightarrow> Inl (w + valid_up_to, error_len))
      | Invalid n \<Rightarrow> Inl (0, Some n)
      | Incomplete \<Rightarrow> Inl (0, None))"
  by pat_completeness auto
termination
  by (relation "measure length") (auto dest: utf8_step_Scalar)

declare utf8_check.simps [simp del]

definition valid_utf8 :: "byte list \<Rightarrow> bool" where
  "valid_utf8 bs = (utf8_check bs = Inr ())"

lemma utf8_check_Nil [simp]: "utf8_check [] = Inr ()"
  by (simp add: utf8_check.simps)

lemma valid_utf8_Nil [simp]: "valid_utf8 []"
  by (simp add: valid_utf8_def)

lemma valid_utf8_step:
  "bs \<noteq> [] \<Longrightarrow> valid_utf8 bs \<longleftrightarrow> (\<exists>w. utf8_step bs = Scalar w \<and> valid_utf8 (drop w bs))"
  unfolding valid_utf8_def
  by (subst utf8_check.simps) (auto split: utf8_outcome.splits sum.splits prod.splits)

lemma valid_utf8_append:
  "valid_utf8 bs \<Longrightarrow> valid_utf8 cs \<Longrightarrow> valid_utf8 (bs @ cs)"
proof (induction bs rule: length_induct)
  case (1 bs)
  show ?case
  proof (cases "bs = []")
    case True
    with 1 show ?thesis by simp
  next
    case False
    with "1.prems" obtain w where w: "utf8_step bs = Scalar w" and v: "valid_utf8 (drop w bs)"
      by (auto simp: valid_utf8_step)
    from utf8_step_Scalar [OF w] False have "length (drop w bs) < length bs" and wl: "w \<le> length bs"
      by auto
    with "1.IH" v "1.prems"(2) have "valid_utf8 (drop w bs @ cs)" by blast
    moreover have "drop w (bs @ cs) = drop w bs @ cs" using wl by simp
    ultimately show ?thesis
      using w False by (auto simp: valid_utf8_step utf8_step_append)
  qed
qed

text \<open>The bytes below \<open>valid_up_to\<close> are valid, and the invalid sequence lies inside the input.\<close>

lemma utf8_check_error:
  "utf8_check bs = Inl (v, e) \<Longrightarrow>
     valid_utf8 (take v bs) \<and> v < length bs \<and>
     (case e of Some n \<Rightarrow> 0 < n \<and> v + n \<le> length bs | None \<Rightarrow> utf8_step (drop v bs) = Incomplete)"
proof (induction bs arbitrary: v e rule: utf8_check.induct)
  case (1 bs)
  show ?case
  proof (cases "utf8_step bs")
    case (Scalar w)
    note w = utf8_step_Scalar [OF Scalar]
    from "1.prems" have ne: "bs \<noteq> []" by auto
    with "1.prems" Scalar obtain v' where v': "utf8_check (drop w bs) = Inl (v', e)" and v: "v = w + v'"
      by (auto simp: utf8_check.simps [of bs] split: sum.splits)
    from "1.IH" [OF ne Scalar v']
    have ih: "valid_utf8 (take v' (drop w bs))" "v' < length (drop w bs)"
      "case e of Some n \<Rightarrow> 0 < n \<and> v' + n \<le> length (drop w bs)
         | None \<Rightarrow> utf8_step (drop v' (drop w bs)) = Incomplete"
      by auto
    have "take v bs = take w bs @ take v' (drop w bs)"
      by (simp add: v take_add)
    moreover have "valid_utf8 (take w bs)"
      using Scalar ne w by (auto simp: valid_utf8_step utf8_step_take)
    ultimately have "valid_utf8 (take v bs)"
      using ih(1) valid_utf8_append by metis
    with ih(2,3) v show ?thesis
      by (auto split: option.splits simp: add.commute)
  next
    case (Invalid n)
    from utf8_step_Invalid [OF Invalid] Invalid "1.prems" show ?thesis
      by (auto simp: utf8_check.simps [of bs] split: if_splits)
  next
    case Incomplete
    with "1.prems" show ?thesis
      by (auto simp: utf8_check.simps [of bs] split: if_splits)
  qed
qed

section \<open>Characters\<close>

text \<open>The characters of a string, each as its UTF-8 bytes.\<close>

function chars :: "str \<Rightarrow> str list" where
  "chars s =
     (case utf8_step s of
        Scalar w \<Rightarrow> take w s # chars (drop w s)
      | _ \<Rightarrow> [])"
  by pat_completeness auto
termination
  by (relation "measure length") (auto dest: utf8_step_Scalar)

declare chars.simps [simp del]

text \<open>The bytes of one well-formed character.\<close>

definition is_char :: "byte list \<Rightarrow> bool" where
  "is_char c = (utf8_step c = Scalar (length c))"

lemma is_char_take: "utf8_step bs = Scalar w \<Longrightarrow> is_char (take w bs)"
  using utf8_step_Scalar [of bs w] by (simp add: is_char_def utf8_step_take min_absorb2)

lemma chars_are_chars: "c \<in> set (chars s) \<Longrightarrow> is_char c"
proof (induction s rule: chars.induct)
  case (1 s)
  then show ?case
    by (cases "utf8_step s") (auto simp: chars.simps [of s] intro: is_char_take)
qed

lemma concat_chars: "valid_utf8 s \<Longrightarrow> concat (chars s) = s"
proof (induction s rule: chars.induct)
  case (1 s)
  show ?case
  proof (cases "s = []")
    case True
    then show ?thesis by (simp add: chars.simps)
  next
    case False
    with "1.prems" obtain w where "utf8_step s = Scalar w" "valid_utf8 (drop w s)"
      by (auto simp: valid_utf8_step)
    with "1.IH" show ?thesis
      by (simp add: chars.simps [of s])
  qed
qed

lemma is_char_valid: "is_char c \<Longrightarrow> valid_utf8 c"
  using utf8_step_Scalar [of c "length c"]
  by (cases "c = []") (auto simp: is_char_def valid_utf8_step)

lemma concat_chars_valid: "\<forall>c \<in> set cs. is_char c \<Longrightarrow> valid_utf8 (concat cs)"
  by (induction cs) (auto intro: valid_utf8_append is_char_valid)

lemma is_char_length: "is_char c \<Longrightarrow> 0 < length c \<and> length c \<le> 4 \<and> utf8_width (hd c) = length c"
  using utf8_step_Scalar by (auto simp: is_char_def)

text \<open>The scalar value of a character.\<close>

definition codepoint :: "byte list \<Rightarrow> nat" where
  "codepoint c =
     (case c of
        [b0] \<Rightarrow> unat b0
      | [b0, b1] \<Rightarrow> (unat b0 - 192) * 64 + (unat b1 - 128)
      | [b0, b1, b2] \<Rightarrow> (unat b0 - 224) * 4096 + (unat b1 - 128) * 64 + (unat b2 - 128)
      | [b0, b1, b2, b3] \<Rightarrow> (unat b0 - 240) * 262144 + (unat b1 - 128) * 4096
          + (unat b2 - 128) * 64 + (unat b3 - 128)
      | _ \<Rightarrow> 0)"

text \<open>\<open>char::is_control\<close>: the Unicode category Cc.\<close>

definition is_control :: "byte list \<Rightarrow> bool" where
  "is_control c = (codepoint c < 32 \<or> (127 \<le> codepoint c \<and> codepoint c < 160))"

text \<open>\<open>char::is_whitespace\<close>: the Unicode property White_Space.\<close>

definition is_whitespace :: "byte list \<Rightarrow> bool" where
  "is_whitespace c =
     (let cp = codepoint c in
      (9 \<le> cp \<and> cp \<le> 13) \<or> cp = 32 \<or> cp = 133 \<or> cp = 160 \<or> cp = 0x1680 \<or>
      (0x2000 \<le> cp \<and> cp \<le> 0x200a) \<or> cp = 0x2028 \<or> cp = 0x2029 \<or> cp = 0x202f \<or>
      cp = 0x205f \<or> cp = 0x3000)"

definition trim :: "str \<Rightarrow> str" where
  "trim s = concat (rev (dropWhile is_whitespace (rev (dropWhile is_whitespace (chars s)))))"

section \<open>Boundaries, prefixes and ASCII classes\<close>

definition is_char_boundary :: "str \<Rightarrow> nat \<Rightarrow> bool" where
  "is_char_boundary s i =
     (i = 0 \<or> i = length s \<or> (i < length s \<and> \<not> is_cont (s ! i)))"

definition strip_prefix :: "str \<Rightarrow> str \<Rightarrow> str option" where
  "strip_prefix p s = (if take (length p) s = p then Some (drop (length p) s) else None)"

definition starts_with :: "str \<Rightarrow> str \<Rightarrow> bool" where
  "starts_with p s = (take (length p) s = p)"

definition is_ascii_digit :: "byte \<Rightarrow> bool" where
  "is_ascii_digit b = (48 \<le> unat b \<and> unat b \<le> 57)"

definition is_ascii_alphabetic :: "byte \<Rightarrow> bool" where
  "is_ascii_alphabetic b =
     ((65 \<le> unat b \<and> unat b \<le> 90) \<or> (97 \<le> unat b \<and> unat b \<le> 122))"

definition is_ascii_alphanumeric :: "byte \<Rightarrow> bool" where
  "is_ascii_alphanumeric b = (is_ascii_alphabetic b \<or> is_ascii_digit b)"

lemma strip_prefix_append [simp]: "strip_prefix p (p @ s) = Some s"
  by (simp add: strip_prefix_def)

lemma strip_prefix_Some: "strip_prefix p s = Some r \<Longrightarrow> s = p @ r"
  by (auto simp: strip_prefix_def split: if_splits) (metis append_take_drop_id)

lemma strip_prefix_None: "strip_prefix p s = None \<longleftrightarrow> \<not> starts_with p s"
  by (simp add: strip_prefix_def starts_with_def)

lemma utf8_width_ascii: "b < 128 \<Longrightarrow> utf8_width b = 1"
  by (simp add: utf8_width_def word_less_nat_alt)

lemma ascii_valid_utf8: "list_all (\<lambda>b. b < 128) s \<Longrightarrow> valid_utf8 s"
  by (induction s) (simp_all add: valid_utf8_step utf8_width_ascii)

lemma chars_append: "valid_utf8 a \<Longrightarrow> chars (a @ b) = chars a @ chars b"
proof (induction a rule: chars.induct)
  case (1 a)
  show ?case
  proof (cases "a = []")
    case True
    then show ?thesis by (simp add: chars.simps [of "[]"])
  next
    case False
    with "1.prems" obtain w where w: "utf8_step a = Scalar w" "valid_utf8 (drop w a)"
      by (auto simp: valid_utf8_step)
    with utf8_step_Scalar [OF w(1)] "1.IH" [OF w] show ?thesis
      by (simp add: chars.simps [of "a @ b"] chars.simps [of a] utf8_step_append)
  qed
qed

lemma of_nat_ascii: "n < 128 \<Longrightarrow> of_nat n < (128 :: byte)"
  by (simp add: word_less_nat_alt unat_of_nat)

lemma chars_ascii: "list_all (\<lambda>b. b < 128) s \<Longrightarrow> chars s = map (\<lambda>x. [x]) s"
  by (induction s) (simp_all add: chars.simps utf8_width_ascii)

end
