(* ===== verification/Ladon_Model.thy ===== *)
theory Ladon_Model
  imports Ladon_Error Ladon_Str
begin

text \<open>
  Secret identifiers, names, references, fields and records
  (\<open>crates/ladon-core/src/model.rs\<close>, with \<open>sensitive.rs\<close>, whose \<open>SensitiveBytes\<close> is the byte
  string it wraps).

  The Unicode normalisation of the \<open>unicode-normalization\<close> crate and the text form of the \<open>uuid\<close>
  crate are not part of the repository: they are the fields of \<open>text_env\<close>, and \<open>text_laws\<close> is
  what the code relies on (normalisation is idempotent and yields text; a printed identifier
  parses back).
\<close>

record text_env =
  nfc :: "str \<Rightarrow> str"
  parse_uuid :: "str \<Rightarrow> uuid option"
  show_uuid :: "uuid \<Rightarrow> str"

definition text_laws :: "text_env \<Rightarrow> bool" where
  "text_laws env =
     ((\<forall>s. nfc env (nfc env s) = nfc env s) \<and>
      (\<forall>s. valid_utf8 s \<longrightarrow> valid_utf8 (nfc env s)) \<and>
      (\<forall>u. parse_uuid env (show_uuid env u) = Some u))"

section \<open>Identifiers, names and references\<close>

datatype secret_id = SecretId uuid

definition parse_secret_id :: "text_env \<Rightarrow> str \<Rightarrow> secret_id res" where
  "parse_secret_id env input =
     (case parse_uuid env input of Some u \<Rightarrow> Inr (SecretId u) | None \<Rightarrow> Inl InvalidSecretRef)"

definition id_from_bytes :: "byte list \<Rightarrow> secret_id" where
  "id_from_bytes bs = SecretId (of_nat (be_nat bs))"

primrec id_as_bytes :: "secret_id \<Rightarrow> byte list" where
  "id_as_bytes (SecretId u) = be_bytes 16 (unat u)"

primrec display_secret_id :: "text_env \<Rightarrow> secret_id \<Rightarrow> str" where
  "display_secret_id env (SecretId u) = show_uuid env u"

datatype secret_name = SecretName (name_str: str)

definition is_forbidden_name_character :: "byte list \<Rightarrow> bool" where
  "is_forbidden_name_character c =
     (let cp = codepoint c in
      cp < 32 \<or> cp = 127 \<or>
      cp = 0x061c \<or> cp = 0x200e \<or> cp = 0x200f \<or>
      (0x202a \<le> cp \<and> cp \<le> 0x202e) \<or> (0x2066 \<le> cp \<and> cp \<le> 0x2069))"

text \<open>The checks of \<open>SecretName::parse\<close> on the normalised text.\<close>

definition valid_secret_name :: "str \<Rightarrow> bool" where
  "valid_secret_name normalized =
     (normalized \<noteq> [] \<and> length normalized \<le> 128 \<and>
      \<not> sublist (ascii ''::'') normalized \<and>
      \<not> starts_with (ascii ''id:'') normalized \<and>
      list_all (\<lambda>c. \<not> is_forbidden_name_character c) (chars normalized))"

definition parse_secret_name :: "text_env \<Rightarrow> str \<Rightarrow> secret_name res" where
  "parse_secret_name env input =
     (let normalized = nfc env input in
      if valid_secret_name normalized then Inr (SecretName normalized)
      else Inl InvalidSecretRef)"

datatype secret_ref = RefName secret_name | RefId secret_id

definition parse_secret_ref :: "text_env \<Rightarrow> str \<Rightarrow> secret_ref res" where
  "parse_secret_ref env input =
     (case strip_prefix (ascii ''id:'') input of
        Some uuid_text \<Rightarrow> and_then (parse_secret_id env uuid_text) (\<lambda>i. Inr (RefId i))
      | None \<Rightarrow> and_then (parse_secret_name env input) (\<lambda>n. Inr (RefName n)))"

primrec display_secret_ref :: "text_env \<Rightarrow> secret_ref \<Rightarrow> str" where
  "display_secret_ref env (RefName n) = name_str n"
| "display_secret_ref env (RefId i) = ascii ''id:'' @ display_secret_id env i"

section \<open>Fields and records\<close>

definition MAX_FIELD_BYTES :: nat where
  "MAX_FIELD_BYTES = 1024 * 1024"

definition MAX_FIELDS_PER_RECORD :: nat where
  "MAX_FIELDS_PER_RECORD = 64"

datatype field_name = FieldName (field_str: str)

definition valid_field_name :: "str \<Rightarrow> bool" where
  "valid_field_name input =
     (length input \<le> 64 \<and>
      (case input of
         [] \<Rightarrow> False
       | b # bs \<Rightarrow> is_ascii_alphabetic b \<and>
           list_all (\<lambda>c. is_ascii_alphanumeric c \<or> c = of_char CHR ''_'' \<or> c = of_char CHR ''-'') bs))"

definition parse_field_name :: "str \<Rightarrow> field_name res" where
  "parse_field_name input =
     (if valid_field_name input then Inr (FieldName input) else Inl InvalidFieldName)"

datatype text_hint = HintBinary | HintText

record secret_field =
  sf_name :: field_name
  sf_value :: "byte list"
  sf_hint :: text_hint

definition new_secret_field :: "field_name \<Rightarrow> byte list \<Rightarrow> text_hint \<Rightarrow> secret_field res" where
  "new_secret_field name v hint =
     (if length v > MAX_FIELD_BYTES then Inl FieldTooLarge
      else Inr \<lparr>sf_name = name, sf_value = v, sf_hint = hint\<rparr>)"

record secret_record =
  sr_id :: secret_id
  sr_name :: secret_name
  sr_fields :: "secret_field list"

text \<open>\<open>SecretRecord::from_parts\<close>, with the order of its checks: the name is parsed last.\<close>

definition from_parts :: "text_env \<Rightarrow> secret_id \<Rightarrow> str \<Rightarrow> secret_field list \<Rightarrow> secret_record res" where
  "from_parts env i name flds =
     (if flds = [] then Inl EmptyRecord
      else if length flds > MAX_FIELDS_PER_RECORD then Inl TooManyFields
      else if \<not> distinct (map sf_name flds) then Inl DuplicateField
      else and_then (parse_secret_name env name)
        (\<lambda>n. Inr \<lparr>sr_id = i, sr_name = n, sr_fields = flds\<rparr>))"

text \<open>\<open>SecretRecord::new\<close>: the fresh identifier of \<open>Uuid::new_v4\<close> is an argument.\<close>

definition new_secret_record ::
    "text_env \<Rightarrow> uuid \<Rightarrow> str \<Rightarrow> secret_field list \<Rightarrow> secret_record res" where
  "new_secret_record env fresh name flds = from_parts env (SecretId fresh) name flds"

definition rename_record :: "text_env \<Rightarrow> str \<Rightarrow> secret_record \<Rightarrow> secret_record res" where
  "rename_record env name r =
     and_then (parse_secret_name env name) (\<lambda>n. Inr (r\<lparr>sr_name := n\<rparr>))"

definition set_name :: "secret_name \<Rightarrow> secret_record \<Rightarrow> secret_record" where
  "set_name n r = r\<lparr>sr_name := n\<rparr>"

section \<open>Well-formed records\<close>

text \<open>
  The invariant of the types: a name, a field name and a field only ever exist in the form their
  constructors accept, and a record holds between 1 and 64 fields with distinct names.
\<close>

definition name_wf :: "text_env \<Rightarrow> secret_name \<Rightarrow> bool" where
  "name_wf env n =
     (valid_utf8 (name_str n) \<and> valid_secret_name (name_str n) \<and> nfc env (name_str n) = name_str n)"

definition field_wf :: "secret_field \<Rightarrow> bool" where
  "field_wf f = (valid_field_name (field_str (sf_name f)) \<and> length (sf_value f) \<le> MAX_FIELD_BYTES)"

definition record_wf :: "text_env \<Rightarrow> secret_record \<Rightarrow> bool" where
  "record_wf env r =
     (sr_fields r \<noteq> [] \<and> length (sr_fields r) \<le> MAX_FIELDS_PER_RECORD \<and>
      distinct (map sf_name (sr_fields r)) \<and> list_all field_wf (sr_fields r) \<and>
      name_wf env (sr_name r))"

lemma parse_secret_name_wf:
  "text_laws env \<Longrightarrow> valid_utf8 s \<Longrightarrow> parse_secret_name env s = Inr n \<Longrightarrow> name_wf env n"
  by (auto simp: parse_secret_name_def name_wf_def text_laws_def Let_def split: if_splits)

lemma parse_secret_name_self [simp]:
  "name_wf env n \<Longrightarrow> parse_secret_name env (name_str n) = Inr n"
  by (simp add: parse_secret_name_def name_wf_def)

lemma parse_field_name_self [simp]:
  "valid_field_name (field_str n) \<Longrightarrow> parse_field_name (field_str n) = Inr n"
  by (simp add: parse_field_name_def)

lemma parse_field_name_Inr:
  "parse_field_name s = Inr n \<longleftrightarrow> valid_field_name s \<and> n = FieldName s"
  by (auto simp: parse_field_name_def)

lemma valid_field_name_utf8: "valid_field_name s \<Longrightarrow> valid_utf8 s"
  by (rule ascii_valid_utf8)
    (auto simp: valid_field_name_def list_all_iff is_ascii_alphanumeric_def is_ascii_alphabetic_def
      is_ascii_digit_def word_less_nat_alt split: list.splits)

lemma new_secret_field_Inr:
  "new_secret_field n v h = Inr f \<longleftrightarrow>
     length v \<le> MAX_FIELD_BYTES \<and> f = \<lparr>sf_name = n, sf_value = v, sf_hint = h\<rparr>"
  by (auto simp: new_secret_field_def)

lemma from_parts_Inr:
  "from_parts env i name flds = Inr r \<longleftrightarrow>
     flds \<noteq> [] \<and> length flds \<le> MAX_FIELDS_PER_RECORD \<and> distinct (map sf_name flds) \<and>
     (\<exists>n. parse_secret_name env name = Inr n \<and> r = \<lparr>sr_id = i, sr_name = n, sr_fields = flds\<rparr>)"
  by (auto simp: from_parts_def and_then_Inr_iff)

lemma from_parts_wf:
  assumes "text_laws env" and "valid_utf8 name" and "list_all field_wf flds"
    and "from_parts env i name flds = Inr r"
  shows "record_wf env r"
  using assms by (auto simp: from_parts_Inr record_wf_def intro: parse_secret_name_wf)

text \<open>A well-formed record is accepted again, unchanged.\<close>

lemma from_parts_self:
  "record_wf env r \<Longrightarrow> from_parts env (sr_id r) (name_str (sr_name r)) (sr_fields r) = Inr r"
  by (auto simp: from_parts_Inr record_wf_def)

lemma id_bytes_roundtrip [simp]: "id_from_bytes (id_as_bytes i) = i"
proof (cases i)
  case (SecretId u)
  have "unat u < 256 ^ 16"
    using unsigned_less [of u, where 'a = nat] by simp
  then show ?thesis
    by (simp add: SecretId id_from_bytes_def del: be_bytes.simps)
qed

lemma length_id_as_bytes [simp]: "length (id_as_bytes i) = 16"
  by (cases i) simp

lemma id_as_bytes_from_bytes: "length bs = 16 \<Longrightarrow> id_as_bytes (id_from_bytes bs) = bs"
proof -
  assume bs: "length bs = 16"
  have "be_nat bs < 2 ^ LENGTH(128)"
    using be_nat_less [of bs] bs by simp
  then have "unat (of_nat (be_nat bs) :: uuid) = be_nat bs"
    by (simp add: unat_of_nat take_bit_nat_eq_self)
  with be_bytes_be_nat [OF bs] show ?thesis
    by (simp only: id_from_bytes_def id_as_bytes.simps)
qed

text \<open>A reference prints to a text that parses to the same reference.\<close>

definition ref_wf :: "text_env \<Rightarrow> secret_ref \<Rightarrow> bool" where
  "ref_wf env r = (case r of RefName n \<Rightarrow> name_wf env n | RefId _ \<Rightarrow> True)"

lemma parse_secret_ref_wf:
  assumes "text_laws env" and "valid_utf8 s" and "parse_secret_ref env s = Inr r"
  shows "ref_wf env r"
  using assms
  by (auto simp: parse_secret_ref_def ref_wf_def and_then_Inr_iff parse_secret_name_wf
      split: option.splits)

lemma parse_display_secret_ref:
  assumes "text_laws env" and "ref_wf env r"
  shows "parse_secret_ref env (display_secret_ref env r) = Inr r"
proof (cases r)
  case (RefName n)
  with assms(2) have wf: "name_wf env n" by (simp add: ref_wf_def)
  then have "strip_prefix (ascii ''id:'') (name_str n) = None"
    by (simp add: strip_prefix_None name_wf_def valid_secret_name_def)
  with wf RefName show ?thesis by (simp add: parse_secret_ref_def)
next
  case (RefId i)
  then show ?thesis
    using assms(1) by (cases i) (simp add: parse_secret_ref_def parse_secret_id_def text_laws_def)
qed

end
