(* ===== verification/Ladon_Grants.thy ===== *)
theory Ladon_Grants
  imports Ladon_Model
begin

text \<open>
  The in-memory grants of agent sessions (\<open>crates/ladon-core/src/grants.rs\<close>): for every pair of a
  client session and a secret at most one deadline. The clock of the store is a parameter of the
  code; every call of it is an argument here (\<open>reading\<close>), and an operation that reads the clock
  again after purging takes a second reading.

  The specification is the partial map \<open>live r gs\<close> of the grants that are usable at a reading
  \<open>r\<close>. Every operation is proved to act on it as \<open>authority_step\<close> says, and every deadline a store
  holds is traced to the operation that granted it.
\<close>

record reading =
  now_millis :: u64
  wall_time :: system_time

type_synonym grant_key = "uuid \<times> secret_id"

datatype grant_deadline =
    Elapsed u64
  | WallClock system_time
  | Unattended system_time u64
  | SessionEnd

definition since_or_zero :: "system_time \<Rightarrow> system_time \<Rightarrow> duration" where
  "since_or_zero deadline wall =
     (case duration_since deadline wall of Some d \<Rightarrow> d | None \<Rightarrow> 0)"

fun deadline_remaining :: "grant_deadline \<Rightarrow> u64 \<Rightarrow> system_time \<Rightarrow> duration" where
  "deadline_remaining (Elapsed deadline) elapsed wall = from_millis (saturating_sub deadline elapsed)"
| "deadline_remaining (WallClock deadline) elapsed wall = since_or_zero deadline wall"
| "deadline_remaining (Unattended deadline bound) elapsed wall =
     min (since_or_zero deadline wall) (from_millis (saturating_sub bound elapsed))"
| "deadline_remaining SessionEnd elapsed wall = duration_max"

fun is_unattended :: "grant_deadline \<Rightarrow> bool" where
  "is_unattended (Unattended _ _) = True"
| "is_unattended _ = False"

record grant_entry =
  ge_client :: uuid
  ge_secret :: secret_id
  ge_remaining :: duration
  ge_expires_with_session :: bool
  ge_unattended :: bool
  ge_expires_at :: "system_time option"

record grant_store =
  lifetime_millis :: u64
  deadlines :: "(grant_key, grant_deadline) hashmap"

definition duration_millis :: "duration \<Rightarrow> u64" where
  "duration_millis d = of_nat (min (d div nanos_per_milli) u64_max)"

section \<open>Operations\<close>

definition new_grant_store :: "duration \<Rightarrow> grant_store" where
  "new_grant_store lifetime = \<lparr>lifetime_millis = duration_millis lifetime, deadlines = []\<rparr>"

definition purge_expired :: "reading \<Rightarrow> grant_store \<Rightarrow> grant_store" where
  "purge_expired r gs =
     gs\<lparr>deadlines := hm_retain
          (\<lambda>_ d. deadline_remaining d (now_millis r) (wall_time r) \<noteq> 0) (deadlines gs)\<rparr>"

definition insert_deadlines ::
    "uuid \<Rightarrow> secret_id list \<Rightarrow> grant_deadline \<Rightarrow> grant_store \<Rightarrow> grant_store" where
  "insert_deadlines client secrets d gs =
     gs\<lparr>deadlines := fold (\<lambda>s m. hm_insert (client, s) d m) secrets (deadlines gs)\<rparr>"

definition grant_for ::
    "reading \<Rightarrow> reading \<Rightarrow> uuid \<Rightarrow> secret_id list \<Rightarrow> duration \<Rightarrow> grant_store \<Rightarrow> grant_store" where
  "grant_for r0 r1 client secrets lifetime gs =
     insert_deadlines client secrets
       (Elapsed (saturating_add (now_millis r1) (duration_millis lifetime)))
       (purge_expired r0 gs)"

definition grant ::
    "reading \<Rightarrow> reading \<Rightarrow> uuid \<Rightarrow> secret_id list \<Rightarrow> grant_store \<Rightarrow> grant_store" where
  "grant r0 r1 client secrets gs =
     grant_for r0 r1 client secrets (from_millis (lifetime_millis gs)) gs"

definition grant_until ::
    "reading \<Rightarrow> uuid \<Rightarrow> secret_id list \<Rightarrow> system_time \<Rightarrow> grant_store \<Rightarrow> grant_store" where
  "grant_until r client secrets deadline gs =
     insert_deadlines client secrets (WallClock deadline) (purge_expired r gs)"

definition grant_session ::
    "reading \<Rightarrow> uuid \<Rightarrow> secret_id list \<Rightarrow> grant_store \<Rightarrow> grant_store" where
  "grant_session r client secrets gs =
     insert_deadlines client secrets SessionEnd (purge_expired r gs)"

definition unattended_deadline :: "reading \<Rightarrow> system_time \<Rightarrow> grant_deadline" where
  "unattended_deadline r deadline =
     Unattended deadline
       (saturating_add (now_millis r) (duration_millis (since_or_zero deadline (wall_time r))))"

definition grant_unattended_until ::
    "reading \<Rightarrow> reading \<Rightarrow> uuid \<Rightarrow> secret_id list \<Rightarrow> system_time \<Rightarrow> grant_store \<Rightarrow> grant_store" where
  "grant_unattended_until r0 r1 client secrets deadline gs =
     insert_deadlines client secrets (unattended_deadline r1 deadline) (purge_expired r0 gs)"

definition retain_unattended :: "reading \<Rightarrow> grant_store \<Rightarrow> grant_store" where
  "retain_unattended r gs =
     (let gs' = purge_expired r gs in
      gs'\<lparr>deadlines := hm_retain (\<lambda>_ d. is_unattended d) (deadlines gs')\<rparr>)"

definition has_unattended :: "reading \<Rightarrow> uuid \<Rightarrow> grant_store \<Rightarrow> bool \<times> grant_store" where
  "has_unattended r client gs =
     (let gs' = purge_expired r gs in
      (list_ex (\<lambda>((c, _), d). c = client \<and> is_unattended d) (deadlines gs'), gs'))"

definition missing_unattended ::
    "reading \<Rightarrow> uuid \<Rightarrow> secret_id list \<Rightarrow> grant_store \<Rightarrow> secret_id list \<times> grant_store" where
  "missing_unattended r client secrets gs =
     (let gs' = purge_expired r gs in
      (filter (\<lambda>s. \<not> (case map_of (deadlines gs') (client, s) of
                        Some d \<Rightarrow> is_unattended d | None \<Rightarrow> False)) secrets, gs'))"

definition revoke_client :: "uuid \<Rightarrow> grant_store \<Rightarrow> grant_store" where
  "revoke_client client gs =
     gs\<lparr>deadlines := hm_retain (\<lambda>(c, _) _. c \<noteq> client) (deadlines gs)\<rparr>"

definition missing ::
    "reading \<Rightarrow> uuid \<Rightarrow> secret_id list \<Rightarrow> grant_store \<Rightarrow> secret_id list \<times> grant_store" where
  "missing r client secrets gs =
     (let gs' = purge_expired r gs in
      (filter (\<lambda>s. \<not> hm_contains (deadlines gs') (client, s)) (first_occurrences [] secrets), gs'))"

definition remaining ::
    "reading \<Rightarrow> reading \<Rightarrow> uuid \<Rightarrow> secret_id \<Rightarrow> grant_store \<Rightarrow> duration option \<times> grant_store" where
  "remaining r0 r1 client secret gs =
     (let gs' = purge_expired r0 gs in
      (map_option (\<lambda>d. deadline_remaining d (now_millis r1) (wall_time r1))
         (map_of (deadlines gs') (client, secret)), gs'))"

definition revoke_all :: "grant_store \<Rightarrow> grant_store" where
  "revoke_all gs = gs\<lparr>deadlines := []\<rparr>"

definition revoke_secret :: "secret_id \<Rightarrow> grant_store \<Rightarrow> grant_store" where
  "revoke_secret secret gs =
     gs\<lparr>deadlines := hm_retain (\<lambda>(_, s) _. s \<noteq> secret) (deadlines gs)\<rparr>"

definition expires_at :: "reading \<Rightarrow> grant_deadline \<Rightarrow> system_time option" where
  "expires_at r d =
     (case d of
        SessionEnd \<Rightarrow> None
      | WallClock t \<Rightarrow> Some t
      | Unattended t _ \<Rightarrow> Some t
      | Elapsed _ \<Rightarrow>
          checked_add_time (wall_time r) (deadline_remaining d (now_millis r) (wall_time r)))"

definition grant_entry_of :: "reading \<Rightarrow> grant_key \<times> grant_deadline \<Rightarrow> grant_entry" where
  "grant_entry_of r e =
     (case e of ((client, secret), d) \<Rightarrow>
        \<lparr>ge_client = client, ge_secret = secret,
         ge_remaining = deadline_remaining d (now_millis r) (wall_time r),
         ge_expires_with_session = (d = SessionEnd),
         ge_unattended = is_unattended d,
         ge_expires_at = expires_at r d\<rparr>)"

definition active :: "reading \<Rightarrow> reading \<Rightarrow> grant_store \<Rightarrow> grant_entry list \<times> grant_store" where
  "active r0 r1 gs =
     (let gs' = purge_expired r0 gs in (map (grant_entry_of r1) (deadlines gs'), gs'))"

definition revoke_pair :: "reading \<Rightarrow> uuid \<Rightarrow> secret_id \<Rightarrow> grant_store \<Rightarrow> bool \<times> grant_store" where
  "revoke_pair r client secret gs =
     (let gs' = purge_expired r gs in
      (hm_contains (deadlines gs') (client, secret),
       gs'\<lparr>deadlines := hm_remove (client, secret) (deadlines gs')\<rparr>))"

definition grant_len :: "reading \<Rightarrow> grant_store \<Rightarrow> nat \<times> grant_store" where
  "grant_len r gs = (let gs' = purge_expired r gs in (length (deadlines gs'), gs'))"

definition grant_is_empty :: "reading \<Rightarrow> grant_store \<Rightarrow> bool \<times> grant_store" where
  "grant_is_empty r gs = (case grant_len r gs of (n, gs') \<Rightarrow> (n = 0, gs'))"

section \<open>The store's invariant and its live grants\<close>

definition store_wf :: "grant_store \<Rightarrow> bool" where
  "store_wf gs = hm_wf (deadlines gs)"

definition alive :: "reading \<Rightarrow> grant_deadline \<Rightarrow> bool" where
  "alive r d = (deadline_remaining d (now_millis r) (wall_time r) \<noteq> 0)"

definition live :: "reading \<Rightarrow> grant_store \<Rightarrow> grant_key \<Rightarrow> grant_deadline option" where
  "live r gs k =
     (case map_of (deadlines gs) k of
        Some d \<Rightarrow> if alive r d then Some d else None
      | None \<Rightarrow> None)"

definition before :: "reading \<Rightarrow> reading \<Rightarrow> bool" where
  "before r0 r = (unat (now_millis r0) \<le> unat (now_millis r) \<and> wall_time r0 \<le> wall_time r)"

lemma before_refl [simp]: "before r r"
  by (simp add: before_def)

lemma alive_earlier: "before r0 r \<Longrightarrow> alive r d \<Longrightarrow> alive r0 d"
  by (cases d)
    (auto simp: alive_def before_def since_or_zero_def duration_since_def from_millis_def
      unat_saturating_sub duration_max_def nanos_per_milli_def u64_max_def split: if_splits)

lemma purge_expired_get:
  "store_wf gs \<Longrightarrow> map_of (deadlines (purge_expired r gs)) k = live r gs k"
  by (simp add: purge_expired_def store_wf_def hm_get_retain live_def alive_def split: option.splits)

lemma insert_deadlines_get:
  "map_of (deadlines (insert_deadlines client secrets d gs)) k =
     (if fst k = client \<and> snd k \<in> set secrets then Some d else map_of (deadlines gs) k)"
proof (induction secrets arbitrary: gs)
  case Nil
  then show ?case by (simp add: insert_deadlines_def)
next
  case (Cons s ss)
  have "insert_deadlines client (s # ss) d gs =
      insert_deadlines client ss d (gs\<lparr>deadlines := hm_insert (client, s) d (deadlines gs)\<rparr>)"
    by (simp add: insert_deadlines_def)
  with Cons.IH show ?case by (cases k) auto
qed

lemma fold_hm_insert_wf: "hm_wf m \<Longrightarrow> hm_wf (fold (\<lambda>s m. hm_insert (client, s) d m) secrets m)"
  by (induction secrets arbitrary: m) auto

lemma store_wf_purge [simp]: "store_wf gs \<Longrightarrow> store_wf (purge_expired r gs)"
  by (simp add: purge_expired_def store_wf_def)

lemma store_wf_insert [simp]: "store_wf gs \<Longrightarrow> store_wf (insert_deadlines client secrets d gs)"
  by (simp add: insert_deadlines_def store_wf_def fold_hm_insert_wf)

lemma store_wf_new [simp]: "store_wf (new_grant_store lifetime)"
  by (simp add: new_grant_store_def store_wf_def)

lemma lifetime_purge [simp]: "lifetime_millis (purge_expired r gs) = lifetime_millis gs"
  by (simp add: purge_expired_def)

lemma lifetime_insert [simp]:
  "lifetime_millis (insert_deadlines client secrets d gs) = lifetime_millis gs"
  by (simp add: insert_deadlines_def)

lemma live_purge:
  "store_wf gs \<Longrightarrow> before r0 r \<Longrightarrow> live r (purge_expired r0 gs) k = live r gs k"
  by (auto simp: live_def purge_expired_get alive_earlier split: option.splits)

section \<open>Histories of a store\<close>

text \<open>The operations that change a store, with the readings of the clock each makes.\<close>

datatype grant_op =
    GrantOp reading reading uuid "secret_id list"
  | GrantForOp reading reading uuid "secret_id list" duration
  | GrantUntilOp reading uuid "secret_id list" system_time
  | GrantSessionOp reading uuid "secret_id list"
  | GrantUnattendedOp reading reading uuid "secret_id list" system_time
  | RetainUnattendedOp reading
  | QueryOp reading
  | RevokeClientOp uuid
  | RevokeSecretOp secret_id
  | RevokePairOp reading uuid secret_id
  | RevokeAllOp

text \<open>\<open>QueryOp\<close> stands for \<open>missing\<close>, \<open>missing_unattended\<close>, \<open>has_unattended\<close>, \<open>remaining\<close>, \<open>active\<close>,
  \<open>len\<close> and \<open>is_empty\<close>: each leaves the purged store (\<open>query_results_purge\<close>).\<close>

fun exec_grant :: "grant_op \<Rightarrow> grant_store \<Rightarrow> grant_store" where
  "exec_grant (GrantOp r0 r1 c ss) gs = grant r0 r1 c ss gs"
| "exec_grant (GrantForOp r0 r1 c ss l) gs = grant_for r0 r1 c ss l gs"
| "exec_grant (GrantUntilOp r c ss t) gs = grant_until r c ss t gs"
| "exec_grant (GrantSessionOp r c ss) gs = grant_session r c ss gs"
| "exec_grant (GrantUnattendedOp r0 r1 c ss t) gs = grant_unattended_until r0 r1 c ss t gs"
| "exec_grant (RetainUnattendedOp r) gs = retain_unattended r gs"
| "exec_grant (QueryOp r) gs = purge_expired r gs"
| "exec_grant (RevokeClientOp c) gs = revoke_client c gs"
| "exec_grant (RevokeSecretOp s) gs = revoke_secret s gs"
| "exec_grant (RevokePairOp r c s) gs = snd (revoke_pair r c s gs)"
| "exec_grant RevokeAllOp gs = revoke_all gs"

lemma query_results_purge:
  "snd (missing r c ss gs) = purge_expired r gs"
  "snd (missing_unattended r c ss gs) = purge_expired r gs"
  "snd (has_unattended r c gs) = purge_expired r gs"
  "snd (remaining r r1 c s gs) = purge_expired r gs"
  "snd (active r r1 gs) = purge_expired r gs"
  "snd (grant_len r gs) = purge_expired r gs"
  "snd (grant_is_empty r gs) = purge_expired r gs"
  by (simp_all add: missing_def missing_unattended_def has_unattended_def remaining_def active_def
      grant_len_def grant_is_empty_def Let_def)

lemma exec_grant_lifetime [simp]: "lifetime_millis (exec_grant op gs) = lifetime_millis gs"
  by (cases op)
    (simp_all add: grant_def grant_for_def grant_until_def grant_session_def
      grant_unattended_until_def retain_unattended_def revoke_client_def revoke_secret_def
      revoke_pair_def revoke_all_def Let_def)

lemma exec_grant_wf: "store_wf gs \<Longrightarrow> store_wf (exec_grant op gs)"
proof (cases op)
  case (RetainUnattendedOp r)
  assume "store_wf gs"
  then have "store_wf (purge_expired r gs)" by simp
  then show ?thesis
    by (simp add: RetainUnattendedOp retain_unattended_def store_wf_def Let_def)
next
  case (RevokePairOp r c s)
  assume "store_wf gs"
  then have "store_wf (purge_expired r gs)" by simp
  then show ?thesis
    by (simp add: RevokePairOp revoke_pair_def store_wf_def Let_def)
qed (simp_all add: grant_def grant_for_def grant_until_def grant_session_def
      grant_unattended_until_def revoke_client_def revoke_secret_def revoke_all_def,
      simp_all add: store_wf_def)

interpretation grants: op_machine exec_grant "\<lambda>gs. deadlines gs = []" store_wf
  by unfold_locales (simp_all add: exec_grant_wf, simp add: store_wf_def)

text \<open>The deadline an operation gives a pair, and the pairs it withdraws.\<close>

fun granted_deadline :: "u64 \<Rightarrow> grant_op \<Rightarrow> grant_key \<Rightarrow> grant_deadline option" where
  "granted_deadline lt (GrantOp r0 r1 c ss) k =
     (if fst k = c \<and> snd k \<in> set ss
      then Some (Elapsed (saturating_add (now_millis r1) (duration_millis (from_millis lt))))
      else None)"
| "granted_deadline lt (GrantForOp r0 r1 c ss l) k =
     (if fst k = c \<and> snd k \<in> set ss
      then Some (Elapsed (saturating_add (now_millis r1) (duration_millis l))) else None)"
| "granted_deadline lt (GrantUntilOp r c ss t) k =
     (if fst k = c \<and> snd k \<in> set ss then Some (WallClock t) else None)"
| "granted_deadline lt (GrantSessionOp r c ss) k =
     (if fst k = c \<and> snd k \<in> set ss then Some SessionEnd else None)"
| "granted_deadline lt (GrantUnattendedOp r0 r1 c ss t) k =
     (if fst k = c \<and> snd k \<in> set ss then Some (unattended_deadline r1 t) else None)"
| "granted_deadline lt _ k = None"

fun revokes :: "grant_op \<Rightarrow> grant_key \<Rightarrow> grant_deadline \<Rightarrow> bool" where
  "revokes (RetainUnattendedOp r) k d = (\<not> is_unattended d)"
| "revokes (RevokeClientOp c) k d = (fst k = c)"
| "revokes (RevokeSecretOp s) k d = (snd k = s)"
| "revokes (RevokePairOp r c s) k d = (k = (c, s))"
| "revokes RevokeAllOp k d = True"
| "revokes _ k d = False"

text \<open>The reading at which an operation purges, if it does.\<close>

fun purge_reading :: "grant_op \<Rightarrow> reading option" where
  "purge_reading (GrantOp r0 r1 c ss) = Some r0"
| "purge_reading (GrantForOp r0 r1 c ss l) = Some r0"
| "purge_reading (GrantUntilOp r c ss t) = Some r"
| "purge_reading (GrantSessionOp r c ss) = Some r"
| "purge_reading (GrantUnattendedOp r0 r1 c ss t) = Some r0"
| "purge_reading (RetainUnattendedOp r) = Some r"
| "purge_reading (QueryOp r) = Some r"
| "purge_reading (RevokePairOp r c s) = Some r"
| "purge_reading _ = None"

text \<open>One operation, pointwise on the deadlines of the store.\<close>

definition step_get :: "u64 \<Rightarrow> grant_op \<Rightarrow> grant_key \<Rightarrow> grant_deadline option \<Rightarrow> grant_deadline option" where
  "step_get lt op k cur =
     (case granted_deadline lt op k of
        Some d \<Rightarrow> Some d
      | None \<Rightarrow>
          (case cur of
             None \<Rightarrow> None
           | Some d \<Rightarrow>
               if revokes op k d then None
               else (case purge_reading op of
                       Some r \<Rightarrow> if alive r d then Some d else None
                     | None \<Rightarrow> Some d)))"

lemma exec_grant_get:
  assumes "store_wf gs"
  shows "map_of (deadlines (exec_grant op gs)) k =
           step_get (lifetime_millis gs) op k (map_of (deadlines gs) k)"
proof -
  have p: "map_of (deadlines (purge_expired r gs)) k = live r gs k" for r k
    using assms by (rule purge_expired_get)
  have w: "hm_wf (deadlines (purge_expired r gs))" for r
    using assms store_wf_purge store_wf_def by blast
  have g: "hm_wf (deadlines gs)"
    using assms by (simp add: store_wf_def)
  note defs = grant_def grant_for_def grant_until_def grant_session_def grant_unattended_until_def
    insert_deadlines_get p live_def step_get_def
  note rdefs = retain_unattended_def revoke_client_def revoke_secret_def revoke_pair_def
    revoke_all_def hm_get_retain w g p live_def step_get_def Let_def case_prod_unfold
  show ?thesis
  proof (cases op)
    case (RetainUnattendedOp r)
    then show ?thesis by (simp add: rdefs split: option.split)
  next
    case (RevokeClientOp c)
    then show ?thesis by (simp add: rdefs split: option.split)
  next
    case (RevokeSecretOp s)
    then show ?thesis by (simp add: rdefs split: option.split)
  next
    case (RevokePairOp r c s)
    then show ?thesis by (simp add: rdefs split: option.split)
  next
    case RevokeAllOp
    then show ?thesis by (simp add: rdefs split: option.split)
  qed (simp_all add: defs split: option.split)
qed

lemma live_step_get:
  assumes "store_wf gs" and "case purge_reading op of Some r0 \<Rightarrow> before r0 r | None \<Rightarrow> True"
  shows "live r (exec_grant op gs) k =
           (case granted_deadline (lifetime_millis gs) op k of
              Some d \<Rightarrow> if alive r d then Some d else None
            | None \<Rightarrow>
                (case live r gs k of
                   None \<Rightarrow> None
                 | Some d \<Rightarrow> if revokes op k d then None else Some d))"
proof -
  have e: "live r (exec_grant op gs) k = (case step_get (lifetime_millis gs) op k (map_of (deadlines gs) k) of
        Some d \<Rightarrow> if alive r d then Some d else None
      | None \<Rightarrow> None)"
    unfolding live_def exec_grant_get [OF assms(1)] ..
  show ?thesis
  proof (cases "purge_reading op")
    case None
    then show ?thesis unfolding e by (simp add: step_get_def live_def split: option.split)
  next
    case (Some r0)
    with assms(2) have m: "alive r d \<Longrightarrow> alive r0 d" for d
      using alive_earlier by simp
    then show ?thesis unfolding e using Some by (auto simp: step_get_def live_def split: option.split)
  qed
qed

section \<open>A concrete store\<close>

text \<open>One session grant, used by the witnesses below.\<close>

definition demo_reading :: reading where
  "demo_reading = \<lparr>now_millis = 5, wall_time = 0\<rparr>"

definition demo_store :: grant_store where
  "demo_store = grant_session demo_reading 7 [SecretId 1] (new_grant_store 0)"

lemma demo_store_wf: "store_wf demo_store"
  by (simp add: demo_store_def grant_session_def)

lemma demo_store_live: "live demo_reading demo_store (7, SecretId 1) = Some SessionEnd"
  by (simp add: demo_store_def grant_session_def live_def insert_deadlines_get alive_def
      duration_max_def)

section \<open>Properties\<close>

text \<open>
  The specification of a store: the map of usable grants. An operation gives the pairs it names
  its own deadline, withdraws what it revokes, and leaves every other grant exactly as it was.
\<close>

definition authority_step ::
    "u64 \<Rightarrow> reading \<Rightarrow> grant_op \<Rightarrow> (grant_key \<Rightarrow> grant_deadline option) \<Rightarrow>
       grant_key \<Rightarrow> grant_deadline option" where
  "authority_step lt r op A k =
     (case granted_deadline lt op k of
        Some d \<Rightarrow> if alive r d then Some d else None
      | None \<Rightarrow> (case A k of None \<Rightarrow> None | Some d \<Rightarrow> if revokes op k d then None else Some d))"

text \<open>C26: every operation of \<open>GrantStore\<close> refines the authority map: at any
  reading that is not before the operation's own reading of the clock, the usable grants after the
  operation are those of the abstract step on the usable grants before it. In particular no query
  extends, shortens or creates a grant.\<close>

theorem grants_refine_authority:
  assumes "store_wf gs" and "case purge_reading op of Some r0 \<Rightarrow> before r0 r | None \<Rightarrow> True"
  shows "live r (exec_grant op gs) = authority_step (lifetime_millis gs) r op (live r gs)"
  using live_step_get [OF assms] by (simp add: fun_eq_iff authority_step_def)

theorem grants_refine_authority_witness:
  "store_wf demo_store \<and> live demo_reading demo_store (7, SecretId 1) = Some SessionEnd \<and>
   live demo_reading (exec_grant (RevokePairOp demo_reading 7 (SecretId 1)) demo_store) (7, SecretId 1) = None"
proof -
  have "live demo_reading (exec_grant (RevokePairOp demo_reading 7 (SecretId 1)) demo_store) =
      authority_step (lifetime_millis demo_store) demo_reading (RevokePairOp demo_reading 7 (SecretId 1))
        (live demo_reading demo_store)"
    by (rule grants_refine_authority [OF demo_store_wf]) simp
  then show ?thesis
    by (simp add: demo_store_wf demo_store_live authority_step_def)
qed

lemma step_get_Some:
  "step_get lt op k cur = Some d \<Longrightarrow>
     granted_deadline lt op k = Some d \<or>
     (granted_deadline lt op k = None \<and> cur = Some d \<and> \<not> revokes op k d)"
  by (auto simp: step_get_def split: option.splits if_splits)

lemma fold_exec_lifetime [simp]: "lifetime_millis (fold exec_grant ops gs) = lifetime_millis gs"
  by (induction ops arbitrary: gs) auto

lemma provenance_aux:
  assumes "deadlines gs0 = []" and "map_of (deadlines (fold exec_grant ops gs0)) k = Some d"
  shows "\<exists>pre op post. ops = pre @ op # post \<and>
           granted_deadline (lifetime_millis gs0) op k = Some d \<and>
           (\<forall>o1 \<in> set post. granted_deadline (lifetime_millis gs0) o1 k = None \<and> \<not> revokes o1 k d)"
  using assms(2)
proof (induction ops rule: rev_induct)
  case Nil
  with assms(1) show ?case by simp
next
  case (snoc op ops)
  let ?lt = "lifetime_millis gs0"
  have wf: "store_wf (fold exec_grant ops gs0)"
    using assms(1) by (rule grants.run_inv)
  from snoc.prems have "step_get ?lt op k (map_of (deadlines (fold exec_grant ops gs0)) k) = Some d"
    by (simp add: exec_grant_get [OF wf])
  then consider (new) "granted_deadline ?lt op k = Some d"
    | (old) "granted_deadline ?lt op k = None" "\<not> revokes op k d"
        "map_of (deadlines (fold exec_grant ops gs0)) k = Some d"
    by (auto dest!: step_get_Some)
  then show ?case
  proof cases
    case new
    then show ?thesis
      by (intro exI [of _ ops] exI [of _ op] exI [of _ "[]"]) simp
  next
    case old
    with snoc.IH obtain pre g post where
      "ops = pre @ g # post" "granted_deadline ?lt g k = Some d"
      "\<forall>o1 \<in> set post. granted_deadline ?lt o1 k = None \<and> \<not> revokes o1 k d"
      by blast
    with old show ?thesis
      by (intro exI [of _ pre] exI [of _ g] exI [of _ "post @ [op]"]) auto
  qed
qed

text \<open>A store never holds a grant nobody gave. Whatever sequence of operations a
  fresh store has gone through, a deadline it holds for a pair was set by an operation of that
  sequence that named the pair, and since then no operation has granted the pair again or revoked
  it (revoking the client, the secret, the pair, everything, or everything but unattended
  grants).\<close>

theorem grant_provenance:
  assumes "map_of (deadlines (fold exec_grant ops (new_grant_store lifetime))) k = Some d"
  shows "\<exists>pre op post. ops = pre @ op # post \<and>
           granted_deadline (duration_millis lifetime) op k = Some d \<and>
           (\<forall>o1 \<in> set post.
              granted_deadline (duration_millis lifetime) o1 k = None \<and> \<not> revokes o1 k d)"
  using provenance_aux [of "new_grant_store lifetime" ops k d] assms
  by (simp add: new_grant_store_def)

theorem grant_provenance_witness:
  "map_of (deadlines (fold exec_grant
      [GrantForOp \<lparr>now_millis = 5, wall_time = 0\<rparr> \<lparr>now_millis = 5, wall_time = 0\<rparr> 7 [SecretId 1] 2000000]
      (new_grant_store 0))) (7, SecretId 1) = Some (Elapsed 7) \<and>
   (\<exists>pre op post.
      [GrantForOp \<lparr>now_millis = 5, wall_time = 0\<rparr> \<lparr>now_millis = 5, wall_time = 0\<rparr> 7 [SecretId 1] 2000000]
        = pre @ op # post \<and>
      granted_deadline (duration_millis 0) op (7, SecretId 1) = Some (Elapsed 7))"
proof -
  let ?ops = "[GrantForOp \<lparr>now_millis = 5, wall_time = 0\<rparr> \<lparr>now_millis = 5, wall_time = 0\<rparr> 7
                 [SecretId 1] 2000000]"
  have h: "map_of (deadlines (fold exec_grant ?ops (new_grant_store 0))) (7, SecretId 1) = Some (Elapsed 7)"
    by (simp add: grant_for_def insert_deadlines_get saturating_add_def duration_millis_def
        nanos_per_milli_def u64_max_def)
  from grant_provenance [OF h] h show ?thesis by blast
qed

text \<open>An unattended grant cannot outlive its span, whatever happens to the wall
  clock afterwards. If it is still usable at some reading, fewer elapsed milliseconds have passed
  since it was granted than its deadline was away at that moment, and the wall clock has not
  reached the deadline either. (The elapsed clock of the code is the monotonic one.)\<close>

theorem unattended_ceiling:
  assumes "alive r (unattended_deadline r0 deadline)"
  shows "unat (now_millis r) < unat (now_millis r0) + since_or_zero deadline (wall_time r0) div nanos_per_milli
         \<and> wall_time r < deadline"
proof -
  let ?d = "duration_millis (since_or_zero deadline (wall_time r0))"
  have "unat ?d = min (since_or_zero deadline (wall_time r0) div nanos_per_milli) u64_max"
    by (simp add: duration_millis_def unat_of_nat u64_max_def take_bit_nat_eq_self)
  then have le: "unat ?d \<le> since_or_zero deadline (wall_time r0) div nanos_per_milli" by simp
  from assms have b: "unat (saturating_sub (saturating_add (now_millis r0) ?d) (now_millis r)) \<noteq> 0"
    and w: "since_or_zero deadline (wall_time r) \<noteq> 0"
    by (auto simp: alive_def unattended_deadline_def from_millis_def)
  from b have "unat (now_millis r) < unat (now_millis r0) + unat ?d"
    by (simp add: unat_saturating_sub unat_saturating_add)
  moreover from w have "wall_time r < deadline"
    by (auto simp: since_or_zero_def duration_since_def split: if_splits)
  ultimately show ?thesis using le by simp
qed

theorem unattended_ceiling_witness:
  "alive \<lparr>now_millis = 10, wall_time = -4\<rparr> (unattended_deadline \<lparr>now_millis = 8, wall_time = 0\<rparr> 5000000) \<and>
   unat (10 :: u64) < unat (8 :: u64) + since_or_zero 5000000 0 div nanos_per_milli"
proof -
  have h: "alive \<lparr>now_millis = 10, wall_time = -4\<rparr>
      (unattended_deadline \<lparr>now_millis = 8, wall_time = 0\<rparr> 5000000)"
    by (simp add: alive_def unattended_deadline_def since_or_zero_def duration_since_def
        from_millis_def nanos_per_milli_def duration_millis_def saturating_add_def
        saturating_sub_def u64_max_def)
  show ?thesis using h unattended_ceiling [OF h] by simp
qed

section \<open>The contract of the queries\<close>

definition covers :: "reading \<Rightarrow> grant_store \<Rightarrow> uuid \<Rightarrow> secret_id \<Rightarrow> bool" where
  "covers r gs c s = (live r gs (c, s) \<noteq> None)"

definition covers_unattended :: "reading \<Rightarrow> grant_store \<Rightarrow> uuid \<Rightarrow> secret_id \<Rightarrow> bool" where
  "covers_unattended r gs c s = (\<exists>d. live r gs (c, s) = Some d \<and> is_unattended d)"

lemma demo_store_covers: "covers demo_reading demo_store 7 (SecretId 1)"
  by (simp add: covers_def demo_store_live)

lemma missing_set:
  "store_wf gs \<Longrightarrow> set (fst (missing r c ss gs)) = {s \<in> set ss. \<not> covers r gs c s}"
  by (auto simp: missing_def Let_def hm_contains_def purge_expired_get covers_def
      set_first_occurrences)

lemma missing_distinct: "distinct (fst (missing r c ss gs))"
  by (simp add: missing_def Let_def)

lemma missing_unattended_set:
  "store_wf gs \<Longrightarrow>
     set (fst (missing_unattended r c ss gs)) = {s \<in> set ss. \<not> covers_unattended r gs c s}"
  by (auto simp: missing_unattended_def Let_def purge_expired_get covers_unattended_def
      split: option.splits)

lemma has_unattended_iff:
  assumes "store_wf gs"
  shows "fst (has_unattended r c gs) \<longleftrightarrow> (\<exists>s. covers_unattended r gs c s)"
proof -
  have "hm_wf (deadlines (purge_expired r gs))"
    using assms store_wf_purge store_wf_def by blast
  then have "((c', s), d) \<in> set (deadlines (purge_expired r gs)) \<longleftrightarrow> live r gs (c', s) = Some d" for c' s d
    using assms by (simp add: hm_mem_iff purge_expired_get)
  then show ?thesis
    by (force simp: has_unattended_def Let_def list_ex_iff covers_unattended_def)
qed

lemma covers_purge:
  "store_wf gs \<Longrightarrow> covers r (purge_expired r gs) c s = covers r gs c s"
  by (simp add: covers_def live_purge)

lemma covers_unattended_purge:
  "store_wf gs \<Longrightarrow> covers_unattended r (purge_expired r gs) c s = covers_unattended r gs c s"
  by (simp add: covers_unattended_def live_purge)

text \<open>
  What the approval coordinator relies on: the two queries answer for the usable grants at the
  reading they are made at, and asking changes nothing.
\<close>

locale grant_queries =
  fixes wf :: "'g \<Rightarrow> bool"
    and cov :: "'r \<Rightarrow> 'g \<Rightarrow> uuid \<Rightarrow> secret_id \<Rightarrow> bool"
    and cov_unattended :: "'r \<Rightarrow> 'g \<Rightarrow> uuid \<Rightarrow> secret_id \<Rightarrow> bool"
    and ask :: "'r \<Rightarrow> uuid \<Rightarrow> secret_id list \<Rightarrow> 'g \<Rightarrow> secret_id list \<times> 'g"
    and ask_unattended :: "'r \<Rightarrow> uuid \<Rightarrow> secret_id list \<Rightarrow> 'g \<Rightarrow> secret_id list \<times> 'g"
  assumes ask_set: "wf g \<Longrightarrow> set (fst (ask r c ss g)) = {s \<in> set ss. \<not> cov r g c s}"
    and ask_unattended_set:
      "wf g \<Longrightarrow> set (fst (ask_unattended r c ss g)) = {s \<in> set ss. \<not> cov_unattended r g c s}"
    and ask_keeps: "wf g \<Longrightarrow> wf (snd (ask r c ss g)) \<and> cov r (snd (ask r c ss g)) = cov r g"
    and ask_unattended_keeps:
      "wf g \<Longrightarrow> wf (snd (ask_unattended r c ss g)) \<and>
         cov r (snd (ask_unattended r c ss g)) = cov r g \<and>
         cov_unattended r (snd (ask_unattended r c ss g)) = cov_unattended r g"
    and unattended_is_cov: "cov_unattended r g c s \<Longrightarrow> cov r g c s"
begin

lemma ask_empty: "wf g \<Longrightarrow> fst (ask r c ss g) = [] \<longleftrightarrow> (\<forall>s \<in> set ss. cov r g c s)"
  using ask_set [of g r c ss] by (auto simp flip: set_empty)

lemma ask_unattended_empty:
  "wf g \<Longrightarrow> fst (ask_unattended r c ss g) = [] \<longleftrightarrow> (\<forall>s \<in> set ss. cov_unattended r g c s)"
  using ask_unattended_set [of g r c ss] by (auto simp flip: set_empty)

lemma ask_unattended_implies_ask:
  "wf g \<Longrightarrow> fst (ask_unattended r c ss g) = [] \<Longrightarrow> fst (ask r c ss g) = []"
  by (auto simp: ask_empty ask_unattended_empty intro: unattended_is_cov)

lemma ask_mono:
  "wf g \<Longrightarrow> set ss \<subseteq> set ts \<Longrightarrow> fst (ask r c ts g) = [] \<Longrightarrow> fst (ask r c ss g) = []"
  by (auto simp: ask_empty)

end

interpretation queries: grant_queries store_wf covers covers_unattended missing missing_unattended
  by unfold_locales
    (auto simp: missing_set missing_unattended_set query_results_purge covers_purge fun_eq_iff
      covers_unattended_purge covers_def covers_unattended_def live_purge)

text \<open>the access list shows exactly the usable grants, each pair once: \<open>active\<close> has
  one entry per usable pair, the entry's remaining time is not zero, and a pair that is not usable
  has no entry.\<close>

lemma active_lists_live:
  assumes "store_wf gs"
  shows "distinct (map (\<lambda>e. (ge_client e, ge_secret e)) (fst (active r r gs)))
         \<and> (\<forall>c s. (\<exists>e \<in> set (fst (active r r gs)). ge_client e = c \<and> ge_secret e = s) \<longleftrightarrow> covers r gs c s)
         \<and> (\<forall>e \<in> set (fst (active r r gs)). ge_remaining e \<noteq> 0)"
proof -
  let ?m = "deadlines (purge_expired r gs)"
  have wf: "hm_wf ?m"
    using assms store_wf_purge store_wf_def by blast
  have mem: "(k, d) \<in> set ?m \<longleftrightarrow> live r gs k = Some d" for k d
    using wf assms by (simp add: hm_mem_iff purge_expired_get)
  have key: "map (\<lambda>e. (ge_client e, ge_secret e)) (fst (active r r gs)) = map fst ?m"
    by (simp add: active_def Let_def grant_entry_of_def case_prod_unfold)
  have d: "distinct (map fst ?m)"
    using wf by (simp add: hm_wf_def)
  have c: "(\<exists>e \<in> set (fst (active r r gs)). ge_client e = c \<and> ge_secret e = s) \<longleftrightarrow> covers r gs c s" for c s
  proof -
    have "(\<exists>e \<in> set (fst (active r r gs)). ge_client e = c \<and> ge_secret e = s)
        \<longleftrightarrow> (c, s) \<in> set (map (\<lambda>e. (ge_client e, ge_secret e)) (fst (active r r gs)))"
      by auto
    also have "\<dots> \<longleftrightarrow> (\<exists>d. ((c, s), d) \<in> set ?m)"
      by (force simp: key)
    also have "\<dots> \<longleftrightarrow> covers r gs c s"
      by (auto simp: mem covers_def)
    finally show ?thesis .
  qed
  have n: "ge_remaining e \<noteq> 0" if "e \<in> set (fst (active r r gs))" for e
    using that
    by (auto simp: active_def Let_def grant_entry_of_def mem live_def alive_def
        split: option.splits if_splits)
  show ?thesis using key d c n by simp
qed

end
