(* ===== verification/Ladon_Approval.thy ===== *)
theory Ladon_Approval
  imports Ladon_Grants "HOL-Library.Product_Lexorder"
begin

text \<open>
  The approval coordinator (\<open>crates/ladon-app/src/approval.rs\<close>): pending approvals, human
  decisions, the app lock, tracked client sessions and the grants they lead to. The state is the
  record behind the coordinator's mutex; an operation is one critical section, run at one reading
  of the clock. \<open>authorize_with_wake\<close> gives the mutex up while it waits, so it is two definitions:
  \<open>authorize_begin\<close> publishes the request, \<open>authorize_poll\<close> is one turn of its loop, and other
  operations run in between.

  A \<open>RunCancellation\<close> is a shared flag that other threads set: a token, with the set tokens in the
  component \<open>cancelled_tokens\<close> of the state. \<open>Uuid::new_v4\<close> and closures handed to the coordinator
  are arguments; a closure with effects acts on a world \<open>'w\<close> of its own. The poisoning of the mutex
  by a panicking thread is not modelled.
\<close>

type_synonym token = nat
type_synonym instant = nat

section \<open>Data\<close>

record approval_secret =
  as_id :: secret_id
  as_name :: str
  as_fields :: "str list"

record pending_approval =
  pa_id :: uuid
  pa_vault_session :: uuid
  pa_client :: uuid
  pa_label :: str
  pa_secrets :: "approval_secret list"
  pa_executable :: str
  pa_arguments :: "str list"
  pa_working_directory :: str

datatype app_access = AppActive | AppLocking u64 | AppLocked u64

datatype approval_decision =
    Approve "duration option"
  | ApproveUntil system_time
  | ApproveSession
  | Granted
  | Deny
  | Cancel

record pending_state =
  ps_request :: pending_approval
  ps_requested_ids :: "secret_id list"
  ps_decision :: "approval_decision option"

record session_details =
  sd_client :: uuid
  sd_connection :: uuid
  sd_reported_name :: str
  sd_user_name :: str
  sd_note :: str
  sd_working_directory :: str
  sd_last_action :: str
  sd_connected_at :: system_time
  sd_last_activity :: system_time

record unattended_context =
  uc_client :: uuid
  uc_vault :: uuid
  uc_revision :: u64
  uc_epoch :: u64
  uc_connection :: uuid
  uc_label :: str

record grant_ticket =
  gt_vault_session :: uuid
  gt_client :: uuid
  gt_secret_ids :: "secret_id list"

record active_grant_snapshot =
  ag_client :: uuid
  ag_label :: str
  ag_secret :: secret_id
  ag_remaining :: duration
  ag_expires_with_session :: bool
  ag_unattended :: bool
  ag_expires_at :: "system_time option"

record approval_state =
  ap_grants :: grant_store
  ap_vault :: "uuid option"
  ap_pending :: "pending_state option"
  ap_labels :: "(uuid, str) hashmap"
  ap_client_sessions :: "(uuid, token) hashmap"
  ap_sessions_closed :: bool
  ap_access :: app_access
  ap_lock_epoch :: u64
  ap_revision :: u64
  ap_sessions :: "(uuid, session_details) hashmap"
  cancelled_tokens :: "token list"

definition MAX_TRACKED_SESSIONS :: nat where
  "MAX_TRACKED_SESSIONS = 32"

definition DEFAULT_GRANT_LIFETIME :: duration where
  "DEFAULT_GRANT_LIFETIME = from_secs (30 * 60)"

definition DEFAULT_APPROVAL_TIMEOUT :: duration where
  "DEFAULT_APPROVAL_TIMEOUT = from_secs (2 * 60)"

definition new_pending_approval ::
    "uuid \<Rightarrow> uuid \<Rightarrow> uuid \<Rightarrow> str \<Rightarrow> approval_secret list \<Rightarrow> str \<Rightarrow> str list \<Rightarrow> str \<Rightarrow> pending_approval" where
  "new_pending_approval fresh vault client label secrets exe args cwd =
     \<lparr>pa_id = fresh, pa_vault_session = vault, pa_client = client, pa_label = label,
      pa_secrets = secrets, pa_executable = exe, pa_arguments = args, pa_working_directory = cwd\<rparr>"

definition new_coordinator :: "duration \<Rightarrow> approval_state" where
  "new_coordinator grant_lifetime =
     \<lparr>ap_grants = new_grant_store grant_lifetime, ap_vault = None, ap_pending = None,
      ap_labels = [], ap_client_sessions = [], ap_sessions_closed = False,
      ap_access = AppActive, ap_lock_epoch = 0, ap_revision = 0, ap_sessions = [],
      cancelled_tokens = []\<rparr>"

section \<open>Helpers\<close>

definition is_cancelled :: "approval_state \<Rightarrow> token \<Rightarrow> bool" where
  "is_cancelled st t = (t \<in> set (cancelled_tokens st))"

definition cancel_tokens :: "token list \<Rightarrow> approval_state \<Rightarrow> approval_state" where
  "cancel_tokens ts st = st\<lparr>cancelled_tokens := ts @ cancelled_tokens st\<rparr>"

definition bounded_metadata :: "str \<Rightarrow> nat \<Rightarrow> str" where
  "bounded_metadata v limit = concat (take limit (filter (\<lambda>c. \<not> is_control c) (chars v)))"

definition is_app_active :: "approval_state \<Rightarrow> bool" where
  "is_app_active st = (ap_access st = AppActive)"

definition client_has_unattended :: "reading \<Rightarrow> uuid \<Rightarrow> approval_state \<Rightarrow> bool \<times> approval_state" where
  "client_has_unattended r client st =
     (if hm_contains (ap_client_sessions st) client then
        (case has_unattended r client (ap_grants st) of (b, g) \<Rightarrow> (b, st\<lparr>ap_grants := g\<rparr>))
      else (False, st))"

text \<open>\<open>state.pending.as_mut().filter(P)\<close> followed by a write of the decision.\<close>

definition decide_pending_if ::
    "(pending_state \<Rightarrow> bool) \<Rightarrow> approval_decision \<Rightarrow> approval_state \<Rightarrow> approval_state" where
  "decide_pending_if P d st =
     (case ap_pending st of
        Some p \<Rightarrow> if P p then st\<lparr>ap_pending := Some (p\<lparr>ps_decision := Some d\<rparr>)\<rparr> else st
      | None \<Rightarrow> st)"

definition disconnect_client :: "uuid \<Rightarrow> approval_state \<Rightarrow> approval_state" where
  "disconnect_client client st =
     decide_pending_if (\<lambda>p. pa_client (ps_request p) = client) Cancel
       (st\<lparr>ap_client_sessions := hm_remove client (ap_client_sessions st),
           ap_grants := revoke_client client (ap_grants st),
           ap_labels := hm_remove client (ap_labels st),
           ap_sessions := hm_remove client (ap_sessions st)\<rparr>)"

definition disconnected_clients :: "approval_state \<Rightarrow> uuid list" where
  "disconnected_clients st =
     map fst (filter (\<lambda>(_, t). is_cancelled st t) (ap_client_sessions st))"

definition purge_disconnected_clients :: "approval_state \<Rightarrow> approval_state" where
  "purge_disconnected_clients st = fold disconnect_client (disconnected_clients st) st"

definition decision_for :: "approval_state \<Rightarrow> uuid \<Rightarrow> approval_decision option" where
  "decision_for st approval_id =
     (case ap_pending st of
        Some p \<Rightarrow> if pa_id (ps_request p) = approval_id then ps_decision p else None
      | None \<Rightarrow> None)"

definition prune_client_labels :: "reading \<Rightarrow> approval_state \<Rightarrow> approval_state" where
  "prune_client_labels r st =
     (case active r r (ap_grants st) of (entries, g) \<Rightarrow>
        st\<lparr>ap_grants := g,
           ap_labels := hm_retain (\<lambda>c _. c \<in> set (map ge_client entries)) (ap_labels st)\<rparr>)"

definition clear_pending :: "reading \<Rightarrow> uuid \<Rightarrow> approval_state \<Rightarrow> approval_state" where
  "clear_pending r approval_id st =
     (case ap_pending st of
        Some p \<Rightarrow> if pa_id (ps_request p) = approval_id
          then prune_client_labels r (st\<lparr>ap_pending := None\<rparr>) else st
      | None \<Rightarrow> st)"

text \<open>The free function \<open>cancel_pending\<close> of the file, used by the lock operations.\<close>

definition cancel_pending_decision :: "approval_state \<Rightarrow> approval_state" where
  "cancel_pending_decision st = decide_pending_if (\<lambda>_. True) Cancel st"

definition bump_revision :: "approval_state \<Rightarrow> approval_state res" where
  "bump_revision st =
     (case checked_add (ap_revision st) 1 of
        Some n \<Rightarrow> Inr (st\<lparr>ap_revision := n\<rparr>)
      | None \<Rightarrow> Inl InvalidRequest)"

definition switch_vault :: "uuid \<Rightarrow> approval_state \<Rightarrow> approval_state" where
  "switch_vault vault st =
     (if ap_vault st \<noteq> Some vault
      then st\<lparr>ap_grants := revoke_all (ap_grants st), ap_labels := [], ap_vault := Some vault\<rparr>
      else st)"

section \<open>Authorisation of a run\<close>

datatype authorize_outcome =
    Finished "grant_ticket res"
  | Waiting uuid grant_ticket instant

definition request_ids :: "pending_approval \<Rightarrow> secret_id list" where
  "request_ids request = map as_id (pa_secrets request)"

text \<open>The branch taken while the app is locked: only unattended grants count.\<close>

definition authorize_locked ::
    "reading \<Rightarrow> pending_approval \<Rightarrow> approval_state \<Rightarrow> grant_ticket res \<times> approval_state" where
  "authorize_locked r request st =
     (let ids = request_ids request in
      if ap_vault st \<noteq> Some (pa_vault_session request) then (Inl VaultLocked, st)
      else case client_has_unattended r (pa_client request) st of (has, st1) \<Rightarrow>
        if \<not> has then (Inl VaultLocked, st1)
        else case missing_unattended r (pa_client request) ids (ap_grants st1) of (miss, g) \<Rightarrow>
          let st2 = st1\<lparr>ap_grants := g\<rparr> in
          if miss \<noteq> [] then (Inl VaultLocked, st2)
          else (Inr \<lparr>gt_vault_session = pa_vault_session request,
                     gt_client = pa_client request, gt_secret_ids = ids\<rparr>, st2))"

definition ticket_of :: "pending_approval \<Rightarrow> grant_ticket" where
  "ticket_of request =
     \<lparr>gt_vault_session = pa_vault_session request, gt_client = pa_client request,
      gt_secret_ids = first_occurrences [] (request_ids request)\<rparr>"

definition authorize_begin ::
    "reading \<Rightarrow> instant \<Rightarrow> duration \<Rightarrow> pending_approval \<Rightarrow> approval_state \<Rightarrow>
       authorize_outcome \<times> approval_state" where
  "authorize_begin r now approval_timeout request st0 =
     (let st = purge_disconnected_clients st0 in
      if \<not> is_app_active st then
        (case authorize_locked r request st of (res, st1) \<Rightarrow> (Finished res, st1))
      else if ap_pending st \<noteq> None then (Finished (Inl Busy), st)
      else
        let st1 = switch_vault (pa_vault_session request) st;
            st2 = st1\<lparr>ap_labels := hm_insert (pa_client request) (pa_label request) (ap_labels st1)\<rparr>;
            ticket = ticket_of request
        in case missing r (pa_client request) (request_ids request) (ap_grants st2) of (miss, g) \<Rightarrow>
          let st3 = st2\<lparr>ap_grants := g\<rparr> in
          if miss = [] then (Finished (Inr ticket), st3)
          else
            let request' = request\<lparr>pa_secrets :=
                  filter (\<lambda>s. as_id s \<in> set miss) (pa_secrets request)\<rparr>
            in (Waiting (pa_id request) ticket (now + approval_timeout),
                st3\<lparr>ap_pending := Some \<lparr>ps_request = request',
                       ps_requested_ids = gt_secret_ids ticket, ps_decision = None\<rparr>\<rparr>))"

text \<open>The arms of the match on a decision; \<open>p\<close> is the request taken out of the state.\<close>

definition apply_decision ::
    "reading \<Rightarrow> grant_ticket \<Rightarrow> pending_state \<Rightarrow> approval_decision \<Rightarrow> approval_state \<Rightarrow>
       grant_ticket res \<times> approval_state" where
  "apply_decision r ticket p decision st =
     (let client = pa_client (ps_request p); ids = request_ids (ps_request p);
          label = (\<lambda>st. st\<lparr>ap_labels := hm_insert client (pa_label (ps_request p)) (ap_labels st)\<rparr>)
      in case decision of
        Granted \<Rightarrow>
          (case missing r (gt_client ticket) (gt_secret_ids ticket) (ap_grants st) of (miss, g) \<Rightarrow>
             (if miss \<noteq> [] then Inl ApprovalCancelled else Inr ticket, st\<lparr>ap_grants := g\<rparr>))
      | Approve (Some lifetime) \<Rightarrow>
          (Inr ticket, label (st\<lparr>ap_grants := grant_for r r client ids lifetime (ap_grants st)\<rparr>))
      | Approve None \<Rightarrow>
          (Inr ticket, label (st\<lparr>ap_grants := grant r r client ids (ap_grants st)\<rparr>))
      | ApproveUntil deadline \<Rightarrow>
          (Inr ticket, label (st\<lparr>ap_grants := grant_until r client ids deadline (ap_grants st)\<rparr>))
      | ApproveSession \<Rightarrow>
          (case map_of (ap_client_sessions st) client of
             None \<Rightarrow> (Inl ApprovalCancelled, st)
           | Some t \<Rightarrow>
               if is_cancelled st t then (Inl ApprovalCancelled, st)
               else (Inr ticket,
                     label (st\<lparr>ap_grants := grant_session r client ids (ap_grants st)\<rparr>)))
      | Deny \<Rightarrow> (Inl ApprovalDenied, prune_client_labels r st)
      | Cancel \<Rightarrow> (Inl ApprovalCancelled, prune_client_labels r st))"

definition authorize_poll ::
    "reading \<Rightarrow> instant \<Rightarrow> token \<Rightarrow> uuid \<Rightarrow> grant_ticket \<Rightarrow> instant \<Rightarrow> approval_state \<Rightarrow>
       authorize_outcome \<times> approval_state" where
  "authorize_poll r now cancellation approval_id ticket deadline st0 =
     (let st = purge_disconnected_clients st0 in
      if is_cancelled st cancellation then
        (Finished (Inl ApprovalCancelled), clear_pending r approval_id st)
      else case decision_for st approval_id of
        Some decision \<Rightarrow>
          (case ap_pending st of
             None \<Rightarrow> (Finished (Inl ProcessFailure), st)
           | Some p \<Rightarrow>
               (case apply_decision r ticket p decision (st\<lparr>ap_pending := None\<rparr>) of
                  (res, st1) \<Rightarrow> (Finished res, st1)))
      | None \<Rightarrow>
          if now \<ge> deadline then
            (Finished (Inl ApprovalTimeout), clear_pending r approval_id st)
          else (Waiting approval_id ticket deadline, st))"

section \<open>Client sessions\<close>

definition register_client_session ::
    "reading \<Rightarrow> uuid \<Rightarrow> uuid \<Rightarrow> token \<Rightarrow> approval_state \<Rightarrow> unit res \<times> approval_state" where
  "register_client_session r fresh client cancellation st0 =
     (let st = purge_disconnected_clients st0 in
      if ap_sessions_closed st \<or> hm_contains (ap_client_sessions st) client
         \<or> length (ap_client_sessions st) \<ge> MAX_TRACKED_SESSIONS
      then (Inl Busy, st)
      else
        let now = wall_time r;
            details = \<lparr>sd_client = client, sd_connection = fresh,
              sd_reported_name = ascii ''MCP client'', sd_user_name = [], sd_note = [],
              sd_working_directory = [], sd_last_action = ascii ''Connected'',
              sd_connected_at = now, sd_last_activity = now\<rparr>
        in (Inr (), st\<lparr>ap_grants := revoke_client client (ap_grants st),
              ap_sessions := hm_insert client details (ap_sessions st),
              ap_client_sessions := hm_insert client cancellation (ap_client_sessions st)\<rparr>))"

definition client_session_connected :: "uuid \<Rightarrow> approval_state \<Rightarrow> bool \<times> approval_state" where
  "client_session_connected client st0 =
     (let st = purge_disconnected_clients st0 in (hm_contains (ap_client_sessions st) client, st))"

definition close_client_sessions :: "approval_state \<Rightarrow> approval_state" where
  "close_client_sessions st =
     purge_disconnected_clients
       (cancel_tokens (map snd (ap_client_sessions st)) (st\<lparr>ap_sessions_closed := True\<rparr>))"

definition pending_request :: "approval_state \<Rightarrow> pending_approval option \<times> approval_state" where
  "pending_request st0 =
     (let st = purge_disconnected_clients st0 in
      (case ap_pending st of
         Some p \<Rightarrow> if ps_decision p = None then Some (ps_request p) else None
       | None \<Rightarrow> None, st))"

definition observe_client :: "reading \<Rightarrow> uuid \<Rightarrow> str \<Rightarrow> approval_state \<Rightarrow> approval_state" where
  "observe_client r client label st0 =
     (let st = purge_disconnected_clients st0;
          st1 = (case map_of (ap_sessions st) client of
                   Some s \<Rightarrow> st\<lparr>ap_sessions := hm_insert client
                     (s\<lparr>sd_reported_name := bounded_metadata label 128,
                        sd_last_activity := wall_time r\<rparr>) (ap_sessions st)\<rparr>
                 | None \<Rightarrow> st)
      in case active r r (ap_grants st1) of (entries, g) \<Rightarrow>
        let st2 = st1\<lparr>ap_grants := g\<rparr>;
            owns_active_grant = list_ex (\<lambda>e. ge_client e = client) entries;
            has_pending_request = (case ap_pending st2 of
              Some p \<Rightarrow> ps_decision p = None \<and> pa_client (ps_request p) = client
            | None \<Rightarrow> False);
            st3 = (if owns_active_grant \<or> has_pending_request then
                     (case ap_pending st2 of
                        Some p \<Rightarrow> if pa_client (ps_request p) = client
                          then st2\<lparr>ap_pending := Some (p\<lparr>ps_request := (ps_request p)\<lparr>pa_label := label\<rparr>\<rparr>)\<rparr>
                          else st2
                      | None \<Rightarrow> st2)\<lparr>ap_labels := hm_insert client label (ap_labels st2)\<rparr>
                   else st2)
        in prune_client_labels r st3)"

definition snapshot_of :: "(uuid, str) hashmap \<Rightarrow> grant_entry \<Rightarrow> active_grant_snapshot" where
  "snapshot_of labels e =
     \<lparr>ag_client = ge_client e,
      ag_label = (case map_of labels (ge_client e) of Some l \<Rightarrow> l | None \<Rightarrow> ascii ''MCP client''),
      ag_secret = ge_secret e, ag_remaining = ge_remaining e,
      ag_expires_with_session = ge_expires_with_session e,
      ag_unattended = ge_unattended e, ag_expires_at = ge_expires_at e\<rparr>"

definition active_grants :: "reading \<Rightarrow> approval_state \<Rightarrow> active_grant_snapshot list \<times> approval_state" where
  "active_grants r st0 =
     (let st = purge_disconnected_clients st0 in
      case active r r (ap_grants st) of (entries, g) \<Rightarrow>
        let labels = hm_retain (\<lambda>c _. c \<in> set (map ge_client entries)) (ap_labels st)
        in (map (snapshot_of labels) entries, st\<lparr>ap_grants := g, ap_labels := labels\<rparr>))"

definition sessions :: "approval_state \<Rightarrow> session_details list \<times> approval_state" where
  "sessions st0 =
     (let st = purge_disconnected_clients st0 in
      (sort_key (\<lambda>s. (sd_connected_at s, sd_client s)) (map snd (ap_sessions st)), st))"

definition valid_annotation :: "str \<Rightarrow> str \<Rightarrow> bool" where
  "valid_annotation name note =
     (length (chars name) \<le> 64 \<and> length (chars note) \<le> 512 \<and>
      list_all (\<lambda>c. \<not> is_control c) (chars name) \<and>
      list_all (\<lambda>c. \<not> (is_control c \<and> codepoint c \<noteq> 10)) (chars note))"

definition set_session_annotation_checked ::
    "uuid \<Rightarrow> uuid option \<Rightarrow> str \<Rightarrow> str \<Rightarrow> approval_state \<Rightarrow> unit res \<times> approval_state" where
  "set_session_annotation_checked client connection name note st0 =
     (if \<not> valid_annotation name note then (Inl InvalidRequest, st0)
      else
        let st = purge_disconnected_clients st0 in
        if \<not> is_app_active st then (Inl VaultLocked, st)
        else case map_of (ap_sessions st) client of
          None \<Rightarrow> (Inl InvalidRequest, st)
        | Some s \<Rightarrow>
            if (case connection of Some expected \<Rightarrow> expected \<noteq> sd_connection s | None \<Rightarrow> False)
            then (Inl ApprovalCancelled, st)
            else (Inr (), st\<lparr>ap_sessions := hm_insert client
                    (s\<lparr>sd_user_name := trim name, sd_note := trim note\<rparr>) (ap_sessions st)\<rparr>))"

definition observe_run :: "reading \<Rightarrow> uuid \<Rightarrow> str \<Rightarrow> str \<Rightarrow> approval_state \<Rightarrow> approval_state" where
  "observe_run r client project action st =
     (case map_of (ap_sessions st) client of
        Some s \<Rightarrow> st\<lparr>ap_sessions := hm_insert client
          (s\<lparr>sd_working_directory := bounded_metadata project 512,
             sd_last_action := bounded_metadata action 128,
             sd_last_activity := wall_time r\<rparr>) (ap_sessions st)\<rparr>
      | None \<Rightarrow> st)"

section \<open>The app lock\<close>

definition require_app_active :: "approval_state \<Rightarrow> unit res" where
  "require_app_active st = (if is_app_active st then Inr () else Inl VaultLocked)"

definition begin_app_lock_with_policy ::
    "reading \<Rightarrow> bool \<Rightarrow> approval_state \<Rightarrow> u64 res \<times> approval_state" where
  "begin_app_lock_with_policy r preserve st =
     (if \<not> is_app_active st then (Inl Busy, st)
      else case checked_add (ap_lock_epoch st) 1 of
        None \<Rightarrow> (Inl InvalidRequest, st)
      | Some epoch \<Rightarrow>
          let st1 = cancel_pending_decision (st\<lparr>ap_lock_epoch := epoch, ap_access := AppLocking epoch\<rparr>)
          in (Inr epoch,
              if preserve
              then prune_client_labels r (st1\<lparr>ap_grants := retain_unattended r (ap_grants st1)\<rparr>)
              else st1\<lparr>ap_grants := revoke_all (ap_grants st1), ap_labels := []\<rparr>))"

definition begin_app_lock :: "reading \<Rightarrow> approval_state \<Rightarrow> u64 res \<times> approval_state" where
  "begin_app_lock r st = begin_app_lock_with_policy r False st"

definition begin_auto_app_lock :: "reading \<Rightarrow> approval_state \<Rightarrow> u64 res \<times> approval_state" where
  "begin_auto_app_lock r st = begin_app_lock_with_policy r True st"

definition finish_app_lock :: "u64 \<Rightarrow> approval_state \<Rightarrow> unit res \<times> approval_state" where
  "finish_app_lock epoch st =
     (if ap_access st \<noteq> AppLocking epoch then (Inl InvalidRequest, st)
      else (Inr (), st\<lparr>ap_access := AppLocked epoch\<rparr>))"

definition unlock_app :: "u64 \<Rightarrow> approval_state \<Rightarrow> unit res \<times> approval_state" where
  "unlock_app epoch st =
     (if ap_access st \<noteq> AppLocked epoch then (Inl InvalidRequest, st)
      else (Inr (), st\<lparr>ap_access := AppActive\<rparr>))"

definition reset_after_vault_lock :: "approval_state \<Rightarrow> unit res \<times> approval_state" where
  "reset_after_vault_lock st =
     (case checked_add (ap_lock_epoch st) 1 of
        None \<Rightarrow> (Inl InvalidRequest, st)
      | Some epoch \<Rightarrow>
          let st1 = cancel_pending_decision (st\<lparr>ap_lock_epoch := epoch, ap_access := AppActive\<rparr>)
          in (Inr (), st1\<lparr>ap_grants := revoke_all (ap_grants st1), ap_labels := [], ap_vault := None\<rparr>))"

section \<open>Decisions and revocation\<close>

fun approving :: "approval_decision \<Rightarrow> bool" where
  "approving (Approve _) = True"
| "approving (ApproveUntil _) = True"
| "approving ApproveSession = True"
| "approving _ = False"

definition set_decision ::
    "reading \<Rightarrow> uuid \<Rightarrow> approval_decision \<Rightarrow> approval_state \<Rightarrow> unit res \<times> approval_state" where
  "set_decision r approval_id decision st0 =
     (let st = purge_disconnected_clients st0 in
      case ap_pending st of
        None \<Rightarrow> (Inl InvalidRequest, st)
      | Some p \<Rightarrow>
          if decision = ApproveSession \<and> \<not> hm_contains (ap_client_sessions st) (pa_client (ps_request p))
          then (Inl ApprovalCancelled, st)
          else if pa_id (ps_request p) \<noteq> approval_id \<or> ps_decision p \<noteq> None then (Inl InvalidRequest, st)
          else
            let st1 = st\<lparr>ap_pending := Some (p\<lparr>ps_decision := Some decision\<rparr>)\<rparr>
            in (Inr (), if approving decision then st1 else prune_client_labels r st1))"

definition approve :: "reading \<Rightarrow> uuid \<Rightarrow> approval_state \<Rightarrow> unit res \<times> approval_state" where
  "approve r approval_id st = set_decision r approval_id (Approve None) st"

definition approve_for :: "reading \<Rightarrow> uuid \<Rightarrow> duration \<Rightarrow> approval_state \<Rightarrow> unit res \<times> approval_state" where
  "approve_for r approval_id lifetime st = set_decision r approval_id (Approve (Some lifetime)) st"

definition approve_until :: "reading \<Rightarrow> uuid \<Rightarrow> system_time \<Rightarrow> approval_state \<Rightarrow> unit res \<times> approval_state" where
  "approve_until r approval_id deadline st = set_decision r approval_id (ApproveUntil deadline) st"

definition approve_session :: "reading \<Rightarrow> uuid \<Rightarrow> approval_state \<Rightarrow> unit res \<times> approval_state" where
  "approve_session r approval_id st = set_decision r approval_id ApproveSession st"

definition deny :: "reading \<Rightarrow> uuid \<Rightarrow> approval_state \<Rightarrow> unit res \<times> approval_state" where
  "deny r approval_id st = set_decision r approval_id Deny st"

definition cancel_pending :: "reading \<Rightarrow> approval_state \<Rightarrow> approval_state" where
  "cancel_pending r st =
     (if ap_pending st \<noteq> None then prune_client_labels r (cancel_pending_decision st) else st)"

definition coord_revoke_all :: "approval_state \<Rightarrow> unit res \<times> approval_state" where
  "coord_revoke_all st =
     (case bump_revision st of
        Inl e \<Rightarrow> (Inl e, st)
      | Inr st1 \<Rightarrow> (Inr (), st1\<lparr>ap_grants := revoke_all (ap_grants st1), ap_labels := []\<rparr>))"

definition coord_revoke_pair ::
    "reading \<Rightarrow> uuid \<Rightarrow> secret_id \<Rightarrow> approval_state \<Rightarrow> bool res \<times> approval_state" where
  "coord_revoke_pair r client secret st =
     (case bump_revision st of
        Inl e \<Rightarrow> (Inl e, st)
      | Inr st1 \<Rightarrow>
          let st2 = decide_pending_if (\<lambda>p. pa_client (ps_request p) = client
                      \<and> secret \<in> set (ps_requested_ids p)) Cancel st1
          in case revoke_pair r client secret (ap_grants st2) of (revoked, g) \<Rightarrow>
            (Inr revoked, prune_client_labels r (st2\<lparr>ap_grants := g\<rparr>)))"

definition coord_revoke_client :: "reading \<Rightarrow> uuid \<Rightarrow> approval_state \<Rightarrow> unit res \<times> approval_state" where
  "coord_revoke_client r client st =
     (case bump_revision st of
        Inl e \<Rightarrow> (Inl e, st)
      | Inr st1 \<Rightarrow>
          let st2 = st1\<lparr>ap_grants := revoke_client client (ap_grants st1)\<rparr>
          in (Inr (), prune_client_labels r
                (decide_pending_if (\<lambda>p. pa_client (ps_request p) = client) Cancel st2)))"

text \<open>\<open>prepare\<close> and \<open>commit\<close> are the caller's closures, run inside the critical section.\<close>

definition revoke_for_mutation :: "reading \<Rightarrow> secret_id \<Rightarrow> approval_state \<Rightarrow> approval_state" where
  "revoke_for_mutation r secret st =
     (let st1 = decide_pending_if (\<lambda>p. secret \<in> set (ps_requested_ids p)) Cancel st
      in prune_client_labels r (st1\<lparr>ap_grants := revoke_secret secret (ap_grants st1)\<rparr>))"

definition coordinate_secret_mutation ::
    "reading \<Rightarrow> secret_id \<Rightarrow> ('w \<Rightarrow> 'p res \<times> 'w) \<Rightarrow> ('p \<Rightarrow> 'w \<Rightarrow> 't res \<times> 'w) \<Rightarrow>
       'w \<Rightarrow> approval_state \<Rightarrow> 't res \<times> 'w \<times> approval_state" where
  "coordinate_secret_mutation r secret prepare commit w st =
     (case prepare w of
        (Inl e, w1) \<Rightarrow> (Inl e, w1, st)
      | (Inr prepared, w1) \<Rightarrow>
          (case bump_revision st of
             Inl e \<Rightarrow> (Inl e, w1, st)
           | Inr st1 \<Rightarrow>
               let st2 = revoke_for_mutation r secret st1
               in case commit prepared w1 of (res, w2) \<Rightarrow> (res, w2, st2)))"

section \<open>Use of a grant\<close>

definition access_valid :: "reading \<Rightarrow> grant_ticket \<Rightarrow> approval_state \<Rightarrow> bool \<times> approval_state" where
  "access_valid r ticket st =
     (if is_app_active st then (True, st)
      else case client_has_unattended r (gt_client ticket) st of (has, st1) \<Rightarrow>
        if \<not> has then (False, st1)
        else case missing_unattended r (gt_client ticket) (gt_secret_ids ticket) (ap_grants st1) of
          (miss, g) \<Rightarrow> (miss = [], st1\<lparr>ap_grants := g\<rparr>))"

definition with_valid_grant ::
    "reading \<Rightarrow> grant_ticket \<Rightarrow> ('w \<Rightarrow> 't res \<times> 'w) \<Rightarrow> 'w \<Rightarrow> approval_state \<Rightarrow>
       't res \<times> 'w \<times> approval_state" where
  "with_valid_grant r ticket operation w st0 =
     (let st = purge_disconnected_clients st0 in
      case access_valid r ticket st of (valid, st1) \<Rightarrow>
        if \<not> valid \<or> ap_vault st1 \<noteq> Some (gt_vault_session ticket) then (Inl ApprovalCancelled, w, st1)
        else case missing r (gt_client ticket) (gt_secret_ids ticket) (ap_grants st1) of (miss, g) \<Rightarrow>
          let st2 = st1\<lparr>ap_grants := g\<rparr> in
          if miss \<noteq> [] then (Inl ApprovalCancelled, w, st2)
          else case operation w of (res, w1) \<Rightarrow> (res, w1, st2))"

section \<open>Unattended access\<close>

definition capture_unattended_with ::
    "uuid \<Rightarrow> (uuid \<times> 't) res \<Rightarrow> approval_state \<Rightarrow> (unattended_context \<times> 't) res \<times> approval_state" where
  "capture_unattended_with client snapshot st0 =
     (let st = purge_disconnected_clients st0 in
      if \<not> is_app_active st \<or> \<not> hm_contains (ap_client_sessions st) client
      then (Inl ApprovalCancelled, st)
      else case snapshot of
        Inl e \<Rightarrow> (Inl e, st)
      | Inr (vault, snap) \<Rightarrow>
          let st1 = switch_vault vault st in
          (case map_of (ap_sessions st1) client of
             None \<Rightarrow> (Inl ApprovalCancelled, st1)
           | Some s \<Rightarrow>
               (Inr (\<lparr>uc_client = client, uc_vault = vault, uc_revision = ap_revision st1,
                      uc_epoch = ap_lock_epoch st1, uc_connection = sd_connection s,
                      uc_label = (if sd_user_name s = [] then sd_reported_name s else sd_user_name s)\<rparr>,
                     snap), st1)))"

definition capture_unattended ::
    "uuid \<Rightarrow> uuid \<Rightarrow> approval_state \<Rightarrow> unattended_context res \<times> approval_state" where
  "capture_unattended client vault st =
     (case capture_unattended_with client (Inr (vault, ())) st of
        (Inr (ctx, _), st1) \<Rightarrow> (Inr ctx, st1)
      | (Inl e, st1) \<Rightarrow> (Inl e, st1))"

definition context_current :: "unattended_context \<Rightarrow> approval_state \<Rightarrow> bool" where
  "context_current ctx st =
     (is_app_active st \<and> ap_vault st = Some (uc_vault ctx) \<and>
      ap_lock_epoch st = uc_epoch ctx \<and> ap_revision st = uc_revision ctx \<and>
      hm_contains (ap_client_sessions st) (uc_client ctx) \<and>
      (case map_of (ap_sessions st) (uc_client ctx) of
         Some s \<Rightarrow> sd_connection s = uc_connection ctx
       | None \<Rightarrow> False))"

definition grant_unattended ::
    "reading \<Rightarrow> unattended_context \<Rightarrow> secret_id list \<Rightarrow> system_time \<Rightarrow> unit res \<Rightarrow> approval_state \<Rightarrow>
       unit res \<times> approval_state" where
  "grant_unattended r ctx secrets deadline validate st0 =
     (let st = purge_disconnected_clients st0 in
      case duration_since deadline (wall_time r) of
        None \<Rightarrow> (Inl InvalidRequest, st)
      | Some remaining_time \<Rightarrow>
          if remaining_time = 0 \<or> remaining_time > from_secs (24 * 3600) \<or> secrets = []
          then (Inl InvalidRequest, st)
          else if \<not> context_current ctx st then (Inl ApprovalCancelled, st)
          else case validate of
            Inl e \<Rightarrow> (Inl e, st)
          | Inr _ \<Rightarrow>
              (Inr (), decide_pending_if
                 (\<lambda>p. pa_client (ps_request p) = uc_client ctx \<and> ps_decision p = None
                   \<and> set (ps_requested_ids p) \<subseteq> set secrets) Granted
                 (st\<lparr>ap_grants :=
                    grant_unattended_until r r (uc_client ctx) secrets deadline (ap_grants st)\<rparr>)))"

definition require_client_access :: "reading \<Rightarrow> uuid \<Rightarrow> approval_state \<Rightarrow> unit res \<times> approval_state" where
  "require_client_access r client st0 =
     (let st = purge_disconnected_clients st0 in
      if is_app_active st then (Inr (), st)
      else case client_has_unattended r client st of (has, st1) \<Rightarrow>
        (if has then Inr () else Inl VaultLocked, st1))"

definition coord_has_unattended :: "reading \<Rightarrow> uuid \<Rightarrow> approval_state \<Rightarrow> bool \<times> approval_state" where
  "coord_has_unattended r client st0 =
     client_has_unattended r client (purge_disconnected_clients st0)"

definition unattended_covers ::
    "reading \<Rightarrow> uuid \<Rightarrow> secret_id list \<Rightarrow> approval_state \<Rightarrow> bool \<times> approval_state" where
  "unattended_covers r client ids st0 =
     (case client_has_unattended r client (purge_disconnected_clients st0) of (has, st1) \<Rightarrow>
        if \<not> has then (False, st1)
        else case missing_unattended r client ids (ap_grants st1) of (miss, g) \<Rightarrow>
          (miss = [], st1\<lparr>ap_grants := g\<rparr>))"

end
