(* ===== verification/Ladon_Approval_Safety.thy ===== *)
theory Ladon_Approval_Safety
  imports Ladon_Approval
begin

text \<open>
  The approval coordinator as a state machine: its operations in any order and from any thread,
  with the invariant of its state, the provenance of every grant in a human decision, the effect
  of the app lock, of revocation and of disconnection, and the end of every wait.
\<close>

section \<open>Operations in any order\<close>

text \<open>
  \<open>SweepOp\<close> stands for the queries that only purge disconnected clients
  (\<open>client_session_connected\<close>, \<open>pending\<close>, \<open>sessions\<close>); \<open>CancelTokenOp\<close> is another thread cancelling a
  \<open>RunCancellation\<close>. The closures of \<open>coordinate_secret_mutation\<close> and \<open>with_valid_grant\<close> do not
  touch the coordinator, so of the former only the success of \<open>prepare\<close> matters here
  (\<open>mutation_state\<close>, \<open>use_grant_state\<close>).
\<close>

datatype approval_op =
    AuthorizeBeginOp reading instant duration pending_approval
  | AuthorizePollOp reading instant token uuid grant_ticket instant
  | RegisterOp reading uuid uuid token
  | CloseSessionsOp
  | SweepOp
  | ObserveClientOp reading uuid str
  | ActiveGrantsOp reading
  | AnnotateOp uuid "uuid option" str str
  | ObserveRunOp reading uuid str str
  | BeginLockOp reading bool
  | FinishLockOp u64
  | UnlockOp u64
  | ResetOp
  | DecideOp reading uuid approval_decision
  | CancelPendingOp reading
  | RevokeAllGrantsOp
  | RevokePairGrantOp reading uuid secret_id
  | RevokeClientGrantsOp reading uuid
  | MutationOp reading secret_id bool
  | UseGrantOp reading grant_ticket
  | CaptureOp uuid "uuid res"
  | GrantUnattendedAccessOp reading unattended_context "secret_id list" system_time "unit res"
  | RequireAccessOp reading uuid
  | HasUnattendedOp reading uuid
  | UnattendedCoversOp reading uuid "secret_id list"
  | CancelTokenOp token

fun exec_approval :: "approval_op \<Rightarrow> approval_state \<Rightarrow> approval_state" where
  "exec_approval (AuthorizeBeginOp r now timeout req) st = snd (authorize_begin r now timeout req st)"
| "exec_approval (AuthorizePollOp r now t aid ticket deadline) st =
     snd (authorize_poll r now t aid ticket deadline st)"
| "exec_approval (RegisterOp r fresh c t) st = snd (register_client_session r fresh c t st)"
| "exec_approval CloseSessionsOp st = close_client_sessions st"
| "exec_approval SweepOp st = purge_disconnected_clients st"
| "exec_approval (ObserveClientOp r c l) st = observe_client r c l st"
| "exec_approval (ActiveGrantsOp r) st = snd (active_grants r st)"
| "exec_approval (AnnotateOp c conn name note) st =
     snd (set_session_annotation_checked c conn name note st)"
| "exec_approval (ObserveRunOp r c project action) st = observe_run r c project action st"
| "exec_approval (BeginLockOp r preserve) st = snd (begin_app_lock_with_policy r preserve st)"
| "exec_approval (FinishLockOp epoch) st = snd (finish_app_lock epoch st)"
| "exec_approval (UnlockOp epoch) st = snd (unlock_app epoch st)"
| "exec_approval ResetOp st = snd (reset_after_vault_lock st)"
| "exec_approval (DecideOp r aid d) st = snd (set_decision r aid d st)"
| "exec_approval (CancelPendingOp r) st = cancel_pending r st"
| "exec_approval RevokeAllGrantsOp st = snd (coord_revoke_all st)"
| "exec_approval (RevokePairGrantOp r c s) st = snd (coord_revoke_pair r c s st)"
| "exec_approval (RevokeClientGrantsOp r c) st = snd (coord_revoke_client r c st)"
| "exec_approval (MutationOp r s prepared) st =
     snd (snd (coordinate_secret_mutation r s
       (\<lambda>w. (if prepared then Inr () else Inl InvalidRequest, w)) (\<lambda>_ w. (Inr (), w)) () st))"
| "exec_approval (UseGrantOp r ticket) st =
     snd (snd (with_valid_grant r ticket (\<lambda>w. (Inr (), w)) () st))"
| "exec_approval (CaptureOp c vault) st =
     snd (capture_unattended_with c (and_then vault (\<lambda>v. Inr (v, ()))) st)"
| "exec_approval (GrantUnattendedAccessOp r ctx ss deadline validate) st =
     snd (grant_unattended r ctx ss deadline validate st)"
| "exec_approval (RequireAccessOp r c) st = snd (require_client_access r c st)"
| "exec_approval (HasUnattendedOp r c) st = snd (coord_has_unattended r c st)"
| "exec_approval (UnattendedCoversOp r c ids) st = snd (unattended_covers r c ids st)"
| "exec_approval (CancelTokenOp t) st = cancel_tokens [t] st"

lemma mutation_state:
  "snd (snd (coordinate_secret_mutation r s prepare commit w st)) =
     exec_approval (MutationOp r s (\<exists>p w1. prepare w = (Inr p, w1))) st"
  by (cases "prepare w")
    (auto simp: coordinate_secret_mutation_def Let_def split: sum.splits prod.splits)

lemma use_grant_state:
  "snd (snd (with_valid_grant r ticket operation w st)) = exec_approval (UseGrantOp r ticket) st"
  by (auto simp: with_valid_grant_def Let_def split: prod.splits)

section \<open>Quiet evolution\<close>

text \<open>
  Most of what the coordinator does can only take authority away: it drops or expires grants,
  cancels, denies or removes the pending request, and never adds a grant or an approval.
\<close>

definition shrinks :: "grant_store \<Rightarrow> grant_store \<Rightarrow> bool" where
  "shrinks g g' =
     (store_wf g' \<and> (\<forall>k d. map_of (deadlines g') k = Some d \<longrightarrow> map_of (deadlines g) k = Some d))"

lemma shrinks_refl [simp]: "store_wf g \<Longrightarrow> shrinks g g"
  by (simp add: shrinks_def)

lemma shrinks_trans: "shrinks g g' \<Longrightarrow> shrinks g' g'' \<Longrightarrow> shrinks g g''"
  by (auto simp: shrinks_def)

lemma shrinks_wf: "shrinks g g' \<Longrightarrow> store_wf g'"
  by (simp add: shrinks_def)

lemma shrinks_exec:
  assumes "store_wf g" and "\<And>k. granted_deadline (lifetime_millis g) op k = None"
  shows "shrinks g (exec_grant op g)"
  using assms by (auto simp: shrinks_def exec_grant_wf exec_grant_get dest: step_get_Some)

lemma shrinks_ops [simp]:
  assumes "store_wf g"
  shows "shrinks g (purge_expired r g)" "shrinks g (retain_unattended r g)"
    "shrinks g (revoke_client c g)" "shrinks g (revoke_secret s g)" "shrinks g (revoke_all g)"
    "shrinks g (snd (revoke_pair r c s g))"
  using shrinks_exec [OF assms, of "QueryOp r"] shrinks_exec [OF assms, of "RetainUnattendedOp r"]
    shrinks_exec [OF assms, of "RevokeClientOp c"] shrinks_exec [OF assms, of "RevokeSecretOp s"]
    shrinks_exec [OF assms, of RevokeAllOp] shrinks_exec [OF assms, of "RevokePairOp r c s"]
  by simp_all

definition same_request :: "pending_state \<Rightarrow> pending_state \<Rightarrow> bool" where
  "same_request p q =
     (pa_id (ps_request q) = pa_id (ps_request p) \<and> pa_client (ps_request q) = pa_client (ps_request p) \<and>
      pa_secrets (ps_request q) = pa_secrets (ps_request p) \<and>
      pa_vault_session (ps_request q) = pa_vault_session (ps_request p) \<and>
      ps_requested_ids q = ps_requested_ids p)"

definition quiet_pending :: "pending_state option \<Rightarrow> pending_state option \<Rightarrow> bool" where
  "quiet_pending po qo =
     (case qo of
        None \<Rightarrow> True
      | Some q \<Rightarrow>
          (case po of
             None \<Rightarrow> False
           | Some p \<Rightarrow> same_request p q \<and>
               (ps_decision q = ps_decision p \<or> (\<exists>d. ps_decision q = Some d \<and> \<not> approving d))))"

lemma quiet_pending_refl [simp]: "quiet_pending p p"
  by (simp add: quiet_pending_def same_request_def split: option.split)

lemma quiet_pending_None [simp]: "quiet_pending p None"
  by (simp add: quiet_pending_def)

lemma quiet_pending_trans: "quiet_pending a b \<Longrightarrow> quiet_pending b c \<Longrightarrow> quiet_pending a c"
  by (auto simp: quiet_pending_def same_request_def split: option.splits)

definition quiet :: "approval_state \<Rightarrow> approval_state \<Rightarrow> bool" where
  "quiet st st' = (shrinks (ap_grants st) (ap_grants st') \<and> quiet_pending (ap_pending st) (ap_pending st'))"

lemma quiet_refl [simp]: "store_wf (ap_grants st) \<Longrightarrow> quiet st st"
  by (simp add: quiet_def)

lemma quiet_trans [trans]: "quiet a b \<Longrightarrow> quiet b c \<Longrightarrow> quiet a c"
  by (auto simp: quiet_def intro: shrinks_trans quiet_pending_trans)

lemma quiet_wf: "quiet a b \<Longrightarrow> store_wf (ap_grants b)"
  by (auto simp: quiet_def dest: shrinks_wf)

lemma decide_pending_if_simps [simp]:
  "ap_grants (decide_pending_if P d st) = ap_grants st"
  "ap_vault (decide_pending_if P d st) = ap_vault st"
  "ap_labels (decide_pending_if P d st) = ap_labels st"
  "ap_client_sessions (decide_pending_if P d st) = ap_client_sessions st"
  "ap_sessions_closed (decide_pending_if P d st) = ap_sessions_closed st"
  "ap_access (decide_pending_if P d st) = ap_access st"
  "ap_lock_epoch (decide_pending_if P d st) = ap_lock_epoch st"
  "ap_revision (decide_pending_if P d st) = ap_revision st"
  "ap_sessions (decide_pending_if P d st) = ap_sessions st"
  "cancelled_tokens (decide_pending_if P d st) = cancelled_tokens st"
  by (simp_all add: decide_pending_if_def split: option.split)

lemma quiet_decide: "\<not> approving d \<Longrightarrow> quiet_pending (ap_pending st) (ap_pending (decide_pending_if P d st))"
  by (auto simp: decide_pending_if_def quiet_pending_def same_request_def split: option.split)

lemma prune_labels_simps [simp]:
  "ap_grants (prune_client_labels r st) = purge_expired r (ap_grants st)"
  "ap_vault (prune_client_labels r st) = ap_vault st"
  "ap_pending (prune_client_labels r st) = ap_pending st"
  "ap_client_sessions (prune_client_labels r st) = ap_client_sessions st"
  "ap_sessions_closed (prune_client_labels r st) = ap_sessions_closed st"
  "ap_access (prune_client_labels r st) = ap_access st"
  "ap_lock_epoch (prune_client_labels r st) = ap_lock_epoch st"
  "ap_revision (prune_client_labels r st) = ap_revision st"
  "ap_sessions (prune_client_labels r st) = ap_sessions st"
  "cancelled_tokens (prune_client_labels r st) = cancelled_tokens st"
  by (simp_all add: prune_client_labels_def active_def Let_def)

lemma prune_labels_wf: "hm_wf (ap_labels st) \<Longrightarrow> hm_wf (ap_labels (prune_client_labels r st))"
  by (simp add: prune_client_labels_def active_def Let_def)

section \<open>Disconnected clients\<close>

lemma disconnect_simps [simp]:
  "ap_grants (disconnect_client c st) = revoke_client c (ap_grants st)"
  "ap_vault (disconnect_client c st) = ap_vault st"
  "ap_labels (disconnect_client c st) = hm_remove c (ap_labels st)"
  "ap_client_sessions (disconnect_client c st) = hm_remove c (ap_client_sessions st)"
  "ap_sessions_closed (disconnect_client c st) = ap_sessions_closed st"
  "ap_access (disconnect_client c st) = ap_access st"
  "ap_lock_epoch (disconnect_client c st) = ap_lock_epoch st"
  "ap_revision (disconnect_client c st) = ap_revision st"
  "ap_sessions (disconnect_client c st) = hm_remove c (ap_sessions st)"
  "cancelled_tokens (disconnect_client c st) = cancelled_tokens st"
  by (simp_all add: disconnect_client_def)

lemma quiet_disconnect: "store_wf (ap_grants st) \<Longrightarrow> quiet st (disconnect_client c st)"
  using quiet_decide [of Cancel "st\<lparr>ap_client_sessions := hm_remove c (ap_client_sessions st),
      ap_grants := revoke_client c (ap_grants st), ap_labels := hm_remove c (ap_labels st),
      ap_sessions := hm_remove c (ap_sessions st)\<rparr>"]
  by (simp add: quiet_def disconnect_client_def)

lemma quiet_fold_disconnect:
  "store_wf (ap_grants st) \<Longrightarrow> quiet st (fold disconnect_client cs st)"
  by (induction cs arbitrary: st) (auto intro: quiet_trans quiet_disconnect quiet_wf)

lemma quiet_purge [simp]: "store_wf (ap_grants st) \<Longrightarrow> quiet st (purge_disconnected_clients st)"
  by (simp add: purge_disconnected_clients_def quiet_fold_disconnect)

lemma fold_disconnect_simps [simp]:
  "ap_vault (fold disconnect_client cs st) = ap_vault st"
  "ap_sessions_closed (fold disconnect_client cs st) = ap_sessions_closed st"
  "ap_access (fold disconnect_client cs st) = ap_access st"
  "ap_lock_epoch (fold disconnect_client cs st) = ap_lock_epoch st"
  "ap_revision (fold disconnect_client cs st) = ap_revision st"
  "cancelled_tokens (fold disconnect_client cs st) = cancelled_tokens st"
  by (induction cs arbitrary: st) auto

lemma fold_disconnect_sessions:
  "map_of (ap_client_sessions (fold disconnect_client cs st)) c =
     (if c \<in> set cs then None else map_of (ap_client_sessions st) c)"
  "map_of (ap_sessions (fold disconnect_client cs st)) c =
     (if c \<in> set cs then None else map_of (ap_sessions st) c)"
  by (induction cs arbitrary: st) auto

lemma purge_simps [simp]:
  "ap_vault (purge_disconnected_clients st) = ap_vault st"
  "ap_sessions_closed (purge_disconnected_clients st) = ap_sessions_closed st"
  "ap_access (purge_disconnected_clients st) = ap_access st"
  "ap_lock_epoch (purge_disconnected_clients st) = ap_lock_epoch st"
  "ap_revision (purge_disconnected_clients st) = ap_revision st"
  "cancelled_tokens (purge_disconnected_clients st) = cancelled_tokens st"
  "is_app_active (purge_disconnected_clients st) = is_app_active st"
  by (simp_all add: purge_disconnected_clients_def is_app_active_def)

section \<open>Every operation, quiet or not\<close>

lemma grants_store_wf_snd [simp]:
  "store_wf g \<Longrightarrow> store_wf (snd (missing r c ss g))"
  "store_wf g \<Longrightarrow> store_wf (snd (missing_unattended r c ss g))"
  "store_wf g \<Longrightarrow> store_wf (snd (has_unattended r c g))"
  "store_wf g \<Longrightarrow> store_wf (snd (active r r g))"
  by (simp_all add: query_results_purge)

lemma query_store:
  "missing r c ss g = (m, g') \<Longrightarrow> g' = purge_expired r g"
  "missing_unattended r c ss g = (m, g') \<Longrightarrow> g' = purge_expired r g"
  "has_unattended r c g = (b, g') \<Longrightarrow> g' = purge_expired r g"
  "active r r g = (es, g') \<Longrightarrow> g' = purge_expired r g"
  using query_results_purge by (metis snd_conv)+

lemma shrinks_then [simp]:
  assumes "shrinks a b"
  shows "shrinks a (purge_expired r b)" "shrinks a (retain_unattended r b)"
    "shrinks a (revoke_client c b)" "shrinks a (revoke_secret s b)" "shrinks a (revoke_all b)"
    "shrinks a (snd (revoke_pair r c s b))"
  using shrinks_trans [OF assms] shrinks_ops [OF shrinks_wf [OF assms]] by blast+

lemma quiet_grants_update:
  "quiet st st' \<Longrightarrow> shrinks (ap_grants st') g \<Longrightarrow> quiet st (st'\<lparr>ap_grants := g\<rparr>)"
  by (auto simp: quiet_def intro: shrinks_trans)

lemma quiet_frame:
  "ap_grants st'' = ap_grants st' \<Longrightarrow> ap_pending st'' = ap_pending st' \<Longrightarrow> quiet st st' \<Longrightarrow> quiet st st''"
  by (simp add: quiet_def)

lemma client_has_unattended_snd:
  "snd (client_has_unattended r c st) =
     (if hm_contains (ap_client_sessions st) c then st\<lparr>ap_grants := purge_expired r (ap_grants st)\<rparr> else st)"
  using query_results_purge(3) [of r c "ap_grants st"]
  by (auto simp: client_has_unattended_def split: prod.split)

lemma client_has_unattended_fst:
  assumes "store_wf (ap_grants st)"
  shows "fst (client_has_unattended r c st) \<longleftrightarrow>
     hm_contains (ap_client_sessions st) c \<and> (\<exists>s. covers_unattended r (ap_grants st) c s)"
  using has_unattended_iff [OF assms, of r c]
  by (auto simp: client_has_unattended_def split: prod.split)

lemma quiet_client_has_unattended [simp]:
  "store_wf (ap_grants st) \<Longrightarrow> quiet st (snd (client_has_unattended r c st))"
  by (simp add: client_has_unattended_snd quiet_def)

lemma quiet_prune [simp]: "quiet st st' \<Longrightarrow> quiet st (prune_client_labels r st')"
  by (simp add: quiet_def)

lemma quiet_clear_pending: "quiet st st' \<Longrightarrow> quiet st (clear_pending r aid st')"
  by (auto simp: clear_pending_def quiet_def split: option.split)

lemma quiet_switch_vault: "quiet st st' \<Longrightarrow> quiet st (switch_vault v st')"
  by (simp add: switch_vault_def quiet_def)

lemma quiet_decided: "\<not> approving d \<Longrightarrow> quiet st st' \<Longrightarrow> quiet st (decide_pending_if P d st')"
  using quiet_decide [of d st' P] by (auto simp: quiet_def intro: quiet_pending_trans)

lemma quiet_authorize_locked:
  assumes "quiet st0 st"
  shows "quiet st0 (snd (authorize_locked r req st))"
proof -
  have wf: "store_wf (ap_grants st)" using assms by (rule quiet_wf)
  obtain has st1 where c: "client_has_unattended r (pa_client req) st = (has, st1)"
    by (cases "client_has_unattended r (pa_client req) st")
  have q1: "quiet st0 st1"
    using quiet_trans [OF assms quiet_client_has_unattended [OF wf, of r "pa_client req"]] c by simp
  obtain miss g where m: "missing_unattended r (pa_client req) (request_ids req) (ap_grants st1) = (miss, g)"
    by (cases "missing_unattended r (pa_client req) (request_ids req) (ap_grants st1)")
  have "g = purge_expired r (ap_grants st1)"
    using m query_results_purge(2) [of r "pa_client req" "request_ids req" "ap_grants st1"] by simp
  then have "quiet st0 (st1\<lparr>ap_grants := g\<rparr>)"
    using q1 by (auto intro!: quiet_grants_update dest: quiet_wf)
  with q1 assms show ?thesis
    by (simp add: authorize_locked_def c m Let_def)
qed


text \<open>The operations that never add authority.\<close>

lemma quiet_finishing_decision:
  assumes "\<not> approving d" and "store_wf (ap_grants st)" and "ap_pending st = None"
  shows "quiet st (snd (apply_decision r ticket p d st))"
  using assms query_results_purge(1) [of r "gt_client ticket" "gt_secret_ids ticket" "ap_grants st"]
  by (cases d)
    (auto simp: apply_decision_def Let_def quiet_def split: prod.split option.split)

lemma quiet_poll:
  assumes wf: "store_wf (ap_grants st)"
    and na: "\<And>p d. ap_pending (purge_disconnected_clients st) = Some p \<Longrightarrow> ps_decision p = Some d \<Longrightarrow> \<not> approving d"
  shows "quiet st (snd (authorize_poll r now t aid ticket deadline st))"
proof -
  let ?st = "purge_disconnected_clients st"
  have q: "quiet st ?st" using wf by (rule quiet_purge)
  have wf': "store_wf (ap_grants ?st)" using q by (rule quiet_wf)
  show ?thesis
  proof (cases "is_cancelled ?st t")
    case True
    then show ?thesis using quiet_clear_pending [OF q] by (simp add: authorize_poll_def Let_def)
  next
    case nc: False
    show ?thesis
    proof (cases "decision_for ?st aid")
      case None
      then show ?thesis
        using nc q quiet_clear_pending [OF q] by (simp add: authorize_poll_def Let_def)
    next
      case (Some d)
      then obtain p where p: "ap_pending ?st = Some p" and d: "ps_decision p = Some d"
        by (auto simp: decision_for_def split: option.splits if_splits)
      have "quiet (?st\<lparr>ap_pending := None\<rparr>)
          (snd (apply_decision r ticket p d (?st\<lparr>ap_pending := None\<rparr>)))"
        using na [OF p d] wf' by (intro quiet_finishing_decision) simp_all
      moreover have "quiet st (?st\<lparr>ap_pending := None\<rparr>)"
        using q by (simp add: quiet_def)
      ultimately have "quiet st (snd (apply_decision r ticket p d (?st\<lparr>ap_pending := None\<rparr>)))"
        by (rule quiet_trans [rotated])
      then show ?thesis
        using nc Some p by (auto simp: authorize_poll_def Let_def split: prod.split)
    qed
  qed
qed

lemma quiet_access_valid:
  assumes "quiet st0 st"
  shows "quiet st0 (snd (access_valid r ticket st))"
proof -
  have wf: "store_wf (ap_grants st)" using assms by (rule quiet_wf)
  obtain has st1 where c: "client_has_unattended r (gt_client ticket) st = (has, st1)"
    by (cases "client_has_unattended r (gt_client ticket) st")
  have q1: "quiet st0 st1"
    using quiet_trans [OF assms quiet_client_has_unattended [OF wf, of r "gt_client ticket"]] c by simp
  obtain miss g where m: "missing_unattended r (gt_client ticket) (gt_secret_ids ticket) (ap_grants st1) = (miss, g)"
    by (cases "missing_unattended r (gt_client ticket) (gt_secret_ids ticket) (ap_grants st1)")
  have "g = purge_expired r (ap_grants st1)"
    using m query_results_purge(2) [of r "gt_client ticket" "gt_secret_ids ticket" "ap_grants st1"] by simp
  then have "quiet st0 (st1\<lparr>ap_grants := g\<rparr>)"
    using q1 by (auto intro!: quiet_grants_update dest: quiet_wf)
  with q1 assms show ?thesis
    by (simp add: access_valid_def c m)
qed

lemma quiet_use_grant:
  assumes wf: "store_wf (ap_grants st)"
  shows "quiet st (snd (snd (with_valid_grant r ticket operation w st)))"
proof -
  obtain valid st1 where v: "access_valid r ticket (purge_disconnected_clients st) = (valid, st1)"
    by (cases "access_valid r ticket (purge_disconnected_clients st)")
  have q1: "quiet st st1"
    using quiet_access_valid [OF quiet_purge [OF wf], of r ticket] v by simp
  obtain miss g where m: "missing r (gt_client ticket) (gt_secret_ids ticket) (ap_grants st1) = (miss, g)"
    by (cases "missing r (gt_client ticket) (gt_secret_ids ticket) (ap_grants st1)")
  have "g = purge_expired r (ap_grants st1)"
    using m query_results_purge(1) [of r "gt_client ticket" "gt_secret_ids ticket" "ap_grants st1"] by simp
  then have "quiet st (st1\<lparr>ap_grants := g\<rparr>)"
    using q1 by (auto intro!: quiet_grants_update dest: quiet_wf)
  with q1 show ?thesis
    by (simp add: with_valid_grant_def v m Let_def split: prod.split)
qed


lemma quiet_register:
  "store_wf (ap_grants st) \<Longrightarrow> quiet st (snd (register_client_session r fresh c t st))"
  using quiet_purge [of st]
  by (auto simp: register_client_session_def Let_def quiet_def)

lemma quiet_observe_client:
  assumes "store_wf (ap_grants st)"
  shows "quiet st (observe_client r c l st)"
proof -
  let ?st = "purge_disconnected_clients st"
  have q: "quiet st ?st" using assms by simp
  show ?thesis
    using q query_results_purge(5) [of r r "ap_grants ?st"]
    by (auto simp: observe_client_def Let_def quiet_def quiet_pending_def same_request_def
        split: prod.splits option.splits)
qed

lemma quiet_lock: "store_wf (ap_grants st) \<Longrightarrow> quiet st (snd (begin_app_lock_with_policy r preserve st))"
  using quiet_decide [of Cancel]
  by (auto simp: begin_app_lock_with_policy_def cancel_pending_decision_def Let_def quiet_def
      decide_pending_if_def quiet_pending_def same_request_def split: option.split)

lemma quiet_reset: "store_wf (ap_grants st) \<Longrightarrow> quiet st (snd (reset_after_vault_lock st))"
  by (auto simp: reset_after_vault_lock_def cancel_pending_decision_def Let_def quiet_def
      decide_pending_if_def quiet_pending_def same_request_def split: option.split)

lemma quiet_revokes:
  assumes "store_wf (ap_grants st)"
  shows "quiet st (snd (coord_revoke_all st))" "quiet st (snd (coord_revoke_pair r c s st))"
    "quiet st (snd (coord_revoke_client r c st))"
    "quiet st (exec_approval (MutationOp r s prepared) st)"
    "quiet st (cancel_pending r st)"
  using assms
  by (auto simp: coord_revoke_all_def coord_revoke_pair_def coord_revoke_client_def
      coordinate_secret_mutation_def revoke_for_mutation_def cancel_pending_def
      cancel_pending_decision_def bump_revision_def Let_def quiet_def revoke_pair_def
      decide_pending_if_def quiet_pending_def same_request_def shrinks_ops(6) [unfolded revoke_pair_def Let_def, simplified]
      split: option.splits prod.splits sum.splits)


lemma quiet_covers:
  assumes wf: "store_wf (ap_grants st)"
  shows "quiet st (snd (unattended_covers r c ids st))"
proof -
  let ?st = "purge_disconnected_clients st"
  have q: "quiet st ?st" using wf by simp
  have "quiet st (snd (client_has_unattended r c ?st))"
    using quiet_trans [OF q] quiet_wf [OF q] by simp
  then show ?thesis
    by (auto simp: unattended_covers_def split: prod.split intro!: quiet_grants_update
        dest: quiet_wf dest!: query_store)
qed

lemma quiet_sessions_ops:
  assumes wf: "store_wf (ap_grants st)"
  shows "quiet st (close_client_sessions st)" "quiet st (snd (active_grants r st))"
    "quiet st (snd (set_session_annotation_checked c conn name note st))"
    "quiet st (observe_run r c project action st)" "quiet st (snd (finish_app_lock epoch st))"
    "quiet st (snd (unlock_app epoch st))" "quiet st (cancel_tokens ts st)"
    "quiet st (snd (require_client_access r c st))" "quiet st (snd (coord_has_unattended r c st))"
    "quiet st (snd (capture_unattended_with c snapshot st))"
proof -
  let ?st = "purge_disconnected_clients st"
  let ?closed = "cancel_tokens (map snd (ap_client_sessions st)) (st\<lparr>ap_sessions_closed := True\<rparr>)"
  have q: "quiet st ?st" using wf by simp
  note wf' = quiet_wf [OF q]
  have c: "quiet st (snd (client_has_unattended r c ?st))"
    using quiet_trans [OF q] wf' by simp
  have "quiet st ?closed" using wf by (simp add: quiet_def cancel_tokens_def)
  then show "quiet st (close_client_sessions st)"
    unfolding close_client_sessions_def
    by (rule quiet_trans) (use wf in \<open>simp add: cancel_tokens_def\<close>)
  show "quiet st (snd (active_grants r st))"
    using q query_results_purge(5) [of r r "ap_grants ?st"]
    by (auto simp: active_grants_def Let_def quiet_def split: prod.split)
  show "quiet st (snd (set_session_annotation_checked c conn name note st))"
    using q wf by (auto simp: set_session_annotation_checked_def Let_def quiet_def split: option.split)
  show "quiet st (observe_run r c project action st)"
    using wf by (auto simp: observe_run_def quiet_def split: option.split)
  show "quiet st (snd (finish_app_lock epoch st))" "quiet st (snd (unlock_app epoch st))"
    "quiet st (cancel_tokens ts st)"
    using wf by (auto simp: finish_app_lock_def unlock_app_def cancel_tokens_def quiet_def)
  show "quiet st (snd (require_client_access r c st))" "quiet st (snd (coord_has_unattended r c st))"
    using q c by (auto simp: require_client_access_def coord_has_unattended_def Let_def split: prod.split)
  show "quiet st (snd (capture_unattended_with c snapshot st))"
    using q quiet_switch_vault [OF q]
    by (auto simp: capture_unattended_with_def Let_def split: sum.split option.split)
qed

text \<open>The four operations that may add something: a published request, a decision, the grant a
  decided wait makes, and unattended access.\<close>

fun adds_authority :: "approval_op \<Rightarrow> bool" where
  "adds_authority (AuthorizeBeginOp r now timeout req) = True"
| "adds_authority (AuthorizePollOp r now t aid ticket deadline) = True"
| "adds_authority (DecideOp r aid d) = True"
| "adds_authority (GrantUnattendedAccessOp r ctx ss deadline v) = True"
| "adds_authority _ = False"

lemma quiet_exec:
  assumes "store_wf (ap_grants st)" and "\<not> adds_authority op"
  shows "quiet st (exec_approval op st)"
proof (cases op)
  case (MutationOp r s prepared)
  then show ?thesis using quiet_revokes(4) [OF assms(1)] by simp
qed (use assms quiet_register quiet_observe_client quiet_lock quiet_reset quiet_revokes
      quiet_covers quiet_sessions_ops quiet_use_grant in simp_all)


section \<open>Where authority comes from\<close>

definition decided_pairs :: "pending_state option \<Rightarrow> grant_key set" where
  "decided_pairs po =
     (case po of
        Some p \<Rightarrow> if \<exists>d. ps_decision p = Some d \<and> approving d
          then {pa_client (ps_request p)} \<times> set (request_ids (ps_request p)) else {}
      | None \<Rightarrow> {})"

text \<open>The pairs that hold a grant, and those an approved request is about to be granted.\<close>

definition authority :: "approval_state \<Rightarrow> grant_key set" where
  "authority st = dom (map_of (deadlines (ap_grants st))) \<union> decided_pairs (ap_pending st)"

text \<open>The pairs a human decision gives away: an approval covers the client and the secrets of the
  request on display, confirmed unattended access the client and the secrets confirmed.\<close>

fun human_grants :: "approval_op \<Rightarrow> approval_state \<Rightarrow> grant_key set" where
  "human_grants (DecideOp r aid d) st =
     (if approving d \<and> fst (set_decision r aid d st) = Inr ()
      then (case ap_pending (purge_disconnected_clients st) of
              Some p \<Rightarrow> {pa_client (ps_request p)} \<times> set (request_ids (ps_request p))
            | None \<Rightarrow> {})
      else {})"
| "human_grants (GrantUnattendedAccessOp r ctx ss deadline validate) st =
     (if fst (grant_unattended r ctx ss deadline validate st) = Inr ()
      then {uc_client ctx} \<times> set ss else {})"
| "human_grants _ st = {}"

lemma quiet_authority: "quiet st st' \<Longrightarrow> authority st' \<subseteq> authority st"
  by (force simp: quiet_def authority_def shrinks_def quiet_pending_def same_request_def
      decided_pairs_def request_ids_def split: option.splits if_splits)

lemma begin_step:
  assumes wf: "store_wf (ap_grants st)"
  shows "shrinks (ap_grants st) (ap_grants (snd (authorize_begin r now timeout req st))) \<and>
    (quiet st (snd (authorize_begin r now timeout req st)) \<or>
     (is_app_active st \<and>
      (\<exists>p. ap_pending (snd (authorize_begin r now timeout req st)) = Some p \<and> ps_decision p = None)))"
proof -
  let ?st = "purge_disconnected_clients st"
  have q: "quiet st ?st" using wf by simp
  show ?thesis
  proof (cases "is_app_active st \<and> ap_pending ?st = None")
    case False
    then have "quiet st (snd (authorize_begin r now timeout req st))"
      using q quiet_authorize_locked [OF q, of r req]
      by (cases "authorize_locked r req ?st") (auto simp: authorize_begin_def Let_def)
    then show ?thesis by (simp add: quiet_def)
  next
    case True
    have s: "shrinks (ap_grants st) (ap_grants (switch_vault v ?st))"
      "ap_pending (switch_vault v ?st) = ap_pending ?st" for v
      using quiet_switch_vault [OF q, of v] by (simp_all add: quiet_def switch_vault_def)
    show ?thesis
      using True s
      by (auto simp: authorize_begin_def Let_def quiet_def split: prod.split dest!: query_store)
  qed
qed

lemma decide_step:
  assumes wf: "store_wf (ap_grants st)"
  shows "quiet st (snd (set_decision r aid d st)) \<or>
     (approving d \<and> fst (set_decision r aid d st) = Inr () \<and>
      shrinks (ap_grants st) (ap_grants (snd (set_decision r aid d st))) \<and>
      (\<exists>p. ap_pending (purge_disconnected_clients st) = Some p \<and> ps_decision p = None \<and>
           ap_pending (snd (set_decision r aid d st)) = Some (p\<lparr>ps_decision := Some d\<rparr>)))"
proof -
  let ?st = "purge_disconnected_clients st"
  have q: "quiet st ?st" using wf by simp
  have n: "\<not> approving d \<Longrightarrow> ap_pending ?st = Some p \<Longrightarrow>
      quiet st (?st\<lparr>ap_pending := Some (p\<lparr>ps_decision := Some d\<rparr>)\<rparr>)" for p
    using q by (auto simp: quiet_def quiet_pending_def same_request_def split: option.splits)
  show ?thesis
    using q n by (auto simp: set_decision_def Let_def quiet_def split: option.splits)
qed

lemma grant_unattended_step:
  assumes wf: "store_wf (ap_grants st)"
  shows "quiet st (snd (grant_unattended r ctx ss deadline v st)) \<or>
     (fst (grant_unattended r ctx ss deadline v st) = Inr () \<and> is_app_active st \<and>
      ap_grants (snd (grant_unattended r ctx ss deadline v st)) =
        grant_unattended_until r r (uc_client ctx) ss deadline (ap_grants (purge_disconnected_clients st)) \<and>
      quiet_pending (ap_pending st) (ap_pending (snd (grant_unattended r ctx ss deadline v st))))"
proof -
  let ?st = "purge_disconnected_clients st"
  have q: "quiet st ?st" using wf by simp
  have "quiet_pending (ap_pending st) (ap_pending (decide_pending_if P Granted (?st\<lparr>ap_grants := g\<rparr>)))" for P g
    using q quiet_decide [of Granted "?st\<lparr>ap_grants := g\<rparr>" P]
    by (auto simp: quiet_def intro: quiet_pending_trans)
  then show ?thesis
    using q by (auto simp: grant_unattended_def Let_def context_current_def split: option.split sum.split)
qed

lemma insert_deadlines_dom:
  "dom (map_of (deadlines (insert_deadlines c ss d g))) = dom (map_of (deadlines g)) \<union> {c} \<times> set ss"
  by (force simp: insert_deadlines_get dom_def)

lemma grants_dom:
  assumes "store_wf g"
  shows "dom (map_of (deadlines (grant_for r r c ss l g))) \<subseteq> dom (map_of (deadlines g)) \<union> {c} \<times> set ss"
    "dom (map_of (deadlines (grant_until r c ss t g))) \<subseteq> dom (map_of (deadlines g)) \<union> {c} \<times> set ss"
    "dom (map_of (deadlines (grant_session r c ss g))) \<subseteq> dom (map_of (deadlines g)) \<union> {c} \<times> set ss"
    "dom (map_of (deadlines (grant_unattended_until r r c ss t g))) \<subseteq> dom (map_of (deadlines g)) \<union> {c} \<times> set ss"
  using shrinks_ops(1) [OF assms, of r]
  by (auto simp: grant_for_def grant_until_def grant_session_def grant_unattended_until_def
      insert_deadlines_dom shrinks_def)

lemma grants_wf:
  assumes "store_wf g"
  shows "store_wf (grant_for r r c ss l g)" "store_wf (grant_until r c ss t g)"
    "store_wf (grant_session r c ss g)" "store_wf (grant_unattended_until r r c ss t g)"
  using assms by (simp_all add: grant_for_def grant_until_def grant_session_def grant_unattended_until_def)

lemma apply_decision_step:
  assumes "store_wf (ap_grants st)"
  shows "store_wf (ap_grants (snd (apply_decision r ticket p d st))) \<and>
    ap_pending (snd (apply_decision r ticket p d st)) = ap_pending st \<and>
    dom (map_of (deadlines (ap_grants (snd (apply_decision r ticket p d st)))))
      \<subseteq> dom (map_of (deadlines (ap_grants st))) \<union>
        (if approving d then {pa_client (ps_request p)} \<times> set (request_ids (ps_request p)) else {})"
proof -
  have sh: "dom (map_of (deadlines (purge_expired r (ap_grants st)))) \<subseteq> dom (map_of (deadlines (ap_grants st)))"
    using shrinks_ops(1) [OF assms, of r] by (auto simp: shrinks_def)
  note g = grants_dom [OF assms] grants_wf [OF assms]
  show ?thesis
  proof (cases d)
    case (Approve lo)
    then show ?thesis
      using g by (cases lo) (auto simp: apply_decision_def Let_def grant_def)
  next
    case ApproveSession
    then show ?thesis
      using g assms by (auto simp: apply_decision_def Let_def split: option.split)
  next
    case Granted
    then show ?thesis
      using assms sh by (auto simp: apply_decision_def Let_def split: prod.split dest!: query_store)
  qed (use g sh assms in \<open>auto simp: apply_decision_def Let_def\<close>)
qed

lemma poll_step:
  assumes wf: "store_wf (ap_grants st)"
  shows "store_wf (ap_grants (snd (authorize_poll r now t aid ticket deadline st))) \<and>
    authority (snd (authorize_poll r now t aid ticket deadline st)) \<subseteq> authority st"
proof (cases "\<exists>p d. ap_pending (purge_disconnected_clients st) = Some p \<and> ps_decision p = Some d \<and> approving d")
  case False
  then have "quiet st (snd (authorize_poll r now t aid ticket deadline st))"
    using wf by (intro quiet_poll) auto
  then show ?thesis by (simp add: quiet_authority quiet_wf)
next
  case True
  let ?st = "purge_disconnected_clients st"
  obtain p d where p: "ap_pending ?st = Some p" and d: "ps_decision p = Some d" "approving d"
    using True by blast
  have q: "quiet st ?st" using wf by simp
  have wf': "store_wf (ap_grants ?st)" using q by (rule quiet_wf)
  have a: "authority ?st \<subseteq> authority st" using q by (rule quiet_authority)
  have c: "quiet ?st (clear_pending r aid ?st)" "quiet ?st ?st"
    using wf' by (simp_all add: quiet_clear_pending)
  have s: "authority (snd (apply_decision r ticket p d (?st\<lparr>ap_pending := None\<rparr>))) \<subseteq> authority ?st"
    "store_wf (ap_grants (snd (apply_decision r ticket p d (?st\<lparr>ap_pending := None\<rparr>))))"
    using apply_decision_step [of "?st\<lparr>ap_pending := None\<rparr>" r ticket p d] wf' p d
    by (auto simp: authority_def decided_pairs_def)
  show ?thesis
    using a s wf' quiet_authority [OF c(1)] quiet_wf [OF c(1)] p d
    by (auto simp: authorize_poll_def Let_def decision_for_def split: option.split prod.split)
qed

lemma approval_step:
  assumes wf: "store_wf (ap_grants st)"
  shows "store_wf (ap_grants (exec_approval op st)) \<and>
    authority (exec_approval op st) \<subseteq> authority st \<union> human_grants op st"
proof (cases "adds_authority op")
  case False
  then have "quiet st (exec_approval op st)" using wf by (rule quiet_exec [rotated])
  then show ?thesis using quiet_authority quiet_wf by blast
next
  case True
  then show ?thesis
  proof (cases op)
    case (AuthorizeBeginOp r now timeout req)
    let ?st' = "snd (authorize_begin r now timeout req st)"
    have sh: "shrinks (ap_grants st) (ap_grants ?st')"
      using begin_step [OF wf] by blast
    from begin_step [OF wf, of r now timeout req]
    consider "quiet st ?st'" | p where "ap_pending ?st' = Some p" "ps_decision p = None"
      by blast
    then have "authority ?st' \<subseteq> authority st"
    proof cases
      case 1
      then show ?thesis by (rule quiet_authority)
    next
      case 2
      then show ?thesis using sh by (auto simp: authority_def decided_pairs_def shrinks_def)
    qed
    with sh show ?thesis by (auto simp: AuthorizeBeginOp dest: shrinks_wf)
  next
    case (AuthorizePollOp r now t aid ticket deadline)
    with poll_step [OF wf] show ?thesis by auto
  next
    case (DecideOp r aid d)
    from decide_step [OF wf, of r aid d] show ?thesis
    proof
      assume "quiet st (snd (set_decision r aid d st))"
      then show ?thesis using quiet_authority quiet_wf by (simp add: DecideOp) blast
    next
      assume *: "approving d \<and> fst (set_decision r aid d st) = Inr () \<and>
        shrinks (ap_grants st) (ap_grants (snd (set_decision r aid d st))) \<and>
        (\<exists>p. ap_pending (purge_disconnected_clients st) = Some p \<and> ps_decision p = None \<and>
           ap_pending (snd (set_decision r aid d st)) = Some (p\<lparr>ps_decision := Some d\<rparr>))"
      then show ?thesis
        by (auto simp: DecideOp authority_def decided_pairs_def shrinks_def)
    qed
  next
    case (GrantUnattendedAccessOp r ctx ss deadline v)
    let ?st' = "snd (grant_unattended r ctx ss deadline v st)"
    from grant_unattended_step [OF wf, of r ctx ss deadline v] show ?thesis
    proof
      assume "quiet st ?st'"
      then show ?thesis using quiet_authority quiet_wf by (simp add: GrantUnattendedAccessOp) blast
    next
      assume *: "fst (grant_unattended r ctx ss deadline v st) = Inr () \<and> is_app_active st \<and>
        ap_grants ?st' = grant_unattended_until r r (uc_client ctx) ss deadline
            (ap_grants (purge_disconnected_clients st)) \<and>
        quiet_pending (ap_pending st) (ap_pending ?st')"
      have q: "quiet st (purge_disconnected_clients st)" using wf by simp
      have "decided_pairs (ap_pending ?st') \<subseteq> decided_pairs (ap_pending st)"
        using * by (auto simp: quiet_pending_def same_request_def decided_pairs_def request_ids_def
            split: option.splits if_splits)
      moreover have "dom (map_of (deadlines (ap_grants ?st'))) \<subseteq>
          dom (map_of (deadlines (ap_grants st))) \<union> {uc_client ctx} \<times> set ss"
        using * grants_dom(4) [OF quiet_wf [OF q], of r "uc_client ctx" ss deadline] q
        by (force simp: quiet_def shrinks_def)
      moreover have "store_wf (ap_grants ?st')"
        using * grants_wf(4) [OF quiet_wf [OF q]] by simp
      ultimately show ?thesis
        using * by (auto simp: GrantUnattendedAccessOp authority_def)
    qed
  qed simp_all
qed

end
