(* ===== verification/Ladon_Approval_Inv.thy ===== *)
theory Ladon_Approval_Inv
  imports Ladon_Approval_Safety
begin

text \<open>
  The invariant of the approval coordinator and what its operations leave alone: the lock and the
  revision (\<open>same_control\<close>), the session tables (\<open>same_sessions\<close>), the vault. The invariant is
  carried along every run by the interpretation \<open>approval\<close> of \<open>op_machine\<close>.
\<close>

section \<open>What the operations leave alone\<close>

definition same_control :: "approval_state \<Rightarrow> approval_state \<Rightarrow> bool" where
  "same_control st st' =
     (ap_access st' = ap_access st \<and> ap_lock_epoch st' = ap_lock_epoch st \<and>
      ap_revision st' = ap_revision st)"

lemma same_control_refl [simp]: "same_control st st"
  by (simp add: same_control_def)

lemma same_control_purge [simp]: "same_control st (purge_disconnected_clients st)"
  by (simp add: same_control_def)

lemma same_control_client_has_unattended:
  "same_control st st' \<Longrightarrow> same_control st (snd (client_has_unattended r c st'))"
  by (simp add: client_has_unattended_snd same_control_def)

lemma same_control_authorize_locked:
  assumes "same_control st st'"
  shows "same_control st (snd (authorize_locked r req st'))"
proof -
  obtain has st1 where c: "client_has_unattended r (pa_client req) st' = (has, st1)"
    by (cases "client_has_unattended r (pa_client req) st'")
  then have "same_control st st1"
    using same_control_client_has_unattended [OF assms, of r "pa_client req"] by simp
  with assms show ?thesis
    by (auto simp: authorize_locked_def c Let_def same_control_def split: prod.split)
qed

lemma same_control_switch_vault: "same_control st st' \<Longrightarrow> same_control st (switch_vault v st')"
  by (simp add: switch_vault_def same_control_def)

lemma same_control_begin: "same_control st (snd (authorize_begin r now timeout req st))"
  using same_control_authorize_locked [OF same_control_purge [of st], of r req]
    same_control_switch_vault [OF same_control_purge [of st], of "pa_vault_session req"]
  by (cases "authorize_locked r req (purge_disconnected_clients st)")
    (auto simp: authorize_begin_def Let_def same_control_def split: prod.split)

lemma same_control_apply: "same_control st (snd (apply_decision r ticket p d st))"
  by (cases d)
    (auto simp: apply_decision_def Let_def same_control_def split: prod.split option.split)

lemma same_control_clear: "same_control st st' \<Longrightarrow> same_control st (clear_pending r aid st')"
  by (auto simp: clear_pending_def same_control_def split: option.split)

lemma same_control_poll: "same_control st (snd (authorize_poll r now t aid ticket deadline st))"
proof -
  let ?st = "purge_disconnected_clients st"
  have "same_control st (snd (apply_decision r ticket p d (?st\<lparr>ap_pending := None\<rparr>)))" for p d
    using same_control_apply [of "?st\<lparr>ap_pending := None\<rparr>" r ticket p d] by (simp add: same_control_def)
  then show ?thesis
    using same_control_clear [OF same_control_purge [of st], of r aid]
    by (simp add: authorize_poll_def Let_def split: option.split prod.split) (metis snd_conv)
qed

lemma same_control_access_valid:
  "same_control st st' \<Longrightarrow> same_control st (snd (access_valid r ticket st'))"
  using same_control_client_has_unattended [of st st' r "gt_client ticket"]
  by (auto simp: access_valid_def same_control_def split: prod.split)

lemma same_control_use: "same_control st (snd (snd (with_valid_grant r ticket f w st)))"
  using same_control_access_valid [OF same_control_purge [of st], of r ticket]
  by (auto simp: with_valid_grant_def Let_def same_control_def split: prod.splits)

lemma same_control_grant_unattended: "same_control st (snd (grant_unattended r ctx ss deadline v st))"
  by (auto simp: grant_unattended_def Let_def same_control_def split: option.split sum.split)

lemma same_control_sessions_ops:
  "same_control st (snd (register_client_session r fresh c t st))"
  "same_control st (close_client_sessions st)" "same_control st (observe_client r c l st)"
  "same_control st (snd (active_grants r st))"
  "same_control st (snd (set_session_annotation_checked c conn name note st))"
  "same_control st (observe_run r c project action st)" "same_control st (cancel_tokens ts st)"
  "same_control st (snd (set_decision r aid d st))" "same_control st (cancel_pending r st)"
  by (auto simp: register_client_session_def close_client_sessions_def observe_client_def
      active_grants_def set_session_annotation_checked_def observe_run_def cancel_tokens_def
      set_decision_def cancel_pending_def cancel_pending_decision_def Let_def same_control_def
      split: option.split prod.split)

lemma same_control_access_ops:
  "same_control st (snd (require_client_access r c st))"
  "same_control st (snd (coord_has_unattended r c st))"
  "same_control st (snd (unattended_covers r c ids st))"
  "same_control st (snd (capture_unattended_with c snapshot st))"
  using same_control_client_has_unattended [OF same_control_purge [of st], of r c]
    same_control_switch_vault [OF same_control_purge [of st]]
  by (auto simp: require_client_access_def coord_has_unattended_def unattended_covers_def
      capture_unattended_with_def Let_def same_control_def split: prod.split sum.split option.split)

text \<open>The operations that move the lock or the revision.\<close>

fun moves_control :: "approval_op \<Rightarrow> bool" where
  "moves_control (BeginLockOp r preserve) = True"
| "moves_control (FinishLockOp epoch) = True"
| "moves_control (UnlockOp epoch) = True"
| "moves_control ResetOp = True"
| "moves_control RevokeAllGrantsOp = True"
| "moves_control (RevokePairGrantOp r c s) = True"
| "moves_control (RevokeClientGrantsOp r c) = True"
| "moves_control (MutationOp r s prepared) = True"
| "moves_control _ = False"

lemmas same_control_ops = same_control_begin same_control_poll same_control_use
  same_control_grant_unattended same_control_sessions_ops same_control_access_ops

lemma exec_same_control: "\<not> moves_control op \<Longrightarrow> same_control st (exec_approval op st)"
  by (cases op) (simp_all add: same_control_ops)

lemma revoke_control:
  "bump_revision st = Inr st1 \<Longrightarrow>
     ap_access st1 = ap_access st \<and> ap_lock_epoch st1 = ap_lock_epoch st \<and>
     unat (ap_revision st1) = Suc (unat (ap_revision st))"
  by (auto simp: bump_revision_def checked_add_Some_iff split: option.splits)

text \<open>The lock epoch and the revision together count the events that make a captured context
  stale. The count never goes back.\<close>

definition generation :: "approval_state \<Rightarrow> nat" where
  "generation st = unat (ap_lock_epoch st) + unat (ap_revision st)"

fun invalidates :: "approval_op \<Rightarrow> approval_state \<Rightarrow> bool" where
  "invalidates (BeginLockOp r preserve) st = (\<exists>e. fst (begin_app_lock_with_policy r preserve st) = Inr e)"
| "invalidates ResetOp st = (fst (reset_after_vault_lock st) = Inr ())"
| "invalidates RevokeAllGrantsOp st = (fst (coord_revoke_all st) = Inr ())"
| "invalidates (RevokePairGrantOp r c s) st = (\<exists>b. fst (coord_revoke_pair r c s st) = Inr b)"
| "invalidates (RevokeClientGrantsOp r c) st = (fst (coord_revoke_client r c st) = Inr ())"
| "invalidates (MutationOp r s prepared) st = (prepared \<and> (\<exists>st1. bump_revision st = Inr st1))"
| "invalidates _ st = False"

lemma generation_control: "same_control st st' \<Longrightarrow> generation st' = generation st"
  by (simp add: same_control_def generation_def)

lemma begin_lock_control:
  "fst (begin_app_lock_with_policy r preserve st) = Inr e \<Longrightarrow>
     is_app_active st \<and> ap_access (snd (begin_app_lock_with_policy r preserve st)) = AppLocking e \<and>
     ap_lock_epoch (snd (begin_app_lock_with_policy r preserve st)) = e \<and>
     unat e = Suc (unat (ap_lock_epoch st)) \<and>
     ap_revision (snd (begin_app_lock_with_policy r preserve st)) = ap_revision st"
proof (cases "checked_add (ap_lock_epoch st) 1")
  case None
  assume "fst (begin_app_lock_with_policy r preserve st) = Inr e"
  with None show ?thesis by (simp add: begin_app_lock_with_policy_def split: if_splits)
next
  case (Some x)
  assume "fst (begin_app_lock_with_policy r preserve st) = Inr e"
  moreover from Some have "unat x = Suc (unat (ap_lock_epoch st))"
    by (simp add: checked_add_Some_iff)
  ultimately show ?thesis
    using Some by (auto simp: begin_app_lock_with_policy_def cancel_pending_decision_def Let_def
        split: if_splits)
qed

lemma begin_lock_fails:
  "fst (begin_app_lock_with_policy r preserve st) = Inl e \<Longrightarrow>
     snd (begin_app_lock_with_policy r preserve st) = st"
  by (auto simp: begin_app_lock_with_policy_def Let_def split: option.splits if_splits)

lemma reset_control:
  "fst (reset_after_vault_lock st) = Inr () \<Longrightarrow>
     ap_access (snd (reset_after_vault_lock st)) = AppActive \<and>
     unat (ap_lock_epoch (snd (reset_after_vault_lock st))) = Suc (unat (ap_lock_epoch st)) \<and>
     ap_revision (snd (reset_after_vault_lock st)) = ap_revision st"
  by (auto simp: reset_after_vault_lock_def cancel_pending_decision_def Let_def
      checked_add_Some_iff split: option.splits)

lemma reset_fails: "fst (reset_after_vault_lock st) = Inl e \<Longrightarrow> snd (reset_after_vault_lock st) = st"
  by (auto simp: reset_after_vault_lock_def Let_def split: option.splits)

lemma generation_revokes:
  "generation (snd (coord_revoke_all st)) = generation st + (if \<exists>st1. bump_revision st = Inr st1 then 1 else 0)"
  "generation (snd (coord_revoke_pair r c s st)) = generation st + (if \<exists>st1. bump_revision st = Inr st1 then 1 else 0)"
  "generation (snd (coord_revoke_client r c st)) = generation st + (if \<exists>st1. bump_revision st = Inr st1 then 1 else 0)"
  "generation (exec_approval (MutationOp r s prepared) st) =
     generation st + (if prepared \<and> (\<exists>st1. bump_revision st = Inr st1) then 1 else 0)"
  by (auto simp: coord_revoke_all_def coord_revoke_pair_def coord_revoke_client_def
      coordinate_secret_mutation_def revoke_for_mutation_def generation_def Let_def
      dest!: revoke_control split: sum.split prod.split)

lemma revokes_succeed:
  "fst (coord_revoke_all st) = Inr () \<Longrightarrow> \<exists>st1. bump_revision st = Inr st1"
  "fst (coord_revoke_pair r c s st) = Inr b \<Longrightarrow> \<exists>st1. bump_revision st = Inr st1"
  "fst (coord_revoke_client r c st) = Inr () \<Longrightarrow> \<exists>st1. bump_revision st = Inr st1"
  by (auto simp: coord_revoke_all_def coord_revoke_pair_def coord_revoke_client_def split: sum.splits)

lemma generation_step:
  "generation st + (if invalidates op st then 1 else 0) \<le> generation (exec_approval op st)"
proof (cases op)
  case (BeginLockOp r preserve)
  show ?thesis
  proof (cases "fst (begin_app_lock_with_policy r preserve st)")
    case (Inl e)
    with begin_lock_fails [OF Inl] show ?thesis by (simp add: BeginLockOp)
  next
    case (Inr e)
    with begin_lock_control [OF Inr] show ?thesis by (simp add: BeginLockOp generation_def)
  qed
next
  case ResetOp
  show ?thesis
  proof (cases "fst (reset_after_vault_lock st)")
    case (Inl e)
    with reset_fails [OF Inl] show ?thesis by (simp add: ResetOp)
  next
    case (Inr u)
    with reset_control [of st] show ?thesis by (simp add: ResetOp generation_def)
  qed
next
  case RevokeAllGrantsOp
  then show ?thesis using generation_revokes(1) [of st] revokes_succeed(1) [of st] by auto
next
  case (RevokePairGrantOp r c s)
  then show ?thesis using generation_revokes(2) [of r c s st] revokes_succeed(2) [of r c s st] by auto
next
  case (RevokeClientGrantsOp r c)
  then show ?thesis using generation_revokes(3) [of r c st] revokes_succeed(3) [of r c st] by auto
next
  case (MutationOp r s prepared)
  then show ?thesis using generation_revokes(4) [of r s prepared st] by auto
next
  case (FinishLockOp epoch)
  then show ?thesis by (simp add: finish_app_lock_def generation_def)
next
  case (UnlockOp epoch)
  then show ?thesis by (simp add: unlock_app_def generation_def)
qed (use generation_control [OF exec_same_control [of op st]] in simp_all)

section \<open>Powerless states\<close>

definition settled :: "pending_state option \<Rightarrow> bool" where
  "settled po = (case po of Some p \<Rightarrow> \<exists>d. ps_decision p = Some d \<and> \<not> approving d | None \<Rightarrow> True)"

text \<open>No grant, and no request that could still become one.\<close>

definition powerless :: "approval_state \<Rightarrow> bool" where
  "powerless st = (deadlines (ap_grants st) = [] \<and> settled (ap_pending st))"

lemma settled_quiet: "settled p \<Longrightarrow> quiet_pending p q \<Longrightarrow> settled q"
  by (auto simp: settled_def quiet_pending_def split: option.splits)

lemma shrinks_Nil: "shrinks g g' \<Longrightarrow> deadlines g = [] \<Longrightarrow> deadlines g' = []"
  using map_of_eq_None_iff [of "deadlines g'"]
  by (cases "deadlines g'") (fastforce simp: shrinks_def)+

lemma powerless_quiet: "powerless st \<Longrightarrow> quiet st st' \<Longrightarrow> powerless st'"
  by (auto simp: powerless_def quiet_def intro: settled_quiet shrinks_Nil)

lemma powerless_wf: "powerless st \<Longrightarrow> store_wf (ap_grants st)"
  by (simp add: powerless_def store_wf_def)

lemma powerless_exec:
  assumes p: "powerless st"
    and b: "\<And>r now timeout req. op = AuthorizeBeginOp r now timeout req \<Longrightarrow>
              quiet st (snd (authorize_begin r now timeout req st))"
    and g: "\<And>r ctx ss deadline v. op = GrantUnattendedAccessOp r ctx ss deadline v \<Longrightarrow>
              \<not> is_app_active st \<or> ap_vault st = None"
  shows "powerless (exec_approval op st)"
proof -
  let ?st = "purge_disconnected_clients st"
  have wf: "store_wf (ap_grants st)" using p by (rule powerless_wf)
  have q: "quiet st ?st" using wf by simp
  have pp: "powerless ?st" using p q by (rule powerless_quiet)
  have "quiet st (exec_approval op st)"
  proof (cases "adds_authority op")
    case False
    then show ?thesis using wf by (rule quiet_exec [rotated])
  next
    case True
    then show ?thesis
    proof (cases op)
      case (AuthorizeBeginOp r now timeout req)
      with b show ?thesis by auto
    next
      case (AuthorizePollOp r now t aid ticket deadline)
      have "quiet st (snd (authorize_poll r now t aid ticket deadline st))"
        using wf pp by (intro quiet_poll) (auto simp: powerless_def settled_def)
      then show ?thesis by (simp add: AuthorizePollOp)
    next
      case (DecideOp r aid d)
      then show ?thesis
        using decide_step [OF wf, of r aid d] pp by (auto simp: powerless_def settled_def)
    next
      case (GrantUnattendedAccessOp r ctx ss deadline v)
      have "\<not> context_current ctx ?st"
        using g [OF GrantUnattendedAccessOp] by (auto simp: context_current_def)
      then show ?thesis
        using q by (auto simp: GrantUnattendedAccessOp grant_unattended_def Let_def split: option.split)
    qed simp_all
  qed
  with p show ?thesis by (rule powerless_quiet)
qed

text \<open>A powerless coordinator whose app is locked refuses every ticket.\<close>

lemma powerless_refuses:
  assumes "powerless st" and "\<not> is_app_active st"
  shows "fst (with_valid_grant r ticket operation w st) = Inl ApprovalCancelled \<and>
         fst (snd (with_valid_grant r ticket operation w st)) = w"
proof -
  let ?st = "purge_disconnected_clients st"
  have "quiet st ?st" using powerless_wf [OF assms(1)] by simp
  with assms(1) have pp: "powerless ?st" by (rule powerless_quiet)
  then have "\<not> covers_unattended r (ap_grants ?st) c s" for c s
    by (simp add: covers_unattended_def live_def powerless_def)
  then have "\<not> fst (client_has_unattended r (gt_client ticket) ?st)"
    using client_has_unattended_fst [OF powerless_wf [OF pp]] by simp
  then have "\<not> fst (access_valid r ticket ?st)"
    using assms(2) by (auto simp: access_valid_def split: prod.split)
  then show ?thesis
    by (auto simp: with_valid_grant_def Let_def split: prod.split)
qed

section \<open>The invariant of the coordinator\<close>

definition access_epoch_ok :: "approval_state \<Rightarrow> bool" where
  "access_epoch_ok st =
     (case ap_access st of AppActive \<Rightarrow> True | AppLocking e \<Rightarrow> e = ap_lock_epoch st
      | AppLocked e \<Rightarrow> e = ap_lock_epoch st)"

definition sessions_ok :: "approval_state \<Rightarrow> bool" where
  "sessions_ok st =
     (hm_wf (ap_client_sessions st) \<and> hm_wf (ap_sessions st) \<and>
      (\<forall>c. hm_contains (ap_sessions st) c = hm_contains (ap_client_sessions st) c) \<and>
      length (ap_client_sessions st) \<le> MAX_TRACKED_SESSIONS)"

definition approval_inv :: "approval_state \<Rightarrow> bool" where
  "approval_inv st =
     (store_wf (ap_grants st) \<and> access_epoch_ok st \<and> sessions_ok st \<and>
      (ap_vault st = None \<longrightarrow> powerless st))"

lemma access_epoch_control: "same_control st st' \<Longrightarrow> access_epoch_ok st \<Longrightarrow> access_epoch_ok st'"
  by (cases "ap_access st") (simp_all add: access_epoch_ok_def same_control_def)

lemma access_epoch_step: "access_epoch_ok st \<Longrightarrow> access_epoch_ok (exec_approval op st)"
proof (cases "moves_control op")
  case False
  then show "access_epoch_ok st \<Longrightarrow> ?thesis" using exec_same_control access_epoch_control by blast
next
  case True
  assume ok: "access_epoch_ok st"
  show ?thesis
  proof (cases op)
    case (BeginLockOp r preserve)
    then show ?thesis
      using begin_lock_control [of r preserve st] begin_lock_fails [of r preserve st] ok
      by (cases "fst (begin_app_lock_with_policy r preserve st)") (auto simp: access_epoch_ok_def)
  next
    case ResetOp
    then show ?thesis
      using reset_control [of st] reset_fails [of st] ok
      by (cases "fst (reset_after_vault_lock st)") (auto simp: access_epoch_ok_def)
  qed (use ok True in \<open>auto simp: access_epoch_ok_def finish_app_lock_def unlock_app_def
        coord_revoke_all_def coord_revoke_pair_def coord_revoke_client_def
        coordinate_secret_mutation_def revoke_for_mutation_def Let_def
        dest!: revoke_control split: sum.splits prod.splits app_access.splits\<close>)
qed

lemma sessions_frame:
  "ap_client_sessions st' = ap_client_sessions st \<Longrightarrow> ap_sessions st' = ap_sessions st \<Longrightarrow>
   sessions_ok st \<Longrightarrow> sessions_ok st'"
  by (simp add: sessions_ok_def)

lemma sessions_ok_disconnect: "sessions_ok st \<Longrightarrow> sessions_ok (disconnect_client c st)"
  by (auto simp: sessions_ok_def intro: order_trans [OF hm_length_remove])

lemma sessions_ok_fold: "sessions_ok st \<Longrightarrow> sessions_ok (fold disconnect_client cs st)"
  by (induction cs arbitrary: st) (simp_all add: sessions_ok_disconnect)

lemma sessions_ok_purge [simp]: "sessions_ok st \<Longrightarrow> sessions_ok (purge_disconnected_clients st)"
  by (simp add: purge_disconnected_clients_def sessions_ok_fold)

lemma sessions_ok_update:
  assumes "sessions_ok st" and "hm_contains (ap_sessions st) c"
  shows "sessions_ok (st\<lparr>ap_sessions := hm_insert c s (ap_sessions st)\<rparr>)"
  using assms by (simp add: sessions_ok_def) blast

lemma sessions_ok_register:
  assumes "sessions_ok st"
  shows "sessions_ok (snd (register_client_session r fresh c t st))"
  using sessions_ok_purge [OF assms]
  by (auto simp: register_client_session_def Let_def sessions_ok_def hm_length_insert)

definition same_sessions :: "approval_state \<Rightarrow> approval_state \<Rightarrow> bool" where
  "same_sessions st st' =
     (ap_client_sessions st' = ap_client_sessions st \<and> ap_sessions st' = ap_sessions st \<and>
      ap_sessions_closed st' = ap_sessions_closed st)"

lemma same_sessions_ok: "same_sessions st st' \<Longrightarrow> sessions_ok st \<Longrightarrow> sessions_ok st'"
  by (simp add: same_sessions_def sessions_ok_def)

lemma same_sessions_helpers [simp]:
  "same_sessions st st"
  "same_sessions st (snd (client_has_unattended r c st))"
  "same_sessions st (switch_vault v st)"
  "same_sessions st (snd (apply_decision r ticket p d st))"
  by (auto simp: same_sessions_def client_has_unattended_snd switch_vault_def apply_decision_def
      Let_def split: approval_decision.split option.split prod.split)

lemma same_sessions_locked [simp]: "same_sessions st (snd (authorize_locked r req st))"
  using same_sessions_helpers(2) [of st r "pa_client req"]
  by (auto simp: authorize_locked_def Let_def same_sessions_def split: prod.split)

lemma same_sessions_access_valid [simp]: "same_sessions st (snd (access_valid r ticket st))"
  using same_sessions_helpers(2) [of st r "gt_client ticket"]
  by (auto simp: access_valid_def same_sessions_def split: prod.split)

lemma same_sessions_begin:
  "same_sessions (purge_disconnected_clients st) (snd (authorize_begin r now timeout req st))"
  using same_sessions_locked [of "purge_disconnected_clients st" r req]
  by (auto simp: authorize_begin_def Let_def same_sessions_def switch_vault_def split: prod.split)

lemma same_sessions_poll:
  "same_sessions (purge_disconnected_clients st) (snd (authorize_poll r now t aid ticket deadline st))"
proof -
  let ?st = "purge_disconnected_clients st"
  have "same_sessions ?st (snd (apply_decision r ticket p d (?st\<lparr>ap_pending := None\<rparr>)))" for p d
    using same_sessions_helpers(4) [of "?st\<lparr>ap_pending := None\<rparr>" r ticket p d]
    by (simp add: same_sessions_def)
  then show ?thesis
    by (auto simp: authorize_poll_def clear_pending_def Let_def same_sessions_def
        split: option.split prod.split) (metis snd_conv)+
qed

lemma same_sessions_use:
  "same_sessions (purge_disconnected_clients st) (snd (snd (with_valid_grant r ticket f w st)))"
  using same_sessions_access_valid [of "purge_disconnected_clients st" r ticket]
  by (auto simp: with_valid_grant_def Let_def same_sessions_def split: prod.splits)

lemma same_sessions_purging:
  "same_sessions (purge_disconnected_clients st) (snd (active_grants r st))"
  "same_sessions (purge_disconnected_clients st) (snd (set_decision r aid d st))"
  "same_sessions (purge_disconnected_clients st) (snd (grant_unattended r ctx ss deadline v st))"
  "same_sessions (purge_disconnected_clients st) (snd (capture_unattended_with c snapshot st))"
  by (auto simp: active_grants_def set_decision_def grant_unattended_def capture_unattended_with_def
      switch_vault_def Let_def same_sessions_def split: prod.split option.split sum.split)

lemma same_sessions_unattended:
  "same_sessions (purge_disconnected_clients st) (snd (require_client_access r c st))"
  "same_sessions (purge_disconnected_clients st) (snd (coord_has_unattended r c st))"
  "same_sessions (purge_disconnected_clients st) (snd (unattended_covers r c ids st))"
  using same_sessions_helpers(2) [of "purge_disconnected_clients st" r c]
  by (auto simp: require_client_access_def coord_has_unattended_def unattended_covers_def Let_def
      same_sessions_def split: prod.split)

lemma same_sessions_control:
  "same_sessions st (snd (begin_app_lock_with_policy r preserve st))"
  "same_sessions st (snd (finish_app_lock epoch st))" "same_sessions st (snd (unlock_app epoch st))"
  "same_sessions st (snd (reset_after_vault_lock st))" "same_sessions st (cancel_pending r st)"
  "same_sessions st (snd (coord_revoke_all st))" "same_sessions st (snd (coord_revoke_pair r c s st))"
  "same_sessions st (snd (coord_revoke_client r c st))"
  "same_sessions st (exec_approval (MutationOp r s prepared) st)" "same_sessions st (cancel_tokens ts st)"
  by (auto simp: begin_app_lock_with_policy_def finish_app_lock_def unlock_app_def
      reset_after_vault_lock_def cancel_pending_def cancel_pending_decision_def coord_revoke_all_def
      coord_revoke_pair_def coord_revoke_client_def coordinate_secret_mutation_def cancel_tokens_def
      revoke_for_mutation_def bump_revision_def Let_def same_sessions_def
      split: option.splits prod.splits sum.splits)

fun session_op :: "approval_op \<Rightarrow> bool" where
  "session_op (RegisterOp r fresh c t) = True"
| "session_op CloseSessionsOp = True"
| "session_op (ObserveClientOp r c l) = True"
| "session_op (AnnotateOp c conn name note) = True"
| "session_op (ObserveRunOp r c project action) = True"
| "session_op _ = False"

lemma exec_same_sessions:
  "\<not> session_op op \<Longrightarrow>
     same_sessions st (exec_approval op st) \<or>
     same_sessions (purge_disconnected_clients st) (exec_approval op st)"
proof (cases op)
  case (MutationOp r s prepared)
  then show ?thesis using same_sessions_control(9) by simp
qed (simp_all add: same_sessions_begin same_sessions_poll same_sessions_use same_sessions_purging
      same_sessions_unattended same_sessions_control)

lemma sessions_ok_step:
  assumes ok: "sessions_ok st"
  shows "sessions_ok (exec_approval op st)"
proof (cases "session_op op")
  case False
  then show ?thesis
    using exec_same_sessions [of op st] same_sessions_ok ok sessions_ok_purge by blast
next
  case True
  let ?st = "purge_disconnected_clients st"
  have ok': "sessions_ok ?st" using ok by simp
  from True show ?thesis
  proof (cases op)
    case (RegisterOp r fresh c t)
    then show ?thesis using sessions_ok_register [OF ok] by simp
  next
    case CloseSessionsOp
    then show ?thesis
      using ok by (auto simp: close_client_sessions_def cancel_tokens_def sessions_ok_def
          intro!: sessions_ok_purge [unfolded sessions_ok_def])
  next
    case (ObserveClientOp r c l)
    have "sessions_ok (?st\<lparr>ap_sessions := hm_insert c s' (ap_sessions ?st)\<rparr>)"
      if "map_of (ap_sessions ?st) c = Some s" for s s'
      using that ok' by (intro sessions_ok_update) simp_all
    with ok' show ?thesis
      by (auto simp: ObserveClientOp observe_client_def Let_def sessions_ok_def
          split: prod.split option.split)
  next
    case (AnnotateOp c conn name nt)
    with ok ok' show ?thesis
      by (auto simp: set_session_annotation_checked_def Let_def
          intro!: sessions_ok_update split: option.split)
  next
    case (ObserveRunOp r c project action)
    with ok show ?thesis
      by (auto simp: observe_run_def intro!: sessions_ok_update split: option.split)
  qed simp_all
qed

section \<open>Without a vault there is no authority\<close>

lemma vault_helpers [simp]:
  "ap_vault (snd (client_has_unattended r c st)) = ap_vault st"
  "ap_vault (switch_vault v st) = Some v"
  "ap_vault (snd (apply_decision r ticket p d st)) = ap_vault st"
  "ap_vault (clear_pending r aid st) = ap_vault st"
  by (auto simp: client_has_unattended_snd switch_vault_def apply_decision_def clear_pending_def
      Let_def split: approval_decision.split option.split prod.split)

lemma vault_dests:
  "client_has_unattended r c st = (b, st') \<Longrightarrow> ap_vault st' = ap_vault st"
  "apply_decision r ticket p d st = (x, st') \<Longrightarrow> ap_vault st' = ap_vault st"
  using vault_helpers(1,3) by (metis snd_conv)+

lemma vault_locked [simp]: "ap_vault (snd (authorize_locked r req st)) = ap_vault st"
  by (auto simp: authorize_locked_def Let_def dest: vault_dests split: prod.split)

lemma vault_begin:
  "ap_vault (snd (authorize_begin r now timeout req st)) = None \<Longrightarrow>
     ap_vault st = None \<and>
     (store_wf (ap_grants st) \<longrightarrow> quiet st (snd (authorize_begin r now timeout req st)))"
  using quiet_purge [of st] quiet_authorize_locked [of st "purge_disconnected_clients st" r req]
    vault_locked [of r req "purge_disconnected_clients st"]
  by (cases "authorize_locked r req (purge_disconnected_clients st)")
    (auto simp: authorize_begin_def Let_def simp del: vault_locked split: prod.splits if_splits)

lemma vault_poll [simp]: "ap_vault (snd (authorize_poll r now t aid ticket deadline st)) = ap_vault st"
  by (auto simp: authorize_poll_def Let_def dest: vault_dests split: option.split prod.split)

lemma vault_use [simp]: "ap_vault (snd (snd (with_valid_grant r ticket f w st))) = ap_vault st"
  by (auto simp: with_valid_grant_def access_valid_def Let_def dest: vault_dests
      split: prod.splits if_splits)

lemma vault_unattended [simp]:
  "ap_vault (snd (require_client_access r c st)) = ap_vault st"
  "ap_vault (snd (coord_has_unattended r c st)) = ap_vault st"
  "ap_vault (snd (unattended_covers r c ids st)) = ap_vault st"
  "ap_vault (snd (grant_unattended r ctx ss deadline v st)) = ap_vault st"
  by (auto simp: require_client_access_def coord_has_unattended_def unattended_covers_def
      grant_unattended_def Let_def dest: vault_dests split: prod.splits option.split sum.split)

lemma vault_capture:
  "ap_vault (snd (capture_unattended_with c snapshot st)) = None \<Longrightarrow> ap_vault st = None"
  by (auto simp: capture_unattended_with_def Let_def split: sum.splits option.splits if_splits prod.splits)

lemma vault_session_ops [simp]:
  "ap_vault (snd (register_client_session r fresh c t st)) = ap_vault st"
  "ap_vault (close_client_sessions st) = ap_vault st" "ap_vault (observe_client r c l st) = ap_vault st"
  "ap_vault (snd (active_grants r st)) = ap_vault st"
  "ap_vault (snd (set_session_annotation_checked c conn name nt st)) = ap_vault st"
  "ap_vault (observe_run r c project action st) = ap_vault st"
  by (auto simp: register_client_session_def close_client_sessions_def cancel_tokens_def
      observe_client_def active_grants_def set_session_annotation_checked_def observe_run_def
      Let_def split: option.split prod.split)

lemma vault_control_ops [simp]:
  "ap_vault (snd (begin_app_lock_with_policy r preserve st)) = ap_vault st"
  "ap_vault (snd (finish_app_lock epoch st)) = ap_vault st" "ap_vault (snd (unlock_app epoch st)) = ap_vault st"
  "ap_vault (snd (set_decision r aid d st)) = ap_vault st" "ap_vault (cancel_pending r st) = ap_vault st"
  "ap_vault (snd (coord_revoke_all st)) = ap_vault st" "ap_vault (snd (coord_revoke_pair r c s st)) = ap_vault st"
  "ap_vault (snd (coord_revoke_client r c st)) = ap_vault st"
  "ap_vault (snd (snd (coordinate_secret_mutation r s prep com w st))) = ap_vault st"
  "ap_vault (cancel_tokens ts st) = ap_vault st"
  by (auto simp: begin_app_lock_with_policy_def finish_app_lock_def unlock_app_def set_decision_def
      cancel_pending_def cancel_pending_decision_def coord_revoke_all_def coord_revoke_pair_def
      coord_revoke_client_def coordinate_secret_mutation_def revoke_for_mutation_def cancel_tokens_def
      bump_revision_def Let_def split: option.splits prod.splits sum.splits)

lemma vault_None_step:
  "ap_vault (exec_approval op st) = None \<Longrightarrow> op \<noteq> ResetOp \<Longrightarrow> ap_vault st = None"
  by (cases op) (auto dest: vault_begin vault_capture)

lemma settled_cancel [simp]: "settled (ap_pending (cancel_pending_decision st))"
  by (auto simp: settled_def cancel_pending_decision_def decide_pending_if_def split: option.split)

lemma reset_powerless: "fst (reset_after_vault_lock st) = Inr () \<Longrightarrow> powerless (snd (reset_after_vault_lock st))"
  by (auto simp: reset_after_vault_lock_def powerless_def revoke_all_def Let_def split: option.splits)

lemma powerless_step:
  assumes wf: "store_wf (ap_grants st)" and inv: "ap_vault st = None \<longrightarrow> powerless st"
    and none: "ap_vault (exec_approval op st) = None"
  shows "powerless (exec_approval op st)"
proof (cases "op = ResetOp")
  case True
  show ?thesis
  proof (cases "fst (reset_after_vault_lock st)")
    case (Inl e)
    with reset_fails [OF Inl] True none inv show ?thesis by simp
  next
    case (Inr u)
    with reset_powerless [of st] True show ?thesis by simp
  qed
next
  case False
  with none have "ap_vault st = None" by (rule vault_None_step)
  with inv show ?thesis
    using none wf by (intro powerless_exec) (auto dest: vault_begin)
qed

lemma approval_inv_step:
  assumes inv: "approval_inv st"
  shows "approval_inv (exec_approval op st)"
proof -
  have wf: "store_wf (ap_grants st)" using inv by (simp add: approval_inv_def)
  then show ?thesis
    using inv approval_step [OF wf, of op] access_epoch_step [of st op] sessions_ok_step [of st op]
      powerless_step [OF wf, of op]
    by (simp add: approval_inv_def)
qed

interpretation approval: op_machine exec_approval "\<lambda>st. \<exists>lifetime. st = new_coordinator lifetime" approval_inv
proof unfold_locales
  fix st assume "\<exists>lifetime. st = new_coordinator lifetime"
  then show "approval_inv st"
    by (auto simp: new_coordinator_def approval_inv_def new_grant_store_def store_wf_def
        access_epoch_ok_def sessions_ok_def powerless_def settled_def MAX_TRACKED_SESSIONS_def hm_contains_def)
qed (rule approval_inv_step)

end
