(* ===== verification/Ladon_Approval_Properties.thy ===== *)
theory Ladon_Approval_Properties
  imports Ladon_Approval_Inv
begin

text \<open>
  What the approval coordinator promises: grants come from human decisions, a lock or a
  disconnection closes access, a ticket is honoured exactly when it is permitted, a captured
  context goes stale, and a wait for a decision ends.
\<close>

section \<open>A session with one approved client\<close>

definition demo_request :: pending_approval where
  "demo_request = new_pending_approval 40 9 7 [] [\<lparr>as_id = SecretId 1, as_name = [], as_fields = []\<rparr>] [] [] []"

definition demo_ticket :: grant_ticket where
  "demo_ticket = \<lparr>gt_vault_session = 9, gt_client = 7, gt_secret_ids = [SecretId 1]\<rparr>"

definition demo_ops :: "approval_op list" where
  "demo_ops =
     [RegisterOp demo_reading 50 7 1, AuthorizeBeginOp demo_reading 0 100 demo_request,
      DecideOp demo_reading 40 ApproveSession, AuthorizePollOp demo_reading 1 2 40 demo_ticket 100]"

definition demo_details :: session_details where
  "demo_details = \<lparr>sd_client = 7, sd_connection = 50,
     sd_reported_name = ascii ''MCP client'', sd_user_name = [], sd_note = [],
     sd_working_directory = [], sd_last_action = ascii ''Connected'',
     sd_connected_at = 0, sd_last_activity = 0\<rparr>"

definition demo_state :: approval_state where
  "demo_state =
     \<lparr>ap_grants = \<lparr>lifetime_millis = 0, deadlines = [((7, SecretId 1), SessionEnd)]\<rparr>,
      ap_vault = Some 9, ap_pending = None, ap_labels = [(7, [])],
      ap_client_sessions = [(7, 1)], ap_sessions_closed = False,
      ap_access = AppActive, ap_lock_epoch = 0, ap_revision = 0,
      ap_sessions = [(7, demo_details)], cancelled_tokens = []\<rparr>"

lemmas demo_defs = demo_reading_def demo_request_def demo_ticket_def demo_state_def demo_details_def
  new_pending_approval_def new_coordinator_def new_grant_store_def duration_millis_def

lemmas coordinator_defs = purge_disconnected_clients_def disconnected_clients_def is_cancelled_def
  is_app_active_def hm_contains_def hm_insert_def hm_remove_def hm_retain_def revoke_client_def
  purge_expired_def insert_deadlines_def switch_vault_def revoke_all_def Let_def

lemma demo_reached: "fold exec_approval demo_ops (new_coordinator 0) = demo_state"
  by (simp add: demo_ops_def demo_defs coordinator_defs register_client_session_def
      MAX_TRACKED_SESSIONS_def authorize_begin_def missing_def ticket_of_def request_ids_def
      set_decision_def authorize_poll_def decision_for_def apply_decision_def grant_session_def)

section \<open>Grants come from human decisions\<close>

fun authorised :: "approval_op list \<Rightarrow> approval_state \<Rightarrow> grant_key set" where
  "authorised [] st = {}"
| "authorised (op # ops) st = human_grants op st \<union> authorised ops (exec_approval op st)"

lemma authority_run:
  "store_wf (ap_grants st) \<Longrightarrow> authority (fold exec_approval ops st) \<subseteq> authority st \<union> authorised ops st"
proof (induction ops arbitrary: st)
  case Nil
  then show ?case by simp
next
  case (Cons op ops)
  with approval_step [of st op] show ?case by fastforce
qed

text \<open>C2: A pair of client and secret holds a grant only when, earlier in the run, a human approved a
  pending request that named the pair, or confirmed unattended access for it: whatever the order
  of the coordinator's operations and whoever calls them.\<close>

theorem no_grant_without_human:
  assumes "map_of (deadlines (ap_grants (fold exec_approval ops (new_coordinator lifetime)))) (c, s) = Some d"
  shows "(c, s) \<in> authorised ops (new_coordinator lifetime)"
proof -
  have "authority (new_coordinator lifetime) = {}"
    by (simp add: new_coordinator_def authority_def decided_pairs_def new_grant_store_def)
  moreover have "(c, s) \<in> authority (fold exec_approval ops (new_coordinator lifetime))"
    using assms by (auto simp: authority_def)
  moreover have "store_wf (ap_grants (new_coordinator lifetime))"
    by (simp add: new_coordinator_def)
  ultimately show ?thesis using authority_run by fastforce
qed

theorem no_grant_without_human_witness:
  "map_of (deadlines (ap_grants (fold exec_approval demo_ops (new_coordinator 0)))) (7, SecretId 1) = Some SessionEnd \<and>
   (7, SecretId 1) \<in> authorised demo_ops (new_coordinator 0)"
proof -
  have h: "map_of (deadlines (ap_grants (fold exec_approval demo_ops (new_coordinator 0)))) (7, SecretId 1)
      = Some SessionEnd"
    unfolding demo_reached by (simp add: demo_state_def)
  then show ?thesis using no_grant_without_human [OF h] by blast
qed

text \<open>Along every run of the coordinator the grant store is well formed, the two session tables
  list the same clients and at most 32 of them, a lock in progress carries the current epoch, and
  while no vault is selected there is no grant and no request that could still become one
  (\<open>approval_inv\<close>).\<close>

theorem coordinator_invariant:
  "approval_inv (fold exec_approval ops (new_coordinator lifetime))"
  by (rule approval.run_inv) blast

section \<open>The app lock\<close>

fun unlocks :: "approval_op \<Rightarrow> bool" where
  "unlocks (UnlockOp epoch) = True"
| "unlocks ResetOp = True"
| "unlocks _ = False"

lemma locked_step:
  assumes "\<not> is_app_active st" and "\<not> unlocks op"
  shows "\<not> is_app_active (exec_approval op st)"
proof (cases "moves_control op")
  case False
  then show ?thesis
    using exec_same_control [OF False, of st] assms(1) by (simp add: same_control_def is_app_active_def)
next
  case True
  with assms show ?thesis
    by (cases op)
      (auto simp: is_app_active_def begin_app_lock_with_policy_def finish_app_lock_def
        coord_revoke_all_def coord_revoke_pair_def coord_revoke_client_def
        coordinate_secret_mutation_def revoke_for_mutation_def Let_def
        dest!: revoke_control split: sum.splits prod.splits)
qed

lemma powerless_locked_step:
  assumes "powerless st" and "\<not> is_app_active st"
  shows "powerless (exec_approval op st)"
  using assms begin_step [OF powerless_wf [OF assms(1)]]
  by (intro powerless_exec) auto

lemma powerless_locked_run:
  "powerless st \<Longrightarrow> \<not> is_app_active st \<Longrightarrow> list_all (\<lambda>op. \<not> unlocks op) ops \<Longrightarrow>
     powerless (fold exec_approval ops st) \<and> \<not> is_app_active (fold exec_approval ops st)"
  by (induction ops arbitrary: st) (simp_all add: powerless_locked_step locked_step)

lemma powerless_no_client:
  assumes "powerless st"
  shows "\<not> fst (client_has_unattended r c st)"
  using client_has_unattended_fst [OF powerless_wf [OF assms]] assms
  by (simp add: covers_unattended_def live_def powerless_def)

lemma powerless_locked_begin:
  assumes "powerless st" and "\<not> is_app_active st"
  shows "fst (authorize_begin r now timeout req st) = Finished (Inl VaultLocked)"
proof -
  let ?st = "purge_disconnected_clients st"
  have "powerless ?st"
    using powerless_quiet [OF assms(1) quiet_purge [OF powerless_wf [OF assms(1)]]] .
  from powerless_no_client [OF this, of r "pa_client req"] assms(2) show ?thesis
    by (auto simp: authorize_begin_def authorize_locked_def Let_def split: prod.split)
qed

lemma manual_lock_powerless:
  "begin_app_lock r st = (Inr e, st1) \<Longrightarrow> powerless st1 \<and> ap_access st1 = AppLocking e"
  by (auto simp: begin_app_lock_def begin_app_lock_with_policy_def powerless_def revoke_all_def
      Let_def cancel_pending_decision_def settled_cancel [unfolded cancel_pending_decision_def]
      split: option.splits if_splits)

text \<open>C7: Once a manual lock has begun, and until the app is unlocked or reset, whatever else happens no
  ticket is honoured (the guarded operation does not run, its world is unchanged) and every new
  request for secrets is answered that the vault is locked.\<close>

theorem manual_lock_closes_access:
  assumes "begin_app_lock r st = (Inr e, st1)" and "list_all (\<lambda>op. \<not> unlocks op) ops"
  shows "fst (with_valid_grant r' ticket operation w (fold exec_approval ops st1)) = Inl ApprovalCancelled
       \<and> fst (snd (with_valid_grant r' ticket operation w (fold exec_approval ops st1))) = w
       \<and> fst (authorize_begin r' now timeout req (fold exec_approval ops st1)) = Finished (Inl VaultLocked)"
proof -
  have "powerless st1 \<and> \<not> is_app_active st1"
    using manual_lock_powerless [OF assms(1)] by (simp add: is_app_active_def)
  then have "powerless (fold exec_approval ops st1) \<and> \<not> is_app_active (fold exec_approval ops st1)"
    using powerless_locked_run assms(2) by blast
  then show ?thesis by (simp add: powerless_refuses powerless_locked_begin)
qed

theorem manual_lock_closes_access_witness:
  "fst (begin_app_lock demo_reading demo_state) = Inr 1 \<and>
   fst (with_valid_grant demo_reading demo_ticket (\<lambda>w. (Inr (), Suc w)) 0
      (fold exec_approval [FinishLockOp 1, SweepOp] (snd (begin_app_lock demo_reading demo_state))))
     = Inl ApprovalCancelled"
proof -
  obtain st1 where h: "begin_app_lock demo_reading demo_state = (Inr 1, st1)"
    by (simp add: begin_app_lock_def begin_app_lock_with_policy_def demo_state_def is_app_active_def
        checked_add_def Let_def)
  have "list_all (\<lambda>op. \<not> unlocks op) [FinishLockOp 1, SweepOp]" by simp
  from manual_lock_closes_access [OF h this, where r' = demo_reading and ticket = demo_ticket
      and operation = "\<lambda>w. (Inr (), Suc w)" and w = 0] show ?thesis by (simp add: h)
qed

text \<open>Beginning an automatic lock keeps exactly the unattended grants that are still alive, cancels the
  pending request and takes the app to the locking state.\<close>

theorem auto_lock_keeps_unattended:
  assumes "store_wf (ap_grants st)" and "begin_auto_app_lock r st = (Inr e, st1)"
  shows "map_of (deadlines (ap_grants st1)) k =
           (case live r (ap_grants st) k of Some d \<Rightarrow> if is_unattended d then Some d else None | None \<Rightarrow> None)
       \<and> settled (ap_pending st1) \<and> ap_access st1 = AppLocking e \<and> unat e = Suc (unat (ap_lock_epoch st))"
proof -
  have l: "begin_app_lock_with_policy r True st = (Inr e, st1)"
    using assms(2) by (simp add: begin_auto_app_lock_def)
  have "ap_grants st1 = purge_expired r (retain_unattended r (ap_grants st))" "settled (ap_pending st1)"
    using l by (auto simp: begin_app_lock_with_policy_def Let_def cancel_pending_decision_def
        settled_cancel [unfolded cancel_pending_decision_def] split: option.splits if_splits)
  moreover have "map_of (deadlines (purge_expired r (retain_unattended r (ap_grants st)))) k =
      live r (exec_grant (RetainUnattendedOp r) (ap_grants st)) k"
    using exec_grant_wf [OF assms(1), of "RetainUnattendedOp r"] by (simp add: purge_expired_get)
  moreover have "live r (exec_grant (RetainUnattendedOp r) (ap_grants st)) k =
      (case live r (ap_grants st) k of Some d \<Rightarrow> if is_unattended d then Some d else None | None \<Rightarrow> None)"
    using live_step_get [OF assms(1), where op = "RetainUnattendedOp r" and r = r and k = k] by (auto split: option.splits)
  ultimately show ?thesis using begin_lock_control [of r True st e] l by simp
qed

theorem auto_lock_keeps_unattended_witness:
  "fst (begin_auto_app_lock demo_reading demo_state) = Inr 1 \<and>
   map_of (deadlines (ap_grants (snd (begin_auto_app_lock demo_reading demo_state)))) (7, SecretId 1) = None"
proof -
  obtain st1 where h: "begin_auto_app_lock demo_reading demo_state = (Inr 1, st1)"
    by (simp add: begin_auto_app_lock_def begin_app_lock_with_policy_def demo_state_def is_app_active_def
        checked_add_def Let_def)
  have wf: "store_wf (ap_grants demo_state)" by (simp add: demo_state_def store_wf_def hm_wf_def)
  have "live demo_reading (ap_grants demo_state) (7, SecretId 1) = Some SessionEnd"
    by (simp add: demo_state_def live_def alive_def duration_max_def)
  with auto_lock_keeps_unattended [OF wf h, of "(7, SecretId 1)"] show ?thesis by (simp add: h)
qed

section \<open>Use of a grant\<close>

text \<open>When a ticket is honoured: the vault is the ticket's, every secret of the ticket has a usable
  grant, and while the app is locked the client is connected and every one of those grants is
  unattended.\<close>

definition permitted :: "reading \<Rightarrow> grant_ticket \<Rightarrow> approval_state \<Rightarrow> bool" where
  "permitted r ticket st =
     (ap_vault st = Some (gt_vault_session ticket) \<and>
      (\<forall>s \<in> set (gt_secret_ids ticket). covers r (ap_grants st) (gt_client ticket) s) \<and>
      (is_app_active st \<or>
       hm_contains (ap_client_sessions st) (gt_client ticket) \<and>
       (\<exists>s. covers_unattended r (ap_grants st) (gt_client ticket) s) \<and>
       (\<forall>s \<in> set (gt_secret_ids ticket). covers_unattended r (ap_grants st) (gt_client ticket) s)))"

lemma access_valid_exact:
  assumes wf: "store_wf (ap_grants st)"
  shows "fst (access_valid r ticket st) \<longleftrightarrow>
      is_app_active st \<or>
      hm_contains (ap_client_sessions st) (gt_client ticket) \<and>
      (\<exists>s. covers_unattended r (ap_grants st) (gt_client ticket) s) \<and>
      (\<forall>s \<in> set (gt_secret_ids ticket). covers_unattended r (ap_grants st) (gt_client ticket) s)"
proof -
  obtain has st1 where c: "client_has_unattended r (gt_client ticket) st = (has, st1)"
    by (cases "client_has_unattended r (gt_client ticket) st")
  have has: "has \<longleftrightarrow> hm_contains (ap_client_sessions st) (gt_client ticket) \<and>
      (\<exists>s. covers_unattended r (ap_grants st) (gt_client ticket) s)"
    using client_has_unattended_fst [OF wf, of r "gt_client ticket"] c by simp
  have g: "store_wf (ap_grants st1) \<and>
      covers_unattended r (ap_grants st1) cl s = covers_unattended r (ap_grants st) cl s" for cl s
    using client_has_unattended_snd [of r "gt_client ticket" st] c wf
    by (auto simp: covers_unattended_purge split: if_splits)
  then have "fst (missing_unattended r (gt_client ticket) (gt_secret_ids ticket) (ap_grants st1)) = []
      \<longleftrightarrow> (\<forall>s \<in> set (gt_secret_ids ticket). covers_unattended r (ap_grants st) (gt_client ticket) s)"
    using queries.ask_unattended_empty [of "ap_grants st1" r "gt_client ticket" "gt_secret_ids ticket"] by simp
  with has show ?thesis
    by (auto simp: access_valid_def c split: prod.split)
qed

lemma access_valid_grants:
  assumes wf: "store_wf (ap_grants st)"
  shows "store_wf (ap_grants (snd (access_valid r ticket st))) \<and>
     covers r (ap_grants (snd (access_valid r ticket st))) c s = covers r (ap_grants st) c s \<and>
     ap_vault (snd (access_valid r ticket st)) = ap_vault st"
proof -
  obtain has st1 where c: "client_has_unattended r (gt_client ticket) st = (has, st1)"
    by (cases "client_has_unattended r (gt_client ticket) st")
  have st1: "st1 = st \<or> st1 = st\<lparr>ap_grants := purge_expired r (ap_grants st)\<rparr>"
    using client_has_unattended_snd [of r "gt_client ticket" st] c by (simp split: if_splits)
  obtain miss g where m: "missing_unattended r (gt_client ticket) (gt_secret_ids ticket) (ap_grants st1) = (miss, g)"
    by (cases "missing_unattended r (gt_client ticket) (gt_secret_ids ticket) (ap_grants st1)")
  have "g = purge_expired r (ap_grants st1)" using m by (rule query_store(2))
  with st1 wf show ?thesis by (auto simp: access_valid_def c m covers_purge)
qed

lemma use_grant_cases:
  assumes wf: "store_wf (ap_grants st)"
  shows "(fst (with_valid_grant r ticket operation w st), fst (snd (with_valid_grant r ticket operation w st))) =
     (if permitted r ticket (purge_disconnected_clients st) then operation w
      else (Inl ApprovalCancelled, w))"
proof -
  let ?p = "purge_disconnected_clients st"
  have wf': "store_wf (ap_grants ?p)" using quiet_wf [OF quiet_purge [OF wf]] .
  obtain valid st1 where v: "access_valid r ticket ?p = (valid, st1)" by (cases "access_valid r ticket ?p")
  have g: "store_wf (ap_grants st1)" "covers r (ap_grants st1) c s = covers r (ap_grants ?p) c s"
    "ap_vault st1 = ap_vault ?p" for c s
    using access_valid_grants [OF wf', of r ticket c s] v by simp_all
  have m: "fst (missing r (gt_client ticket) (gt_secret_ids ticket) (ap_grants st1)) = [] \<longleftrightarrow>
      (\<forall>s \<in> set (gt_secret_ids ticket). covers r (ap_grants ?p) (gt_client ticket) s)"
    using queries.ask_empty [OF g(1)] g(2) by simp
  show ?thesis
    using access_valid_exact [OF wf', of r ticket] v m g(3)
    by (cases "missing r (gt_client ticket) (gt_secret_ids ticket) (ap_grants st1)"; cases "operation w")
      (simp add: with_valid_grant_def Let_def permitted_def, blast)
qed

text \<open>C15: A ticket is used exactly when it is permitted in the state without the disconnected clients:
  then the guarded operation runs once and its result and effects are returned; otherwise it does
  not run and the call is cancelled.\<close>

theorem grant_use_exact:
  assumes wf: "store_wf (ap_grants st)"
  shows "(fst (with_valid_grant r ticket operation w st), fst (snd (with_valid_grant r ticket operation w st))) =
     (if permitted r ticket (purge_disconnected_clients st) then operation w
      else (Inl ApprovalCancelled, w))"
  using assms by (rule use_grant_cases)

theorem grant_use_exact_witness:
  "store_wf (ap_grants demo_state) \<and>
   fst (with_valid_grant demo_reading demo_ticket (\<lambda>w. (Inr (), Suc w)) 0 demo_state) = Inr () \<and>
   fst (snd (with_valid_grant demo_reading demo_ticket (\<lambda>w. (Inr (), Suc w)) 0 demo_state)) = 1"
proof -
  have wf: "store_wf (ap_grants demo_state)" by (simp add: demo_state_def store_wf_def hm_wf_def)
  have "permitted demo_reading demo_ticket (purge_disconnected_clients demo_state)"
    by (simp add: permitted_def demo_defs coordinator_defs covers_def live_def alive_def duration_max_def)
  with grant_use_exact [OF wf, where r = demo_reading and ticket = demo_ticket
      and operation = "\<lambda>w. (Inr (), Suc w)" and w = 0] wf show ?thesis by simp
qed

section \<open>Changing a secret\<close>

lemma revoke_for_mutation_effect:
  assumes "store_wf (ap_grants st)"
  shows "map_of (deadlines (ap_grants (revoke_for_mutation r secret st))) (c, secret) = None"
    and "ap_pending (revoke_for_mutation r secret st) = Some p \<Longrightarrow>
      secret \<in> set (ps_requested_ids p) \<Longrightarrow> ps_decision p = Some Cancel"
    and "ap_revision (revoke_for_mutation r secret st) = ap_revision st"
proof -
  have "store_wf (revoke_secret secret (ap_grants st))"
    using exec_grant_wf [OF assms, of "RevokeSecretOp secret"] by simp
  moreover have "map_of (deadlines (revoke_secret secret (ap_grants st))) (c, secret) = None"
    using exec_grant_get [OF assms, of "RevokeSecretOp secret" "(c, secret)"]
    by (auto simp: step_get_def split: option.splits)
  ultimately show "map_of (deadlines (ap_grants (revoke_for_mutation r secret st))) (c, secret) = None"
    by (simp add: revoke_for_mutation_def Let_def purge_expired_get live_def)
qed (auto simp: revoke_for_mutation_def Let_def decide_pending_if_def split: option.splits if_splits)

text \<open>C10: A secret is changed in the order prepare, revoke, commit. When prepare fails nothing else
  happens; otherwise, unless the revision counter is exhausted, every grant of the secret is gone,
  a pending request that asked for it is cancelled and the revision has moved on, whatever commit
  then does.\<close>

theorem secret_mutation_revokes:
  assumes wf: "store_wf (ap_grants st)"
  shows "case prepare w of
      (Inl e, w1) \<Rightarrow> coordinate_secret_mutation r secret prepare commit w st = (Inl e, w1, st)
    | (Inr prepared, w1) \<Rightarrow>
        if ap_revision st = - 1
        then coordinate_secret_mutation r secret prepare commit w st = (Inl InvalidRequest, w1, st)
        else \<exists>st2. coordinate_secret_mutation r secret prepare commit w st =
                 (fst (commit prepared w1), snd (commit prepared w1), st2) \<and>
               (\<forall>c. map_of (deadlines (ap_grants st2)) (c, secret) = None) \<and>
               (\<forall>p. ap_pending st2 = Some p \<longrightarrow> secret \<in> set (ps_requested_ids p) \<longrightarrow>
                    ps_decision p = Some Cancel) \<and>
               ap_revision st2 = ap_revision st + 1"
proof (cases "prepare w")
  case (Pair a w1)
  let ?st = "st\<lparr>ap_revision := ap_revision st + 1\<rparr>"
  have "store_wf (ap_grants ?st)" using wf by simp
  note effect = revoke_for_mutation_effect [OF this, of r secret]
  show ?thesis
  proof (cases a)
    case (Inl e)
    then show ?thesis by (simp add: Pair coordinate_secret_mutation_def)
  next
    case (Inr prepared)
    show ?thesis
    proof (cases "ap_revision st = - 1")
      case True
      then show ?thesis
        by (simp add: Pair Inr coordinate_secret_mutation_def bump_revision_def checked_add_one)
    next
      case False
      then have "coordinate_secret_mutation r secret prepare commit w st =
          (fst (commit prepared w1), snd (commit prepared w1), revoke_for_mutation r secret ?st)"
        by (simp add: Pair Inr coordinate_secret_mutation_def bump_revision_def checked_add_one Let_def
            split: prod.split)
      with False effect show ?thesis by (simp add: Pair Inr)
    qed
  qed
qed

theorem secret_mutation_revokes_witness:
  "store_wf (ap_grants demo_state) \<and>
   (\<exists>st2. coordinate_secret_mutation demo_reading (SecretId 1) (\<lambda>w. (Inr (), w)) (\<lambda>_ w. (Inl ProcessFailure, Suc w)) 0 demo_state =
       (Inl ProcessFailure :: unit res, 1, st2) \<and>
     map_of (deadlines (ap_grants st2)) (7, SecretId 1) = None)"
proof -
  have wf: "store_wf (ap_grants demo_state)" by (simp add: demo_state_def store_wf_def hm_wf_def)
  have "ap_revision demo_state \<noteq> - 1" by (simp add: demo_state_def)
  with secret_mutation_revokes [OF wf, where r = demo_reading and secret = "SecretId 1" and w = "0 :: nat"
      and prepare = "\<lambda>w. (Inr (), w)" and commit = "\<lambda>_ w. (Inl ProcessFailure :: unit res, Suc w)"] wf
  show ?thesis by auto
qed

section \<open>Unattended access is confirmed against the captured context\<close>

lemma generation_run: "generation st \<le> generation (fold exec_approval ops st)"
proof (induction ops arbitrary: st)
  case Nil
  then show ?case by simp
next
  case (Cons op ops)
  have "generation st \<le> generation (exec_approval op st)"
    using generation_step [of st op] by simp
  also have "\<dots> \<le> generation (fold exec_approval ops (exec_approval op st))" by (rule Cons.IH)
  finally show ?case by simp
qed

lemma capture_context:
  assumes "capture_unattended_with c snapshot st = (Inr (ctx, s), st1)"
  shows "uc_client ctx = c \<and> uc_epoch ctx = ap_lock_epoch st1 \<and> uc_revision ctx = ap_revision st1 \<and>
     ap_vault st1 = Some (uc_vault ctx) \<and> is_app_active st1"
  using assms
  by (auto simp: capture_unattended_with_def Let_def switch_vault_def is_app_active_def
      split: sum.splits option.splits if_splits)

lemma context_generation:
  "context_current ctx st \<Longrightarrow> generation st = unat (uc_epoch ctx) + unat (uc_revision ctx)"
  by (simp add: context_current_def generation_def)

lemma stale_grant_unattended:
  "\<not> context_current ctx (purge_disconnected_clients st) \<Longrightarrow>
     fst (grant_unattended r ctx ss deadline validate st) \<noteq> Inr () \<and>
     snd (grant_unattended r ctx ss deadline validate st) = purge_disconnected_clients st"
  by (simp add: grant_unattended_def Let_def split: option.split)

text \<open>A confirmation of unattended access takes effect only in the generation in which its context
  was captured: after any lock, reset, revocation or change of a secret in between, whatever else
  ran before or after it, the confirmation fails and adds no grant.\<close>

theorem stale_context_rejected:
  assumes cap: "capture_unattended_with c snapshot st = (Inr (ctx, s), st1)"
    and inv: "invalidates op (fold exec_approval pre st1)"
  shows "fst (grant_unattended r ctx ss deadline validate (fold exec_approval (pre @ op # post) st1)) \<noteq> Inr ()
       \<and> snd (grant_unattended r ctx ss deadline validate (fold exec_approval (pre @ op # post) st1))
         = purge_disconnected_clients (fold exec_approval (pre @ op # post) st1)"
proof (rule stale_grant_unattended)
  let ?mid = "fold exec_approval pre st1"
  let ?st = "fold exec_approval (pre @ op # post) st1"
  have "generation st1 \<le> generation ?mid" by (rule generation_run)
  also have "\<dots> < generation (exec_approval op ?mid)" using generation_step [of ?mid op] inv by simp
  also have "\<dots> \<le> generation ?st" using generation_run [of "exec_approval op ?mid" post] by simp
  finally have "generation st1 < generation (purge_disconnected_clients ?st)"
    by (simp add: generation_def)
  then show "\<not> context_current ctx (purge_disconnected_clients ?st)"
    using context_generation [of ctx "purge_disconnected_clients ?st"] capture_context [OF cap]
    by (auto simp: generation_def)
qed

theorem stale_context_rejected_witness:
  "\<exists>ctx st1. capture_unattended_with 7 (Inr (9, ())) demo_state = (Inr (ctx, ()), st1) \<and>
     invalidates RevokeAllGrantsOp st1 \<and>
     fst (grant_unattended demo_reading ctx [SecretId 1] 1000 (Inr ()) (exec_approval RevokeAllGrantsOp st1)) \<noteq> Inr ()"
proof -
  obtain ctx st1 where cap: "capture_unattended_with 7 (Inr (9, ())) demo_state = (Inr (ctx, ()), st1)"
    and st1: "ap_revision st1 = 0"
    by (simp add: capture_unattended_with_def demo_defs coordinator_defs)
  have inv: "invalidates RevokeAllGrantsOp (fold exec_approval [] st1)"
    by (simp add: coord_revoke_all_def bump_revision_def st1 checked_add_one)
  from stale_context_rejected [OF cap inv, of demo_reading "[SecretId 1]" 1000 "Inr ()" "[]"] cap inv
  show ?thesis by auto
qed

section \<open>Disconnection\<close>

lemma disconnect_get:
  "store_wf (ap_grants st) \<Longrightarrow>
     map_of (deadlines (ap_grants (disconnect_client c st))) (c, s) = None"
  using exec_grant_get [of "ap_grants st" "RevokeClientOp c" "(c, s)"]
  by (auto simp: step_get_def split: option.splits)

lemma fold_disconnect_get:
  assumes "store_wf (ap_grants st)" and "c \<in> set cs"
  shows "map_of (deadlines (ap_grants (fold disconnect_client cs st))) (c, s) = None"
  using assms
proof (induction cs arbitrary: st)
  case Nil
  then show ?case by simp
next
  case (Cons x cs)
  have wf: "store_wf (ap_grants (disconnect_client x st))"
    using quiet_disconnect [OF Cons.prems(1)] quiet_wf by blast
  show ?case
  proof (cases "x = c")
    case True
    have "shrinks (ap_grants (disconnect_client x st)) (ap_grants (fold disconnect_client cs (disconnect_client x st)))"
      using quiet_fold_disconnect [OF wf, of cs] unfolding quiet_def by blast
    moreover have "map_of (deadlines (ap_grants (disconnect_client c st))) (c, s) = None"
      using Cons.prems(1) by (rule disconnect_get)
    ultimately show ?thesis using True unfolding shrinks_def by (metis fold_simps(2) not_None_eq)
  next
    case False
    with Cons.IH [OF wf] Cons.prems(2) show ?thesis by simp
  qed
qed

lemma disconnect_pending:
  "ap_pending (disconnect_client c st) = Some p \<Longrightarrow> pa_client (ps_request p) = c \<Longrightarrow> ps_decision p = Some Cancel"
  by (auto simp: disconnect_client_def decide_pending_if_def split: option.splits if_splits)

lemma disconnect_pending_other:
  "ap_pending (disconnect_client c st) = Some q \<Longrightarrow>
     \<exists>p. ap_pending st = Some p \<and> ps_request q = ps_request p \<and>
         (ps_decision q = ps_decision p \<or> ps_decision q = Some Cancel)"
  by (auto simp: disconnect_client_def decide_pending_if_def split: option.splits if_splits)

lemma fold_disconnect_pending:
  assumes "c \<in> set cs" and "ap_pending (fold disconnect_client cs st) = Some p"
    and "pa_client (ps_request p) = c"
  shows "ps_decision p = Some Cancel"
  using assms
proof (induction cs arbitrary: p rule: rev_induct)
  case Nil
  then show ?case by simp
next
  case (snoc x cs)
  show ?case
  proof (cases "x = c")
    case True
    with snoc.prems show ?thesis by (auto intro: disconnect_pending)
  next
    case False
    with snoc.prems have "c \<in> set cs" by simp
    with snoc.prems(2,3) snoc.IH show ?thesis by (fastforce dest: disconnect_pending_other)
  qed
qed

lemma purge_lists:
  assumes "map_of (ap_client_sessions st) c = Some t" and "is_cancelled st t"
  shows "c \<in> set (disconnected_clients st)"
  using assms by (force simp: disconnected_clients_def dest: map_of_SomeD)

text \<open>When the connection of a client is cancelled, the sweep that every access starts with removes
  its session and all its grants and cancels its pending request; a ticket of the client for any
  secret is refused without running the guarded operation.\<close>

theorem disconnect_revokes:
  assumes wf: "store_wf (ap_grants st)"
    and c: "map_of (ap_client_sessions st) c = Some t" and "is_cancelled st t"
  shows "map_of (ap_client_sessions (purge_disconnected_clients st)) c = None
       \<and> map_of (ap_sessions (purge_disconnected_clients st)) c = None
       \<and> (\<forall>s. map_of (deadlines (ap_grants (purge_disconnected_clients st))) (c, s) = None)
       \<and> (\<forall>p. ap_pending (purge_disconnected_clients st) = Some p \<longrightarrow> pa_client (ps_request p) = c \<longrightarrow>
              ps_decision p = Some Cancel)
       \<and> (gt_client ticket = c \<longrightarrow> gt_secret_ids ticket \<noteq> [] \<longrightarrow>
            (fst (with_valid_grant r ticket operation w st), fst (snd (with_valid_grant r ticket operation w st)))
              = (Inl ApprovalCancelled, w))"
proof -
  have l: "c \<in> set (disconnected_clients st)" using c assms(3) by (rule purge_lists)
  have g: "map_of (deadlines (ap_grants (purge_disconnected_clients st))) (c, s) = None" for s
    using fold_disconnect_get [OF wf l] by (simp add: purge_disconnected_clients_def)
  then have "\<not> covers r (ap_grants (purge_disconnected_clients st)) c s" for s
    by (simp add: covers_def live_def)
  then have "gt_client ticket = c \<Longrightarrow> gt_secret_ids ticket \<noteq> [] \<Longrightarrow>
      \<not> permitted r ticket (purge_disconnected_clients st)"
    by (cases "gt_secret_ids ticket") (auto simp: permitted_def)
  then show ?thesis
    using l g use_grant_cases [OF wf, of r ticket operation w]
    by (auto simp: purge_disconnected_clients_def fold_disconnect_sessions dest: fold_disconnect_pending)
qed

theorem disconnect_revokes_witness:
  "fst (with_valid_grant demo_reading demo_ticket (\<lambda>w. (Inr (), Suc w)) 0 (cancel_tokens [1] demo_state))
     = Inl ApprovalCancelled"
proof -
  let ?st = "cancel_tokens [1] demo_state"
  have "store_wf (ap_grants ?st)" "map_of (ap_client_sessions ?st) 7 = Some 1" "is_cancelled ?st 1"
    by (simp_all add: cancel_tokens_def demo_state_def is_cancelled_def store_wf_def hm_wf_def)
  from disconnect_revokes [OF this, where ticket = demo_ticket and r = demo_reading
      and operation = "\<lambda>w. (Inr (), Suc w)" and w = 0]
  show ?thesis by (simp add: demo_ticket_def)
qed

text \<open>The wait for a decision is bounded: from the deadline on, one more turn of the loop ends it,
  and the request is no longer pending afterwards.\<close>

theorem approval_wait_ends:
  assumes "deadline \<le> now"
  shows "\<exists>res st'. authorize_poll r now t aid ticket deadline st = (Finished res, st') \<and>
           (\<forall>p. ap_pending st' = Some p \<longrightarrow> pa_id (ps_request p) \<noteq> aid)"
proof -
  let ?st = "purge_disconnected_clients st"
  have clear: "ap_pending (clear_pending r aid ?st) = Some p \<Longrightarrow> pa_id (ps_request p) \<noteq> aid" for p
    by (auto simp: clear_pending_def split: option.splits if_splits)
  have decided: "ap_pending (snd (apply_decision r ticket p d (?st\<lparr>ap_pending := None\<rparr>))) = None" for p d
    by (auto simp: apply_decision_def Let_def split: approval_decision.split option.split prod.split)
  show ?thesis
  proof (cases "is_cancelled ?st t")
    case True
    with clear show ?thesis by (simp add: authorize_poll_def Let_def)
  next
    case nc: False
    show ?thesis
    proof (cases "decision_for ?st aid")
      case None
      with nc clear assms show ?thesis by (simp add: authorize_poll_def Let_def)
    next
      case (Some d)
      then obtain p where p: "ap_pending ?st = Some p" by (auto simp: decision_for_def split: option.splits)
      obtain res st1 where "apply_decision r ticket p d (?st\<lparr>ap_pending := None\<rparr>) = (res, st1)"
        by (cases "apply_decision r ticket p d (?st\<lparr>ap_pending := None\<rparr>)")
      with decided [of p d] nc Some p show ?thesis by (simp add: authorize_poll_def Let_def)
    qed
  qed
qed

theorem approval_wait_ends_witness:
  "\<exists>res st'. authorize_poll demo_reading 120 3 40 demo_ticket 100
      (snd (authorize_begin demo_reading 0 100 demo_request (new_coordinator 0))) = (Finished res, st')"
  using approval_wait_ends [of 100 120 demo_reading 3 40 demo_ticket] by fastforce

section \<open>An approved request is served\<close>

lemma fold_disconnect_mem:
  "x \<in> set (ap_client_sessions (fold disconnect_client cs st)) \<Longrightarrow>
     x \<in> set (ap_client_sessions st) \<and> fst x \<notin> set cs"
proof (induction cs arbitrary: st)
  case Nil
  then show ?case by simp
next
  case (Cons y cs)
  from Cons.prems have "x \<in> set (ap_client_sessions (fold disconnect_client cs (disconnect_client y st)))"
    by simp
  from Cons.IH [OF this] show ?case by (auto simp: hm_remove_def AList.delete_eq)
qed

lemma purged_connected: "disconnected_clients (purge_disconnected_clients st) = []"
proof -
  have "\<not> is_cancelled st t"
    if "(c, t) \<in> set (ap_client_sessions (purge_disconnected_clients st))" for c t
    using fold_disconnect_mem [of "(c, t)" "disconnected_clients st" st] that
    by (force simp: purge_disconnected_clients_def disconnected_clients_def)
  then show ?thesis
    by (auto simp: disconnected_clients_def [of "purge_disconnected_clients st"] is_cancelled_def
        filter_empty_conv)
qed

lemma purge_idle: "disconnected_clients st = [] \<Longrightarrow> purge_disconnected_clients st = st"
  by (simp add: purge_disconnected_clients_def)

lemma same_sessions_idle:
  assumes "same_sessions (purge_disconnected_clients st) st1" and "cancelled_tokens st1 = cancelled_tokens st"
  shows "purge_disconnected_clients st1 = st1"
  using assms purged_connected [of st]
  by (intro purge_idle) (simp add: disconnected_clients_def same_sessions_def is_cancelled_def)

lemma session_grant_live:
  "store_wf g \<Longrightarrow> covers r (grant_session r c ss g) c s \<longleftrightarrow> s \<in> set ss \<or> covers r g c s"
  by (auto simp: covers_def grant_session_def live_def insert_deadlines_get alive_def duration_max_def
      purge_expired_get split: option.splits)

lemma begin_waits:
  assumes wf: "store_wf (ap_grants st)"
    and "authorize_begin r now timeout req st = (Waiting aid ticket deadline, st1)"
  shows "aid = pa_id req \<and> ticket = ticket_of req \<and> is_app_active st1 \<and>
     cancelled_tokens st1 = cancelled_tokens st \<and> ap_vault st1 = Some (pa_vault_session req) \<and>
     store_wf (ap_grants st1) \<and>
     (\<exists>p. ap_pending st1 = Some p \<and> ps_decision p = None \<and> pa_id (ps_request p) = aid \<and>
        pa_client (ps_request p) = pa_client req \<and>
        (\<forall>s \<in> set (request_ids req). s \<in> set (request_ids (ps_request p)) \<or>
           covers r (ap_grants st1) (pa_client req) s))"
proof -
  let ?st = "purge_disconnected_clients st"
  let ?sw = "switch_vault (pa_vault_session req) ?st"
  have wf2: "store_wf (ap_grants ?sw)"
    using quiet_switch_vault [OF quiet_purge [OF wf]] quiet_wf by blast
  have a: "is_app_active ?st" "ap_pending ?st = None"
    using assms(2) by (auto simp: authorize_begin_def Let_def split: if_splits prod.splits)
  obtain miss g where m: "missing r (pa_client req) (request_ids req) (ap_grants ?sw) = (miss, g)"
    by (cases "missing r (pa_client req) (request_ids req) (ap_grants ?sw)")
  have g: "g = purge_expired r (ap_grants ?sw)" using m by (rule query_store(1))
  have miss: "set miss = {s \<in> set (request_ids req). \<not> covers r (ap_grants ?sw) (pa_client req) s}"
    using missing_set [OF wf2, of r "pa_client req" "request_ids req"] m by simp
  have sw: "is_app_active ?sw" "cancelled_tokens ?sw = cancelled_tokens st"
    using a by (simp_all add: switch_vault_def is_app_active_def)
  have cov: "covers r g (pa_client req) s = covers r (ap_grants ?sw) (pa_client req) s" for s
    using wf2 by (simp add: g covers_purge)
  from assms(2) a m have "miss \<noteq> []" and st1: "aid = pa_id req" "ticket = ticket_of req"
    "st1 = ?sw\<lparr>ap_labels := hm_insert (pa_client req) (pa_label req) (ap_labels ?sw), ap_grants := g,
        ap_pending := Some \<lparr>ps_request = req\<lparr>pa_secrets := filter (\<lambda>s. as_id s \<in> set miss) (pa_secrets req)\<rparr>,
          ps_requested_ids = gt_secret_ids (ticket_of req), ps_decision = None\<rparr>\<rparr>"
    by (auto simp: authorize_begin_def Let_def split: if_splits)
  have "store_wf g" using wf2 by (simp add: g)
  with sw cov st1 miss show ?thesis
    by (auto simp: is_app_active_def request_ids_def)
qed

text \<open>C36: A request that had to wait and is approved for the session of its connected client is served:
  the decision is accepted, the next turn of the wait returns the ticket of the request, and the
  ticket is permitted for every secret the request asked for.\<close>

theorem approved_request_served:
  assumes inv: "approval_inv st"
    and b: "authorize_begin r now timeout req st = (Waiting aid ticket deadline, st1)"
    and c: "map_of (ap_client_sessions st) (pa_client req) = Some t" "\<not> is_cancelled st t"
    and w: "\<not> is_cancelled st waiter"
  shows "\<exists>st2 st3. set_decision r aid ApproveSession st1 = (Inr (), st2) \<and>
     authorize_poll r now' waiter aid ticket deadline st2 = (Finished (Inr (ticket_of req)), st3) \<and>
     permitted r (ticket_of req) st3"
proof -
  have wf: "store_wf (ap_grants st)" and hm: "hm_wf (ap_client_sessions st)"
    using inv by (simp_all add: approval_inv_def sessions_ok_def)
  have ss: "same_sessions (purge_disconnected_clients st) st1"
    using same_sessions_begin [of st r now timeout req] b by simp
  obtain p where p: "ap_pending st1 = Some p" "ps_decision p = None" "pa_id (ps_request p) = aid"
      "pa_client (ps_request p) = pa_client req"
    and cov: "\<And>s. s \<in> set (request_ids req) \<Longrightarrow>
      s \<in> set (request_ids (ps_request p)) \<or> covers r (ap_grants st1) (pa_client req) s"
    and st1: "ticket = ticket_of req" "is_app_active st1" "cancelled_tokens st1 = cancelled_tokens st"
      "ap_vault st1 = Some (pa_vault_session req)" "store_wf (ap_grants st1)"
    using begin_waits [OF wf b] by blast
  have idle: "purge_disconnected_clients st1 = st1" using ss st1(3) by (rule same_sessions_idle)
  have "pa_client req \<notin> set (disconnected_clients st)"
    using c hm by (auto simp: disconnected_clients_def hm_mem_iff)
  then have cs: "map_of (ap_client_sessions st1) (pa_client req) = Some t"
    using ss c(1) by (simp add: same_sessions_def purge_disconnected_clients_def fold_disconnect_sessions)
  let ?st2 = "st1\<lparr>ap_pending := Some (p\<lparr>ps_decision := Some ApproveSession\<rparr>)\<rparr>"
  let ?ids = "request_ids (ps_request p)"
  let ?st3 = "st1\<lparr>ap_pending := None, ap_grants := grant_session r (pa_client req) ?ids (ap_grants st1),
      ap_labels := hm_insert (pa_client req) (pa_label (ps_request p)) (ap_labels st1)\<rparr>"
  have idle2: "purge_disconnected_clients ?st2 = ?st2"
    using ss st1(3) by (intro same_sessions_idle [of st]) (simp_all add: same_sessions_def)
  have "set_decision r aid ApproveSession st1 = (Inr (), ?st2)"
    using p cs by (simp add: set_decision_def idle Let_def)
  moreover have "authorize_poll r now' waiter aid ticket deadline ?st2 = (Finished (Inr (ticket_of req)), ?st3)"
    using p cs c(2) w st1(1,3)
    by (simp add: authorize_poll_def idle2 Let_def decision_for_def apply_decision_def is_cancelled_def)
  moreover have "permitted r (ticket_of req) ?st3"
    using st1 cov by (auto simp: permitted_def ticket_of_def session_grant_live set_first_occurrences
        is_app_active_def)
  ultimately show ?thesis by blast
qed

theorem approved_request_served_witness:
  "\<exists>ticket deadline st1 st2 st3.
     authorize_begin demo_reading 0 100 demo_request
       (fold exec_approval [RegisterOp demo_reading 50 7 1] (new_coordinator 0)) = (Waiting 40 ticket deadline, st1) \<and>
     set_decision demo_reading 40 ApproveSession st1 = (Inr (), st2) \<and>
     authorize_poll demo_reading 1 2 40 ticket deadline st2 = (Finished (Inr (ticket_of demo_request)), st3) \<and>
     permitted demo_reading (ticket_of demo_request) st3"
proof -
  let ?st = "fold exec_approval [RegisterOp demo_reading 50 7 1] (new_coordinator 0)"
  have inv: "approval_inv ?st" by (rule approval.run_inv) blast
  obtain ticket deadline st1 where b:
    "authorize_begin demo_reading 0 100 demo_request ?st = (Waiting 40 ticket deadline, st1)"
    by (simp add: demo_defs coordinator_defs register_client_session_def MAX_TRACKED_SESSIONS_def
        authorize_begin_def missing_def ticket_of_def request_ids_def)
  have c: "map_of (ap_client_sessions ?st) (pa_client demo_request) = Some 1"
    "\<not> is_cancelled ?st 1" "\<not> is_cancelled ?st 2"
    by (simp_all add: demo_defs coordinator_defs register_client_session_def MAX_TRACKED_SESSIONS_def)
  from approved_request_served [OF inv b c, of 1] b show ?thesis by blast
qed

end
