(* ===== verification/Ladon_Codec.thy ===== *)
theory Ladon_Codec
  imports Ladon_Model
begin

text \<open>
  The vault payload and its canonical CBOR form (\<open>crates/ladon-core/src/codec.rs\<close>).

  The \<open>minicbor\<close> crate is not part of the repository. Its \<open>Decoder\<close> and \<open>Encoder\<close> are the record
  \<open>cbor\<close>: \<open>cb_datatype\<close> is \<open>Decoder::datatype\<close>, \<open>cb_read T\<close> the method of the decoder that reads an
  item of type \<open>T\<close> (\<open>bool\<close>, \<open>u8\<close>, \<open>str\<close>, \<open>map\<close>, ...), \<open>cb_skip\<close> is \<open>Decoder::skip\<close>, \<open>cb_write\<close> the
  method of the encoder for a value. A decoder is the input it has not consumed yet, so that
  \<open>position\<close> is a difference of lengths; writing to a \<open>Vec\<close> does not fail. \<open>cbor_laws\<close> is what the
  code relies on: the decoder reads back what the encoder wrote, texts are UTF-8, and skipping an
  item does not depend on what follows it. A \<open>usize\<close> has 64 bits, so its conversion from \<open>u64\<close>
  succeeds.
\<close>

section \<open>The CBOR library\<close>

datatype cbor_type =
    TBool | TNull | TUndefined | TU8 | TU16 | TU32 | TU64 | TI8 | TI16 | TI32 | TI64 | TInt
  | TF16 | TF32 | TF64 | TSimple | TBytes | TBytesIndef | TString | TStringIndef
  | TArray | TArrayIndef | TMap | TMapIndef | TTag | TBreak | TUnknown u8

datatype cbor_value =
    VBool bool | VNull | VUndefined
  | VU8 u8 | VU16 u16 | VU32 u32 | VU64 u64
  | VI8 u8 | VI16 u16 | VI32 u32 | VI64 u64 | VInt int
  | VSimple u8
  | VBytes "byte list" | VString str
  | VTag u64
  | VArray "u64 option" | VMap "u64 option"

record cbor =
  cb_datatype :: "byte list \<Rightarrow> cbor_type option"
  cb_read :: "cbor_type \<Rightarrow> byte list \<Rightarrow> (cbor_value \<times> byte list) option"
  cb_skip :: "byte list \<Rightarrow> byte list option"
  cb_write :: "cbor_value \<Rightarrow> byte list"

definition cbor_laws :: "cbor \<Rightarrow> bool" where
  "cbor_laws cb =
     ((\<forall>n rest. cb_read cb TU8 (cb_write cb (VU8 n) @ rest) = Some (VU8 n, rest)) \<and>
      (\<forall>n rest. cb_read cb TU32 (cb_write cb (VU32 n) @ rest) = Some (VU32 n, rest)) \<and>
      (\<forall>n rest. cb_read cb TU64 (cb_write cb (VU64 n) @ rest) = Some (VU64 n, rest)) \<and>
      (\<forall>n rest. cb_read cb TU64 (cb_write cb (VU8 n) @ rest) = Some (VU64 (ucast n), rest)) \<and>
      (\<forall>n rest. cb_read cb TArray (cb_write cb (VArray (Some n)) @ rest) = Some (VArray (Some n), rest)) \<and>
      (\<forall>n rest. cb_read cb TMap (cb_write cb (VMap (Some n)) @ rest) = Some (VMap (Some n), rest)) \<and>
      (\<forall>b rest. length b < 2 ^ 64 \<longrightarrow>
         cb_read cb TBytes (cb_write cb (VBytes b) @ rest) = Some (VBytes b, rest)) \<and>
      (\<forall>s rest. valid_utf8 s \<longrightarrow> length s < 2 ^ 64 \<longrightarrow>
         cb_read cb TString (cb_write cb (VString s) @ rest) = Some (VString s, rest)) \<and>
      (\<forall>input s rest. cb_read cb TString input = Some (VString s, rest) \<longrightarrow> valid_utf8 s) \<and>
      (\<forall>input rest. cb_skip cb input = Some rest \<longrightarrow>
         (\<exists>item. input = item @ rest \<and> (\<forall>rest'. cb_skip cb (item @ rest') = Some rest'))))"

section \<open>Reading\<close>

text \<open>A read that fails, or yields a value of another kind, ends the decoding with
  \<open>InvalidVaultPayload\<close>.\<close>

definition read_u8 :: "cbor \<Rightarrow> byte list \<Rightarrow> (u8 \<times> byte list) res" where
  "read_u8 cb input = (case cb_read cb TU8 input of Some (VU8 n, rest) \<Rightarrow> Inr (n, rest) | _ \<Rightarrow> Inl InvalidVaultPayload)"

definition read_u32 :: "cbor \<Rightarrow> byte list \<Rightarrow> (u32 \<times> byte list) res" where
  "read_u32 cb input = (case cb_read cb TU32 input of Some (VU32 n, rest) \<Rightarrow> Inr (n, rest) | _ \<Rightarrow> Inl InvalidVaultPayload)"

definition read_u64 :: "cbor \<Rightarrow> byte list \<Rightarrow> (u64 \<times> byte list) res" where
  "read_u64 cb input = (case cb_read cb TU64 input of Some (VU64 n, rest) \<Rightarrow> Inr (n, rest) | _ \<Rightarrow> Inl InvalidVaultPayload)"

definition read_bytes :: "cbor \<Rightarrow> byte list \<Rightarrow> (byte list \<times> byte list) res" where
  "read_bytes cb input = (case cb_read cb TBytes input of Some (VBytes b, rest) \<Rightarrow> Inr (b, rest) | _ \<Rightarrow> Inl InvalidVaultPayload)"

definition read_str :: "cbor \<Rightarrow> byte list \<Rightarrow> (str \<times> byte list) res" where
  "read_str cb input = (case cb_read cb TString input of Some (VString s, rest) \<Rightarrow> Inr (s, rest) | _ \<Rightarrow> Inl InvalidVaultPayload)"

definition read_array :: "cbor \<Rightarrow> byte list \<Rightarrow> (u64 option \<times> byte list) res" where
  "read_array cb input = (case cb_read cb TArray input of Some (VArray n, rest) \<Rightarrow> Inr (n, rest) | _ \<Rightarrow> Inl InvalidVaultPayload)"

definition read_map :: "cbor \<Rightarrow> byte list \<Rightarrow> (u64 option \<times> byte list) res" where
  "read_map cb input = (case cb_read cb TMap input of Some (VMap n, rest) \<Rightarrow> Inr (n, rest) | _ \<Rightarrow> Inl InvalidVaultPayload)"

text \<open>\<open>decoder.u8().ok() != Some(k)\<close> and the early return.\<close>

definition expect_u8 :: "cbor \<Rightarrow> u8 \<Rightarrow> byte list \<Rightarrow> byte list res" where
  "expect_u8 cb k input =
     and_then (read_u8 cb input) (\<lambda>(n, rest). if n = k then Inr rest else Inl InvalidVaultPayload)"

definition definite_len :: "(u64 option \<times> byte list) res \<Rightarrow> nat \<Rightarrow> (nat \<times> byte list) res" where
  "definite_len result maximum =
     and_then result (\<lambda>(len, rest).
       case len of
         None \<Rightarrow> Inl InvalidVaultPayload
       | Some n \<Rightarrow> if unat n > maximum then Inl InvalidVaultPayload else Inr (unat n, rest))"

section \<open>The payload\<close>

definition MAX_VAULT_PAYLOAD_BYTES :: nat where
  "MAX_VAULT_PAYLOAD_BYTES = 64 * 1024 * 1024"

definition MAX_RECORDS :: nat where
  "MAX_RECORDS = 10000"

definition DEFAULT_IDLE_TIMEOUT_SECONDS :: u32 where
  "DEFAULT_IDLE_TIMEOUT_SECONDS = 30 * 60"

text \<open>\<open>vp_unknown\<close> is the \<open>BTreeMap\<close> of the entries this version does not know, in the order of
  its keys.\<close>

record vault_payload =
  vp_vault_id :: secret_id
  vp_revision :: u64
  vp_records :: "secret_record list"
  vp_idle_timeout :: u32
  vp_unknown :: "(u64 \<times> byte list) list"

definition new_vault_payload ::
    "secret_id \<Rightarrow> u64 \<Rightarrow> secret_record list \<Rightarrow> vault_payload res" where
  "new_vault_payload vault_id revision recs =
     (if length recs > MAX_RECORDS then Inl InvalidVaultPayload
      else if \<not> distinct (map sr_id recs) \<or> \<not> distinct (map sr_name recs) then Inl InvalidVaultPayload
      else Inr \<lparr>vp_vault_id = vault_id, vp_revision = revision, vp_records = recs,
                vp_idle_timeout = DEFAULT_IDLE_TIMEOUT_SECONDS, vp_unknown = []\<rparr>)"

definition increment_revision :: "vault_payload \<Rightarrow> vault_payload res" where
  "increment_revision p =
     and_then (ok_or RevisionOverflow (checked_add (vp_revision p) 1))
       (\<lambda>n. Inr (p\<lparr>vp_revision := n\<rparr>))"

fun btree_insert :: "u64 \<Rightarrow> 'v \<Rightarrow> (u64 \<times> 'v) list \<Rightarrow> (u64 \<times> 'v) list" where
  "btree_insert k v [] = [(k, v)]"
| "btree_insert k v ((k', v') # m) =
     (if k < k' then (k, v) # (k', v') # m
      else if k = k' then (k, v) # m
      else (k', v') # btree_insert k v m)"

section \<open>Encoding\<close>

primrec hint_code :: "text_hint \<Rightarrow> u8" where
  "hint_code HintBinary = 0"
| "hint_code HintText = 1"

definition encode_field :: "cbor \<Rightarrow> secret_field \<Rightarrow> byte list" where
  "encode_field cb f =
     cb_write cb (VMap (Some 3)) @
     cb_write cb (VU8 0) @ cb_write cb (VString (field_str (sf_name f))) @
     cb_write cb (VU8 1) @ cb_write cb (VBytes (sf_value f)) @
     cb_write cb (VU8 2) @ cb_write cb (VU8 (hint_code (sf_hint f)))"

definition encode_record :: "cbor \<Rightarrow> secret_record \<Rightarrow> byte list" where
  "encode_record cb r =
     cb_write cb (VMap (Some 3)) @
     cb_write cb (VU8 0) @ cb_write cb (VBytes (id_as_bytes (sr_id r))) @
     cb_write cb (VU8 1) @ cb_write cb (VString (name_str (sr_name r))) @
     cb_write cb (VU8 2) @ cb_write cb (VArray (Some (of_nat (length (sr_fields r))))) @
     concat (map (encode_field cb) (sr_fields r))"

definition encode_body :: "cbor \<Rightarrow> vault_payload \<Rightarrow> byte list" where
  "encode_body cb p =
     cb_write cb (VMap (Some (of_nat (4 + length (vp_unknown p))))) @
     cb_write cb (VU8 0) @ cb_write cb (VBytes (id_as_bytes (vp_vault_id p))) @
     cb_write cb (VU8 1) @ cb_write cb (VU64 (vp_revision p)) @
     cb_write cb (VU8 2) @ cb_write cb (VArray (Some (of_nat (length (vp_records p))))) @
     concat (map (encode_record cb) (vp_records p)) @
     cb_write cb (VU8 3) @ cb_write cb (VMap (Some 1)) @
     cb_write cb (VU8 0) @ cb_write cb (VU32 (vp_idle_timeout p)) @
     concat (map (\<lambda>(key, raw). cb_write cb (VU64 key) @ raw) (vp_unknown p))"

definition encode_payload :: "cbor \<Rightarrow> vault_payload \<Rightarrow> byte list res" where
  "encode_payload cb p =
     (let encoded = encode_body cb p in
      if length encoded > MAX_VAULT_PAYLOAD_BYTES then Inl VaultPayloadTooLarge else Inr encoded)"

section \<open>Decoding\<close>

definition decode_id :: "cbor \<Rightarrow> byte list \<Rightarrow> (secret_id \<times> byte list) res" where
  "decode_id cb input =
     and_then (read_bytes cb input) (\<lambda>(b, rest).
       if length b = 16 then Inr (id_from_bytes b, rest) else Inl InvalidVaultPayload)"

definition decode_hint :: "u8 \<Rightarrow> text_hint res" where
  "decode_hint n = (if n = 0 then Inr HintBinary else if n = 1 then Inr HintText else Inl InvalidVaultPayload)"

definition decode_field :: "cbor \<Rightarrow> byte list \<Rightarrow> (secret_field \<times> byte list) res" where
  "decode_field cb input =
     and_then (definite_len (read_map cb input) 3) (\<lambda>(n, i1).
     if n \<noteq> 3 then Inl InvalidVaultPayload else
     and_then (expect_u8 cb 0 i1) (\<lambda>i2.
     and_then (read_str cb i2) (\<lambda>(text, i3).
     and_then (map_err InvalidVaultPayload (parse_field_name text)) (\<lambda>name.
     and_then (expect_u8 cb 1 i3) (\<lambda>i4.
     and_then (read_bytes cb i4) (\<lambda>(v, i5).
     and_then (expect_u8 cb 2 i5) (\<lambda>i6.
     and_then (read_u8 cb i6) (\<lambda>(h, i7).
     and_then (decode_hint h) (\<lambda>hint.
     and_then (map_err InvalidVaultPayload (new_secret_field name v hint)) (\<lambda>f.
       Inr (f, i7)))))))))))"

text \<open>\<open>for _ in 0..count { items.push(decode(decoder)?) }\<close>\<close>

primrec decode_many ::
    "(byte list \<Rightarrow> ('a \<times> byte list) res) \<Rightarrow> nat \<Rightarrow> byte list \<Rightarrow> ('a list \<times> byte list) res" where
  "decode_many dec 0 input = Inr ([], input)"
| "decode_many dec (Suc n) input =
     and_then (dec input) (\<lambda>(x, rest).
     and_then (decode_many dec n rest) (\<lambda>(xs, rest'). Inr (x # xs, rest')))"

definition decode_record :: "text_env \<Rightarrow> cbor \<Rightarrow> byte list \<Rightarrow> (secret_record \<times> byte list) res" where
  "decode_record env cb input =
     and_then (definite_len (read_map cb input) 3) (\<lambda>(n, i1).
     if n \<noteq> 3 then Inl InvalidVaultPayload else
     and_then (expect_u8 cb 0 i1) (\<lambda>i2.
     and_then (decode_id cb i2) (\<lambda>(i, i3).
     and_then (expect_u8 cb 1 i3) (\<lambda>i4.
     and_then (read_str cb i4) (\<lambda>(name, i5).
     and_then (expect_u8 cb 2 i5) (\<lambda>i6.
     and_then (definite_len (read_array cb i6) MAX_FIELDS_PER_RECORD) (\<lambda>(count, i7).
     if count = 0 then Inl InvalidVaultPayload else
     and_then (decode_many (decode_field cb) count i7) (\<lambda>(flds, i8).
     and_then (map_err InvalidVaultPayload (from_parts env i name flds)) (\<lambda>r.
       Inr (r, i8))))))))))"

definition decode_records :: "text_env \<Rightarrow> cbor \<Rightarrow> byte list \<Rightarrow> (secret_record list \<times> byte list) res" where
  "decode_records env cb input =
     and_then (definite_len (read_array cb input) MAX_RECORDS) (\<lambda>(count, rest).
       decode_many (decode_record env cb) count rest)"

definition decode_settings :: "cbor \<Rightarrow> byte list \<Rightarrow> (u32 \<times> byte list) res" where
  "decode_settings cb input =
     and_then (definite_len (read_map cb input) 1) (\<lambda>(n, i1).
     if n \<noteq> 1 then Inl InvalidVaultPayload else
     and_then (expect_u8 cb 0 i1) (\<lambda>i2. read_u32 cb i2))"

section \<open>Canonical values of unknown entries\<close>

fun bytes_less :: "byte list \<Rightarrow> byte list \<Rightarrow> bool" where
  "bytes_less [] bs = (bs \<noteq> [])"
| "bytes_less (a # as) [] = False"
| "bytes_less (a # as) (b # bs) = (a < b \<or> a = b \<and> bytes_less as bs)"

definition canonical_key_less :: "byte list \<Rightarrow> byte list \<Rightarrow> bool" where
  "canonical_key_less l r = (length l < length r \<or> length l = length r \<and> bytes_less l r)"

text \<open>The types that \<open>canonicalize_item\<close> reads and writes back with one method each.\<close>

fun scalar_type :: "cbor_type \<Rightarrow> bool" where
  "scalar_type TBool = True" | "scalar_type TNull = True" | "scalar_type TUndefined = True"
| "scalar_type TU8 = True" | "scalar_type TU16 = True" | "scalar_type TU32 = True"
| "scalar_type TU64 = True" | "scalar_type TI8 = True" | "scalar_type TI16 = True"
| "scalar_type TI32 = True" | "scalar_type TI64 = True" | "scalar_type TInt = True"
| "scalar_type TSimple = True" | "scalar_type TBytes = True" | "scalar_type TString = True"
| "scalar_type _ = False"

definition read_tag :: "cbor \<Rightarrow> byte list \<Rightarrow> (u64 \<times> byte list) res" where
  "read_tag cb input = (case cb_read cb TTag input of Some (VTag t, rest) \<Rightarrow> Inr (t, rest) | _ \<Rightarrow> Inl InvalidVaultPayload)"

text \<open>The result is the output appended and the input left. \<open>input_item_limit\<close> is the length of
  that input.\<close>

function canonicalize_item :: "cbor \<Rightarrow> nat \<Rightarrow> byte list \<Rightarrow> (byte list \<times> byte list) res"
  and canonicalize_elements :: "cbor \<Rightarrow> nat \<Rightarrow> nat \<Rightarrow> byte list \<Rightarrow> (byte list \<times> byte list) res"
  and canonicalize_entries ::
    "cbor \<Rightarrow> nat \<Rightarrow> nat \<Rightarrow> byte list option \<Rightarrow> byte list \<Rightarrow> (byte list \<times> byte list) res" where
  "canonicalize_item cb depth input =
     (if depth \<ge> 16 then Inl InvalidVaultPayload else
      case cb_datatype cb input of
        None \<Rightarrow> Inl InvalidVaultPayload
      | Some t \<Rightarrow>
          if scalar_type t then
            (case cb_read cb t input of
               None \<Rightarrow> Inl InvalidVaultPayload
             | Some (v, rest) \<Rightarrow> Inr (cb_write cb v, rest))
          else if t = TTag then
            and_then (read_tag cb input) (\<lambda>(tag, i1).
            and_then (canonicalize_item cb (depth + 1) i1) (\<lambda>(out, i2).
              Inr (cb_write cb (VTag tag) @ out, i2)))
          else if t = TArray then
            and_then (read_array cb input) (\<lambda>(len, i1).
              case len of
                None \<Rightarrow> Inl InvalidVaultPayload
              | Some n \<Rightarrow>
                  if unat n > length i1 then Inl InvalidVaultPayload
                  else and_then (canonicalize_elements cb (depth + 1) (unat n) i1) (\<lambda>(out, i2).
                    Inr (cb_write cb (VArray (Some n)) @ out, i2)))
          else if t = TMap then
            and_then (read_map cb input) (\<lambda>(len, i1).
              case len of
                None \<Rightarrow> Inl InvalidVaultPayload
              | Some n \<Rightarrow>
                  if unat n > length i1 div 2 then Inl InvalidVaultPayload
                  else and_then (canonicalize_entries cb (depth + 1) (unat n) None i1) (\<lambda>(out, i2).
                    Inr (cb_write cb (VMap (Some n)) @ out, i2)))
          else Inl InvalidVaultPayload)"
| "canonicalize_elements cb depth 0 input = Inr ([], input)"
| "canonicalize_elements cb depth (Suc n) input =
     and_then (canonicalize_item cb depth input) (\<lambda>(out, i1).
     and_then (canonicalize_elements cb depth n i1) (\<lambda>(outs, i2). Inr (out @ outs, i2)))"
| "canonicalize_entries cb depth 0 previous input = Inr ([], input)"
| "canonicalize_entries cb depth (Suc n) previous input =
     and_then (canonicalize_item cb depth input) (\<lambda>(key, i1).
     if (case previous of Some p \<Rightarrow> \<not> canonical_key_less p key | None \<Rightarrow> False)
     then Inl InvalidVaultPayload else
     and_then (canonicalize_item cb depth i1) (\<lambda>(v, i2).
     and_then (canonicalize_entries cb depth n (Some key) i2) (\<lambda>(outs, i3).
       Inr (key @ v @ outs, i3))))"
  by pat_completeness auto
termination
  by (relation "inv_image (less_than <*lex*> less_than)
      (\<lambda>x. case x of
         Inl (_, depth, _) \<Rightarrow> (16 - depth, 0)
       | Inr (Inl (_, depth, n, _)) \<Rightarrow> (16 - depth, Suc n)
       | Inr (Inr (_, depth, n, _, _)) \<Rightarrow> (16 - depth, Suc n))") auto

definition is_canonical_unknown_value :: "cbor \<Rightarrow> byte list \<Rightarrow> bool" where
  "is_canonical_unknown_value cb input =
     (canonicalize_item cb 0 input = Inr (input, []))"

section \<open>Decoding a payload\<close>

record decode_state =
  ds_vault_id :: "secret_id option"
  ds_revision :: "u64 option"
  ds_records :: "secret_record list option"
  ds_idle_timeout :: "u32 option"
  ds_unknown :: "(u64 \<times> byte list) list"
  ds_previous_key :: "u64 option"

definition empty_decode_state :: decode_state where
  "empty_decode_state =
     \<lparr>ds_vault_id = None, ds_revision = None, ds_records = None, ds_idle_timeout = None,
      ds_unknown = [], ds_previous_key = None\<rparr>"

text \<open>One turn of the loop over the entries of the map.\<close>

definition decode_value ::
    "text_env \<Rightarrow> cbor \<Rightarrow> u64 \<Rightarrow> decode_state \<Rightarrow> byte list \<Rightarrow> (decode_state \<times> byte list) res" where
  "decode_value env cb key ds input =
     (if key = 0 \<and> ds_vault_id ds = None then
        and_then (decode_id cb input) (\<lambda>(i, rest). Inr (ds\<lparr>ds_vault_id := Some i\<rparr>, rest))
      else if key = 1 \<and> ds_revision ds = None then
        and_then (read_u64 cb input) (\<lambda>(n, rest). Inr (ds\<lparr>ds_revision := Some n\<rparr>, rest))
      else if key = 2 \<and> ds_records ds = None then
        and_then (decode_records env cb input) (\<lambda>(rs, rest). Inr (ds\<lparr>ds_records := Some rs\<rparr>, rest))
      else if key = 3 \<and> ds_idle_timeout ds = None then
        and_then (decode_settings cb input) (\<lambda>(n, rest). Inr (ds\<lparr>ds_idle_timeout := Some n\<rparr>, rest))
      else if key \<le> 3 then Inl InvalidVaultPayload
      else
        (case cb_skip cb input of
           None \<Rightarrow> Inl InvalidVaultPayload
         | Some rest \<Rightarrow>
             let raw = take (length input - length rest) input in
             if \<not> is_canonical_unknown_value cb raw then Inl InvalidVaultPayload
             else Inr (ds\<lparr>ds_unknown := btree_insert key raw (ds_unknown ds)\<rparr>, rest)))"

definition decode_entry ::
    "text_env \<Rightarrow> cbor \<Rightarrow> decode_state \<Rightarrow> byte list \<Rightarrow> (decode_state \<times> byte list) res" where
  "decode_entry env cb ds input =
     and_then (read_u64 cb input) (\<lambda>(key, rest).
       if (case ds_previous_key ds of Some previous \<Rightarrow> key \<le> previous | None \<Rightarrow> False)
       then Inl InvalidVaultPayload
       else decode_value env cb key (ds\<lparr>ds_previous_key := Some key\<rparr>) rest)"

primrec decode_entries ::
    "text_env \<Rightarrow> cbor \<Rightarrow> nat \<Rightarrow> decode_state \<Rightarrow> byte list \<Rightarrow> (decode_state \<times> byte list) res" where
  "decode_entries env cb 0 ds input = Inr (ds, input)"
| "decode_entries env cb (Suc n) ds input =
     and_then (decode_entry env cb ds input) (\<lambda>(ds', rest). decode_entries env cb n ds' rest)"

text \<open>The payload assembled from the decoded entries, with the checks in the order of the code.\<close>

definition assemble_payload :: "decode_state \<Rightarrow> vault_payload res" where
  "assemble_payload ds =
     and_then (ok_or InvalidVaultPayload (ds_vault_id ds)) (\<lambda>vault_id.
     and_then (ok_or InvalidVaultPayload (ds_revision ds)) (\<lambda>revision.
     and_then (ok_or InvalidVaultPayload (ds_records ds)) (\<lambda>recs.
     and_then (new_vault_payload vault_id revision recs) (\<lambda>p.
     and_then (ok_or InvalidVaultPayload (ds_idle_timeout ds)) (\<lambda>idle.
       Inr (p\<lparr>vp_idle_timeout := idle, vp_unknown := ds_unknown ds\<rparr>))))))"

definition decode_payload :: "text_env \<Rightarrow> cbor \<Rightarrow> byte list \<Rightarrow> vault_payload res" where
  "decode_payload env cb input =
     (if length input > MAX_VAULT_PAYLOAD_BYTES then Inl VaultPayloadTooLarge else
      and_then (definite_len (read_map cb input) (4 + MAX_RECORDS)) (\<lambda>(entries, i1).
      and_then (decode_entries env cb entries empty_decode_state i1) (\<lambda>(ds, i2).
      if i2 \<noteq> [] then Inl InvalidVaultPayload else
      and_then (assemble_payload ds) (\<lambda>p.
      and_then (encode_payload cb p) (\<lambda>encoded.
      if encoded \<noteq> input then Inl InvalidVaultPayload else Inr p)))))"

section \<open>Round trip\<close>

lemma read_written:
  assumes "cbor_laws cb"
  shows "read_u8 cb (cb_write cb (VU8 n8) @ rest) = Inr (n8, rest)"
    "read_u32 cb (cb_write cb (VU32 n32) @ rest) = Inr (n32, rest)"
    "read_u64 cb (cb_write cb (VU64 n64) @ rest) = Inr (n64, rest)"
    "read_u64 cb (cb_write cb (VU8 n8) @ rest) = Inr (ucast n8, rest)"
    "read_array cb (cb_write cb (VArray (Some n64)) @ rest) = Inr (Some n64, rest)"
    "read_map cb (cb_write cb (VMap (Some n64)) @ rest) = Inr (Some n64, rest)"
    "length b < 2 ^ 64 \<Longrightarrow> read_bytes cb (cb_write cb (VBytes b) @ rest) = Inr (b, rest)"
    "valid_utf8 s \<Longrightarrow> length s < 2 ^ 64 \<Longrightarrow> read_str cb (cb_write cb (VString s) @ rest) = Inr (s, rest)"
    "expect_u8 cb n8 (cb_write cb (VU8 n8) @ rest) = Inr rest"
  using assms
  by (simp_all add: cbor_laws_def read_u8_def read_u32_def read_u64_def read_array_def read_map_def
      read_bytes_def read_str_def expect_u8_def)

lemma definite_len_Inr: "unat n \<le> m \<Longrightarrow> definite_len (Inr (Some n, rest)) m = Inr (unat n, rest)"
  by (simp add: definite_len_def)

lemma decode_hint_code [simp]: "decode_hint (hint_code h) = Inr h"
  by (cases h) (simp_all add: decode_hint_def)

lemma decode_encode_field:
  assumes L: "cbor_laws cb" and wf: "field_wf f"
  shows "decode_field cb (encode_field cb f @ rest) = Inr (f, rest)"
proof -
  have n: "valid_utf8 (field_str (sf_name f))" "length (field_str (sf_name f)) < 2 ^ 64"
    and v: "length (sf_value f) < 2 ^ 64" "length (sf_value f) \<le> MAX_FIELD_BYTES"
    using wf by (auto simp: field_wf_def valid_field_name_def MAX_FIELD_BYTES_def
        intro: valid_field_name_utf8)
  from wf n v show ?thesis
    by (simp add: decode_field_def encode_field_def read_written [OF L] definite_len_Inr field_wf_def
        new_secret_field_def)
qed

lemma decode_many_map:
  assumes "\<And>x rest. x \<in> set xs \<Longrightarrow> dec (enc x @ rest) = Inr (x, rest)"
  shows "decode_many dec (length xs) (concat (map enc xs) @ rest) = Inr (xs, rest)"
  using assms by (induction xs arbitrary: rest) simp_all

lemma decode_encode_id:
  assumes L: "cbor_laws cb"
  shows "decode_id cb (cb_write cb (VBytes (id_as_bytes i)) @ rest) = Inr (i, rest)"
  by (simp add: decode_id_def read_written [OF L])

lemma decode_encode_record:
  assumes L: "cbor_laws cb" and wf: "record_wf env r"
  shows "decode_record env cb (encode_record cb r @ rest) = Inr (r, rest)"
proof -
  have n: "valid_utf8 (name_str (sr_name r))" "length (name_str (sr_name r)) < 2 ^ 64"
    and l: "length (sr_fields r) \<le> MAX_FIELDS_PER_RECORD" "sr_fields r \<noteq> []"
    using wf by (auto simp: record_wf_def name_wf_def valid_secret_name_def)
  have u: "unat (of_nat (length (sr_fields r)) :: u64) = length (sr_fields r)"
    using l by (intro unat_small) (simp add: MAX_FIELDS_PER_RECORD_def)
  have "decode_many (decode_field cb) (length (sr_fields r))
      (concat (map (encode_field cb) (sr_fields r)) @ rest) = Inr (sr_fields r, rest)"
    using wf by (intro decode_many_map decode_encode_field [OF L])
      (auto simp: record_wf_def list_all_iff)
  with n l u from_parts_self [OF wf] show ?thesis
    by (simp add: decode_record_def encode_record_def read_written [OF L] decode_encode_id [OF L]
        definite_len_Inr)
qed

definition unknown_wf :: "cbor \<Rightarrow> (u64 \<times> byte list) list \<Rightarrow> bool" where
  "unknown_wf cb us =
     (sorted_wrt (<) (map fst us) \<and>
      list_all (\<lambda>(k, raw). 3 < k \<and> cb_skip cb raw = Some [] \<and> is_canonical_unknown_value cb raw) us)"

definition payload_wf :: "text_env \<Rightarrow> cbor \<Rightarrow> vault_payload \<Rightarrow> bool" where
  "payload_wf env cb p =
     (length (vp_records p) \<le> MAX_RECORDS \<and> distinct (map sr_id (vp_records p)) \<and>
      distinct (map sr_name (vp_records p)) \<and> list_all (record_wf env) (vp_records p) \<and>
      length (vp_unknown p) \<le> MAX_RECORDS \<and> unknown_wf cb (vp_unknown p))"

lemma btree_insert_last: "\<forall>x \<in> set m. fst x < k \<Longrightarrow> btree_insert k v m = m @ [(k, v)]"
  by (induction m) auto

lemma skip_self_delimiting:
  "cbor_laws cb \<Longrightarrow> cb_skip cb raw = Some [] \<Longrightarrow> cb_skip cb (raw @ rest) = Some rest"
  unfolding cbor_laws_def by (metis append_Nil2)

lemma decode_unknown_entry:
  assumes L: "cbor_laws cb" and k: "3 < k" "cb_skip cb raw = Some []" "is_canonical_unknown_value cb raw"
    and prev: "\<forall>pk. ds_previous_key ds = Some pk \<longrightarrow> pk < k"
    and above: "\<forall>x \<in> set (ds_unknown ds). fst x < k"
  shows "decode_entry env cb ds (cb_write cb (VU64 k) @ raw @ rest) =
     Inr (ds\<lparr>ds_unknown := ds_unknown ds @ [(k, raw)], ds_previous_key := Some k\<rparr>, rest)"
proof -
  have "\<not> k \<le> 3" "k \<noteq> 0" "k \<noteq> 1" "k \<noteq> 2" "k \<noteq> 3" using k(1) by auto
  moreover have "\<not> (case ds_previous_key ds of Some previous \<Rightarrow> k \<le> previous | None \<Rightarrow> False)"
    using prev by (auto split: option.splits)
  ultimately show ?thesis
    using k above skip_self_delimiting [OF L k(2), of rest]
    by (simp add: decode_entry_def decode_value_def read_written [OF L] btree_insert_last Let_def)
qed

lemma decode_unknown_entries:
  assumes L: "cbor_laws cb" and us: "unknown_wf cb us"
    and prev: "\<forall>pk \<in> set_option (ds_previous_key ds). \<forall>x \<in> set us. pk < fst x"
    and above: "\<forall>y \<in> set (ds_unknown ds). \<forall>x \<in> set us. fst y < fst x"
  shows "\<exists>pk. decode_entries env cb (length us) ds
       (concat (map (\<lambda>(k, raw). cb_write cb (VU64 k) @ raw) us) @ rest) =
     Inr (ds\<lparr>ds_unknown := ds_unknown ds @ us, ds_previous_key := pk\<rparr>, rest)"
  using us prev above
proof (induction us arbitrary: ds)
  case Nil
  then show ?case by (intro exI [of _ "ds_previous_key ds"]) simp
next
  case (Cons u us)
  obtain k raw where u: "u = (k, raw)" by (cases u)
  let ?ds = "ds\<lparr>ds_unknown := ds_unknown ds @ [(k, raw)], ds_previous_key := Some k\<rparr>"
  have wf: "unknown_wf cb us" and k: "3 < k" "cb_skip cb raw = Some []" "is_canonical_unknown_value cb raw"
    "\<forall>x \<in> set us. k < fst x"
    using Cons.prems(1) by (auto simp: unknown_wf_def u)
  have "decode_entry env cb ds (cb_write cb (VU64 k) @ raw @ r) = Inr (?ds, r)" for r
    using Cons.prems(2,3) k(1,2,3) by (intro decode_unknown_entry [OF L]) (auto simp: u)
  moreover have "\<exists>pk. decode_entries env cb (length us) ?ds
      (concat (map (\<lambda>(k, raw). cb_write cb (VU64 k) @ raw) us) @ rest) =
      Inr (?ds\<lparr>ds_unknown := ds_unknown ?ds @ us, ds_previous_key := pk\<rparr>, rest)"
    using wf k(4) Cons.prems(3) by (intro Cons.IH) (auto simp: u)
  ultimately show ?case by (auto simp: u)
qed

lemma decode_known_entries:
  assumes L: "cbor_laws cb" and wf: "payload_wf env cb p"
  shows "decode_entries env cb (Suc (Suc (Suc (Suc n)))) empty_decode_state
     (cb_write cb (VU8 0) @ cb_write cb (VBytes (id_as_bytes (vp_vault_id p))) @
      cb_write cb (VU8 1) @ cb_write cb (VU64 (vp_revision p)) @
      cb_write cb (VU8 2) @ cb_write cb (VArray (Some (of_nat (length (vp_records p))))) @
      concat (map (encode_record cb) (vp_records p)) @
      cb_write cb (VU8 3) @ cb_write cb (VMap (Some 1)) @
      cb_write cb (VU8 0) @ cb_write cb (VU32 (vp_idle_timeout p)) @ rest) =
    decode_entries env cb n
      \<lparr>ds_vault_id = Some (vp_vault_id p), ds_revision = Some (vp_revision p),
       ds_records = Some (vp_records p), ds_idle_timeout = Some (vp_idle_timeout p),
       ds_unknown = [], ds_previous_key = Some 3\<rparr> rest"
proof -
  have l: "length (vp_records p) \<le> MAX_RECORDS" using wf by (simp add: payload_wf_def)
  have u: "unat (of_nat (length (vp_records p)) :: u64) = length (vp_records p)"
    using l by (intro unat_small) (simp add: MAX_RECORDS_def)
  have r: "decode_records env cb (cb_write cb (VArray (Some (of_nat (length (vp_records p))))) @
      concat (map (encode_record cb) (vp_records p)) @ r) = Inr (vp_records p, r)" for r
    using l u wf decode_many_map [of "vp_records p" "decode_record env cb" "encode_record cb" r]
      decode_encode_record [OF L, of env]
    by (simp add: decode_records_def read_written [OF L] definite_len_Inr payload_wf_def list_all_iff)
  have s: "decode_settings cb (cb_write cb (VMap (Some 1)) @ cb_write cb (VU8 0) @
      cb_write cb (VU32 (vp_idle_timeout p)) @ r) = Inr (vp_idle_timeout p, r)" for r
    by (simp add: decode_settings_def read_written [OF L] definite_len_Inr)
  show ?thesis
    by (simp add: decode_entry_def decode_value_def read_written [OF L]
        decode_encode_id [OF L] r s empty_decode_state_def word_le_nat_alt)
qed


lemma assemble_wf:
  assumes "payload_wf env cb p"
  shows "assemble_payload \<lparr>ds_vault_id = Some (vp_vault_id p), ds_revision = Some (vp_revision p),
       ds_records = Some (vp_records p), ds_idle_timeout = Some (vp_idle_timeout p),
       ds_unknown = vp_unknown p, ds_previous_key = pk\<rparr> = Inr p"
  using assms by (simp add: assemble_payload_def new_vault_payload_def payload_wf_def)

lemma decode_encode:
  assumes L: "cbor_laws cb" and wf: "payload_wf env cb p" and e: "encode_payload cb p = Inr b"
  shows "decode_payload env cb b = Inr p"
proof -
  have b: "b = encode_body cb p" "length b \<le> MAX_VAULT_PAYLOAD_BYTES"
    using e by (auto simp: encode_payload_def Let_def split: if_splits)
  have l: "length (vp_unknown p) \<le> MAX_RECORDS" using wf by (simp add: payload_wf_def)
  have u: "unat (of_nat (4 + length (vp_unknown p)) :: u64) = 4 + length (vp_unknown p)"
    using l by (intro unat_small) (simp add: MAX_RECORDS_def)
  let ?ds = "\<lparr>ds_vault_id = Some (vp_vault_id p), ds_revision = Some (vp_revision p),
       ds_records = Some (vp_records p), ds_idle_timeout = Some (vp_idle_timeout p),
       ds_unknown = [], ds_previous_key = Some 3\<rparr>"
  have keys: "\<forall>x \<in> set (vp_unknown p). 3 < fst x"
    using wf by (auto simp: payload_wf_def unknown_wf_def list_all_iff)
  obtain pk where un: "decode_entries env cb (length (vp_unknown p)) ?ds
       (concat (map (\<lambda>(k, raw). cb_write cb (VU64 k) @ raw) (vp_unknown p))) =
     Inr (?ds\<lparr>ds_unknown := vp_unknown p, ds_previous_key := pk\<rparr>, [])"
    using decode_unknown_entries [OF L, of "vp_unknown p" ?ds env "[]"] keys wf
    by (auto simp: payload_wf_def)
  have four: "4 + length (vp_unknown p) = Suc (Suc (Suc (Suc (length (vp_unknown p)))))" by simp
  have "decode_entries env cb (4 + length (vp_unknown p)) empty_decode_state
      (drop (length (cb_write cb (VMap (Some (of_nat (4 + length (vp_unknown p))))))) b) =
      Inr (?ds\<lparr>ds_unknown := vp_unknown p, ds_previous_key := pk\<rparr>, [])"
    using decode_known_entries [OF L wf, where n = "length (vp_unknown p)"] un
    by (simp add: b encode_body_def four del: decode_entries.simps)
  moreover have "read_map cb b = Inr (Some (of_nat (4 + length (vp_unknown p))),
      drop (length (cb_write cb (VMap (Some (of_nat (4 + length (vp_unknown p))))))) b)"
    by (simp add: b encode_body_def read_written [OF L])
  ultimately show ?thesis
    using b(2) e l u assemble_wf [OF wf, of pk]
    by (simp add: decode_payload_def definite_len_Inr del: of_nat_add)
qed

lemma decode_reencodes:
  "decode_payload env cb b = Inr p \<Longrightarrow> encode_payload cb p = Inr b"
  by (auto simp: decode_payload_def result_simps split: if_splits)

section \<open>What is decoded is well formed\<close>

lemma law_str_utf8: "cbor_laws cb \<Longrightarrow> cb_read cb TString input = Some (VString s, rest) \<Longrightarrow> valid_utf8 s"
  unfolding cbor_laws_def by blast

lemma read_str_utf8: "cbor_laws cb \<Longrightarrow> read_str cb input = Inr (s, rest) \<Longrightarrow> valid_utf8 s"
  by (auto simp: read_str_def dest: law_str_utf8 split: option.splits cbor_value.splits)

lemma decode_field_wf: "decode_field cb input = Inr (f, rest) \<Longrightarrow> field_wf f"
  by (auto simp: decode_field_def result_simps parse_field_name_Inr new_secret_field_Inr field_wf_def
      split: if_splits)

lemma decode_many_wf:
  assumes "\<And>input x rest. dec input = Inr (x, rest) \<Longrightarrow> P x"
  shows "decode_many dec n input = Inr (xs, rest) \<Longrightarrow> list_all P xs"
  by (induction n arbitrary: input xs) (auto simp: result_simps intro: assms)

lemma decode_record_wf:
  assumes "text_laws env" and "cbor_laws cb" and "decode_record env cb input = Inr (r, rest)"
  shows "record_wf env r"
proof -
  from assms(3) obtain i name flds i4 i5 i7 i8 count where
    "read_str cb i4 = Inr (name, i5)" "decode_many (decode_field cb) count i7 = Inr (flds, i8)"
    "from_parts env i name flds = Inr r"
    by (auto simp: decode_record_def result_simps split: if_splits)
  then show ?thesis
    using assms(1) read_str_utf8 [OF assms(2)] decode_many_wf [of "decode_field cb" field_wf]
      decode_field_wf from_parts_wf by blast
qed

lemma decode_records_wf:
  assumes "text_laws env" and "cbor_laws cb" and "decode_records env cb input = Inr (rs, rest)"
  shows "list_all (record_wf env) rs"
  using assms(3) decode_many_wf [of "decode_record env cb" "record_wf env"] decode_record_wf [OF assms(1,2)]
  by (auto simp: decode_records_def result_simps)

definition known_count :: "decode_state \<Rightarrow> nat" where
  "known_count ds =
     (if ds_vault_id ds = None then 0 else 1) + (if ds_revision ds = None then 0 else 1) +
     (if ds_records ds = None then 0 else 1) + (if ds_idle_timeout ds = None then 0 else 1)"

definition decode_inv :: "text_env \<Rightarrow> cbor \<Rightarrow> nat \<Rightarrow> decode_state \<Rightarrow> bool" where
  "decode_inv env cb n ds =
     (length (ds_unknown ds) + known_count ds = n \<and> unknown_wf cb (ds_unknown ds) \<and>
      (\<forall>rs. ds_records ds = Some rs \<longrightarrow> list_all (record_wf env) rs) \<and>
      (\<forall>x \<in> set (ds_unknown ds). \<exists>pk. ds_previous_key ds = Some pk \<and> fst x \<le> pk))"

lemma skip_item:
  assumes "cbor_laws cb" and "cb_skip cb input = Some rest"
  shows "cb_skip cb (take (length input - length rest) input) = Some []"
proof -
  from assms obtain item where "input = item @ rest" "\<forall>rest'. cb_skip cb (item @ rest') = Some rest'"
    unfolding cbor_laws_def by blast
  then show ?thesis by (metis add_diff_cancel_right' append.right_neutral append_eq_conv_conj length_append)
qed

lemma decode_value_known:
  assumes "decode_value env cb key ds input = Inr (ds', rest)" and "key \<le> 3"
  shows "(\<exists>i. ds_vault_id ds = None \<and> ds' = ds\<lparr>ds_vault_id := Some i\<rparr>) \<or>
    (\<exists>n. ds_revision ds = None \<and> ds' = ds\<lparr>ds_revision := Some n\<rparr>) \<or>
    (\<exists>rs. ds_records ds = None \<and> decode_records env cb input = Inr (rs, rest) \<and>
        ds' = ds\<lparr>ds_records := Some rs\<rparr>) \<or>
    (\<exists>n. ds_idle_timeout ds = None \<and> ds' = ds\<lparr>ds_idle_timeout := Some n\<rparr>)"
  using assms by (auto simp: decode_value_def result_simps split: if_splits)

lemma decode_entry_inv:
  assumes L: "text_laws env" "cbor_laws cb" and inv: "decode_inv env cb n ds"
    and e: "decode_entry env cb ds input = Inr (ds', rest)"
  shows "decode_inv env cb (Suc n) ds'"
proof -
  from e obtain key i1 where key: "\<forall>pk. ds_previous_key ds = Some pk \<longrightarrow> pk < key"
    and v: "decode_value env cb key (ds\<lparr>ds_previous_key := Some key\<rparr>) i1 = Inr (ds', rest)"
    by (auto simp: decode_entry_def result_simps not_le split: if_splits option.splits)
  have old: "\<forall>x \<in> set (ds_unknown ds). fst x < key"
    using inv key by (fastforce simp: decode_inv_def)
  then have le: "\<forall>x \<in> set (ds_unknown ds). fst x \<le> key" by (auto intro: less_imp_le)
  show ?thesis
  proof (cases "key \<le> 3")
    case True
    have le': "\<forall>x \<in> set (ds_unknown ds). \<exists>pk. Some key = Some pk \<and> fst x \<le> pk" using le by blast
    note facts = inv [unfolded decode_inv_def] le'
    from decode_value_known [OF v True] show ?thesis
    proof (elim disjE exE conjE)
      fix rs
      assume "decode_records env cb i1 = Inr (rs, rest)"
      then have "list_all (record_wf env) rs" by (rule decode_records_wf [OF L])
      moreover assume "ds_records (ds\<lparr>ds_previous_key := Some key\<rparr>) = None"
        "ds' = ds\<lparr>ds_previous_key := Some key, ds_records := Some rs\<rparr>"
      ultimately show ?thesis using facts by (simp add: decode_inv_def known_count_def)
    qed (use facts in \<open>simp_all add: decode_inv_def known_count_def\<close>)
  next
    case False
    then have "key \<noteq> 0" "key \<noteq> 1" "key \<noteq> 2" "key \<noteq> 3" "3 < key" by auto
    with v old obtain r where r: "cb_skip cb i1 = Some r" and
      can: "is_canonical_unknown_value cb (take (length i1 - length r) i1)" and
      ds': "ds' = ds\<lparr>ds_previous_key := Some key,
                   ds_unknown := ds_unknown ds @ [(key, take (length i1 - length r) i1)]\<rparr>"
      by (auto simp: decode_value_def Let_def btree_insert_last split: if_splits option.splits)
    show ?thesis
      using inv old le \<open>3 < key\<close> can skip_item [OF L(2) r]
      by (auto simp: ds' decode_inv_def known_count_def unknown_wf_def sorted_wrt_append)
  qed
qed

lemma decode_entries_inv:
  assumes "text_laws env" "cbor_laws cb" and "decode_inv env cb k ds"
    and "decode_entries env cb n ds input = Inr (ds', rest)"
  shows "decode_inv env cb (k + n) ds'"
  using assms(3,4)
proof (induction n arbitrary: k ds input)
  case 0
  then show ?case by simp
next
  case (Suc n)
  then obtain ds1 i1 where "decode_entry env cb ds input = Inr (ds1, i1)"
    "decode_entries env cb n ds1 i1 = Inr (ds', rest)"
    by (auto simp: result_simps)
  with Suc.IH [of "Suc k" ds1 i1] decode_entry_inv [OF assms(1,2) Suc.prems(1)] show ?case by simp
qed

lemma decode_wf:
  assumes L: "text_laws env" "cbor_laws cb" and d: "decode_payload env cb b = Inr p"
  shows "payload_wf env cb p"
proof -
  from d obtain entries i1 ds where n: "definite_len (read_map cb b) (4 + MAX_RECORDS) = Inr (entries, i1)"
    and e: "decode_entries env cb entries empty_decode_state i1 = Inr (ds, [])"
    and a: "assemble_payload ds = Inr p"
    by (auto simp: decode_payload_def result_simps split: if_splits)
  have "decode_inv env cb 0 empty_decode_state"
    by (simp add: decode_inv_def empty_decode_state_def known_count_def unknown_wf_def)
  from decode_entries_inv [OF L this e] have inv: "decode_inv env cb entries ds" by simp
  have "entries \<le> 4 + MAX_RECORDS"
    using n by (auto simp: definite_len_def result_simps split: option.splits if_splits)
  with inv a show ?thesis
    by (auto simp: assemble_payload_def result_simps new_vault_payload_def payload_wf_def
        decode_inv_def known_count_def split: if_splits)
qed

end
