(* ===== verification/Ladon_Crypto.thy ===== *)
theory Ladon_Crypto
  imports Ladon_Codec
begin

text \<open>
  The encrypted vault file (\<open>crates/ladon-core/src/crypto.rs\<close>): its layout, the wrapped data key,
  creation, sealing, unlocking and the change of the passphrase.

  Argon2id and XChaCha20-Poly1305 are crates outside the repository: the record \<open>ciphers\<close> holds
  the derivation of a 32-byte key (from memory, passes, parallelism, passphrase and salt) and the
  authenticated encryption and decryption (of key, nonce, message and associated data), and
  \<open>cipher_laws\<close> is what the code relies on: keys have 32 bytes, a ciphertext is its message plus a
  16-byte tag and decrypts under the key, nonce and associated data it was made with. A
  \<open>RandomSource\<close> is a state \<open>'r\<close> and a function \<open>fill\<close> that fills a buffer of a given length. The sums
  of lengths that the code checks for overflow stay below \<open>2 ^ 33\<close> and are natural numbers here.
\<close>

record ciphers =
  argon2id :: "u32 \<Rightarrow> u32 \<Rightarrow> u32 \<Rightarrow> byte list \<Rightarrow> byte list \<Rightarrow> byte list option"
  aead_encrypt :: "byte list \<Rightarrow> byte list \<Rightarrow> byte list \<Rightarrow> byte list \<Rightarrow> byte list option"
  aead_decrypt :: "byte list \<Rightarrow> byte list \<Rightarrow> byte list \<Rightarrow> byte list \<Rightarrow> byte list option"

definition cipher_laws :: "ciphers \<Rightarrow> bool" where
  "cipher_laws c =
     ((\<forall>m p l pw salt k. argon2id c m p l pw salt = Some k \<longrightarrow> length k = 32) \<and>
      (\<forall>k n msg aad ct. aead_encrypt c k n msg aad = Some ct \<longrightarrow>
         length ct = length msg + 16 \<and> aead_decrypt c k n ct aad = Some msg))"

type_synonym 'r random_source = "nat \<Rightarrow> 'r \<Rightarrow> byte list res \<times> 'r"

definition random_laws :: "'r random_source \<Rightarrow> bool" where
  "random_laws fill = (\<forall>n r bs r'. fill n r = (Inr bs, r') \<longrightarrow> length bs = n)"

section \<open>Layout\<close>

definition MAGIC :: "byte list" where
  "MAGIC = ascii ''LADONV1'' @ [0]"

definition VERSION :: nat where "VERSION = 1"

definition FIXED_PREFIX_BYTES :: nat where "FIXED_PREFIX_BYTES = 14"

definition MAX_HEADER_BYTES :: nat where "MAX_HEADER_BYTES = 4 * 1024"

definition NONCE_BYTES :: nat where "NONCE_BYTES = 24"

definition KEY_BYTES :: nat where "KEY_BYTES = 32"

definition TAG_BYTES :: nat where "TAG_BYTES = 16"

definition WRAPPED_DEK_BYTES :: nat where "WRAPPED_DEK_BYTES = KEY_BYTES + TAG_BYTES"

definition WRAPPER_BYTES :: nat where "WRAPPER_BYTES = NONCE_BYTES + WRAPPED_DEK_BYTES"

definition PAYLOAD_FIXED_BYTES :: nat where "PAYLOAD_FIXED_BYTES = 8 + NONCE_BYTES + TAG_BYTES"

definition MAX_VAULT_FILE_BYTES :: nat where
  "MAX_VAULT_FILE_BYTES = FIXED_PREFIX_BYTES + MAX_HEADER_BYTES + WRAPPER_BYTES
     + PAYLOAD_FIXED_BYTES + MAX_VAULT_PAYLOAD_BYTES"

definition DEK_DOMAIN :: "byte list" where "DEK_DOMAIN = ascii ''ladon/dek/v1''"

definition PAYLOAD_DOMAIN :: "byte list" where "PAYLOAD_DOMAIN = ascii ''ladon/payload/v1''"

lemmas layout_defs = VERSION_def FIXED_PREFIX_BYTES_def MAX_HEADER_BYTES_def NONCE_BYTES_def
  KEY_BYTES_def TAG_BYTES_def WRAPPED_DEK_BYTES_def WRAPPER_BYTES_def PAYLOAD_FIXED_BYTES_def

record kdf_header =
  kh_memory_kib :: u32
  kh_passes :: u32
  kh_parallelism :: u32
  kh_salt :: "byte list"

record key_material =
  km_prefix :: "byte list"
  km_dek :: "byte list"

record unlocked_vault =
  uv_payload :: vault_payload
  uv_key_material :: key_material

text \<open>\<open>read_u16\<close>, \<open>read_u32\<close> and \<open>read_u64\<close>: \<open>k\<close> bytes at an offset, read big-endian.\<close>

definition read_be :: "nat \<Rightarrow> byte list \<Rightarrow> nat \<Rightarrow> nat res" where
  "read_be k input offset =
     (if offset + k \<le> length input then Inr (be_nat (slice offset (offset + k) input))
      else Inl InvalidVaultFile)"

section \<open>The header\<close>

definition encode_header_body :: "cbor \<Rightarrow> kdf_header \<Rightarrow> byte list" where
  "encode_header_body cb h =
     cb_write cb (VMap (Some 5)) @
     cb_write cb (VString (ascii ''kdf'')) @ cb_write cb (VString (ascii ''argon2id'')) @
     cb_write cb (VString (ascii ''salt'')) @ cb_write cb (VBytes (kh_salt h)) @
     cb_write cb (VString (ascii ''passes'')) @ cb_write cb (VU32 (kh_passes h)) @
     cb_write cb (VString (ascii ''memory_kib'')) @ cb_write cb (VU32 (kh_memory_kib h)) @
     cb_write cb (VString (ascii ''parallelism'')) @ cb_write cb (VU32 (kh_parallelism h))"

definition encode_header :: "cbor \<Rightarrow> kdf_header \<Rightarrow> byte list res" where
  "encode_header cb h =
     (let encoded = encode_header_body cb h in
      if length encoded > MAX_HEADER_BYTES then Inl InvalidVaultFile else Inr encoded)"

definition expect_key :: "cbor \<Rightarrow> str \<Rightarrow> byte list \<Rightarrow> byte list res" where
  "expect_key cb expected input =
     (case read_str cb input of
        Inr (s, rest) \<Rightarrow> if s = expected then Inr rest else Inl InvalidVaultFile
      | Inl _ \<Rightarrow> Inl InvalidVaultFile)"

definition valid_bounds :: "kdf_header \<Rightarrow> bool" where
  "valid_bounds h =
     (32 * 1024 \<le> unat (kh_memory_kib h) \<and> unat (kh_memory_kib h) \<le> 256 * 1024 \<and>
      1 \<le> unat (kh_passes h) \<and> unat (kh_passes h) \<le> 10 \<and>
      1 \<le> unat (kh_parallelism h) \<and> unat (kh_parallelism h) \<le> 16 \<and>
      16 \<le> length (kh_salt h) \<and> length (kh_salt h) \<le> 64)"

definition decode_header :: "cbor \<Rightarrow> byte list \<Rightarrow> kdf_header res" where
  "decode_header cb input =
     (if length input > MAX_HEADER_BYTES then Inl InvalidVaultFile else
      and_then (map_err InvalidVaultFile (read_map cb input)) (\<lambda>(n, i0).
      if n \<noteq> Some 5 then Inl InvalidVaultFile else
      and_then (expect_key cb (ascii ''kdf'') i0) (\<lambda>i1.
      and_then (expect_key cb (ascii ''argon2id'') i1) (\<lambda>i2.
      and_then (expect_key cb (ascii ''salt'') i2) (\<lambda>i3.
      and_then (map_err InvalidVaultFile (read_bytes cb i3)) (\<lambda>(salt, i4).
      and_then (expect_key cb (ascii ''passes'') i4) (\<lambda>i5.
      and_then (map_err InvalidVaultFile (read_u32 cb i5)) (\<lambda>(passes, i6).
      and_then (expect_key cb (ascii ''memory_kib'') i6) (\<lambda>i7.
      and_then (map_err InvalidVaultFile (read_u32 cb i7)) (\<lambda>(memory, i8).
      and_then (expect_key cb (ascii ''parallelism'') i8) (\<lambda>i9.
      and_then (map_err InvalidVaultFile (read_u32 cb i9)) (\<lambda>(parallelism, i10).
      let h = \<lparr>kh_memory_kib = memory, kh_passes = passes, kh_parallelism = parallelism,
               kh_salt = salt\<rparr> in
      if \<not> valid_bounds h \<or> i10 \<noteq> [] then Inl InvalidVaultFile else
      and_then (encode_header cb h) (\<lambda>encoded.
      if encoded \<noteq> input then Inl InvalidVaultFile else Inr h)))))))))))))"

section \<open>Keys\<close>

definition derive_kek :: "ciphers \<Rightarrow> byte list \<Rightarrow> kdf_header \<Rightarrow> byte list res" where
  "derive_kek c passphrase h =
     ok_or InvalidVaultFile
       (argon2id c (kh_memory_kib h) (kh_passes h) (kh_parallelism h) passphrase (kh_salt h))"

definition encrypt :: "ciphers \<Rightarrow> byte list \<Rightarrow> byte list \<Rightarrow> byte list \<Rightarrow> byte list \<Rightarrow> byte list res" where
  "encrypt c key nonce plaintext aad =
     (if length key \<noteq> KEY_BYTES then Inl InvalidVaultFile
      else ok_or InvalidVaultFile (aead_encrypt c key nonce plaintext aad))"

definition decrypt :: "ciphers \<Rightarrow> byte list \<Rightarrow> byte list \<Rightarrow> byte list \<Rightarrow> byte list \<Rightarrow> byte list res" where
  "decrypt c key nonce ciphertext aad =
     (if length key \<noteq> KEY_BYTES then Inl VaultAuthenticationFailed
      else ok_or VaultAuthenticationFailed (aead_decrypt c key nonce ciphertext aad))"

definition associated_data :: "byte list \<Rightarrow> byte list \<Rightarrow> byte list" where
  "associated_data domain bs = domain @ bs"

definition default_header :: "byte list \<Rightarrow> kdf_header" where
  "default_header salt =
     \<lparr>kh_memory_kib = 64 * 1024, kh_passes = 3, kh_parallelism = 4, kh_salt = salt\<rparr>"

text \<open>A step that uses the random source.\<close>

definition bind_random ::
    "'a res \<times> 'r \<Rightarrow> ('a \<Rightarrow> 'r \<Rightarrow> 'b res \<times> 'r) \<Rightarrow> 'b res \<times> 'r" where
  "bind_random x f = (case x of (Inl e, r) \<Rightarrow> (Inl e, r) | (Inr a, r) \<Rightarrow> f a r)"

lemma bind_random_Inr:
  "bind_random x f = (Inr b, r') \<longleftrightarrow> (\<exists>a r. x = (Inr a, r) \<and> f a r = (Inr b, r'))"
  by (cases x; cases "fst x") (auto simp: bind_random_def)

definition prefix_before_dek :: "byte list \<Rightarrow> byte list" where
  "prefix_before_dek encoded_header =
     MAGIC @ be_bytes 2 VERSION @ be_bytes 4 (length encoded_header) @ encoded_header"

definition new_key_material ::
    "cbor \<Rightarrow> ciphers \<Rightarrow> 'r random_source \<Rightarrow> byte list \<Rightarrow> 'r \<Rightarrow> key_material res \<times> 'r" where
  "new_key_material cb c fill passphrase r0 =
     bind_random (fill 16 r0) (\<lambda>salt r1.
       let h = default_header salt in
       bind_random (encode_header cb h, r1) (\<lambda>encoded_header r2.
         if length encoded_header \<ge> 2 ^ 32 then (Inl InvalidVaultFile, r2) else
         let prefix = prefix_before_dek encoded_header in
         bind_random (fill KEY_BYTES r2) (\<lambda>dek r3.
         bind_random (derive_kek c passphrase h, r3) (\<lambda>kek r4.
         bind_random (fill NONCE_BYTES r4) (\<lambda>nonce r5.
         bind_random (encrypt c kek nonce dek (associated_data DEK_DOMAIN prefix), r5) (\<lambda>wrapped r6.
           (Inr \<lparr>km_prefix = prefix @ nonce @ wrapped, km_dek = dek\<rparr>, r6)))))))"

definition seal_payload ::
    "cbor \<Rightarrow> ciphers \<Rightarrow> 'r random_source \<Rightarrow> vault_payload \<Rightarrow> key_material \<Rightarrow> 'r \<Rightarrow> byte list res \<times> 'r" where
  "seal_payload cb c fill payload km r0 =
     bind_random (encode_payload cb payload, r0) (\<lambda>plaintext r1.
       if length plaintext \<ge> 2 ^ 64 then (Inl InvalidVaultFile, r1) else
       let output = km_prefix km @ be_bytes 8 (length plaintext) in
       bind_random (fill NONCE_BYTES r1) (\<lambda>nonce r2.
       bind_random (encrypt c (km_dek km) nonce plaintext (associated_data PAYLOAD_DOMAIN output), r2)
         (\<lambda>encrypted r3. (Inr (output @ nonce @ encrypted), r3))))"

definition create_vault_with_random ::
    "cbor \<Rightarrow> ciphers \<Rightarrow> 'r random_source \<Rightarrow> vault_payload \<Rightarrow> byte list \<Rightarrow> 'r \<Rightarrow>
       (unlocked_vault \<times> byte list) res \<times> 'r" where
  "create_vault_with_random cb c fill payload passphrase r0 =
     bind_random (new_key_material cb c fill passphrase r0) (\<lambda>km r1.
     bind_random (seal_payload cb c fill payload km r1) (\<lambda>encrypted r2.
       (Inr (\<lparr>uv_payload = payload, uv_key_material = km\<rparr>, encrypted), r2)))"

definition seal :: "cbor \<Rightarrow> ciphers \<Rightarrow> 'r random_source \<Rightarrow> unlocked_vault \<Rightarrow> 'r \<Rightarrow> byte list res \<times> 'r" where
  "seal cb c fill uv r = seal_payload cb c fill (uv_payload uv) (uv_key_material uv) r"

section \<open>Unlocking\<close>

record parsed_file =
  pf_header :: kdf_header
  pf_prefix_before_dek :: "byte list"
  pf_dek_nonce :: "byte list"
  pf_wrapped_dek :: "byte list"
  pf_prefix_through_dek_tag :: "byte list"
  pf_prefix_through_payload_len :: "byte list"
  pf_payload_nonce :: "byte list"
  pf_encrypted_payload :: "byte list"

definition parse_file :: "cbor \<Rightarrow> byte list \<Rightarrow> parsed_file res" where
  "parse_file cb file =
     (if length file < FIXED_PREFIX_BYTES + WRAPPER_BYTES + PAYLOAD_FIXED_BYTES then Inl InvalidVaultFile
      else if take (length MAGIC) file \<noteq> MAGIC then Inl InvalidVaultFile else
      and_then (read_be 2 file 8) (\<lambda>version.
      if version \<noteq> VERSION then Inl UnsupportedVaultVersion else
      and_then (read_be 4 file 10) (\<lambda>header_len.
      if header_len > MAX_HEADER_BYTES then Inl InvalidVaultFile else
      let header_end = FIXED_PREFIX_BYTES + header_len;
          prefix_end = header_end + WRAPPER_BYTES;
          payload_len_end = prefix_end + 8 in
      if payload_len_end > length file then Inl InvalidVaultFile else
      and_then (decode_header cb (slice FIXED_PREFIX_BYTES header_end file)) (\<lambda>header.
      and_then (read_be 8 file prefix_end) (\<lambda>payload_len.
      if payload_len > MAX_VAULT_PAYLOAD_BYTES then Inl InvalidVaultFile
      else if payload_len_end + NONCE_BYTES + payload_len + TAG_BYTES \<noteq> length file
      then Inl InvalidVaultFile
      else Inr \<lparr>pf_header = header,
                pf_prefix_before_dek = take header_end file,
                pf_dek_nonce = slice header_end (header_end + NONCE_BYTES) file,
                pf_wrapped_dek = slice (header_end + NONCE_BYTES) prefix_end file,
                pf_prefix_through_dek_tag = take prefix_end file,
                pf_prefix_through_payload_len = take payload_len_end file,
                pf_payload_nonce = slice payload_len_end (payload_len_end + NONCE_BYTES) file,
                pf_encrypted_payload = drop (payload_len_end + NONCE_BYTES) file\<rparr>)))))"

definition unlock_vault ::
    "text_env \<Rightarrow> cbor \<Rightarrow> ciphers \<Rightarrow> byte list \<Rightarrow> byte list \<Rightarrow> unlocked_vault res" where
  "unlock_vault env cb c file passphrase =
     and_then (parse_file cb file) (\<lambda>pf.
     and_then (derive_kek c passphrase (pf_header pf)) (\<lambda>kek.
     and_then (map_err VaultAuthenticationFailed (decrypt c kek (pf_dek_nonce pf) (pf_wrapped_dek pf)
         (associated_data DEK_DOMAIN (pf_prefix_before_dek pf)))) (\<lambda>dek.
     if length dek \<noteq> KEY_BYTES then Inl VaultAuthenticationFailed else
     and_then (map_err VaultAuthenticationFailed (decrypt c dek (pf_payload_nonce pf)
         (pf_encrypted_payload pf)
         (associated_data PAYLOAD_DOMAIN (pf_prefix_through_payload_len pf)))) (\<lambda>plaintext.
     and_then (map_err VaultAuthenticationFailed (decode_payload env cb plaintext)) (\<lambda>payload.
       Inr \<lparr>uv_payload = payload,
            uv_key_material = \<lparr>km_prefix = pf_prefix_through_dek_tag pf, km_dek = dek\<rparr>\<rparr>)))))"

section \<open>Changing the passphrase\<close>

definition verify_current_passphrase ::
    "cbor \<Rightarrow> ciphers \<Rightarrow> key_material \<Rightarrow> byte list \<Rightarrow> unit res" where
  "verify_current_passphrase cb c km passphrase =
     (let prefix = km_prefix km in
      and_then (read_be 4 prefix 10) (\<lambda>header_len.
      let header_end = FIXED_PREFIX_BYTES + header_len in
      if length prefix \<noteq> header_end + WRAPPER_BYTES then Inl InvalidVaultFile else
      and_then (decode_header cb (slice FIXED_PREFIX_BYTES header_end prefix)) (\<lambda>header.
      let nonce = slice header_end (header_end + NONCE_BYTES) prefix;
          wrapped = drop (header_end + NONCE_BYTES) prefix in
      and_then (derive_kek c passphrase header) (\<lambda>kek.
      and_then (map_err VaultAuthenticationFailed (decrypt c kek nonce wrapped
          (associated_data DEK_DOMAIN (take header_end prefix)))) (\<lambda>candidate.
      if length candidate \<noteq> KEY_BYTES then Inl VaultAuthenticationFailed else Inr ())))))"

definition rotate_passphrase ::
    "cbor \<Rightarrow> ciphers \<Rightarrow> 'r random_source \<Rightarrow> byte list \<Rightarrow> byte list \<Rightarrow> unlocked_vault \<Rightarrow> 'r \<Rightarrow>
       byte list res \<times> unlocked_vault \<times> 'r" where
  "rotate_passphrase cb c fill current_pass new_pass uv r0 =
     (case verify_current_passphrase cb c (uv_key_material uv) current_pass of
        Inl e \<Rightarrow> (Inl e, uv, r0)
      | Inr _ \<Rightarrow>
          (case new_key_material cb c fill new_pass r0 of
             (Inl e, r1) \<Rightarrow> (Inl e, uv, r1)
           | (Inr km, r1) \<Rightarrow>
               (case seal_payload cb c fill (uv_payload uv) km r1 of
                  (Inl e, r2) \<Rightarrow> (Inl e, uv, r2)
                | (Inr encrypted, r2) \<Rightarrow> (Inr encrypted, uv\<lparr>uv_key_material := km\<rparr>, r2))))"

section \<open>Headers read back\<close>

lemma ascii_constants [simp]:
  "valid_utf8 (ascii ''kdf'')" "valid_utf8 (ascii ''argon2id'')" "valid_utf8 (ascii ''salt'')"
  "valid_utf8 (ascii ''passes'')" "valid_utf8 (ascii ''memory_kib'')" "valid_utf8 (ascii ''parallelism'')"
  by (rule ascii_valid_utf8, simp add: ascii_def)+

lemma expect_key_written:
  assumes "cbor_laws cb" and "valid_utf8 s" and "length s < 2 ^ 64"
  shows "expect_key cb s (cb_write cb (VString s) @ rest) = Inr rest"
  using read_written(8) [OF assms] by (simp add: expect_key_def)

lemma decode_encode_header:
  assumes L: "cbor_laws cb" and b: "valid_bounds h" and e: "encode_header cb h = Inr eh"
  shows "decode_header cb eh = Inr h"
proof -
  have eh: "eh = encode_header_body cb h" "length eh \<le> MAX_HEADER_BYTES"
    using e by (auto simp: encode_header_def Let_def split: if_splits)
  have eta: "\<lparr>kh_memory_kib = kh_memory_kib h, kh_passes = kh_passes h,
      kh_parallelism = kh_parallelism h, kh_salt = kh_salt h\<rparr> = h" by (cases h) simp
  have "length (kh_salt h) < 2 ^ 64" using b by (simp add: valid_bounds_def)
  then show ?thesis
    using b e eh(2) read_written(2) [OF L, of "kh_parallelism h" "[]"]
    by (simp add: decode_header_def eh(1) encode_header_body_def read_written [OF L]
        expect_key_written [OF L] eta Let_def)
qed

lemma default_header_bounds: "length salt = 16 \<Longrightarrow> valid_bounds (default_header salt)"
  by (simp add: valid_bounds_def default_header_def)

section \<open>Key material that opens with a passphrase\<close>

text \<open>
  \<open>wraps\<close> holds when the prefix carries a valid header, a nonce and the data key wrapped under the
  key derived from the passphrase. Creation, unlocking and a change of the passphrase establish
  it, and it is what unlocking and the check of the current passphrase need.
\<close>

definition wraps :: "cbor \<Rightarrow> ciphers \<Rightarrow> byte list \<Rightarrow> key_material \<Rightarrow> kdf_header \<Rightarrow> byte list \<Rightarrow> byte list \<Rightarrow> byte list \<Rightarrow> bool" where
  "wraps cb c passphrase km h eh nonce wrapped =
     (valid_bounds h \<and> encode_header cb h = Inr eh \<and> length nonce = NONCE_BYTES \<and>
      length wrapped = WRAPPED_DEK_BYTES \<and> length (km_dek km) = KEY_BYTES \<and>
      km_prefix km = prefix_before_dek eh @ nonce @ wrapped \<and>
      (\<exists>kek. derive_kek c passphrase h = Inr kek \<and>
         decrypt c kek nonce wrapped (associated_data DEK_DOMAIN (prefix_before_dek eh)) = Inr (km_dek km)))"

definition opens_with :: "cbor \<Rightarrow> ciphers \<Rightarrow> byte list \<Rightarrow> key_material \<Rightarrow> bool" where
  "opens_with cb c passphrase km = (\<exists>h eh nonce wrapped. wraps cb c passphrase km h eh nonce wrapped)"

lemma slice_mid: "length a = i \<Longrightarrow> i + length b = j \<Longrightarrow> slice i j (a @ b @ rest) = b"
  by (simp add: slice_def)

lemma read_be_mid:
  "length a = i \<Longrightarrow> n < 256 ^ k \<Longrightarrow> read_be k (a @ be_bytes k n @ rest) i = Inr n"
  by (simp add: read_be_def slice_mid)

lemma encode_header_length: "encode_header cb h = Inr eh \<Longrightarrow> length eh \<le> 4096"
  by (auto simp: encode_header_def Let_def MAX_HEADER_BYTES_def split: if_splits)

lemma length_MAGIC [simp]: "length MAGIC = 8"
  by (simp add: MAGIC_def)

lemma length_prefix [simp]: "length (prefix_before_dek eh) = 14 + length eh"
  by (simp add: prefix_before_dek_def)

lemma prefix_reads:
  assumes "length eh \<le> 4096"
  shows "take 8 (prefix_before_dek eh @ rest) = MAGIC"
    "read_be 2 (prefix_before_dek eh @ rest) 8 = Inr 1"
    "read_be 4 (prefix_before_dek eh @ rest) 10 = Inr (length eh)"
    "slice 14 (14 + length eh) (prefix_before_dek eh @ rest) = eh"
proof -
  show "take 8 (prefix_before_dek eh @ rest) = MAGIC" by (simp add: prefix_before_dek_def)
  have "read_be 2 (MAGIC @ be_bytes 2 1 @ r) 8 = Inr 1" for r by (rule read_be_mid) simp_all
  then show "read_be 2 (prefix_before_dek eh @ rest) 8 = Inr 1"
    by (simp add: prefix_before_dek_def VERSION_def del: be_bytes.simps)
  have "read_be 4 ((MAGIC @ be_bytes 2 VERSION) @ be_bytes 4 (length eh) @ r) 10 = Inr (length eh)" for r
    using assms by (intro read_be_mid) simp_all
  then show "read_be 4 (prefix_before_dek eh @ rest) 10 = Inr (length eh)"
    by (simp add: prefix_before_dek_def del: be_bytes.simps)
  have "slice 14 (14 + length eh) ((MAGIC @ be_bytes 2 VERSION @ be_bytes 4 (length eh)) @ eh @ rest) = eh"
    by (rule slice_mid) simp_all
  then show "slice 14 (14 + length eh) (prefix_before_dek eh @ rest) = eh"
    by (simp add: prefix_before_dek_def del: be_bytes.simps)
qed

lemma new_key_material_opens:
  assumes L: "cipher_laws c" and R: "random_laws fill"
    and n: "new_key_material cb c fill passphrase r = (Inr km, r')"
  shows "opens_with cb c passphrase km"
proof -
  from n obtain salt eh dek kek nonce wrapped r0 r1 r2 r3 r4 r5 where
    s: "fill 16 r0 = (Inr salt, r1)" "encode_header cb (default_header salt) = Inr eh"
      "fill KEY_BYTES r2 = (Inr dek, r3)" "derive_kek c passphrase (default_header salt) = Inr kek"
      "fill NONCE_BYTES r4 = (Inr nonce, r5)" and
    e: "encrypt c kek nonce dek (associated_data DEK_DOMAIN (prefix_before_dek eh)) = Inr wrapped" and
    km: "km = \<lparr>km_prefix = prefix_before_dek eh @ nonce @ wrapped, km_dek = dek\<rparr>"
    by (auto simp: new_key_material_def bind_random_Inr Let_def split: if_splits)
  have l: "length salt = 16" "length dek = KEY_BYTES" "length nonce = NONCE_BYTES"
    using R s unfolding random_laws_def by blast+
  from e L have "length wrapped = length dek + 16"
    "decrypt c kek nonce wrapped (associated_data DEK_DOMAIN (prefix_before_dek eh)) = Inr dek"
    by (auto simp: encrypt_def decrypt_def cipher_laws_def result_simps split: if_splits)
  with l s km have "wraps cb c passphrase km (default_header salt) eh nonce wrapped"
    by (simp add: wraps_def default_header_bounds WRAPPED_DEK_BYTES_def TAG_BYTES_def)
  then show ?thesis by (auto simp: opens_with_def)
qed

lemma parse_sealed:
  assumes L: "cbor_laws cb" and w: "wraps cb c passphrase km h eh nonce wrapped"
    and l: "n \<le> MAX_VAULT_PAYLOAD_BYTES" "length pnonce = NONCE_BYTES" "length enc = n + TAG_BYTES"
  shows "parse_file cb (km_prefix km @ be_bytes 8 n @ pnonce @ enc) =
     Inr \<lparr>pf_header = h, pf_prefix_before_dek = prefix_before_dek eh, pf_dek_nonce = nonce,
          pf_wrapped_dek = wrapped, pf_prefix_through_dek_tag = km_prefix km,
          pf_prefix_through_payload_len = km_prefix km @ be_bytes 8 n,
          pf_payload_nonce = pnonce, pf_encrypted_payload = enc\<rparr>"
proof -
  let ?pre = "prefix_before_dek eh"
  let ?file = "?pre @ nonce @ wrapped @ be_bytes 8 n @ pnonce @ enc"
  have km: "km_prefix km = ?pre @ nonce @ wrapped" and le: "length nonce = 24" "length wrapped = 48"
    and eh: "length eh \<le> 4096" "decode_header cb eh = Inr h"
    using w decode_encode_header [OF L] encode_header_length by (auto simp: wraps_def layout_defs)
  note reads = prefix_reads [OF eh(1)]
  have n: "n < 256 ^ 8" using l(1) by (simp add: MAX_VAULT_PAYLOAD_BYTES_def)
  have payload_len: "read_be 8 ?file (14 + length eh + 72) = Inr n"
    using read_be_mid [OF _ n, of "?pre @ nonce @ wrapped" "14 + length eh + 72" "pnonce @ enc"] le
    by (simp del: be_bytes.simps)
  have slices: "slice (14 + length eh) (14 + length eh + 24) ?file = nonce"
    "slice (14 + length eh + 24) (14 + length eh + 72) ?file = wrapped"
    "slice (14 + length eh + 72 + 8) (14 + length eh + 72 + 8 + 24) ?file = pnonce"
    using slice_mid [of ?pre _ nonce _ "wrapped @ be_bytes 8 n @ pnonce @ enc"]
      slice_mid [of "?pre @ nonce" _ wrapped _ "be_bytes 8 n @ pnonce @ enc"]
      slice_mid [of "?pre @ nonce @ wrapped @ be_bytes 8 n" _ pnonce _ enc] le l(2)
    by (simp_all add: NONCE_BYTES_def del: be_bytes.simps)
  show ?thesis
    using reads [of "nonce @ wrapped @ be_bytes 8 n @ pnonce @ enc"] payload_len slices eh le l
    by (simp add: parse_file_def km layout_defs Let_def del: be_bytes.simps)
qed

lemma seal_payload_parts:
  assumes L: "cipher_laws c" and R: "random_laws fill"
    and s: "seal_payload cb c fill p km r = (Inr file, r')"
  shows "\<exists>plaintext nonce enc. encode_payload cb p = Inr plaintext \<and> length plaintext \<le> MAX_VAULT_PAYLOAD_BYTES \<and>
     length nonce = NONCE_BYTES \<and> length enc = length plaintext + TAG_BYTES \<and>
     file = km_prefix km @ be_bytes 8 (length plaintext) @ nonce @ enc \<and>
     decrypt c (km_dek km) nonce enc
       (associated_data PAYLOAD_DOMAIN (km_prefix km @ be_bytes 8 (length plaintext))) = Inr plaintext"
proof -
  from s obtain plaintext nonce enc r1 r2 where
    p: "encode_payload cb p = Inr plaintext" and n: "fill NONCE_BYTES r1 = (Inr nonce, r2)" and
    e: "encrypt c (km_dek km) nonce plaintext
       (associated_data PAYLOAD_DOMAIN (km_prefix km @ be_bytes 8 (length plaintext))) = Inr enc" and
    f: "file = km_prefix km @ be_bytes 8 (length plaintext) @ nonce @ enc"
    by (auto simp: seal_payload_def bind_random_Inr Let_def split: if_splits)
  have "length nonce = NONCE_BYTES" using R n unfolding random_laws_def by blast
  moreover have "length plaintext \<le> MAX_VAULT_PAYLOAD_BYTES"
    using p by (auto simp: encode_payload_def Let_def split: if_splits)
  moreover have "length enc = length plaintext + 16 \<and> decrypt c (km_dek km) nonce enc
       (associated_data PAYLOAD_DOMAIN (km_prefix km @ be_bytes 8 (length plaintext))) = Inr plaintext"
    using e L by (auto simp: encrypt_def decrypt_def cipher_laws_def result_simps split: if_splits)
  ultimately show ?thesis using p f by (auto simp: TAG_BYTES_def)
qed

lemma unlock_sealed:
  assumes L: "cbor_laws cb" "cipher_laws c" "random_laws fill"
    and o: "opens_with cb c passphrase km" and wf: "payload_wf env cb p"
    and s: "seal_payload cb c fill p km r = (Inr file, r')"
  shows "unlock_vault env cb c file passphrase = Inr \<lparr>uv_payload = p, uv_key_material = km\<rparr>"
proof -
  from o obtain h eh nonce wrapped where w: "wraps cb c passphrase km h eh nonce wrapped"
    by (auto simp: opens_with_def)
  from seal_payload_parts [OF L(2,3) s] obtain plaintext pnonce enc where
    e: "encode_payload cb p = Inr plaintext" and
    l: "length plaintext \<le> MAX_VAULT_PAYLOAD_BYTES" "length pnonce = NONCE_BYTES"
      "length enc = length plaintext + TAG_BYTES" and
    f: "file = km_prefix km @ be_bytes 8 (length plaintext) @ pnonce @ enc" and
    d: "decrypt c (km_dek km) pnonce enc
       (associated_data PAYLOAD_DOMAIN (km_prefix km @ be_bytes 8 (length plaintext))) = Inr plaintext"
    by blast
  have "decode_payload env cb plaintext = Inr p" using decode_encode [OF L(1) wf e] .
  with parse_sealed [OF L(1) w l] d w show ?thesis
    by (auto simp: unlock_vault_def f wraps_def)
qed

section \<open>What an accepted file looks like\<close>

lemma decode_header_Inr:
  "decode_header cb eh = Inr h \<Longrightarrow> valid_bounds h \<and> encode_header cb h = Inr eh"
  by (auto simp: decode_header_def result_simps Let_def split: if_splits)

lemma read_be_Inr:
  "read_be k file i = Inr n \<Longrightarrow> i + k \<le> length file \<and> slice i (i + k) file = be_bytes k n"
  by (auto simp: read_be_def slice_def be_bytes_be_nat split: if_splits)

lemma slice_chain: "i \<le> j \<Longrightarrow> j \<le> length xs \<Longrightarrow> take j xs = take i xs @ slice i j xs"
  by (simp add: slice_def flip: take_add)

lemma take_slices:
  assumes "header_end = 14 + hl" "header_end \<le> length file"
  shows "take header_end file = take 8 file @ slice 8 10 file @ slice 10 14 file @ slice 14 header_end file"
  using assms slice_chain [of 8 10 "file"] slice_chain [of 10 14 "file"] slice_chain [of 14 header_end "file"]
  by simp

lemma parse_file_layout:
  assumes "parse_file cb file = Inr pf"
  shows "\<exists>eh n. encode_header cb (pf_header pf) = Inr eh \<and> valid_bounds (pf_header pf) \<and>
     pf_prefix_before_dek pf = prefix_before_dek eh \<and>
     length (pf_dek_nonce pf) = NONCE_BYTES \<and> length (pf_wrapped_dek pf) = WRAPPED_DEK_BYTES \<and>
     length (pf_payload_nonce pf) = NONCE_BYTES \<and> length (pf_encrypted_payload pf) = n + TAG_BYTES \<and>
     n \<le> MAX_VAULT_PAYLOAD_BYTES \<and>
     pf_prefix_through_dek_tag pf = prefix_before_dek eh @ pf_dek_nonce pf @ pf_wrapped_dek pf \<and>
     pf_prefix_through_payload_len pf = pf_prefix_through_dek_tag pf @ be_bytes 8 n \<and>
     file = pf_prefix_through_payload_len pf @ pf_payload_nonce pf @ pf_encrypted_payload pf"
proof -
  from assms obtain hl n where
    m: "take 8 file = MAGIC" and v: "read_be 2 file 8 = Inr 1" and hl: "read_be 4 file 10 = Inr hl" and
    len: "14 + hl + 72 + 8 \<le> length file" and h: "decode_header cb (slice 14 (14 + hl) file) = Inr (pf_header pf)" and
    n: "read_be 8 file (14 + hl + 72) = Inr n" "n \<le> MAX_VAULT_PAYLOAD_BYTES" "14 + hl + 72 + 8 + 24 + n + 16 = length file" and
    pf: "pf_prefix_before_dek pf = take (14 + hl) file"
      "pf_dek_nonce pf = slice (14 + hl) (14 + hl + 24) file"
      "pf_wrapped_dek pf = slice (14 + hl + 24) (14 + hl + 72) file"
      "pf_prefix_through_dek_tag pf = take (14 + hl + 72) file"
      "pf_prefix_through_payload_len pf = take (14 + hl + 72 + 8) file"
      "pf_payload_nonce pf = slice (14 + hl + 72 + 8) (14 + hl + 72 + 8 + 24) file"
      "pf_encrypted_payload pf = drop (14 + hl + 72 + 8 + 24) file"
    unfolding parse_file_def
    by (auto simp: result_simps layout_defs Let_def split: if_splits)
  let ?eh = "slice 14 (14 + hl) file"
  have leh: "length ?eh = hl" using len by (simp add: slice_def)
  have "take (14 + hl) file = MAGIC @ be_bytes 2 1 @ be_bytes 4 hl @ ?eh"
    using take_slices [of "14 + hl" hl "file"] m len read_be_Inr [OF v] read_be_Inr [OF hl]
    by (simp del: be_bytes.simps)
  then have pre: "take (14 + hl) file = prefix_before_dek ?eh"
    by (simp add: prefix_before_dek_def leh VERSION_def del: be_bytes.simps)
  have t1: "take (14 + hl + 72) file = take (14 + hl) file @ slice (14 + hl) (14 + hl + 24) file
      @ slice (14 + hl + 24) (14 + hl + 72) file"
    using slice_chain [of "14 + hl" "14 + hl + 24" "file"] slice_chain [of "14 + hl + 24" "14 + hl + 72" "file"] len
    by simp
  have t2: "take (14 + hl + 72 + 8) file = take (14 + hl + 72) file @ be_bytes 8 n"
    using slice_chain [of "14 + hl + 72" "14 + hl + 72 + 8" "file"] len read_be_Inr [OF n(1)]
    by (simp del: be_bytes.simps)
  have c: "take (14 + hl + 72 + 8 + 24) file =
      take (14 + hl + 72 + 8) file @ slice (14 + hl + 72 + 8) (14 + hl + 72 + 8 + 24) file"
    using n(3) by (intro slice_chain) simp_all
  have t3: "file = take (14 + hl + 72 + 8) file @ slice (14 + hl + 72 + 8) (14 + hl + 72 + 8 + 24) file
      @ drop (14 + hl + 72 + 8 + 24) file"
    unfolding append.assoc [symmetric] c [symmetric] append_take_drop_id by (rule refl)
  show ?thesis
  proof (intro exI [of _ ?eh] exI [of _ n] conjI)
    show "encode_header cb (pf_header pf) = Inr ?eh" "valid_bounds (pf_header pf)"
      using decode_header_Inr [OF h] by blast+
    show "pf_prefix_before_dek pf = prefix_before_dek ?eh" unfolding pf by (rule pre)
    show "pf_prefix_through_dek_tag pf = prefix_before_dek ?eh @ pf_dek_nonce pf @ pf_wrapped_dek pf"
      unfolding pf by (subst t1) (simp only: pre)
    show "pf_prefix_through_payload_len pf = pf_prefix_through_dek_tag pf @ be_bytes 8 n"
      unfolding pf by (rule t2)
    show "file = pf_prefix_through_payload_len pf @ pf_payload_nonce pf @ pf_encrypted_payload pf"
      unfolding pf by (rule t3)
  qed (use len n pf in \<open>simp_all add: layout_defs slice_def\<close>)
qed

lemma unlock_Inr:
  assumes u: "unlock_vault env cb c file passphrase = Inr uv"
  shows "\<exists>h eh nonce wrapped n pnonce enc plaintext.
     wraps cb c passphrase (uv_key_material uv) h eh nonce wrapped \<and>
     file = km_prefix (uv_key_material uv) @ be_bytes 8 n @ pnonce @ enc \<and>
     n \<le> MAX_VAULT_PAYLOAD_BYTES \<and> length pnonce = NONCE_BYTES \<and> length enc = n + TAG_BYTES \<and>
     decrypt c (km_dek (uv_key_material uv)) pnonce enc
       (associated_data PAYLOAD_DOMAIN (km_prefix (uv_key_material uv) @ be_bytes 8 n)) = Inr plaintext \<and>
     decode_payload env cb plaintext = Inr (uv_payload uv)"
proof -
  from u obtain pf kek dek plaintext where pf: "parse_file cb file = Inr pf" and
    k: "derive_kek c passphrase (pf_header pf) = Inr kek" and
    d: "decrypt c kek (pf_dek_nonce pf) (pf_wrapped_dek pf)
         (associated_data DEK_DOMAIN (pf_prefix_before_dek pf)) = Inr dek" "length dek = KEY_BYTES" and
    p: "decrypt c dek (pf_payload_nonce pf) (pf_encrypted_payload pf)
         (associated_data PAYLOAD_DOMAIN (pf_prefix_through_payload_len pf)) = Inr plaintext" and
    uv: "decode_payload env cb plaintext = Inr (uv_payload uv)"
      "uv_key_material uv = \<lparr>km_prefix = pf_prefix_through_dek_tag pf, km_dek = dek\<rparr>"
    by (auto simp: unlock_vault_def result_simps split: if_splits)
  from parse_file_layout [OF pf] obtain eh n where
    e: "encode_header cb (pf_header pf) = Inr eh" "valid_bounds (pf_header pf)" and
    l: "pf_prefix_before_dek pf = prefix_before_dek eh"
     "length (pf_dek_nonce pf) = NONCE_BYTES" "length (pf_wrapped_dek pf) = WRAPPED_DEK_BYTES" and
    pl: "length (pf_payload_nonce pf) = NONCE_BYTES" "length (pf_encrypted_payload pf) = n + TAG_BYTES"
     "n \<le> MAX_VAULT_PAYLOAD_BYTES" and
    t: "pf_prefix_through_dek_tag pf = prefix_before_dek eh @ pf_dek_nonce pf @ pf_wrapped_dek pf"
     "pf_prefix_through_payload_len pf = pf_prefix_through_dek_tag pf @ be_bytes 8 n"
     "file = pf_prefix_through_payload_len pf @ pf_payload_nonce pf @ pf_encrypted_payload pf"
    by blast
  have w: "wraps cb c passphrase (uv_key_material uv) (pf_header pf) eh (pf_dek_nonce pf) (pf_wrapped_dek pf)"
    using e l t(1) k d uv(2) by (simp add: wraps_def)
  show ?thesis
  proof (intro exI conjI)
    show "wraps cb c passphrase (uv_key_material uv) (pf_header pf) eh (pf_dek_nonce pf) (pf_wrapped_dek pf)"
      by (rule w)
    show "file = km_prefix (uv_key_material uv) @ be_bytes 8 n @ pf_payload_nonce pf @ pf_encrypted_payload pf"
      using t(2,3) uv(2) by (metis append.assoc key_material.select_convs(1))
    show "decrypt c (km_dek (uv_key_material uv)) (pf_payload_nonce pf) (pf_encrypted_payload pf)
       (associated_data PAYLOAD_DOMAIN (km_prefix (uv_key_material uv) @ be_bytes 8 n)) = Inr plaintext"
      using p uv(2) t(2) by simp
  qed (use pl uv(1) in simp_all)
qed

lemma verify_wraps:
  assumes L: "cbor_laws cb" and "opens_with cb c passphrase km"
  shows "verify_current_passphrase cb c km passphrase = Inr ()"
proof -
  from assms(2) obtain h eh nonce wrapped kek where w: "wraps cb c passphrase km h eh nonce wrapped"
    and k: "derive_kek c passphrase h = Inr kek"
      "decrypt c kek nonce wrapped (associated_data DEK_DOMAIN (prefix_before_dek eh)) = Inr (km_dek km)"
    by (auto simp: opens_with_def wraps_def)
  have km: "km_prefix km = prefix_before_dek eh @ nonce @ wrapped" and
    le: "length nonce = 24" "length wrapped = 48" "length (km_dek km) = 32" and
    eh: "length eh \<le> 4096" "decode_header cb eh = Inr h"
    using w decode_encode_header [OF L] encode_header_length by (auto simp: wraps_def layout_defs)
  show ?thesis
    using prefix_reads(3,4) [OF eh(1), of "nonce @ wrapped"] eh(2) k le
      slice_mid [of "prefix_before_dek eh" "14 + length eh" nonce _ wrapped]
    by (simp add: verify_current_passphrase_def km layout_defs Let_def)
qed

section \<open>Ciphers for evaluation\<close>

text \<open>A keyed checksum in place of the cipher: enough to evaluate the file format.\<close>

definition toy_ciphers :: ciphers where
  "toy_ciphers =
     \<lparr>argon2id = (\<lambda>m p l pw salt. Some (take 32 (pw @ salt @ replicate 32 0))),
      aead_encrypt = (\<lambda>k n msg aad. Some (msg @ take 16 (k @ replicate 16 0))),
      aead_decrypt = (\<lambda>k n ct aad.
        let msg = take (length ct - 16) ct in
        if 16 \<le> length ct \<and> drop (length ct - 16) ct = take 16 (k @ replicate 16 0) then Some msg else None)\<rparr>"

lemma toy_cipher_laws: "cipher_laws toy_ciphers"
  by (auto simp: cipher_laws_def toy_ciphers_def Let_def)

definition toy_fill :: "byte random_source" where
  "toy_fill n b = (Inr (replicate n b), b + 1)"

lemma toy_random_laws: "random_laws toy_fill"
  by (simp add: random_laws_def toy_fill_def)

end
