(* ===== verification/Ladon_Store.thy ===== *)
theory Ladon_Store
  imports Ladon_Crypto
begin

text \<open>
  The vault store (\<open>crates/ladon-core/src/store.rs\<close>): two managed copies of the vault file, the
  commit that replaces them one after the other, and opening.

  A disk maps the path of a file (its directory and its name) to the content. Every call into the
  file system comes with its outcome: it succeeds, or it fails, a failing write after a number of
  bytes. A rename and a removal that fail change nothing. The identifiers of the candidate files
  are arguments. File names are UTF-8; permissions and the Windows variant of the replacement are
  not modelled.
\<close>

type_synonym path = "str \<times> str"
type_synonym disk = "path \<rightharpoonup> byte list"

datatype io_outcome = IoOk | IoFails nat

record vault_store =
  vs_primary :: path
  vs_backup :: path

definition new_vault_store :: "path \<Rightarrow> vault_store" where
  "new_vault_store primary =
     \<lparr>vs_primary = primary, vs_backup = (fst primary, snd primary @ ascii ''.bak'')\<rparr>"

definition candidate_path :: "(uuid \<Rightarrow> str) \<Rightarrow> uuid \<Rightarrow> vault_store \<Rightarrow> path" where
  "candidate_path as_simple fresh store =
     (let filename = snd (vs_primary store) in
      (fst (vs_primary store),
       ascii ''.'' @ filename @ ascii ''.'' @ as_simple fresh @ ascii ''.candidate''))"

section \<open>Steps of a commit\<close>

definition write_candidate :: "path \<Rightarrow> byte list \<Rightarrow> io_outcome \<Rightarrow> disk \<Rightarrow> unit res \<times> disk" where
  "write_candidate p encrypted io d =
     (if d p \<noteq> None then (Inl StorageFailure, d)
      else case io of
        IoOk \<Rightarrow> (Inr (), d(p \<mapsto> encrypted))
      | IoFails n \<Rightarrow> (Inl StorageFailure, if n = 0 then d else d(p \<mapsto> take (n - 1) encrypted)))"

definition verify_candidate :: "path \<Rightarrow> byte list \<Rightarrow> io_outcome \<Rightarrow> disk \<Rightarrow> unit res \<times> disk" where
  "verify_candidate p expected io d =
     (case (io, d p) of
        (IoOk, Some actual) \<Rightarrow> (if actual = expected then Inr () else Inl StorageFailure, d)
      | _ \<Rightarrow> (Inl StorageFailure, d))"

definition atomic_replace :: "path \<Rightarrow> path \<Rightarrow> io_outcome \<Rightarrow> disk \<Rightarrow> unit res \<times> disk" where
  "atomic_replace candidate destination io d =
     (case (io, d candidate) of
        (IoOk, Some content) \<Rightarrow> (Inr (), d(candidate := None, destination \<mapsto> content))
      | _ \<Rightarrow> (Inl StorageFailure, d))"

definition sync_parent :: "path \<Rightarrow> io_outcome \<Rightarrow> disk \<Rightarrow> unit res \<times> disk" where
  "sync_parent p io d = (case io of IoOk \<Rightarrow> (Inr (), d) | IoFails _ \<Rightarrow> (Inl StorageFailure, d))"

definition remove_file :: "path \<Rightarrow> io_outcome \<Rightarrow> disk \<Rightarrow> disk" where
  "remove_file p io d = (case io of IoOk \<Rightarrow> d(p := None) | IoFails _ \<Rightarrow> d)"

type_synonym commit_step = "io_outcome \<Rightarrow> disk \<Rightarrow> unit res \<times> disk"

definition commit_steps :: "vault_store \<Rightarrow> path \<Rightarrow> path \<Rightarrow> byte list \<Rightarrow> commit_step list" where
  "commit_steps store first second encrypted =
     [write_candidate first encrypted, write_candidate second encrypted,
      verify_candidate first encrypted, verify_candidate second encrypted,
      atomic_replace first (vs_backup store), sync_parent (vs_primary store),
      atomic_replace second (vs_primary store), sync_parent (vs_primary store)]"

text \<open>The steps in sequence, ended by the first that fails (\<open>?\<close>); the outcomes come with the steps.\<close>

fun run_steps :: "(commit_step \<times> io_outcome) list \<Rightarrow> disk \<Rightarrow> unit res \<times> disk" where
  "run_steps [] d = (Inr (), d)"
| "run_steps ((step, io) # rest) d =
     (case step io d of
        (Inl e, d') \<Rightarrow> (Inl e, d')
      | (Inr _, d') \<Rightarrow> run_steps rest d')"

definition commit_encrypted ::
    "vault_store \<Rightarrow> path \<Rightarrow> path \<Rightarrow> io_outcome list \<Rightarrow> io_outcome \<Rightarrow> io_outcome \<Rightarrow> byte list \<Rightarrow> disk \<Rightarrow>
       unit res \<times> disk" where
  "commit_encrypted store first second ios io1 io2 encrypted d =
     (case run_steps (zip (commit_steps store first second encrypted) ios) d of
        (Inr _, d') \<Rightarrow> (Inr (), d')
      | (Inl e, d') \<Rightarrow> (Inl e, remove_file second io2 (remove_file first io1 d')))"

text \<open>\<open>VaultStore::commit\<close>: seal, then commit.\<close>

definition commit ::
    "cbor \<Rightarrow> ciphers \<Rightarrow> 'r random_source \<Rightarrow> vault_store \<Rightarrow> path \<Rightarrow> path \<Rightarrow> io_outcome list \<Rightarrow> io_outcome \<Rightarrow>
       io_outcome \<Rightarrow> unlocked_vault \<Rightarrow> 'r \<Rightarrow> disk \<Rightarrow> unit res \<times> 'r \<times> disk" where
  "commit cb c fill store first second ios io1 io2 uv r d =
     (case seal cb c fill uv r of
        (Inl e, r') \<Rightarrow> (Inl e, r', d)
      | (Inr encrypted, r') \<Rightarrow>
          (case commit_encrypted store first second ios io1 io2 encrypted d of (res, d') \<Rightarrow> (res, r', d')))"

section \<open>Opening\<close>

datatype vault_open =
    OpenPrimary unlocked_vault "unlocked_vault option"
  | RestoreRequired unlocked_vault

definition open_copy ::
    "text_env \<Rightarrow> cbor \<Rightarrow> ciphers \<Rightarrow> byte list \<Rightarrow> io_outcome \<Rightarrow> path \<Rightarrow> disk \<Rightarrow> unlocked_vault option" where
  "open_copy env cb c passphrase io p d =
     (case (io, d p) of
        (IoOk, Some bs) \<Rightarrow>
          if length bs > MAX_VAULT_FILE_BYTES then None
          else (case unlock_vault env cb c bs passphrase of Inr uv \<Rightarrow> Some uv | Inl _ \<Rightarrow> None)
      | _ \<Rightarrow> None)"

definition open_vault ::
    "text_env \<Rightarrow> cbor \<Rightarrow> ciphers \<Rightarrow> vault_store \<Rightarrow> byte list \<Rightarrow> io_outcome \<Rightarrow> io_outcome \<Rightarrow> disk \<Rightarrow> vault_open res" where
  "open_vault env cb c store passphrase io1 io2 d =
     (case (open_copy env cb c passphrase io1 (vs_primary store) d,
            open_copy env cb c passphrase io2 (vs_backup store) d) of
        (Some vault, Some backup) \<Rightarrow>
          Inr (OpenPrimary vault
            (if vp_vault_id (uv_payload backup) = vp_vault_id (uv_payload vault) \<and>
                vp_revision (uv_payload backup) > vp_revision (uv_payload vault)
             then Some backup else None))
      | (Some vault, None) \<Rightarrow> Inr (OpenPrimary vault None)
      | (None, Some backup) \<Rightarrow> Inr (RestoreRequired backup)
      | (None, None) \<Rightarrow> Inl VaultUnavailable)"

section \<open>Paths\<close>

lemma candidate_not_managed:
  assumes "store = new_vault_store primary"
  shows "candidate_path as_simple fresh store \<noteq> vs_primary store"
    and "candidate_path as_simple fresh store \<noteq> vs_backup store"
proof -
  have l: "length (snd (candidate_path as_simple fresh store)) > length (snd (vs_primary store)) + 4"
    by (simp add: candidate_path_def Let_def)
  moreover have "length (snd (vs_backup store)) = length (snd (vs_primary store)) + 4"
    by (simp add: assms new_vault_store_def)
  ultimately show "candidate_path as_simple fresh store \<noteq> vs_primary store"
    "candidate_path as_simple fresh store \<noteq> vs_backup store"
    by (metis less_add_same_cancel1 less_asym' trans_less_add1 add_less_same_cancel1 not_add_less1,
        metis less_irrefl)
qed

lemma managed_distinct: "vs_primary (new_vault_store primary) \<noteq> vs_backup (new_vault_store primary)"
  by (cases primary) (simp add: new_vault_store_def ascii_def)

section \<open>What a commit can leave behind\<close>

text \<open>
  The states of the two managed copies that a commit of \<open>new\<close> over \<open>d\<close> passes through: both old,
  the backup new, both new. \<open>staged\<close> adds that a candidate that was verified holds \<open>new\<close>.
\<close>

definition between :: "vault_store \<Rightarrow> byte list \<Rightarrow> disk \<Rightarrow> disk \<Rightarrow> bool" where
  "between store new d d' =
     ((d' (vs_primary store) = d (vs_primary store) \<and>
       (d' (vs_backup store) = d (vs_backup store) \<or> d' (vs_backup store) = Some new)) \<or>
      (d' (vs_primary store) = Some new \<and> d' (vs_backup store) = Some new))"

lemma run_steps_outline:
  assumes step: "\<And>i io d res d'. i < length steps \<Longrightarrow> A i d \<Longrightarrow> (steps ! i) io d = (res, d') \<Longrightarrow>
      safe d' \<and> (res = Inr () \<longrightarrow> A (Suc i) d')"
    and safe: "\<And>i d. A i d \<Longrightarrow> safe d"
  shows "A j d \<Longrightarrow> j \<le> length steps \<Longrightarrow> run_steps (zip (drop j steps) ios) d = (res, d') \<Longrightarrow>
     safe d' \<and> (res = Inr () \<longrightarrow> length ios = length steps - j \<longrightarrow> A (length steps) d')"
proof (induction ios arbitrary: j d)
  case Nil
  then show ?case using safe by (auto simp: le_antisym)
next
  case (Cons io ios)
  show ?case
  proof (cases "j < length steps")
    case False
    with Cons.prems safe show ?thesis by (auto simp: le_antisym)
  next
    case True
    obtain r d1 where s: "(steps ! j) io d = (r, d1)" by (cases "(steps ! j) io d")
    have z: "zip (drop j steps) (io # ios) = (steps ! j, io) # zip (drop (Suc j) steps) ios"
      using True by (simp add: Cons_nth_drop_Suc [symmetric])
    show ?thesis
    proof (cases r)
      case (Inl e)
      with Cons.prems(3) s z step [OF True Cons.prems(1) s] show ?thesis by auto
    next
      case (Inr u)
      with Cons.prems(3) s z have "run_steps (zip (drop (Suc j) steps) ios) d1 = (res, d')" by simp
      moreover have "A (Suc j) d1" using step [OF True Cons.prems(1) s] Inr by simp
      ultimately have "safe d' \<and> (res = Inr () \<longrightarrow> length ios = length steps - Suc j \<longrightarrow> A (length steps) d')"
        using True by (intro Cons.IH) simp_all
      then show ?thesis by auto
    qed
  qed
qed

text \<open>The assertions between the eight steps.\<close>

definition commit_assertion ::
    "vault_store \<Rightarrow> path \<Rightarrow> path \<Rightarrow> byte list \<Rightarrow> disk \<Rightarrow> nat \<Rightarrow> disk \<Rightarrow> bool" where
  "commit_assertion store first second new d i d' =
     (d' (vs_primary store) = (if i \<ge> 7 then Some new else d (vs_primary store)) \<and>
      d' (vs_backup store) = (if i \<ge> 5 then Some new else d (vs_backup store)) \<and>
      (1 \<le> i \<and> i \<le> 4 \<longrightarrow> d' first = Some new) \<and>
      (2 \<le> i \<and> i \<le> 6 \<longrightarrow> d' second = Some new \<and> first \<noteq> second) \<and>
      (5 \<le> i \<longrightarrow> d' first = None) \<and> (7 \<le> i \<longrightarrow> d' second = None))"

lemma assertion_between:
  "commit_assertion store first second new d i d' \<Longrightarrow> between store new d d'"
  by (auto simp: commit_assertion_def between_def)

lemma commit_step_sound:
  assumes p: "first \<noteq> vs_primary store" "first \<noteq> vs_backup store"
      "second \<noteq> vs_primary store" "second \<noteq> vs_backup store" "vs_primary store \<noteq> vs_backup store"
    and i: "i < length (commit_steps store first second new)"
    and a: "commit_assertion store first second new d i d1"
    and s: "(commit_steps store first second new ! i) io d1 = (res, d')"
  shows "between store new d d' \<and> (res = Inr () \<longrightarrow> commit_assertion store first second new d (Suc i) d')"
proof -
  have "i = 0 \<or> i = 1 \<or> i = 2 \<or> i = 3 \<or> i = 4 \<or> i = 5 \<or> i = 6 \<or> i = 7"
    using i by (simp add: commit_steps_def) linarith
  then show ?thesis
    using a s p
    by (elim disjE)
      (auto simp: commit_steps_def commit_assertion_def between_def write_candidate_def
        verify_candidate_def atomic_replace_def sync_parent_def split: io_outcome.splits option.splits if_splits)
qed

lemma commit_run:
  assumes p: "first \<noteq> vs_primary store" "first \<noteq> vs_backup store"
      "second \<noteq> vs_primary store" "second \<noteq> vs_backup store" "vs_primary store \<noteq> vs_backup store"
    and r: "run_steps (zip (commit_steps store first second new) ios) d = (res, d')"
  shows "between store new d d' \<and> (res = Inr () \<longrightarrow> length ios = 8 \<longrightarrow>
     commit_assertion store first second new d 8 d')"
proof -
  let ?steps = "commit_steps store first second new"
  have l: "length ?steps = 8" by (simp add: commit_steps_def)
  have "commit_assertion store first second new d 0 d" by (simp add: commit_assertion_def)
  moreover have "run_steps (zip (drop 0 ?steps) ios) d = (res, d')" using r by simp
  ultimately have "between store new d d' \<and> (res = Inr () \<longrightarrow> length ios = length ?steps - 0 \<longrightarrow>
      commit_assertion store first second new d (length ?steps) d')"
    by (intro run_steps_outline [where A = "commit_assertion store first second new d" and j = 0])
      (rule commit_step_sound [OF p], assumption+, rule assertion_between, assumption+, simp)
  then show ?thesis by (simp add: l)
qed

text \<open>Removing candidates never touches a managed copy.\<close>

lemma remove_between:
  "p \<noteq> vs_primary store \<Longrightarrow> p \<noteq> vs_backup store \<Longrightarrow> between store new d d' \<Longrightarrow>
     between store new d (remove_file p io d')"
  by (auto simp: between_def remove_file_def split: io_outcome.split)

end
