(* ===== verification/Ladon_Vault.thy ===== *)
theory Ladon_Vault
  imports Ladon_Store
begin

text \<open>
  The session on an unlocked vault (\<open>crates/ladon-core/src/vault.rs\<close>): listing, adding, renaming,
  replacing and deleting records, two-phase replacement, and access to a record or a field.

  The \<open>ActivitySink\<close> is the number of times it was called. A closure handed to the session is a
  function of what it is shown. \<open>Uuid::new_v4\<close> is an argument.
\<close>

record secret_metadata =
  smd_id :: secret_id
  smd_name :: str
  smd_field_names :: "str list"

record vault_session =
  vss_vault :: unlocked_vault
  vss_activity :: nat

record prepared_replacement =
  pr_expected_revision :: u64
  pr_target_id :: secret_id
  pr_replacement :: secret_record

abbreviation session_payload :: "vault_session \<Rightarrow> vault_payload" where
  "session_payload s \<equiv> uv_payload (vss_vault s)"

abbreviation session_records :: "vault_session \<Rightarrow> secret_record list" where
  "session_records s \<equiv> vp_records (session_payload s)"

definition new_vault_session :: "unlocked_vault \<Rightarrow> vault_session" where
  "new_vault_session uv = \<lparr>vss_vault = uv, vss_activity = 0\<rparr>"

definition session_revision :: "vault_session \<Rightarrow> u64" where
  "session_revision s = vp_revision (session_payload s)"

definition record_activity :: "vault_session \<Rightarrow> vault_session" where
  "record_activity s = s\<lparr>vss_activity := Suc (vss_activity s)\<rparr>"

definition set_payload :: "vault_payload \<Rightarrow> vault_session \<Rightarrow> vault_session" where
  "set_payload p s = s\<lparr>vss_vault := (vss_vault s)\<lparr>uv_payload := p\<rparr>\<rparr>"

section \<open>Lookup\<close>

fun matches :: "secret_ref \<Rightarrow> secret_record \<Rightarrow> bool" where
  "matches (RefName n) r = (sr_name r = n)"
| "matches (RefId i) r = (sr_id r = i)"

fun position :: "('a \<Rightarrow> bool) \<Rightarrow> 'a list \<Rightarrow> nat option" where
  "position P [] = None"
| "position P (x # xs) = (if P x then Some 0 else map_option Suc (position P xs))"

definition find_record_index :: "secret_record list \<Rightarrow> secret_ref \<Rightarrow> nat res" where
  "find_record_index recs reference = ok_or SecretNotFound (position (matches reference) recs)"

section \<open>Changes\<close>

text \<open>\<open>payload.increment_revision()?\<close>, the change of the records, and the activity. The second
  component is the session the caller keeps.\<close>

definition mutate :: "(secret_record list \<Rightarrow> secret_record list) \<Rightarrow> vault_session \<Rightarrow> unit res \<times> vault_session" where
  "mutate f s =
     (case increment_revision (session_payload s) of
        Inl e \<Rightarrow> (Inl e, s)
      | Inr p \<Rightarrow> (Inr (), record_activity (set_payload (p\<lparr>vp_records := f (vp_records p)\<rparr>) s)))"

definition other_has_name :: "nat \<Rightarrow> secret_name \<Rightarrow> secret_record list \<Rightarrow> bool" where
  "other_has_name target n recs =
     list_ex (\<lambda>(i, r). i \<noteq> target \<and> sr_name r = n) (enumerate 0 recs)"

definition with_record ::
    "secret_ref \<Rightarrow> (secret_record \<Rightarrow> 'r) \<Rightarrow> vault_session \<Rightarrow> 'r res \<times> vault_session" where
  "with_record reference operation s =
     (case find_record_index (session_records s) reference of
        Inl e \<Rightarrow> (Inl e, s)
      | Inr target \<Rightarrow> (Inr (operation (session_records s ! target)), record_activity s))"

definition prepare_record_replacement ::
    "text_env \<Rightarrow> secret_ref \<Rightarrow> str \<Rightarrow> secret_field list \<Rightarrow> vault_session \<Rightarrow> prepared_replacement res" where
  "prepare_record_replacement env reference new_name flds s =
     and_then (find_record_index (session_records s) reference) (\<lambda>target.
     let current_record = session_records s ! target in
     and_then (from_parts env (sr_id current_record) new_name flds) (\<lambda>replacement.
     if other_has_name target (sr_name replacement) (session_records s) then Inl DuplicateSecretName
     else Inr \<lparr>pr_expected_revision = session_revision s, pr_target_id = sr_id current_record,
               pr_replacement = replacement\<rparr>))"

definition apply_record_replacement ::
    "prepared_replacement \<Rightarrow> vault_session \<Rightarrow> unit res \<times> vault_session" where
  "apply_record_replacement prepared s =
     (if session_revision s \<noteq> pr_expected_revision prepared then (Inl InvalidRequest, s)
      else case find_record_index (session_records s) (RefId (pr_target_id prepared)) of
        Inl e \<Rightarrow> (Inl e, s)
      | Inr target \<Rightarrow> mutate (\<lambda>recs. recs[target := pr_replacement prepared]) s)"

definition list_records :: "vault_session \<Rightarrow> secret_metadata list" where
  "list_records s =
     map (\<lambda>r. \<lparr>smd_id = sr_id r, smd_name = name_str (sr_name r),
               smd_field_names = map (\<lambda>f. field_str (sf_name f)) (sr_fields r)\<rparr>) (session_records s)"

definition add ::
    "text_env \<Rightarrow> uuid \<Rightarrow> str \<Rightarrow> secret_field list \<Rightarrow> vault_session \<Rightarrow> secret_id res \<times> vault_session" where
  "add env fresh name flds s =
     (case new_secret_record env fresh name flds of
        Inl e \<Rightarrow> (Inl e, s)
      | Inr r \<Rightarrow>
          if list_ex (\<lambda>existing. sr_name existing = sr_name r) (session_records s)
          then (Inl DuplicateSecretName, s)
          else (case mutate (\<lambda>recs. recs @ [r]) s of
             (Inl e, s') \<Rightarrow> (Inl e, s')
           | (Inr _, s') \<Rightarrow> (Inr (sr_id r), s')))"

definition rename :: "text_env \<Rightarrow> secret_ref \<Rightarrow> str \<Rightarrow> vault_session \<Rightarrow> unit res \<times> vault_session" where
  "rename env reference new_name s =
     (case parse_secret_ref env new_name of
        Inl e \<Rightarrow> (Inl e, s)
      | Inr (RefId _) \<Rightarrow> (Inl InvalidSecretRef, s)
      | Inr (RefName normalized) \<Rightarrow>
          (case find_record_index (session_records s) reference of
             Inl e \<Rightarrow> (Inl e, s)
           | Inr target \<Rightarrow>
               if other_has_name target normalized (session_records s) then (Inl DuplicateSecretName, s)
               else mutate (\<lambda>recs. recs[target := set_name normalized (recs ! target)]) s))"

definition replace_fields ::
    "text_env \<Rightarrow> secret_ref \<Rightarrow> secret_field list \<Rightarrow> vault_session \<Rightarrow> unit res \<times> vault_session" where
  "replace_fields env reference flds s =
     (case find_record_index (session_records s) reference of
        Inl e \<Rightarrow> (Inl e, s)
      | Inr target \<Rightarrow>
          let current_record = session_records s ! target in
          (case from_parts env (sr_id current_record) (name_str (sr_name current_record)) flds of
             Inl e \<Rightarrow> (Inl e, s)
           | Inr replacement \<Rightarrow> mutate (\<lambda>recs. recs[target := replacement]) s))"

definition delete :: "secret_ref \<Rightarrow> vault_session \<Rightarrow> unit res \<times> vault_session" where
  "delete reference s =
     (case find_record_index (session_records s) reference of
        Inl e \<Rightarrow> (Inl e, s)
      | Inr target \<Rightarrow> mutate (\<lambda>recs. take target recs @ drop (Suc target) recs) s)"

definition with_field ::
    "secret_ref \<Rightarrow> field_name \<Rightarrow> (byte list \<Rightarrow> 'r) \<Rightarrow> vault_session \<Rightarrow> 'r res \<times> vault_session" where
  "with_field reference field operation s =
     (case find_record_index (session_records s) reference of
        Inl e \<Rightarrow> (Inl e, s)
      | Inr target \<Rightarrow>
          (case List.find (\<lambda>f. sf_name f = field) (sr_fields (session_records s ! target)) of
             None \<Rightarrow> (Inl FieldNotFound, s)
           | Some f \<Rightarrow> (Inr (operation (sf_value f)), record_activity s)))"

definition session_seal ::
    "cbor \<Rightarrow> ciphers \<Rightarrow> 'r random_source \<Rightarrow> vault_session \<Rightarrow> 'r \<Rightarrow> byte list res \<times> 'r" where
  "session_seal cb c fill s r = seal cb c fill (vss_vault s) r"

definition commit_to ::
    "cbor \<Rightarrow> ciphers \<Rightarrow> 'r random_source \<Rightarrow> vault_store \<Rightarrow> path \<Rightarrow> path \<Rightarrow> io_outcome list \<Rightarrow> io_outcome \<Rightarrow>
       io_outcome \<Rightarrow> vault_session \<Rightarrow> 'r \<Rightarrow> disk \<Rightarrow> unit res \<times> 'r \<times> disk" where
  "commit_to cb c fill store first second ios io1 io2 s r d =
     (case session_seal cb c fill s r of
        (Inl e, r') \<Rightarrow> (Inl e, r', d)
      | (Inr encrypted, r') \<Rightarrow>
          (case commit_encrypted store first second ios io1 io2 encrypted d of (res, d') \<Rightarrow> (res, r', d')))"

section \<open>Lemmas on lookup and change\<close>

lemma position_Some: "position P xs = Some i \<Longrightarrow> i < length xs \<and> P (xs ! i)"
  by (induction xs arbitrary: i) (auto split: if_splits)

lemma position_None: "position P xs = None \<longleftrightarrow> (\<forall>x \<in> set xs. \<not> P x)"
  by (induction xs) auto

lemma find_record_index_Inr:
  "find_record_index recs reference = Inr i \<Longrightarrow> i < length recs \<and> matches reference (recs ! i)"
  by (auto simp: find_record_index_def result_simps dest: position_Some)

lemma other_has_name_iff:
  "other_has_name target n recs \<longleftrightarrow> (\<exists>i < length recs. i \<noteq> target \<and> sr_name (recs ! i) = n)"
  by (auto simp: other_has_name_def list_ex_iff in_set_enumerate_eq)

lemma increment_revision_Inr:
  "increment_revision p = Inr p' \<longleftrightarrow> unat (vp_revision p) + 1 < 2 ^ 64 \<and> p' = p\<lparr>vp_revision := vp_revision p + 1\<rparr>"
  by (auto simp: increment_revision_def result_simps checked_add_def split: if_splits)

lemma revision_grows: "unat (n :: u64) + 1 < 2 ^ 64 \<Longrightarrow> unat (n + 1) = Suc (unat n)"
  by (simp add: unat_word_ariths)

text \<open>A change either fails and leaves the session alone, or adds one to the revision and applies
  \<open>f\<close> to the records.\<close>

lemma mutate_cases:
  obtains (fails) e where "mutate f s = (Inl e, s)"
  | (succeeds) s' where "mutate f s = (Inr (), s')" "session_records s' = f (session_records s)"
      "unat (session_revision s') = Suc (unat (session_revision s))"
      "uv_key_material (vss_vault s') = uv_key_material (vss_vault s)"
      "vp_vault_id (session_payload s') = vp_vault_id (session_payload s)"
proof (cases "increment_revision (session_payload s)")
  case (Inl e)
  then have "mutate f s = (Inl e, s)" by (simp add: mutate_def)
  then show thesis by (rule fails)
next
  case (Inr p)
  then have p: "unat (vp_revision (session_payload s)) + 1 < 2 ^ 64"
    "p = (session_payload s)\<lparr>vp_revision := vp_revision (session_payload s) + 1\<rparr>"
    by (simp_all add: increment_revision_Inr)
  show thesis
    by (rule succeeds [of "record_activity (set_payload (p\<lparr>vp_records := f (vp_records p)\<rparr>) s)"])
      (use Inr p in \<open>simp_all add: mutate_def record_activity_def set_payload_def session_revision_def
        revision_grows\<close>)
qed

section \<open>The invariant of the records\<close>

definition records_ok :: "text_env \<Rightarrow> secret_record list \<Rightarrow> bool" where
  "records_ok env recs =
     (distinct (map sr_id recs) \<and> distinct (map sr_name recs) \<and> list_all (record_wf env) recs)"

lemma records_ok_add:
  "records_ok env recs \<Longrightarrow> record_wf env r \<Longrightarrow> sr_id r \<notin> sr_id ` set recs \<Longrightarrow>
     \<not> list_ex (\<lambda>x. sr_name x = sr_name r) recs \<Longrightarrow> records_ok env (recs @ [r])"
  by (force simp: records_ok_def list_ex_iff)

lemma distinct_map_update:
  assumes "distinct (map g xs)" and "i < length xs" and "\<forall>j < length xs. j \<noteq> i \<longrightarrow> g (xs ! j) \<noteq> g y"
  shows "distinct (map g (xs[i := y]))"
  using assms by (auto simp: distinct_conv_nth nth_list_update)

lemma records_ok_update:
  assumes "records_ok env recs" and "i < length recs" and "record_wf env r" and "sr_id r = sr_id (recs ! i)"
    and "\<not> other_has_name i (sr_name r) recs"
  shows "records_ok env (recs[i := r])"
proof -
  have "distinct (map sr_id (recs[i := r]))"
    using assms(1,2,4) by (intro distinct_map_update) (auto simp: records_ok_def distinct_conv_nth)
  moreover have "distinct (map sr_name (recs[i := r]))"
    using assms(1,2,5) by (intro distinct_map_update) (auto simp: records_ok_def other_has_name_iff)
  moreover have "list_all (record_wf env) (recs[i := r])"
    using assms(1,3) by (auto simp: records_ok_def list_all_iff dest: subsetD [OF set_update_subset_insert])
  ultimately show ?thesis by (simp add: records_ok_def)
qed

lemma records_ok_remove: "records_ok env recs \<Longrightarrow> records_ok env (take i recs @ drop (Suc i) recs)"
  using set_take_subset [of i recs] set_drop_subset [of "Suc i" recs]
  by (force simp: records_ok_def list_all_iff distinct_conv_nth nth_append min_def less_diff_conv)

section \<open>Operations in any order\<close>

text \<open>
  A run of the session: operations, and replacements that were prepared and not yet applied.
  \<open>input_ok\<close> is what the types and \<open>Uuid::new_v4\<close> guarantee of the arguments: text is UTF-8, fields
  were built by their constructor, a fresh identifier is not in use.
\<close>

datatype vault_op =
    AddOp uuid str "secret_field list"
  | RenameOp secret_ref str
  | ReplaceFieldsOp secret_ref "secret_field list"
  | DeleteOp secret_ref
  | PrepareOp secret_ref str "secret_field list"
  | ApplyOp prepared_replacement
  | ReadOp

type_synonym vault_run = "vault_session \<times> prepared_replacement list"

fun input_ok :: "vault_run \<Rightarrow> vault_op \<Rightarrow> bool" where
  "input_ok (s, ps) (AddOp fresh name flds) =
     (valid_utf8 name \<and> list_all field_wf flds \<and> SecretId fresh \<notin> sr_id ` set (session_records s))"
| "input_ok (s, ps) (RenameOp reference name) = valid_utf8 name"
| "input_ok (s, ps) (ReplaceFieldsOp reference flds) = list_all field_wf flds"
| "input_ok (s, ps) (PrepareOp reference name flds) = (valid_utf8 name \<and> list_all field_wf flds)"
| "input_ok (s, ps) (ApplyOp prepared) = (prepared \<in> set ps)"
| "input_ok (s, ps) _ = True"

fun exec_vault_op :: "text_env \<Rightarrow> vault_op \<Rightarrow> vault_run \<Rightarrow> vault_run" where
  "exec_vault_op env (AddOp fresh name flds) (s, ps) = (snd (add env fresh name flds s), ps)"
| "exec_vault_op env (RenameOp reference name) (s, ps) = (snd (rename env reference name s), ps)"
| "exec_vault_op env (ReplaceFieldsOp reference flds) (s, ps) = (snd (replace_fields env reference flds s), ps)"
| "exec_vault_op env (DeleteOp reference) (s, ps) = (snd (delete reference s), ps)"
| "exec_vault_op env (PrepareOp reference name flds) (s, ps) =
     (case prepare_record_replacement env reference name flds s of
        Inr prepared \<Rightarrow> (s, prepared # ps) | Inl _ \<Rightarrow> (s, ps))"
| "exec_vault_op env (ApplyOp prepared) (s, ps) = (snd (apply_record_replacement prepared s), ps)"
| "exec_vault_op env ReadOp (s, ps) = (record_activity s, ps)"

definition exec_vault :: "text_env \<Rightarrow> vault_op \<Rightarrow> vault_run \<Rightarrow> vault_run" where
  "exec_vault env op st = (if input_ok st op then exec_vault_op env op st else st)"

text \<open>A prepared replacement is either out of date or still fits the records.\<close>

definition prepared_fits :: "text_env \<Rightarrow> vault_session \<Rightarrow> prepared_replacement \<Rightarrow> bool" where
  "prepared_fits env s pr =
     (unat (pr_expected_revision pr) < unat (session_revision s) \<or>
      (pr_expected_revision pr = session_revision s \<and> record_wf env (pr_replacement pr) \<and>
       sr_id (pr_replacement pr) = pr_target_id pr \<and>
       (\<forall>r \<in> set (session_records s). sr_name r = sr_name (pr_replacement pr) \<longrightarrow> sr_id r = pr_target_id pr)))"

definition vault_inv :: "text_env \<Rightarrow> vault_run \<Rightarrow> bool" where
  "vault_inv env st =
     (records_ok env (session_records (fst st)) \<and> list_all (prepared_fits env (fst st)) (snd st))"

definition vault_step_ok :: "text_env \<Rightarrow> vault_session \<Rightarrow> vault_session \<Rightarrow> bool" where
  "vault_step_ok env s s' =
     (session_payload s' = session_payload s \<or>
      (unat (session_revision s') = Suc (unat (session_revision s)) \<and> records_ok env (session_records s')))"

lemma step_ok_refl [simp]: "vault_step_ok env s s"
  by (simp add: vault_step_ok_def)

lemma mutate_step: "records_ok env (f (session_records s)) \<Longrightarrow> vault_step_ok env s (snd (mutate f s))"
  by (cases rule: mutate_cases [of f s]) (simp_all add: vault_step_ok_def)

lemma add_step:
  assumes "text_laws env" "records_ok env (session_records s)" "valid_utf8 name" "list_all field_wf flds"
    "SecretId fresh \<notin> sr_id ` set (session_records s)"
  shows "vault_step_ok env s (snd (add env fresh name flds s))"
proof (cases "new_secret_record env fresh name flds")
  case (Inl e)
  then show ?thesis by (simp add: add_def)
next
  case (Inr r)
  then have r: "record_wf env r" "sr_id r = SecretId fresh"
    using from_parts_wf [OF assms(1,3,4)] by (auto simp: new_secret_record_def from_parts_Inr)
  have "vault_step_ok env s (snd (mutate (\<lambda>recs. recs @ [r]) s))"
    if "\<not> list_ex (\<lambda>x. sr_name x = sr_name r) (session_records s)"
    using that r assms by (intro mutate_step records_ok_add) auto
  then show ?thesis by (auto simp: add_def Inr split: prod.split sum.split)
qed

lemma rename_step:
  assumes "text_laws env" "records_ok env (session_records s)" "valid_utf8 name"
  shows "vault_step_ok env s (snd (rename env reference name s))"
proof (cases "parse_secret_ref env name")
  case (Inl e)
  then show ?thesis by (simp add: rename_def)
next
  case (Inr ref)
  show ?thesis
  proof (cases ref)
    case (RefId i)
    then show ?thesis by (simp add: rename_def Inr)
  next
    case (RefName n)
    then have n: "name_wf env n" using parse_secret_ref_wf [OF assms(1,3)] Inr by (auto simp: ref_wf_def)
    show ?thesis
    proof (cases "find_record_index (session_records s) reference")
      case (Inl e)
      then show ?thesis by (simp add: rename_def Inr RefName)
    next
      case t: (Inr target)
      then have l: "target < length (session_records s)" using find_record_index_Inr by blast
      then have "record_wf env (session_records s ! target)"
        using assms(2) by (simp add: records_ok_def list_all_length)
      then have "record_wf env (set_name n (session_records s ! target))"
        using n by (simp add: record_wf_def set_name_def)
      then have "vault_step_ok env s (snd (mutate (\<lambda>recs. recs[target := set_name n (recs ! target)]) s))"
        if "\<not> other_has_name target n (session_records s)"
        using that assms(2) l by (intro mutate_step records_ok_update) (simp_all add: set_name_def)
      then show ?thesis by (simp add: rename_def Inr RefName t)
    qed
  qed
qed

lemma own_name_unique:
  assumes "records_ok env recs" "target < length recs"
  shows "\<not> other_has_name target (sr_name (recs ! target)) recs"
  using assms by (auto simp: other_has_name_iff records_ok_def distinct_conv_nth)

lemma replace_fields_step:
  assumes "text_laws env" "records_ok env (session_records s)" "list_all field_wf flds"
  shows "vault_step_ok env s (snd (replace_fields env reference flds s))"
proof (cases "find_record_index (session_records s) reference")
  case (Inl e)
  then show ?thesis by (simp add: replace_fields_def)
next
  case (Inr target)
  let ?r = "session_records s ! target"
  have l: "target < length (session_records s)" using Inr find_record_index_Inr by blast
  then have wf: "record_wf env ?r" using assms(2) by (simp add: records_ok_def list_all_length)
  then have nm: "name_wf env (sr_name ?r)" by (simp add: record_wf_def)
  show ?thesis
  proof (cases "from_parts env (sr_id ?r) (name_str (sr_name ?r)) flds")
    case (Inl e)
    then show ?thesis by (simp add: replace_fields_def Inr Let_def)
  next
    case rep: (Inr r)
    then have r: "record_wf env r" "sr_id r = sr_id ?r" "sr_name r = sr_name ?r"
      using from_parts_wf [OF assms(1) _ assms(3) rep] nm
      by (auto simp: from_parts_Inr name_wf_def)
    then have "vault_step_ok env s (snd (mutate (\<lambda>recs. recs[target := r]) s))"
      using assms(2) l own_name_unique by (intro mutate_step records_ok_update) simp_all
    then show ?thesis by (simp add: replace_fields_def Inr rep Let_def)
  qed
qed

lemma delete_step:
  "records_ok env (session_records s) \<Longrightarrow> vault_step_ok env s (snd (delete reference s))"
  by (auto simp: delete_def intro!: mutate_step records_ok_remove split: sum.split)

lemma apply_step:
  assumes ok: "records_ok env (session_records s)" and fits: "prepared_fits env s pr"
  shows "vault_step_ok env s (snd (apply_record_replacement pr s))"
proof (cases "session_revision s = pr_expected_revision pr")
  case False
  then show ?thesis by (simp add: apply_record_replacement_def)
next
  case True
  show ?thesis
  proof (cases "find_record_index (session_records s) (RefId (pr_target_id pr))")
    case (Inl e)
    then show ?thesis by (simp add: apply_record_replacement_def True)
  next
    case (Inr target)
    then have t: "target < length (session_records s)" "sr_id (session_records s ! target) = pr_target_id pr"
      using find_record_index_Inr by fastforce+
    have "\<not> other_has_name target (sr_name (pr_replacement pr)) (session_records s)"
    proof
      assume "other_has_name target (sr_name (pr_replacement pr)) (session_records s)"
      then obtain i where i: "i < length (session_records s)" "i \<noteq> target"
        "sr_name (session_records s ! i) = sr_name (pr_replacement pr)" by (auto simp: other_has_name_iff)
      then have "sr_id (session_records s ! i) = pr_target_id pr"
        using fits True by (auto simp: prepared_fits_def)
      moreover have "distinct (map sr_id (session_records s))" using ok by (simp add: records_ok_def)
      ultimately show False using t i by (metis length_map nth_eq_iff_index_eq nth_map)
    qed
    then have "vault_step_ok env s (snd (mutate (\<lambda>recs. recs[target := pr_replacement pr]) s))"
      using ok fits True t by (intro mutate_step records_ok_update) (auto simp: prepared_fits_def)
    then show ?thesis by (simp add: apply_record_replacement_def True Inr)
  qed
qed

lemma prepare_fits:
  assumes "text_laws env" and ok: "records_ok env (session_records s)" and "valid_utf8 name"
    and "list_all field_wf flds" and pr: "prepare_record_replacement env reference name flds s = Inr pr"
  shows "prepared_fits env s pr"
proof -
  from pr obtain target r where t: "find_record_index (session_records s) reference = Inr target"
    and r: "from_parts env (sr_id (session_records s ! target)) name flds = Inr r"
    and o: "\<not> other_has_name target (sr_name r) (session_records s)"
    and p: "pr = \<lparr>pr_expected_revision = session_revision s, pr_target_id = sr_id (session_records s ! target),
               pr_replacement = r\<rparr>"
    by (auto simp: prepare_record_replacement_def result_simps Let_def split: if_splits)
  have "sr_id r = sr_id (session_records s ! target)" using r by (auto simp: from_parts_Inr)
  moreover have "\<forall>x \<in> set (session_records s). sr_name x = sr_name r \<longrightarrow> sr_id x = sr_id (session_records s ! target)"
    using o by (auto simp: other_has_name_iff in_set_conv_nth)
  ultimately show ?thesis
    using from_parts_wf [OF assms(1,3,4) r] by (simp add: prepared_fits_def p)
qed

lemma fits_step:
  assumes "vault_step_ok env s s'" and "prepared_fits env s pr"
  shows "prepared_fits env s' pr"
  using assms by (auto simp: vault_step_ok_def prepared_fits_def session_revision_def)

lemma read_step: "vault_step_ok env s (record_activity s)"
  by (simp add: vault_step_ok_def record_activity_def)

lemma exec_step_ok:
  assumes "text_laws env" and "vault_inv env st" and "input_ok st op"
  shows "vault_step_ok env (fst st) (fst (exec_vault_op env op st))"
  using assms read_step
  by (cases st; cases op)
    (auto simp: vault_inv_def list_all_iff add_step rename_step replace_fields_step delete_step apply_step
      split: sum.split)

lemma exec_vault_inv:
  assumes L: "text_laws env" and inv: "vault_inv env st"
  shows "vault_inv env (exec_vault env op st)"
proof (cases "input_ok st op")
  case False
  then show ?thesis using inv by (simp add: exec_vault_def)
next
  case True
  obtain s ps where st: "st = (s, ps)" by (cases st)
  obtain s' ps' where e: "exec_vault_op env op st = (s', ps')" by (cases "exec_vault_op env op st")
  have ok: "vault_step_ok env s s'" using exec_step_ok [OF L inv True] st e by simp
  then have "records_ok env (session_records s')"
    using inv by (auto simp: st vault_inv_def vault_step_ok_def)
  moreover have "list_all (prepared_fits env s') ps'"
  proof (cases op)
    case (PrepareOp reference name flds)
    then show ?thesis
      using e True inv prepare_fits [OF L, of s name flds reference]
      by (auto simp: st vault_inv_def split: sum.splits)
  qed (use e inv fits_step [OF ok] in \<open>auto simp: st vault_inv_def list_all_iff\<close>)
  ultimately show ?thesis using True e by (simp add: exec_vault_def vault_inv_def)
qed

interpretation vault: op_machine "exec_vault env"
  "\<lambda>st. records_ok env (session_records (fst st)) \<and> snd st = []"
  "\<lambda>st. text_laws env \<longrightarrow> vault_inv env st" for env
proof unfold_locales
  show "text_laws env \<longrightarrow> vault_inv env st" if "records_ok env (session_records (fst st)) \<and> snd st = []" for st
    using that by (simp add: vault_inv_def)
qed (use exec_vault_inv in blast)

section \<open>The vault as a map\<close>

text \<open>The abstract vault: names and fields under their identifier.\<close>

definition vault_map :: "secret_record list \<Rightarrow> secret_id \<rightharpoonup> secret_name \<times> secret_field list" where
  "vault_map recs = map_of (map (\<lambda>r. (sr_id r, (sr_name r, sr_fields r))) recs)"

lemma vault_map_append:
  "sr_id r \<notin> sr_id ` set recs \<Longrightarrow> vault_map (recs @ [r]) = (vault_map recs)(sr_id r \<mapsto> (sr_name r, sr_fields r))"
proof (induction recs)
  case Nil
  then show ?case by (simp add: vault_map_def)
next
  case (Cons x recs)
  then show ?case by (auto simp: vault_map_def fun_eq_iff)
qed

lemma vault_map_update:
  "distinct (map sr_id recs) \<Longrightarrow> i < length recs \<Longrightarrow> sr_id r = sr_id (recs ! i) \<Longrightarrow>
     vault_map (recs[i := r]) = (vault_map recs)(sr_id r \<mapsto> (sr_name r, sr_fields r))"
proof (induction recs arbitrary: i)
  case Nil
  then show ?case by simp
next
  case (Cons x recs)
  show ?case
  proof (cases i)
    case 0
    with Cons.prems show ?thesis by (simp add: vault_map_def fun_eq_iff)
  next
    case (Suc j)
    with Cons.prems have "sr_id r \<in> sr_id ` set recs" by simp
    with Cons.prems have "sr_id r \<noteq> sr_id x" by auto
    with Cons.IH [of j] Cons.prems Suc show ?thesis by (auto simp: vault_map_def fun_eq_iff)
  qed
qed

lemma vault_map_remove:
  "distinct (map sr_id recs) \<Longrightarrow> i < length recs \<Longrightarrow>
     vault_map (take i recs @ drop (Suc i) recs) = (vault_map recs)(sr_id (recs ! i) := None)"
proof (induction recs arbitrary: i)
  case Nil
  then show ?case by simp
next
  case (Cons x recs)
  show ?case
  proof (cases i)
    case 0
    with Cons.prems have "map_of (map (\<lambda>r. (sr_id r, (sr_name r, sr_fields r))) recs) (sr_id x) = None"
      by (auto simp: map_of_eq_None_iff)
    with 0 show ?thesis by (auto simp: vault_map_def fun_eq_iff)
  next
    case (Suc j)
    with Cons.prems have "sr_id (recs ! j) \<in> sr_id ` set recs" by simp
    with Cons.prems have "sr_id (recs ! j) \<noteq> sr_id x" by auto
    with Cons.IH [of j] Cons.prems Suc show ?thesis by (auto simp: vault_map_def fun_eq_iff)
  qed
qed

lemma vault_map_nth:
  assumes "distinct (map sr_id recs)" and "i < length recs"
  shows "vault_map recs (sr_id (recs ! i)) = Some (sr_name (recs ! i), sr_fields (recs ! i))"
  unfolding vault_map_def
  using assms by (intro map_of_is_SomeI) (auto simp: comp_def)

text \<open>What a reference denotes in the abstract vault.\<close>

fun denotes :: "(secret_id \<rightharpoonup> secret_name \<times> secret_field list) \<Rightarrow> secret_ref \<Rightarrow> secret_id \<Rightarrow> bool" where
  "denotes m (RefName n) i = (\<exists>flds. m i = Some (n, flds))"
| "denotes m (RefId j) i = (i = j \<and> m i \<noteq> None)"

lemma found_denotes:
  assumes "distinct (map sr_id recs)" and "find_record_index recs reference = Inr i"
  shows "denotes (vault_map recs) reference (sr_id (recs ! i))"
proof -
  from find_record_index_Inr [OF assms(2)] have i: "i < length recs" "matches reference (recs ! i)" by auto
  with vault_map_nth [OF assms(1) i(1)] show ?thesis by (cases reference) auto
qed

type_synonym abstract_vault = "secret_id \<rightharpoonup> secret_name \<times> secret_field list"

text \<open>The abstract steps.\<close>

fun map_step :: "text_env \<Rightarrow> vault_op \<Rightarrow> abstract_vault \<Rightarrow> abstract_vault \<Rightarrow> bool" where
  "map_step env (AddOp fresh name flds) m m' =
     (\<exists>n. parse_secret_name env name = Inr n \<and> m (SecretId fresh) = None \<and>
        m' = m(SecretId fresh \<mapsto> (n, flds)))"
| "map_step env (RenameOp reference name) m m' =
     (\<exists>j n n0 flds. denotes m reference j \<and> parse_secret_ref env name = Inr (RefName n) \<and>
        m j = Some (n0, flds) \<and> m' = m(j \<mapsto> (n, flds)))"
| "map_step env (ReplaceFieldsOp reference flds) m m' =
     (\<exists>j n flds0. denotes m reference j \<and> m j = Some (n, flds0) \<and> m' = m(j \<mapsto> (n, flds)))"
| "map_step env (DeleteOp reference) m m' = (\<exists>j. denotes m reference j \<and> m' = m(j := None))"
| "map_step env (ApplyOp pr) m m' =
     (m (pr_target_id pr) \<noteq> None \<and>
      m' = m(pr_target_id pr \<mapsto> (sr_name (pr_replacement pr), sr_fields (pr_replacement pr))))"
| "map_step env _ m m' = (m' = m)"

definition simulates :: "text_env \<Rightarrow> vault_op \<Rightarrow> vault_session \<Rightarrow> vault_session \<Rightarrow> bool" where
  "simulates env op s s' =
     (session_payload s' = session_payload s \<or>
      (unat (session_revision s') = Suc (unat (session_revision s)) \<and>
       map_step env op (vault_map (session_records s)) (vault_map (session_records s'))))"

lemma mutate_simulates:
  "map_step env op (vault_map (session_records s)) (vault_map (f (session_records s))) \<Longrightarrow>
     simulates env op s (snd (mutate f s))"
  by (cases rule: mutate_cases [of f s]) (simp_all add: simulates_def)

lemma simulates_refl [simp]: "simulates env op s s"
  by (simp add: simulates_def)

lemma vault_map_None: "i \<notin> sr_id ` set recs \<Longrightarrow> vault_map recs i = None"
  by (auto simp: vault_map_def map_of_eq_None_iff)

lemma add_simulates:
  assumes "SecretId fresh \<notin> sr_id ` set (session_records s)"
  shows "simulates env (AddOp fresh name flds) s (snd (add env fresh name flds s))"
proof (cases "new_secret_record env fresh name flds")
  case (Inl e)
  then show ?thesis by (simp add: add_def)
next
  case (Inr r)
  then obtain n where r: "parse_secret_name env name = Inr n"
    "r = \<lparr>sr_id = SecretId fresh, sr_name = n, sr_fields = flds\<rparr>"
    by (auto simp: new_secret_record_def from_parts_Inr)
  have "simulates env (AddOp fresh name flds) s (snd (mutate (\<lambda>recs. recs @ [r]) s))"
    using assms r by (intro mutate_simulates) (simp add: vault_map_append vault_map_None)
  then show ?thesis by (auto simp: add_def Inr split: prod.split sum.split)
qed

lemma rename_simulates:
  assumes d: "distinct (map sr_id (session_records s))"
  shows "simulates env (RenameOp reference name) s (snd (rename env reference name s))"
proof -
  have "simulates env (RenameOp reference name) s
      (snd (mutate (\<lambda>recs. recs[t := set_name n (recs ! t)]) s))"
    if t: "find_record_index (session_records s) reference = Inr t" and n: "parse_secret_ref env name = Inr (RefName n)"
    for t n
    using find_record_index_Inr [OF t] found_denotes [OF d t] vault_map_nth [OF d, of t] n d
    by (intro mutate_simulates) (auto simp: vault_map_update set_name_def)
  then show ?thesis
    by (auto simp: rename_def split: sum.split secret_ref.split)
qed

lemma replace_fields_simulates:
  assumes ok: "records_ok env (session_records s)"
  shows "simulates env (ReplaceFieldsOp reference flds) s (snd (replace_fields env reference flds s))"
proof -
  have d: "distinct (map sr_id (session_records s))" using ok by (simp add: records_ok_def)
  have "simulates env (ReplaceFieldsOp reference flds) s (snd (mutate (\<lambda>recs. recs[t := r]) s))"
    if t: "find_record_index (session_records s) reference = Inr t"
      and r: "from_parts env (sr_id (session_records s ! t)) (name_str (sr_name (session_records s ! t))) flds = Inr r"
    for t r
  proof -
    have l: "t < length (session_records s)" using find_record_index_Inr [OF t] by simp
    then have "name_wf env (sr_name (session_records s ! t))"
      using ok by (simp add: records_ok_def list_all_length record_wf_def)
    with r have "r = \<lparr>sr_id = sr_id (session_records s ! t), sr_name = sr_name (session_records s ! t), sr_fields = flds\<rparr>"
      by (auto simp: from_parts_Inr)
    with l found_denotes [OF d t] vault_map_nth [OF d l] d show ?thesis
      by (intro mutate_simulates) (auto simp: vault_map_update)
  qed
  then show ?thesis by (auto simp: replace_fields_def Let_def split: sum.split)
qed

lemma delete_simulates:
  assumes d: "distinct (map sr_id (session_records s))"
  shows "simulates env (DeleteOp reference) s (snd (delete reference s))"
proof -
  have "simulates env (DeleteOp reference) s (snd (mutate (\<lambda>recs. take t recs @ drop (Suc t) recs) s))"
    if t: "find_record_index (session_records s) reference = Inr t" for t
    using find_record_index_Inr [OF t] found_denotes [OF d t] vault_map_remove [OF d, of t]
    by (intro mutate_simulates) auto
  then show ?thesis by (auto simp: delete_def split: sum.split)
qed

lemma apply_simulates:
  assumes d: "distinct (map sr_id (session_records s))" and fits: "prepared_fits env s pr"
  shows "simulates env (ApplyOp pr) s (snd (apply_record_replacement pr s))"
proof (cases "session_revision s = pr_expected_revision pr")
  case False
  then show ?thesis by (simp add: apply_record_replacement_def)
next
  case True
  have "simulates env (ApplyOp pr) s (snd (mutate (\<lambda>recs. recs[t := pr_replacement pr]) s))"
    if t: "find_record_index (session_records s) (RefId (pr_target_id pr)) = Inr t" for t
    using find_record_index_Inr [OF t] vault_map_nth [OF d, of t] fits True d
    by (intro mutate_simulates) (auto simp: prepared_fits_def vault_map_update)
  then show ?thesis by (auto simp: apply_record_replacement_def True split: sum.split)
qed

lemma read_simulates: "simulates env op s (record_activity s)"
  by (simp add: simulates_def record_activity_def)

lemma exec_simulates:
  assumes inv: "vault_inv env st" and ok: "input_ok st op"
  shows "simulates env op (fst st) (fst (exec_vault_op env op st))"
proof -
  have r: "records_ok env (session_records (fst st))" using inv by (simp add: vault_inv_def)
  then have d: "distinct (map sr_id (session_records (fst st)))" by (simp add: records_ok_def)
  show ?thesis
    using inv ok add_simulates rename_simulates [OF d] replace_fields_simulates [OF r] delete_simulates [OF d]
      apply_simulates [OF d] read_simulates
    by (cases st; cases op) (auto simp: vault_inv_def list_all_iff split: sum.split)
qed

end
