(* ===== verification/Ladon_Cbor.thy ===== *)
theory Ladon_Cbor
  imports Ladon_Codec
begin

text \<open>
  A concrete CBOR library (RFC 8949, without negative integers and floating-point numbers) that
  satisfies \<open>cbor_laws\<close>: the parameter of the codec at which its theorems are evaluated.
\<close>

section \<open>Heads\<close>

definition enc_head :: "nat \<Rightarrow> nat \<Rightarrow> byte list" where
  "enc_head m n =
     (if n < 24 then [of_nat (m * 32 + n)]
      else if n < 256 ^ 1 then of_nat (m * 32 + 24) # be_bytes 1 n
      else if n < 256 ^ 2 then of_nat (m * 32 + 25) # be_bytes 2 n
      else if n < 256 ^ 4 then of_nat (m * 32 + 26) # be_bytes 4 n
      else of_nat (m * 32 + 27) # be_bytes 8 n)"

definition argument_width :: "nat \<Rightarrow> nat" where
  "argument_width a = (if a = 24 then 1 else if a = 25 then 2 else if a = 26 then 4 else 8)"

fun dec_head :: "byte list \<Rightarrow> (nat \<times> nat option \<times> byte list) option" where
  "dec_head [] = None"
| "dec_head (b # bs) =
     (let m = unat b div 32; a = unat b mod 32 in
      if a < 24 then Some (m, Some a, bs)
      else if a \<le> 27 then
        (if argument_width a \<le> length bs
         then Some (m, Some (be_nat (take (argument_width a) bs)), drop (argument_width a) bs) else None)
      else if a = 31 then Some (m, None, bs)
      else None)"

lemma initial_byte: "m < 8 \<Longrightarrow> a < 32 \<Longrightarrow> unat (of_nat (m * 32 + a) :: byte) = m * 32 + a"
  by (simp add: unat_of_nat take_bit_nat_eq_self del: of_nat_add of_nat_mult)

lemma dec_enc_head:
  assumes "m < 8" and "n < 2 ^ 64"
  shows "dec_head (enc_head m n @ rest) = Some (m, Some n, rest)"
proof -
  have "n < 256 ^ 8" using assms(2) by simp
  with assms(1) show ?thesis
    unfolding enc_head_def
    by (auto simp: initial_byte argument_width_def Let_def simp del: be_bytes.simps power_Suc of_nat_add)
qed

lemma dec_head_prefix:
  assumes "dec_head input = Some (m, a, rest)"
  shows "\<exists>hd. input = hd @ rest \<and> hd \<noteq> [] \<and> (\<forall>rest'. dec_head (hd @ rest') = Some (m, a, rest'))"
proof (cases input)
  case Nil
  with assms show ?thesis by simp
next
  case (Cons b bs)
  let ?a = "unat b mod 32"
  let ?k = "if ?a < 24 \<or> ?a = 31 then 0 else argument_width ?a"
  have "input = (b # take ?k bs) @ rest"
    "\<forall>rest'. dec_head ((b # take ?k bs) @ rest') = Some (m, a, rest')"
    using assms by (auto simp: Cons Let_def split: if_splits)
  then show ?thesis by blast
qed

lemma dec_head_length: "dec_head input = Some (m, a, rest) \<Longrightarrow> length rest < length input"
  using dec_head_prefix by fastforce

section \<open>Items\<close>

fun ref_write :: "cbor_value \<Rightarrow> byte list" where
  "ref_write (VBool b) = enc_head 7 (if b then 21 else 20)"
| "ref_write VNull = enc_head 7 22"
| "ref_write VUndefined = enc_head 7 23"
| "ref_write (VU8 n) = enc_head 0 (unat n)"
| "ref_write (VU16 n) = enc_head 0 (unat n)"
| "ref_write (VU32 n) = enc_head 0 (unat n)"
| "ref_write (VU64 n) = enc_head 0 (unat n)"
| "ref_write (VBytes b) = enc_head 2 (length b) @ b"
| "ref_write (VString s) = enc_head 3 (length s) @ s"
| "ref_write (VArray (Some n)) = enc_head 4 (unat n)"
| "ref_write (VMap (Some n)) = enc_head 5 (unat n)"
| "ref_write (VTag n) = enc_head 6 (unat n)"
| "ref_write (VSimple n) = enc_head 7 (unat n)"
| "ref_write _ = []"

definition ref_unsigned :: "nat \<Rightarrow> (nat \<Rightarrow> cbor_value) \<Rightarrow> byte list \<Rightarrow> (cbor_value \<times> byte list) option" where
  "ref_unsigned bound con input =
     (case dec_head input of
        Some (m, Some n, rest) \<Rightarrow> if m = 0 \<and> n < bound then Some (con n, rest) else None
      | _ \<Rightarrow> None)"

definition ref_payload :: "nat \<Rightarrow> byte list \<Rightarrow> (byte list \<times> byte list) option" where
  "ref_payload major input =
     (case dec_head input of
        Some (m, Some n, rest) \<Rightarrow>
          if m = major \<and> n \<le> length rest then Some (take n rest, drop n rest) else None
      | _ \<Rightarrow> None)"

definition ref_length :: "nat \<Rightarrow> byte list \<Rightarrow> (u64 option \<times> byte list) option" where
  "ref_length major input =
     (case dec_head input of
        Some (m, n, rest) \<Rightarrow> if m = major then Some (map_option of_nat n, rest) else None
      | _ \<Rightarrow> None)"

definition ref_simple :: "(nat \<Rightarrow> cbor_value option) \<Rightarrow> byte list \<Rightarrow> (cbor_value \<times> byte list) option" where
  "ref_simple con input =
     (case dec_head input of
        Some (m, Some n, rest) \<Rightarrow>
          if m = 7 then (case con n of Some v \<Rightarrow> Some (v, rest) | None \<Rightarrow> None) else None
      | _ \<Rightarrow> None)"

fun ref_read :: "cbor_type \<Rightarrow> byte list \<Rightarrow> (cbor_value \<times> byte list) option" where
  "ref_read TBool input = ref_simple (\<lambda>n. if n = 20 then Some (VBool False)
      else if n = 21 then Some (VBool True) else None) input"
| "ref_read TNull input = ref_simple (\<lambda>n. if n = 22 then Some VNull else None) input"
| "ref_read TUndefined input = ref_simple (\<lambda>n. if n = 23 then Some VUndefined else None) input"
| "ref_read TSimple input = ref_simple (\<lambda>n. if n < 20 \<or> 32 \<le> n \<and> n < 256 then Some (VSimple (of_nat n)) else None) input"
| "ref_read TU8 input = ref_unsigned (2 ^ 8) (\<lambda>n. VU8 (of_nat n)) input"
| "ref_read TU16 input = ref_unsigned (2 ^ 16) (\<lambda>n. VU16 (of_nat n)) input"
| "ref_read TU32 input = ref_unsigned (2 ^ 32) (\<lambda>n. VU32 (of_nat n)) input"
| "ref_read TU64 input = ref_unsigned (2 ^ 64) (\<lambda>n. VU64 (of_nat n)) input"
| "ref_read TBytes input = map_option (\<lambda>(b, rest). (VBytes b, rest)) (ref_payload 2 input)"
| "ref_read TString input =
     (case ref_payload 3 input of
        Some (s, rest) \<Rightarrow> if valid_utf8 s then Some (VString s, rest) else None
      | None \<Rightarrow> None)"
| "ref_read TArray input = map_option (\<lambda>(n, rest). (VArray n, rest)) (ref_length 4 input)"
| "ref_read TMap input = map_option (\<lambda>(n, rest). (VMap n, rest)) (ref_length 5 input)"
| "ref_read TTag input =
     (case ref_length 6 input of Some (Some n, rest) \<Rightarrow> Some (VTag n, rest) | _ \<Rightarrow> None)"
| "ref_read _ input = None"

definition ref_datatype :: "byte list \<Rightarrow> cbor_type option" where
  "ref_datatype input =
     (case input of
        [] \<Rightarrow> None
      | b # _ \<Rightarrow>
          let m = unat b div 32; a = unat b mod 32 in
          if m = 0 then Some (if a \<le> 24 then TU8 else if a = 25 then TU16 else if a = 26 then TU32 else TU64)
          else if m = 2 then Some (if a = 31 then TBytesIndef else TBytes)
          else if m = 3 then Some (if a = 31 then TStringIndef else TString)
          else if m = 4 then Some (if a = 31 then TArrayIndef else TArray)
          else if m = 5 then Some (if a = 31 then TMapIndef else TMap)
          else if m = 6 then Some TTag
          else if m = 7 then
            Some (if a = 20 \<or> a = 21 then TBool else if a = 22 then TNull
              else if a = 23 then TUndefined else if a = 31 then TBreak else TSimple)
          else Some (TUnknown b))"

text \<open>\<open>skip_items n\<close> passes over \<open>n\<close> items of definite length.\<close>

function skip_items :: "nat \<Rightarrow> byte list \<Rightarrow> byte list option" where
  "skip_items 0 input = Some input"
| "skip_items (Suc k) input =
     (case dec_head input of
        Some (m, Some n, rest) \<Rightarrow>
          if m = 2 \<or> m = 3 then (if n \<le> length rest then skip_items k (drop n rest) else None)
          else if m = 4 then skip_items (k + n) rest
          else if m = 5 then skip_items (k + 2 * n) rest
          else if m = 6 then skip_items (Suc k) rest
          else skip_items k rest
      | _ \<Rightarrow> None)"
  by pat_completeness auto
termination
  by (relation "measure (\<lambda>(_, input). length input)") (auto dest!: dec_head_length)

definition ref_cbor :: cbor where
  "ref_cbor = \<lparr>cb_datatype = ref_datatype, cb_read = ref_read, cb_skip = skip_items 1, cb_write = ref_write\<rparr>"

lemma skip_items_prefix:
  "skip_items k input = Some rest \<Longrightarrow>
     \<exists>item. input = item @ rest \<and> (\<forall>rest'. skip_items k (item @ rest') = Some rest')"
proof (induction k input arbitrary: rest rule: skip_items.induct)
  case (1 input)
  then show ?case by simp
next
  case (2 k input)
  obtain m n r where h: "dec_head input = Some (m, Some n, r)"
    using "2.prems" by (auto split: option.splits prod.splits)
  obtain hd where hd: "input = hd @ r" "\<And>r'. dec_head (hd @ r') = Some (m, Some n, r')"
    using dec_head_prefix [OF h] by blast
  show ?case
  proof (cases "m = 2 \<or> m = 3")
    case True
    with "2.prems" h have n: "n \<le> length r" and s: "skip_items k (drop n r) = Some rest"
      by (auto split: if_splits)
    from "2.IH"(1) [OF h refl refl refl True n s] h obtain item where
      "drop n r = item @ rest" "\<forall>rest'. skip_items k (item @ rest') = Some rest'" by blast
    moreover have "r = take n r @ item @ rest" using calculation(1) by (metis append_take_drop_id)
    ultimately have "input = (hd @ take n r @ item) @ rest"
      "\<forall>rest'. skip_items (Suc k) ((hd @ take n r @ item) @ rest') = Some rest'"
      using hd True n by auto
    then show ?thesis by blast
  next
    case False
    let ?k = "if m = 4 then k + n else if m = 5 then k + 2 * n else if m = 6 then Suc k else k"
    have s: "skip_items ?k r = Some rest" using "2.prems" h False by auto
    have "\<exists>item. r = item @ rest \<and> (\<forall>rest'. skip_items ?k (item @ rest') = Some rest')"
      using s "2.IH"(2-) [OF h refl refl refl False] by (auto split: if_splits)
    then obtain item where item: "r = item @ rest" "\<forall>rest'. skip_items ?k (item @ rest') = Some rest'" by blast
    then have "input = (hd @ item) @ rest" "\<forall>rest'. skip_items (Suc k) ((hd @ item) @ rest') = Some rest'"
      using hd False by (auto split: if_splits)
    then show ?thesis by blast
  qed
qed


lemma ref_unsigned_head:
  "n < 2 ^ 64 \<Longrightarrow> n < bound \<Longrightarrow> ref_unsigned bound con (enc_head 0 n @ rest) = Some (con n, rest)"
  by (simp add: ref_unsigned_def dec_enc_head)

lemma ref_payload_head:
  "m < 8 \<Longrightarrow> length b < 2 ^ 64 \<Longrightarrow> ref_payload m (enc_head m (length b) @ b @ rest) = Some (b, rest)"
  by (simp add: ref_payload_def dec_enc_head)

lemma ref_length_head:
  "m < 8 \<Longrightarrow> ref_length m (enc_head m (unat n) @ rest) = Some (Some n, rest)"
  using unsigned_less [of n, where 'a = nat] by (simp add: ref_length_def dec_enc_head)

lemma unat_bound: "LENGTH('a::len) \<le> k \<Longrightarrow> unat (n :: 'a word) < 2 ^ k"
  using unsigned_less [of n, where 'a = nat] by (rule less_le_trans) simp

lemma ref_cbor_laws: "cbor_laws ref_cbor"
  unfolding cbor_laws_def
proof (intro conjI allI impI)
  fix n :: u8 and rest
  show "cb_read ref_cbor TU8 (cb_write ref_cbor (VU8 n) @ rest) = Some (VU8 n, rest)"
    using unat_bound [of 8 n] unat_bound [of 64 n] by (simp add: ref_cbor_def ref_unsigned_head)
  show "cb_read ref_cbor TU64 (cb_write ref_cbor (VU8 n) @ rest) = Some (VU64 (ucast n), rest)"
    using unat_bound [of 64 n] by (simp add: ref_cbor_def ref_unsigned_head)
next
  fix n :: u32 and rest
  show "cb_read ref_cbor TU32 (cb_write ref_cbor (VU32 n) @ rest) = Some (VU32 n, rest)"
    using unat_bound [of 32 n] unat_bound [of 64 n] by (simp add: ref_cbor_def ref_unsigned_head)
next
  fix n :: u64 and rest
  show "cb_read ref_cbor TU64 (cb_write ref_cbor (VU64 n) @ rest) = Some (VU64 n, rest)"
    using unat_bound [of 64 n] by (simp add: ref_cbor_def ref_unsigned_head)
  show "cb_read ref_cbor TArray (cb_write ref_cbor (VArray (Some n)) @ rest) = Some (VArray (Some n), rest)"
    "cb_read ref_cbor TMap (cb_write ref_cbor (VMap (Some n)) @ rest) = Some (VMap (Some n), rest)"
    by (simp_all add: ref_cbor_def ref_length_head)
next
  fix b rest :: "byte list" assume "length b < 2 ^ 64"
  then show "cb_read ref_cbor TBytes (cb_write ref_cbor (VBytes b) @ rest) = Some (VBytes b, rest)"
    by (simp add: ref_cbor_def ref_payload_head)
next
  fix s rest :: "byte list" assume "valid_utf8 s" "length s < 2 ^ 64"
  then show "cb_read ref_cbor TString (cb_write ref_cbor (VString s) @ rest) = Some (VString s, rest)"
    by (simp add: ref_cbor_def ref_payload_head)
next
  fix input s rest assume "cb_read ref_cbor TString input = Some (VString s, rest)"
  then show "valid_utf8 s" by (auto simp: ref_cbor_def split: option.splits if_splits)
next
  fix input rest assume "cb_skip ref_cbor input = Some rest"
  then show "\<exists>item. input = item @ rest \<and> (\<forall>rest'. cb_skip ref_cbor (item @ rest') = Some rest')"
    using skip_items_prefix [of 1] by (simp add: ref_cbor_def del: skip_items.simps)
qed

end
