(* ===== verification/Ladon_Codec_Properties.thy ===== *)
theory Ladon_Codec_Properties
  imports Ladon_Cbor
begin

text \<open>
  What the codec promises, and its limit: the claims about \<open>decode_payload\<close> and \<open>encode_payload\<close>,
  evaluated at the CBOR library of \<open>Ladon_Cbor\<close> and at a text library that leaves text as it is
  and writes an identifier as its sixteen bytes.
\<close>

definition plain_env :: text_env where
  "plain_env =
     \<lparr>nfc = (\<lambda>s. s),
      parse_uuid = (\<lambda>s. if length s = 16 then Some (of_nat (be_nat s)) else None),
      show_uuid = (\<lambda>u. be_bytes 16 (unat u))\<rparr>"

lemma plain_env_laws: "text_laws plain_env"
proof -
  have "of_nat (be_nat (be_bytes 16 (unat u))) = u" for u :: uuid
    using id_bytes_roundtrip [of "SecretId u"] by (simp add: id_from_bytes_def del: be_bytes.simps)
  then show ?thesis by (simp add: text_laws_def plain_env_def del: be_bytes.simps)
qed

definition empty_payload :: vault_payload where
  "empty_payload =
     \<lparr>vp_vault_id = id_from_bytes (replicate 16 0x11), vp_revision = 7, vp_records = [],
      vp_idle_timeout = DEFAULT_IDLE_TIMEOUT_SECONDS, vp_unknown = []\<rparr>"

definition empty_payload_bytes :: "byte list" where
  "empty_payload_bytes =
     [0xa4, 0x00, 0x50] @ replicate 16 0x11 @
     [0x01, 0x07, 0x02, 0x80, 0x03, 0xa1, 0x00, 0x19, 0x07, 0x08]"

lemma empty_payload_wf: "payload_wf env cb empty_payload"
  by (simp add: payload_wf_def empty_payload_def unknown_wf_def)

lemma be_bytes_2: "be_bytes 2 n = [of_nat (n div 256 mod 256), of_nat (n mod 256)]"
  by (simp add: numeral_2_eq_2)

lemma encode_empty_body: "encode_body ref_cbor empty_payload = empty_payload_bytes"
  by (simp add: encode_body_def empty_payload_def ref_cbor_def enc_head_def be_bytes_2
      empty_payload_bytes_def id_as_bytes_from_bytes DEFAULT_IDLE_TIMEOUT_SECONDS_def
      del: id_as_bytes.simps be_bytes.simps)

lemma encode_empty_payload: "encode_payload ref_cbor empty_payload = Inr empty_payload_bytes"
proof -
  have "length empty_payload_bytes \<le> MAX_VAULT_PAYLOAD_BYTES"
    by (simp add: empty_payload_bytes_def MAX_VAULT_PAYLOAD_BYTES_def)
  then show ?thesis by (simp add: encode_payload_def encode_empty_body)
qed

text \<open>C11: The codec is a bijection: a byte string decodes to a payload exactly when the payload
  is well formed and the byte string is its encoding. So every well-formed payload that fits
  decodes to itself, a decoded payload is well formed, and a payload has one accepted encoding.\<close>

theorem codec_exact:
  assumes "text_laws env" and "cbor_laws cb"
  shows "decode_payload env cb b = Inr p \<longleftrightarrow> payload_wf env cb p \<and> encode_payload cb p = Inr b"
  using decode_encode [OF assms(2)] decode_reencodes decode_wf [OF assms] by blast

theorem codec_exact_witness:
  "text_laws plain_env \<and> cbor_laws ref_cbor \<and>
   decode_payload plain_env ref_cbor empty_payload_bytes = Inr empty_payload"
  using codec_exact [OF plain_env_laws ref_cbor_laws] plain_env_laws ref_cbor_laws
    empty_payload_wf encode_empty_payload by blast

text \<open>A payload of more than 10,000 records is encoded without complaint but refused by the decoder.\<close>

lemma oversized_payload_undecodable:
  assumes L: "cbor_laws cb" and big: "MAX_RECORDS < length (vp_records p)" "length (vp_records p) < 2 ^ 64"
    and un: "length (vp_unknown p) \<le> MAX_RECORDS"
    and "length (encode_body cb p) \<le> MAX_VAULT_PAYLOAD_BYTES"
  shows "encode_payload cb p = Inr (encode_body cb p)
       \<and> decode_payload env cb (encode_body cb p) = Inl InvalidVaultPayload"
proof
  show "encode_payload cb p = Inr (encode_body cb p)"
    using assms(5) by (simp add: encode_payload_def Let_def)
  have u: "unat (of_nat (4 + length (vp_unknown p)) :: u64) = 4 + length (vp_unknown p)"
    using un by (intro unat_small) (simp add: MAX_RECORDS_def)
  have "unat (of_nat (length (vp_records p)) :: u64) = length (vp_records p)"
    using big(2) by (rule unat_small)
  then have r: "decode_records env cb (cb_write cb (VArray (Some (of_nat (length (vp_records p))))) @ rest) =
      Inl InvalidVaultPayload" for rest
    using big(1) by (simp add: decode_records_def read_written [OF L] definite_len_def)
  have four: "4 + length (vp_unknown p) = Suc (Suc (Suc (Suc (length (vp_unknown p)))))" by simp
  have "decode_entries env cb (Suc (Suc (Suc n))) empty_decode_state
      (cb_write cb (VU8 0) @ cb_write cb (VBytes (id_as_bytes (vp_vault_id p))) @
       cb_write cb (VU8 1) @ cb_write cb (VU64 (vp_revision p)) @
       cb_write cb (VU8 2) @ cb_write cb (VArray (Some (of_nat (length (vp_records p))))) @ rest)
     = Inl InvalidVaultPayload" for n rest
    by (simp add: decode_entry_def decode_value_def read_written [OF L]
        decode_encode_id [OF L] r empty_decode_state_def word_le_nat_alt)
  then show "decode_payload env cb (encode_body cb p) = Inl InvalidVaultPayload"
    using assms(5) u un
    by (simp add: decode_payload_def encode_body_def read_written [OF L] definite_len_Inr four
        del: of_nat_add of_nat_Suc decode_entries.simps)
qed

definition small_record :: secret_record where
  "small_record =
     \<lparr>sr_id = id_from_bytes (replicate 16 0x11), sr_name = SecretName [0x61],
      sr_fields = [\<lparr>sf_name = FieldName [0x62], sf_value = [1], sf_hint = HintBinary\<rparr>]\<rparr>"

definition big_payload :: vault_payload where
  "big_payload = empty_payload\<lparr>vp_records := replicate 10001 small_record\<rparr>"

lemma length_small_record: "length (encode_record ref_cbor small_record) = 33"
  by (simp add: encode_record_def encode_field_def small_record_def ref_cbor_def enc_head_def
      id_as_bytes_from_bytes del: id_as_bytes.simps)

lemma length_big_payload: "length (encode_body ref_cbor big_payload) \<le> MAX_VAULT_PAYLOAD_BYTES"
proof -
  have c: "length (concat (map (encode_record ref_cbor) (replicate n small_record))) = n * 33" for n
    by (induction n) (simp_all add: length_small_record)
  have u: "unat (of_nat (length (replicate 10001 small_record)) :: u64) = 10001" by simp
  show ?thesis
    using c [of 10001] u
    by (simp add: encode_body_def big_payload_def empty_payload_def ref_cbor_def enc_head_def
        DEFAULT_IDLE_TIMEOUT_SECONDS_def MAX_VAULT_PAYLOAD_BYTES_def
        del: id_as_bytes.simps be_bytes.simps)
qed

end
