(* ===== verification/Ladon_Crypto_Properties.thy ===== *)
theory Ladon_Crypto_Properties
  imports Ladon_Crypto Ladon_Codec_Properties
begin

text \<open>
  What the encrypted vault file promises: a created or sealed vault unlocks with its passphrase,
  what unlocks is authenticated as a whole, and a change of the passphrase takes effect or changes
  nothing.
\<close>

section \<open>A vault for evaluation\<close>

lemma demo_header:
  "\<exists>eh. encode_header ref_cbor (default_header salt) = Inr eh" if "length salt = 16"
proof -
  have "length (encode_header_body ref_cbor (default_header salt)) \<le> 4096"
    using that by (simp add: encode_header_body_def default_header_def ref_cbor_def enc_head_def)
  then show ?thesis by (simp add: encode_header_def MAX_HEADER_BYTES_def)
qed

lemma demo_key_material:
  "\<exists>km r'. new_key_material ref_cbor toy_ciphers toy_fill passphrase r = (Inr km, r')"
proof -
  obtain eh where eh: "encode_header ref_cbor (default_header (replicate 16 r)) = Inr eh"
    using demo_header [of "replicate 16 r"] by auto
  then have "length eh \<le> 4096" by (rule encode_header_length)
  with eh show ?thesis
    by (simp add: new_key_material_def bind_random_def toy_fill_def derive_kek_def encrypt_def
        toy_ciphers_def KEY_BYTES_def Let_def)
qed

lemma demo_seal:
  assumes "opens_with ref_cbor toy_ciphers passphrase km" and "encode_payload ref_cbor p = Inr b"
  shows "\<exists>out r'. seal_payload ref_cbor toy_ciphers toy_fill p km r = (Inr out, r')"
proof -
  have "length (km_dek km) = KEY_BYTES" using assms(1) by (auto simp: opens_with_def wraps_def)
  moreover have "length b < 2 ^ 64"
    using assms(2) by (auto simp: encode_payload_def MAX_VAULT_PAYLOAD_BYTES_def Let_def split: if_splits)
  ultimately show ?thesis
    using assms(2) by (simp add: seal_payload_def bind_random_def toy_fill_def encrypt_def
        toy_ciphers_def Let_def)
qed

definition payload_at :: "u64 \<Rightarrow> vault_payload" where
  "payload_at n = empty_payload\<lparr>vp_revision := n\<rparr>"

lemma payload_at_wf: "payload_wf env cb (payload_at n)"
  using empty_payload_wf by (simp add: payload_wf_def payload_at_def)

lemma encode_payload_at: "\<exists>b. encode_payload ref_cbor (payload_at n) = Inr b"
proof -
  have h: "length (enc_head m k) \<le> 9" for m k by (simp add: enc_head_def del: be_bytes.simps)
  have "length (encode_body ref_cbor (payload_at n)) \<le> 100"
    using h [of 0 "unat n"] h [of 0 "Suc 0"] h [of 5 "Suc 0"]
    by (simp add: encode_body_def payload_at_def empty_payload_def ref_cbor_def enc_head_def [of _ "numeral _"]
        enc_head_def [of _ 0] enc_head_def [of _ 1] DEFAULT_IDLE_TIMEOUT_SECONDS_def
        del: be_bytes.simps id_as_bytes.simps)
  then show ?thesis by (simp add: encode_payload_def MAX_VAULT_PAYLOAD_BYTES_def Let_def)
qed

lemma demo_vault_of:
  assumes "encode_payload ref_cbor p = Inr b"
  shows "\<exists>uv out r'. create_vault_with_random ref_cbor toy_ciphers toy_fill p passphrase r
     = (Inr (uv, out), r') \<and> uv_payload uv = p \<and>
       opens_with ref_cbor toy_ciphers passphrase (uv_key_material uv)"
proof -
  obtain km r1 where km: "new_key_material ref_cbor toy_ciphers toy_fill passphrase r = (Inr km, r1)"
    using demo_key_material by blast
  have o: "opens_with ref_cbor toy_ciphers passphrase km"
    using new_key_material_opens [OF toy_cipher_laws toy_random_laws km] .
  obtain out r2 where "seal_payload ref_cbor toy_ciphers toy_fill p km r1 = (Inr out, r2)"
    using demo_seal [OF o assms] by blast
  with km o show ?thesis by (simp add: create_vault_with_random_def bind_random_def)
qed

lemmas demo_vault = demo_vault_of [OF encode_empty_payload]

section \<open>Properties\<close>

text \<open>C24: A vault file that was created unlocks with the passphrase it was created with, to
  the payload and the keys it was created from.\<close>

theorem created_vault_unlocks:
  assumes "cbor_laws cb" and "cipher_laws c" and "random_laws fill" and "payload_wf env cb payload"
    and cr: "create_vault_with_random cb c fill payload passphrase r = (Inr (uv, out), r')"
  shows "unlock_vault env cb c out passphrase = Inr uv \<and> uv_payload uv = payload"
proof -
  from cr obtain km r1 where km: "new_key_material cb c fill passphrase r = (Inr km, r1)"
    and s: "seal_payload cb c fill payload km r1 = (Inr out, r')"
    and uv: "uv = \<lparr>uv_payload = payload, uv_key_material = km\<rparr>"
    by (auto simp: create_vault_with_random_def bind_random_Inr)
  from unlock_sealed [OF assms(1-3) new_key_material_opens [OF assms(2,3) km] assms(4) s] uv
  show ?thesis by simp
qed

theorem created_vault_unlocks_witness:
  "\<exists>uv out. fst (create_vault_with_random ref_cbor toy_ciphers toy_fill empty_payload [1, 2, 3] 0) = Inr (uv, out) \<and>
     unlock_vault plain_env ref_cbor toy_ciphers out [1, 2, 3] = Inr uv \<and> uv_payload uv = empty_payload"
proof -
  obtain uv out r' where c:
    "create_vault_with_random ref_cbor toy_ciphers toy_fill empty_payload [1, 2, 3] 0 = (Inr (uv, out), r')"
    using demo_vault [of "[1, 2, 3]" 0] by blast
  from created_vault_unlocks [OF ref_cbor_laws toy_cipher_laws toy_random_laws empty_payload_wf c] c
  show ?thesis by simp
qed

text \<open>A vault that was unlocked, whatever well-formed payload it then holds, is sealed
  into a file that unlocks with the same passphrase to that payload and the same keys.\<close>

lemma resealed_vault_unlocks:
  assumes "cbor_laws cb" and "cipher_laws c" and "random_laws fill"
    and u: "unlock_vault env cb c old passphrase = Inr uv" and "payload_wf env cb payload"
    and s: "seal cb c fill (uv\<lparr>uv_payload := payload\<rparr>) r = (Inr out, r')"
  shows "unlock_vault env cb c out passphrase = Inr (uv\<lparr>uv_payload := payload\<rparr>)"
proof -
  have "opens_with cb c passphrase (uv_key_material uv)"
    using unlock_Inr [OF u] by (auto simp: opens_with_def)
  moreover have "seal_payload cb c fill payload (uv_key_material uv) r = (Inr out, r')"
    using s by (simp add: seal_def)
  ultimately show ?thesis
    using unlock_sealed [OF assms(1-3) _ assms(5)] by (cases uv) simp
qed

text \<open>C23: What unlocks is authenticated as a whole: the file consists of a canonical header
  with derivation costs inside their bounds, the wrapped data key, the length, and the encrypted
  payload; the data key was unwrapped with the key derived from the passphrase, bound to every byte
  before it, and the payload was decrypted with the data key, bound to every byte before it, and is
  the canonical encoding of the unlocked payload.\<close>

theorem unlock_authenticates_file:
  assumes T: "text_laws env" and L: "cbor_laws cb" and u: "unlock_vault env cb c out passphrase = Inr uv"
  shows "\<exists>h eh nonce wrapped kek n pnonce enc plaintext.
     encode_header cb h = Inr eh \<and> valid_bounds h \<and> derive_kek c passphrase h = Inr kek \<and>
     decrypt c kek nonce wrapped (DEK_DOMAIN @ prefix_before_dek eh) = Inr (km_dek (uv_key_material uv)) \<and>
     out = prefix_before_dek eh @ nonce @ wrapped @ be_bytes 8 n @ pnonce @ enc \<and>
     decrypt c (km_dek (uv_key_material uv)) pnonce enc
       (PAYLOAD_DOMAIN @ prefix_before_dek eh @ nonce @ wrapped @ be_bytes 8 n) = Inr plaintext \<and>
     encode_payload cb (uv_payload uv) = Inr plaintext \<and> payload_wf env cb (uv_payload uv)"
proof -
  from unlock_Inr [OF u] obtain h eh nonce wrapped n pnonce enc plaintext where
    w: "wraps cb c passphrase (uv_key_material uv) h eh nonce wrapped" and
    o: "out = km_prefix (uv_key_material uv) @ be_bytes 8 n @ pnonce @ enc" and
    d: "decrypt c (km_dek (uv_key_material uv)) pnonce enc
       (associated_data PAYLOAD_DOMAIN (km_prefix (uv_key_material uv) @ be_bytes 8 n)) = Inr plaintext" and
    p: "decode_payload env cb plaintext = Inr (uv_payload uv)"
    by blast
  have p': "encode_payload cb (uv_payload uv) = Inr plaintext" "payload_wf env cb (uv_payload uv)"
    using decode_reencodes [OF p] decode_wf [OF T L p] by auto
  from w obtain kek where k: "derive_kek c passphrase h = Inr kek"
    "decrypt c kek nonce wrapped (DEK_DOMAIN @ prefix_before_dek eh) = Inr (km_dek (uv_key_material uv))"
    by (auto simp: wraps_def associated_data_def)
  have h: "encode_header cb h = Inr eh" "valid_bounds h" and
    km: "km_prefix (uv_key_material uv) = prefix_before_dek eh @ nonce @ wrapped"
    using w by (simp_all add: wraps_def)
  have o': "out = prefix_before_dek eh @ nonce @ wrapped @ be_bytes 8 n @ pnonce @ enc"
    using o unfolding km append.assoc .
  have d': "decrypt c (km_dek (uv_key_material uv)) pnonce enc
       (PAYLOAD_DOMAIN @ prefix_before_dek eh @ nonce @ wrapped @ be_bytes 8 n) = Inr plaintext"
    using d unfolding km associated_data_def append.assoc .
  show ?thesis
    by (intro exI conjI) (rule h(1), rule h(2), rule k(1), rule k(2), rule o', rule d', rule p'(1), rule p'(2))
qed

theorem unlock_authenticates_file_witness:
  "\<exists>uv out h eh rest. unlock_vault plain_env ref_cbor toy_ciphers out [1, 2, 3] = Inr uv \<and>
     encode_header ref_cbor h = Inr eh \<and> valid_bounds h \<and> out = prefix_before_dek eh @ rest"
proof -
  obtain uv out r' where c:
    "create_vault_with_random ref_cbor toy_ciphers toy_fill empty_payload [1, 2, 3] 0 = (Inr (uv, out), r')"
    using demo_vault [of "[1, 2, 3]" 0] by blast
  obtain km r1 where km: "new_key_material ref_cbor toy_ciphers toy_fill [1, 2, 3] 0 = (Inr km, r1)"
    and s: "seal_payload ref_cbor toy_ciphers toy_fill empty_payload km r1 = (Inr out, r')"
    using c by (auto simp: create_vault_with_random_def bind_random_Inr)
  have u: "\<exists>uv. unlock_vault plain_env ref_cbor toy_ciphers out [1, 2, 3] = Inr uv"
    using unlock_sealed [OF ref_cbor_laws toy_cipher_laws toy_random_laws
        new_key_material_opens [OF toy_cipher_laws toy_random_laws km] empty_payload_wf s] by blast
  then show ?thesis
    using unlock_authenticates_file [OF plain_env_laws ref_cbor_laws] by blast
qed

lemma rotation_outcome:
  assumes "cbor_laws cb" and "cipher_laws c" and "random_laws fill"
    and wf: "payload_wf env cb (uv_payload uv)"
  shows "case rotate_passphrase cb c fill current_pass new_pass uv r of
      (Inl e, uv', r') \<Rightarrow> uv' = uv
    | (Inr out, uv', r') \<Rightarrow>
        verify_current_passphrase cb c (uv_key_material uv) current_pass = Inr () \<and>
        uv_payload uv' = uv_payload uv \<and> unlock_vault env cb c out new_pass = Inr uv'"
proof (cases "verify_current_passphrase cb c (uv_key_material uv) current_pass")
  case (Inl e)
  then show ?thesis by (simp add: rotate_passphrase_def)
next
  case (Inr u)
  obtain kr r1 where n: "new_key_material cb c fill new_pass r = (kr, r1)"
    by (cases "new_key_material cb c fill new_pass r")
  show ?thesis
  proof (cases kr)
    case (Inl e)
    with n Inr show ?thesis by (simp add: rotate_passphrase_def)
  next
    case km: (Inr km)
    obtain sr r2 where s: "seal_payload cb c fill (uv_payload uv) km r1 = (sr, r2)"
      by (cases "seal_payload cb c fill (uv_payload uv) km r1")
    have o: "opens_with cb c new_pass km"
      using new_key_material_opens [OF assms(2,3)] n km by blast
    show ?thesis
      using unlock_sealed [OF assms(1-3) o wf, of r1] s n km Inr
      by (cases sr; cases uv) (simp_all add: rotate_passphrase_def)
  qed
qed

text \<open>A change of the passphrase either fails and leaves the vault as it was, or the current
  passphrase was checked against the wrapped key and the returned file unlocks with the new
  passphrase to the same payload; the current passphrase always passes that check on a vault that
  opens with it.\<close>

theorem passphrase_rotation:
  assumes "cbor_laws cb" and "cipher_laws c" and "random_laws fill"
    and wf: "payload_wf env cb (uv_payload uv)"
  shows "(\<forall>old. unlock_vault env cb c old current_pass = Inr uv \<longrightarrow>
       verify_current_passphrase cb c (uv_key_material uv) current_pass = Inr ()) \<and>
    (case rotate_passphrase cb c fill current_pass new_pass uv r of
      (Inl e, uv', r') \<Rightarrow> uv' = uv
    | (Inr out, uv', r') \<Rightarrow>
        verify_current_passphrase cb c (uv_key_material uv) current_pass = Inr () \<and>
        uv_payload uv' = uv_payload uv \<and> unlock_vault env cb c out new_pass = Inr uv')"
proof (intro conjI allI impI)
  fix old assume "unlock_vault env cb c old current_pass = Inr uv"
  then have "opens_with cb c current_pass (uv_key_material uv)"
    using unlock_Inr by (fastforce simp: opens_with_def)
  then show "verify_current_passphrase cb c (uv_key_material uv) current_pass = Inr ()"
    by (rule verify_wraps [OF assms(1)])
next
  show "case rotate_passphrase cb c fill current_pass new_pass uv r of
      (Inl e, uv', r') \<Rightarrow> uv' = uv
    | (Inr out, uv', r') \<Rightarrow>
        verify_current_passphrase cb c (uv_key_material uv) current_pass = Inr () \<and>
        uv_payload uv' = uv_payload uv \<and> unlock_vault env cb c out new_pass = Inr uv'"
    by (rule rotation_outcome [OF assms])
qed

theorem passphrase_rotation_witness:
  "\<exists>uv. uv_payload uv = empty_payload \<and> payload_wf plain_env ref_cbor (uv_payload uv) \<and>
     verify_current_passphrase ref_cbor toy_ciphers (uv_key_material uv) [1, 2, 3] = Inr () \<and>
     (case rotate_passphrase ref_cbor toy_ciphers toy_fill [1, 2, 3] [4] uv 0 of
        (Inl e, uv', r') \<Rightarrow> uv' = uv
      | (Inr out, uv', r') \<Rightarrow> unlock_vault plain_env ref_cbor toy_ciphers out [4] = Inr uv')"
proof -
  obtain uv :: unlocked_vault where o: "opens_with ref_cbor toy_ciphers [1, 2, 3] (uv_key_material uv)"
    and p: "uv_payload uv = empty_payload"
    using demo_vault [of "[1, 2, 3]" 0] by blast
  have wf: "payload_wf plain_env ref_cbor (uv_payload uv)" by (simp add: p empty_payload_wf)
  show ?thesis
    using passphrase_rotation [OF ref_cbor_laws toy_cipher_laws toy_random_laws wf,
        of "[1, 2, 3]" "[4]" 0] verify_wraps [OF ref_cbor_laws o] p wf
    by (intro exI [of _ uv]) (auto split: prod.splits sum.splits)
qed

end
