(* ===== verification/Ladon_Store_Properties.thy ===== *)
theory Ladon_Store_Properties
  imports Ladon_Store Ladon_Crypto_Properties
begin

text \<open>
  What the vault store promises: a commit is safe against an interruption at any point and against
  the failure of any call into the file system, and what was committed is what opens.
\<close>

lemma commit_encrypted_between:
  assumes p: "first \<noteq> vs_primary store" "first \<noteq> vs_backup store"
      "second \<noteq> vs_primary store" "second \<noteq> vs_backup store" "vs_primary store \<noteq> vs_backup store"
  shows "between store new d (snd (commit_encrypted store first second ios io1 io2 new d))"
    and "fst (commit_encrypted store first second ios io1 io2 new d) = Inr () \<Longrightarrow> length ios = 8 \<Longrightarrow>
      commit_assertion store first second new d 8 (snd (commit_encrypted store first second ios io1 io2 new d))"
proof -
  obtain res d' where r: "run_steps (zip (commit_steps store first second new) ios) d = (res, d')"
    by (cases "run_steps (zip (commit_steps store first second new) ios) d")
  note run = commit_run [OF p r]
  have "between store new d (remove_file second io2 (remove_file first io1 d'))"
    using run p by (simp add: remove_between)
  with run show "between store new d (snd (commit_encrypted store first second ios io1 io2 new d))"
    by (simp add: commit_encrypted_def r split: sum.split)
  assume "fst (commit_encrypted store first second ios io1 io2 new d) = Inr ()" "length ios = 8"
  with run show "commit_assertion store first second new d 8 (snd (commit_encrypted store first second ios io1 io2 new d))"
    by (cases res) (simp_all add: commit_encrypted_def r)
qed

section \<open>Properties\<close>

text \<open>C8: A commit interrupted anywhere, with any of its file-system calls failing, leaves the two
  managed copies both old, or the backup new and the primary old, or both new: never a partial
  file, and never a new primary without a new backup. The same holds after a commit that reports an
  error; one that succeeds leaves both copies new and no candidate file.\<close>

theorem commit_crash_safe:
  "let store = new_vault_store primary;
       first = candidate_path as_simple u1 store; second = candidate_path as_simple u2 store;
       (res, d') = commit_encrypted store first second ios io1 io2 new d
   in between store new d (snd (run_steps (zip (commit_steps store first second new) ios) d))
    \<and> between store new d d'
    \<and> (res = Inr () \<longrightarrow> length ios = 8 \<longrightarrow>
        d' (vs_primary store) = Some new \<and> d' (vs_backup store) = Some new \<and>
        d' first = None \<and> d' second = None)"
proof -
  let ?store = "new_vault_store primary"
  let ?first = "candidate_path as_simple u1 ?store" and ?second = "candidate_path as_simple u2 ?store"
  have p: "?first \<noteq> vs_primary ?store" "?first \<noteq> vs_backup ?store"
      "?second \<noteq> vs_primary ?store" "?second \<noteq> vs_backup ?store" "vs_primary ?store \<noteq> vs_backup ?store"
    using candidate_not_managed managed_distinct by simp_all
  obtain res d' where c: "commit_encrypted ?store ?first ?second ios io1 io2 new d = (res, d')"
    by (cases "commit_encrypted ?store ?first ?second ios io1 io2 new d")
  have "between ?store new d (snd (run_steps (zip (commit_steps ?store ?first ?second new) ios) d))"
    using commit_run [OF p, of new ios d]
    by (cases "run_steps (zip (commit_steps ?store ?first ?second new) ios) d") simp
  with commit_encrypted_between(1) [OF p, of new d ios io1 io2]
    commit_encrypted_between(2) [OF p, of ios io1 io2 new d] c show ?thesis
    by (simp add: commit_assertion_def)
qed

definition demo_simple :: "uuid \<Rightarrow> str" where
  "demo_simple u = [ucast u]"

definition all_ok :: "io_outcome list" where
  "all_ok = [IoOk, IoOk, IoOk, IoOk, IoOk, IoOk, IoOk, IoOk]"

theorem commit_crash_safe_witness:
  "let store = new_vault_store ([], [0x76]);
       first = candidate_path demo_simple 1 store; second = candidate_path demo_simple 2 store;
       (res, d') = commit_encrypted store first second all_ok IoOk IoOk [7] Map.empty
   in res = Inr () \<and> d' (vs_primary store) = Some [7] \<and> d' (vs_backup store) = Some [7] \<and> d' first = None"
proof -
  let ?store = "new_vault_store ([], [0x76])"
  let ?first = "candidate_path demo_simple 1 ?store" and ?second = "candidate_path demo_simple 2 ?store"
  have ne: "?first \<noteq> ?second"
    by (simp add: candidate_path_def demo_simple_def)
  have p: "?first \<noteq> vs_primary ?store" "?first \<noteq> vs_backup ?store"
      "?second \<noteq> vs_primary ?store" "?second \<noteq> vs_backup ?store" "vs_primary ?store \<noteq> vs_backup ?store"
    using candidate_not_managed managed_distinct by simp_all
  obtain d' where c:
    "commit_encrypted ?store ?first ?second all_ok IoOk IoOk [7] Map.empty = (Inr (), d')"
    using ne p by (simp add: commit_encrypted_def commit_steps_def all_ok_def write_candidate_def
        verify_candidate_def atomic_replace_def sync_parent_def)
  show ?thesis
    using commit_crash_safe [of "([], [0x76])" demo_simple 1 2 all_ok IoOk IoOk "[7]" Map.empty] c
    by (simp add: all_ok_def Let_def)
qed


section \<open>Opening after a commit\<close>

lemma open_copy_Some:
  "d p = Some bs \<Longrightarrow> length bs \<le> MAX_VAULT_FILE_BYTES \<Longrightarrow> unlock_vault env cb c bs passphrase = Inr uv \<Longrightarrow>
     open_copy env cb c passphrase IoOk p d = Some uv"
  by (simp add: open_copy_def)

lemma sealed_file_length:
  assumes "cipher_laws c" "random_laws fill" and w: "opens_with cb c passphrase km"
    and s: "seal_payload cb c fill p km r = (Inr out, r')"
  shows "length out \<le> MAX_VAULT_FILE_BYTES"
proof -
  from w obtain h eh nonce wrapped where
    "encode_header cb h = Inr eh" "length nonce = NONCE_BYTES" "length wrapped = WRAPPED_DEK_BYTES"
    "km_prefix km = prefix_before_dek eh @ nonce @ wrapped"
    by (auto simp: opens_with_def wraps_def)
  moreover have "length eh \<le> 4096" using calculation(1) by (rule encode_header_length)
  ultimately show ?thesis
    using seal_payload_parts [OF assms(1,2) s]
    by (auto simp: MAX_VAULT_FILE_BYTES_def layout_defs)
qed

text \<open>C30: When the primary copy opens to a vault and a commit of a newer state of it is
  interrupted anywhere or fails, opening yields the old vault or the new one; if the backup was already
  replaced while the primary was not, the new state is offered next to the old vault.\<close>

theorem interrupted_commit_opens:
  assumes old: "d (vs_primary store) = Some old_bytes" "length old_bytes \<le> MAX_VAULT_FILE_BYTES"
      "unlock_vault env cb c old_bytes passphrase = Inr old"
    and new: "length new_bytes \<le> MAX_VAULT_FILE_BYTES" "unlock_vault env cb c new_bytes passphrase = Inr nv"
      "vp_vault_id (uv_payload nv) = vp_vault_id (uv_payload old)"
      "vp_revision (uv_payload old) < vp_revision (uv_payload nv)"
    and b: "between store new_bytes d d'"
  shows "(d' (vs_primary store) = Some new_bytes \<and> d' (vs_backup store) = Some new_bytes \<and>
         open_vault env cb c store passphrase IoOk IoOk d' = Inr (OpenPrimary nv None))
      \<or> (d' (vs_primary store) = d (vs_primary store) \<and> d' (vs_backup store) = Some new_bytes \<and>
         open_vault env cb c store passphrase IoOk IoOk d' = Inr (OpenPrimary old (Some nv)))
      \<or> (d' (vs_primary store) = d (vs_primary store) \<and> d' (vs_backup store) = d (vs_backup store) \<and>
         open_vault env cb c store passphrase IoOk IoOk d' = open_vault env cb c store passphrase IoOk IoOk d)"
  using b unfolding between_def
proof (elim disjE conjE)
  assume d': "d' (vs_primary store) = d (vs_primary store)" "d' (vs_backup store) = d (vs_backup store)"
  then have "open_vault env cb c store passphrase IoOk IoOk d' = open_vault env cb c store passphrase IoOk IoOk d"
    by (simp add: open_vault_def open_copy_def)
  with d' show ?thesis by simp
next
  assume d': "d' (vs_primary store) = d (vs_primary store)" "d' (vs_backup store) = Some new_bytes"
  then show ?thesis
    using open_copy_Some [of d' "vs_primary store"] open_copy_Some [of d' "vs_backup store"] old new
    by (simp add: open_vault_def)
next
  assume "d' (vs_primary store) = Some new_bytes" "d' (vs_backup store) = Some new_bytes"
  then show ?thesis
    using open_copy_Some [of d' "vs_primary store"] open_copy_Some [of d' "vs_backup store"] new
    by (simp add: open_vault_def)
qed

lemma demo_file:
  "\<exists>uv out. unlock_vault plain_env ref_cbor toy_ciphers out [1] = Inr uv \<and> uv_payload uv = payload_at n \<and>
     length out \<le> MAX_VAULT_FILE_BYTES"
proof -
  obtain b where "encode_payload ref_cbor (payload_at n) = Inr b" using encode_payload_at by blast
  then obtain uv out r' where c:
    "create_vault_with_random ref_cbor toy_ciphers toy_fill (payload_at n) [1] 0 = (Inr (uv, out), r')"
    and p: "uv_payload uv = payload_at n" using demo_vault_of [of "payload_at n" b "[1]" 0] by blast
  then obtain km r1 where km: "new_key_material ref_cbor toy_ciphers toy_fill [1] 0 = (Inr km, r1)"
    and s: "seal_payload ref_cbor toy_ciphers toy_fill (payload_at n) km r1 = (Inr out, r')"
    by (auto simp: create_vault_with_random_def bind_random_Inr)
  note o = new_key_material_opens [OF toy_cipher_laws toy_random_laws km]
  have "length out \<le> MAX_VAULT_FILE_BYTES" by (rule sealed_file_length [OF toy_cipher_laws toy_random_laws o s])
  moreover have "\<exists>uv. unlock_vault plain_env ref_cbor toy_ciphers out [1] = Inr uv \<and> uv_payload uv = payload_at n"
    using unlock_sealed [OF ref_cbor_laws toy_cipher_laws toy_random_laws o payload_at_wf s] by auto
  ultimately show ?thesis by blast
qed

theorem interrupted_commit_opens_witness:
  "\<exists>old_bytes new_bytes old nv. old_bytes \<noteq> new_bytes \<and>
     open_vault plain_env ref_cbor toy_ciphers (new_vault_store ([], [0x76])) [1] IoOk IoOk
       ([([], [0x76]) \<mapsto> old_bytes, ([], [0x76] @ ascii ''.bak'') \<mapsto> new_bytes]) = Inr (OpenPrimary old (Some nv)) \<and>
     vp_revision (uv_payload nv) = 8"
proof -
  let ?store = "new_vault_store ([], [0x76])"
  obtain old ob where o: "unlock_vault plain_env ref_cbor toy_ciphers ob [1] = Inr old"
    "uv_payload old = payload_at 7" "length ob \<le> MAX_VAULT_FILE_BYTES" using demo_file by blast
  obtain nv nb where n: "unlock_vault plain_env ref_cbor toy_ciphers nb [1] = Inr nv"
    "uv_payload nv = payload_at 8" "length nb \<le> MAX_VAULT_FILE_BYTES" using demo_file by blast
  let ?d = "[vs_primary ?store \<mapsto> ob]" and ?d' = "[vs_primary ?store \<mapsto> ob, vs_backup ?store \<mapsto> nb]"
  have "vp_revision (uv_payload old) \<noteq> vp_revision (uv_payload nv)" using o n by (simp add: payload_at_def)
  then have ne: "ob \<noteq> nb" using o n by auto
  have b: "between ?store nb ?d ?d'" by (auto simp: between_def new_vault_store_def ascii_def)
  have "open_vault plain_env ref_cbor toy_ciphers ?store [1] IoOk IoOk ?d' = Inr (OpenPrimary old (Some nv))"
    using interrupted_commit_opens [OF _ o(3,1) n(3,1) _ _ b] o(2) n(2) ne
    by (auto simp: payload_at_def new_vault_store_def ascii_def)
  with ne n(2) show ?thesis
    by (intro exI [of _ ob] exI [of _ nb] exI [of _ old] exI [of _ nv])
      (simp add: new_vault_store_def payload_at_def)
qed

text \<open>What is committed is what opens: after a successful commit of a vault whose keys open
  with the passphrase, opening the store with that passphrase yields that vault from the primary copy,
  and no newer backup.\<close>

lemma commit_opens:
  assumes L: "cbor_laws cb" "cipher_laws c" "random_laws fill"
    and o: "opens_with cb c passphrase (uv_key_material uv)" and wf: "payload_wf env cb (uv_payload uv)"
    and store: "store = new_vault_store primary"
      "first = candidate_path as_simple u1 store" "second = candidate_path as_simple u2 store"
    and cm: "commit cb c fill store first second ios io1 io2 uv r d = (Inr (), r', d')" "length ios = 8"
  shows "open_vault env cb c store passphrase IoOk IoOk d' = Inr (OpenPrimary uv None)"
proof -
  from cm obtain out where s: "seal_payload cb c fill (uv_payload uv) (uv_key_material uv) r = (Inr out, r')"
    and c: "commit_encrypted store first second ios io1 io2 out d = (Inr (), d')"
    by (auto simp: commit_def seal_def split: prod.splits sum.splits)
  have p: "first \<noteq> vs_primary store" "first \<noteq> vs_backup store"
      "second \<noteq> vs_primary store" "second \<noteq> vs_backup store" "vs_primary store \<noteq> vs_backup store"
    using candidate_not_managed managed_distinct by (simp_all add: store)
  have "d' (vs_primary store) = Some out" "d' (vs_backup store) = Some out"
    using commit_encrypted_between(2) [OF p, of ios io1 io2 out d] c cm(2)
    by (simp_all add: commit_assertion_def)
  moreover have "unlock_vault env cb c out passphrase = Inr uv"
    using unlock_sealed [OF L o wf s] by (cases uv) simp
  moreover have "length out \<le> MAX_VAULT_FILE_BYTES" by (rule sealed_file_length [OF L(2,3) o s])
  ultimately show ?thesis by (simp add: open_vault_def open_copy_def)
qed

end
