(* ===== verification/Ladon_Vault_Properties.thy ===== *)
theory Ladon_Vault_Properties
  imports Ladon_Vault Ladon_Store_Properties
begin

text \<open>
  What a vault session promises: the invariant of its records along every run, the meaning of the
  revision, the refinement of an abstract map, reading back what was added, and the limit on the
  number of records that adding does not enforce.
\<close>

section \<open>Properties\<close>

text \<open>C34: Along every run of a vault session names and identifiers of records are distinct and every
  record is well formed, and a replacement that was prepared is out of date or still fits: applying
  it cannot bring in a duplicate.\<close>

theorem vault_invariant:
  assumes "text_laws env" and "records_ok env (session_records s)"
  shows "vault_inv env (fold (exec_vault env) ops (s, []))"
  using vault.run_inv [of env "(s, [])" ops] assms by simp

lemma run_revision:
  assumes L: "text_laws env" and inv: "vault_inv env st"
  shows "unat (session_revision (fst st)) \<le> unat (session_revision (fst (fold (exec_vault env) ops st))) \<and>
    (session_revision (fst (fold (exec_vault env) ops st)) = session_revision (fst st) \<longrightarrow>
     session_payload (fst (fold (exec_vault env) ops st)) = session_payload (fst st))"
  using inv
proof (induction ops arbitrary: st)
  case Nil
  then show ?case by simp
next
  case (Cons op ops)
  let ?st = "exec_vault env op st"
  have inv': "vault_inv env ?st" using exec_vault_inv [OF L Cons.prems] .
  have step: "session_payload (fst ?st) = session_payload (fst st) \<or>
      unat (session_revision (fst ?st)) = Suc (unat (session_revision (fst st)))"
    using exec_step_ok [OF L Cons.prems] by (auto simp: exec_vault_def vault_step_ok_def)
  show ?case
    using Cons.IH [OF inv'] step by (auto simp: session_revision_def)
qed

text \<open>The revision of a session never goes back, and as long as it is the same the whole
  payload is the same: comparing revisions is enough to detect that a prepared replacement is
  stale.\<close>

theorem revision_detects_change:
  assumes "text_laws env" and "records_ok env (session_records s)"
  shows "unat (session_revision s) \<le> unat (session_revision (fst (fold (exec_vault env) ops (s, [])))) \<and>
    (session_revision (fst (fold (exec_vault env) ops (s, []))) = session_revision s \<longrightarrow>
     session_payload (fst (fold (exec_vault env) ops (s, []))) = session_payload s)"
  using run_revision [of env "(s, [])" ops] assms by (simp add: vault_inv_def)

text \<open>C25: Every operation of a session leaves the payload as it was, or adds one to the revision and
  is the corresponding step of an abstract map from identifiers to names and fields: adding binds a
  fresh identifier, renaming and replacing update the binding that the reference denotes, deleting
  removes it.\<close>

theorem vault_refines_map:
  assumes "vault_inv env st" and "input_ok st op"
  shows "session_payload (fst (exec_vault env op st)) = session_payload (fst st) \<or>
    (unat (session_revision (fst (exec_vault env op st))) = Suc (unat (session_revision (fst st))) \<and>
     map_step env op (vault_map (session_records (fst st)))
       (vault_map (session_records (fst (exec_vault env op st)))))"
  using exec_simulates [OF assms] assms(2) by (simp add: exec_vault_def simulates_def)

lemma position_snoc: "position P xs = None \<Longrightarrow> P y \<Longrightarrow> position P (xs @ [y]) = Some (length xs)"
  by (induction xs) (auto split: if_splits)

lemma find_distinct:
  "distinct (map g xs) \<Longrightarrow> x \<in> set xs \<Longrightarrow> List.find (\<lambda>y. g y = g x) xs = Some x"
  by (induction xs) auto

lemma mutate_succeeds:
  assumes "session_revision s \<noteq> - 1"
  shows "\<exists>s'. mutate f s = (Inr (), s') \<and> session_records s' = f (session_records s) \<and>
     uv_key_material (vss_vault s') = uv_key_material (vss_vault s) \<and>
     vp_unknown (session_payload s') = vp_unknown (session_payload s)"
  using assms
  by (simp add: mutate_def increment_revision_def checked_add_one session_revision_def
      record_activity_def set_payload_def)

lemma add_succeeds:
  assumes "new_secret_record env fresh name flds = Inr r"
    and "\<not> list_ex (\<lambda>x. sr_name x = sr_name r) (session_records s)" and "session_revision s \<noteq> - 1"
  shows "\<exists>s'. add env fresh name flds s = (Inr (SecretId fresh), s') \<and>
     session_records s' = session_records s @ [r] \<and>
     uv_key_material (vss_vault s') = uv_key_material (vss_vault s) \<and>
     vp_unknown (session_payload s') = vp_unknown (session_payload s)"
proof -
  have "sr_id r = SecretId fresh"
    using assms(1) by (auto simp: new_secret_record_def from_parts_Inr)
  with mutate_succeeds [OF assms(3), of "\<lambda>recs. recs @ [r]"] assms(1,2) show ?thesis
    by (auto simp: add_def)
qed

text \<open>A record with a valid new name and valid fields is added unless the revision is
  exhausted, under its fresh identifier, and every field of it can then be read back by that
  identifier with the value it was added with.\<close>

lemma added_secret_readable:
  assumes new: "new_secret_record env fresh name flds = Inr r"
    and "\<not> list_ex (\<lambda>x. sr_name x = sr_name r) (session_records s)" and "session_revision s \<noteq> - 1"
    and fresh: "SecretId fresh \<notin> sr_id ` set (session_records s)"
  shows "\<exists>s'. add env fresh name flds s = (Inr (SecretId fresh), s') \<and>
     (\<forall>f \<in> set flds. fst (with_field (RefId (SecretId fresh)) (sf_name f) operation s') = Inr (operation (sf_value f)))"
proof -
  from add_succeeds [OF assms(1-3)] obtain s' where a: "add env fresh name flds s = (Inr (SecretId fresh), s')"
    and recs: "session_records s' = session_records s @ [r]" by blast
  have r: "sr_id r = SecretId fresh" "sr_fields r = flds" "distinct (map sf_name flds)"
    using new by (auto simp: new_secret_record_def from_parts_Inr)
  have "position (matches (RefId (SecretId fresh))) (session_records s) = None"
    using fresh by (force simp: position_None)
  then have "find_record_index (session_records s') (RefId (SecretId fresh)) = Inr (length (session_records s))"
    by (simp add: recs find_record_index_def position_snoc r)
  moreover have "List.find (\<lambda>g. sf_name g = sf_name f) flds = Some f" if "f \<in> set flds" for f
    using find_distinct [OF r(3) that] .
  ultimately have "\<forall>f \<in> set flds. fst (with_field (RefId (SecretId fresh)) (sf_name f) operation s') = Inr (operation (sf_value f))"
    by (simp add: with_field_def recs r)
  with a show ?thesis by blast
qed

section \<open>The limit on records is not enforced when adding\<close>

text \<open>C37: A session with 10,000 records accepts one more. If the payload still fits, the
  session seals it into a file, and that file does not unlock, with any passphrase whose key unwraps
  the data key: the decoder refuses the number of records.\<close>

theorem add_exceeds_record_limit:
  assumes L: "cbor_laws cb" "cipher_laws c" "random_laws fill"
    and o: "opens_with cb c passphrase (uv_key_material (vss_vault s))"
    and new: "new_secret_record env fresh name flds = Inr r"
      "\<not> list_ex (\<lambda>x. sr_name x = sr_name r) (session_records s)" "session_revision s \<noteq> - 1"
    and full: "length (session_records s) = MAX_RECORDS" "length (vp_unknown (session_payload s)) \<le> MAX_RECORDS"
    and s: "session_seal cb c fill (snd (add env fresh name flds s)) rnd = (Inr out, rnd')"
  shows "fst (add env fresh name flds s) = Inr (SecretId fresh) \<and>
     unlock_vault env cb c out passphrase = Inl VaultAuthenticationFailed"
proof -
  from add_succeeds [OF new] obtain s' where a: "add env fresh name flds s = (Inr (SecretId fresh), s')"
    and s': "session_records s' = session_records s @ [r]" "uv_key_material (vss_vault s') = uv_key_material (vss_vault s)"
      "vp_unknown (session_payload s') = vp_unknown (session_payload s)" by blast
  let ?p = "session_payload s'" and ?km = "uv_key_material (vss_vault s)"
  have sp: "seal_payload cb c fill ?p ?km rnd = (Inr out, rnd')"
    using s a s' by (simp add: session_seal_def seal_def)
  from seal_payload_parts [OF L(2,3) sp] obtain plaintext pnonce enc where
    e: "encode_payload cb ?p = Inr plaintext" and
    l: "length plaintext \<le> MAX_VAULT_PAYLOAD_BYTES" "length pnonce = NONCE_BYTES"
      "length enc = length plaintext + TAG_BYTES" and
    f: "out = km_prefix ?km @ be_bytes 8 (length plaintext) @ pnonce @ enc" and
    d: "decrypt c (km_dek ?km) pnonce enc
       (associated_data PAYLOAD_DOMAIN (km_prefix ?km @ be_bytes 8 (length plaintext))) = Inr plaintext"
    by blast
  from o obtain h eh nonce wrapped where w: "wraps cb c passphrase ?km h eh nonce wrapped"
    by (auto simp: opens_with_def)
  have "plaintext = encode_body cb ?p" using e by (auto simp: encode_payload_def Let_def split: if_splits)
  then have "decode_payload env cb plaintext = Inl InvalidVaultPayload"
    using oversized_payload_undecodable [OF L(1), of ?p env] full s' l(1) by (simp add: MAX_RECORDS_def)
  with parse_sealed [OF L(1) w l] d w a show ?thesis
    by (auto simp: unlock_vault_def f wraps_def)
qed


section \<open>A session for evaluation\<close>

definition demo_field :: secret_field where
  "demo_field = \<lparr>sf_name = FieldName [0x62], sf_value = [9], sf_hint = HintBinary\<rparr>"

definition demo_record :: secret_record where
  "demo_record = \<lparr>sr_id = SecretId 5, sr_name = SecretName [0x63], sr_fields = [demo_field]\<rparr>"

lemma demo_new_record: "new_secret_record plain_env 5 [0x63] [demo_field] = Inr demo_record"
  by (simp add: new_secret_record_def from_parts_def parse_secret_name_def plain_env_def demo_record_def
      valid_secret_name_def MAX_FIELDS_PER_RECORD_def ascii_def sublist_def starts_with_def chars.simps
      utf8_width_def is_forbidden_name_character_def codepoint_def)


definition demo_session :: vault_session where
  "demo_session = new_vault_session
     \<lparr>uv_payload = payload_at 7, uv_key_material = \<lparr>km_prefix = [], km_dek = []\<rparr>\<rparr>"

definition demo_add :: vault_op where
  "demo_add = AddOp 5 [0x63] [demo_field]"

lemma demo_session_ok:
  "records_ok plain_env (session_records demo_session)" "vault_inv plain_env (demo_session, [])"
  "session_records demo_session = []" "session_revision demo_session = 7"
  by (simp_all add: records_ok_def vault_inv_def demo_session_def new_vault_session_def payload_at_def
      empty_payload_def session_revision_def)

lemma demo_add_ok: "input_ok (demo_session, []) demo_add"
proof -
  have "valid_utf8 [0x63 :: byte]" by (rule ascii_valid_utf8) simp
  then show ?thesis
    by (simp add: demo_add_def demo_session_ok demo_field_def field_wf_def valid_field_name_def
        is_ascii_alphabetic_def MAX_FIELD_BYTES_def)
qed

theorem vault_invariant_witness:
  "vault_inv plain_env (fold (exec_vault plain_env) [demo_add, DeleteOp (RefId (SecretId 5))] (demo_session, []))"
  using vault_invariant [OF plain_env_laws demo_session_ok(1)] .

theorem revision_detects_change_witness:
  "7 \<le> unat (session_revision (fst (fold (exec_vault plain_env) [demo_add] (demo_session, []))))"
  using revision_detects_change [OF plain_env_laws demo_session_ok(1), of "[demo_add]"]
  by (simp add: demo_session_ok)

theorem vault_refines_map_witness:
  "input_ok (demo_session, []) demo_add \<and>
   map_step plain_env demo_add Map.empty [SecretId 5 \<mapsto> (SecretName [0x63], [demo_field])] \<and>
   (session_payload (fst (exec_vault plain_env demo_add (demo_session, []))) = session_payload demo_session \<or>
    map_step plain_env demo_add Map.empty
      (vault_map (session_records (fst (exec_vault plain_env demo_add (demo_session, []))))))"
proof -
  have "parse_secret_name plain_env [0x63] = Inr (SecretName [0x63])"
    using demo_new_record by (auto simp: new_secret_record_def from_parts_Inr demo_record_def)
  then have "map_step plain_env demo_add Map.empty [SecretId 5 \<mapsto> (SecretName [0x63], [demo_field])]"
    by (simp add: demo_add_def)
  moreover have "vault_map (session_records demo_session) = Map.empty"
    by (simp add: demo_session_ok vault_map_def)
  ultimately show ?thesis
    using vault_refines_map [OF demo_session_ok(2) demo_add_ok] demo_add_ok by auto
qed

definition full_payload :: "u64 \<Rightarrow> secret_record list \<Rightarrow> vault_payload" where
  "full_payload n recs = (payload_at n)\<lparr>vp_records := recs\<rparr>"

lemma encode_full_payload:
  "\<exists>b. encode_payload ref_cbor (full_payload n (replicate 10000 small_record @ [demo_record])) = Inr b"
proof -
  let ?recs = "replicate 10000 small_record @ [demo_record]"
  have h: "length (enc_head m k) \<le> 9" for m k by (simp add: enc_head_def del: be_bytes.simps)
  have c: "length (concat (map (encode_record ref_cbor) (replicate k small_record))) = k * 33" for k
    by (induction k) (simp_all add: length_small_record)
  have "length (encode_record ref_cbor demo_record) \<le> 100"
    using h [of 2 16] by (simp add: encode_record_def encode_field_def demo_record_def demo_field_def ref_cbor_def
        enc_head_def del: id_as_bytes.simps)
  then have "length (encode_body ref_cbor (full_payload n ?recs)) \<le> 1000000"
    using c [of 10000] h [of 0 "unat n"] h [of 0 "Suc 0"] h [of 5 "Suc 0"]
    by (simp add: encode_body_def full_payload_def payload_at_def empty_payload_def ref_cbor_def
        enc_head_def [of _ "numeral _"] enc_head_def [of _ 0] DEFAULT_IDLE_TIMEOUT_SECONDS_def
        del: be_bytes.simps id_as_bytes.simps)
  then show ?thesis by (simp add: encode_payload_def MAX_VAULT_PAYLOAD_BYTES_def Let_def)
qed

theorem add_exceeds_record_limit_witness:
  "\<exists>s out. length (session_records s) = 10000 \<and>
     fst (session_seal ref_cbor toy_ciphers toy_fill (snd (add plain_env 5 [0x63] [demo_field] s)) 0) = Inr out \<and>
     unlock_vault plain_env ref_cbor toy_ciphers out [1] = Inl VaultAuthenticationFailed"
proof -
  obtain km r' where km: "new_key_material ref_cbor toy_ciphers toy_fill [1] 0 = (Inr km, r')"
    using demo_key_material by blast
  note o = new_key_material_opens [OF toy_cipher_laws toy_random_laws km]
  let ?s = "new_vault_session \<lparr>uv_payload = full_payload 7 (replicate 10000 small_record), uv_key_material = km\<rparr>"
  have s: "session_records ?s = replicate 10000 small_record" "vp_unknown (session_payload ?s) = []"
    "session_revision ?s = 7" "uv_key_material (vss_vault ?s) = km"
    by (simp_all add: new_vault_session_def full_payload_def payload_at_def empty_payload_def session_revision_def)
  have dup: "\<not> list_ex (\<lambda>x. sr_name x = sr_name demo_record) (session_records ?s)"
    unfolding s(1) by (simp add: list_ex_iff) (simp add: small_record_def demo_record_def)
  have rev: "session_revision ?s \<noteq> - 1" by (simp add: s)
  have after: "vss_vault (snd (add plain_env 5 [0x63] [demo_field] ?s)) =
      \<lparr>uv_payload = full_payload 8 (replicate 10000 small_record @ [demo_record]), uv_key_material = km\<rparr>"
    using dup
    by (simp add: add_def demo_new_record mutate_def increment_revision_def new_vault_session_def full_payload_def
        payload_at_def checked_add_one record_activity_def set_payload_def)
  obtain b where "encode_payload ref_cbor (full_payload 8 (replicate 10000 small_record @ [demo_record])) = Inr b"
    using encode_full_payload by blast
  then obtain out r2 where "seal_payload ref_cbor toy_ciphers toy_fill
      (full_payload 8 (replicate 10000 small_record @ [demo_record])) km 0 = (Inr out, r2)"
    using demo_seal [OF o] by blast
  then have sl: "session_seal ref_cbor toy_ciphers toy_fill (snd (add plain_env 5 [0x63] [demo_field] ?s)) 0 = (Inr out, r2)"
    by (simp add: session_seal_def seal_def after)
  have "unlock_vault plain_env ref_cbor toy_ciphers out [1] = Inl VaultAuthenticationFailed"
    using add_exceeds_record_limit [OF ref_cbor_laws toy_cipher_laws toy_random_laws _ demo_new_record dup rev _ _ sl] o
    by (simp add: s MAX_RECORDS_def)
  with sl s(1) show ?thesis by (intro exI [of _ ?s] exI [of _ out]) simp
qed

end
