(* ===== verification/Ladon_Broker.thy ===== *)
theory Ladon_Broker
  imports Ladon_Grants
begin

text \<open>
  The lock state of the broker and its activity log (\<open>crates/ladon-core/src/broker.rs\<close>).

  An operation takes the reading of the monotonic clock it makes; \<open>complete_unlock\<close> makes two.
\<close>

section \<open>The lock state\<close>

datatype session_status = Locked | UnlockPending | Unlocked | Running | Locking

datatype broker_decision =
    NoChange | PromptUnlock | Authorized | BrokerBusy | Denied | UnlockTimedOut
  | CancelRunBeforeLock | NowLocked

datatype lock_reason = ManualLock | McpLock | ScreenLock | SuspendLock | ShutdownLock

datatype activity_outcome = OutSucceeded | OutFailed | OutDenied | OutTimedOut | OutCancelled

record referenced_field =
  rf_secret_id :: secret_id
  rf_field :: field_name

record activity_entry =
  ae_client_label :: str
  ae_executable :: "str option"
  ae_referenced_fields :: "referenced_field list"
  ae_timestamp_millis :: u64
  ae_outcome :: activity_outcome
  ae_redaction_count :: u64

datatype lock_state =
    StLocked
  | StUnlockPending u64
  | StUnlocked u64
  | StRunning
  | StLocking

record broker_state =
  bs_idle_timeout_millis :: u64
  bs_state :: lock_state
  bs_activities :: "activity_entry list"

definition MAX_ACTIVITY_ENTRIES :: nat where "MAX_ACTIVITY_ENTRIES = 100"

definition MAX_ACTIVITY_REFERENCES :: nat where "MAX_ACTIVITY_REFERENCES = 16"

definition new_broker_state :: "duration \<Rightarrow> broker_state" where
  "new_broker_state idle_timeout =
     \<lparr>bs_idle_timeout_millis = duration_millis idle_timeout, bs_state = StLocked, bs_activities = []\<rparr>"

definition status :: "broker_state \<Rightarrow> session_status" where
  "status b =
     (case bs_state b of
        StLocked \<Rightarrow> Locked | StUnlockPending _ \<Rightarrow> UnlockPending | StUnlocked _ \<Rightarrow> Unlocked
      | StRunning \<Rightarrow> Running | StLocking \<Rightarrow> Locking)"

definition request_secret_access :: "u64 \<Rightarrow> broker_state \<Rightarrow> broker_decision \<times> broker_state" where
  "request_secret_access now b =
     (case bs_state b of
        StLocked \<Rightarrow> (PromptUnlock, b\<lparr>bs_state := StUnlockPending (saturating_add now 120000)\<rparr>)
      | StUnlocked _ \<Rightarrow> (Authorized, b)
      | _ \<Rightarrow> (BrokerBusy, b))"

definition complete_unlock :: "u64 \<Rightarrow> u64 \<Rightarrow> bool \<Rightarrow> broker_state \<Rightarrow> broker_decision \<times> broker_state" where
  "complete_unlock now now' approved b =
     (case bs_state b of
        StUnlockPending deadline \<Rightarrow>
          if now \<ge> deadline then (UnlockTimedOut, b\<lparr>bs_state := StLocked\<rparr>)
          else if approved then (Authorized, b\<lparr>bs_state := StUnlocked now'\<rparr>)
          else (Denied, b\<lparr>bs_state := StLocked\<rparr>)
      | _ \<Rightarrow> (Denied, b))"

definition secret_activity :: "u64 \<Rightarrow> broker_state \<Rightarrow> broker_state" where
  "secret_activity now b =
     (case bs_state b of StUnlocked _ \<Rightarrow> b\<lparr>bs_state := StUnlocked now\<rparr> | _ \<Rightarrow> b)"

definition start_run :: "broker_state \<Rightarrow> broker_decision \<times> broker_state" where
  "start_run b =
     (case bs_state b of
        StUnlocked _ \<Rightarrow> (Authorized, b\<lparr>bs_state := StRunning\<rparr>)
      | _ \<Rightarrow> (BrokerBusy, b))"

definition finish_run :: "u64 \<Rightarrow> broker_state \<Rightarrow> broker_decision \<times> broker_state" where
  "finish_run now b =
     (case bs_state b of
        StRunning \<Rightarrow> (NoChange, b\<lparr>bs_state := StUnlocked now\<rparr>)
      | StLocking \<Rightarrow> (NowLocked, b\<lparr>bs_state := StLocked\<rparr>)
      | _ \<Rightarrow> (NoChange, b))"

definition request_lock :: "lock_reason \<Rightarrow> broker_state \<Rightarrow> broker_decision \<times> broker_state" where
  "request_lock reason b =
     (case bs_state b of
        StRunning \<Rightarrow> (CancelRunBeforeLock, b\<lparr>bs_state := StLocking\<rparr>)
      | _ \<Rightarrow> (NowLocked, b\<lparr>bs_state := StLocked\<rparr>))"

definition tick :: "u64 \<Rightarrow> broker_state \<Rightarrow> broker_decision \<times> broker_state" where
  "tick now b =
     (case bs_state b of
        StUnlockPending deadline \<Rightarrow>
          if now \<ge> deadline then (UnlockTimedOut, b\<lparr>bs_state := StLocked\<rparr>) else (NoChange, b)
      | StUnlocked last_activity \<Rightarrow>
          if saturating_sub now last_activity \<ge> bs_idle_timeout_millis b
          then (NowLocked, b\<lparr>bs_state := StLocked\<rparr>) else (NoChange, b)
      | _ \<Rightarrow> (NoChange, b))"

section \<open>The activity log\<close>

text \<open>\<open>while !value.is_char_boundary(boundary) { boundary -= 1; }\<close>\<close>

fun lower_boundary :: "str \<Rightarrow> nat \<Rightarrow> nat" where
  "lower_boundary s 0 = 0"
| "lower_boundary s (Suc i) = (if is_char_boundary s (Suc i) then Suc i else lower_boundary s i)"

definition truncate_utf8 :: "str \<Rightarrow> nat \<Rightarrow> str" where
  "truncate_utf8 v maximum_bytes =
     (if length v \<le> maximum_bytes then v else take (lower_boundary v maximum_bytes) v)"

definition record_broker_activity :: "activity_entry \<Rightarrow> broker_state \<Rightarrow> broker_state" where
  "record_broker_activity entry b =
     (let entry' = entry\<lparr>ae_referenced_fields := take MAX_ACTIVITY_REFERENCES (ae_referenced_fields entry),
                      ae_client_label := truncate_utf8 (ae_client_label entry) 64,
                      ae_executable := map_option (\<lambda>e. truncate_utf8 e (32 * 1024)) (ae_executable entry)\<rparr>;
          kept = (if length (bs_activities b) = MAX_ACTIVITY_ENTRIES then tl (bs_activities b)
                  else bs_activities b)
      in b\<lparr>bs_activities := kept @ [entry']\<rparr>)"

section \<open>Truncation\<close>

lemma lower_boundary_le: "lower_boundary s i \<le> i"
  by (induction i) auto

lemma lower_boundary_is_boundary: "is_char_boundary s (lower_boundary s i)"
  by (induction i) (auto simp: is_char_boundary_def)

lemma lower_boundary_greatest: "j \<le> i \<Longrightarrow> is_char_boundary s j \<Longrightarrow> j \<le> lower_boundary s i"
  by (induction i) (auto simp: le_Suc_eq)

lemma second_ok_cont: "second_ok b0 b1 \<Longrightarrow> is_cont b1"
  by (simp add: second_ok_def)

lemma utf8_step_tail: "utf8_step s = Scalar w \<Longrightarrow> list_all is_cont (take (w - 1) (tl s))"
  by (cases s) (auto dest: second_ok_cont split: if_splits list.splits)

lemma utf8_step_continuation: "utf8_step s = Scalar w \<Longrightarrow> 0 < j \<Longrightarrow> j < w \<Longrightarrow> is_cont (s ! j)"
  using utf8_step_tail [of s w] utf8_step_Scalar [of s w]
  by (cases s; cases j) (auto simp: list_all_length)

lemma boundary_prefix_valid:
  "valid_utf8 s \<Longrightarrow> is_char_boundary s i \<Longrightarrow> i \<le> length s \<Longrightarrow> valid_utf8 (take i s)"
proof (induction s arbitrary: i rule: chars.induct)
  case (1 s)
  show ?case
  proof (cases "i = 0 \<or> s = []")
    case True
    then show ?thesis by auto
  next
    case False
    then obtain w where w: "utf8_step s = Scalar w" "valid_utf8 (drop w s)"
      using "1.prems" by (auto simp: valid_utf8_step)
    have wl: "0 < w" "w \<le> length s" using utf8_step_Scalar [OF w(1)] by auto
    have "w \<le> i"
    proof (rule ccontr)
      assume "\<not> w \<le> i"
      then have "is_cont (s ! i)" using utf8_step_continuation [OF w(1), of i] False by simp
      with "1.prems"(2,3) False wl \<open>\<not> w \<le> i\<close> show False by (auto simp: is_char_boundary_def)
    qed
    have "is_char_boundary (drop w s) (i - w)"
      using "1.prems"(2,3) \<open>w \<le> i\<close> wl by (auto simp: is_char_boundary_def)
    then have "valid_utf8 (take (i - w) (drop w s))"
      using "1.IH" [OF w(1)] w(2) "1.prems"(3) by simp
    moreover have "valid_utf8 (take w s)"
      using w wl by (cases "take w s = []") (auto simp: valid_utf8_step utf8_step_take)
    ultimately have "valid_utf8 (take w s @ take (i - w) (drop w s))" by (rule valid_utf8_append [rotated])
    moreover have "take i s = take w s @ take (i - w) (drop w s)"
      using \<open>w \<le> i\<close> by (metis le_add_diff_inverse take_add)
    ultimately show ?thesis by simp
  qed
qed

lemma truncate_length: "length (truncate_utf8 s n) \<le> n"
  using lower_boundary_le [of s n] by (auto simp: truncate_utf8_def)

lemma truncate_valid: "valid_utf8 s \<Longrightarrow> valid_utf8 (truncate_utf8 s n)"
  using lower_boundary_le [of s n] lower_boundary_is_boundary [of s n]
  by (auto simp: truncate_utf8_def intro!: boundary_prefix_valid)


section \<open>Histories\<close>

datatype broker_op =
    RequestAccessOp u64
  | CompleteUnlockOp u64 u64 bool
  | SecretActivityOp u64
  | StartRunOp
  | FinishRunOp u64
  | RequestLockOp lock_reason
  | TickOp u64
  | RecordActivityOp activity_entry

fun exec_broker :: "broker_op \<Rightarrow> broker_state \<Rightarrow> broker_decision \<times> broker_state" where
  "exec_broker (RequestAccessOp now) b = request_secret_access now b"
| "exec_broker (CompleteUnlockOp now now' approved) b = complete_unlock now now' approved b"
| "exec_broker (SecretActivityOp now) b = (NoChange, secret_activity now b)"
| "exec_broker StartRunOp b = start_run b"
| "exec_broker (FinishRunOp now) b = finish_run now b"
| "exec_broker (RequestLockOp reason) b = request_lock reason b"
| "exec_broker (TickOp now) b = tick now b"
| "exec_broker (RecordActivityOp entry) b = (NoChange, record_broker_activity entry b)"

text \<open>A history of the broker: its operations with the decisions they returned.\<close>

inductive broker_history :: "broker_state \<Rightarrow> (broker_op \<times> broker_decision) list \<Rightarrow> broker_state \<Rightarrow> bool" where
  start: "broker_history b [] b"
| step: "broker_history b tr b1 \<Longrightarrow> exec_broker op b1 = (d, b2) \<Longrightarrow> broker_history b (tr @ [(op, d)]) b2"

definition is_open :: "broker_state \<Rightarrow> bool" where
  "is_open b = (status b = Unlocked \<or> status b = Running \<or> status b = Locking)"

lemmas broker_op_defs = request_secret_access_def complete_unlock_def secret_activity_def start_run_def
  finish_run_def request_lock_def tick_def record_broker_activity_def Let_def

text \<open>An open state was open before, or is the result of an approval before the deadline.\<close>

lemma open_step:
  assumes "exec_broker op b = (d, b')" and "is_open b'"
  shows "(is_open b \<and> d \<noteq> NowLocked) \<or>
     (\<exists>now now' deadline. op = CompleteUnlockOp now now' True \<and> d = Authorized \<and>
        bs_state b = StUnlockPending deadline \<and> now < deadline)"
  using assms
  by (cases op; cases "bs_state b")
    (auto simp: broker_op_defs is_open_def status_def split: if_splits)

lemma pending_step:
  assumes "exec_broker op b = (d, b')" and "bs_state b' = StUnlockPending deadline"
  shows "bs_state b = StUnlockPending deadline \<or>
     (\<exists>now. op = RequestAccessOp now \<and> d = PromptUnlock \<and> deadline = saturating_add now 120000)"
  using assms
  by (cases op; cases "bs_state b") (auto simp: broker_op_defs split: if_splits)

lemma pending_history:
  assumes "broker_history b tr b'" and "bs_state b = StLocked" and "bs_state b' = StUnlockPending deadline"
  shows "\<exists>pre now post. tr = pre @ (RequestAccessOp now, PromptUnlock) # post \<and>
     deadline = saturating_add now 120000"
  using assms
proof (induction arbitrary: deadline rule: broker_history.induct)
  case (start b)
  then show ?case by simp
next
  case (step b tr b1 op d b2)
  from pending_step [OF step.hyps(2) step.prems(2)] show ?case
  proof
    assume "bs_state b1 = StUnlockPending deadline"
    from step.IH [OF step.prems(1) this] show ?thesis by (metis append.assoc append_Cons)
  next
    assume "\<exists>now. op = RequestAccessOp now \<and> d = PromptUnlock \<and> deadline = saturating_add now 120000"
    then show ?thesis by blast
  qed
qed

lemma open_history:
  assumes "broker_history b tr b'" and "bs_state b = StLocked" and "is_open b'"
  shows "\<exists>pre0 asked pre now now' post.
     tr = pre0 @ (RequestAccessOp asked, PromptUnlock) # pre @ (CompleteUnlockOp now now' True, Authorized) # post \<and>
     now < saturating_add asked 120000 \<and> (\<forall>(op, d) \<in> set post. d \<noteq> NowLocked)"
  using assms
proof (induction rule: broker_history.induct)
  case (start b)
  then show ?case by (simp add: is_open_def status_def)
next
  case (step b tr b1 op d b2)
  from open_step [OF step.hyps(2) step.prems(2)] show ?case
  proof
    assume o: "is_open b1 \<and> d \<noteq> NowLocked"
    then obtain pre0 asked pre now now' post where
      "tr = pre0 @ (RequestAccessOp asked, PromptUnlock) # pre @ (CompleteUnlockOp now now' True, Authorized) # post"
      "now < saturating_add asked 120000" "\<forall>(op, d) \<in> set post. d \<noteq> NowLocked"
      using step.IH step.prems(1) by blast
    then show ?thesis
      using o by (intro exI [of _ pre0] exI [of _ asked] exI [of _ pre] exI [of _ now] exI [of _ now']
          exI [of _ "post @ [(op, d)]"]) auto
  next
    assume "\<exists>now now' deadline. op = CompleteUnlockOp now now' True \<and> d = Authorized \<and>
        bs_state b1 = StUnlockPending deadline \<and> now < deadline"
    then obtain now now' deadline where o: "op = CompleteUnlockOp now now' True" "d = Authorized"
      "bs_state b1 = StUnlockPending deadline" "now < deadline" by blast
    from pending_history [OF step.hyps(1) step.prems(1) o(3)] obtain pre0 asked pre where
      "tr = pre0 @ (RequestAccessOp asked, PromptUnlock) # pre" "deadline = saturating_add asked 120000" by blast
    with o show ?thesis
      by (intro exI [of _ pre0] exI [of _ asked] exI [of _ pre] exI [of _ now] exI [of _ now'] exI [of _ "[]"]) simp
  qed
qed

section \<open>Properties\<close>

text \<open>Starting locked, the broker is unlocked, running or locking only after access was
  requested and an approval completed the unlock within two minutes of that request, and no
  operation has reported a lock since.\<close>

theorem broker_opens_on_approval:
  assumes "broker_history (new_broker_state idle) tr b" and "status b \<in> {Unlocked, Running, Locking}"
  shows "\<exists>pre0 asked pre now now' post.
     tr = pre0 @ (RequestAccessOp asked, PromptUnlock) # pre @ (CompleteUnlockOp now now' True, Authorized) # post \<and>
     now < saturating_add asked 120000 \<and> (\<forall>(op, d) \<in> set post. d \<noteq> NowLocked)"
  using assms by (intro open_history) (auto simp: new_broker_state_def is_open_def)

definition demo_history :: "(broker_op \<times> broker_decision) list" where
  "demo_history = [(RequestAccessOp 5, PromptUnlock), (CompleteUnlockOp 6 7 True, Authorized)]"

theorem broker_opens_on_approval_witness:
  "\<exists>b. broker_history (new_broker_state 1000000) demo_history b \<and> status b = Unlocked \<and>
     (\<exists>pre0 asked pre now now' post.
       demo_history = pre0 @ (RequestAccessOp asked, PromptUnlock) # pre @ (CompleteUnlockOp now now' True, Authorized) # post)"
proof -
  let ?b0 = "new_broker_state 1000000"
  let ?b1 = "?b0\<lparr>bs_state := StUnlockPending 120005\<rparr>" and ?b2 = "?b0\<lparr>bs_state := StUnlocked 7\<rparr>"
  have "exec_broker (RequestAccessOp 5) ?b0 = (PromptUnlock, ?b1)"
    by (simp add: new_broker_state_def request_secret_access_def saturating_add_def)
  moreover have "exec_broker (CompleteUnlockOp 6 7 True) ?b1 = (Authorized, ?b2)"
    by (simp add: new_broker_state_def complete_unlock_def word_le_nat_alt)
  ultimately have h: "broker_history ?b0 demo_history ?b2"
    using broker_history.step [OF broker_history.step [OF broker_history.start]]
    by (fastforce simp: demo_history_def)
  moreover have "status ?b2 = Unlocked" by (simp add: status_def)
  ultimately show ?thesis
    using broker_opens_on_approval [OF h] by blast
qed

text \<open>An unlocked broker that has seen no activity for the idle timeout is locked by the next
  tick, and an unlock prompt that is not answered by its deadline ends the same way; until then a
  tick changes nothing.\<close>

lemma broker_idle_lock:
  "status (snd (tick now b)) =
     (if (\<exists>last. bs_state b = StUnlocked last \<and> unat (bs_idle_timeout_millis b) \<le> unat now - unat last) \<or>
         (\<exists>deadline. bs_state b = StUnlockPending deadline \<and> deadline \<le> now)
      then Locked else status b)"
  by (cases "bs_state b")
    (auto simp: tick_def status_def word_le_nat_alt unat_saturating_sub)

definition bounded_entry :: "activity_entry \<Rightarrow> activity_entry" where
  "bounded_entry entry = entry\<lparr>ae_referenced_fields := take 16 (ae_referenced_fields entry),
     ae_client_label := truncate_utf8 (ae_client_label entry) 64,
     ae_executable := map_option (\<lambda>e. truncate_utf8 e (32 * 1024)) (ae_executable entry)\<rparr>"

lemma record_activity_recent:
  assumes "bs_activities b = drop (length es - 100) (map bounded_entry es)"
  shows "bs_activities (record_broker_activity e b) = drop (Suc (length es) - 100) (map bounded_entry (es @ [e]))"
proof (cases "length es < 100")
  case True
  then have "length (bs_activities b) \<noteq> MAX_ACTIVITY_ENTRIES"
    using assms by (simp add: MAX_ACTIVITY_ENTRIES_def)
  with True assms show ?thesis
    by (simp add: record_broker_activity_def bounded_entry_def MAX_ACTIVITY_REFERENCES_def Let_def)
next
  case False
  then have "length (bs_activities b) = MAX_ACTIVITY_ENTRIES"
    using assms by (simp add: MAX_ACTIVITY_ENTRIES_def)
  with False assms show ?thesis
    by (simp add: record_broker_activity_def bounded_entry_def MAX_ACTIVITY_REFERENCES_def Let_def
        tl_drop drop_Suc Suc_diff_le)
qed

text \<open>The activity log holds exactly the hundred most recent entries in order, each with at
  most sixteen references, a label of at most 64 bytes and an executable of at most 32 KiB, both cut
  at a character boundary: text stays valid UTF-8.\<close>

lemma activity_log_recent:
  "bs_activities (fold record_broker_activity es (new_broker_state idle)) = drop (length es - 100) (map bounded_entry es)
   \<and> (\<forall>e. length (ae_referenced_fields (bounded_entry e)) \<le> 16 \<and> length (ae_client_label (bounded_entry e)) \<le> 64 \<and>
        (valid_utf8 (ae_client_label e) \<longrightarrow> valid_utf8 (ae_client_label (bounded_entry e))) \<and>
        (\<forall>x. ae_executable (bounded_entry e) = Some x \<longrightarrow> length x \<le> 32768))"
proof (intro conjI)
  show "bs_activities (fold record_broker_activity es (new_broker_state idle)) = drop (length es - 100) (map bounded_entry es)"
  proof (induction es rule: rev_induct)
    case Nil
    then show ?case by (simp add: new_broker_state_def)
  next
    case (snoc e es)
    then show ?case using record_activity_recent [OF snoc.IH, of e] by simp
  qed
  have "length (truncate_utf8 x 32768) \<le> 32768" for x by (rule truncate_length)
  then show "\<forall>e. length (ae_referenced_fields (bounded_entry e)) \<le> 16 \<and> length (ae_client_label (bounded_entry e)) \<le> 64 \<and>
        (valid_utf8 (ae_client_label e) \<longrightarrow> valid_utf8 (ae_client_label (bounded_entry e))) \<and>
        (\<forall>x. ae_executable (bounded_entry e) = Some x \<longrightarrow> length x \<le> 32768)"
    by (auto simp: bounded_entry_def truncate_length truncate_valid)
qed

end
