(* ===== verification/Ladon_Protocol.thy ===== *)
theory Ladon_Protocol
  imports Ladon_Model
begin

text \<open>
  The local RPC protocol (\<open>crates/ladon-core/src/protocol.rs\<close>): requests and responses, their frames,
  and the checks on a request.

  \<open>serde_json\<close> and the derived serialisers are outside the repository: the record \<open>json_lib\<close> has the
  document tree a byte string parses to, and the writers and readers of requests, responses and
  of the identity of a rejected request. \<open>validate_json_document\<close> visits the tree as the visitor of
  the code does; a \<open>usize\<close> has 64 bits, so lengths are natural numbers.
\<close>

section \<open>Requests and responses\<close>

definition MAX_FRAME_BYTES :: nat where "MAX_FRAME_BYTES = 4 * 1024 * 1024"

definition PROTOCOL_VERSION :: u16 where "PROTOCOL_VERSION = 2"

definition MAX_JSON_DEPTH :: nat where "MAX_JSON_DEPTH = 16"

definition MAX_CLIENT_LABEL_BYTES :: nat where "MAX_CLIENT_LABEL_BYTES = 64"

definition MAX_ARGUMENTS :: nat where "MAX_ARGUMENTS = 256"

definition MAX_ARGUMENT_BYTES :: nat where "MAX_ARGUMENT_BYTES = 256 * 1024"

definition MAX_PATH_BYTES :: nat where "MAX_PATH_BYTES = 32 * 1024"

datatype binding_target =
    EnvironmentTarget str
  | StandardInputTarget
  | TemporaryFileTarget str "str option"

record secret_binding_request =
  sbr_secret_ref :: str
  sbr_field :: str
  sbr_target :: binding_target

datatype rpc_method =
    SessionOpenMethod
  | StatusMethod
  | ListMethod
  | LockMethod
  | RunMethod (rm_executable: str) (rm_arguments: "str list") (rm_working_directory: str)
      (rm_bindings: "secret_binding_request list") (rm_timeout_ms: u64) (rm_output_limit: nat)

record rpc_request =
  rq_version :: u16
  rq_request_id :: uuid
  rq_client_session_id :: uuid
  rq_client_label :: str
  rq_method :: rpc_method

record secret_field_summary =
  sfs_name :: str
  sfs_text :: bool

record secret_summary =
  ss_id :: uuid
  ss_name :: str
  ss_fields :: "secret_field_summary list"

datatype rpc_result =
    SessionOpenedResult
  | StatusResult str "u64 option"
  | ListResult "secret_summary list"
  | LockedResult
  | RunResult (rr_exit_code: "int option") (rr_termination: str) (rr_stdout: str) (rr_stderr: str)
      (rr_duration_ms: u64) (rr_redaction_count: u64) (rr_output_truncated: bool)
      (rr_temp_cleanup_warning: bool)

datatype rpc_outcome =
    RpcSuccess rpc_result
  | RpcFailure str str

record rpc_response =
  rs_version :: u16
  rs_request_id :: uuid
  rs_outcome :: rpc_outcome

definition response_success :: "uuid \<Rightarrow> rpc_result \<Rightarrow> rpc_response" where
  "response_success request_id result =
     \<lparr>rs_version = PROTOCOL_VERSION, rs_request_id = request_id, rs_outcome = RpcSuccess result\<rparr>"

definition response_error :: "uuid \<Rightarrow> ladon_error \<Rightarrow> rpc_response" where
  "response_error request_id e =
     \<lparr>rs_version = PROTOCOL_VERSION, rs_request_id = request_id,
      rs_outcome = RpcFailure (ascii (code e)) (ascii (safe_message e))\<rparr>"

definition response_result :: "rpc_response \<Rightarrow> rpc_result option" where
  "response_result r = (case rs_outcome r of RpcSuccess result \<Rightarrow> Some result | RpcFailure _ _ \<Rightarrow> None)"

definition error_details :: "rpc_response \<Rightarrow> (str \<times> str) option" where
  "error_details r = (case rs_outcome r of RpcSuccess _ \<Rightarrow> None | RpcFailure c m \<Rightarrow> Some (c, m))"

section \<open>JSON documents\<close>

datatype json =
    JNull | JBool bool | JNumber int | JString str | JArray "json list" | JObject "(str \<times> json) list"

record json_lib =
  js_document :: "byte list \<Rightarrow> json option"
  js_write_request :: "rpc_request \<Rightarrow> byte list option"
  js_read_request :: "byte list \<Rightarrow> rpc_request option"
  js_write_response :: "rpc_response \<Rightarrow> byte list option"
  js_read_response :: "byte list \<Rightarrow> rpc_response option"
  js_read_identity :: "byte list \<Rightarrow> uuid option"

text \<open>\<open>CheckedVisitor\<close>: an object or an array at depth 16 is refused, and so are repeated keys.\<close>

fun checked_visit :: "nat \<Rightarrow> json \<Rightarrow> bool" where
  "checked_visit depth (JObject entries) =
     (depth < MAX_JSON_DEPTH \<and> distinct (map fst entries) \<and>
      list_all (\<lambda>v. checked_visit (depth + 1) v) (map snd entries))"
| "checked_visit depth (JArray items) =
     (depth < MAX_JSON_DEPTH \<and> list_all (\<lambda>v. checked_visit (depth + 1) v) items)"
| "checked_visit depth _ = True"

definition validate_json_document :: "json_lib \<Rightarrow> byte list \<Rightarrow> unit res" where
  "validate_json_document js input =
     (case js_document js input of
        Some doc \<Rightarrow> if checked_visit 0 doc then Inr () else Inl InvalidRequest
      | None \<Rightarrow> Inl InvalidRequest)"

section \<open>Frames\<close>

definition encode_frame :: "byte list option \<Rightarrow> byte list res" where
  "encode_frame json =
     and_then (ok_or InvalidRequest json) (\<lambda>bs.
     if bs = [] then Inl InvalidFrame
     else if length bs > MAX_FRAME_BYTES then Inl FrameTooLarge
     else Inr (be_bytes 4 (length bs) @ bs))"

definition encode_request_frame :: "json_lib \<Rightarrow> rpc_request \<Rightarrow> byte list res" where
  "encode_request_frame js request = encode_frame (js_write_request js request)"

definition encode_response_frame :: "json_lib \<Rightarrow> rpc_response \<Rightarrow> byte list res" where
  "encode_response_frame js response = encode_frame (js_write_response js response)"

definition checked_frame_payload :: "byte list \<Rightarrow> byte list res" where
  "checked_frame_payload frame =
     (if length frame < 4 then Inl InvalidFrame else
      let declared = be_nat (take 4 frame) in
      if declared = 0 then Inl InvalidFrame
      else if declared > MAX_FRAME_BYTES then Inl FrameTooLarge
      else if length frame \<noteq> 4 + declared then Inl InvalidFrame
      else Inr (drop 4 frame))"

definition has_nul :: "str \<Rightarrow> bool" where
  "has_nul s = (0 \<in> set s)"

definition validate_request :: "rpc_request \<Rightarrow> unit res" where
  "validate_request request =
     (if rq_version request \<noteq> PROTOCOL_VERSION then Inl UnsupportedProtocolVersion
      else if rq_client_label request = [] \<or> length (rq_client_label request) > MAX_CLIENT_LABEL_BYTES
        \<or> has_nul (rq_client_label request) then Inl InvalidRequest
      else case rq_method request of
        RunMethod executable arguments working_directory _ _ _ \<Rightarrow>
          if executable = [] \<or> length executable > MAX_PATH_BYTES \<or> has_nul executable
             \<or> working_directory = [] \<or> length working_directory > MAX_PATH_BYTES \<or> has_nul working_directory
             \<or> length arguments > MAX_ARGUMENTS \<or> list_ex has_nul arguments
             \<or> sum_list (map length arguments) > MAX_ARGUMENT_BYTES
          then Inl InvalidRequest else Inr ()
      | _ \<Rightarrow> Inr ())"

definition decode_request_frame :: "json_lib \<Rightarrow> byte list \<Rightarrow> rpc_request res" where
  "decode_request_frame js frame =
     and_then (checked_frame_payload frame) (\<lambda>json.
     and_then (validate_json_document js json) (\<lambda>_.
     and_then (ok_or InvalidRequest (js_read_request js json)) (\<lambda>request.
     and_then (validate_request request) (\<lambda>_. Inr request))))"

definition decode_response_frame :: "json_lib \<Rightarrow> byte list \<Rightarrow> rpc_response res" where
  "decode_response_frame js frame =
     and_then (checked_frame_payload frame) (\<lambda>json.
     and_then (validate_json_document js json) (\<lambda>_.
     and_then (ok_or InvalidRequest (js_read_response js json)) (\<lambda>response.
     if rs_version response \<noteq> PROTOCOL_VERSION then Inl UnsupportedProtocolVersion else Inr response)))"

definition request_error_response :: "json_lib \<Rightarrow> byte list \<Rightarrow> ladon_error \<Rightarrow> rpc_response option" where
  "request_error_response js frame e =
     (case checked_frame_payload frame of
        Inl _ \<Rightarrow> None
      | Inr json \<Rightarrow>
          (case validate_json_document js json of
             Inl _ \<Rightarrow> None
           | Inr _ \<Rightarrow> map_option (\<lambda>i. response_error i e) (js_read_identity js json)))"

section \<open>Properties\<close>

text \<open>What the code relies on: a written value reads back, and its document is shallow and has no
  repeated keys.\<close>

definition json_laws :: "json_lib \<Rightarrow> bool" where
  "json_laws js =
     ((\<forall>r bs. js_write_request js r = Some bs \<longrightarrow>
         js_read_request js bs = Some r \<and> (\<exists>doc. js_document js bs = Some doc \<and> checked_visit 0 doc)) \<and>
      (\<forall>r bs. js_write_response js r = Some bs \<longrightarrow>
         js_read_response js bs = Some r \<and> (\<exists>doc. js_document js bs = Some doc \<and> checked_visit 0 doc)))"

lemma payload_of_frame:
  assumes "encode_frame json = Inr frame"
  shows "\<exists>bs. json = Some bs \<and> checked_frame_payload frame = Inr bs"
proof -
  from assms obtain bs where bs: "json = Some bs" "bs \<noteq> []" "length bs \<le> MAX_FRAME_BYTES"
    "frame = be_bytes 4 (length bs) @ bs"
    by (auto simp: encode_frame_def result_simps split: if_splits)
  moreover have "length bs < 256 ^ 4" using bs(3) by (simp add: MAX_FRAME_BYTES_def)
  ultimately show ?thesis by (simp add: checked_frame_payload_def Let_def del: be_bytes.simps)
qed

text \<open>A request that passes the checks of the receiver is received as it was sent: its
  frame decodes to it. A response of the current version does so too.\<close>

theorem request_frame_roundtrip:
  assumes L: "json_laws js"
  shows "(encode_request_frame js request = Inr frame \<longrightarrow> validate_request request = Inr () \<longrightarrow>
       decode_request_frame js frame = Inr request)
    \<and> (encode_response_frame js response = Inr frame \<longrightarrow> rs_version response = PROTOCOL_VERSION \<longrightarrow>
       decode_response_frame js frame = Inr response)"
proof (intro conjI impI)
  assume "encode_request_frame js request = Inr frame" "validate_request request = Inr ()"
  with payload_of_frame L show "decode_request_frame js frame = Inr request"
    by (fastforce simp: encode_request_frame_def decode_request_frame_def validate_json_document_def json_laws_def)
next
  assume "encode_response_frame js response = Inr frame" "rs_version response = PROTOCOL_VERSION"
  with payload_of_frame L show "decode_response_frame js frame = Inr response"
    by (fastforce simp: encode_response_frame_def decode_response_frame_def validate_json_document_def json_laws_def)
qed

fun json_depth :: "json \<Rightarrow> nat" where
  "json_depth (JObject entries) = Suc (Max (insert 0 (json_depth ` set (map snd entries))))"
| "json_depth (JArray items) = Suc (Max (insert 0 (json_depth ` set items)))"
| "json_depth _ = 0"

fun json_keys_distinct :: "json \<Rightarrow> bool" where
  "json_keys_distinct (JObject entries) =
     (distinct (map fst entries) \<and> list_all json_keys_distinct (map snd entries))"
| "json_keys_distinct (JArray items) = list_all json_keys_distinct items"
| "json_keys_distinct _ = True"

lemma Max_bounded: "(\<And>v. v \<in> A \<Longrightarrow> f v + Suc d \<le> (m::nat)) \<Longrightarrow> finite A \<Longrightarrow> d < m \<Longrightarrow> d + Suc (Max (insert 0 (f ` A))) \<le> m"
proof -
  assume le: "\<And>v. v \<in> A \<Longrightarrow> f v + Suc d \<le> m" and fin: "finite A" and "d < m"
  have "f v \<le> m - Suc d" if "v \<in> A" for v using le [OF that] by linarith
  then have "Max (insert 0 (f ` A)) \<le> m - Suc d"
    using fin by (intro Max.boundedI) auto
  with \<open>d < m\<close> show ?thesis by linarith
qed

lemma checked_depth: "checked_visit depth doc \<Longrightarrow> depth \<le> 16 \<Longrightarrow> depth + json_depth doc \<le> 16"
proof (induction depth doc rule: checked_visit.induct)
  case (1 depth entries)
  then have "json_depth v + Suc depth \<le> 16" if "v \<in> set (map snd entries)" for v
    using that by (fastforce simp: MAX_JSON_DEPTH_def list_all_iff)
  then have "depth + Suc (Max (insert 0 (json_depth ` set (map snd entries)))) \<le> 16"
    by (rule Max_bounded) (use "1.prems" in \<open>auto simp: MAX_JSON_DEPTH_def\<close>)
  then show ?case by simp
next
  case (2 depth items)
  then have "json_depth v + Suc depth \<le> 16" if "v \<in> set items" for v
    using that by (fastforce simp: MAX_JSON_DEPTH_def list_all_iff)
  then have "depth + Suc (Max (insert 0 (json_depth ` set items))) \<le> 16"
    by (rule Max_bounded) (use "2.prems" in \<open>auto simp: MAX_JSON_DEPTH_def\<close>)
  then show ?case by simp
qed auto

lemma checked_keys: "checked_visit depth doc \<Longrightarrow> json_keys_distinct doc"
  by (induction depth doc rule: checked_visit.induct) (auto simp: list_all_iff)

text \<open>A request is accepted only from a frame whose declared length is its length and at most
  4 MiB, around a JSON document nested at most 16 deep and without repeated keys in any object, of the current version, with
  a label of 1 to 64 bytes without NUL; and the command of a run it asks for is within its limits.\<close>

theorem request_checks_sound:
  assumes "decode_request_frame js frame = Inr request"
  shows "\<exists>json doc. frame = be_bytes 4 (length json) @ json \<and> 0 < length json \<and> length json \<le> 4 * 1024 * 1024 \<and>
      js_document js json = Some doc \<and> json_depth doc \<le> 16 \<and>
      json_keys_distinct doc \<and>
      js_read_request js json = Some request \<and> rq_version request = 2 \<and>
      0 < length (rq_client_label request) \<and> length (rq_client_label request) \<le> 64 \<and>
      0 \<notin> set (rq_client_label request) \<and>
      (\<forall>exe args cwd bs t lim. rq_method request = RunMethod exe args cwd bs t lim \<longrightarrow>
         exe \<noteq> [] \<and> length exe \<le> 32 * 1024 \<and> 0 \<notin> set exe \<and>
         cwd \<noteq> [] \<and> length cwd \<le> 32 * 1024 \<and> 0 \<notin> set cwd \<and>
         length args \<le> 256 \<and> sum_list (map length args) \<le> 256 * 1024 \<and> (\<forall>a \<in> set args. 0 \<notin> set a))"
proof -
  from assms obtain json doc where f: "checked_frame_payload frame = Inr json" and
    d: "js_document js json = Some doc" "checked_visit 0 doc" and
    r: "js_read_request js json = Some request" "validate_request request = Inr ()"
    by (auto simp: decode_request_frame_def result_simps validate_json_document_def split: option.splits if_splits)
  have frame: "frame = be_bytes 4 (length json) @ json" "0 < length json" "length json \<le> 4 * 1024 * 1024"
  proof -
    have h: "4 \<le> length frame" "length frame = 4 + be_nat (take 4 frame)" "json = drop 4 frame"
      "be_nat (take 4 frame) \<noteq> 0" "be_nat (take 4 frame) \<le> MAX_FRAME_BYTES"
      using f by (auto simp: checked_frame_payload_def Let_def split: if_splits)
    then have "be_bytes 4 (length json) = take 4 frame"
      using be_bytes_be_nat [of "take 4 frame" 4] by simp
    then show "frame = be_bytes 4 (length json) @ json" using h(3) by (simp del: be_bytes.simps)
    show "0 < length json" "length json \<le> 4 * 1024 * 1024" using h by (auto simp: MAX_FRAME_BYTES_def)
  qed
  have doc: "json_depth doc \<le> 16" "json_keys_distinct doc"
    using checked_depth [OF d(2)] checked_keys [OF d(2)] by auto
  have req: "rq_version request = 2" "0 < length (rq_client_label request)" "length (rq_client_label request) \<le> 64"
    "0 \<notin> set (rq_client_label request)"
    using r(2) by (auto simp: validate_request_def PROTOCOL_VERSION_def MAX_CLIENT_LABEL_BYTES_def has_nul_def split: if_splits)
  have run: "exe \<noteq> [] \<and> length exe \<le> 32 * 1024 \<and> 0 \<notin> set exe \<and>
         cwd \<noteq> [] \<and> length cwd \<le> 32 * 1024 \<and> 0 \<notin> set cwd \<and>
         length args \<le> 256 \<and> sum_list (map length args) \<le> 256 * 1024 \<and> (\<forall>a \<in> set args. 0 \<notin> set a)"
    if "rq_method request = RunMethod exe args cwd bs t lim" for exe args cwd bs t lim
    using r(2) that by (auto simp: validate_request_def MAX_PATH_BYTES_def MAX_ARGUMENTS_def MAX_ARGUMENT_BYTES_def
        has_nul_def list_ex_iff split: if_splits)
  show ?thesis
    by (intro exI [of _ json] exI [of _ doc] conjI)
      (use frame d doc r req run in blast)+
qed

section \<open>A library for evaluation\<close>

definition demo_rpc :: rpc_request where
  "demo_rpc = \<lparr>rq_version = 2, rq_request_id = 1, rq_client_session_id = 7, rq_client_label = [0x61],
     rq_method = StatusMethod\<rparr>"

definition demo_reply :: rpc_response where
  "demo_reply = response_success 1 LockedResult"

definition demo_json :: json_lib where
  "demo_json =
     \<lparr>js_document = (\<lambda>bs. if bs = [1] \<or> bs = [2] then Some (JObject []) else None),
      js_write_request = (\<lambda>r. if r = demo_rpc then Some [1] else None),
      js_read_request = (\<lambda>bs. if bs = [1] then Some demo_rpc else None),
      js_write_response = (\<lambda>r. if r = demo_reply then Some [2] else None),
      js_read_response = (\<lambda>bs. if bs = [2] then Some demo_reply else None),
      js_read_identity = (\<lambda>bs. None)\<rparr>"

lemma demo_json_laws: "json_laws demo_json"
  by (auto simp: json_laws_def demo_json_def MAX_JSON_DEPTH_def)

lemma demo_rpc_frame:
  "encode_request_frame demo_json demo_rpc = Inr (be_bytes 4 1 @ [1])" "validate_request demo_rpc = Inr ()"
  by (simp_all add: encode_request_frame_def encode_frame_def demo_json_def MAX_FRAME_BYTES_def validate_request_def
      demo_rpc_def PROTOCOL_VERSION_def MAX_CLIENT_LABEL_BYTES_def has_nul_def)

theorem request_frame_roundtrip_witness:
  "decode_request_frame demo_json (be_bytes 4 1 @ [1]) = Inr demo_rpc"
  using request_frame_roundtrip [OF demo_json_laws] demo_rpc_frame by blast

lemma demo_rpc_decodes: "decode_request_frame demo_json (be_bytes 4 1 @ [1]) = Inr demo_rpc"
  using payload_of_frame [of "Some [1]" "be_bytes 4 1 @ [1]"] demo_rpc_frame
  by (simp add: encode_request_frame_def decode_request_frame_def validate_json_document_def demo_json_def
      MAX_JSON_DEPTH_def)

theorem request_checks_sound_witness:
  "decode_request_frame demo_json (be_bytes 4 1 @ [1]) = Inr demo_rpc \<and> rq_version demo_rpc = 2 \<and>
   (\<exists>json. be_bytes 4 1 @ [1] = be_bytes 4 (length json) @ json)"
  using request_checks_sound [OF demo_rpc_decodes] demo_rpc_decodes by blast

end
