(* ===== verification/Ladon_Redact.thy ===== *)
theory Ladon_Redact
  imports Ladon_Model
begin

text \<open>
  The redactor of command output (\<open>crates/ladon-core/src/redact.rs\<close>): the patterns of a secret, the
  streaming search and replacement, the escaping of bytes that are not UTF-8, and the capture that
  keeps the head and the tail of a long output.

  The substring search of the \<open>memchr\<close> crate, the encoders of the \<open>base64\<close> crate and the string writer
  of \<open>serde_json\<close> are fields of \<open>redact_lib\<close>; \<open>memmem_law\<close> is the contract of the search, the first
  occurrence. The two loops without a structural bound, \<open>process_loop\<close> and \<open>finish_loop\<close>, are partial
  functions whose value is \<open>None\<close> where the loop of the code would not end. Counters of type
  \<open>u64\<close> are natural numbers with the saturation of \<open>saturating_add\<close> written out.
\<close>

section \<open>Patterns\<close>

definition DEFAULT_OUTPUT_LIMIT_BYTES :: nat where "DEFAULT_OUTPUT_LIMIT_BYTES = 512 * 1024"

definition MAX_OUTPUT_LIMIT_BYTES :: nat where "MAX_OUTPUT_LIMIT_BYTES = 2 * 1024 * 1024"

definition MIN_OUTPUT_LIMIT_BYTES :: nat where "MIN_OUTPUT_LIMIT_BYTES = 128"

definition REDACTION_MARKER :: str where "REDACTION_MARKER = ascii ''[REDACTED]''"

record redact_lib =
  memmem_find :: "byte list \<Rightarrow> byte list \<Rightarrow> nat option"
  base64_standard :: "byte list \<Rightarrow> str"
  base64_standard_no_pad :: "byte list \<Rightarrow> str"
  base64_url_safe :: "byte list \<Rightarrow> str"
  base64_url_safe_no_pad :: "byte list \<Rightarrow> str"
  json_to_string :: "str \<Rightarrow> str option"

text \<open>Whether a needle stands at a position of a haystack.\<close>

definition occurs_at :: "byte list \<Rightarrow> byte list \<Rightarrow> nat \<Rightarrow> bool" where
  "occurs_at haystack needle i = (i \<le> length haystack \<and> prefix needle (drop i haystack))"

definition memmem_law :: "redact_lib \<Rightarrow> bool" where
  "memmem_law lib =
     (\<forall>haystack needle.
        case memmem_find lib haystack needle of
          Some i \<Rightarrow> occurs_at haystack needle i \<and> (\<forall>j < i. \<not> occurs_at haystack needle j)
        | None \<Rightarrow> \<forall>j. \<not> occurs_at haystack needle j)"

record redaction_secret =
  rds_value :: "byte list"

definition new_redaction_secret :: "secret_id \<Rightarrow> field_name \<Rightarrow> byte list \<Rightarrow> redaction_secret" where
  "new_redaction_secret i f v = \<lparr>rds_value = v\<rparr>"

definition hex_digit :: "bool \<Rightarrow> nat \<Rightarrow> byte" where
  "hex_digit uppercase n =
     (if n < 10 then of_nat (48 + n) else if uppercase then of_nat (55 + n) else of_nat (87 + n))"

definition encode_hex :: "byte list \<Rightarrow> bool \<Rightarrow> str" where
  "encode_hex v uppercase =
     concat (map (\<lambda>b. [hex_digit uppercase (unat b div 16), hex_digit uppercase (unat b mod 16)]) v)"

definition percent_encode :: "byte list \<Rightarrow> bool \<Rightarrow> str" where
  "percent_encode v lowercase =
     concat (map (\<lambda>b.
       if is_ascii_alphanumeric b \<or> b = 0x2d \<or> b = 0x2e \<or> b = 0x5f \<or> b = 0x7e then [b]
       else [0x25, hex_digit (\<not> lowercase) (unat b div 16), hex_digit (\<not> lowercase) (unat b mod 16)]) v)"

definition add_pattern :: "byte list list \<Rightarrow> byte list \<Rightarrow> byte list list" where
  "add_pattern patterns needle = (if needle = [] \<or> needle \<in> set patterns then patterns else patterns @ [needle])"

text \<open>The forms of one value, in the order in which they are added.\<close>

definition secret_forms :: "redact_lib \<Rightarrow> byte list \<Rightarrow> byte list list" where
  "secret_forms lib v =
     [v, encode_hex v False, encode_hex v True,
      base64_standard lib v, base64_standard_no_pad lib v, base64_url_safe lib v, base64_url_safe_no_pad lib v] @
     (if valid_utf8 v then
        (case json_to_string lib v of Some json \<Rightarrow> [butlast (tl json)] | None \<Rightarrow> []) @
        [percent_encode v False, percent_encode v True]
      else [])"

definition add_secret_patterns :: "redact_lib \<Rightarrow> redaction_secret \<Rightarrow> byte list list \<times> bool \<Rightarrow> byte list list \<times> bool" where
  "add_secret_patterns lib secret = (\<lambda>(patterns, suppressed).
     let v = rds_value secret in
     if v = [] then (patterns, suppressed)
     else (foldl add_pattern patterns (secret_forms lib v), suppressed \<or> length v < 4))"

definition contains_pattern :: "redact_lib \<Rightarrow> byte list \<Rightarrow> byte list list \<Rightarrow> bool" where
  "contains_pattern lib haystack patterns = list_ex (\<lambda>p. memmem_find lib haystack p \<noteq> None) patterns"

section \<open>The bounded capture\<close>

definition sat_add :: "nat \<Rightarrow> nat \<Rightarrow> nat" where
  "sat_add a b = min (a + b) u64_max"

record bounded_capture =
  bc_limit :: nat
  bc_head_capacity :: nat
  bc_tail_capacity :: nat
  bc_head :: "byte list"
  bc_tail :: "byte list"
  bc_tail_started :: bool
  bc_total_bytes :: nat

definition new_bounded_capture :: "nat \<Rightarrow> bounded_capture" where
  "new_bounded_capture limit =
     \<lparr>bc_limit = limit, bc_head_capacity = limit div 2, bc_tail_capacity = limit - limit div 2,
      bc_head = [], bc_tail = [], bc_tail_started = False, bc_total_bytes = 0\<rparr>"

definition pop_front_character :: "byte list \<Rightarrow> byte list" where
  "pop_front_character bytes =
     (case bytes of [] \<Rightarrow> []
      | first # _ \<Rightarrow>
          let width = (if unat first \<le> 0x7f then 1
             else if 0xc0 \<le> unat first \<and> unat first \<le> 0xdf then 2
             else if 0xe0 \<le> unat first \<and> unat first \<le> 0xef then 3
             else 4)
          in drop width bytes)"

lemma pop_front_character_shorter: "bytes \<noteq> [] \<Longrightarrow> length (pop_front_character bytes) < length bytes"
  by (auto simp: pop_front_character_def Let_def split: list.splits)

function trim_tail :: "nat \<Rightarrow> byte list \<Rightarrow> byte list" where
  "trim_tail capacity tail =
     (if length tail > capacity then trim_tail capacity (pop_front_character tail) else tail)"
  by pat_completeness auto
termination
  by (relation "measure (\<lambda>(c, t). length t)") (auto intro: pop_front_character_shorter)

declare trim_tail.simps [simp del]

definition push_char :: "byte list \<Rightarrow> bounded_capture \<Rightarrow> bounded_capture" where
  "push_char bytes c0 =
     (let c = c0\<lparr>bc_total_bytes := sat_add (bc_total_bytes c0) (length bytes)\<rparr> in
      if \<not> bc_tail_started c \<and> length (bc_head c) + length bytes \<le> bc_head_capacity c
      then c\<lparr>bc_head := bc_head c @ bytes\<rparr>
      else c\<lparr>bc_tail_started := True, bc_tail := trim_tail (bc_tail_capacity c) (bc_tail c @ bytes)\<rparr>)"

definition push_str :: "str \<Rightarrow> bounded_capture \<Rightarrow> bounded_capture" where
  "push_str s c = fold push_char (chars s) c"

text \<open>Decimal digits, as \<open>format!\<close> writes them.\<close>

function decimal :: "nat \<Rightarrow> str" where
  "decimal n = (if n < 10 then [of_nat (48 + n)] else decimal (n div 10) @ [of_nat (48 + n mod 10)])"
  by pat_completeness auto
termination
  by (relation "measure id") auto

declare decimal.simps [simp del]

definition omission_marker :: "nat \<Rightarrow> str" where
  "omission_marker omitted =
     [10] @ ascii ''...['' @ decimal omitted @ ascii '' bytes omitted]...'' @ [10]"

text \<open>\<open>String::from_utf8_lossy\<close>: every invalid sequence becomes U+FFFD.\<close>

function from_utf8_lossy :: "byte list \<Rightarrow> str" where
  "from_utf8_lossy bs =
     (if bs = [] then []
      else case utf8_step bs of
        Scalar w \<Rightarrow> take w bs @ from_utf8_lossy (drop w bs)
      | Invalid n \<Rightarrow> [0xef, 0xbf, 0xbd] @ from_utf8_lossy (drop n bs)
      | Incomplete \<Rightarrow> [0xef, 0xbf, 0xbd])"
  by pat_completeness auto
termination
  by (relation "measure length") (auto dest: utf8_step_Scalar utf8_step_Invalid)

declare from_utf8_lossy.simps [simp del]

partial_function (option) finish_loop ::
    "nat \<Rightarrow> nat \<Rightarrow> byte list \<Rightarrow> byte list \<Rightarrow> (str \<times> bool \<times> nat) option" where
  "finish_loop limit total_bytes head tail =
     (let omitted = total_bytes - (length head + length tail);
          marker = omission_marker omitted
      in if length head + length marker + length tail \<le> limit
         then Some (from_utf8_lossy (head @ marker @ tail), True, omitted)
         else finish_loop limit total_bytes head (pop_front_character tail))"

definition capture_finish :: "bounded_capture \<Rightarrow> (str \<times> bool \<times> nat) option" where
  "capture_finish c =
     (let captured = length (bc_head c) + length (bc_tail c) in
      if bc_total_bytes c \<le> bc_limit c \<and> captured = bc_total_bytes c
      then Some (from_utf8_lossy (bc_head c @ bc_tail c), False, 0)
      else finish_loop (bc_limit c) (bc_total_bytes c) (bc_head c) (bc_tail c))"

section \<open>Escaping\<close>

definition escape_byte :: "byte \<Rightarrow> str" where
  "escape_byte b = [0x5c, 0x78, hex_digit False (unat b div 16), hex_digit False (unat b mod 16)]"

definition escape_bytes :: "byte list \<Rightarrow> bounded_capture \<Rightarrow> bounded_capture" where
  "escape_bytes bs c = fold (\<lambda>b. push_str (escape_byte b)) bs c"

text \<open>The loop of \<open>Utf8Escaper::push\<close> on what is left of the buffer; the first component of the
  result is the new pending sequence.\<close>

function escaper_loop :: "byte list \<Rightarrow> bounded_capture \<Rightarrow> byte list \<times> bounded_capture" where
  "escaper_loop buffer capture =
     (if buffer = [] then ([], capture)
      else case utf8_check buffer of
        Inr _ \<Rightarrow> ([], push_str buffer capture)
      | Inl (valid_up_to, error_len) \<Rightarrow>
          let capture' = push_str (take valid_up_to buffer) capture in
          (case error_len of
             None \<Rightarrow> (drop valid_up_to buffer, capture')
           | Some invalid_bytes \<Rightarrow>
               escaper_loop (drop (valid_up_to + invalid_bytes) buffer)
                 (escape_bytes (take invalid_bytes (drop valid_up_to buffer)) capture')))"
  by pat_completeness auto
termination
  by (relation "measure (\<lambda>(b, c). length b)") (auto dest!: utf8_check_error)

declare escaper_loop.simps [simp del]

definition escaper_push :: "byte list \<Rightarrow> byte list \<Rightarrow> bounded_capture \<Rightarrow> byte list \<times> bounded_capture" where
  "escaper_push pending bytes capture = escaper_loop (pending @ bytes) capture"

definition escaper_finish :: "byte list \<Rightarrow> bounded_capture \<Rightarrow> bounded_capture" where
  "escaper_finish pending capture = escape_bytes pending capture"

section \<open>The streaming redactor\<close>

record streaming_redactor =
  sd_patterns :: "byte list list"
  sd_maximum_pattern_bytes :: nat
  sd_pending :: "byte list"
  sd_marker :: str
  sd_utf8 :: "byte list"
  sd_capture :: bounded_capture
  sd_redaction_count :: nat
  sd_suppressed :: bool

record redacted_output =
  ro_text :: str
  ro_redaction_count :: nat
  ro_truncated :: bool
  ro_omitted_bytes :: nat
  ro_suppressed :: bool

definition new_redactor ::
    "redact_lib \<Rightarrow> redaction_secret list \<Rightarrow> nat \<Rightarrow> streaming_redactor res" where
  "new_redactor lib secrets output_limit_bytes =
     (if \<not> (MIN_OUTPUT_LIMIT_BYTES \<le> output_limit_bytes \<and> output_limit_bytes \<le> MAX_OUTPUT_LIMIT_BYTES)
      then Inl InvalidOutputLimit
      else
        let (unsorted, suppressed) = fold (add_secret_patterns lib) secrets ([], False);
            patterns = sort_key (\<lambda>p. - int (length p)) unsorted
        in Inr \<lparr>sd_patterns = patterns,
             sd_maximum_pattern_bytes = (if patterns = [] then 1 else Max (length ` set patterns)),
             sd_pending = [],
             sd_marker = (if contains_pattern lib REDACTION_MARKER patterns then [] else REDACTION_MARKER),
             sd_utf8 = [],
             sd_capture = new_bounded_capture output_limit_bytes,
             sd_redaction_count = 0,
             sd_suppressed = suppressed\<rparr>)"

text \<open>The loop of \<open>find_next\<close>: the best start and the index of its pattern so far.\<close>

fun find_next_loop ::
    "redact_lib \<Rightarrow> byte list \<Rightarrow> nat \<Rightarrow> nat \<Rightarrow> byte list list \<Rightarrow> nat \<Rightarrow> byte list list \<Rightarrow>
      (nat \<times> nat) option \<Rightarrow> (nat \<times> nat) option" where
  "find_next_loop lib buffer position safe_end patterns index [] best = best"
| "find_next_loop lib buffer position safe_end patterns index (pattern # rest) best =
     find_next_loop lib buffer position safe_end patterns (Suc index) rest
       (case memmem_find lib (drop position buffer) pattern of
          None \<Rightarrow> best
        | Some found \<Rightarrow>
            let start = position + found in
            if start \<ge> safe_end then best
            else case best of
                None \<Rightarrow> Some (start, index)
              | Some (best_start, best_index) \<Rightarrow>
                  if start < best_start
                    \<or> start = best_start \<and> length pattern > length (patterns ! best_index)
                  then Some (start, index) else best)"

definition find_next ::
    "redact_lib \<Rightarrow> byte list \<Rightarrow> nat \<Rightarrow> nat \<Rightarrow> byte list list \<Rightarrow> (nat \<times> nat) option" where
  "find_next lib buffer position safe_end patterns =
     find_next_loop lib buffer position safe_end patterns 0 patterns None"

partial_function (option) process_loop ::
    "redact_lib \<Rightarrow> byte list list \<Rightarrow> str \<Rightarrow> byte list \<Rightarrow> nat \<Rightarrow> nat \<Rightarrow> byte list \<Rightarrow> bounded_capture \<Rightarrow> nat \<Rightarrow>
      (nat \<times> byte list \<times> bounded_capture \<times> nat) option" where
  "process_loop lib patterns marker buffer safe_end position utf8 capture count =
     (if position < safe_end then
        (case find_next lib buffer position safe_end patterns of
           None \<Rightarrow>
             (case escaper_push utf8 (slice position safe_end buffer) capture of
                (utf8', capture') \<Rightarrow> Some (safe_end, utf8', capture', count))
         | Some (start, pattern_index) \<Rightarrow>
             (case escaper_push utf8 (slice position start buffer) capture of
                (utf8', capture') \<Rightarrow>
                  (case escaper_push utf8' marker capture' of
                     (utf8'', capture'') \<Rightarrow>
                       process_loop lib patterns marker buffer safe_end
                         (start + length (patterns ! pattern_index)) utf8'' capture'' (sat_add count 1))))
      else Some (position, utf8, capture, count))"

definition process_redactor :: "redact_lib \<Rightarrow> bool \<Rightarrow> streaming_redactor \<Rightarrow> streaming_redactor option" where
  "process_redactor lib finishing r =
     (let buffer = sd_pending r;
          safe_end = (if finishing then length buffer else length buffer - (sd_maximum_pattern_bytes r - 1))
      in map_option (\<lambda>(position, utf8, capture, count).
           r\<lparr>sd_pending := drop position buffer, sd_utf8 := utf8, sd_capture := capture,
             sd_redaction_count := count\<rparr>)
         (process_loop lib (sd_patterns r) (sd_marker r) buffer safe_end 0 (sd_utf8 r) (sd_capture r)
            (sd_redaction_count r)))"

definition redactor_push :: "redact_lib \<Rightarrow> byte list \<Rightarrow> streaming_redactor \<Rightarrow> streaming_redactor option" where
  "redactor_push lib bytes r =
     (if sd_suppressed r then Some r
      else process_redactor lib False (r\<lparr>sd_pending := sd_pending r @ bytes\<rparr>))"

definition redactor_finish :: "redact_lib \<Rightarrow> streaming_redactor \<Rightarrow> redacted_output option" where
  "redactor_finish lib r =
     (if sd_suppressed r then
        Some \<lparr>ro_text = [], ro_redaction_count = 0, ro_truncated = False, ro_omitted_bytes = 0, ro_suppressed = True\<rparr>
      else Option.bind (process_redactor lib True r) (\<lambda>r'.
        Option.bind (capture_finish (escaper_finish (sd_utf8 r') (sd_capture r'))) (\<lambda>(txt, truncated, omitted).
        Some (if contains_pattern lib txt (sd_patterns r')
          then \<lparr>ro_text = [], ro_redaction_count = sd_redaction_count r', ro_truncated = truncated,
                ro_omitted_bytes = omitted, ro_suppressed = True\<rparr>
          else \<lparr>ro_text = txt, ro_redaction_count = sd_redaction_count r', ro_truncated = truncated,
                ro_omitted_bytes = omitted, ro_suppressed = False\<rparr>))))"

text \<open>A run of the redactor over the chunks of an output.\<close>

fun push_all :: "redact_lib \<Rightarrow> byte list list \<Rightarrow> streaming_redactor \<Rightarrow> streaming_redactor option" where
  "push_all lib [] r = Some r"
| "push_all lib (chunk # chunks) r = Option.bind (redactor_push lib chunk r) (push_all lib chunks)"

end
