(* ===== verification/Ladon_Runner.thy ===== *)
theory Ladon_Runner
  imports Ladon_Protocol Ladon_Redact
begin

text \<open>
  Run requests (\<open>crates/ladon-core/src/runner.rs\<close>): the validation of a request to run a command
  with secrets, and \<open>resolve\<close>, which joins the validated bindings with the values of the vault and
  refuses a value that would be visible in the command itself.

  The platform is Unix: a path is absolute when it starts with a slash, and environment names
  differ when their bytes do. A \<open>usize\<close> has 64 bits, so the checked sums of lengths are sums of
  natural numbers. Secret values are the byte strings that \<open>SensitiveBytes\<close> wraps.
\<close>

section \<open>Requests\<close>

definition MAX_BINDINGS :: nat where "MAX_BINDINGS = 16"

definition MAX_INJECTED_BYTES :: nat where "MAX_INJECTED_BYTES = 1024 * 1024"

definition RUN_MAX_ARGUMENTS :: nat where "RUN_MAX_ARGUMENTS = 256"

definition RUN_MAX_ARGUMENT_BYTES :: nat where "RUN_MAX_ARGUMENT_BYTES = 256 * 1024"

definition RUN_MAX_PATH_BYTES :: nat where "RUN_MAX_PATH_BYTES = 32 * 1024"

definition MAX_MCP_TIMEOUT :: duration where "MAX_MCP_TIMEOUT = from_secs (15 * 60)"

definition MAX_CLI_TIMEOUT :: duration where "MAX_CLI_TIMEOUT = from_secs (2 * 60 * 60)"

datatype run_caller = McpCaller | CliCaller

primrec maximum_timeout :: "run_caller \<Rightarrow> duration" where
  "maximum_timeout McpCaller = MAX_MCP_TIMEOUT"
| "maximum_timeout CliCaller = MAX_CLI_TIMEOUT"

record run_request =
  rn_executable :: str
  rn_arguments :: "str list"
  rn_working_directory :: str
  rn_bindings :: "secret_binding_request list"
  rn_timeout_ms :: u64
  rn_output_limit_bytes :: nat

datatype validated_binding_target =
    ValidatedEnvironment str
  | ValidatedStandardInput
  | ValidatedTemporaryFile str "str option"

record validated_secret_binding =
  vb_secret_ref :: secret_ref
  vb_field :: field_name
  vb_target :: validated_binding_target

record validated_run_request =
  vr_executable :: str
  vr_arguments :: "str list"
  vr_working_directory :: str
  vr_bindings :: "validated_secret_binding list"
  vr_timeout :: duration
  vr_output_limit_bytes :: nat

section \<open>Validation\<close>

definition dot :: byte where "dot = 0x2e"

definition is_absolute :: "str \<Rightarrow> bool" where
  "is_absolute p = starts_with (ascii ''/'') p"

text \<open>\<open>Path::extension\<close> of a file name without separators: what follows the last dot, unless nothing
  precedes it.\<close>

definition path_extension :: "str \<Rightarrow> str option" where
  "path_extension name =
     (if dot \<notin> set name then None else
      let after = rev (takeWhile (\<lambda>b. b \<noteq> dot) (rev name));
          before = take (length name - length after - 1) name
      in if before = [] then None else Some after)"

definition validate_environment_name :: "str \<Rightarrow> str set \<Rightarrow> (str set) res" where
  "validate_environment_name name names =
     (if name = [] \<or> length name > 256 \<or> 0 \<in> set name \<or> 0x3d \<in> set name then Inl InvalidBinding
      else if name \<in> names then Inl InvalidBinding
      else Inr (insert name names))"

definition validate_suggested_filename :: "str \<Rightarrow> str res" where
  "validate_suggested_filename filename =
     (if filename = [] \<or> length filename > 128 \<or> filename = ascii ''.'' \<or> filename = ascii ''..''
        \<or> starts_with (ascii ''.'') filename \<or> last filename = dot \<or> last filename = 0x20
        \<or> \<not> list_all (\<lambda>b. is_ascii_alphanumeric b \<or> b = dot \<or> b = 0x5f \<or> b = 0x2d) filename
      then Inl InvalidBinding
      else and_then (ok_or InvalidBinding (path_extension filename)) (\<lambda>extension.
        if extension = [] \<or> length extension > 16 \<or> \<not> list_all is_ascii_alphanumeric extension
        then Inl InvalidBinding
        else Inr (dot # extension)))"

definition validate_target ::
    "binding_target \<Rightarrow> str set \<Rightarrow> bool \<Rightarrow> (validated_binding_target \<times> str set \<times> bool) res" where
  "validate_target target names has_standard_input =
     (case target of
        EnvironmentTarget name \<Rightarrow>
          and_then (validate_environment_name name names) (\<lambda>names'.
          Inr (ValidatedEnvironment name, names', has_standard_input))
      | StandardInputTarget \<Rightarrow>
          if has_standard_input then Inl InvalidBinding
          else Inr (ValidatedStandardInput, names, True)
      | TemporaryFileTarget name suggested_filename \<Rightarrow>
          and_then (validate_environment_name name names) (\<lambda>names'.
          case suggested_filename of
            None \<Rightarrow> Inr (ValidatedTemporaryFile name None, names', has_standard_input)
          | Some filename \<Rightarrow>
              and_then (validate_suggested_filename filename) (\<lambda>extension.
              Inr (ValidatedTemporaryFile name (Some extension), names', has_standard_input))))"

fun validate_bindings ::
    "text_env \<Rightarrow> str set \<Rightarrow> bool \<Rightarrow> secret_binding_request list \<Rightarrow> validated_secret_binding list res" where
  "validate_bindings env names has_standard_input [] = Inr []"
| "validate_bindings env names has_standard_input (binding # rest) =
     and_then (parse_secret_ref env (sbr_secret_ref binding)) (\<lambda>secret_ref.
     and_then (parse_field_name (sbr_field binding)) (\<lambda>fld.
     and_then (validate_target (sbr_target binding) names has_standard_input) (\<lambda>(target, names', stdin').
     and_then (validate_bindings env names' stdin' rest) (\<lambda>validated.
     Inr (\<lparr>vb_secret_ref = secret_ref, vb_field = fld, vb_target = target\<rparr> # validated)))))"

definition validate_run_request ::
    "text_env \<Rightarrow> run_request \<Rightarrow> run_caller \<Rightarrow> validated_run_request res" where
  "validate_run_request env request caller =
     (if \<not> is_absolute (rn_executable request) \<or> has_nul (rn_executable request)
         \<or> length (rn_executable request) > RUN_MAX_PATH_BYTES
      then Inl InvalidExecutablePath
      else if \<not> is_absolute (rn_working_directory request) \<or> has_nul (rn_working_directory request)
         \<or> length (rn_working_directory request) > RUN_MAX_PATH_BYTES
      then Inl InvalidWorkingDirectory
      else if length (rn_arguments request) > RUN_MAX_ARGUMENTS
         \<or> sum_list (map length (rn_arguments request)) > RUN_MAX_ARGUMENT_BYTES
         \<or> list_ex has_nul (rn_arguments request)
      then Inl InvalidRequest
      else if length (rn_bindings request) > MAX_BINDINGS then Inl TooManyBindings
      else
        let timeout = from_millis (rn_timeout_ms request) in
        if timeout = 0 \<or> timeout > maximum_timeout caller then Inl InvalidTimeout
        else if \<not> (MIN_OUTPUT_LIMIT_BYTES \<le> rn_output_limit_bytes request
           \<and> rn_output_limit_bytes request \<le> MAX_OUTPUT_LIMIT_BYTES) then Inl InvalidOutputLimit
        else
          and_then (validate_bindings env {} False (rn_bindings request)) (\<lambda>bindings.
          Inr \<lparr>vr_executable = rn_executable request, vr_arguments = rn_arguments request,
               vr_working_directory = rn_working_directory request, vr_bindings = bindings,
               vr_timeout = timeout, vr_output_limit_bytes = rn_output_limit_bytes request\<rparr>))"

section \<open>Resolution\<close>

record resolved_secret_binding =
  rb_secret_id :: secret_id
  rb_field :: field_name
  rb_value :: "byte list"

definition new_resolved_binding ::
    "text_env \<Rightarrow> str \<Rightarrow> str \<Rightarrow> byte list \<Rightarrow> resolved_secret_binding res" where
  "new_resolved_binding env secret_id fld v =
     and_then (parse_secret_id env secret_id) (\<lambda>i.
     and_then (parse_field_name fld) (\<lambda>f.
     Inr \<lparr>rb_secret_id = i, rb_field = f, rb_value = v\<rparr>))"

record prepared_binding =
  pb_secret_id :: secret_id
  pb_field :: field_name
  pb_target :: validated_binding_target
  pb_value :: "byte list"

record prepared_run =
  pr_executable :: str
  pr_arguments :: "str list"
  pr_working_directory :: str
  pr_bindings :: "prepared_binding list"
  pr_timeout :: duration
  pr_output_limit_bytes :: nat

text \<open>\<open>slice::windows\<close>: all contiguous parts of a given positive length.\<close>

definition windows :: "nat \<Rightarrow> 'a list \<Rightarrow> 'a list list" where
  "windows n xs = map (\<lambda>i. take n (drop i xs)) [0..<Suc (length xs) - n]"

definition contains :: "str \<Rightarrow> byte list \<Rightarrow> bool" where
  "contains haystack needle =
     (needle \<noteq> [] \<and> list_ex (\<lambda>w. w = needle) (windows (length needle) haystack))"

definition is_environment :: "validated_binding_target \<Rightarrow> bool" where
  "is_environment target = (case target of ValidatedEnvironment _ \<Rightarrow> True | _ \<Rightarrow> False)"

definition resolve_one ::
    "validated_run_request \<Rightarrow> nat \<Rightarrow> validated_secret_binding \<Rightarrow> resolved_secret_binding \<Rightarrow> prepared_binding res" where
  "resolve_one v injected_bytes binding resolved =
     (if vb_field binding \<noteq> rb_field resolved then Inl InvalidBinding
      else if (case vb_secret_ref binding of RefId expected \<Rightarrow> expected \<noteq> rb_secret_id resolved | RefName _ \<Rightarrow> False)
        then Inl InvalidBinding
      else if injected_bytes + length (rb_value resolved) > MAX_INJECTED_BYTES then Inl InjectedDataTooLarge
      else if is_environment (vb_target binding) \<and> (\<not> valid_utf8 (rb_value resolved) \<or> 0 \<in> set (rb_value resolved))
        then Inl InvalidBinding
      else if contains (vr_executable v) (rb_value resolved)
         \<or> contains (vr_working_directory v) (rb_value resolved)
         \<or> list_ex (\<lambda>argument. contains argument (rb_value resolved)) (vr_arguments v)
        then Inl SecretInCommand
      else Inr \<lparr>pb_secret_id = rb_secret_id resolved, pb_field = rb_field resolved,
             pb_target = vb_target binding, pb_value = rb_value resolved\<rparr>)"

fun resolve_loop ::
    "validated_run_request \<Rightarrow> nat \<Rightarrow> (validated_secret_binding \<times> resolved_secret_binding) list \<Rightarrow> prepared_binding list res" where
  "resolve_loop v injected_bytes [] = Inr []"
| "resolve_loop v injected_bytes ((binding, resolved) # rest) =
     and_then (resolve_one v injected_bytes binding resolved) (\<lambda>prepared.
     and_then (resolve_loop v (injected_bytes + length (rb_value resolved)) rest) (\<lambda>others.
     Inr (prepared # others)))"

definition resolve :: "validated_run_request \<Rightarrow> resolved_secret_binding list \<Rightarrow> prepared_run res" where
  "resolve v resolved =
     (if length resolved \<noteq> length (vr_bindings v) then Inl InvalidBinding
      else and_then (resolve_loop v 0 (zip (vr_bindings v) resolved)) (\<lambda>prepared.
        Inr \<lparr>pr_executable = vr_executable v, pr_arguments = vr_arguments v,
             pr_working_directory = vr_working_directory v, pr_bindings = prepared,
             pr_timeout = vr_timeout v, pr_output_limit_bytes = vr_output_limit_bytes v\<rparr>))"

section \<open>What the checks mean\<close>

lemma guard_Inr: "(if b then Inl e else m) = Inr x \<longleftrightarrow> \<not> b \<and> m = Inr x"
  by simp

lemma windows_sublist: "w \<in> set (windows n xs) \<longleftrightarrow> length w = n \<and> sublist w xs"
proof
  assume "w \<in> set (windows n xs)"
  then obtain i where i: "i < Suc (length xs) - n" "w = take n (drop i xs)"
    by (auto simp: windows_def)
  then show "length w = n \<and> sublist w xs"
    by (auto intro: sublist_order.order_trans [OF sublist_take sublist_drop])
next
  assume w: "length w = n \<and> sublist w xs"
  then obtain ps ss where "xs = ps @ w @ ss" by (auto simp: sublist_def)
  with w show "w \<in> set (windows n xs)"
    by (auto simp: windows_def intro!: image_eqI [of _ _ "length ps"])
qed

lemma contains_iff: "contains haystack needle \<longleftrightarrow> needle \<noteq> [] \<and> sublist needle haystack"
  by (auto simp: contains_def list_ex_iff windows_sublist)

definition env_name_ok :: "str \<Rightarrow> bool" where
  "env_name_ok name = (0 < length name \<and> length name \<le> 256 \<and> 0 \<notin> set name \<and> 0x3d \<notin> set name)"

fun env_names :: "binding_target list \<Rightarrow> str list" where
  "env_names [] = []"
| "env_names (EnvironmentTarget name # ts) = name # env_names ts"
| "env_names (StandardInputTarget # ts) = env_names ts"
| "env_names (TemporaryFileTarget name _ # ts) = name # env_names ts"

text \<open>A target and the one it is validated to.\<close>

fun target_valid :: "binding_target \<Rightarrow> validated_binding_target \<Rightarrow> bool" where
  "target_valid (EnvironmentTarget name) t = (t = ValidatedEnvironment name \<and> env_name_ok name)"
| "target_valid StandardInputTarget t = (t = ValidatedStandardInput)"
| "target_valid (TemporaryFileTarget name None) t = (t = ValidatedTemporaryFile name None \<and> env_name_ok name)"
| "target_valid (TemporaryFileTarget name (Some filename)) t =
     (\<exists>extension. t = ValidatedTemporaryFile name (Some extension) \<and> env_name_ok name \<and>
        validate_suggested_filename filename = Inr extension)"

definition binding_valid :: "text_env \<Rightarrow> secret_binding_request \<Rightarrow> validated_secret_binding \<Rightarrow> bool" where
  "binding_valid env b v =
     (parse_secret_ref env (sbr_secret_ref b) = Inr (vb_secret_ref v) \<and>
      parse_field_name (sbr_field b) = Inr (vb_field v) \<and>
      target_valid (sbr_target b) (vb_target v))"

lemma validate_environment_name_Inr [result_simps]:
  "validate_environment_name name names = Inr names' \<longleftrightarrow>
     env_name_ok name \<and> name \<notin> names \<and> names' = insert name names"
  by (auto simp: validate_environment_name_def env_name_ok_def not_less)

lemma validate_target_Inr:
  "validate_target target names stdin = Inr (t, names', stdin') \<longleftrightarrow>
     target_valid target t \<and> set (env_names [target]) \<inter> names = {} \<and>
     names' = names \<union> set (env_names [target]) \<and>
     (target = StandardInputTarget \<longrightarrow> \<not> stdin) \<and> stdin' = (stdin \<or> target = StandardInputTarget)"
  by (cases "(target, t)" rule: target_valid.cases)
    (auto simp: validate_target_def result_simps)

lemma env_names_Cons: "env_names (t # ts) = env_names [t] @ env_names ts"
  by (cases t) auto

lemma validate_bindings_Inr:
  "validate_bindings env names stdin bs = Inr vs \<longleftrightarrow>
     list_all2 (binding_valid env) bs vs \<and>
     distinct (env_names (map sbr_target bs)) \<and> set (env_names (map sbr_target bs)) \<inter> names = {} \<and>
     count_list (map sbr_target bs) StandardInputTarget \<le> (if stdin then 0 else 1)"
proof (induction bs arbitrary: names stdin vs)
  case Nil
  then show ?case by auto
next
  case (Cons b bs)
  have d: "distinct (env_names [sbr_target b])" by (cases "sbr_target b") auto
  show ?case
  proof (cases vs)
    case Nil
    then show ?thesis by (auto simp: result_simps)
  next
    case [simp]: (Cons v vs')
    obtain N where N: "env_names [sbr_target b] = N" by simp
    have E: "env_names (map sbr_target (b # bs)) = N @ env_names (map sbr_target bs)"
      using env_names_Cons [of "sbr_target b" "map sbr_target bs"] N by simp
    have "validate_bindings env names stdin (b # bs) = Inr vs \<longleftrightarrow>
        binding_valid env b v \<and> set N \<inter> names = {} \<and> (sbr_target b = StandardInputTarget \<longrightarrow> \<not> stdin) \<and>
        validate_bindings env (names \<union> set N) (stdin \<or> sbr_target b = StandardInputTarget) bs = Inr vs'"
      by (cases v) (auto simp: result_simps validate_target_Inr N binding_valid_def)
    also have "\<dots> \<longleftrightarrow> list_all2 (binding_valid env) (b # bs) vs \<and> distinct (N @ env_names (map sbr_target bs)) \<and>
        set (N @ env_names (map sbr_target bs)) \<inter> names = {} \<and>
        count_list (map sbr_target (b # bs)) StandardInputTarget \<le> (if stdin then 0 else 1)"
      unfolding Cons.IH using d N by auto
    finally show ?thesis unfolding E .
  qed
qed

lemma suggested_extension:
  "validate_suggested_filename filename = Inr extension \<Longrightarrow>
     \<exists>x. extension = dot # x \<and> 0 < length x \<and> length x \<le> 16 \<and> list_all is_ascii_alphanumeric x"
  by (auto simp: validate_suggested_filename_def result_simps split: if_splits)

text \<open>C33: A run request is accepted exactly when its executable and working directory are
  absolute paths of at most 32 KiB without NUL, it has at most 256 arguments of together at most
  256 KiB without NUL, a timeout that is not zero and at most the one of its caller, an output limit
  between 128 bytes and 2 MiB, and at most 16 bindings: each valid by itself, no two for the same
  environment variable, at most one for standard input. The validated request asks for the same
  command, and its bindings are the requested ones in order.\<close>

theorem run_validation_exact:
  "validate_run_request env request caller = Inr v \<longleftrightarrow>
     starts_with (ascii ''/'') (rn_executable request) \<and> 0 \<notin> set (rn_executable request) \<and>
     length (rn_executable request) \<le> 32 * 1024 \<and>
     starts_with (ascii ''/'') (rn_working_directory request) \<and> 0 \<notin> set (rn_working_directory request) \<and>
     length (rn_working_directory request) \<le> 32 * 1024 \<and>
     length (rn_arguments request) \<le> 256 \<and> sum_list (map length (rn_arguments request)) \<le> 256 * 1024 \<and>
     0 \<notin> \<Union> (set ` set (rn_arguments request)) \<and>
     0 < unat (rn_timeout_ms request) \<and>
     unat (rn_timeout_ms request) \<le> (case caller of McpCaller \<Rightarrow> 900000 | CliCaller \<Rightarrow> 7200000) \<and>
     128 \<le> rn_output_limit_bytes request \<and> rn_output_limit_bytes request \<le> 2 * 1024 * 1024 \<and>
     length (rn_bindings request) \<le> 16 \<and>
     distinct (env_names (map sbr_target (rn_bindings request))) \<and>
     count_list (map sbr_target (rn_bindings request)) StandardInputTarget \<le> 1 \<and>
     list_all2 (binding_valid env) (rn_bindings request) (vr_bindings v) \<and>
     v = \<lparr>vr_executable = rn_executable request, vr_arguments = rn_arguments request,
          vr_working_directory = rn_working_directory request, vr_bindings = vr_bindings v,
          vr_timeout = unat (rn_timeout_ms request) * 1000000,
          vr_output_limit_bytes = rn_output_limit_bytes request\<rparr>" (is "_ = ?accepted")
proof -
  have t: "\<not> (from_millis ms = 0 \<or> from_millis ms > maximum_timeout caller) \<longleftrightarrow>
      0 < unat ms \<and> unat ms \<le> (case caller of McpCaller \<Rightarrow> 900000 | CliCaller \<Rightarrow> 7200000)" for ms
    by (cases caller) (auto simp: from_millis_def nanos_per_milli_def from_secs_def nanos_per_sec_def
        MAX_MCP_TIMEOUT_def MAX_CLI_TIMEOUT_def)
  have "validate_run_request env request caller = Inr v \<longleftrightarrow>
     \<not> (\<not> is_absolute (rn_executable request) \<or> has_nul (rn_executable request)
         \<or> length (rn_executable request) > RUN_MAX_PATH_BYTES) \<and>
     \<not> (\<not> is_absolute (rn_working_directory request) \<or> has_nul (rn_working_directory request)
         \<or> length (rn_working_directory request) > RUN_MAX_PATH_BYTES) \<and>
     \<not> (length (rn_arguments request) > RUN_MAX_ARGUMENTS
         \<or> sum_list (map length (rn_arguments request)) > RUN_MAX_ARGUMENT_BYTES
         \<or> list_ex has_nul (rn_arguments request)) \<and>
     \<not> length (rn_bindings request) > MAX_BINDINGS \<and>
     \<not> (from_millis (rn_timeout_ms request) = 0 \<or> from_millis (rn_timeout_ms request) > maximum_timeout caller) \<and>
     MIN_OUTPUT_LIMIT_BYTES \<le> rn_output_limit_bytes request \<and> rn_output_limit_bytes request \<le> MAX_OUTPUT_LIMIT_BYTES \<and>
     validate_bindings env {} False (rn_bindings request) = Inr (vr_bindings v) \<and>
     v = \<lparr>vr_executable = rn_executable request, vr_arguments = rn_arguments request,
          vr_working_directory = rn_working_directory request, vr_bindings = vr_bindings v,
          vr_timeout = from_millis (rn_timeout_ms request),
          vr_output_limit_bytes = rn_output_limit_bytes request\<rparr>"
    unfolding validate_run_request_def Let_def guard_Inr and_then_Inr_iff by auto
  also have "\<dots> = ?accepted"
    unfolding t unfolding validate_bindings_Inr is_absolute_def has_nul_def RUN_MAX_PATH_BYTES_def RUN_MAX_ARGUMENTS_def
      RUN_MAX_ARGUMENT_BYTES_def MAX_BINDINGS_def MIN_OUTPUT_LIMIT_BYTES_def MAX_OUTPUT_LIMIT_BYTES_def
      from_millis_def nanos_per_milli_def list_ex_iff not_less de_Morgan_disj not_not UN_iff Int_empty_right if_False
    by (simp only: simp_thms conj_ac)
  finally show ?thesis .
qed

text \<open>What \<open>resolve\<close> asks of a binding and the value found for it: the same field, the requested
  identifier, text without NUL for an environment variable, and a value that does not occur in the
  command.\<close>

definition visible_in_command :: "validated_run_request \<Rightarrow> byte list \<Rightarrow> bool" where
  "visible_in_command v x =
     (x \<noteq> [] \<and> (sublist x (vr_executable v) \<or> sublist x (vr_working_directory v) \<or>
        (\<exists>a \<in> set (vr_arguments v). sublist x a)))"

definition resolves_to ::
    "validated_run_request \<Rightarrow> validated_secret_binding \<Rightarrow> resolved_secret_binding \<Rightarrow> bool" where
  "resolves_to v b r =
     (rb_field r = vb_field b \<and>
      (\<forall>i. vb_secret_ref b = RefId i \<longrightarrow> rb_secret_id r = i) \<and>
      (is_environment (vb_target b) \<longrightarrow> valid_utf8 (rb_value r) \<and> 0 \<notin> set (rb_value r)) \<and>
      \<not> visible_in_command v (rb_value r))"

definition join_binding :: "validated_secret_binding \<Rightarrow> resolved_secret_binding \<Rightarrow> prepared_binding" where
  "join_binding b r =
     \<lparr>pb_secret_id = rb_secret_id r, pb_field = rb_field r, pb_target = vb_target b, pb_value = rb_value r\<rparr>"

lemma resolve_one_Inr:
  "resolve_one v n b r = Inr p \<longleftrightarrow>
     resolves_to v b r \<and> n + length (rb_value r) \<le> MAX_INJECTED_BYTES \<and> p = join_binding b r"
  unfolding resolve_one_def guard_Inr
  by (auto simp: resolves_to_def visible_in_command_def join_binding_def contains_iff list_ex_iff
      split: secret_ref.splits)

lemma resolve_loop_Inr:
  "resolve_loop v n brs = Inr ps \<longleftrightarrow>
     (\<forall>(b, r) \<in> set brs. resolves_to v b r) \<and>
     (brs \<noteq> [] \<longrightarrow> n + sum_list (map (\<lambda>(b, r). length (rb_value r)) brs) \<le> MAX_INJECTED_BYTES) \<and>
     ps = map (\<lambda>(b, r). join_binding b r) brs"
proof (induction v n brs arbitrary: ps rule: resolve_loop.induct)
  case (2 v n b r rest)
  show ?case
    by (auto simp: result_simps resolve_one_Inr "2.IH" split: prod.splits)
qed auto

text \<open>C32: A validated run is prepared exactly when every binding got one value, in order: of its
  field, of the requested identifier, valid text without NUL for an environment variable; when the
  values have together at most 1 MiB; and when no value that is not empty occurs in the executable,
  the working directory or an argument. The prepared run is the validated command with each value
  joined to its target.\<close>

theorem resolve_exact:
  "resolve v resolved = Inr prepared \<longleftrightarrow>
     list_all2 (resolves_to v) (vr_bindings v) resolved \<and>
     sum_list (map (\<lambda>r. length (rb_value r)) resolved) \<le> 1024 * 1024 \<and>
     prepared = \<lparr>pr_executable = vr_executable v, pr_arguments = vr_arguments v,
        pr_working_directory = vr_working_directory v,
        pr_bindings = map2 join_binding (vr_bindings v) resolved,
        pr_timeout = vr_timeout v, pr_output_limit_bytes = vr_output_limit_bytes v\<rparr>"
proof (cases "length resolved = length (vr_bindings v)")
  case True
  then have "map (\<lambda>(b, r). length (rb_value r)) (zip (vr_bindings v) resolved) = map (\<lambda>r. length (rb_value r)) resolved"
    by (simp add: list_eq_iff_nth_eq)
  moreover have "zip (vr_bindings v) resolved = [] \<Longrightarrow> resolved = []"
    using True by (cases resolved; cases "vr_bindings v") auto
  ultimately show ?thesis
    using True
    by (auto simp: resolve_def result_simps resolve_loop_Inr list_all2_iff MAX_INJECTED_BYTES_def)
next
  case False
  then show ?thesis by (auto simp: resolve_def list_all2_iff)
qed

end
