(* ===== verification/Ladon_Redact_Properties.thy ===== *)
theory Ladon_Redact_Properties
  imports Ladon_Redact
begin

text \<open>
  The redactor against a reference: the leftmost longest pattern is replaced, bytes that are not
  UTF-8 are escaped, and the result is shown whole or as a head and a tail around a count of what
  was omitted. The proofs follow the three stages: the search (\<open>find_next\<close>, \<open>process_loop\<close>), the
  escaper (\<open>esc\<close>), the capture (\<open>captured\<close>).
\<close>

section \<open>The search\<close>

lemma occurs_at_drop: "p \<le> length buffer \<Longrightarrow> occurs_at (drop p buffer) needle j \<longleftrightarrow> occurs_at buffer needle (p + j)"
  by (auto simp: occurs_at_def add.commute)

lemma occurs_at_sublist: "(\<exists>i. occurs_at haystack needle i) \<longleftrightarrow> sublist needle haystack"
proof
  assume "\<exists>i. occurs_at haystack needle i"
  then show "sublist needle haystack"
    by (auto simp: occurs_at_def dest!: prefix_imp_sublist intro: sublist_order.order_trans [OF _ sublist_drop])
next
  assume "sublist needle haystack"
  then obtain ps ss where "haystack = ps @ needle @ ss" by (auto simp: sublist_def)
  then show "\<exists>i. occurs_at haystack needle i"
    by (auto simp: occurs_at_def intro!: exI [of _ "length ps"])
qed

lemma memmem_None:
  "memmem_law lib \<Longrightarrow> memmem_find lib haystack needle = None \<longleftrightarrow> \<not> sublist needle haystack"
  unfolding memmem_law_def occurs_at_sublist [symmetric]
  by (metis (no_types, lifting) option.exhaust option.simps(4,5))

lemma contains_pattern_iff:
  "memmem_law lib \<Longrightarrow> contains_pattern lib haystack patterns \<longleftrightarrow> (\<exists>p \<in> set patterns. sublist p haystack)"
  by (simp add: contains_pattern_def list_ex_iff memmem_None)

text \<open>The best match among the first patterns.\<close>

definition best_among ::
    "byte list \<Rightarrow> nat \<Rightarrow> nat \<Rightarrow> byte list list \<Rightarrow> nat \<Rightarrow> (nat \<times> nat) option \<Rightarrow> bool" where
  "best_among buffer position safe_end patterns k best =
     (case best of
        None \<Rightarrow> \<forall>i < k. \<forall>j. position \<le> j \<and> j < safe_end \<longrightarrow> \<not> occurs_at buffer (patterns ! i) j
      | Some (s, b) \<Rightarrow> b < k \<and> position \<le> s \<and> s < safe_end \<and> occurs_at buffer (patterns ! b) s \<and>
          (\<forall>i < k. (\<forall>j. position \<le> j \<and> j < s \<longrightarrow> \<not> occurs_at buffer (patterns ! i) j) \<and>
             (occurs_at buffer (patterns ! i) s \<longrightarrow> length (patterns ! i) \<le> length (patterns ! b))))"

lemma find_next_step:
  assumes L: "memmem_law lib" and p: "position \<le> length buffer"
    and b: "best_among buffer position safe_end patterns k best"
  shows "best_among buffer position safe_end patterns (Suc k)
       (case memmem_find lib (drop position buffer) (patterns ! k) of
          None \<Rightarrow> best
        | Some found \<Rightarrow>
            let start = position + found in
            if start \<ge> safe_end then best
            else case best of
                None \<Rightarrow> Some (start, k)
              | Some (best_start, best_index) \<Rightarrow>
                  if start < best_start
                    \<or> start = best_start \<and> length (patterns ! k) > length (patterns ! best_index)
                  then Some (start, k) else best)"
proof (cases "memmem_find lib (drop position buffer) (patterns ! k)")
  case None
  with L have none: "\<not> occurs_at (drop position buffer) (patterns ! k) j" for j
    using spec [OF spec [OF L [unfolded memmem_law_def], of "drop position buffer"], of "patterns ! k"] by simp
  have none': "\<not> occurs_at buffer (patterns ! k) j" if "position \<le> j" for j
    using none [of "j - position"] occurs_at_drop [OF p, of "patterns ! k" "j - position"] that by simp
  show ?thesis
    using b none' None by (auto simp: best_among_def less_Suc_eq split: option.splits)
next
  case (Some found)
  with L have at: "occurs_at buffer (patterns ! k) (position + found)"
    and least: "\<And>j. j < found \<Longrightarrow> \<not> occurs_at buffer (patterns ! k) (position + j)"
    using spec [OF spec [OF L [unfolded memmem_law_def], of "drop position buffer"], of "patterns ! k"]
    by (auto simp: occurs_at_drop [OF p])
  have least': "\<not> occurs_at buffer (patterns ! k) j" if "position \<le> j" "j < position + found" for j
    using least [of "j - position"] that by auto
  show ?thesis
  proof (cases best)
    case None
    then show ?thesis
      using b Some at least' by (auto simp: best_among_def less_Suc_eq Let_def)
  next
    case (Some sb)
    obtain s i where sb: "sb = (s, i)" by (cases sb)
    then show ?thesis
      using b Some \<open>memmem_find _ _ _ = Some found\<close> at least'
      by (auto simp: best_among_def less_Suc_eq Let_def; (metis le_less_trans less_trans not_less linorder_neqE_nat | force))
  qed
qed

lemma find_next_loop_best:
  assumes L: "memmem_law lib" and p: "position \<le> length buffer"
  shows "best_among buffer position safe_end patterns k best \<Longrightarrow> k + length rest = length patterns \<Longrightarrow>
     rest = drop k patterns \<Longrightarrow>
     best_among buffer position safe_end patterns (length patterns)
       (find_next_loop lib buffer position safe_end patterns k rest best)"
proof (induction rest arbitrary: k best)
  case Nil
  then show ?case by simp
next
  case (Cons pattern rest)
  then have pk: "pattern = patterns ! k" and r: "rest = drop (Suc k) patterns"
    by (metis Cons_nth_drop_Suc drop_all linorder_not_le list.distinct(1) list.inject)+
  show ?case
    unfolding find_next_loop.simps
    by (rule Cons.IH) (use find_next_step [OF L p Cons.prems(1)] Cons.prems(2) r pk in auto)
qed

lemma find_next_best:
  "memmem_law lib \<Longrightarrow> position \<le> length buffer \<Longrightarrow>
     best_among buffer position safe_end patterns (length patterns) (find_next lib buffer position safe_end patterns)"
  unfolding find_next_def by (rule find_next_loop_best) (auto simp: best_among_def)

section \<open>The reference\<close>

text \<open>The longest pattern that starts an input is replaced by the marker; where none does, a byte is
  kept. The second component counts the replacements.\<close>

definition matching :: "byte list list \<Rightarrow> byte list \<Rightarrow> byte list list" where
  "matching patterns input = filter (\<lambda>p. p \<noteq> [] \<and> prefix p input) patterns"

function redact_ref :: "byte list list \<Rightarrow> str \<Rightarrow> byte list \<Rightarrow> byte list \<times> nat" where
  "redact_ref patterns marker input =
     (if input = [] then ([], 0)
      else if matching patterns input = [] then
        (let (out, n) = redact_ref patterns marker (tl input) in (hd input # out, n))
      else
        (let (out, n) = redact_ref patterns marker (drop (Max (length ` set (matching patterns input))) input)
         in (marker @ out, Suc n)))"
  by pat_completeness auto
termination
proof (relation "measure (\<lambda>(p, m, i). length i)")
  fix patterns marker and input :: "byte list"
  assume "input \<noteq> []" "matching patterns input \<noteq> []"
  then have "Max (length ` set (matching patterns input)) \<in> length ` set (matching patterns input)"
    by (intro Max_in) auto
  then have "0 < Max (length ` set (matching patterns input))"
    by (auto simp: matching_def)
  then show "((patterns, marker, drop (Max (length ` set (matching patterns input))) input), patterns, marker, input)
      \<in> measure (\<lambda>(p, m, i). length i)"
    using \<open>input \<noteq> []\<close> by simp
qed auto

declare redact_ref.simps [simp del]

lemma redact_ref_Nil [simp]: "redact_ref patterns marker [] = ([], 0)"
  by (simp add: redact_ref.simps)

definition before :: "byte list \<Rightarrow> nat \<Rightarrow> byte list \<times> nat \<Rightarrow> byte list \<times> nat" where
  "before out n r = (out @ fst r, n + snd r)"

lemma before_simps [simp]:
  "before [] 0 r = r" "before a m (before b n r) = before (a @ b) (m + n) r"
  by (simp_all add: before_def)

lemma matching_Nil: "matching patterns input = [] \<longleftrightarrow> (\<forall>p \<in> set patterns. p \<noteq> [] \<longrightarrow> \<not> prefix p input)"
  by (auto simp: matching_def filter_empty_conv)

lemma redact_ref_keep:
  assumes "\<And>i. i < n \<Longrightarrow> matching patterns (drop i input) = []" and "n \<le> length input"
  shows "redact_ref patterns marker input = before (take n input) 0 (redact_ref patterns marker (drop n input))"
  using assms
proof (induction n)
  case 0
  then show ?case by simp
next
  case (Suc n)
  then have "redact_ref patterns marker (drop n input) =
      before [input ! n] 0 (redact_ref patterns marker (drop (Suc n) input))"
    by (subst redact_ref.simps) (auto simp: before_def hd_drop_conv_nth drop_Suc tl_drop split: prod.splits)
  with Suc show ?case by (simp add: take_Suc_conv_app_nth)
qed

lemma redact_ref_replace:
  assumes "p \<in> set patterns" "p \<noteq> []" "prefix p input"
    and "\<And>q. q \<in> set patterns \<Longrightarrow> prefix q input \<Longrightarrow> length q \<le> length p"
  shows "redact_ref patterns marker input = before marker 1 (redact_ref patterns marker (drop (length p) input))"
proof -
  have "Max (length ` set (matching patterns input)) = length p"
    using assms by (intro Max_eqI) (auto simp: matching_def)
  moreover have "matching patterns input \<noteq> []" "input \<noteq> []"
    using assms by (auto simp: matching_Nil)
  ultimately show ?thesis
    by (subst redact_ref.simps) (auto simp: before_def split: prod.splits)
qed

section \<open>The escaper\<close>

text \<open>The characters the escaper emits for a buffer, and the incomplete sequence it keeps.\<close>

definition escape_chars :: "byte list \<Rightarrow> str list" where
  "escape_chars bs = concat (map (\<lambda>b. map (\<lambda>x. [x]) (escape_byte b)) bs)"

function esc :: "byte list \<Rightarrow> str list \<times> byte list" where
  "esc bs =
     (if bs = [] then ([], [])
      else case utf8_step bs of
        Scalar w \<Rightarrow> (let (cs, p) = esc (drop w bs) in (take w bs # cs, p))
      | Invalid n \<Rightarrow> (let (cs, p) = esc (drop n bs) in (escape_chars (take n bs) @ cs, p))
      | Incomplete \<Rightarrow> ([], bs))"
  by pat_completeness auto
termination
  by (relation "measure length") (auto dest: utf8_step_Scalar utf8_step_Invalid)

declare esc.simps [simp del]

lemma esc_Nil [simp]: "esc [] = ([], [])"
  by (simp add: esc.simps)

lemma utf8_step_Invalid_append: "utf8_step bs = Invalid n \<Longrightarrow> utf8_step (bs @ cs) = Invalid n"
  by (cases bs) (auto split: if_splits list.splits)

lemma esc_append: "esc (a @ b) = (fst (esc a) @ fst (esc (snd (esc a) @ b)), snd (esc (snd (esc a) @ b)))"
proof (induction a rule: esc.induct)
  case (1 a)
  show ?case
  proof (cases "a = []")
    case True
    then show ?thesis by simp
  next
    case False
    show ?thesis
    proof (cases "utf8_step a")
      case (Scalar w)
      with utf8_step_Scalar [OF Scalar] "1.IH"(1) [OF False Scalar] False show ?thesis
        by (simp add: esc.simps [of a] esc.simps [of "a @ b"] utf8_step_append split: prod.splits)
    next
      case (Invalid n)
      with utf8_step_Invalid [OF Invalid] "1.IH"(2) [OF False Invalid] False show ?thesis
        by (simp add: esc.simps [of a] esc.simps [of "a @ b"] utf8_step_Invalid_append split: prod.splits)
    next
      case Incomplete
      then show ?thesis using False by (simp add: esc.simps [of a])
    qed
  qed
qed

lemma esc_valid_append: "valid_utf8 a \<Longrightarrow> esc (a @ b) = (chars a @ fst (esc b), snd (esc b))"
proof (induction a rule: chars.induct)
  case (1 a)
  show ?case
  proof (cases "a = []")
    case True
    then show ?thesis by (simp add: chars.simps)
  next
    case False
    with "1.prems" obtain w where w: "utf8_step a = Scalar w" "valid_utf8 (drop w a)"
      by (auto simp: valid_utf8_step)
    with utf8_step_Scalar [OF w(1)] "1.IH" [OF w] False show ?thesis
      by (simp add: esc.simps [of "a @ b"] chars.simps [of a] utf8_step_append split: prod.splits)
  qed
qed

lemma utf8_step_after_check:
  "utf8_check bs = Inl (v, e) \<Longrightarrow>
     utf8_step (drop v bs) = (case e of Some n \<Rightarrow> Invalid n | None \<Rightarrow> Incomplete)"
proof (induction bs arbitrary: v e rule: utf8_check.induct)
  case (1 bs)
  then have ne: "bs \<noteq> []" by auto
  show ?case
  proof (cases "utf8_step bs")
    case (Scalar w)
    with "1.prems" ne obtain v' where "utf8_check (drop w bs) = Inl (v', e)" "v = w + v'"
      by (auto simp: utf8_check.simps [of bs] split: sum.splits)
    with "1.IH" [OF ne Scalar] show ?thesis by (simp add: add.commute)
  qed (use "1.prems" ne in \<open>auto simp: utf8_check.simps [of bs]\<close>)
qed

lemma escape_byte_ascii: "x \<in> set (escape_byte b) \<Longrightarrow> x < 128"
proof -
  have "unat b div 16 < 16" using unsigned_less [of b, where 'a = nat] by (simp add: less_mult_imp_div_less)
  moreover have "hex_digit u n < 128" if "n < 16" for u n
    using that by (auto simp: hex_digit_def simp del: of_nat_add intro: of_nat_ascii)
  ultimately show "x \<in> set (escape_byte b) \<Longrightarrow> x < 128"
    by (auto simp: escape_byte_def)
qed

lemma escape_bytes_eq: "escape_bytes bs c = fold push_char (escape_chars bs) c"
  unfolding escape_bytes_def
proof (induction bs arbitrary: c)
  case (Cons b bs)
  have "chars (escape_byte b) = map (\<lambda>x. [x]) (escape_byte b)"
    by (rule chars_ascii) (simp add: list_all_iff escape_byte_ascii)
  with Cons show ?case by (simp add: escape_chars_def push_str_def)
qed (simp add: escape_chars_def)

lemma escaper_loop_eq: "escaper_loop buffer c = (snd (esc buffer), fold push_char (fst (esc buffer)) c)"
proof (induction buffer c rule: escaper_loop.induct)
  case (1 buffer c)
  show ?case
  proof (cases "buffer = []")
    case True
    then show ?thesis by (simp add: escaper_loop.simps)
  next
    case False
    show ?thesis
    proof (cases "utf8_check buffer")
      case (Inr u)
      then have "esc buffer = (chars buffer, [])"
        using esc_valid_append [of buffer "[]"] by (simp add: valid_utf8_def)
      with Inr False show ?thesis by (simp add: escaper_loop.simps [of buffer] push_str_def)
    next
      case (Inl ve)
      obtain v e where ve: "ve = (v, e)" by (cases ve)
      note chk = Inl [unfolded ve]
      note err = utf8_check_error [OF chk] and st = utf8_step_after_check [OF chk]
      have whole: "esc buffer = (chars (take v buffer) @ fst (esc (drop v buffer)), snd (esc (drop v buffer)))"
        using esc_valid_append [of "take v buffer" "drop v buffer"] err by simp
      show ?thesis
      proof (cases e)
        case None
        with st have "esc (drop v buffer) = ([], drop v buffer)" by (simp add: esc.simps)
        with whole None chk False show ?thesis by (simp add: escaper_loop.simps [of buffer] push_str_def)
      next
        case (Some n)
        with st err have d: "esc (drop v buffer) =
            (escape_chars (take n (drop v buffer)) @ fst (esc (drop (v + n) buffer)), snd (esc (drop (v + n) buffer)))"
          by (subst esc.simps) (simp add: add.commute split: prod.splits)
        from "1.IH" [OF False chk [unfolded ve] refl refl Some] whole d chk False Some show ?thesis
          by (simp add: escaper_loop.simps [of buffer] push_str_def escape_bytes_eq)
      qed
    qed
  qed
qed

text \<open>The state of an escaper that has been given \<open>out\<close>: pushing more is one push of everything.\<close>

definition escaper_after :: "byte list \<Rightarrow> bounded_capture \<Rightarrow> byte list \<times> bounded_capture" where
  "escaper_after out c = (snd (esc out), fold push_char (fst (esc out)) c)"

lemma escaper_push_after:
  "escaper_push (fst (escaper_after out c)) bytes (snd (escaper_after out c)) = escaper_after (out @ bytes) c"
  by (simp add: escaper_push_def escaper_loop_eq escaper_after_def esc_append [of out bytes])

section \<open>Processing a buffer\<close>

definition saturated :: "nat \<Rightarrow> nat" where
  "saturated n = min n u64_max"

lemma sat_add_saturated [simp]: "sat_add (saturated m) n = saturated (m + n)"
  by (simp add: sat_add_def saturated_def)

lemma process_loop_done:
  "\<not> position < safe_end \<Longrightarrow>
     process_loop lib patterns marker buffer safe_end position utf8 capture count = Some (position, utf8, capture, count)"
  by (subst process_loop.simps) simp

text \<open>Beyond \<open>safe_end\<close> the buffer holds enough bytes to see every pattern that starts before it.\<close>

lemma prefix_in_buffer:
  assumes "i < safe_end" "(0 < safe_end \<longrightarrow> safe_end + (m - 1) \<le> length buffer) \<or> rest = []" "length p \<le> m" "i \<le> length buffer"
  shows "prefix p (drop i buffer @ rest) \<longleftrightarrow> occurs_at buffer p i"
proof -
  have "prefix p (drop i buffer @ rest) \<longleftrightarrow> prefix p (drop i buffer)"
  proof (cases "rest = []")
    case False
    with assms have "length p \<le> length (drop i buffer)" by auto
    then show ?thesis by (auto simp: prefix_append)
  qed simp
  with assms(4) show ?thesis by (simp add: occurs_at_def)
qed

definition process_result ::
    "byte list list \<Rightarrow> str \<Rightarrow> byte list \<Rightarrow> nat \<Rightarrow> nat \<Rightarrow> nat \<Rightarrow> byte list \<Rightarrow> bounded_capture \<Rightarrow> nat \<Rightarrow>
      (nat \<times> byte list \<times> bounded_capture \<times> nat) option \<Rightarrow> bool" where
  "process_result patterns marker buffer safe_end m position sofar c n result =
     (\<exists>position' out k.
        result = Some (position', fst (escaper_after (sofar @ out) c), snd (escaper_after (sofar @ out) c),
          saturated (n + k)) \<and>
        position' \<le> length buffer \<and> safe_end \<le> position' \<and>
        (\<forall>rest. (0 < safe_end \<longrightarrow> safe_end + (m - 1) \<le> length buffer) \<or> rest = [] \<longrightarrow>
           redact_ref patterns marker (drop position buffer @ rest) =
             before out k (redact_ref patterns marker (drop position' buffer @ rest))))"

lemma process_result_step:
  assumes "\<And>rest. (0 < safe_end \<longrightarrow> safe_end + (m - 1) \<le> length buffer) \<or> rest = [] \<Longrightarrow>
       redact_ref patterns marker (drop position buffer @ rest) =
         before out k (redact_ref patterns marker (drop position' buffer @ rest))"
    and "process_result patterns marker buffer safe_end m position' (sofar @ out) c (n + k) result"
  shows "process_result patterns marker buffer safe_end m position sofar c n result"
proof -
  from assms(2) obtain position'' out' k' where r:
    "result = Some (position'', fst (escaper_after ((sofar @ out) @ out') c), snd (escaper_after ((sofar @ out) @ out') c),
          saturated (n + k + k'))" "position'' \<le> length buffer" "safe_end \<le> position''"
    "\<And>rest. (0 < safe_end \<longrightarrow> safe_end + (m - 1) \<le> length buffer) \<or> rest = [] \<Longrightarrow>
           redact_ref patterns marker (drop position' buffer @ rest) =
             before out' k' (redact_ref patterns marker (drop position'' buffer @ rest))"
    unfolding process_result_def by blast
  show ?thesis
    unfolding process_result_def
    by (rule exI [of _ position''], rule exI [of _ "out @ out'"], rule exI [of _ "k + k'"])
      (use r assms(1) in \<open>simp add: add.assoc\<close>)
qed

lemma process_loop_spec:
  assumes L: "memmem_law lib"
    and P: "\<And>p. p \<in> set patterns \<Longrightarrow> p \<noteq> [] \<and> length p \<le> m"
    and "position \<le> length buffer" "safe_end \<le> length buffer"
  shows "process_result patterns marker buffer safe_end m position sofar c n
      (process_loop lib patterns marker buffer safe_end position
         (fst (escaper_after sofar c)) (snd (escaper_after sofar c)) (saturated n))"
  using assms(3)
proof (induction "safe_end - position" arbitrary: position sofar n rule: less_induct)
  case less
  show ?case
  proof (cases "position < safe_end")
    case False
    then show ?thesis
      unfolding process_loop_done [OF False] process_result_def
      by (intro exI [of _ position] exI [of _ "[]"] exI [of _ 0]) (use less.prems in auto)
  next
    case True
    have same: "matching patterns (drop i (drop position buffer @ rest)) = []"
      if "\<And>p. p \<in> set patterns \<Longrightarrow> \<not> occurs_at buffer p (position + i)" "position + i < safe_end"
        "(0 < safe_end \<longrightarrow> safe_end + (m - 1) \<le> length buffer) \<or> rest = []" for i rest
      using prefix_in_buffer [OF that(2,3)] that less.prems P assms(4)
      by (auto simp: matching_Nil add.commute)
    have keep: "redact_ref patterns marker (drop position buffer @ rest) =
        before (slice position s buffer) 0 (redact_ref patterns marker (drop s buffer @ rest))"
      if "\<And>p j. p \<in> set patterns \<Longrightarrow> position \<le> j \<Longrightarrow> j < s \<Longrightarrow> \<not> occurs_at buffer p j" "position \<le> s" "s \<le> safe_end"
        "(0 < safe_end \<longrightarrow> safe_end + (m - 1) \<le> length buffer) \<or> rest = []" for s rest
      using redact_ref_keep [of "s - position" patterns "drop position buffer @ rest" marker, OF same] that assms(4)
      by (auto simp: slice_def)
    show ?thesis
    proof (cases "find_next lib buffer position safe_end patterns")
      case None
      then have none: "\<not> occurs_at buffer p j" if "p \<in> set patterns" "position \<le> j" "j < safe_end" for p j
        using find_next_best [OF L less.prems, of safe_end patterns] that
        by (auto simp: best_among_def in_set_conv_nth)
      have "process_loop lib patterns marker buffer safe_end position
          (fst (escaper_after sofar c)) (snd (escaper_after sofar c)) (saturated n) =
          Some (safe_end, fst (escaper_after (sofar @ slice position safe_end buffer) c),
            snd (escaper_after (sofar @ slice position safe_end buffer) c), saturated n)"
        using True None by (subst process_loop.simps) (simp add: escaper_push_after split: prod.splits)
      then show ?thesis
        unfolding process_result_def
        by (intro exI [of _ safe_end] exI [of _ "slice position safe_end buffer"] exI [of _ 0])
          (use keep [of safe_end] none True assms(4) in auto)
    next
      case (Some sb)
      obtain start b where sb: "sb = (start, b)" by (cases sb)
      let ?p = "patterns ! b"
      have best: "b < length patterns" "position \<le> start" "start < safe_end" "occurs_at buffer ?p start"
        and first: "\<And>p j. p \<in> set patterns \<Longrightarrow> position \<le> j \<Longrightarrow> j < start \<Longrightarrow> \<not> occurs_at buffer p j"
        and longest: "\<And>p. p \<in> set patterns \<Longrightarrow> occurs_at buffer p start \<Longrightarrow> length p \<le> length ?p"
        using find_next_best [OF L less.prems, of safe_end patterns] Some sb
        by (auto simp: best_among_def in_set_conv_nth)
      have p: "?p \<in> set patterns" "?p \<noteq> []" "length ?p \<le> m" using best(1) P by auto
      let ?position = "start + length ?p"
      have inside: "?position \<le> length buffer"
        using best(4) prefix_length_le by (fastforce simp: occurs_at_def)
      let ?out = "slice position start buffer @ marker"
      have loop: "process_loop lib patterns marker buffer safe_end position
          (fst (escaper_after sofar c)) (snd (escaper_after sofar c)) (saturated n) =
         process_loop lib patterns marker buffer safe_end ?position
          (fst (escaper_after (sofar @ ?out) c)) (snd (escaper_after (sofar @ ?out) c)) (saturated (n + 1))"
        using True Some sb by (subst process_loop.simps) (simp add: escaper_push_after [unfolded prod.collapse] split_beta)
      have "redact_ref patterns marker (drop start buffer @ rest) =
          before marker 1 (redact_ref patterns marker (drop ?position buffer @ rest))"
        if r: "(0 < safe_end \<longrightarrow> safe_end + (m - 1) \<le> length buffer) \<or> rest = []" for rest
        using redact_ref_replace [OF p(1,2), of "drop start buffer @ rest" marker] longest best(3,4) p(3) P inside
          prefix_in_buffer [OF best(3) r] assms(4)
        by (auto simp: add.commute)
      with keep [of start] best first have
        "redact_ref patterns marker (drop position buffer @ rest) =
          before ?out 1 (redact_ref patterns marker (drop ?position buffer @ rest))"
        if "(0 < safe_end \<longrightarrow> safe_end + (m - 1) \<le> length buffer) \<or> rest = []" for rest
        using that by auto
      moreover have "safe_end - ?position < safe_end - position"
        using best p(2) by (cases ?p) auto
      ultimately show ?thesis
        unfolding loop by (rule process_result_step [OF _ less.hyps [OF _ inside]])
    qed
  qed
qed

section \<open>The capture\<close>

lemma pop_front_char: "is_char c \<Longrightarrow> pop_front_character (c @ rest) = rest"
proof -
  assume c: "is_char c"
  from is_char_length [OF c] obtain b bs where b: "c = b # bs" and w: "utf8_width b = length c"
    by (cases c) auto
  from w is_char_length [OF c] show ?thesis
    by (auto simp: b pop_front_character_def utf8_width_def Let_def split: if_splits)
qed

text \<open>Trimming drops whole characters, and no more than needed.\<close>

lemma trim_tail_chars:
  "list_all is_char ts \<Longrightarrow>
     \<exists>pre suf. ts = pre @ suf \<and> trim_tail capacity (concat ts) = concat suf \<and> length (concat suf) \<le> capacity \<and>
       (pre \<noteq> [] \<longrightarrow> capacity < length (last pre) + length (concat suf))"
proof (induction ts)
  case Nil
  then show ?case by (auto simp: trim_tail.simps)
next
  case (Cons t ts)
  show ?case
  proof (cases "length (concat (t # ts)) \<le> capacity")
    case True
    then show ?thesis
      by (intro exI [of _ "[]"] exI [of _ "t # ts"]) (subst trim_tail.simps, auto)
  next
    case False
    have "list_all is_char ts" using Cons.prems by simp
    from Cons.IH [OF this] obtain pre suf where ih: "ts = pre @ suf" "trim_tail capacity (concat ts) = concat suf"
      "length (concat suf) \<le> capacity" "pre \<noteq> [] \<longrightarrow> capacity < length (last pre) + length (concat suf)"
      by blast
    have "trim_tail capacity (concat (t # ts)) = concat suf"
      using False Cons.prems ih(2) by (subst trim_tail.simps) (simp add: pop_front_char)
    then show ?thesis
      using ih False by (intro exI [of _ "t # pre"] exI [of _ suf]) auto
  qed
qed

text \<open>What a capture holds after a sequence of characters: a prefix, a suffix, and nothing left out
  that would have fit.\<close>

definition captured :: "nat \<Rightarrow> str list \<Rightarrow> str list \<Rightarrow> str list \<Rightarrow> str list \<Rightarrow> bounded_capture \<Rightarrow> bool" where
  "captured limit cs hs mid ts c =
     (cs = hs @ mid @ ts \<and> bc_limit c = limit \<and> bc_head_capacity c = limit div 2 \<and>
      bc_tail_capacity c = limit - limit div 2 \<and> bc_head c = concat hs \<and> bc_tail c = concat ts \<and>
      bc_total_bytes c = saturated (length (concat cs)) \<and>
      length (concat hs) \<le> limit div 2 \<and> length (concat ts) \<le> limit - limit div 2 \<and>
      (mid \<noteq> [] \<longrightarrow> limit - limit div 2 < length (last mid) + length (concat ts)) \<and>
      (if bc_tail_started c then mid @ ts \<noteq> [] \<and> limit div 2 < length (concat hs) + length (hd (mid @ ts))
       else mid = [] \<and> ts = []))"

lemma captured_push:
  assumes C: "captured limit cs hs mid ts c" and ch: "list_all is_char (cs @ [x])"
  shows "\<exists>hs' mid' ts'. captured limit (cs @ [x]) hs' mid' ts' (push_char x c)"
proof (cases "\<not> bc_tail_started c \<and> length (bc_head c) + length x \<le> bc_head_capacity c")
  case True
  then show ?thesis
    using C by (intro exI [of _ "hs @ [x]"] exI [of _ "[]"]) (auto simp: captured_def push_char_def Let_def)
next
  case False
  have "list_all is_char (ts @ [x])" using C ch by (auto simp: captured_def)
  then obtain pre suf where t: "ts @ [x] = pre @ suf" "trim_tail (limit - limit div 2) (concat (ts @ [x])) = concat suf"
    "length (concat suf) \<le> limit - limit div 2"
    "pre \<noteq> [] \<longrightarrow> limit - limit div 2 < length (last pre) + length (concat suf)"
    using trim_tail_chars by blast
  have cs: "cs @ [x] = hs @ (mid @ pre) @ suf" using C t(1) by (simp add: captured_def)
  have mid: "mid @ pre \<noteq> [] \<longrightarrow> limit - limit div 2 < length (last (mid @ pre)) + length (concat suf)"
  proof (cases "pre = []")
    case True
    with t(1) have "suf = ts @ [x]" by simp
    with True C show ?thesis by (auto simp: captured_def)
  qed (use t(4) in auto)
  have started: "(mid @ pre) @ suf \<noteq> [] \<and> limit div 2 < length (concat hs) + length (hd ((mid @ pre) @ suf))"
  proof (cases "mid @ ts = []")
    case True
    with t(1) have "(mid @ pre) @ suf = [x]" by simp
    moreover have "\<not> bc_tail_started c" using C True by (auto simp: captured_def split: if_splits)
    ultimately show ?thesis using C False by (auto simp: captured_def)
  next
    case ne: False
    have "(mid @ pre) @ suf = (mid @ ts) @ [x]" using t(1) by simp
    moreover have "hd ((mid @ ts) @ [x]) = hd (mid @ ts)" using ne by (simp add: hd_append)
    ultimately show ?thesis using C ne by (auto simp: captured_def split: if_splits)
  qed
  have p: "push_char x c = c\<lparr>bc_total_bytes := sat_add (bc_total_bytes c) (length x), bc_tail_started := True,
      bc_tail := trim_tail (bc_tail_capacity c) (bc_tail c @ x)\<rparr>"
    using False by (auto simp: push_char_def Let_def)
  have "captured limit (cs @ [x]) hs (mid @ pre) suf (push_char x c)"
    unfolding captured_def p using C t(2,3) started
    by (intro conjI cs mid) (simp_all add: captured_def del: append_assoc)
  then show ?thesis by blast
qed

lemma captured_all:
  "list_all is_char cs \<Longrightarrow> \<exists>hs mid ts. captured limit cs hs mid ts (fold push_char cs (new_bounded_capture limit))"
proof (induction cs rule: rev_induct)
  case Nil
  then show ?case
    by (intro exI [of _ "[]"]) (simp add: captured_def new_bounded_capture_def saturated_def)
next
  case (snoc x cs)
  then obtain hs mid ts where "captured limit cs hs mid ts (fold push_char cs (new_bounded_capture limit))"
    by auto
  from captured_push [OF this snoc.prems] show ?case by simp
qed

lemma decimal_digits: "list_all (\<lambda>b. b < 128) (decimal n)"
  by (induction n rule: decimal.induct)
    (subst decimal.simps, auto simp del: of_nat_add intro!: of_nat_ascii)

lemma decimal_length: "n < 10 ^ k \<Longrightarrow> 0 < k \<Longrightarrow> length (decimal n) \<le> k"
proof (induction n arbitrary: k rule: decimal.induct)
  case (1 n)
  show ?case
  proof (cases "n < 10")
    case True
    with "1.prems" show ?thesis by (simp add: decimal.simps)
  next
    case False
    with "1.prems" obtain j where k: "k = Suc j" "0 < j" by (cases k; cases "k - 1") auto
    with "1.prems" have "n div 10 < 10 ^ j" by (simp add: less_mult_imp_div_less mult.commute)
    with "1.IH" [OF False this k(2)] k False show ?thesis by (subst decimal.simps) simp
  qed
qed

lemma omission_marker_length: "n \<le> u64_max \<Longrightarrow> length (omission_marker n) \<le> 44"
  using decimal_length [of n 20] by (simp add: omission_marker_def u64_max_def)

lemma omission_marker_valid: "valid_utf8 (omission_marker n)"
  by (rule ascii_valid_utf8) (simp add: omission_marker_def decimal_digits ascii_def)

lemma from_utf8_lossy_valid: "valid_utf8 bs \<Longrightarrow> from_utf8_lossy bs = bs"
proof (induction bs rule: from_utf8_lossy.induct)
  case (1 bs)
  show ?case
  proof (cases "bs = []")
    case False
    with "1.prems" obtain w where "utf8_step bs = Scalar w" "valid_utf8 (drop w bs)"
      by (auto simp: valid_utf8_step)
    with "1.IH"(1) [OF False] False show ?thesis by (subst from_utf8_lossy.simps) simp
  qed (simp add: from_utf8_lossy.simps)
qed

lemma finish_loop_ends:
  assumes "list_all is_char hs" "length (concat hs) + 44 \<le> limit" "n \<le> u64_max"
  shows "list_all is_char ts \<Longrightarrow>
    \<exists>pre suf omitted. ts = pre @ suf \<and> omitted = n - (length (concat hs) + length (concat suf)) \<and>
      finish_loop limit n (concat hs) (concat ts) =
        Some (concat hs @ omission_marker omitted @ concat suf, True, omitted) \<and>
      length (concat hs @ omission_marker omitted @ concat suf) \<le> limit"
proof (induction ts)
  case Nil
  have "length (omission_marker (n - length (concat hs))) \<le> 44"
    using assms(3) by (intro omission_marker_length) simp
  moreover have "from_utf8_lossy (concat hs @ omission_marker k) = concat hs @ omission_marker k" for k
    using assms(1) by (intro from_utf8_lossy_valid valid_utf8_append concat_chars_valid omission_marker_valid)
      (simp add: list_all_iff)
  ultimately show ?case
    using assms(2) by (subst finish_loop.simps) (simp add: Let_def)
next
  case (Cons t ts)
  let ?om = "n - (length (concat hs) + length (concat (t # ts)))"
  show ?case
  proof (cases "length (concat hs) + length (omission_marker ?om) + length (concat (t # ts)) \<le> limit")
    case True
    have "from_utf8_lossy (concat hs @ omission_marker ?om @ concat (t # ts)) = concat hs @ omission_marker ?om @ concat (t # ts)"
      using assms(1) Cons.prems
      by (intro from_utf8_lossy_valid valid_utf8_append concat_chars_valid omission_marker_valid) (simp_all add: list_all_iff)
    with True show ?thesis
      by (intro exI [of _ "[]"] exI [of _ "t # ts"] exI [of _ ?om]) (subst finish_loop.simps, simp add: Let_def)
  next
    case False
    have "finish_loop limit n (concat hs) (concat (t # ts)) = finish_loop limit n (concat hs) (concat ts)"
      using False Cons.prems by (subst finish_loop.simps) (simp add: Let_def pop_front_char)
    moreover from Cons obtain pre suf omitted where "ts = pre @ suf" "omitted = n - (length (concat hs) + length (concat suf))"
      "finish_loop limit n (concat hs) (concat ts) = Some (concat hs @ omission_marker omitted @ concat suf, True, omitted)"
      "length (concat hs @ omission_marker omitted @ concat suf) \<le> limit"
      by auto
    ultimately show ?thesis
      by (intro exI [of _ "t # pre"] exI [of _ suf] exI [of _ omitted]) simp
  qed
qed

text \<open>What is shown of a text: all of it, or a head and a tail within the limit. The text is whole
  whenever it is at least three bytes below the limit (a character of up to four bytes that does not fit the head
  leaves up to three bytes of it unused).\<close>

definition bounded_view :: "nat \<Rightarrow> str list \<Rightarrow> str \<Rightarrow> bool \<Rightarrow> nat \<Rightarrow> bool" where
  "bounded_view limit cs shown truncated omitted =
     (length shown \<le> limit \<and>
      (if truncated then \<exists>hs mid ts. cs = hs @ mid @ ts \<and> shown = concat hs @ omission_marker omitted @ concat ts \<and>
           omitted = saturated (length (concat cs)) - (length (concat hs) + length (concat ts))
       else shown = concat cs \<and> omitted = 0) \<and>
      (length (concat cs) + 3 \<le> limit \<longrightarrow> \<not> truncated))"

lemma captured_whole:
  assumes "captured limit cs hs mid ts c" "list_all is_char cs" "length (concat cs) + 3 \<le> limit"
  shows "mid = []"
proof (rule ccontr)
  assume mid: "mid \<noteq> []"
  then obtain x xs where x: "mid = x # xs" by (cases mid) auto
  from mid have "length (concat mid) \<ge> length (last mid)"
    by (induction mid) auto
  moreover have "length x \<le> 4" "length (last mid) \<le> 4"
    using assms(1,2) mid x is_char_length last_in_set [OF mid] by (auto simp: captured_def list_all_iff)
  moreover have "limit div 2 < length (concat hs) + length x"
    using assms(1) mid x by (auto simp: captured_def split: if_splits)
  moreover have "limit - limit div 2 < length (last mid) + length (concat ts)"
    using assms(1) mid by (simp add: captured_def)
  moreover have "length (concat cs) = length (concat hs) + length (concat mid) + length (concat ts)"
    using assms(1) by (simp add: captured_def)
  ultimately show False using assms(3) by linarith
qed

lemma capture_finish_view:
  assumes C: "captured limit cs hs mid ts c" and ch: "list_all is_char cs" and lim: "128 \<le> limit" "limit < u64_max"
  shows "\<exists>shown truncated omitted. capture_finish c = Some (shown, truncated, omitted) \<and>
    bounded_view limit cs shown truncated omitted"
proof -
  have fields: "bc_head c = concat hs" "bc_tail c = concat ts" "bc_limit c = limit"
    "bc_total_bytes c = saturated (length (concat cs))" and cs: "cs = hs @ mid @ ts"
    and half: "length (concat hs) \<le> limit div 2"
    using C by (auto simp: captured_def)
  have chs: "list_all is_char hs" "list_all is_char mid" "list_all is_char ts" using ch cs by auto
  let ?whole = "saturated (length (concat cs)) \<le> limit \<and>
      length (concat hs) + length (concat ts) = saturated (length (concat cs))"
  show ?thesis
  proof (cases ?whole)
    case True
    then have "length (concat mid) = 0" using lim cs by (auto simp: saturated_def min_def split: if_splits)
    then have "mid = []" using chs(2) is_char_length by (cases mid) auto
    moreover from this have "valid_utf8 (concat hs @ concat ts)"
      using chs by (intro valid_utf8_append concat_chars_valid) (simp_all add: list_all_iff)
    ultimately show ?thesis
      using True lim cs by (auto simp: capture_finish_def fields bounded_view_def from_utf8_lossy_valid
          saturated_def min_def split: if_splits)
  next
    case False
    have "length (concat hs) + 44 \<le> limit" using half lim by linarith
    moreover have "saturated (length (concat cs)) \<le> u64_max" by (simp add: saturated_def)
    ultimately obtain pre suf omitted where f: "ts = pre @ suf"
      "omitted = saturated (length (concat cs)) - (length (concat hs) + length (concat suf))"
      "finish_loop limit (saturated (length (concat cs))) (concat hs) (concat ts) =
         Some (concat hs @ omission_marker omitted @ concat suf, True, omitted)"
      "length (concat hs @ omission_marker omitted @ concat suf) \<le> limit"
      using finish_loop_ends [OF chs(1) _ _ chs(3)] by blast
    have "\<not> length (concat cs) + 3 \<le> limit"
    proof
      assume short: "length (concat cs) + 3 \<le> limit"
      with captured_whole [OF C ch] have "mid = []" by simp
      with False short lim cs show False by (auto simp: saturated_def min_def)
    qed
    moreover have "capture_finish c = Some (concat hs @ omission_marker omitted @ concat suf, True, omitted)"
      unfolding capture_finish_def Let_def fields using False f(3) by (simp only: if_False)
    moreover have "cs = hs @ (mid @ pre) @ suf" using cs f(1) by simp
    moreover have "bounded_view limit cs (concat hs @ omission_marker omitted @ concat suf) True omitted"
      unfolding bounded_view_def if_True
      by (intro conjI exI [of _ hs] exI [of _ "mid @ pre"] exI [of _ suf]) (use f(2,4) calculation in blast)+
    ultimately show ?thesis by blast
  qed
qed

section \<open>The whole redactor\<close>

definition escape_ref :: "byte list \<Rightarrow> str list" where
  "escape_ref out = fst (esc out) @ escape_chars (snd (esc out))"

lemma esc_chars: "c \<in> set (fst (esc bs)) \<Longrightarrow> is_char c"
proof (induction bs rule: esc.induct)
  case (1 bs)
  have single: "is_char c" if "c \<in> set (escape_chars xs)" for xs
    using that escape_byte_ascii by (auto simp: escape_chars_def is_char_def utf8_width_ascii)
  show ?case
  proof (cases "bs = []")
    case True
    with "1.prems" show ?thesis by simp
  next
    case False
    show ?thesis
      using "1.prems" "1.IH" False single
      by (cases "utf8_step bs") (auto simp: esc.simps [of bs] is_char_take split: prod.splits)
  qed
qed

lemma escape_ref_chars: "list_all is_char (escape_ref out)"
  using esc_chars escape_byte_ascii
  by (fastforce simp: escape_ref_def list_all_iff escape_chars_def is_char_def utf8_width_ascii)

text \<open>A redactor that has emitted \<open>out\<close> with \<open>n\<close> replacements, seen from the one it started as; and a
  redactor that has been given an input: what it emitted, followed by what its pending bytes will give, is
  the reference, whatever comes next.\<close>

definition emitted :: "streaming_redactor \<Rightarrow> byte list \<Rightarrow> nat \<Rightarrow> byte list \<Rightarrow> streaming_redactor \<Rightarrow> bool" where
  "emitted r0 out n pending r =
     (r = r0\<lparr>sd_pending := pending, sd_utf8 := fst (escaper_after out (sd_capture r0)),
        sd_capture := snd (escaper_after out (sd_capture r0)), sd_redaction_count := saturated n\<rparr>)"

definition fed :: "streaming_redactor \<Rightarrow> byte list \<Rightarrow> streaming_redactor \<Rightarrow> bool" where
  "fed r0 input r =
     (\<exists>out n pending. emitted r0 out n pending r \<and>
        (\<forall>rest. redact_ref (sd_patterns r0) (sd_marker r0) (input @ rest) =
           before out n (redact_ref (sd_patterns r0) (sd_marker r0) (pending @ rest))))"

definition redactor_ok :: "streaming_redactor \<Rightarrow> bool" where
  "redactor_ok r =
     (\<not> sd_suppressed r \<and> sd_pending r = [] \<and> sd_utf8 r = [] \<and> sd_redaction_count r = 0 \<and>
      (\<forall>p \<in> set (sd_patterns r). p \<noteq> [] \<and> length p \<le> sd_maximum_pattern_bytes r))"

lemma fed_start: "redactor_ok r \<Longrightarrow> fed r [] r"
  unfolding fed_def redactor_ok_def emitted_def
  by (intro exI [of _ "[]"] exI [of _ 0]) (simp add: escaper_after_def saturated_def)

lemma process_emits:
  assumes L: "memmem_law lib" and ok: "redactor_ok r0" and E: "emitted r0 out n buffer r"
  shows "\<exists>r' out' k pending. process_redactor lib finishing r = Some r' \<and>
     emitted r0 (out @ out') (n + k) pending r' \<and> (finishing \<longrightarrow> pending = []) \<and>
     (\<forall>rest. (finishing \<longrightarrow> rest = []) \<longrightarrow> redact_ref (sd_patterns r0) (sd_marker r0) (buffer @ rest) =
         before out' k (redact_ref (sd_patterns r0) (sd_marker r0) (pending @ rest)))"
proof -
  let ?m = "sd_maximum_pattern_bytes r0" and ?c = "sd_capture r0"
  let ?safe_end = "if finishing then length buffer else length buffer - (?m - 1)"
  obtain safe_end where s: "safe_end = ?safe_end" by simp
  have "process_result (sd_patterns r0) (sd_marker r0) buffer safe_end ?m 0 out ?c n
      (process_loop lib (sd_patterns r0) (sd_marker r0) buffer safe_end 0
         (fst (escaper_after out ?c)) (snd (escaper_after out ?c)) (saturated n))"
    by (rule process_loop_spec [OF L]) (use ok in \<open>auto simp: redactor_ok_def s\<close>)
  then obtain position' out' k where res:
    "process_loop lib (sd_patterns r0) (sd_marker r0) buffer safe_end 0
       (fst (escaper_after out ?c)) (snd (escaper_after out ?c)) (saturated n) =
       Some (position', fst (escaper_after (out @ out') ?c), snd (escaper_after (out @ out') ?c), saturated (n + k))"
    "safe_end \<le> position'"
    "\<And>rest. (0 < safe_end \<longrightarrow> safe_end + (?m - 1) \<le> length buffer) \<or> rest = [] \<Longrightarrow>
       redact_ref (sd_patterns r0) (sd_marker r0) (buffer @ rest) =
         before out' k (redact_ref (sd_patterns r0) (sd_marker r0) (drop position' buffer @ rest))"
    unfolding process_result_def drop_0 by blast
  show ?thesis
  proof (intro exI conjI allI impI)
    show "process_redactor lib finishing r = Some (r0\<lparr>sd_pending := drop position' buffer,
        sd_utf8 := fst (escaper_after (out @ out') ?c),
        sd_capture := snd (escaper_after (out @ out') ?c), sd_redaction_count := saturated (n + k)\<rparr>)"
      using E res(1) unfolding s by (cases finishing) (simp_all add: process_redactor_def emitted_def Let_def)
    show "emitted r0 (out @ out') (n + k) (drop position' buffer) (r0\<lparr>sd_pending := drop position' buffer,
        sd_utf8 := fst (escaper_after (out @ out') ?c),
        sd_capture := snd (escaper_after (out @ out') ?c), sd_redaction_count := saturated (n + k)\<rparr>)"
      by (simp add: emitted_def)
    show "drop position' buffer = []" if finishing using that res(2) s by simp
    show "redact_ref (sd_patterns r0) (sd_marker r0) (buffer @ rest) =
         before out' k (redact_ref (sd_patterns r0) (sd_marker r0) (drop position' buffer @ rest))"
      if "finishing \<longrightarrow> rest = []" for rest
      by (rule res(3)) (use that s in \<open>auto split: if_splits\<close>)
  qed
qed

lemma fed_push:
  assumes L: "memmem_law lib" and ok: "redactor_ok r0" and F: "fed r0 input r"
  shows "\<exists>r'. redactor_push lib chunk r = Some r' \<and> fed r0 (input @ chunk) r'"
proof -
  from F obtain out n pending where e: "emitted r0 out n pending r" and
    ref: "\<And>rest. redact_ref (sd_patterns r0) (sd_marker r0) (input @ rest) =
           before out n (redact_ref (sd_patterns r0) (sd_marker r0) (pending @ rest))"
    unfolding fed_def by blast
  from e have "emitted r0 out n (pending @ chunk) (r\<lparr>sd_pending := sd_pending r @ chunk\<rparr>)"
    and "\<not> sd_suppressed r"
    using ok by (auto simp: emitted_def redactor_ok_def)
  from process_emits [OF L ok this(1), of False] this(2) obtain r' out' k pending' where
    "redactor_push lib chunk r = Some r'" "emitted r0 (out @ out') (n + k) pending' r'"
    "\<And>rest. redact_ref (sd_patterns r0) (sd_marker r0) (pending @ chunk @ rest) =
         before out' k (redact_ref (sd_patterns r0) (sd_marker r0) (pending' @ rest))"
    by (auto simp: redactor_push_def)
  with ref show ?thesis unfolding fed_def
    by (intro exI [of _ r'] conjI exI [of _ "out @ out'"] exI [of _ "n + k"] exI [of _ pending']) auto
qed

lemma fed_all:
  assumes L: "memmem_law lib" and ok: "redactor_ok r0"
  shows "fed r0 input r \<Longrightarrow> \<exists>r'. push_all lib chunks r = Some r' \<and> fed r0 (input @ concat chunks) r'"
proof (induction chunks arbitrary: input r)
  case (Cons chunk chunks)
  from fed_push [OF L ok Cons.prems] obtain r' where "redactor_push lib chunk r = Some r'" "fed r0 (input @ chunk) r'"
    by blast
  with Cons.IH [of "input @ chunk" r'] show ?case by auto
qed simp

lemma fed_process:
  assumes L: "memmem_law lib" and ok: "redactor_ok r0" and F: "fed r0 input r"
  shows "\<exists>r'. process_redactor lib True r = Some r' \<and> sd_suppressed r = sd_suppressed r0 \<and>
     emitted r0 (fst (redact_ref (sd_patterns r0) (sd_marker r0) input))
       (snd (redact_ref (sd_patterns r0) (sd_marker r0) input)) [] r'"
proof -
  from F obtain out n pending where e: "emitted r0 out n pending r" and
    ref: "\<And>rest. redact_ref (sd_patterns r0) (sd_marker r0) (input @ rest) =
           before out n (redact_ref (sd_patterns r0) (sd_marker r0) (pending @ rest))"
    unfolding fed_def by blast
  from process_emits [OF L ok e, of True] obtain r' out' k where
    r': "process_redactor lib True r = Some r'" "emitted r0 (out @ out') (n + k) [] r'"
    and ref': "redact_ref (sd_patterns r0) (sd_marker r0) pending = before out' k ([], 0)"
    by auto
  have "redact_ref (sd_patterns r0) (sd_marker r0) input = (out @ out', n + k)"
    using ref [of "[]"] ref' by (simp add: before_def)
  with r' e show ?thesis by (auto simp: emitted_def)
qed

lemma fed_finish_same:
  assumes "memmem_law lib" "redactor_ok r0" "fed r0 input r1" "fed r0 input r2"
  shows "redactor_finish lib r1 = redactor_finish lib r2"
  using fed_process [OF assms(1,2,3)] fed_process [OF assms(1,2,4)]
  by (auto simp: redactor_finish_def emitted_def)

lemma fed_finish:
  assumes L: "memmem_law lib" and ok: "redactor_ok r0" and F: "fed r0 input r"
    and lim: "sd_capture r0 = new_bounded_capture limit" "128 \<le> limit" "limit < u64_max"
  shows "\<exists>shown truncated omitted.
     bounded_view limit (escape_ref (fst (redact_ref (sd_patterns r0) (sd_marker r0) input))) shown truncated omitted \<and>
     redactor_finish lib r = Some
       \<lparr>ro_text = (if \<exists>p \<in> set (sd_patterns r0). sublist p shown then [] else shown),
        ro_redaction_count = saturated (snd (redact_ref (sd_patterns r0) (sd_marker r0) input)),
        ro_truncated = truncated, ro_omitted_bytes = omitted,
        ro_suppressed = (\<exists>p \<in> set (sd_patterns r0). sublist p shown)\<rparr>"
proof -
  obtain out n where R: "redact_ref (sd_patterns r0) (sd_marker r0) input = (out, n)" by (cases "redact_ref (sd_patterns r0) (sd_marker r0) input")
  from fed_process [OF L ok F] R obtain r' where
    r': "process_redactor lib True r = Some r'" "emitted r0 out n [] r'" "sd_suppressed r = sd_suppressed r0"
    by auto
  have "escaper_finish (sd_utf8 r') (sd_capture r') = fold push_char (escape_ref out) (new_bounded_capture limit)"
    using r'(2) lim(1) by (simp add: emitted_def escaper_finish_def escape_bytes_eq escaper_after_def escape_ref_def)
  with captured_all [OF escape_ref_chars] capture_finish_view [OF _ escape_ref_chars lim(2,3)]
  obtain shown truncated omitted where
    "capture_finish (escaper_finish (sd_utf8 r') (sd_capture r')) = Some (shown, truncated, omitted)"
    "bounded_view limit (escape_ref out) shown truncated omitted"
    by metis
  moreover have "\<not> sd_suppressed r" "sd_patterns r' = sd_patterns r0" "sd_redaction_count r' = saturated n"
    using r'(2,3) ok by (auto simp: emitted_def redactor_ok_def)
  ultimately show ?thesis
    by (intro exI [of _ shown] exI [of _ truncated] exI [of _ omitted])
      (simp add: R redactor_finish_def r'(1) contains_pattern_iff [OF L])
qed

section \<open>The redactor of a run\<close>

lemma set_add_patterns: "set (foldl add_pattern ps fs) = set ps \<union> (set fs - {[]})"
  by (induction fs arbitrary: ps) (auto simp: add_pattern_def)

lemma fold_add_secret_patterns:
  "fold (add_secret_patterns lib) secrets (ps, b) = (ps', b') \<Longrightarrow>
     set ps' = set ps \<union> {f. \<exists>s \<in> set secrets. rds_value s \<noteq> [] \<and> f \<noteq> [] \<and> f \<in> set (secret_forms lib (rds_value s))} \<and>
     (b' \<longleftrightarrow> b \<or> (\<exists>s \<in> set secrets. rds_value s \<noteq> [] \<and> length (rds_value s) < 4))"
proof (induction secrets arbitrary: ps b)
  case (Cons s secrets)
  obtain ps1 b1 where one: "add_secret_patterns lib s (ps, b) = (ps1, b1)" by fastforce
  then have "set ps1 = set ps \<union> (if rds_value s = [] then {} else set (secret_forms lib (rds_value s)) - {[]})"
    "b1 \<longleftrightarrow> b \<or> rds_value s \<noteq> [] \<and> length (rds_value s) < 4"
    by (auto simp: add_secret_patterns_def Let_def set_add_patterns split: if_splits)
  with Cons.IH [of ps1 b1] Cons.prems one show ?case by (auto split: if_splits)
qed auto

lemma sort_key_eq_Nil [simp]: "sort_key f ps = [] \<longleftrightarrow> ps = []"
  by (metis length_0_conv length_sort)

lemma new_redactor_facts:
  assumes "new_redactor lib secrets limit = Inr r"
  shows "128 \<le> limit" "limit < u64_max" "sd_capture r = new_bounded_capture limit"
    "set (sd_patterns r) =
       {f. \<exists>s \<in> set secrets. rds_value s \<noteq> [] \<and> f \<noteq> [] \<and> f \<in> set (secret_forms lib (rds_value s))}"
    "sd_suppressed r \<longleftrightarrow> (\<exists>s \<in> set secrets. rds_value s \<noteq> [] \<and> length (rds_value s) < 4)"
    "\<not> sd_suppressed r \<Longrightarrow> redactor_ok r"
proof -
  obtain ps b where f: "fold (add_secret_patterns lib) secrets ([], False) = (ps, b)" by fastforce
  have r: "sd_patterns r = sort_key (\<lambda>p. - int (length p)) ps" "sd_suppressed r = b"
    "sd_capture r = new_bounded_capture limit" "sd_pending r = []" "sd_utf8 r = []" "sd_redaction_count r = 0"
    "sd_maximum_pattern_bytes r = (if ps = [] then 1 else Max (length ` set ps))"
    and lim: "128 \<le> limit" "limit \<le> 2 * 1024 * 1024"
    using assms f by (auto simp: new_redactor_def Let_def MIN_OUTPUT_LIMIT_BYTES_def MAX_OUTPUT_LIMIT_BYTES_def
        split: if_splits)
  show "128 \<le> limit" "limit < u64_max" "sd_capture r = new_bounded_capture limit"
    using lim r by (simp_all add: u64_max_def)
  show pats: "set (sd_patterns r) =
       {f. \<exists>s \<in> set secrets. rds_value s \<noteq> [] \<and> f \<noteq> [] \<and> f \<in> set (secret_forms lib (rds_value s))}"
    "sd_suppressed r \<longleftrightarrow> (\<exists>s \<in> set secrets. rds_value s \<noteq> [] \<and> length (rds_value s) < 4)"
    using fold_add_secret_patterns [OF f] r by auto
  have "length p \<le> sd_maximum_pattern_bytes r" if "p \<in> set (sd_patterns r)" for p
    using that r by (auto intro!: Max_ge)
  then show "redactor_ok r" if "\<not> sd_suppressed r"
    using that pats r unfolding redactor_ok_def by auto
qed

lemma suppressed_run:
  "sd_suppressed r \<Longrightarrow> push_all lib chunks r = Some r \<and> redactor_finish lib r =
     Some \<lparr>ro_text = [], ro_redaction_count = 0, ro_truncated = False, ro_omitted_bytes = 0, ro_suppressed = True\<rparr>"
  by (induction chunks) (auto simp: redactor_push_def redactor_finish_def)

lemma redactor_run:
  assumes L: "memmem_law lib" and new: "new_redactor lib secrets limit = Inr r" and "\<not> sd_suppressed r"
  shows "\<exists>r'. push_all lib chunks r = Some r' \<and> fed r (concat chunks) r'"
  using fed_all [OF L new_redactor_facts(6) [OF new assms(3)] fed_start [OF new_redactor_facts(6) [OF new assms(3)]]]
  by simp

text \<open>The safety of a whole run, for the clients of the redactor.\<close>

lemma redacted_run_safe:
  assumes "memmem_law lib" and "new_redactor lib secrets limit = Inr r"
  shows "\<exists>r' out. push_all lib chunks r = Some r' \<and> redactor_finish lib r' = Some out \<and>
    length (ro_text out) \<le> limit \<and>
    (\<forall>s \<in> set secrets. rds_value s \<noteq> [] \<longrightarrow>
       (\<forall>f \<in> set (secret_forms lib (rds_value s)). f \<noteq> [] \<longrightarrow> \<not> sublist f (ro_text out))) \<and>
    ((\<exists>s \<in> set secrets. rds_value s \<noteq> [] \<and> length (rds_value s) < 4) \<longrightarrow> ro_suppressed out \<and> ro_text out = [])"
proof (cases "sd_suppressed r")
  case True
  then show ?thesis using suppressed_run [of r lib chunks] by auto
next
  case False
  note facts = new_redactor_facts [OF assms(2)]
  from redactor_run [OF assms False] obtain r' where r': "push_all lib chunks r = Some r'" "fed r (concat chunks) r'"
    by blast
  from fed_finish [OF assms(1) facts(6) [OF False] r'(2) facts(3,1,2)] obtain out shown where
    out: "redactor_finish lib r' = Some out" "length shown \<le> limit"
    "ro_text out = (if \<exists>p \<in> set (sd_patterns r). sublist p shown then [] else shown)"
    by (auto simp: bounded_view_def)
  have "\<not> sublist f (ro_text out)" if "f \<in> set (sd_patterns r)" for f
    using that out(3) facts(4) by auto
  then show ?thesis
    using r'(1) out facts(4,5) False by (intro exI [of _ r'] exI [of _ out]) auto
qed

text \<open>C12: Whatever a command prints, and however its output is cut into chunks, the redactor
  ends with an output of at most the limit that contains no form of a secret: not the value, nor its
  hexadecimal, base64, JSON or percent encodings. When a secret is shorter than four bytes nothing
  is shown at all.\<close>

theorem redacted_output_safe:
  assumes "memmem_law lib" and "new_redactor lib secrets limit = Inr r"
  shows "\<exists>r' out. push_all lib chunks r = Some r' \<and> redactor_finish lib r' = Some out \<and>
    length (ro_text out) \<le> limit \<and>
    (\<forall>s \<in> set secrets. rds_value s \<noteq> [] \<longrightarrow>
       (\<forall>f \<in> set (secret_forms lib (rds_value s)). f \<noteq> [] \<longrightarrow> \<not> sublist f (ro_text out))) \<and>
    ((\<exists>s \<in> set secrets. rds_value s \<noteq> [] \<and> length (rds_value s) < 4) \<longrightarrow> ro_suppressed out \<and> ro_text out = [])"
  using redacted_run_safe [OF assms] by blast

text \<open>C13: When no secret is shorter than four bytes, the redactor computes the reference on the
  whole output: every leftmost longest pattern replaced by the marker and counted, bytes that are
  not UTF-8 escaped, and the result shown whole or as a head and a tail around the number of bytes left
  out, whole whenever it is three bytes below the limit; it is withheld exactly when a pattern
  occurs in what would be shown. How the output is cut into chunks makes no difference.\<close>

theorem redactor_equals_reference:
  assumes "memmem_law lib" and "new_redactor lib secrets limit = Inr r"
    and "\<forall>s \<in> set secrets. rds_value s = [] \<or> 4 \<le> length (rds_value s)"
  shows "\<exists>r' out shown. push_all lib chunks r = Some r' \<and> redactor_finish lib r' = Some out \<and>
    bounded_view limit (escape_ref (fst (redact_ref (sd_patterns r) (sd_marker r) (concat chunks))))
      shown (ro_truncated out) (ro_omitted_bytes out) \<and>
    ro_redaction_count out = min (snd (redact_ref (sd_patterns r) (sd_marker r) (concat chunks))) (2 ^ 64 - 1) \<and>
    ro_suppressed out = (\<exists>p \<in> set (sd_patterns r). sublist p shown) \<and>
    ro_text out = (if ro_suppressed out then [] else shown) \<and>
    Option.bind (push_all lib [concat chunks] r) (redactor_finish lib) = Some out"
proof -
  note facts = new_redactor_facts [OF assms(2)]
  have ns: "\<not> sd_suppressed r" using facts(5) assms(3) by auto
  from redactor_run [OF assms(1,2) ns, of chunks] redactor_run [OF assms(1,2) ns, of "[concat chunks]"]
  obtain r' r'' where r': "push_all lib chunks r = Some r'" "fed r (concat chunks) r'"
    and r'': "push_all lib [concat chunks] r = Some r''" "fed r (concat chunks) r''"
    by auto
  from fed_finish [OF assms(1) facts(6) [OF ns] r'(2) facts(3,1,2)] obtain shown truncated omitted where
    out: "bounded_view limit (escape_ref (fst (redact_ref (sd_patterns r) (sd_marker r) (concat chunks)))) shown truncated omitted"
    "redactor_finish lib r' = Some
       \<lparr>ro_text = (if \<exists>p \<in> set (sd_patterns r). sublist p shown then [] else shown),
        ro_redaction_count = saturated (snd (redact_ref (sd_patterns r) (sd_marker r) (concat chunks))),
        ro_truncated = truncated, ro_omitted_bytes = omitted,
        ro_suppressed = (\<exists>p \<in> set (sd_patterns r). sublist p shown)\<rparr>" (is "_ = Some ?out")
    by blast
  have "Option.bind (push_all lib [concat chunks] r) (redactor_finish lib) = Some ?out"
    unfolding r''(1) using fed_finish_same [OF assms(1) facts(6) [OF ns] r'(2) r''(2)] out(2) by simp
  with r'(1) out show ?thesis
    by (intro exI [of _ r'] exI [of _ ?out] exI [of _ shown]) (auto simp: saturated_def u64_max_def)
qed

section \<open>A library for evaluation\<close>

definition demo_redact_lib :: redact_lib where
  "demo_redact_lib =
     \<lparr>memmem_find = (\<lambda>haystack needle. List.find (occurs_at haystack needle) [0..<Suc (length haystack)]),
      base64_standard = (\<lambda>v. v), base64_standard_no_pad = (\<lambda>v. v), base64_url_safe = (\<lambda>v. v),
      base64_url_safe_no_pad = (\<lambda>v. v), json_to_string = (\<lambda>s. Some ([0x22] @ s @ [0x22]))\<rparr>"

lemma demo_redact_lib_law: "memmem_law demo_redact_lib"
  unfolding memmem_law_def
proof (intro allI)
  fix haystack needle :: "byte list"
  show "case memmem_find demo_redact_lib haystack needle of
      Some i \<Rightarrow> occurs_at haystack needle i \<and> (\<forall>j < i. \<not> occurs_at haystack needle j)
    | None \<Rightarrow> \<forall>j. \<not> occurs_at haystack needle j"
  proof (cases "memmem_find demo_redact_lib haystack needle")
    case None
    then have "\<not> occurs_at haystack needle j" for j
      by (cases "j \<le> length haystack") (auto simp: demo_redact_lib_def find_None_iff occurs_at_def simp del: upt_Suc)
    with None show ?thesis by simp
  next
    case (Some i)
    then have "occurs_at haystack needle i \<and> (\<forall>j < i. \<not> occurs_at haystack needle j)"
      by (auto simp: demo_redact_lib_def find_Some_iff simp del: upt_Suc)
    with Some show ?thesis by simp
  qed
qed

definition demo_secret :: redaction_secret where
  "demo_secret = \<lparr>rds_value = ascii ''hunter2''\<rparr>"

definition demo_redactor :: streaming_redactor where
  "demo_redactor = projr (new_redactor demo_redact_lib [demo_secret] 128)"

lemma demo_redactor_new: "new_redactor demo_redact_lib [demo_secret] 128 = Inr demo_redactor"
  by (simp add: demo_redactor_def new_redactor_def Let_def MIN_OUTPUT_LIMIT_BYTES_def MAX_OUTPUT_LIMIT_BYTES_def split_beta)

definition demo_chunks :: "byte list list" where
  "demo_chunks = [ascii ''token hun'', ascii ''ter2'']"

theorem redacted_output_safe_witness:
  "\<exists>r' out. push_all demo_redact_lib demo_chunks demo_redactor = Some r' \<and>
     redactor_finish demo_redact_lib r' = Some out \<and> length (ro_text out) \<le> 128 \<and>
     \<not> sublist (ascii ''hunter2'') (ro_text out)"
  using redacted_output_safe [OF demo_redact_lib_law demo_redactor_new, of demo_chunks]
  by (auto simp: demo_secret_def secret_forms_def ascii_def)

theorem redactor_equals_reference_witness:
  "\<exists>r' out. push_all demo_redact_lib demo_chunks demo_redactor = Some r' \<and>
     redactor_finish demo_redact_lib r' = Some out \<and>
     Option.bind (push_all demo_redact_lib [concat demo_chunks] demo_redactor) (redactor_finish demo_redact_lib) = Some out"
  using redactor_equals_reference [OF demo_redact_lib_law demo_redactor_new, of demo_chunks]
  by (auto simp: demo_secret_def)

end
