(* ===== verification/Ladon_Pin.thy ===== *)
theory Ladon_Pin
  imports Ladon_Model
begin

text \<open>
  Local confirmation of approvals with a session PIN
  (\<open>crates/ladon-app/src/session_auth.rs\<close>).

  Argon2id with the fixed parameters of \<open>derive\<close> is a parameter \<open>kdf\<close> from a PIN and a salt to a
  hash, \<open>None\<close> where the crate reports an error; the salt that \<open>getrandom\<close> fills in is an argument, \<open>None\<close> where it
  fails. The comparison in constant time is equality.
\<close>

section \<open>The session PIN\<close>

definition MAX_FAILED_PIN_ATTEMPTS :: u8 where "MAX_FAILED_PIN_ATTEMPTS = 5"

type_synonym pin_kdf = "byte list \<Rightarrow> byte list \<Rightarrow> byte list option"

record session_pin =
  sp_salt :: "byte list"
  sp_hash :: "byte list"

definition valid_pin :: "str \<Rightarrow> bool" where
  "valid_pin pin = (4 \<le> length pin \<and> length pin \<le> 12 \<and> list_all is_ascii_digit pin)"

definition derive :: "pin_kdf \<Rightarrow> byte list \<Rightarrow> byte list \<Rightarrow> byte list res" where
  "derive kdf pin salt = ok_or CryptoUnavailable (kdf pin salt)"

definition new_session_pin :: "pin_kdf \<Rightarrow> byte list option \<Rightarrow> str \<Rightarrow> str \<Rightarrow> session_pin res" where
  "new_session_pin kdf fill pin confirmation =
     (if pin \<noteq> confirmation \<or> \<not> valid_pin pin then Inl InvalidPin
      else and_then (ok_or CryptoUnavailable fill) (\<lambda>salt.
        and_then (derive kdf pin salt) (\<lambda>hash.
        Inr \<lparr>sp_salt = salt, sp_hash = hash\<rparr>)))"

definition session_pin_verify :: "pin_kdf \<Rightarrow> session_pin \<Rightarrow> str \<Rightarrow> unit res" where
  "session_pin_verify kdf p pin =
     and_then (derive kdf pin (sp_salt p)) (\<lambda>candidate.
     if candidate = sp_hash p then Inr () else Inl ApprovalAuthenticationFailed)"

section \<open>Counting failures\<close>

datatype pin_verification =
    PinAccepted
  | PinRejected u8
  | PinLockVault

record session_confirmation =
  sc_pin :: "session_pin option"
  sc_failed_pin_attempts :: u8

definition touch_id_only :: session_confirmation where
  "touch_id_only = \<lparr>sc_pin = None, sc_failed_pin_attempts = 0\<rparr>"

definition with_pin :: "session_pin \<Rightarrow> session_confirmation" where
  "with_pin p = \<lparr>sc_pin = Some p, sc_failed_pin_attempts = 0\<rparr>"

definition has_pin :: "session_confirmation \<Rightarrow> bool" where
  "has_pin c = (sc_pin c \<noteq> None)"

definition verify_pin ::
    "pin_kdf \<Rightarrow> str \<Rightarrow> session_confirmation \<Rightarrow> pin_verification res \<times> session_confirmation" where
  "verify_pin kdf candidate c =
     (case sc_pin c of
        None \<Rightarrow> (Inr (PinRejected 0), c)
      | Some p \<Rightarrow>
          (case session_pin_verify kdf p candidate of
             Inr _ \<Rightarrow> (Inr PinAccepted, c\<lparr>sc_failed_pin_attempts := 0\<rparr>)
           | Inl e \<Rightarrow>
               if e \<noteq> ApprovalAuthenticationFailed then (Inl e, c)
               else
                 let c' = c\<lparr>sc_failed_pin_attempts := saturating_add (sc_failed_pin_attempts c) 1\<rparr> in
                 if sc_failed_pin_attempts c' \<ge> MAX_FAILED_PIN_ATTEMPTS then (Inr PinLockVault, c')
                 else (Inr (PinRejected (MAX_FAILED_PIN_ATTEMPTS - sc_failed_pin_attempts c')), c')))"

definition record_touch_id_success :: "session_confirmation \<Rightarrow> session_confirmation" where
  "record_touch_id_success c = c\<lparr>sc_failed_pin_attempts := 0\<rparr>"

text \<open>The answers to a sequence of candidates.\<close>

fun verify_pins :: "pin_kdf \<Rightarrow> str list \<Rightarrow> session_confirmation \<Rightarrow> pin_verification res list" where
  "verify_pins kdf [] c = []"
| "verify_pins kdf (pin # pins) c =
     (case verify_pin kdf pin c of (r, c') \<Rightarrow> r # verify_pins kdf pins c')"

section \<open>Properties\<close>

definition wrong_pin :: "pin_kdf \<Rightarrow> session_pin \<Rightarrow> str \<Rightarrow> bool" where
  "wrong_pin kdf p candidate = (\<exists>h. kdf candidate (sp_salt p) = Some h \<and> h \<noteq> sp_hash p)"

text \<open>The answer to the attempt after \<open>k\<close> failures.\<close>

definition answer_after :: "nat \<Rightarrow> pin_verification" where
  "answer_after k = (if k < 4 then PinRejected (of_nat (4 - k)) else PinLockVault)"

lemma wrong_pin_step:
  assumes "wrong_pin kdf p candidate" "sc_pin c = Some p"
  shows "verify_pin kdf candidate c =
     (Inr (answer_after (unat (sc_failed_pin_attempts c))),
      c\<lparr>sc_failed_pin_attempts := saturating_add (sc_failed_pin_attempts c) 1\<rparr>)"
proof -
  have v: "session_pin_verify kdf p candidate = Inl ApprovalAuthenticationFailed"
    using assms(1) by (auto simp: wrong_pin_def session_pin_verify_def derive_def)
  let ?n = "sc_failed_pin_attempts c"
  have u: "unat (saturating_add ?n 1) = min (unat ?n + 1) 255"
    by (simp add: unat_saturating_add)
  have m: "unat MAX_FAILED_PIN_ATTEMPTS = 5" by (simp add: MAX_FAILED_PIN_ATTEMPTS_def)
  show ?thesis
  proof (cases "unat ?n < 4")
    case True
    then have s: "unat (saturating_add ?n 1) = unat ?n + 1" using u by simp
    then have "\<not> MAX_FAILED_PIN_ATTEMPTS \<le> saturating_add ?n 1" using True m by (simp add: word_le_nat_alt)
    moreover have "MAX_FAILED_PIN_ATTEMPTS - saturating_add ?n 1 = of_nat (4 - unat ?n)"
      using True s m by (intro word_unat_eq_iff [THEN iffD2]) (simp add: unat_sub word_le_nat_alt unat_of_nat)
    ultimately show ?thesis using assms(2) v True by (simp add: verify_pin_def Let_def answer_after_def)
  next
    case False
    then have "MAX_FAILED_PIN_ATTEMPTS \<le> saturating_add ?n 1" using u m by (simp add: word_le_nat_alt)
    then show ?thesis using assms(2) v False by (simp add: verify_pin_def Let_def answer_after_def)
  qed
qed

lemma wrong_pins_answers:
  "list_all (wrong_pin kdf p) pins \<Longrightarrow> sc_pin c = Some p \<Longrightarrow>
     verify_pins kdf pins c = map (\<lambda>k. Inr (answer_after (unat (sc_failed_pin_attempts c) + k))) [0..<length pins]"
proof (induction pins arbitrary: c)
  case (Cons pin pins)
  let ?n = "sc_failed_pin_attempts c" and ?c = "c\<lparr>sc_failed_pin_attempts := saturating_add (sc_failed_pin_attempts c) 1\<rparr>"
  have "answer_after (unat (saturating_add ?n 1) + k) = answer_after (unat ?n + Suc k)" for k
    by (auto simp: answer_after_def unat_saturating_add)
  with Cons.IH [of ?c] Cons.prems wrong_pin_step [of kdf p pin c] show ?case
    by (simp add: upt_conv_Cons map_Suc_upt [symmetric] del: upt_Suc)
qed simp


definition demo_kdf :: pin_kdf where
  "demo_kdf pin salt = Some (pin @ salt)"

definition demo_pin :: session_pin where
  "demo_pin = \<lparr>sp_salt = [7], sp_hash = ascii ''2468'' @ [7]\<rparr>"

lemma demo_pin_new: "new_session_pin demo_kdf (Some [7]) (ascii ''2468'') (ascii ''2468'') = Inr demo_pin"
  by (simp add: new_session_pin_def derive_def demo_kdf_def demo_pin_def valid_pin_def ascii_def is_ascii_digit_def)


end
