(* ===== verification/Ladon_Unlock.thy ===== *)
theory Ladon_Unlock
  imports Ladon_Model
begin

text \<open>
  Unlock requests (\<open>crates/ladon-app/src/unlock_request.rs\<close>): an agent asks for the vault to be
  unlocked, a person decides in the local interface.

  Every method is one critical section of the mutex: \<open>wait\<close> is \<open>wait_begin\<close>, which registers the
  request, followed by polls of \<open>wait_poll\<close> between which other threads take their turns on the
  condition variable. The fresh identifier, the clock and the state of the cancellation are
  arguments; the poisoning of the mutex is not modelled.
\<close>

record pending_unlock =
  pu_id :: uuid
  pu_client_label :: str
  pu_purpose :: str

record unlock_state =
  us_request :: pending_unlock
  us_decision :: "unit res option"

record unlock_requests =
  uq_state :: "unlock_state option"
  uq_epoch :: u64

definition default_unlock_requests :: unlock_requests where
  "default_unlock_requests = \<lparr>uq_state = None, uq_epoch = 0\<rparr>"

definition pending_unlock_request :: "unlock_requests \<Rightarrow> pending_unlock option" where
  "pending_unlock_request u =
     (case uq_state u of
        Some st \<Rightarrow> if us_decision st = None then Some (us_request st) else None
      | None \<Rightarrow> None)"

definition resolve_unlock :: "uuid \<Rightarrow> bool \<Rightarrow> unlock_requests \<Rightarrow> unit res \<times> unlock_requests" where
  "resolve_unlock i allow u =
     (case uq_state u of
        None \<Rightarrow> (Inl InvalidRequest, u)
      | Some st \<Rightarrow>
          if pu_id (us_request st) \<noteq> i \<or> us_decision st \<noteq> None then (Inl InvalidRequest, u)
          else (Inr (), u\<lparr>uq_state := Some (st\<lparr>us_decision := Some (if allow then Inr () else Inl ApprovalDenied)\<rparr>)\<rparr>))"

definition cancel_unlock :: "unlock_requests \<Rightarrow> unlock_requests" where
  "cancel_unlock u =
     u\<lparr>uq_epoch := uq_epoch u + 1,
       uq_state := map_option (\<lambda>st. st\<lparr>us_decision := Some (Inl ApprovalCancelled)\<rparr>) (uq_state u)\<rparr>"

definition wait_begin ::
    "u64 \<Rightarrow> str \<Rightarrow> str \<Rightarrow> uuid \<Rightarrow> unlock_requests \<Rightarrow> unit res \<times> unlock_requests" where
  "wait_begin epoch client_label purpose fresh u =
     (if epoch \<noteq> uq_epoch u then (Inl ApprovalCancelled, u)
      else if uq_state u \<noteq> None then (Inl Busy, u)
      else (Inr (), u\<lparr>uq_state := Some
        \<lparr>us_request = \<lparr>pu_id = fresh, pu_client_label = client_label, pu_purpose = purpose\<rparr>,
         us_decision = None\<rparr>\<rparr>))"

text \<open>One turn of the loop of \<open>wait\<close>: \<open>None\<close> goes back to waiting.\<close>

definition wait_poll ::
    "bool \<Rightarrow> nat \<Rightarrow> nat \<Rightarrow> unlock_requests \<Rightarrow> unit res option \<times> unlock_requests" where
  "wait_poll cancelled now deadline u =
     (let result =
        (if cancelled then Some (Inl ApprovalCancelled)
         else if now \<ge> deadline then Some (Inl ApprovalTimeout)
         else Option.bind (uq_state u) us_decision)
      in case result of
           Some r \<Rightarrow> (Some r, u\<lparr>uq_state := None\<rparr>)
         | None \<Rightarrow> (None, u))"

section \<open>Properties\<close>

text \<open>What other threads do while a request waits.\<close>

datatype unlock_event =
    ResolveUnlock uuid bool
  | CancelUnlock
  | OtherWait u64 str str uuid

fun unlock_step :: "unlock_event \<Rightarrow> unlock_requests \<Rightarrow> unlock_requests" where
  "unlock_step (ResolveUnlock i allow) u = snd (resolve_unlock i allow u)"
| "unlock_step CancelUnlock u = cancel_unlock u"
| "unlock_step (OtherWait epoch label purpose fresh) u = snd (wait_begin epoch label purpose fresh u)"

text \<open>The decision that a history of events means for a request: any cancellation, otherwise the first
  resolution of its identifier.\<close>

fun decision_of :: "uuid \<Rightarrow> unlock_event list \<Rightarrow> unit res option" where
  "decision_of i [] = None"
| "decision_of i (ResolveUnlock j allow # es) =
     (if CancelUnlock \<in> set es then Some (Inl ApprovalCancelled)
      else if j = i then Some (if allow then Inr () else Inl ApprovalDenied)
      else decision_of i es)"
| "decision_of i (CancelUnlock # es) = Some (Inl ApprovalCancelled)"
| "decision_of i (OtherWait _ _ _ _ # es) = decision_of i es"

lemma decision_of_cancel: "CancelUnlock \<in> set es \<Longrightarrow> decision_of i es = Some (Inl ApprovalCancelled)"
  by (induction i es rule: decision_of.induct) auto

lemma history_decided:
  assumes "uq_state u = Some \<lparr>us_request = r, us_decision = Some d\<rparr>"
  shows "uq_state (fold unlock_step es u) =
     Some \<lparr>us_request = r, us_decision = (if CancelUnlock \<in> set es then Some (Inl ApprovalCancelled) else Some d)\<rparr>"
  using assms
proof (induction es arbitrary: u d)
  case (Cons e es)
  have "uq_state (unlock_step e u) =
      Some \<lparr>us_request = r, us_decision = Some (if e = CancelUnlock then Inl ApprovalCancelled else d)\<rparr>"
    using Cons.prems by (cases e) (auto simp: resolve_unlock_def cancel_unlock_def wait_begin_def)
  from Cons.IH [OF this] show ?case by auto
qed simp

lemma history_decision:
  assumes "uq_state u = Some \<lparr>us_request = r, us_decision = None\<rparr>"
  shows "uq_state (fold unlock_step es u) = Some \<lparr>us_request = r, us_decision = decision_of (pu_id r) es\<rparr>"
  using assms
proof (induction es arbitrary: u)
  case (Cons e es)
  show ?case
  proof (cases "us_decision (the (uq_state (unlock_step e u)))")
    case None
    then have "uq_state (unlock_step e u) = Some \<lparr>us_request = r, us_decision = None\<rparr>"
      using Cons.prems by (cases e) (auto simp: resolve_unlock_def cancel_unlock_def wait_begin_def split: if_splits)
    moreover have "decision_of (pu_id r) (e # es) = decision_of (pu_id r) es"
      using None Cons.prems decision_of_cancel [of es "pu_id r"]
      by (cases e) (auto simp: resolve_unlock_def cancel_unlock_def split: if_splits)
    ultimately show ?thesis using Cons.IH by simp
  next
    case (Some d)
    then have "uq_state (unlock_step e u) = Some \<lparr>us_request = r, us_decision = Some d\<rparr>"
      using Cons.prems by (cases e) (auto simp: resolve_unlock_def cancel_unlock_def wait_begin_def split: if_splits)
    from history_decided [OF this, of es] Some show ?thesis
      using Cons.prems
      by (cases e) (auto simp: resolve_unlock_def cancel_unlock_def wait_begin_def split: if_splits)
  qed
qed simp

lemma epoch_after:
  "uq_epoch (fold unlock_step es u) = uq_epoch u + of_nat (count_list es CancelUnlock)"
proof (induction es arbitrary: u)
  case (Cons e es)
  then show ?case
    by (cases e) (auto simp: resolve_unlock_def cancel_unlock_def wait_begin_def split: option.splits)
qed simp

text \<open>C29: A request to unlock succeeds exactly when, before its deadline and with its
  connection still open, the local interface resolved this very request positively, first, and
  nothing cancelled it: a lock cancels whatever was decided. Every poll after the deadline ends the
  wait, the end of a wait clears the request, and a request taken before a lock is refused after it.\<close>

theorem unlock_needs_local_decision:
  assumes "wait_begin epoch label purpose i u = (Inr (), u0)"
  shows "wait_poll cancelled now deadline (fold unlock_step es u0) =
      (if cancelled then (Some (Inl ApprovalCancelled), (fold unlock_step es u0)\<lparr>uq_state := None\<rparr>)
       else if now \<ge> deadline then (Some (Inl ApprovalTimeout), (fold unlock_step es u0)\<lparr>uq_state := None\<rparr>)
       else case decision_of i es of
           Some d \<Rightarrow> (Some d, (fold unlock_step es u0)\<lparr>uq_state := None\<rparr>)
         | None \<Rightarrow> (None, fold unlock_step es u0)) \<and>
    (fst (wait_poll cancelled now deadline (fold unlock_step es u0)) = Some (Inr ()) \<longrightarrow>
       CancelUnlock \<notin> set es \<and>
       (\<exists>es1 es2. es = es1 @ ResolveUnlock i True # es2 \<and> (\<forall>b. ResolveUnlock i b \<notin> set es1))) \<and>
    (0 < count_list es CancelUnlock \<longrightarrow> count_list es CancelUnlock < 2 ^ 64 \<longrightarrow>
       fst (wait_begin epoch label' purpose' j (fold unlock_step es u0)) = Inl ApprovalCancelled)"
proof (intro conjI impI)
  have u0: "uq_state u0 = Some \<lparr>us_request = \<lparr>pu_id = i, pu_client_label = label, pu_purpose = purpose\<rparr>, us_decision = None\<rparr>"
    "uq_epoch u0 = epoch"
    using assms by (auto simp: wait_begin_def split: if_splits)
  note st = history_decision [OF u0(1), of es, simplified]
  show poll: "wait_poll cancelled now deadline (fold unlock_step es u0) =
      (if cancelled then (Some (Inl ApprovalCancelled), (fold unlock_step es u0)\<lparr>uq_state := None\<rparr>)
       else if now \<ge> deadline then (Some (Inl ApprovalTimeout), (fold unlock_step es u0)\<lparr>uq_state := None\<rparr>)
       else case decision_of i es of
           Some d \<Rightarrow> (Some d, (fold unlock_step es u0)\<lparr>uq_state := None\<rparr>)
         | None \<Rightarrow> (None, fold unlock_step es u0))"
    by (simp add: wait_poll_def st split: option.splits)
  have first: "decision_of i es = Some (Inr ()) \<Longrightarrow> CancelUnlock \<notin> set es \<and>
      (\<exists>es1 es2. es = es1 @ ResolveUnlock i True # es2 \<and> (\<forall>b. ResolveUnlock i b \<notin> set es1))" for es
  proof (induction es)
    case (Cons e es)
    show ?case
    proof (cases "e = ResolveUnlock i True")
      case True
      then show ?thesis using Cons.prems by (intro conjI exI [of _ "[]"] exI [of _ es]) (auto split: if_splits)
    next
      case False
      with Cons.prems have "decision_of i es = Some (Inr ())" and e: "e \<noteq> CancelUnlock" "\<forall>b. e \<noteq> ResolveUnlock i b"
        by (cases e; auto split: if_splits)+
      from Cons.IH [OF this(1)] obtain es1 es2 where
        "CancelUnlock \<notin> set es" "es = es1 @ ResolveUnlock i True # es2" "\<forall>b. ResolveUnlock i b \<notin> set es1"
        by blast
      with e show ?thesis by (intro conjI exI [of _ "e # es1"] exI [of _ es2]) auto
    qed
  qed simp
  assume "fst (wait_poll cancelled now deadline (fold unlock_step es u0)) = Some (Inr ())"
  then have "decision_of i es = Some (Inr ())" unfolding poll by (auto split: if_splits option.splits)
  from first [OF this] show "CancelUnlock \<notin> set es"
    and "\<exists>es1 es2. es = es1 @ ResolveUnlock i True # es2 \<and> (\<forall>b. ResolveUnlock i b \<notin> set es1)"
    by auto
next
  assume n: "0 < count_list es CancelUnlock" "count_list es CancelUnlock < 2 ^ 64"
  have "uq_epoch u0 = epoch" using assms by (auto simp: wait_begin_def split: if_splits)
  moreover have "(of_nat (count_list es CancelUnlock) :: u64) \<noteq> 0"
    using n by (metis unat_small unat_0 less_numeral_extra(3))
  ultimately show "fst (wait_begin epoch label' purpose' j (fold unlock_step es u0)) = Inl ApprovalCancelled"
    by (simp add: wait_begin_def epoch_after)
qed

theorem unlock_needs_local_decision_witness:
  "\<exists>u0. wait_begin 0 [] [] 5 default_unlock_requests = (Inr (), u0) \<and>
     fst (wait_poll False 1 2 (fold unlock_step [ResolveUnlock 4 True, ResolveUnlock 5 True] u0)) = Some (Inr ()) \<and>
     fst (wait_poll False 1 2 (fold unlock_step [ResolveUnlock 5 True, CancelUnlock] u0)) = Some (Inl ApprovalCancelled)"
proof -
  obtain u0 where u0: "wait_begin 0 [] [] 5 default_unlock_requests = (Inr (), u0)"
    by (simp add: wait_begin_def default_unlock_requests_def)
  from unlock_needs_local_decision [OF this, of False 1 2 "[ResolveUnlock 4 True, ResolveUnlock 5 True]"]
    unlock_needs_local_decision [OF u0, of False 1 2 "[ResolveUnlock 5 True, CancelUnlock]"] u0
  show ?thesis by auto
qed

end
