(* ===== verification/Ladon_Editor.thy ===== *)
theory Ladon_Editor
  imports Ladon_Model
begin

text \<open>
  The drafts of the local interface: \<open>crates/ladon-app/src/secret_editor.rs\<close> (editing a record) and the
  drafts, the passphrase check and the display of untrusted text of \<open>crates/ladon-app/src/ui.rs\<close>.
  A \<open>SensitiveText\<close> is the string it wraps.
\<close>

section \<open>Editing a record\<close>

datatype editable_value =
    EditText str
  | EditBinary "byte list" text_hint

record editable_field =
  ef_name :: str
  ef_value :: editable_value

record edit_secret_draft =
  ed_id :: secret_id
  ed_name :: str
  ed_fields :: "editable_field list"

definition draft_from_parts :: "secret_id \<Rightarrow> str \<Rightarrow> editable_field list \<Rightarrow> edit_secret_draft" where
  "draft_from_parts i name flds = \<lparr>ed_id = i, ed_name = name, ed_fields = flds\<rparr>"

definition draft_field :: "secret_field \<Rightarrow> editable_field" where
  "draft_field f =
     (if sf_hint f = HintText \<and> valid_utf8 (sf_value f)
      then \<lparr>ef_name = field_str (sf_name f), ef_value = EditText (sf_value f)\<rparr>
      else \<lparr>ef_name = field_str (sf_name f), ef_value = EditBinary (sf_value f) (sf_hint f)\<rparr>)"

definition draft_from_record :: "secret_record \<Rightarrow> edit_secret_draft" where
  "draft_from_record r = draft_from_parts (sr_id r) (name_str (sr_name r)) (map draft_field (sr_fields r))"

definition add_text_field :: "edit_secret_draft \<Rightarrow> edit_secret_draft" where
  "add_text_field d = d\<lparr>ed_fields := ed_fields d @ [\<lparr>ef_name = [], ef_value = EditText []\<rparr>]\<rparr>"

definition remove_edit_field :: "nat \<Rightarrow> edit_secret_draft \<Rightarrow> bool \<times> edit_secret_draft" where
  "remove_edit_field index d =
     (if length (ed_fields d) \<le> 1 \<or> index \<ge> length (ed_fields d) then (False, d)
      else (True, d\<lparr>ed_fields := take index (ed_fields d) @ drop (Suc index) (ed_fields d)\<rparr>))"

definition validate_field :: "str \<Rightarrow> nat \<Rightarrow> field_name res" where
  "validate_field name value_len =
     and_then (parse_field_name name) (\<lambda>n.
     if value_len > MAX_FIELD_BYTES then Inl FieldTooLarge else Inr n)"

definition value_parts :: "editable_value \<Rightarrow> byte list \<times> text_hint" where
  "value_parts v = (case v of EditText s \<Rightarrow> (s, HintText) | EditBinary bs original_hint \<Rightarrow> (bs, original_hint))"

text \<open>The \<open>expect\<close> after \<open>SecretField::new\<close> is the last \<open>and_then\<close>: it never fails (\<open>to_field_never_panics\<close>).\<close>

definition to_field :: "editable_field \<Rightarrow> secret_field res" where
  "to_field f =
     (case value_parts (ef_value f) of (v, hint) \<Rightarrow>
        and_then (validate_field (ef_name f) (length v)) (\<lambda>name. new_secret_field name v hint))"

fun to_fields :: "editable_field list \<Rightarrow> secret_field list res" where
  "to_fields [] = Inr []"
| "to_fields (f # fs) = and_then (to_field f) (\<lambda>x. and_then (to_fields fs) (\<lambda>xs. Inr (x # xs)))"

lemma to_field_never_panics:
  "validate_field name (length v) = Inr n \<Longrightarrow> new_secret_field n v hint = Inr \<lparr>sf_name = n, sf_value = v, sf_hint = hint\<rparr>"
  by (auto simp: validate_field_def result_simps new_secret_field_def split: if_splits)

lemma to_field_draft: "field_wf f \<Longrightarrow> to_field (draft_field f) = Inr f"
  by (cases f) (auto simp: to_field_def draft_field_def value_parts_def validate_field_def field_wf_def
      new_secret_field_def parse_field_name_def not_less)

lemma to_fields_draft: "list_all field_wf fs \<Longrightarrow> to_fields (map draft_field fs) = Inr fs"
  by (induction fs) (auto simp: to_field_draft)

lemma to_fields_wf: "to_fields fs = Inr xs \<Longrightarrow> list_all field_wf xs"
proof (induction fs arbitrary: xs)
  case (Cons f fs)
  then show ?case
    by (auto simp: result_simps to_field_def validate_field_def new_secret_field_Inr field_wf_def parse_field_name_Inr
        split: prod.splits if_splits)
qed simp

section \<open>A new passphrase and a new record\<close>

definition MIN_PASSPHRASE_SCALARS :: nat where "MIN_PASSPHRASE_SCALARS = 12"

definition MAX_PASSPHRASE_BYTES :: nat where "MAX_PASSPHRASE_BYTES = 1024"

definition validate_new_passphrase :: "str \<Rightarrow> str \<Rightarrow> unit res" where
  "validate_new_passphrase passphrase confirmation =
     (let scalar_count = length (chars passphrase) in
      if passphrase = confirmation
        \<and> MIN_PASSPHRASE_SCALARS \<le> scalar_count \<and> scalar_count \<le> MAX_PASSPHRASE_BYTES
        \<and> length passphrase \<le> MAX_PASSPHRASE_BYTES
      then Inr () else Inl InvalidPassphrase)"

record draft_secret_field =
  df_name :: str
  df_value :: str

datatype add_draft_error =
    MissingFieldName nat
  | InvalidDraftName nat
  | DuplicateDraftName nat
  | DraftValueTooLarge nat

primrec as_ladon_error :: "add_draft_error \<Rightarrow> ladon_error" where
  "as_ladon_error (MissingFieldName _) = InvalidFieldName"
| "as_ladon_error (InvalidDraftName _) = InvalidFieldName"
| "as_ladon_error (DuplicateDraftName _) = DuplicateField"
| "as_ladon_error (DraftValueTooLarge _) = FieldTooLarge"

definition is_untouched :: "draft_secret_field \<Rightarrow> bool" where
  "is_untouched f = (df_name f = [] \<and> df_value f = [])"

record add_secret_draft =
  ad_name :: str
  ad_fields :: "draft_secret_field list"

definition new_add_draft :: add_secret_draft where
  "new_add_draft = \<lparr>ad_name = [], ad_fields = [\<lparr>df_name = ascii ''value'', df_value = []\<rparr>]\<rparr>"

definition can_add_field :: "add_secret_draft \<Rightarrow> bool" where
  "can_add_field d = (length (ad_fields d) < MAX_FIELDS_PER_RECORD)"

definition add_draft_field :: "add_secret_draft \<Rightarrow> add_secret_draft" where
  "add_draft_field d =
     (if can_add_field d then d\<lparr>ad_fields := ad_fields d @ [\<lparr>df_name = [], df_value = []\<rparr>]\<rparr> else d)"

definition remove_draft_field :: "nat \<Rightarrow> add_secret_draft \<Rightarrow> bool \<times> add_secret_draft" where
  "remove_draft_field index d =
     (if index = 0 \<or> index \<ge> length (ad_fields d) then (False, d)
      else (True, d\<lparr>ad_fields := take index (ad_fields d) @ drop (Suc index) (ad_fields d)\<rparr>))"

definition included_fields :: "add_secret_draft \<Rightarrow> (nat \<times> draft_secret_field) list" where
  "included_fields d = filter (\<lambda>(index, f). index = 0 \<or> \<not> is_untouched f) (enumerate 0 (ad_fields d))"

fun validate_draft_fields ::
    "(nat \<times> draft_secret_field) list \<Rightarrow> field_name set \<Rightarrow> add_draft_error + unit" where
  "validate_draft_fields [] names = Inr ()"
| "validate_draft_fields ((field_index, f) # rest) names =
     (if field_index > 0 \<and> df_name f = [] then Inl (MissingFieldName field_index)
      else case parse_field_name (df_name f) of
        Inl _ \<Rightarrow> Inl (InvalidDraftName field_index)
      | Inr name \<Rightarrow>
          if length (df_value f) > MAX_FIELD_BYTES then Inl (DraftValueTooLarge field_index)
          else if name \<in> names then Inl (DuplicateDraftName field_index)
          else validate_draft_fields rest (insert name names))"

definition validate_add_draft :: "add_secret_draft \<Rightarrow> add_draft_error + unit" where
  "validate_add_draft d = validate_draft_fields (included_fields d) {}"

fun draft_secret_fields :: "(nat \<times> draft_secret_field) list \<Rightarrow> secret_field list res" where
  "draft_secret_fields [] = Inr []"
| "draft_secret_fields ((_, f) # rest) =
     and_then (parse_field_name (df_name f)) (\<lambda>name.
     and_then (new_secret_field name (df_value f) HintText) (\<lambda>x.
     and_then (draft_secret_fields rest) (\<lambda>xs. Inr (x # xs))))"

text \<open>A draft that passes its check gives fields that a record accepts.\<close>

lemma validated_draft_fields:
  "validate_draft_fields fs names = Inr () \<Longrightarrow>
     \<exists>xs. draft_secret_fields fs = Inr xs \<and> distinct (map sf_name xs) \<and> set (map sf_name xs) \<inter> names = {} \<and>
       list_all field_wf xs \<and> length xs = length fs"
proof (induction fs names rule: validate_draft_fields.induct)
  case (2 field_index f rest names)
  then obtain n where n: "parse_field_name (df_name f) = Inr n" "length (df_value f) \<le> MAX_FIELD_BYTES" "n \<notin> names"
    and rest: "validate_draft_fields rest (insert n names) = Inr ()"
    by (auto split: if_splits sum.splits)
  with 2 obtain xs where "draft_secret_fields rest = Inr xs" "distinct (map sf_name xs)"
    "set (map sf_name xs) \<inter> insert n names = {}" "list_all field_wf xs" "length xs = length rest"
    by (fastforce split: if_splits sum.splits)
  moreover from n(1) have "n = FieldName (df_name f)" "valid_field_name (df_name f)"
    by (simp_all add: parse_field_name_Inr)
  ultimately show ?case
    using n by (intro exI [of _ "\<lparr>sf_name = n, sf_value = df_value f, sf_hint = HintText\<rparr> # xs"])
      (auto simp: new_secret_field_def field_wf_def [abs_def])
qed simp

section \<open>Untrusted text\<close>

function hex_number :: "nat \<Rightarrow> str" where
  "hex_number n =
     (let digit = (\<lambda>k. of_nat (if k < 10 then 48 + k else 87 + k)) in
      if n < 16 then [digit n] else hex_number (n div 16) @ [digit (n mod 16)])"
  by pat_completeness auto
termination
  by (relation "measure id") auto

declare hex_number.simps [simp del]

definition is_unsafe_character :: "byte list \<Rightarrow> bool" where
  "is_unsafe_character c =
     (let cp = codepoint c in
      is_control c \<or> cp = 0x061c \<or> cp = 0x200e \<or> cp = 0x200f \<or>
      (0x202a \<le> cp \<and> cp \<le> 0x202e) \<or> (0x2066 \<le> cp \<and> cp \<le> 0x2069))"

definition sanitize_character :: "byte list \<Rightarrow> str" where
  "sanitize_character c =
     (if is_unsafe_character c then [0x5c, 0x75, 0x7b] @ hex_number (codepoint c) @ [0x7d] else c)"

definition sanitize_untrusted :: "str \<Rightarrow> str" where
  "sanitize_untrusted s = concat (map sanitize_character (chars s))"

lemma hex_number_ascii: "b \<in> set (hex_number n) \<Longrightarrow> 32 < unat b \<and> unat b < 127"
proof (induction n rule: hex_number.induct)
  case (1 n)
  have digit: "32 < unat (of_nat (if k < 10 then 48 + k else 87 + k) :: byte) \<and>
      unat (of_nat (if k < 10 then 48 + k else 87 + k) :: byte) < 127" if "k < 16" for k
    using that by (auto simp del: of_nat_add simp: unat_of_nat)
  show ?case
  proof (cases "n < 16")
    case True
    then show ?thesis using "1.prems" digit [of n] by (subst (asm) hex_number.simps) (simp add: Let_def del: of_nat_add)
  next
    case False
    then have "hex_number n = hex_number (n div 16) @ [of_nat (if n mod 16 < 10 then 48 + n mod 16 else 87 + n mod 16)]"
      by (subst hex_number.simps) (simp add: Let_def)
    then show ?thesis using "1.prems" "1.IH" [OF refl False] digit [of "n mod 16"] by auto
  qed
qed

text \<open>Sanitized text has no character that controls or reorders the display.\<close>

lemma sanitized_text_safe:
  assumes "valid_utf8 s"
  shows "\<forall>c \<in> set (chars (sanitize_untrusted s)). \<not> is_unsafe_character c"
proof -
  have plain: "\<not> is_unsafe_character [b]" if "32 < unat b \<and> unat b < 127" for b
    using that by (auto simp: is_unsafe_character_def is_control_def codepoint_def Let_def)
  have safe: "(\<forall>d \<in> set (chars (sanitize_character c)). \<not> is_unsafe_character d) \<and> valid_utf8 (sanitize_character c)"
    if c: "is_char c" for c
  proof (cases "is_unsafe_character c")
    case True
    then obtain e where e: "sanitize_character c = e" "list_all (\<lambda>b. 32 < unat b \<and> unat b < 127) e"
      using hex_number_ascii by (auto simp: sanitize_character_def list_all_iff)
    then have "list_all (\<lambda>b. b < 128) e" by (auto simp: list_all_iff word_less_nat_alt)
    with e plain show ?thesis by (auto simp: chars_ascii ascii_valid_utf8 list_all_iff)
  next
    case False
    have "chars c = [c]"
      using c is_char_length [OF c] by (simp add: chars.simps [of c] is_char_def chars.simps [of "[]"])
    with False is_char_valid [OF c] show ?thesis by (simp add: sanitize_character_def)
  qed
  have "\<forall>c \<in> set (chars (concat (map sanitize_character cs))). \<not> is_unsafe_character c" if "\<forall>c \<in> set cs. is_char c" for cs
    using that by (induction cs) (use safe in \<open>auto simp: chars_append chars.simps [of "[]"]\<close>)
  then show ?thesis using chars_are_chars by (auto simp: sanitize_untrusted_def)
qed

end
