(* ===== verification/Ladon_Controller.thy ===== *)
theory Ladon_Controller
  imports Ladon_Editor Ladon_Runner Ladon_Vault Ladon_Approval
begin

text \<open>
  The vault controller of the application (\<open>VaultController\<close> of \<open>crates/ladon-app/src/ui.rs\<close>): the phase of the
  managed vault, the operations of the interface on it, and what the agent broker asks of it to
  approve and to resolve the bindings of a run.

  The external code is the record \<open>libs\<close> (text, CBOR, ciphers, random source); the world an operation
  changes, the state of the random source and the disk, is \<open>world\<close>; the outcomes of the
  file-system calls of a commit are \<open>commit_io\<close>. The instant of the monotonic clock and fresh identifiers are
  arguments. The activity sink of the session is the instant \<open>last\<close> of \<open>SessionActivity\<close>, set to the present whenever
  an operation of the session calls the sink, that is, when its counter changes.
\<close>

section \<open>State\<close>

definition DEFAULT_IDLE_TIMEOUT :: duration where "DEFAULT_IDLE_TIMEOUT = from_secs (30 * 60)"

datatype vault_ui_phase = PhaseFirstRun | PhaseLocked | PhaseRecoveryRequired | PhaseUnlocked

datatype managed_vault =
    ManagedFirstRun
  | ManagedLocked
  | ManagedRecovery "unlocked_vault option" unlocked_vault instant
  | ManagedUnlocked vault_session instant

record vault_controller =
  vc_store :: vault_store
  vc_state :: managed_vault
  vc_session_id :: "uuid option"

record approval_plan =
  pl_vault_session_id :: uuid
  pl_secrets :: "approval_secret list"
  pl_binding_secret_ids :: "secret_id list"

record 'r libs =
  lb_env :: text_env
  lb_cbor :: cbor
  lb_ciphers :: ciphers
  lb_fill :: "'r random_source"

record 'r world =
  w_random :: 'r
  w_disk :: disk

record commit_io =
  ci_first :: path
  ci_second :: path
  ci_steps :: "io_outcome list"
  ci_remove_first :: io_outcome
  ci_remove_second :: io_outcome

definition new_controller :: "path \<Rightarrow> disk \<Rightarrow> vault_controller" where
  "new_controller primary d =
     (let store = new_vault_store primary;
          exists = d primary \<noteq> None \<or> d (vs_backup store) \<noteq> None
      in \<lparr>vc_store = store, vc_state = (if exists then ManagedLocked else ManagedFirstRun), vc_session_id = None\<rparr>)"

primrec phase_of :: "managed_vault \<Rightarrow> vault_ui_phase" where
  "phase_of ManagedFirstRun = PhaseFirstRun"
| "phase_of ManagedLocked = PhaseLocked"
| "phase_of (ManagedRecovery _ _ _) = PhaseRecoveryRequired"
| "phase_of (ManagedUnlocked _ _) = PhaseUnlocked"

definition phase :: "vault_controller \<Rightarrow> vault_ui_phase" where
  "phase vc = phase_of (vc_state vc)"

definition touched :: "instant \<Rightarrow> vault_session \<Rightarrow> vault_session \<Rightarrow> instant \<Rightarrow> instant" where
  "touched now s s' since = (if vss_activity s' \<noteq> vss_activity s then now else since)"

definition with_session :: "vault_session \<Rightarrow> instant \<Rightarrow> vault_controller \<Rightarrow> vault_controller" where
  "with_session s since vc = vc\<lparr>vc_state := ManagedUnlocked s since\<rparr>"

definition lock :: "vault_controller \<Rightarrow> vault_controller" where
  "lock vc =
     vc\<lparr>vc_state := (if vc_state vc = ManagedFirstRun then ManagedFirstRun else ManagedLocked),
        vc_session_id := None\<rparr>"

section \<open>Persistence\<close>

definition commit_session ::
    "'r libs \<Rightarrow> commit_io \<Rightarrow> vault_store \<Rightarrow> vault_session \<Rightarrow> 'r world \<Rightarrow> unit res \<times> 'r world" where
  "commit_session libs io store s w =
     (case commit_to (lb_cbor libs) (lb_ciphers libs) (lb_fill libs) store (ci_first io) (ci_second io) (ci_steps io)
        (ci_remove_first io) (ci_remove_second io) s (w_random w) (w_disk w) of
      (res, r', d') \<Rightarrow> (res, \<lparr>w_random = r', w_disk = d'\<rparr>))"

text \<open>After a change of the session: commit it, and lock the vault when that fails.\<close>

definition persist ::
    "'r libs \<Rightarrow> commit_io \<Rightarrow> vault_session \<Rightarrow> instant \<Rightarrow> 'a \<Rightarrow> vault_controller \<Rightarrow> 'r world \<Rightarrow>
       'a res \<times> vault_controller \<times> 'r world" where
  "persist libs io s since x vc w =
     (case commit_session libs io (vc_store vc) s w of
        (Inl e, w') \<Rightarrow> (Inl e, vc\<lparr>vc_state := ManagedLocked, vc_session_id := None\<rparr>, w')
      | (Inr _, w') \<Rightarrow> (Inr x, with_session s since vc, w'))"

definition commit_vault ::
    "'r libs \<Rightarrow> commit_io \<Rightarrow> vault_store \<Rightarrow> unlocked_vault \<Rightarrow> 'r world \<Rightarrow> unit res \<times> 'r world" where
  "commit_vault libs io store uv w =
     (case commit (lb_cbor libs) (lb_ciphers libs) (lb_fill libs) store (ci_first io) (ci_second io) (ci_steps io)
        (ci_remove_first io) (ci_remove_second io) uv (w_random w) (w_disk w) of
      (res, r', d') \<Rightarrow> (res, \<lparr>w_random = r', w_disk = d'\<rparr>))"

definition load_secret ::
    "instant \<Rightarrow> secret_id \<Rightarrow> vault_controller \<Rightarrow> edit_secret_draft res \<times> vault_controller" where
  "load_secret now i vc =
     (case vc_state vc of
        ManagedUnlocked s since \<Rightarrow>
          (case with_record (RefId i) draft_from_record s of
             (res, s') \<Rightarrow> (res, with_session s' (touched now s s' since) vc))
      | _ \<Rightarrow> (Inl VaultLocked, vc))"

definition prepare_secret_update ::
    "'r libs \<Rightarrow> edit_secret_draft \<Rightarrow> vault_controller \<Rightarrow> prepared_replacement res" where
  "prepare_secret_update libs draft vc =
     (case vc_state vc of
        ManagedUnlocked s since \<Rightarrow>
          and_then (to_fields (ed_fields draft)) (\<lambda>flds.
          prepare_record_replacement (lb_env libs) (RefId (ed_id draft)) (ed_name draft) flds s)
      | _ \<Rightarrow> Inl VaultLocked)"

definition apply_secret_update ::
    "'r libs \<Rightarrow> commit_io \<Rightarrow> instant \<Rightarrow> prepared_replacement \<Rightarrow> vault_controller \<Rightarrow> 'r world \<Rightarrow>
       unit res \<times> vault_controller \<times> 'r world" where
  "apply_secret_update libs io now update vc w =
     (case vc_state vc of
        ManagedUnlocked s since \<Rightarrow>
          (case apply_record_replacement update s of
             (Inl e, s') \<Rightarrow> (Inl e, with_session s' (touched now s s' since) vc, w)
           | (Inr _, s') \<Rightarrow> persist libs io s' (touched now s s' since) () vc w)
      | _ \<Rightarrow> (Inl VaultLocked, vc, w))"

definition ensure_secret_exists :: "secret_id \<Rightarrow> vault_controller \<Rightarrow> unit res" where
  "ensure_secret_exists i vc =
     (case vc_state vc of
        ManagedUnlocked s since \<Rightarrow>
          if list_ex (\<lambda>m. smd_id m = i) (list_records s) then Inr () else Inl SecretNotFound
      | _ \<Rightarrow> Inl VaultLocked)"

text \<open>\<open>parent\<close> is the outcome of \<open>ensure_private_parent\<close>: creating the directory of the vault and making it
  private.\<close>

definition create ::
    "'r libs \<Rightarrow> commit_io \<Rightarrow> unit res \<Rightarrow> instant \<Rightarrow> uuid \<Rightarrow> uuid \<Rightarrow> str \<Rightarrow> str \<Rightarrow> vault_controller \<Rightarrow> 'r world \<Rightarrow>
       unit res \<times> vault_controller \<times> 'r world" where
  "create libs io parent now vault_id session_id passphrase confirmation vc w =
     (if phase vc \<noteq> PhaseFirstRun then (Inl InvalidRequest, vc, w)
      else case and_then (validate_new_passphrase passphrase confirmation) (\<lambda>_.
             and_then parent (\<lambda>_. new_vault_payload (SecretId vault_id) 0 [])) of
        Inl e \<Rightarrow> (Inl e, vc, w)
      | Inr payload \<Rightarrow>
          (case create_vault_with_random (lb_cbor libs) (lb_ciphers libs) (lb_fill libs) payload passphrase (w_random w) of
             (Inl e, r') \<Rightarrow> (Inl e, vc, w\<lparr>w_random := r'\<rparr>)
           | (Inr (vault, _), r') \<Rightarrow>
               (case commit_vault libs io (vc_store vc) vault (w\<lparr>w_random := r'\<rparr>) of
                  (Inl e, w') \<Rightarrow> (Inl e, vc, w')
                | (Inr _, w') \<Rightarrow>
                    (Inr (), (with_session (new_vault_session vault) now vc)\<lparr>vc_session_id := Some session_id\<rparr>, w'))))"

definition unlock ::
    "'r libs \<Rightarrow> io_outcome \<Rightarrow> io_outcome \<Rightarrow> instant \<Rightarrow> uuid \<Rightarrow> str \<Rightarrow> vault_controller \<Rightarrow> disk \<Rightarrow>
       unit res \<times> vault_controller" where
  "unlock libs io1 io2 now session_id passphrase vc d =
     (if phase vc \<noteq> PhaseLocked then (Inl InvalidRequest, vc)
      else case open_vault (lb_env libs) (lb_cbor libs) (lb_ciphers libs) (vc_store vc) passphrase io1 io2 d of
        Inl e \<Rightarrow> (Inl e, vc)
      | Inr (OpenPrimary vault (Some backup)) \<Rightarrow>
          (Inr (), vc\<lparr>vc_state := ManagedRecovery (Some vault) backup now\<rparr>)
      | Inr (OpenPrimary vault None) \<Rightarrow>
          (Inr (), (with_session (new_vault_session vault) now vc)\<lparr>vc_session_id := Some session_id\<rparr>)
      | Inr (RestoreRequired backup) \<Rightarrow>
          (Inr (), vc\<lparr>vc_state := ManagedRecovery None backup now\<rparr>))"

definition restore_backup ::
    "'r libs \<Rightarrow> commit_io \<Rightarrow> instant \<Rightarrow> uuid \<Rightarrow> vault_controller \<Rightarrow> 'r world \<Rightarrow>
       unit res \<times> vault_controller \<times> 'r world" where
  "restore_backup libs io now session_id vc w =
     (case vc_state vc of
        ManagedRecovery primary backup since \<Rightarrow>
          (case commit_vault libs io (vc_store vc) backup w of
             (Inl e, w') \<Rightarrow> (Inl e, vc, w')
           | (Inr _, w') \<Rightarrow>
               (Inr (), (with_session (new_vault_session backup) now vc)\<lparr>vc_session_id := Some session_id\<rparr>, w'))
      | _ \<Rightarrow> (Inl InvalidRequest, vc\<lparr>vc_state := ManagedLocked\<rparr>, w))"

definition can_continue_with_primary :: "vault_controller \<Rightarrow> bool" where
  "can_continue_with_primary vc =
     (case vc_state vc of ManagedRecovery (Some _) _ _ \<Rightarrow> True | _ \<Rightarrow> False)"

definition continue_with_primary :: "instant \<Rightarrow> uuid \<Rightarrow> vault_controller \<Rightarrow> unit res \<times> vault_controller" where
  "continue_with_primary now session_id vc =
     (case vc_state vc of
        ManagedRecovery (Some primary) backup since \<Rightarrow>
          (Inr (), (with_session (new_vault_session primary) now vc)\<lparr>vc_session_id := Some session_id\<rparr>)
      | ManagedRecovery None backup since \<Rightarrow> (Inl InvalidRequest, vc)
      | _ \<Rightarrow> (Inl InvalidRequest, vc\<lparr>vc_state := ManagedLocked\<rparr>))"

definition add_secret ::
    "'r libs \<Rightarrow> commit_io \<Rightarrow> instant \<Rightarrow> uuid \<Rightarrow> add_secret_draft \<Rightarrow> vault_controller \<Rightarrow> 'r world \<Rightarrow>
       secret_id res \<times> add_secret_draft \<times> vault_controller \<times> 'r world" where
  "add_secret libs io now fresh draft vc w =
     (case validate_add_draft draft of
        Inl e \<Rightarrow> (Inl (as_ladon_error e), draft, vc, w)
      | Inr _ \<Rightarrow>
          (case draft_secret_fields (included_fields draft) of
             Inl e \<Rightarrow> (Inl e, draft, vc, w)
           | Inr flds \<Rightarrow>
               (case vc_state vc of
                  ManagedUnlocked s since \<Rightarrow>
                    (case add (lb_env libs) fresh (ad_name draft) flds s of
                       (Inl e, s') \<Rightarrow> (Inl e, draft, with_session s' (touched now s s' since) vc, w)
                     | (Inr i, s') \<Rightarrow>
                         (case persist libs io s' (touched now s s' since) i vc w of
                            (Inl e, vc', w') \<Rightarrow> (Inl e, draft, vc', w')
                          | (Inr i, vc', w') \<Rightarrow> (Inr i, new_add_draft, vc', w')))
                | _ \<Rightarrow> (Inl InvalidRequest, draft, vc, w))))"

definition delete_secret ::
    "'r libs \<Rightarrow> commit_io \<Rightarrow> instant \<Rightarrow> secret_id \<Rightarrow> vault_controller \<Rightarrow> 'r world \<Rightarrow>
       unit res \<times> vault_controller \<times> 'r world" where
  "delete_secret libs io now i vc w =
     (case vc_state vc of
        ManagedUnlocked s since \<Rightarrow>
          (case delete (RefId i) s of
             (Inl e, s') \<Rightarrow> (Inl e, with_session s' (touched now s s' since) vc, w)
           | (Inr _, s') \<Rightarrow> persist libs io s' (touched now s s' since) () vc w)
      | _ \<Rightarrow> (Inl InvalidRequest, vc, w))"

section \<open>Bindings\<close>

fun metadata_matches :: "secret_ref \<Rightarrow> secret_metadata \<Rightarrow> bool" where
  "metadata_matches (RefName name) m = (smd_name m = name_str name)"
| "metadata_matches (RefId i) m = (smd_id m = i)"

definition metadata_id :: "secret_metadata list \<Rightarrow> secret_ref \<Rightarrow> secret_id res" where
  "metadata_id metadata reference =
     ok_or SecretNotFound (map_option smd_id (List.find (metadata_matches reference) metadata))"

fun binding_ids :: "secret_metadata list \<Rightarrow> validated_secret_binding list \<Rightarrow> secret_id list res" where
  "binding_ids metadata [] = Inr []"
| "binding_ids metadata (b # bs) =
     and_then (metadata_id metadata (vb_secret_ref b)) (\<lambda>i.
     and_then (binding_ids metadata bs) (\<lambda>is. Inr (i # is)))"

definition binding_secret_ids :: "vault_controller \<Rightarrow> validated_secret_binding list \<Rightarrow> secret_id list res" where
  "binding_secret_ids vc bindings =
     (case vc_state vc of
        ManagedUnlocked s since \<Rightarrow> binding_ids (list_records s) bindings
      | _ \<Rightarrow> Inl VaultLocked)"

fun resolve_for_ids ::
    "text_env \<Rightarrow> secret_metadata list \<Rightarrow> (validated_secret_binding \<times> secret_id) list \<Rightarrow> vault_session \<Rightarrow>
       resolved_secret_binding list res \<times> vault_session" where
  "resolve_for_ids env metadata [] s = (Inr [], s)"
| "resolve_for_ids env metadata ((binding, expected_id) # rest) s =
     (case metadata_id metadata (vb_secret_ref binding) of
        Inl e \<Rightarrow> (Inl e, s)
      | Inr i \<Rightarrow>
          if i \<noteq> expected_id then (Inl InvalidBinding, s)
          else (case with_field (vb_secret_ref binding) (vb_field binding) (\<lambda>bytes. bytes) s of
             (Inl e, s') \<Rightarrow> (Inl e, s')
           | (Inr v, s') \<Rightarrow>
               (case new_resolved_binding env (display_secret_id env i) (field_str (vb_field binding)) v of
                  Inl e \<Rightarrow> (Inl e, s')
                | Inr r \<Rightarrow>
                    (case resolve_for_ids env metadata rest s' of
                       (Inl e, s'') \<Rightarrow> (Inl e, s'')
                     | (Inr rs, s'') \<Rightarrow> (Inr (r # rs), s'')))))"

definition resolve_bindings_for_ids ::
    "'r libs \<Rightarrow> instant \<Rightarrow> validated_secret_binding list \<Rightarrow> secret_id list \<Rightarrow> vault_controller \<Rightarrow>
       resolved_secret_binding list res \<times> vault_controller" where
  "resolve_bindings_for_ids libs now bindings expected_secret_ids vc =
     (if length bindings \<noteq> length expected_secret_ids then (Inl InvalidBinding, vc)
      else case vc_state vc of
        ManagedUnlocked s since \<Rightarrow>
          (case resolve_for_ids (lb_env libs) (list_records s) (zip bindings expected_secret_ids) s of
             (res, s') \<Rightarrow> (res, with_session s' (touched now s s' since) vc))
      | _ \<Rightarrow> (Inl VaultLocked, vc))"

definition resolve_bindings ::
    "'r libs \<Rightarrow> instant \<Rightarrow> validated_secret_binding list \<Rightarrow> vault_controller \<Rightarrow>
       resolved_secret_binding list res \<times> vault_controller" where
  "resolve_bindings libs now bindings vc =
     (case binding_secret_ids vc bindings of
        Inl e \<Rightarrow> (Inl e, vc)
      | Inr secret_ids \<Rightarrow> resolve_bindings_for_ids libs now bindings secret_ids vc)"

definition merge_request ::
    "secret_metadata \<Rightarrow> str \<Rightarrow> approval_secret list \<Rightarrow> approval_secret list" where
  "merge_request m fld requested =
     (if list_ex (\<lambda>item. as_id item = smd_id m) requested
      then map (\<lambda>item.
             if as_id item = smd_id m \<and> fld \<notin> set (as_fields item)
             then \<lparr>as_id = smd_id m, as_name = smd_name m, as_fields = as_fields item @ [fld]\<rparr>
             else item) requested
      else requested @ [\<lparr>as_id = smd_id m, as_name = smd_name m, as_fields = [fld]\<rparr>])"

fun plan_secrets ::
    "secret_metadata list \<Rightarrow> (validated_secret_binding \<times> secret_id) list \<Rightarrow> approval_secret list \<Rightarrow>
       approval_secret list res" where
  "plan_secrets metadata [] requested = Inr requested"
| "plan_secrets metadata ((binding, secret_id) # rest) requested =
     and_then (ok_or SecretNotFound (List.find (\<lambda>m. smd_id m = secret_id) metadata)) (\<lambda>m.
     let fld = field_str (vb_field binding) in
     if \<not> list_ex (\<lambda>name. name = fld) (smd_field_names m) then Inl FieldNotFound
     else plan_secrets metadata rest (merge_request m fld requested))"

definition make_approval_plan ::
    "validated_secret_binding list \<Rightarrow> vault_controller \<Rightarrow> approval_plan res" where
  "make_approval_plan bindings vc =
     and_then (binding_secret_ids vc bindings) (\<lambda>ids.
     case vc_state vc of
        ManagedUnlocked s since \<Rightarrow>
          and_then (plan_secrets (list_records s) (zip bindings ids) []) (\<lambda>requested.
          and_then (ok_or VaultLocked (vc_session_id vc)) (\<lambda>session.
          Inr \<lparr>pl_vault_session_id = session, pl_secrets = requested, pl_binding_secret_ids = ids\<rparr>))
      | _ \<Rightarrow> Inl VaultLocked)"

section \<open>Listing and idle lock\<close>

definition record_secret_activity :: "instant \<Rightarrow> vault_controller \<Rightarrow> vault_controller" where
  "record_secret_activity now vc =
     (case vc_state vc of
        ManagedUnlocked s since \<Rightarrow> with_session (record_activity s) now vc
      | _ \<Rightarrow> vc)"

definition secrets :: "vault_controller \<Rightarrow> secret_metadata list" where
  "secrets vc = (case vc_state vc of ManagedUnlocked s since \<Rightarrow> list_records s | _ \<Rightarrow> [])"

definition auto_lock_if_idle_at :: "instant \<Rightarrow> vault_controller \<Rightarrow> bool \<times> vault_controller" where
  "auto_lock_if_idle_at now vc =
     (let should_lock =
        (case vc_state vc of
           ManagedUnlocked s since \<Rightarrow> now - since \<ge> DEFAULT_IDLE_TIMEOUT
         | ManagedRecovery _ _ since \<Rightarrow> now - since \<ge> DEFAULT_IDLE_TIMEOUT
         | _ \<Rightarrow> False)
      in (should_lock, if should_lock then lock vc else vc))"

definition remaining_unlocked :: "instant \<Rightarrow> vault_controller \<Rightarrow> duration option" where
  "remaining_unlocked now vc =
     (case vc_state vc of
        ManagedUnlocked s since \<Rightarrow> Some (DEFAULT_IDLE_TIMEOUT - (now - since))
      | ManagedRecovery _ _ since \<Rightarrow> Some (DEFAULT_IDLE_TIMEOUT - (now - since))
      | _ \<Rightarrow> None)"

end
