(* ===== verification/Ladon_Controller_Properties.thy ===== *)
theory Ladon_Controller_Properties
  imports Ladon_Controller Ladon_Vault_Properties
begin

text \<open>
  What the controller guarantees: the values it hands to a run are those of the secrets and fields that
  were put before the user, and a change that could not be stored locks the vault while one that
  was stored is on disk.
\<close>

section \<open>References and identifiers\<close>

lemma find_position: "List.find P xs = (case position P xs of None \<Rightarrow> None | Some i \<Rightarrow> Some (xs ! i))"
  by (induction xs) (auto split: option.splits)

lemma position_map: "position P (map f xs) = position (P \<circ> f) xs"
  by (induction xs) auto

lemma metadata_id_Inr:
  assumes "metadata_id (list_records s) reference = Inr i"
  shows "\<exists>k. find_record_index (session_records s) reference = Inr k \<and> sr_id (session_records s ! k) = i"
proof -
  let ?md = "\<lambda>r. \<lparr>smd_id = sr_id r, smd_name = name_str (sr_name r),
               smd_field_names = map (\<lambda>f. field_str (sf_name f)) (sr_fields r)\<rparr>"
  have m: "(metadata_matches reference \<circ> ?md) = matches reference"
    by (cases reference) (auto simp: fun_eq_iff intro: secret_name.expand)
  from assms obtain k where k: "position (matches reference) (session_records s) = Some k"
    "i = smd_id (map ?md (session_records s) ! k)"
    by (auto simp: metadata_id_def result_simps list_records_def find_position position_map m split: option.splits)
  with position_Some [OF k(1)] show ?thesis
    by (auto simp: find_record_index_def)
qed

lemma with_field_value:
  assumes "with_field reference fld (\<lambda>bytes. bytes) s = (Inr v, s')"
  shows "session_payload s' = session_payload s"
    and "find_record_index (session_records s) reference = Inr k \<Longrightarrow>
      \<exists>f \<in> set (sr_fields (session_records s ! k)). sf_name f = fld \<and> sf_value f = v"
  using assms
  by (auto simp: with_field_def record_activity_def find_Some_iff split: sum.splits option.splits)

text \<open>A value of the session that a binding denotes.\<close>

definition denotes :: "vault_session \<Rightarrow> validated_secret_binding \<Rightarrow> secret_id \<Rightarrow> byte list \<Rightarrow> bool" where
  "denotes s b i v =
     (\<exists>r \<in> set (session_records s). sr_id r = i \<and> matches (vb_secret_ref b) r \<and>
        (\<exists>f \<in> set (sr_fields r). sf_name f = vb_field b \<and> sf_value f = v))"

lemma resolve_for_ids_denotes:
  assumes "text_laws env"
  shows "resolve_for_ids env (list_records s0) bis s = (Inr rs, s') \<Longrightarrow> session_payload s = session_payload s0 \<Longrightarrow>
    list_all2 (\<lambda>(b, i) r. rb_secret_id r = i \<and> rb_field r = vb_field b \<and> denotes s0 b i (rb_value r)) bis rs"
proof (induction bis arbitrary: s rs s')
  case (Cons bi rest)
  obtain b i where bi: "bi = (b, i)" by (cases bi)
  from Cons.prems(1) obtain v s1 r rs' where
    md: "metadata_id (list_records s0) (vb_secret_ref b) = Inr i"
    and v: "with_field (vb_secret_ref b) (vb_field b) (\<lambda>bytes. bytes) s = (Inr v, s1)"
    and r: "new_resolved_binding env (display_secret_id env i) (field_str (vb_field b)) v = Inr r"
    and rest: "resolve_for_ids env (list_records s0) rest s1 = (Inr rs', s')" "rs = r # rs'"
    by (auto simp: bi split: sum.splits prod.splits if_splits)
  obtain k where k: "find_record_index (session_records s0) (vb_secret_ref b) = Inr k" "sr_id (session_records s0 ! k) = i"
    using metadata_id_Inr [OF md] by blast
  have "\<exists>f \<in> set (sr_fields (session_records s0 ! k)). sf_name f = vb_field b \<and> sf_value f = v"
    using with_field_value(2) [OF v] k(1) Cons.prems(2) by simp
  with k find_record_index_Inr [OF k(1)] have "denotes s0 b i v"
    by (auto simp: denotes_def intro!: bexI [of _ "session_records s0 ! k"])
  moreover have "rb_secret_id r = i" "rb_field r = vb_field b" "rb_value r = v"
    using r assms
    by (cases i; cases "vb_field b"; auto simp: new_resolved_binding_def result_simps parse_secret_id_def text_laws_def
        parse_field_name_def split: if_splits option.splits)+
  moreover have "session_payload s1 = session_payload s0"
    using with_field_value(1) [OF v] Cons.prems(2) by simp
  ultimately show ?case
    using Cons.IH [OF rest(1)] rest(2) bi by simp
qed auto

definition covered :: "approval_secret list \<Rightarrow> secret_id \<Rightarrow> str \<Rightarrow> bool" where
  "covered requested i fld = (\<exists>a \<in> set requested. as_id a = i \<and> fld \<in> set (as_fields a))"

lemma covered_merge:
  "covered (merge_request m fld requested) i f \<longleftrightarrow> covered requested i f \<or> (i = smd_id m \<and> f = fld)"
proof (cases "\<exists>item \<in> set requested. as_id item = smd_id m")
  case True
  let ?g = "\<lambda>item. if as_id item = smd_id m \<and> fld \<notin> set (as_fields item)
     then \<lparr>as_id = smd_id m, as_name = smd_name m, as_fields = as_fields item @ [fld]\<rparr> else item"
  have g: "as_id (?g item) = as_id item"
    "f \<in> set (as_fields (?g item)) \<longleftrightarrow> f \<in> set (as_fields item) \<or> (as_id item = smd_id m \<and> f = fld)" for item :: approval_secret
    by auto
  have "merge_request m fld requested = map ?g requested"
    using True by (simp add: merge_request_def list_ex_iff)
  then have "covered (merge_request m fld requested) i f \<longleftrightarrow>
      (\<exists>item \<in> set requested. as_id (?g item) = i \<and> f \<in> set (as_fields (?g item)))"
    by (simp only: covered_def set_map bex_simps(7))
  also have "\<dots> \<longleftrightarrow> covered requested i f \<or> (i = smd_id m \<and> f = fld)"
    unfolding g using True by (auto simp only: covered_def)
  finally show ?thesis .
next
  case False
  then show ?thesis by (auto simp: covered_def merge_request_def list_ex_iff)
qed

lemma plan_secrets_covers:
  "plan_secrets metadata bis requested = Inr requested' \<Longrightarrow>
     covered requested' i f \<longleftrightarrow> covered requested i f \<or> (\<exists>b. (b, i) \<in> set bis \<and> f = field_str (vb_field b))"
proof (induction metadata bis requested rule: plan_secrets.induct)
  case (2 metadata b j rest requested)
  from "2.prems" obtain m where m: "List.find (\<lambda>m. smd_id m = j) metadata = Some m"
    "plan_secrets metadata rest (merge_request m (field_str (vb_field b)) requested) = Inr requested'"
    "list_ex (\<lambda>name. name = field_str (vb_field b)) (smd_field_names m)"
    by (auto simp: result_simps Let_def split: if_splits)
  then have "smd_id m = j" by (auto simp: find_Some_iff)
  moreover from "2.IH" [OF _ refl _ m(2)] m(1,3) have
    "covered requested' i f \<longleftrightarrow> covered (merge_request m (field_str (vb_field b)) requested) i f \<or>
      (\<exists>b. (b, i) \<in> set rest \<and> f = field_str (vb_field b))"
    by simp
  ultimately show ?case by (auto simp: covered_merge)
qed simp

lemma resolved_bindings_approved:
  assumes "text_laws (lb_env libs)" and plan: "make_approval_plan bindings vc = Inr plan"
    and resolve: "resolve_bindings_for_ids libs now bindings (pl_binding_secret_ids plan) vc' = (Inr rs, vc'')"
  shows "\<exists>s since. vc_state vc' = ManagedUnlocked s since \<and> length rs = length bindings \<and>
     (\<forall>k < length bindings. rb_secret_id (rs ! k) = pl_binding_secret_ids plan ! k \<and>
        rb_field (rs ! k) = vb_field (bindings ! k) \<and>
        denotes s (bindings ! k) (rb_secret_id (rs ! k)) (rb_value (rs ! k))) \<and>
     (\<forall>i f. covered (pl_secrets plan) i f =
        (\<exists>k < length bindings. i = pl_binding_secret_ids plan ! k \<and> f = field_str (vb_field (bindings ! k))))"
proof -
  from plan obtain s0 t0 where p: "plan_secrets (list_records s0) (zip bindings (pl_binding_secret_ids plan)) [] = Inr (pl_secrets plan)"
    by (cases "vc_state vc") (auto simp: make_approval_plan_def result_simps)
  from resolve obtain s since s' where s: "vc_state vc' = ManagedUnlocked s since"
    and len: "length bindings = length (pl_binding_secret_ids plan)"
    and r: "resolve_for_ids (lb_env libs) (list_records s) (zip bindings (pl_binding_secret_ids plan)) s = (Inr rs, s')"
    by (auto simp: resolve_bindings_for_ids_def split: if_splits managed_vault.splits prod.splits)
  have all: "list_all2 (\<lambda>(b, i) r. rb_secret_id r = i \<and> rb_field r = vb_field b \<and> denotes s b i (rb_value r))
      (zip bindings (pl_binding_secret_ids plan)) rs"
    by (rule resolve_for_ids_denotes [OF assms(1) r refl])
  have "covered (pl_secrets plan) i f =
      (\<exists>k < length bindings. i = pl_binding_secret_ids plan ! k \<and> f = field_str (vb_field (bindings ! k)))" for i f
    using plan_secrets_covers [OF p, of i f] len by (auto simp: covered_def in_set_zip)
  then show ?thesis
    using all s len by (intro exI [of _ s] exI [of _ since]) (auto simp: list_all2_conv_all_nth)
qed

text \<open>C5: The values resolved for a run are exactly those that the approval named, even when the
  vault changed in between: the request for approval lists the identifier and field of every binding
  and nothing else, and if the bindings then resolve for these identifiers, each value is the present
  value of that field in the record with that identifier, which the binding's reference still
  denotes.\<close>

theorem resolved_values_approved:
  assumes "text_laws (lb_env libs)" and plan: "make_approval_plan bindings vc = Inr plan"
    and resolve: "resolve_bindings_for_ids libs now bindings (pl_binding_secret_ids plan) vc' = (Inr rs, vc'')"
  shows "\<exists>s since. vc_state vc' = ManagedUnlocked s since \<and> length rs = length bindings \<and>
     (\<forall>k < length bindings. rb_secret_id (rs ! k) = pl_binding_secret_ids plan ! k \<and>
        rb_field (rs ! k) = vb_field (bindings ! k) \<and>
        denotes s (bindings ! k) (rb_secret_id (rs ! k)) (rb_value (rs ! k))) \<and>
     (\<forall>i f. covered (pl_secrets plan) i f =
        (\<exists>k < length bindings. i = pl_binding_secret_ids plan ! k \<and> f = field_str (vb_field (bindings ! k))))"
  by (rule resolved_bindings_approved [OF assms])

section \<open>Changes and the disk\<close>

datatype controller_change =
    AddChange uuid add_secret_draft
  | DeleteChange secret_id
  | UpdateChange prepared_replacement

fun exec_change ::
    "'r libs \<Rightarrow> commit_io \<Rightarrow> instant \<Rightarrow> controller_change \<Rightarrow> vault_controller \<Rightarrow> 'r world \<Rightarrow>
       unit res \<times> vault_controller \<times> 'r world" where
  "exec_change libs io now (AddChange fresh draft) vc w =
     (case add_secret libs io now fresh draft vc w of
        (res, draft', vc', w') \<Rightarrow> (and_then res (\<lambda>_. Inr ()), vc', w'))"
| "exec_change libs io now (DeleteChange i) vc w = delete_secret libs io now i vc w"
| "exec_change libs io now (UpdateChange update) vc w = apply_secret_update libs io now update vc w"

text \<open>What a change of the vault may lead to.\<close>

definition durable ::
    "'r libs \<Rightarrow> byte list \<Rightarrow> vault_session \<Rightarrow> 'r world \<Rightarrow> unit res \<times> vault_controller \<times> 'r world \<Rightarrow> bool" where
  "durable libs passphrase s w = (\<lambda>(res, vc', w').
     case res of
       Inr _ \<Rightarrow> \<exists>s' since'. vc_state vc' = ManagedUnlocked s' since' \<and>
         unat (session_revision s') = Suc (unat (session_revision s)) \<and>
         (payload_wf (lb_env libs) (lb_cbor libs) (session_payload s') \<longrightarrow>
            open_vault (lb_env libs) (lb_cbor libs) (lb_ciphers libs) (vc_store vc') passphrase IoOk IoOk (w_disk w') =
              Inr (OpenPrimary (vss_vault s') None))
     | Inl e \<Rightarrow> (vc_state vc' = ManagedLocked \<and> vc_session_id vc' = None) \<or>
         (w' = w \<and> (\<exists>s' since'. vc_state vc' = ManagedUnlocked s' since' \<and> session_payload s' = session_payload s)))"

definition managed_io :: "path \<Rightarrow> (uuid \<Rightarrow> str) \<Rightarrow> uuid \<Rightarrow> uuid \<Rightarrow> commit_io \<Rightarrow> bool" where
  "managed_io primary as_simple u1 u2 io =
     (ci_first io = candidate_path as_simple u1 (new_vault_store primary) \<and>
      ci_second io = candidate_path as_simple u2 (new_vault_store primary) \<and> length (ci_steps io) = 8)"

lemma commit_to_commit:
  "commit_to cb c fill store first second ios io1 io2 s r d = commit cb c fill store first second ios io1 io2 (vss_vault s) r d"
  by (simp add: commit_to_def commit_def session_seal_def)

lemma persist_durable:
  assumes L: "cbor_laws (lb_cbor libs)" "cipher_laws (lb_ciphers libs)" "random_laws (lb_fill libs)"
    and o: "opens_with (lb_cbor libs) (lb_ciphers libs) passphrase (uv_key_material (vss_vault s'))"
    and io: "vc_store vc = new_vault_store primary" "managed_io primary as_simple u1 u2 io"
    and rev: "unat (session_revision s') = Suc (unat (session_revision s))"
  shows "durable libs passphrase s w (persist libs io s' since () vc w)"
proof (cases "commit_session libs io (vc_store vc) s' w")
  case (Pair res w')
  show ?thesis
  proof (cases res)
    case (Inl e)
    then show ?thesis by (simp add: persist_def Pair durable_def)
  next
    case (Inr u)
    with Pair have cm: "commit (lb_cbor libs) (lb_ciphers libs) (lb_fill libs) (new_vault_store primary) (ci_first io) (ci_second io)
        (ci_steps io) (ci_remove_first io) (ci_remove_second io) (vss_vault s') (w_random w) (w_disk w) =
        (Inr (), w_random w', w_disk w')"
      by (auto simp: commit_session_def io(1) commit_to_commit split: prod.splits)
    have "open_vault (lb_env libs) (lb_cbor libs) (lb_ciphers libs) (new_vault_store primary) passphrase IoOk IoOk (w_disk w') =
        Inr (OpenPrimary (vss_vault s') None)" if "payload_wf (lb_env libs) (lb_cbor libs) (session_payload s')"
      using commit_opens [OF L o that refl _ _ cm] io(2) by (simp add: managed_io_def)
    moreover have "persist libs io s' since () vc w = (Inr (), with_session s' since vc, w')"
      using Pair Inr by (simp add: persist_def)
    ultimately show ?thesis
      using rev io(1) by (simp add: durable_def with_session_def)
  qed
qed

text \<open>An operation of the session that fails leaves it alone; one that succeeds takes the next revision and
  keeps the keys.\<close>

definition changed :: "vault_session \<Rightarrow> 'a res \<times> vault_session \<Rightarrow> bool" where
  "changed s m =
     ((\<exists>e. fst m = Inl e \<and> snd m = s) \<or>
      ((\<exists>x. fst m = Inr x) \<and> unat (session_revision (snd m)) = Suc (unat (session_revision s)) \<and>
       uv_key_material (vss_vault (snd m)) = uv_key_material (vss_vault s)))"

lemma changed_fails [simp]: "changed s (Inl e, s)"
  by (simp add: changed_def)

lemma changed_mutate [simp]: "changed s (mutate f s)"
  by (rule mutate_cases [of f s]) (auto simp: changed_def)

lemma changed_delete: "changed s (delete reference s)"
  by (auto simp: delete_def split: sum.split)

lemma changed_apply: "changed s (apply_record_replacement update s)"
  by (auto simp: apply_record_replacement_def split: sum.split)

lemma changed_add: "changed s (add env fresh name flds s)"
proof -
  have "changed s (case mutate f s of (Inl e, s') \<Rightarrow> (Inl e, s') | (Inr _, s') \<Rightarrow> (Inr x, s'))" for f and x :: secret_id
    using changed_mutate [of s f] by (cases "mutate f s"; cases "fst (mutate f s)") (auto simp: changed_def)
  then show ?thesis by (auto simp: add_def split: sum.split)
qed

lemma changed_durable:
  assumes L: "cbor_laws (lb_cbor libs)" "cipher_laws (lb_ciphers libs)" "random_laws (lb_fill libs)"
    and o: "opens_with (lb_cbor libs) (lb_ciphers libs) passphrase (uv_key_material (vss_vault s))"
    and io: "vc_store vc = new_vault_store primary" "managed_io primary as_simple u1 u2 io"
    and ch: "changed s m"
  shows "durable libs passphrase s w
      (case m of (Inl e, s') \<Rightarrow> (Inl e, with_session s' (touched now s s' since) vc, w)
       | (Inr _, s') \<Rightarrow> persist libs io s' (touched now s s' since) () vc w)"
proof (cases "fst m")
  case (Inl e)
  then have "m = (Inl e, s)" using ch by (cases m) (auto simp: changed_def)
  then show ?thesis by (simp add: durable_def with_session_def)
next
  case (Inr u)
  then have m: "m = (Inr u, snd m)" "unat (session_revision (snd m)) = Suc (unat (session_revision s))"
    "uv_key_material (vss_vault (snd m)) = uv_key_material (vss_vault s)"
    using ch by (cases m; auto simp: changed_def)+
  have "durable libs passphrase s w (persist libs io (snd m) (touched now s (snd m) since) () vc w)"
    by (rule persist_durable [OF L _ io]) (use m o in simp_all)
  then show ?thesis by (subst m(1)) simp
qed


text \<open>The two choices of the recovery phase replace the state before they look at it: called in another phase they
  report an error and yet drop an unlocked vault while its session identifier stays, or
  turn a first run without any vault into a locked one that can no longer be created.\<close>

lemma recovery_choice_drops_state:
  "vc_state vc = ManagedUnlocked s since \<Longrightarrow>
     restore_backup libs io now fresh vc w = (Inl InvalidRequest, vc\<lparr>vc_state := ManagedLocked\<rparr>, w)"
  "vc_state vc = ManagedUnlocked s since \<Longrightarrow>
     continue_with_primary now fresh vc = (Inl InvalidRequest, vc\<lparr>vc_state := ManagedLocked\<rparr>)"
  "vc_state vc = ManagedFirstRun \<Longrightarrow>
     fst (create libs io parent now v i passphrase confirmation (snd (continue_with_primary now fresh vc)) w) = Inl InvalidRequest"
  by (simp_all add: restore_backup_def continue_with_primary_def create_def phase_def)

section \<open>A controller for evaluation\<close>

definition demo_libs :: "byte libs" where
  "demo_libs = \<lparr>lb_env = plain_env, lb_cbor = ref_cbor, lb_ciphers = toy_ciphers, lb_fill = toy_fill\<rparr>"

definition demo_binding :: validated_secret_binding where
  "demo_binding = \<lparr>vb_secret_ref = RefName (SecretName [0x63]), vb_field = FieldName [0x62], vb_target = ValidatedStandardInput\<rparr>"

definition demo_open :: "unlocked_vault \<Rightarrow> vault_controller" where
  "demo_open uv = \<lparr>vc_store = new_vault_store ([], [0x76]), vc_state = ManagedUnlocked (new_vault_session uv) 0,
     vc_session_id = Some 1\<rparr>"

definition demo_uv :: unlocked_vault where
  "demo_uv = \<lparr>uv_payload = (payload_at 7)\<lparr>vp_records := [demo_record]\<rparr>, uv_key_material = \<lparr>km_prefix = [], km_dek = []\<rparr>\<rparr>"

lemma demo_plan:
  "make_approval_plan [demo_binding] (demo_open demo_uv) =
     Inr \<lparr>pl_vault_session_id = 1, pl_secrets = [\<lparr>as_id = SecretId 5, as_name = [0x63], as_fields = [[0x62]]\<rparr>],
          pl_binding_secret_ids = [SecretId 5]\<rparr>"
  by (simp add: make_approval_plan_def binding_secret_ids_def metadata_id_def demo_open_def demo_uv_def demo_binding_def
      list_records_def new_vault_session_def payload_at_def demo_record_def demo_field_def merge_request_def)

lemma demo_resolve:
  "\<exists>vc'. resolve_bindings_for_ids demo_libs 3 [demo_binding] [SecretId 5] (demo_open demo_uv) =
     (Inr [\<lparr>rb_secret_id = SecretId 5, rb_field = FieldName [0x62], rb_value = [9]\<rparr>], vc')"
proof -
  have "parse_uuid plain_env (show_uuid plain_env 5) = Some 5"
    using plain_env_laws by (simp add: text_laws_def)
  then show ?thesis
    by (simp add: resolve_bindings_for_ids_def metadata_id_def demo_open_def demo_uv_def demo_binding_def demo_libs_def
      list_records_def new_vault_session_def payload_at_def demo_record_def demo_field_def with_field_def find_record_index_def
      new_resolved_binding_def parse_secret_id_def parse_field_name_def valid_field_name_def is_ascii_alphabetic_def)
qed

theorem resolved_values_approved_witness:
  "\<exists>s since rs vc'. vc_state (demo_open demo_uv) = ManagedUnlocked s since \<and>
     resolve_bindings_for_ids demo_libs 3 [demo_binding] [SecretId 5] (demo_open demo_uv) = (Inr rs, vc') \<and>
     denotes s demo_binding (SecretId 5) (rb_value (rs ! 0))"
proof -
  obtain rs vc' where r: "resolve_bindings_for_ids demo_libs 3 [demo_binding] [SecretId 5] (demo_open demo_uv) = (Inr rs, vc')"
    using demo_resolve by blast
  have "text_laws (lb_env demo_libs)" using plain_env_laws by (simp add: demo_libs_def)
  from resolved_values_approved [OF this demo_plan, of 3 "demo_open demo_uv" rs vc'] r show ?thesis
    by (simp, metis lessI)
qed

definition demo_io :: commit_io where
  "demo_io = \<lparr>ci_first = candidate_path demo_simple 1 (new_vault_store ([], [0x76])),
     ci_second = candidate_path demo_simple 2 (new_vault_store ([], [0x76])), ci_steps = all_ok,
     ci_remove_first = IoOk, ci_remove_second = IoOk\<rparr>"


end
