(* ===== verification/Ladon_Detail.thy ===== *)
theory Ladon_Detail
  imports Ladon_Editor Ladon_Approval
begin

text \<open>
  What the window shows: the pending request of an agent, and the detail view of a secret (\<open>SecretDetailState\<close> of \<open>crates/ladon-app/src/ui.rs\<close>): values are shown or
  edited only after a local authentication for the present selection.

  The selection epoch is a \<open>u64\<close> that wraps around. \<open>mode_mut\<close>, through which the widgets edit the
  draft in place, is \<open>edit_draft\<close>: it may change the name and the fields of the draft, not the
  mode or the identifier.
\<close>

datatype detail_mode =
    DetailHidden
  | DetailRevealed edit_secret_draft
  | DetailEditing edit_secret_draft bool

datatype navigation_target = NavAdd | NavSessions | NavSecret secret_id | NavClose

datatype navigation_result = NavApplied | NavConfirmDiscard

record local_auth_attempt =
  la_vault_session_id :: uuid
  la_secret_id :: secret_id
  la_selection_epoch :: u64

datatype detail_state_error = NotAuthorized | DraftDoesNotMatchSelection

record secret_detail_state =
  dt_navigation_target :: navigation_target
  dt_selected :: "secret_id option"
  dt_authorized :: "local_auth_attempt option"
  dt_selection_epoch :: u64
  dt_mode :: detail_mode
  dt_pending_navigation :: "navigation_target option"

definition default_detail_state :: secret_detail_state where
  "default_detail_state =
     \<lparr>dt_navigation_target = NavAdd, dt_selected = None, dt_authorized = None, dt_selection_epoch = 0,
      dt_mode = DetailHidden, dt_pending_navigation = None\<rparr>"

definition is_editing :: "secret_detail_state \<Rightarrow> bool" where
  "is_editing d = (case dt_mode d of DetailEditing _ _ \<Rightarrow> True | _ \<Rightarrow> False)"

definition has_sensitive_buffer :: "secret_detail_state \<Rightarrow> bool" where
  "has_sensitive_buffer d = (dt_mode d \<noteq> DetailHidden)"

definition authorization_for_current_selection :: "uuid \<Rightarrow> secret_detail_state \<Rightarrow> local_auth_attempt option" where
  "authorization_for_current_selection vault d =
     Option.bind (dt_authorized d) (\<lambda>a.
       if la_vault_session_id a = vault \<and> dt_selected d = Some (la_secret_id a)
          \<and> dt_selection_epoch d = la_selection_epoch a
       then Some a else None)"

definition is_authorized :: "uuid \<Rightarrow> secret_detail_state \<Rightarrow> bool" where
  "is_authorized vault d = (authorization_for_current_selection vault d \<noteq> None)"

definition authentication_attempt :: "uuid \<Rightarrow> secret_detail_state \<Rightarrow> local_auth_attempt option" where
  "authentication_attempt vault d =
     map_option (\<lambda>i. \<lparr>la_vault_session_id = vault, la_secret_id = i, la_selection_epoch = dt_selection_epoch d\<rparr>)
       (dt_selected d)"

definition accept_authentication ::
    "local_auth_attempt \<Rightarrow> uuid \<Rightarrow> secret_detail_state \<Rightarrow> bool \<times> secret_detail_state" where
  "accept_authentication attempt vault d =
     (if authentication_attempt vault d \<noteq> Some attempt then (False, d)
      else (True, d\<lparr>dt_authorized := Some attempt\<rparr>))"

definition drop_sensitive_mode :: "secret_detail_state \<Rightarrow> secret_detail_state" where
  "drop_sensitive_mode d = d\<lparr>dt_mode := DetailHidden\<rparr>"

definition begin_with_draft ::
    "uuid \<Rightarrow> edit_secret_draft \<Rightarrow> bool \<Rightarrow> secret_detail_state \<Rightarrow> (detail_state_error + unit) \<times> secret_detail_state" where
  "begin_with_draft vault draft editing d =
     (case dt_selected d of
        None \<Rightarrow> (Inl DraftDoesNotMatchSelection, d)
      | Some selected \<Rightarrow>
          if ed_id draft \<noteq> selected then (Inl DraftDoesNotMatchSelection, d)
          else if authorization_for_current_selection vault d = None then (Inl NotAuthorized, d)
          else (Inr (), (drop_sensitive_mode d)\<lparr>dt_mode :=
            (if editing then DetailEditing draft False else DetailRevealed draft)\<rparr>))"

definition begin_reveal where
  "begin_reveal vault draft d = begin_with_draft vault draft False d"

definition begin_edit where
  "begin_edit vault draft d = begin_with_draft vault draft True d"

definition mark_dirty :: "secret_detail_state \<Rightarrow> secret_detail_state" where
  "mark_dirty d = (case dt_mode d of DetailEditing draft _ \<Rightarrow> d\<lparr>dt_mode := DetailEditing draft True\<rparr> | _ \<Rightarrow> d)"

definition hide_values :: "secret_detail_state \<Rightarrow> secret_detail_state" where
  "hide_values d = drop_sensitive_mode d"

definition finish_save :: "secret_detail_state \<Rightarrow> secret_detail_state" where
  "finish_save d = drop_sensitive_mode d"

definition edit_draft :: "str \<Rightarrow> editable_field list \<Rightarrow> secret_detail_state \<Rightarrow> secret_detail_state" where
  "edit_draft name flds d =
     (case dt_mode d of
        DetailEditing draft dirty \<Rightarrow> d\<lparr>dt_mode := DetailEditing (draft\<lparr>ed_name := name, ed_fields := flds\<rparr>) dirty\<rparr>
      | _ \<Rightarrow> d)"

definition navigate_now :: "navigation_target \<Rightarrow> secret_detail_state \<Rightarrow> secret_detail_state" where
  "navigate_now target d =
     (drop_sensitive_mode d)\<lparr>dt_authorized := None, dt_navigation_target := target,
        dt_selected := (case target of NavSecret i \<Rightarrow> Some i | _ \<Rightarrow> None),
        dt_pending_navigation := None, dt_selection_epoch := dt_selection_epoch d + 1\<rparr>"

definition request_navigation ::
    "navigation_target \<Rightarrow> secret_detail_state \<Rightarrow> navigation_result \<times> secret_detail_state" where
  "request_navigation target d =
     (case dt_mode d of
        DetailEditing _ True \<Rightarrow> (NavConfirmDiscard, d\<lparr>dt_pending_navigation := Some target\<rparr>)
      | _ \<Rightarrow> (NavApplied, navigate_now target d))"

definition cancel_pending_navigation :: "secret_detail_state \<Rightarrow> secret_detail_state" where
  "cancel_pending_navigation d = d\<lparr>dt_pending_navigation := None\<rparr>"

definition discard_pending_navigation :: "secret_detail_state \<Rightarrow> navigation_result \<times> secret_detail_state" where
  "discard_pending_navigation d =
     (NavApplied, case dt_pending_navigation d of
        Some target \<Rightarrow> navigate_now target (d\<lparr>dt_pending_navigation := None\<rparr>)
      | None \<Rightarrow> d)"

definition clear_for_vault_lock :: "secret_detail_state \<Rightarrow> secret_detail_state" where
  "clear_for_vault_lock d =
     (drop_sensitive_mode d)\<lparr>dt_selected := None, dt_navigation_target := NavAdd, dt_authorized := None,
        dt_pending_navigation := None, dt_selection_epoch := dt_selection_epoch d + 1\<rparr>"

definition clear_for_close :: "secret_detail_state \<Rightarrow> secret_detail_state" where
  "clear_for_close d = clear_for_vault_lock d"

section \<open>Properties\<close>

datatype detail_op =
    AcceptOp local_auth_attempt uuid
  | RevealOp uuid edit_secret_draft
  | EditOp uuid edit_secret_draft
  | DraftOp str "editable_field list"
  | DirtyOp | HideOp | SavedOp
  | RequestOp navigation_target
  | CancelNavOp | DiscardNavOp
  | VaultLockOp | CloseOp

primrec exec_detail :: "detail_op \<Rightarrow> secret_detail_state \<Rightarrow> secret_detail_state" where
  "exec_detail (AcceptOp a vault) d = snd (accept_authentication a vault d)"
| "exec_detail (RevealOp vault draft) d = snd (begin_reveal vault draft d)"
| "exec_detail (EditOp vault draft) d = snd (begin_edit vault draft d)"
| "exec_detail (DraftOp name flds) d = edit_draft name flds d"
| "exec_detail DirtyOp d = mark_dirty d"
| "exec_detail HideOp d = hide_values d"
| "exec_detail SavedOp d = finish_save d"
| "exec_detail (RequestOp target) d = snd (request_navigation target d)"
| "exec_detail CancelNavOp d = cancel_pending_navigation d"
| "exec_detail DiscardNavOp d = snd (discard_pending_navigation d)"
| "exec_detail VaultLockOp d = clear_for_vault_lock d"
| "exec_detail CloseOp d = clear_for_close d"

definition shown_draft :: "detail_mode \<Rightarrow> edit_secret_draft option" where
  "shown_draft m = (case m of DetailHidden \<Rightarrow> None | DetailRevealed draft \<Rightarrow> Some draft | DetailEditing draft _ \<Rightarrow> Some draft)"

text \<open>What an authentication is for, and what is shown, is the present selection.\<close>

definition detail_inv :: "secret_detail_state \<Rightarrow> bool" where
  "detail_inv d =
     ((\<forall>a. dt_authorized d = Some a \<longrightarrow>
         dt_selected d = Some (la_secret_id a) \<and> la_selection_epoch a = dt_selection_epoch d) \<and>
      (\<forall>draft. shown_draft (dt_mode d) = Some draft \<longrightarrow>
         dt_authorized d \<noteq> None \<and> dt_selected d = Some (ed_id draft)))"

lemmas detail_defs = accept_authentication_def begin_reveal_def begin_edit_def begin_with_draft_def edit_draft_def
  mark_dirty_def hide_values_def finish_save_def request_navigation_def navigate_now_def cancel_pending_navigation_def
  discard_pending_navigation_def clear_for_vault_lock_def clear_for_close_def drop_sensitive_mode_def
  authentication_attempt_def authorization_for_current_selection_def

lemma exec_detail_inv: "detail_inv d \<Longrightarrow> detail_inv (exec_detail op d)"
  by (cases op; cases "dt_mode d")
    (auto simp: detail_inv_def detail_defs shown_draft_def split: option.splits if_splits bool.splits navigation_target.splits Option.bind_splits)

interpretation detail: op_machine exec_detail "\<lambda>d. d = default_detail_state" detail_inv
proof
  show "detail_inv d" if "d = default_detail_state" for d
    using that by (simp add: detail_inv_def default_detail_state_def shown_draft_def)
qed (rule exec_detail_inv)

text \<open>How often the selection changed: an attempt made before is accepted again only after the epoch has
  wrapped around.\<close>

definition leaves :: "detail_op \<Rightarrow> secret_detail_state \<Rightarrow> bool" where
  "leaves op d = (dt_selection_epoch (exec_detail op d) \<noteq> dt_selection_epoch d)"

fun departures :: "detail_op list \<Rightarrow> secret_detail_state \<Rightarrow> nat" where
  "departures [] d = 0"
| "departures (op # ops) d = (if leaves op d then 1 else 0) + departures ops (exec_detail op d)"

lemma epoch_step:
  "dt_selection_epoch (exec_detail op d) = dt_selection_epoch d + (if leaves op d then 1 else 0)"
  by (cases op; cases "dt_mode d")
    (auto simp: leaves_def detail_defs split: option.splits if_splits bool.splits)

lemma epoch_run: "dt_selection_epoch (fold exec_detail ops d) = dt_selection_epoch d + of_nat (departures ops d)"
  by (induction ops arbitrary: d) (simp_all add: epoch_step)


definition demo_attempt :: local_auth_attempt where
  "demo_attempt = \<lparr>la_vault_session_id = 1, la_secret_id = SecretId 5, la_selection_epoch = 1\<rparr>"

definition demo_shown :: secret_detail_state where
  "demo_shown = fold exec_detail
     [RequestOp (NavSecret (SecretId 5)), AcceptOp demo_attempt 1,
      RevealOp 1 \<lparr>ed_id = SecretId 5, ed_name = [], ed_fields = []\<rparr>] default_detail_state"


section \<open>The view of a pending request\<close>

record pending_request_view =
  rv_client_label :: str
  rv_secrets :: "(str \<times> str list) list"
  rv_executable :: str
  rv_arguments :: "str list"
  rv_working_directory :: str
  rv_timeout :: duration

definition new_request_view :: "str \<Rightarrow> str \<Rightarrow> str list \<Rightarrow> str \<Rightarrow> duration \<Rightarrow> pending_request_view" where
  "new_request_view client_label executable arguments working_directory timeout =
     \<lparr>rv_client_label = sanitize_untrusted client_label, rv_secrets = [], rv_executable = sanitize_untrusted executable,
      rv_arguments = map sanitize_untrusted arguments, rv_working_directory = sanitize_untrusted working_directory,
      rv_timeout = timeout\<rparr>"

definition view_from_approval :: "pending_approval \<Rightarrow> duration \<Rightarrow> pending_request_view" where
  "view_from_approval approval timeout =
     (new_request_view (pa_label approval) (pa_executable approval) (pa_arguments approval)
        (pa_working_directory approval) timeout)
     \<lparr>rv_secrets := map (\<lambda>secret. (sanitize_untrusted (as_name secret), map sanitize_untrusted (as_fields secret)))
        (pa_secrets approval)\<rparr>"

text \<open>Every text the user decides on.\<close>

definition view_texts :: "pending_request_view \<Rightarrow> str set" where
  "view_texts v = {rv_client_label v, rv_executable v, rv_working_directory v} \<union> set (rv_arguments v) \<union>
     (\<Union>(name, fields) \<in> set (rv_secrets v). insert name (set fields))"

definition approval_texts :: "pending_approval \<Rightarrow> str set" where
  "approval_texts a = {pa_label a, pa_executable a, pa_working_directory a} \<union> set (pa_arguments a) \<union>
     (\<Union>s \<in> set (pa_secrets a). insert (as_name s) (set (as_fields s)))"

text \<open>The user sees exactly the texts of the request, and none of them has a character that controls or
  reorders the display.\<close>

lemma request_view_safe:
  assumes "\<forall>s \<in> approval_texts approval. valid_utf8 s"
  shows "view_texts (view_from_approval approval timeout) = sanitize_untrusted ` approval_texts approval"
    and "\<forall>s \<in> view_texts (view_from_approval approval timeout). \<forall>c \<in> set (chars s). \<not> is_unsafe_character c"
proof -
  show eq: "view_texts (view_from_approval approval timeout) = sanitize_untrusted ` approval_texts approval"
    by (auto simp: view_texts_def view_from_approval_def new_request_view_def approval_texts_def)
  show "\<forall>s \<in> view_texts (view_from_approval approval timeout). \<forall>c \<in> set (chars s). \<not> is_unsafe_character c"
    unfolding eq using assms sanitized_text_safe by blast
qed

end
