(* ===== verification/Ladon_Supervisor.thy ===== *)
theory Ladon_Supervisor
  imports Ladon_Runner Ladon_Broker
begin

unbundle bit_operations_syntax

text \<open>
  The supervisor of a run (\<open>crates/ladon-app/src/supervisor.rs\<close>) on Unix: the launch gate, the private
  directory of temporary secrets, the environment of the child, the wait for the child and the end
  of its process group, and the output that is returned.

  The outcomes of system calls are inputs. \<open>child\<close> holds what the child and the kernel answer: polls
  are numbered, and every loop that sleeps asks at successive numbers. A loop without a structural
  bound is a partial function whose value is \<open>None\<close> where the loop of the code would not end.
  Threads are joined before their results are used, so a reader is a function of what it reads. The
  memory of the child, its descriptors and \<open>setrlimit\<close> are not modelled.
\<close>

section \<open>Cancellation and the launch gate\<close>

text \<open>Both operations hold the gate, so each is one step.\<close>

record run_cancellation =
  rc_cancelled :: bool

definition new_cancellation :: run_cancellation where
  "new_cancellation = \<lparr>rc_cancelled = False\<rparr>"

definition cancel :: "run_cancellation \<Rightarrow> run_cancellation" where
  "cancel c = c\<lparr>rc_cancelled := True\<rparr>"

definition launch :: "run_cancellation \<Rightarrow> 'a res \<Rightarrow> 'a res" where
  "launch c outcome = (if rc_cancelled c then Inl ApprovalCancelled else outcome)"

datatype run_termination = Exited | TimedOut | Cancelled

record run_result =
  ru_exit_code :: "int option"
  ru_termination :: run_termination
  ru_stdout :: str
  ru_stderr :: str
  ru_duration :: duration
  ru_redaction_count :: nat
  ru_output_truncated :: bool
  ru_omitted_bytes :: nat
  ru_output_suppressed :: bool
  ru_temp_cleanup_warning :: bool

text \<open>The running flag: \<open>compare_exchange\<close> on entry, reset by the guard on every way out.\<close>

record supervisor =
  sv_running :: bool

definition new_supervisor :: supervisor where
  "new_supervisor = \<lparr>sv_running = False\<rparr>"

definition acquire_run :: "supervisor \<Rightarrow> unit res \<times> supervisor" where
  "acquire_run s = (if sv_running s then (Inl Busy, s) else (Inr (), s\<lparr>sv_running := True\<rparr>))"

definition release_run :: "supervisor \<Rightarrow> supervisor" where
  "release_run s = s\<lparr>sv_running := False\<rparr>"

section \<open>The file system\<close>

record file_metadata =
  fm_is_file :: bool
  fm_is_dir :: bool
  fm_mode :: u32
  fm_uid :: u32
  fm_len :: nat

record host =
  ho_metadata :: "str \<Rightarrow> file_metadata option"
  ho_var :: "str \<Rightarrow> str option"
  ho_temp_dir :: str
  ho_euid :: u32

definition validate_filesystem :: "host \<Rightarrow> validated_run_request \<Rightarrow> unit res" where
  "validate_filesystem host run =
     (case ho_metadata host (vr_executable run) of
        None \<Rightarrow> Inl InvalidExecutablePath
      | Some metadata \<Rightarrow>
          if \<not> fm_is_file metadata then Inl InvalidExecutablePath
          else if fm_mode metadata AND 0x49 = 0 then Inl InvalidExecutablePath
          else (case ho_metadata host (vr_working_directory run) of
                  Some directory \<Rightarrow> if fm_is_dir directory then Inr () else Inl InvalidWorkingDirectory
                | None \<Rightarrow> Inl InvalidWorkingDirectory))"

definition RUN_DIRECTORY_PREFIX :: str where "RUN_DIRECTORY_PREFIX = ascii ''run-''"

definition RUN_DIRECTORY_MARKER :: str where "RUN_DIRECTORY_MARKER = ascii ''.ladon-owner''"

text \<open>\<open>Path::join\<close> with a relative name.\<close>

definition path_join :: "str \<Rightarrow> str \<Rightarrow> str" where
  "path_join directory name =
     (if directory \<noteq> [] \<and> last directory \<noteq> 0x2f then directory @ [0x2f] @ name else directory @ name)"

definition validate_temporary_root_metadata :: "u32 \<Rightarrow> file_metadata \<Rightarrow> unit res" where
  "validate_temporary_root_metadata euid metadata =
     (if fm_is_dir metadata \<and> fm_uid metadata = euid \<and> fm_mode metadata AND 0x3f = 0
      then Inr () else Inl ProcessFailure)"

datatype stat_outcome = StatOk file_metadata | StatNotFound | StatFailed

datatype mkdir_outcome = MkdirOk | MkdirExists | MkdirFailed

record root_io =
  ri_first :: stat_outcome
  ri_create :: mkdir_outcome
  ri_second :: "file_metadata option"
  ri_chmod :: bool

definition prepare_temporary_root :: "u32 \<Rightarrow> root_io \<Rightarrow> unit res" where
  "prepare_temporary_root euid io =
     and_then (case ri_first io of
         StatOk metadata \<Rightarrow> validate_temporary_root_metadata euid metadata
       | StatNotFound \<Rightarrow> if ri_create io = MkdirFailed then Inl ProcessFailure else Inr ()
       | StatFailed \<Rightarrow> Inl ProcessFailure) (\<lambda>_.
     and_then (ok_or ProcessFailure (ri_second io)) (\<lambda>metadata.
     and_then (validate_temporary_root_metadata euid metadata) (\<lambda>_.
     if ri_chmod io then Inr () else Inl ProcessFailure)))"

text \<open>A private directory with the files in it; \<open>di_created\<close> is the path \<open>tempdir_in\<close> made.\<close>

record temp_directory =
  td_path :: str
  td_files :: "(str \<times> byte list) list"

record directory_io =
  di_root :: root_io
  di_created :: "str option"
  di_chmod :: bool
  di_marker :: str
  di_marker_open :: bool
  di_marker_write :: bool

definition write_run_marker :: "directory_io \<Rightarrow> temp_directory \<Rightarrow> temp_directory res" where
  "write_run_marker io directory =
     (if \<not> di_marker_open io \<or> \<not> di_marker_write io then Inl ProcessFailure
      else Inr (directory\<lparr>td_files := (path_join (td_path directory) RUN_DIRECTORY_MARKER, di_marker io) # td_files directory\<rparr>))"

definition ensure_temp_directory ::
    "u32 \<Rightarrow> directory_io \<Rightarrow> temp_directory option \<Rightarrow> temp_directory res" where
  "ensure_temp_directory euid io directory =
     (case directory of
        Some existing \<Rightarrow> Inr existing
      | None \<Rightarrow>
          and_then (prepare_temporary_root euid (di_root io)) (\<lambda>_.
          and_then (ok_or ProcessFailure (di_created io)) (\<lambda>path.
          if \<not> di_chmod io then Inl ProcessFailure
          else write_run_marker io \<lparr>td_path = path, td_files = []\<rparr>)))"

record secret_io =
  si_uuid :: str
  si_open :: bool
  si_write :: bool
  si_flush :: bool

text \<open>The file is created with \<open>create_new\<close>, which refuses a name that exists.\<close>

definition write_temporary_secret ::
    "secret_io \<Rightarrow> str option \<Rightarrow> byte list \<Rightarrow> temp_directory \<Rightarrow> (str \<times> temp_directory) res" where
  "write_temporary_secret io extension v directory =
     (let path = path_join (td_path directory)
            (ascii ''secret-'' @ si_uuid io @ (case extension of Some e \<Rightarrow> e | None \<Rightarrow> []))
      in if \<not> si_open io \<or> path \<in> fst ` set (td_files directory) \<or> \<not> si_write io \<or> \<not> si_flush io then Inl ProcessFailure
         else Inr (path, directory\<lparr>td_files := (path, v) # td_files directory\<rparr>))"

section \<open>Stale directories\<close>

record stale_entry =
  se_name :: str
  se_metadata :: "file_metadata option"
  se_marker :: "file_metadata option"
  se_content :: "str option"
  se_remove :: bool

definition MARKER_BYTES :: nat where "MARKER_BYTES = 36"

text \<open>Whether an entry is skipped.\<close>

definition skip_stale :: "text_env \<Rightarrow> u32 \<Rightarrow> file_metadata \<Rightarrow> stale_entry \<Rightarrow> bool" where
  "skip_stale env euid metadata entry =
     (\<not> fm_is_dir metadata \<or> fm_uid metadata \<noteq> euid \<or>
      (case se_marker entry of
         None \<Rightarrow> True
       | Some marker \<Rightarrow>
           \<not> fm_is_file marker \<or> fm_len marker \<noteq> MARKER_BYTES \<or> fm_uid marker \<noteq> euid \<or> fm_mode marker AND 0x3f \<noteq> 0 \<or>
           (case se_content entry of None \<Rightarrow> True | Some txt \<Rightarrow> parse_uuid env txt = None)))"

text \<open>The loop over the entries of the directory; an entry that cannot be read is \<open>None\<close>. The second
  component holds the names that were removed.\<close>

fun cleanup_entries ::
    "text_env \<Rightarrow> u32 \<Rightarrow> stale_entry option list \<Rightarrow> unit res \<times> str list" where
  "cleanup_entries env euid [] = (Inr (), [])"
| "cleanup_entries env euid (None # rest) = (Inl ProcessFailure, [])"
| "cleanup_entries env euid (Some entry # rest) =
     (if \<not> starts_with RUN_DIRECTORY_PREFIX (se_name entry) then cleanup_entries env euid rest
      else case se_metadata entry of
        None \<Rightarrow> (Inl ProcessFailure, [])
      | Some metadata \<Rightarrow>
          if skip_stale env euid metadata entry then cleanup_entries env euid rest
          else if \<not> se_remove entry then (Inl ProcessFailure, [])
          else (case cleanup_entries env euid rest of (r, removed) \<Rightarrow> (r, se_name entry # removed)))"

definition cleanup_stale_temp_directories_in ::
    "text_env \<Rightarrow> u32 \<Rightarrow> root_io \<Rightarrow> stale_entry option list option \<Rightarrow> unit res \<times> str list" where
  "cleanup_stale_temp_directories_in env euid io entries =
     (case prepare_temporary_root euid io of
        Inl e \<Rightarrow> (Inl e, [])
      | Inr _ \<Rightarrow> (case entries of None \<Rightarrow> (Inl ProcessFailure, []) | Some es \<Rightarrow> cleanup_entries env euid es))"

section \<open>The command\<close>

record command =
  cm_program :: str
  cm_arguments :: "str list"
  cm_directory :: str
  cm_environment :: "str \<rightharpoonup> str"

definition command_env :: "str \<Rightarrow> str \<Rightarrow> command \<Rightarrow> command" where
  "command_env name v c = c\<lparr>cm_environment := (cm_environment c)(name \<mapsto> v)\<rparr>"

text \<open>\<open>Path::parent\<close> of an absolute path: trailing separators and \<open>.\<close> components are dropped, then the
  last component. Both functions work on the reversed path.\<close>

function trim_components :: "str \<Rightarrow> str" where
  "trim_components [] = []"
| "trim_components [b] = [b]"
| "trim_components (b # c # rest) =
     (if b = 0x2f then trim_components (c # rest)
      else if b = 0x2e \<and> c = 0x2f then trim_components (c # rest)
      else b # c # rest)"
  by pat_completeness auto
termination
  by (relation "measure length") auto

definition path_parent :: "str \<Rightarrow> str option" where
  "path_parent path =
     (let trimmed = trim_components (rev path);
          parent = dropWhile (\<lambda>b. b \<noteq> 0x2f) trimmed
      in if trimmed = [0x2f] \<or> parent = [] then None else Some (rev (trim_components parent)))"

text \<open>\<open>env::join_paths\<close>: an entry with a colon cannot be joined.\<close>

definition join_paths :: "str list \<Rightarrow> str option" where
  "join_paths entries =
     (if list_ex (\<lambda>e. 0x3a \<in> set e) entries then None
      else Some (concat (butlast (concat (map (\<lambda>e. [e, [0x3a]]) entries)))))"

definition inherited_names :: "str list" where
  "inherited_names = [ascii ''HOME'', ascii ''LANG'', ascii ''LC_ALL'', ascii ''LC_CTYPE'']"

definition apply_minimal_environment :: "host \<Rightarrow> str \<Rightarrow> command \<Rightarrow> command" where
  "apply_minimal_environment host executable c =
     (let directory = (case path_parent executable of Some p \<Rightarrow> p | None \<Rightarrow> ascii ''/'');
          c1 = (case join_paths [directory, ascii ''/usr/bin'', ascii ''/bin''] of
                  Some path \<Rightarrow> command_env (ascii ''PATH'') path c
                | None \<Rightarrow> c);
          c2 = command_env (ascii ''TMPDIR'') (ho_temp_dir host) c1
      in foldl (\<lambda>c name. case ho_var host name of Some v \<Rightarrow> command_env name v c | None \<Rightarrow> c) c2 inherited_names)"

record injection =
  in_command :: command
  in_stdin :: "byte list option"
  in_temp :: "temp_directory option"

text \<open>The loop of \<open>execute\<close> over the bindings; the injection is returned with an error too, since the
  private directory is then dropped. \<open>sios i\<close> is the outcome of the write
  for the binding at position \<open>i\<close>.\<close>

definition inject_binding ::
    "u32 \<Rightarrow> directory_io \<Rightarrow> secret_io \<Rightarrow> prepared_binding \<Rightarrow> injection \<Rightarrow> unit res \<times> injection" where
  "inject_binding euid dio sio binding st =
     (case pb_target binding of
        ValidatedEnvironment name \<Rightarrow>
          if valid_utf8 (pb_value binding) \<and> 0 \<notin> set (pb_value binding)
          then (Inr (), st\<lparr>in_command := command_env name (pb_value binding) (in_command st)\<rparr>)
          else (Inl InvalidBinding, st)
      | ValidatedStandardInput \<Rightarrow> (Inr (), st\<lparr>in_stdin := Some (pb_value binding)\<rparr>)
      | ValidatedTemporaryFile name extension \<Rightarrow>
          (case ensure_temp_directory euid dio (in_temp st) of
             Inl e \<Rightarrow> (Inl e, st)
           | Inr directory \<Rightarrow>
               (case write_temporary_secret sio extension (pb_value binding) directory of
                  Inl e \<Rightarrow> (Inl e, st\<lparr>in_temp := Some directory\<rparr>)
                | Inr (path, directory') \<Rightarrow>
                    (Inr (), st\<lparr>in_command := command_env name path (in_command st), in_temp := Some directory'\<rparr>))))"

fun inject_bindings ::
    "u32 \<Rightarrow> directory_io \<Rightarrow> (nat \<Rightarrow> secret_io) \<Rightarrow> nat \<Rightarrow> prepared_binding list \<Rightarrow> injection \<Rightarrow> unit res \<times> injection" where
  "inject_bindings euid dio sios i [] st = (Inr (), st)"
| "inject_bindings euid dio sios i (binding # rest) st =
     (case inject_binding euid dio (sios i) binding st of
        (Inl e, st') \<Rightarrow> (Inl e, st')
      | (Inr _, st') \<Rightarrow> inject_bindings euid dio sios (Suc i) rest st')"

section \<open>The child\<close>

datatype kill_outcome = KillOk | KillNoProcess | KillNotPermitted | KillFailed

datatype signal_kind = SignalTest | SignalTerm | SignalKill

datatype stdin_outcome = StdinOk | StdinBrokenPipe | StdinFailed

text \<open>\<open>ch_try_wait\<close> is \<open>None\<close> on an error; an exit status is the code, if there is one.\<close>

record child =
  ch_id :: u32
  ch_try_wait :: "nat \<Rightarrow> int option option option"
  ch_wait :: "int option option"
  ch_kill :: "nat \<Rightarrow> signal_kind \<Rightarrow> kill_outcome"
  ch_now :: "nat \<Rightarrow> nat"
  ch_cancelled :: "nat \<Rightarrow> bool"
  ch_stdout :: "byte list option list"
  ch_stderr :: "byte list option list"
  ch_stdin :: stdin_outcome
  ch_finished :: nat
  ch_close :: bool

definition TERMINATION_GRACE :: duration where "TERMINATION_GRACE = 500 * nanos_per_milli"

definition TERMINATION_CONFIRMATION :: duration where "TERMINATION_CONFIRMATION = from_secs 2"

definition attach :: "child \<Rightarrow> unit res" where
  "attach ch = (if unat (ch_id ch) < 2 ^ 31 then Inr () else Inl ProcessFailure)"

definition signal :: "child \<Rightarrow> nat \<Rightarrow> signal_kind \<Rightarrow> unit res" where
  "signal ch k s =
     (case ch_kill ch k s of KillOk \<Rightarrow> Inr () | KillNoProcess \<Rightarrow> Inr () | _ \<Rightarrow> Inl ProcessFailure)"

definition group_exists :: "child \<Rightarrow> nat \<Rightarrow> bool res" where
  "group_exists ch k =
     (case ch_kill ch k SignalTest of
        KillOk \<Rightarrow> Inr True
      | KillNoProcess \<Rightarrow> Inr False
      | KillNotPermitted \<Rightarrow> Inr True
      | KillFailed \<Rightarrow> Inl ProcessFailure)"

text \<open>The grace period after \<open>SIGTERM\<close>: the exit status, and whether the group was seen to be gone.\<close>

partial_function (option) grace_loop ::
    "child \<Rightarrow> nat \<Rightarrow> nat \<Rightarrow> int option option \<Rightarrow> (nat \<times> int option option \<times> bool) res option" where
  "grace_loop ch since k exit =
     (if ch_now ch k - since < TERMINATION_GRACE then
        (case (if exit = None then ch_try_wait ch k else Some exit) of
           None \<Rightarrow> Some (Inl ProcessFailure)
         | Some None \<Rightarrow> grace_loop ch since (Suc k) None
         | Some (Some ec) \<Rightarrow>
             (case group_exists ch k of
                Inl e \<Rightarrow> Some (Inl e)
              | Inr exists \<Rightarrow>
                  if \<not> exists then Some (Inr (k, Some ec, True)) else grace_loop ch since (Suc k) (Some ec)))
      else Some (Inr (k, exit, False)))"

partial_function (option) confirm_loop :: "child \<Rightarrow> nat \<Rightarrow> nat \<Rightarrow> nat res option" where
  "confirm_loop ch since k =
     (case group_exists ch k of
        Inl e \<Rightarrow> Some (Inl e)
      | Inr exists \<Rightarrow>
          if \<not> exists then Some (Inr k)
          else if ch_now ch k - since \<ge> TERMINATION_CONFIRMATION then Some (Inl ProcessFailure)
          else confirm_loop ch since (Suc k))"

text \<open>The poll at which the group was seen to be gone comes with the exit status.\<close>

definition terminate_with_status :: "child \<Rightarrow> nat \<Rightarrow> int option option \<Rightarrow> (nat \<times> int option) res option" where
  "terminate_with_status ch k exit =
     (case signal ch k SignalTerm of
        Inl e \<Rightarrow> Some (Inl e)
      | Inr _ \<Rightarrow>
          Option.bind (grace_loop ch (ch_now ch k) k exit) (\<lambda>r.
          case r of
            Inl e \<Rightarrow> Some (Inl e)
          | Inr (k', exit', True) \<Rightarrow> Some (map_sum id (Pair k') (ok_or ProcessFailure exit'))
          | Inr (k', exit', False) \<Rightarrow>
              (case and_then (signal ch k' SignalKill) (\<lambda>_.
                      ok_or ProcessFailure (case exit' of Some ec \<Rightarrow> Some ec | None \<Rightarrow> ch_wait ch)) of
                 Inl e \<Rightarrow> Some (Inl e)
               | Inr ec \<Rightarrow>
                   map_option (\<lambda>c. and_then c (\<lambda>k''. Inr (k'', ec))) (confirm_loop ch (ch_now ch k') k'))))"

definition process_finish :: "child \<Rightarrow> nat \<Rightarrow> int option \<Rightarrow> (nat \<times> int option) res option" where
  "process_finish ch k ec =
     (case group_exists ch k of
        Inl e \<Rightarrow> Some (Inl e)
      | Inr True \<Rightarrow> terminate_with_status ch k (Some ec)
      | Inr False \<Rightarrow> Some (Inr (k, ec)))"

partial_function (option) wait_for_child ::
    "child \<Rightarrow> nat \<Rightarrow> duration \<Rightarrow> nat \<Rightarrow> (nat \<times> int option \<times> run_termination) res option" where
  "wait_for_child ch started timeout k =
     (case ch_try_wait ch k of
        None \<Rightarrow> Some (Inl ProcessFailure)
      | Some (Some ec) \<Rightarrow>
          map_option (\<lambda>r. and_then r (\<lambda>(k', exit). Inr (k', exit, Exited))) (process_finish ch k ec)
      | Some None \<Rightarrow>
          if ch_cancelled ch k then
            map_option (\<lambda>r. and_then r (\<lambda>(k', exit). Inr (k', exit, Cancelled))) (terminate_with_status ch k None)
          else if ch_now ch k - started \<ge> timeout then
            map_option (\<lambda>r. and_then r (\<lambda>(k', exit). Inr (k', exit, TimedOut))) (terminate_with_status ch k None)
          else wait_for_child ch started timeout (Suc k))"

section \<open>The output\<close>

definition make_redactor :: "redact_lib \<Rightarrow> prepared_binding list \<Rightarrow> nat \<Rightarrow> streaming_redactor res" where
  "make_redactor lib bindings limit =
     new_redactor lib (map (\<lambda>b. new_redaction_secret (pb_secret_id b) (pb_field b) (pb_value b)) bindings) limit"

text \<open>The reads of a pipe in order; \<open>None\<close> is a failed read and an empty one the end.\<close>

fun redact_reader ::
    "redact_lib \<Rightarrow> byte list option list \<Rightarrow> streaming_redactor \<Rightarrow> redacted_output res option" where
  "redact_reader lib [] r = map_option Inr (redactor_finish lib r)"
| "redact_reader lib (None # rest) r = Some (Inl ProcessFailure)"
| "redact_reader lib (Some bytes # rest) r =
     (if bytes = [] then map_option Inr (redactor_finish lib r)
      else Option.bind (redactor_push lib bytes r) (redact_reader lib rest))"

definition truncate_text :: "str \<Rightarrow> nat \<Rightarrow> str" where
  "truncate_text v limit = (if length v \<le> limit then v else take (lower_boundary v limit) v)"

text \<open>\<open>String::pop\<close> drops the last character; what is left ends at a boundary already.\<close>

definition pop_char :: "str \<Rightarrow> str" where
  "pop_char s = concat (butlast (chars s))"

lemma chars_concat_length: "length (concat (chars s)) \<le> length s"
proof (induction s rule: chars.induct)
  case (1 s)
  show ?case
  proof (cases "utf8_step s")
    case (Scalar w)
    then have "length (concat (chars (drop w s))) \<le> length s - w" "w \<le> length s"
      using "1.IH" [OF Scalar] utf8_step_Scalar by fastforce+
    moreover have "length (concat (chars s)) = length (take w s) + length (concat (chars (drop w s)))"
      using Scalar by (subst chars.simps) simp
    ultimately show ?thesis by simp
  qed (simp_all add: chars.simps [of s])
qed

lemma pop_char_shorter: "s \<noteq> [] \<Longrightarrow> length (pop_char s) < length s"
proof (cases "chars s" rule: rev_cases)
  case (snoc cs c)
  then show ?thesis
    using chars_concat_length [of s] is_char_length [of c] chars_are_chars [of c s]
    by (simp add: pop_char_def length_greater_0_conv [symmetric] del: length_greater_0_conv)
qed (simp add: pop_char_def)

function shrink_outputs :: "str \<Rightarrow> str \<Rightarrow> nat \<Rightarrow> str \<times> str" where
  "shrink_outputs out err limit =
     (if length out + length err \<le> limit then (out, err)
      else if length out \<ge> length err \<and> out \<noteq> [] then shrink_outputs (pop_char out) err limit
      else if err \<noteq> [] then shrink_outputs out (pop_char err) limit
      else (out, err))"
  by pat_completeness auto
termination
  by (relation "measure (\<lambda>(out, err, limit). length out + length err)") (auto intro: pop_char_shorter)

declare shrink_outputs.simps [simp del]

definition enforce_combined_limit :: "str \<Rightarrow> str \<Rightarrow> nat \<Rightarrow> str \<times> str \<times> bool \<times> nat" where
  "enforce_combined_limit out err limit =
     (if length out + length err \<le> limit then (out, err, False, 0)
      else
        let original_bytes = length out + length err;
            stdout_budget = limit div 2;
            stderr_budget = limit - stdout_budget
        in case shrink_outputs (truncate_text out (max stdout_budget (MIN_OUTPUT_LIMIT_BYTES div 2)))
                  (truncate_text err (max stderr_budget (MIN_OUTPUT_LIMIT_BYTES div 2))) limit of
             (out', err') \<Rightarrow> (out', err', True, original_bytes - (length out' + length err')))"

section \<open>A run\<close>

definition start_injection :: "host \<Rightarrow> prepared_run \<Rightarrow> injection" where
  "start_injection host run =
     \<lparr>in_command = apply_minimal_environment host (pr_executable run)
        \<lparr>cm_program = pr_executable run, cm_arguments = pr_arguments run, cm_directory = pr_working_directory run,
         cm_environment = Map.empty\<rparr>,
      in_stdin = None, in_temp = None\<rparr>"

text \<open>What follows the launch; \<open>ch_close\<close> is the outcome of removing the private directory.\<close>

definition collect_run ::
    "redact_lib \<Rightarrow> prepared_run \<Rightarrow> nat \<Rightarrow> temp_directory option \<Rightarrow> streaming_redactor \<Rightarrow> streaming_redactor \<Rightarrow> child \<Rightarrow>
       run_result res option" where
  "collect_run lib run started temp stdout_redactor stderr_redactor ch =
     (case attach ch of
        Inl e \<Rightarrow> Some (Inl e)
      | Inr _ \<Rightarrow>
          Option.bind (wait_for_child ch started (pr_timeout run) 0) (\<lambda>waited.
          case waited of
            Inl e \<Rightarrow> Some (Inl e)
          | Inr (_, exit, termination) \<Rightarrow>
              Option.bind (redact_reader lib (ch_stdout ch) stdout_redactor) (\<lambda>stdout.
              Option.bind (redact_reader lib (ch_stderr ch) stderr_redactor) (\<lambda>stderr.
              Some (and_then stdout (\<lambda>out. and_then stderr (\<lambda>err.
                if ch_stdin ch = StdinFailed then Inl ProcessFailure
                else
                  case enforce_combined_limit (ro_text out) (ro_text err) (pr_output_limit_bytes run) of
                    (out_text, err_text, combined_truncated, combined_omitted) \<Rightarrow>
                      Inr \<lparr>ru_exit_code = exit, ru_termination = termination,
                        ru_stdout = out_text, ru_stderr = err_text,
                        ru_duration = ch_finished ch - started,
                        ru_redaction_count = sat_add (ro_redaction_count out) (ro_redaction_count err),
                        ru_output_truncated = (ro_truncated out \<or> ro_truncated err \<or> combined_truncated),
                        ru_omitted_bytes = sat_add (sat_add (ro_omitted_bytes out) (ro_omitted_bytes err)) combined_omitted,
                        ru_output_suppressed = (ro_suppressed out \<or> ro_suppressed err),
                        ru_temp_cleanup_warning = (temp \<noteq> None \<and> \<not> ch_close ch)\<rparr>)))))))"

text \<open>\<open>launch\<close> is given the command and either fails or yields the child. The second component is the private
  directory that \<open>execute\<close> removes on its way out.\<close>

definition execute ::
    "redact_lib \<Rightarrow> host \<Rightarrow> directory_io \<Rightarrow> (nat \<Rightarrow> secret_io) \<Rightarrow> nat \<Rightarrow> (command \<Rightarrow> child res) \<Rightarrow> prepared_run \<Rightarrow>
       run_result res option \<times> temp_directory option" where
  "execute lib host dio sios started launch_command run =
     (case (make_redactor lib (pr_bindings run) (pr_output_limit_bytes run),
            make_redactor lib (pr_bindings run) (pr_output_limit_bytes run)) of
        (Inr stdout_redactor, Inr stderr_redactor) \<Rightarrow>
          (case inject_bindings (ho_euid host) dio sios 0 (pr_bindings run) (start_injection host run) of
             (Inl e, st) \<Rightarrow> (Some (Inl e), in_temp st)
           | (Inr _, st) \<Rightarrow>
               (case launch_command (in_command st) of
                  Inl e \<Rightarrow> (Some (Inl e), in_temp st)
                | Inr ch \<Rightarrow> (collect_run lib run started (in_temp st) stdout_redactor stderr_redactor ch, in_temp st)))
      | (Inl e, _) \<Rightarrow> (Some (Inl e), None)
      | (_, Inl e) \<Rightarrow> (Some (Inl e), None))"

text \<open>\<open>resolve_values\<close> is the caller's closure. The flag is released on every way out.\<close>

definition run_guarded ::
    "redact_lib \<Rightarrow> host \<Rightarrow> directory_io \<Rightarrow> (nat \<Rightarrow> secret_io) \<Rightarrow> nat \<Rightarrow>
       (validated_secret_binding list \<Rightarrow> resolved_secret_binding list res) \<Rightarrow> (command \<Rightarrow> child res) \<Rightarrow>
       validated_run_request \<Rightarrow> supervisor \<Rightarrow> run_result res option \<times> temp_directory option \<times> supervisor" where
  "run_guarded lib host dio sios started resolve_values launch_command request sv =
     (case acquire_run sv of
        (Inl e, sv') \<Rightarrow> (Some (Inl e), None, sv')
      | (Inr _, sv') \<Rightarrow>
          (case and_then (validate_filesystem host request) (\<lambda>_.
                  and_then (resolve_values (vr_bindings request)) (resolve request)) of
             Inl e \<Rightarrow> (Some (Inl e), None, release_run sv')
           | Inr run \<Rightarrow>
               (case execute lib host dio sios started launch_command run of
                  (result, temp) \<Rightarrow> (result, temp, release_run sv'))))"

text \<open>\<open>Supervisor::run\<close>: the launch passes the gate of the cancellation.\<close>

definition run_supervised ::
    "redact_lib \<Rightarrow> host \<Rightarrow> directory_io \<Rightarrow> (nat \<Rightarrow> secret_io) \<Rightarrow> nat \<Rightarrow> run_cancellation \<Rightarrow>
       (validated_secret_binding list \<Rightarrow> resolved_secret_binding list res) \<Rightarrow> (command \<Rightarrow> child res) \<Rightarrow>
       validated_run_request \<Rightarrow> supervisor \<Rightarrow> run_result res option \<times> temp_directory option \<times> supervisor" where
  "run_supervised lib host dio sios started cancellation resolve_values spawn request sv =
     run_guarded lib host dio sios started resolve_values (\<lambda>command. launch cancellation (spawn command)) request sv"

end
