(* ===== verification/Ladon_Supervisor_Properties.thy ===== *)
theory Ladon_Supervisor_Properties
  imports Ladon_Supervisor Ladon_Redact_Properties
begin

text \<open>
  Properties of the supervisor: the wait for a child ends and leaves no process of its group behind,
  a child gets its secrets where the request put them and nowhere else, and what a run returns
  contains no form of a secret.
\<close>

section \<open>The end of a child\<close>

text \<open>Time goes on: from every poll on, every instant is reached.\<close>

definition clock_advances :: "child \<Rightarrow> bool" where
  "clock_advances ch = (\<forall>t k. \<exists>j \<ge> k. t \<le> ch_now ch j)"

lemma group_exists_gone: "group_exists ch k = Inr False \<longleftrightarrow> ch_kill ch k SignalTest = KillNoProcess"
  by (simp add: group_exists_def split: kill_outcome.split)

lemma group_exists_error: "group_exists ch k = Inl e \<Longrightarrow> e = ProcessFailure"
  by (simp add: group_exists_def split: kill_outcome.splits)

lemma signal_error: "signal ch k s = Inl e \<Longrightarrow> e = ProcessFailure"
  by (simp add: signal_def split: kill_outcome.splits)

text \<open>An answer of a loop that was started at poll \<open>k\<close>: it fails, or the group was seen to be gone.\<close>

fun ended_ok :: "child \<Rightarrow> nat \<Rightarrow> (nat \<times> 'a) res \<Rightarrow> bool" where
  "ended_ok ch k (Inl e) = (e = ProcessFailure)"
| "ended_ok ch k (Inr (k', _)) = (k \<le> k' \<and> ch_kill ch k' SignalTest = KillNoProcess)"

fun grace_ok :: "child \<Rightarrow> nat \<Rightarrow> (nat \<times> int option option \<times> bool) res \<Rightarrow> bool" where
  "grace_ok ch k (Inl e) = (e = ProcessFailure)"
| "grace_ok ch k (Inr (k', exit, gone)) =
     (k \<le> k' \<and> (gone \<longrightarrow> exit \<noteq> None \<and> ch_kill ch k' SignalTest = KillNoProcess))"

lemma ended_ok_Suc: "ended_ok ch (Suc k) r \<Longrightarrow> ended_ok ch k r"
  by (cases "(ch, k, r)" rule: ended_ok.cases) auto

lemma grace_ok_Suc: "grace_ok ch (Suc k) r \<Longrightarrow> grace_ok ch k r"
  by (cases "(ch, k, r)" rule: grace_ok.cases) auto

lemma grace_ends:
  assumes "k \<le> j" and "since + TERMINATION_GRACE \<le> ch_now ch j"
  shows "\<exists>r. grace_loop ch since k exit = Some r \<and> grace_ok ch k r"
  using assms
proof (induction "j - k" arbitrary: k exit)
  case 0
  then have "\<not> ch_now ch k - since < TERMINATION_GRACE" by simp
  then show ?case by (subst grace_loop.simps) simp
next
  case (Suc d)
  then have "d = j - Suc k" "Suc k \<le> j" by simp_all
  then have IH: "\<exists>r. grace_loop ch since (Suc k) x = Some r \<and> grace_ok ch k r" for x
    using Suc.hyps(1) Suc.prems(2) grace_ok_Suc by blast
  show ?case
    using IH
    by (subst grace_loop.simps)
      (auto dest: group_exists_error simp: group_exists_gone split: option.split sum.split if_split)
qed

lemma confirm_ends:
  assumes "k \<le> j" and "since + TERMINATION_CONFIRMATION \<le> ch_now ch j"
  shows "\<exists>r. confirm_loop ch since k = Some r \<and> ended_ok ch k (map_sum id (\<lambda>k'. (k', ())) r)"
  using assms
proof (induction "j - k" arbitrary: k)
  case 0
  then have "ch_now ch k - since \<ge> TERMINATION_CONFIRMATION" by simp
  then show ?case
    by (subst confirm_loop.simps) (auto dest: group_exists_error simp: group_exists_gone split: sum.split)
next
  case (Suc d)
  then have "d = j - Suc k" "Suc k \<le> j" by simp_all
  then have "\<exists>r. confirm_loop ch since (Suc k) = Some r \<and> ended_ok ch k (map_sum id (\<lambda>k'. (k', ())) r)"
    using Suc.hyps(1) Suc.prems(2) ended_ok_Suc by blast
  then show ?case
    by (subst confirm_loop.simps) (auto dest: group_exists_error simp: group_exists_gone split: sum.split)
qed

lemma terminate_ends:
  assumes "clock_advances ch"
  shows "\<exists>r. terminate_with_status ch k exit = Some r \<and> ended_ok ch k r"
proof -
  obtain j where "k \<le> j" "ch_now ch k + TERMINATION_GRACE \<le> ch_now ch j"
    using assms unfolding clock_advances_def by blast
  from grace_ends [OF this, of exit] obtain r where
    r: "grace_loop ch (ch_now ch k) k exit = Some r" "grace_ok ch k r" by blast
  show ?thesis
  proof (cases r)
    case (Inl e)
    with r show ?thesis by (auto simp: terminate_with_status_def dest: signal_error split: sum.split)
  next
    case (Inr x)
    obtain k' exit' gone where x: "x = (k', exit', gone)" by (cases x)
    with Inr r have kk: "k \<le> k'" and gone: "gone \<Longrightarrow> exit' \<noteq> None \<and> ch_kill ch k' SignalTest = KillNoProcess" by auto
    obtain j' where "k' \<le> j'" "ch_now ch k' + TERMINATION_CONFIRMATION \<le> ch_now ch j'"
      using assms unfolding clock_advances_def by blast
    from confirm_ends [OF this] obtain c where
      c: "confirm_loop ch (ch_now ch k') k' = Some c" "ended_ok ch k' (map_sum id (\<lambda>k''. (k'', ())) c)" by blast
    have "ended_ok ch k (and_then c (\<lambda>k''. Inr (k'', ec)))" for ec :: "int option"
      using c(2) kk by (cases c) auto
    then show ?thesis
      using r(1) c(1) gone kk unfolding terminate_with_status_def Inr x
      by (cases gone) (auto dest: signal_error simp: result_simps and_then_Inl_iff split: sum.splits option.splits)
  qed
qed

lemma finish_ends:
  assumes "clock_advances ch"
  shows "\<exists>r. process_finish ch k ec = Some r \<and> ended_ok ch k r"
  using terminate_ends [OF assms, of k "Some ec"]
  by (auto simp: process_finish_def group_exists_gone dest: group_exists_error split: sum.split bool.split)

text \<open>Why a wait ended with a result.\<close>

primrec ended_by :: "child \<Rightarrow> nat \<Rightarrow> duration \<Rightarrow> nat \<Rightarrow> run_termination \<Rightarrow> bool" where
  "ended_by ch started timeout j Exited = (\<exists>ec. ch_try_wait ch j = Some (Some ec))"
| "ended_by ch started timeout j Cancelled = ch_cancelled ch j"
| "ended_by ch started timeout j TimedOut = (timeout \<le> ch_now ch j - started)"

definition waits_at :: "child \<Rightarrow> nat \<Rightarrow> duration \<Rightarrow> nat \<Rightarrow> bool" where
  "waits_at ch started timeout h =
     (ch_try_wait ch h = Some None \<and> \<not> ch_cancelled ch h \<and> ch_now ch h - started < timeout)"

fun wait_ok :: "child \<Rightarrow> nat \<Rightarrow> duration \<Rightarrow> nat \<Rightarrow> (nat \<times> int option \<times> run_termination) res \<Rightarrow> bool" where
  "wait_ok ch started timeout k (Inl e) = (e = ProcessFailure)"
| "wait_ok ch started timeout k (Inr (k', _, why)) =
     (ch_kill ch k' SignalTest = KillNoProcess \<and>
      (\<exists>i \<ge> k. i \<le> k' \<and> ended_by ch started timeout i why \<and>
         (\<forall>h. k \<le> h \<longrightarrow> h < i \<longrightarrow> waits_at ch started timeout h)))"

lemma wait_stops:
  assumes "clock_advances ch" and "\<not> waits_at ch started timeout k"
  shows "\<exists>r. wait_for_child ch started timeout k = Some r \<and> wait_ok ch started timeout k r"
proof -
  have here: "wait_ok ch started timeout k (and_then r (\<lambda>(k', x). Inr (k', x, why)))"
    if "ended_ok ch k r" "ended_by ch started timeout k why" for r why
    using that by (cases "(ch, k, r)" rule: ended_ok.cases) auto
  show ?thesis
    using assms(2) terminate_ends [OF assms(1), of k None] finish_ends [OF assms(1), of k] here
    by (subst wait_for_child.simps) (fastforce simp: waits_at_def not_less split: option.split)
qed

lemma wait_ends_by:
  assumes "clock_advances ch" and "k \<le> j" and "started + timeout \<le> ch_now ch j"
  shows "\<exists>r. wait_for_child ch started timeout k = Some r \<and> wait_ok ch started timeout k r"
  using assms(2,3)
proof (induction "j - k" arbitrary: k)
  case 0
  then have "timeout \<le> ch_now ch k - started" by simp
  then have "\<not> waits_at ch started timeout k" by (simp add: waits_at_def)
  with wait_stops [OF assms(1)] show ?case by blast
next
  case (Suc d)
  then have "d = j - Suc k" "Suc k \<le> j" by simp_all
  then obtain r where r: "wait_for_child ch started timeout (Suc k) = Some r" "wait_ok ch started timeout (Suc k) r"
    using Suc.hyps(1) Suc.prems(2) by blast
  show ?case
  proof (cases "waits_at ch started timeout k")
    case True
    then have "wait_for_child ch started timeout k = Some r"
      using r(1) by (subst wait_for_child.simps) (simp add: waits_at_def)
    moreover have "wait_ok ch started timeout k r"
      using r(2) True
      by (cases "(ch, started, timeout, k, r)" rule: wait_ok.cases) (auto, metis Suc_leD le_eq_less_or_eq less_eq_Suc_le)
    ultimately show ?thesis by blast
  next
    case False
    with wait_stops [OF assms(1)] show ?thesis by blast
  qed
qed

lemma wait_ends:
  assumes "clock_advances ch"
  shows "\<exists>r. wait_for_child ch started timeout k = Some r \<and> wait_ok ch started timeout k r"
proof -
  obtain j where "k \<le> j" "started + timeout \<le> ch_now ch j"
    using assms unfolding clock_advances_def by blast
  with wait_ends_by [OF assms] show ?thesis by blast
qed


section \<open>The output\<close>

lemma truncate_text_eq: "truncate_text = truncate_utf8"
  by (simp add: fun_eq_iff truncate_text_def truncate_utf8_def)

lemma truncate_prefix: "prefix (truncate_utf8 s n) s"
  by (auto simp: truncate_utf8_def take_is_prefix)

lemma pop_char_prefix: "valid_utf8 s \<Longrightarrow> prefix (pop_char s) s"
proof -
  assume "valid_utf8 s"
  then have "s = concat (chars s)" by (simp add: concat_chars)
  also have "prefix (concat (butlast (chars s))) \<dots>"
    by (cases "chars s" rule: rev_cases) simp_all
  finally show ?thesis by (simp add: pop_char_def)
qed

lemma pop_char_valid: "valid_utf8 (pop_char s)"
  by (auto simp: pop_char_def intro!: concat_chars_valid chars_are_chars dest: in_set_butlastD)

lemma shrink_prefix:
  assumes "valid_utf8 out" and "valid_utf8 err" and "shrink_outputs out err limit = (out', err')"
  shows "prefix out' out \<and> prefix err' err \<and> valid_utf8 out' \<and> valid_utf8 err' \<and> length out' + length err' \<le> limit"
  using assms
proof (induction out err limit arbitrary: out' err' rule: shrink_outputs.induct)
  case (1 out err limit)
  show ?case
  proof (cases "length out + length err \<le> limit")
    case True
    with 1 show ?thesis by (simp add: shrink_outputs.simps)
  next
    case over: False
    show ?thesis
    proof (cases "length out \<ge> length err \<and> out \<noteq> []")
      case True
      then have "shrink_outputs (pop_char out) err limit = (out', err')"
        using over "1.prems"(3) by (simp add: shrink_outputs.simps [of out])
      from "1.IH"(1) [OF over True pop_char_valid "1.prems"(2) this] show ?thesis
        using pop_char_prefix [OF "1.prems"(1)] by (auto intro: prefix_order.trans)
    next
      case False
      with over have e: "err \<noteq> []" by (cases out; cases err) auto
      then have "shrink_outputs out (pop_char err) limit = (out', err')"
        using over False "1.prems"(3) by (subst (asm) shrink_outputs.simps) (simp only: if_False if_True simp_thms)
      from "1.IH"(2) [OF over False e "1.prems"(1) pop_char_valid this] show ?thesis
        using pop_char_prefix [OF "1.prems"(2)] by (auto intro: prefix_order.trans)
    qed
  qed
qed

text \<open>Enforcing the limit cuts both outputs at character boundaries to prefixes that fit together.\<close>

lemma combined_limit:
  assumes "valid_utf8 out" and "valid_utf8 err" and "enforce_combined_limit out err limit = (out', err', over, omitted)"
  shows "prefix out' out \<and> prefix err' err \<and> valid_utf8 out' \<and> valid_utf8 err' \<and> length out' + length err' \<le> limit \<and>
    omitted = length out + length err - (length out' + length err') \<and> over = (limit < length out + length err)"
proof (cases "length out + length err \<le> limit")
  case True
  with assms show ?thesis by (simp add: enforce_combined_limit_def)
next
  case False
  let ?o = "truncate_utf8 out (max (limit div 2) (MIN_OUTPUT_LIMIT_BYTES div 2))"
  let ?e = "truncate_utf8 err (max (limit - limit div 2) (MIN_OUTPUT_LIMIT_BYTES div 2))"
  have "shrink_outputs ?o ?e limit = (out', err')" "over" "omitted = length out + length err - (length out' + length err')"
    using False assms(3) by (auto simp: enforce_combined_limit_def Let_def truncate_text_eq split: prod.splits)
  moreover from shrink_prefix [OF truncate_valid [OF assms(1)] truncate_valid [OF assms(2)] this(1)]
  have "prefix out' out \<and> prefix err' err \<and> valid_utf8 out' \<and> valid_utf8 err' \<and> length out' + length err' \<le> limit"
    using truncate_prefix prefix_order.trans by blast
  ultimately show ?thesis using False by simp
qed

lemma redact_reader_pushes:
  assumes "redact_reader lib reads r = Some (Inr out)"
  shows "\<exists>chunks. Option.bind (push_all lib chunks r) (redactor_finish lib) = Some out"
  using assms
proof (induction lib reads r rule: redact_reader.induct)
  case (1 lib r)
  then show ?case by (auto intro: exI [of _ "[]"])
next
  case (3 lib bytes rest r)
  show ?case
  proof (cases "bytes = []")
    case True
    with 3 show ?thesis by (auto intro: exI [of _ "[]"])
  next
    case False
    with "3.prems" obtain r' where r': "redactor_push lib bytes r = Some r'" "redact_reader lib rest r' = Some (Inr out)"
      by (auto simp: bind_eq_Some_conv)
    from "3.IH" [OF False r'] obtain chunks where "Option.bind (push_all lib chunks r') (redactor_finish lib) = Some out" by blast
    with r' show ?thesis by (intro exI [of _ "bytes # chunks"]) simp
  qed
qed simp


lemma from_utf8_lossy_text: "valid_utf8 (from_utf8_lossy bs)"
proof (induction bs rule: from_utf8_lossy.induct)
  case (1 bs)
  have repl: "valid_utf8 [0xef, 0xbf, 0xbd]" by (simp add: valid_utf8_def utf8_check.simps utf8_width_def second_ok_def is_cont_def)
  show ?case
  proof (cases "bs = []")
    case False
    show ?thesis
    proof (cases "utf8_step bs")
      case (Scalar w)
      then have "valid_utf8 (take w bs)" by (intro is_char_valid is_char_take)
      with "1.IH"(1) [OF False Scalar] False Scalar show ?thesis
        by (subst from_utf8_lossy.simps) (auto intro: valid_utf8_append)
    next
      case (Invalid n)
      with "1.IH"(2) [OF False Invalid] False repl show ?thesis
        using valid_utf8_append [OF repl] by (subst from_utf8_lossy.simps) simp
    next
      case Incomplete
      with False repl show ?thesis by (subst from_utf8_lossy.simps) simp
    qed
  qed (simp add: from_utf8_lossy.simps)
qed

lemma finish_loop_text:
  assumes "finish_loop limit total_bytes head tail = Some r"
  shows "valid_utf8 (fst r)"
  using _ assms
proof (rule finish_loop.raw_induct)
  fix loop limit total_bytes head tail r
  assume IH: "\<And>a b c d r. loop a b c d = Some r \<Longrightarrow> valid_utf8 (fst r)"
    and "(let omitted = total_bytes - (length head + length tail); marker = omission_marker omitted
      in if length head + length marker + length tail \<le> limit
         then Some (from_utf8_lossy (head @ marker @ tail), True, omitted)
         else loop limit total_bytes head (pop_front_character tail)) = Some r"
  then show "valid_utf8 (fst r)" by (auto simp: Let_def from_utf8_lossy_text split: if_splits)
qed

lemma redacted_text_valid: "redactor_finish lib r = Some out \<Longrightarrow> valid_utf8 (ro_text out)"
  by (auto simp: redactor_finish_def capture_finish_def Let_def bind_eq_Some_conv from_utf8_lossy_text
      dest: finish_loop_text split: if_splits)


lemma redact_reader_ends:
  assumes "\<And>chunks. \<exists>r' out. push_all lib chunks r = Some r' \<and> redactor_finish lib r' = Some out"
  shows "\<exists>x. redact_reader lib reads r = Some x"
  using assms
proof (induction lib reads r rule: redact_reader.induct)
  case (1 lib r)
  then show ?case using 1 [of "[]"] by auto
next
  case (3 lib bytes rest r)
  from "3.prems" [of "[]"] obtain out where out: "redactor_finish lib r = Some out" by auto
  from "3.prems" [of "[bytes]"] obtain r' where r': "redactor_push lib bytes r = Some r'"
    by (auto simp: bind_eq_Some_conv)
  have "\<exists>r'' out. push_all lib chunks r' = Some r'' \<and> redactor_finish lib r'' = Some out" for chunks
    using "3.prems" [of "bytes # chunks"] r' by simp
  with "3.IH" [of r'] out r' show ?case by auto
qed simp

text \<open>No form of a bound value.\<close>

definition free_of_secrets :: "redact_lib \<Rightarrow> prepared_binding list \<Rightarrow> str \<Rightarrow> bool" where
  "free_of_secrets lib bindings txt =
     (\<forall>b \<in> set bindings. pb_value b \<noteq> [] \<longrightarrow>
        (\<forall>f \<in> set (secret_forms lib (pb_value b)). f \<noteq> [] \<longrightarrow> \<not> sublist f txt))"

lemma free_of_secrets_prefix: "free_of_secrets lib bs txt \<Longrightarrow> prefix t txt \<Longrightarrow> free_of_secrets lib bs t"
  unfolding free_of_secrets_def by (meson prefix_imp_sublist sublist_order.order_trans)

lemma redact_reader_safe:
  assumes L: "memmem_law lib" and new: "make_redactor lib bindings limit = Inr r"
  shows "\<exists>x. redact_reader lib reads r = Some x \<and>
    (\<forall>out. x = Inr out \<longrightarrow> valid_utf8 (ro_text out) \<and> free_of_secrets lib bindings (ro_text out))"
proof -
  note safe = redacted_run_safe [OF L new [unfolded make_redactor_def]]
  obtain x where x: "redact_reader lib reads r = Some x"
    using redact_reader_ends [of lib r reads] safe by meson
  have "valid_utf8 (ro_text out) \<and> free_of_secrets lib bindings (ro_text out)" if "x = Inr out" for out
  proof -
    from that x obtain chunks where "Option.bind (push_all lib chunks r) (redactor_finish lib) = Some out"
      using redact_reader_pushes by blast
    then obtain r' where "push_all lib chunks r = Some r'" "redactor_finish lib r' = Some out"
      by (auto simp: bind_eq_Some_conv)
    with safe [of chunks] redacted_text_valid show ?thesis
      by (fastforce simp: free_of_secrets_def new_redaction_secret_def)
  qed
  with x show ?thesis by blast
qed

lemma collect_run_safe:
  assumes L: "memmem_law lib" and clock: "clock_advances ch"
    and new: "make_redactor lib (pr_bindings run) (pr_output_limit_bytes run) = Inr r1"
      "make_redactor lib (pr_bindings run) (pr_output_limit_bytes run) = Inr r2"
  shows "\<exists>r. collect_run lib run started temp r1 r2 ch = Some r \<and>
    (\<forall>rr. r = Inr rr \<longrightarrow> length (ru_stdout rr) + length (ru_stderr rr) \<le> pr_output_limit_bytes run \<and>
       free_of_secrets lib (pr_bindings run) (ru_stdout rr) \<and> free_of_secrets lib (pr_bindings run) (ru_stderr rr))"
proof -
  obtain w where w: "wait_for_child ch started (pr_timeout run) 0 = Some w" using wait_ends [OF clock] by blast
  obtain x where x: "redact_reader lib (ch_stdout ch) r1 = Some x"
    "\<And>out. x = Inr out \<Longrightarrow> valid_utf8 (ro_text out) \<and> free_of_secrets lib (pr_bindings run) (ro_text out)"
    using redact_reader_safe [OF L new(1)] by blast
  obtain y where y: "redact_reader lib (ch_stderr ch) r2 = Some y"
    "\<And>out. y = Inr out \<Longrightarrow> valid_utf8 (ro_text out) \<and> free_of_secrets lib (pr_bindings run) (ro_text out)"
    using redact_reader_safe [OF L new(2)] by blast
  have "length o' + length e' \<le> pr_output_limit_bytes run \<and>
      free_of_secrets lib (pr_bindings run) o' \<and> free_of_secrets lib (pr_bindings run) e'"
    if "x = Inr out" "y = Inr err"
      "enforce_combined_limit (ro_text out) (ro_text err) (pr_output_limit_bytes run) = (o', e', b, n)" for out err o' e' b n
    using combined_limit [OF _ _ that(3)] x(2) [OF that(1)] y(2) [OF that(2)] free_of_secrets_prefix by blast
  then show ?thesis
    using w x(1) y(1) unfolding collect_run_def
    by (cases "attach ch"; cases w; cases x; cases y) (auto split: prod.split)
qed

lemma executed_run_safe:
  assumes "memmem_law lib" and "\<forall>command ch. launch_command command = Inr ch \<longrightarrow> clock_advances ch"
  shows "\<exists>r. fst (execute lib host dio sios started launch_command run) = Some r \<and>
    (\<forall>rr. r = Inr rr \<longrightarrow> length (ru_stdout rr) + length (ru_stderr rr) \<le> pr_output_limit_bytes run \<and>
       (\<forall>b \<in> set (pr_bindings run). pb_value b \<noteq> [] \<longrightarrow>
          (\<forall>f \<in> set (secret_forms lib (pb_value b)). f \<noteq> [] \<longrightarrow>
             \<not> sublist f (ru_stdout rr) \<and> \<not> sublist f (ru_stderr rr))))"
proof (cases "make_redactor lib (pr_bindings run) (pr_output_limit_bytes run)")
  case (Inl e)
  then show ?thesis by (simp add: execute_def)
next
  case (Inr r1)
  obtain x st where st: "inject_bindings (ho_euid host) dio sios 0 (pr_bindings run) (start_injection host run) = (x, st)" by fastforce
  show ?thesis
  proof (cases x)
    case (Inl e)
    with st Inr show ?thesis by (simp add: execute_def)
  next
    case x: (Inr u)
    show ?thesis
    proof (cases "launch_command (in_command st)")
      case (Inl e)
      with x st Inr show ?thesis by (simp add: execute_def)
    next
      case ch: (Inr ch)
      then have "clock_advances ch" using assms(2) by blast
      from collect_run_safe [OF assms(1) this Inr Inr, of started "in_temp st"] x ch st Inr show ?thesis
        unfolding free_of_secrets_def by (auto simp: execute_def)
    qed
  qed
qed



text \<open>C27: When time goes on, the wait for a child always ends. A result comes only after
  the process group was seen to be empty, and its termination is the reason that ended the wait: at
  every earlier poll the child was running, not cancelled and within its timeout.\<close>

theorem child_wait_ends:
  assumes "clock_advances ch"
  shows "\<exists>r. wait_for_child ch started timeout 0 = Some r \<and>
    (case r of
       Inl e \<Rightarrow> e = ProcessFailure
     | Inr (k, _, why) \<Rightarrow> ch_kill ch k SignalTest = KillNoProcess \<and>
         (\<exists>i \<le> k. ended_by ch started timeout i why \<and>
            (\<forall>h < i. ch_try_wait ch h = Some None \<and> \<not> ch_cancelled ch h \<and> ch_now ch h - started < timeout)))"
proof -
  obtain r where r: "wait_for_child ch started timeout 0 = Some r" "wait_ok ch started timeout 0 r"
    using wait_ends [OF assms] by blast
  then show ?thesis
    by (cases "(ch, started, timeout, 0 :: nat, r)" rule: wait_ok.cases) (auto simp: waits_at_def)
qed

section \<open>What a child gets\<close>

fun target_names :: "validated_binding_target list \<Rightarrow> str list" where
  "target_names [] = []"
| "target_names (ValidatedEnvironment name # ts) = name # target_names ts"
| "target_names (ValidatedStandardInput # ts) = target_names ts"
| "target_names (ValidatedTemporaryFile name _ # ts) = name # target_names ts"

text \<open>A binding is in place: in its variable, on standard input, or in a file that its variable names.\<close>

definition delivered :: "injection \<Rightarrow> prepared_binding \<Rightarrow> bool" where
  "delivered st b =
     (case pb_target b of
        ValidatedEnvironment name \<Rightarrow> cm_environment (in_command st) name = Some (pb_value b)
      | ValidatedStandardInput \<Rightarrow> in_stdin st = Some (pb_value b)
      | ValidatedTemporaryFile name _ \<Rightarrow>
          \<exists>directory path. in_temp st = Some directory \<and> cm_environment (in_command st) name = Some path \<and>
            map_of (td_files directory) path = Some (pb_value b))"

definition keeps_files :: "injection \<Rightarrow> injection \<Rightarrow> bool" where
  "keeps_files st st' =
     (\<forall>d. in_temp st = Some d \<longrightarrow> (\<exists>d'. in_temp st' = Some d' \<and> map_of (td_files d) \<subseteq>\<^sub>m map_of (td_files d')))"

lemma keeps_files_refl: "keeps_files st st"
  by (simp add: keeps_files_def)

lemma keeps_files_trans: "keeps_files a b \<Longrightarrow> keeps_files b c \<Longrightarrow> keeps_files a c"
  unfolding keeps_files_def by (meson map_le_trans)

lemma map_of_fresh: "path \<notin> fst ` set files \<Longrightarrow> map_of files \<subseteq>\<^sub>m map_of ((path, v) # files)"
  by (auto simp: map_le_def dom_map_of_conv_image_fst)

lemma inject_binding_step:
  assumes "inject_binding euid dio sio b st = (Inr u, st')"
  shows "delivered st' b" "keeps_files st st'"
    "cm_program (in_command st') = cm_program (in_command st)" "cm_arguments (in_command st') = cm_arguments (in_command st)"
    "cm_directory (in_command st') = cm_directory (in_command st)"
    "name \<notin> set (target_names [pb_target b]) \<Longrightarrow> cm_environment (in_command st') name = cm_environment (in_command st) name"
    "pb_target b \<noteq> ValidatedStandardInput \<Longrightarrow> in_stdin st' = in_stdin st"
proof -
  have "delivered st' b \<and> keeps_files st st' \<and>
    cm_program (in_command st') = cm_program (in_command st) \<and> cm_arguments (in_command st') = cm_arguments (in_command st) \<and>
    cm_directory (in_command st') = cm_directory (in_command st) \<and>
    (\<forall>name. name \<notin> set (target_names [pb_target b]) \<longrightarrow> cm_environment (in_command st') name = cm_environment (in_command st) name) \<and>
    (pb_target b \<noteq> ValidatedStandardInput \<longrightarrow> in_stdin st' = in_stdin st)"
  proof (cases "pb_target b")
    case (ValidatedTemporaryFile n x)
    with assms obtain d p d' where d: "ensure_temp_directory euid dio (in_temp st) = Inr d"
      "write_temporary_secret sio x (pb_value b) d = Inr (p, d')"
      "st' = st\<lparr>in_command := command_env n p (in_command st), in_temp := Some d'\<rparr>"
      by (auto simp: inject_binding_def split: sum.splits)
    have "map_of (td_files d) \<subseteq>\<^sub>m map_of (td_files d') \<and> map_of (td_files d') p = Some (pb_value b)"
      using d(2) map_of_fresh by (auto simp: write_temporary_secret_def Let_def split: if_splits)
    moreover have "in_temp st = Some d0 \<Longrightarrow> d0 = d" for d0 using d(1) by (simp add: ensure_temp_directory_def)
    ultimately show ?thesis
      using d(3) ValidatedTemporaryFile by (auto simp: delivered_def keeps_files_def command_env_def)
  qed (use assms in \<open>auto simp: inject_binding_def delivered_def keeps_files_def command_env_def split: if_splits\<close>)
  then show "delivered st' b" "keeps_files st st'"
    "cm_program (in_command st') = cm_program (in_command st)" "cm_arguments (in_command st') = cm_arguments (in_command st)"
    "cm_directory (in_command st') = cm_directory (in_command st)"
    "name \<notin> set (target_names [pb_target b]) \<Longrightarrow> cm_environment (in_command st') name = cm_environment (in_command st) name"
    "pb_target b \<noteq> ValidatedStandardInput \<Longrightarrow> in_stdin st' = in_stdin st"
    by blast+
qed

lemma target_names_Cons: "set (target_names (t # ts)) = set (target_names [t]) \<union> set (target_names ts)"
  by (cases t) auto

lemma inject_bindings_frame:
  assumes "inject_bindings euid dio sios i bs st = (Inr u, st')"
  shows "keeps_files st st' \<and>
    cm_program (in_command st') = cm_program (in_command st) \<and> cm_arguments (in_command st') = cm_arguments (in_command st) \<and>
    cm_directory (in_command st') = cm_directory (in_command st) \<and>
    (\<forall>name. name \<notin> set (target_names (map pb_target bs)) \<longrightarrow> cm_environment (in_command st') name = cm_environment (in_command st) name) \<and>
    (ValidatedStandardInput \<notin> set (map pb_target bs) \<longrightarrow> in_stdin st' = in_stdin st)"
  using assms
proof (induction bs arbitrary: i st)
  case (Cons b bs)
  then obtain v st1 where one: "inject_binding euid dio (sios i) b st = (Inr v, st1)"
    and more: "inject_bindings euid dio sios (Suc i) bs st1 = (Inr u, st')"
    by (auto split: prod.splits sum.splits)
  note one = inject_binding_step [OF one] and more = Cons.IH [OF more]
  from one(2) more have "keeps_files st st'" using keeps_files_trans by blast
  moreover have "cm_environment (in_command st') name = cm_environment (in_command st) name"
    if "name \<notin> set (target_names (map pb_target (b # bs)))" for name
    using that more one(6) [of name] target_names_Cons [of "pb_target b" "map pb_target bs"] by auto
  ultimately show ?case using one(3,4,5,7) more by auto
qed (simp add: keeps_files_refl)

lemma map_le_get: "m \<subseteq>\<^sub>m m' \<Longrightarrow> m k = Some v \<Longrightarrow> m' k = Some v"
  by (metis domI map_le_def)

lemma delivered_stays:
  assumes "delivered st b" and "keeps_files st st'"
    and "\<forall>name \<in> set (target_names [pb_target b]). cm_environment (in_command st') name = cm_environment (in_command st) name"
    and "pb_target b = ValidatedStandardInput \<longrightarrow> in_stdin st' = in_stdin st"
  shows "delivered st' b"
  using assms
  by (cases "pb_target b") (auto simp: delivered_def keeps_files_def, metis map_le_get)

lemma inject_bindings_delivers:
  assumes "inject_bindings euid dio sios i bs st = (Inr u, st')"
    and "distinct (target_names (map pb_target bs))" and "count_list (map pb_target bs) ValidatedStandardInput \<le> 1"
  shows "\<forall>b \<in> set bs. delivered st' b"
  using assms
proof (induction bs arbitrary: i st)
  case (Cons b bs)
  then obtain v st1 where one: "inject_binding euid dio (sios i) b st = (Inr v, st1)"
    and more: "inject_bindings euid dio sios (Suc i) bs st1 = (Inr u, st')"
    by (auto split: prod.splits sum.splits)
  have d: "distinct (target_names (map pb_target bs))" "set (target_names [pb_target b]) \<inter> set (target_names (map pb_target bs)) = {}"
    using Cons.prems(2) by (cases "pb_target b"; simp)+
  have c: "count_list (map pb_target bs) ValidatedStandardInput \<le> 1"
    "pb_target b = ValidatedStandardInput \<Longrightarrow> ValidatedStandardInput \<notin> set (map pb_target bs)"
    using Cons.prems(3) by (auto simp: count_list_0_iff split: if_splits)
  have "delivered st' b"
    using inject_bindings_frame [OF more] d(2) c(2) by (intro delivered_stays [OF inject_binding_step(1) [OF one]]) auto
  with Cons.IH [OF more d(1) c(1)] show ?case by simp
qed simp


lemma validated_targets:
  assumes "list_all2 (binding_valid env) bs vs"
  shows "target_names (map vb_target vs) = env_names (map sbr_target bs)"
    "count_list (map vb_target vs) ValidatedStandardInput = count_list (map sbr_target bs) StandardInputTarget"
  using assms
proof (induction rule: list_all2_induct)
  case (Cons b bs v vs)
  have "target_valid (sbr_target b) (vb_target v)" using Cons.hyps(1) by (simp add: binding_valid_def)
  then have "(\<exists>name. sbr_target b = EnvironmentTarget name \<and> vb_target v = ValidatedEnvironment name) \<or>
      sbr_target b = StandardInputTarget \<and> vb_target v = ValidatedStandardInput \<or>
      (\<exists>name x y. sbr_target b = TemporaryFileTarget name x \<and> vb_target v = ValidatedTemporaryFile name y)"
    by (cases "(sbr_target b, vb_target v)" rule: target_valid.cases) auto
  with Cons show "target_names (map vb_target (v # vs)) = env_names (map sbr_target (b # bs))"
    "count_list (map vb_target (v # vs)) ValidatedStandardInput = count_list (map sbr_target (b # bs)) StandardInputTarget"
    by auto
qed auto

lemma resolved_targets:
  assumes "resolve v values = Inr run"
  shows "map pb_target (pr_bindings run) = map vb_target (vr_bindings v)"
proof -
  have "length values = length (vr_bindings v)" "pr_bindings run = map (\<lambda>(b, r). join_binding b r) (zip (vr_bindings v) values)"
    using assms by (auto simp: resolve_def result_simps resolve_loop_Inr split: if_splits)
  moreover have "map pb_target (map (\<lambda>(b, r). join_binding b r) (zip bs rs)) = map vb_target bs"
    if "length rs = length bs" for bs rs
    using that by (induction bs rs rule: list_induct2') (simp_all add: join_binding_def)
  ultimately show ?thesis by simp
qed

lemma run_targets:
  assumes "validate_run_request env request caller = Inr v" and "resolve v values = Inr run"
  shows "distinct (target_names (map pb_target (pr_bindings run)))"
    "count_list (map pb_target (pr_bindings run)) ValidatedStandardInput \<le> 1"
proof -
  have "validate_bindings env {} False (rn_bindings request) = Inr (vr_bindings v)"
    using assms(1) unfolding validate_run_request_def Let_def guard_Inr and_then_Inr_iff by auto
  then have b: "list_all2 (binding_valid env) (rn_bindings request) (vr_bindings v)"
    "distinct (env_names (map sbr_target (rn_bindings request)))"
    "count_list (map sbr_target (rn_bindings request)) StandardInputTarget \<le> 1"
    by (simp_all add: validate_bindings_Inr)
  then show "distinct (target_names (map pb_target (pr_bindings run)))"
    "count_list (map pb_target (pr_bindings run)) ValidatedStandardInput \<le> 1"
    unfolding resolved_targets [OF assms(2)] validated_targets [OF b(1)] by simp_all
qed

definition minimal_names :: "str set" where
  "minimal_names = {ascii ''PATH'', ascii ''TMPDIR''} \<union> set inherited_names"

lemma minimal_environment:
  "cm_environment c = Map.empty \<Longrightarrow> dom (cm_environment (apply_minimal_environment host executable c)) \<subseteq> minimal_names"
  by (auto simp: apply_minimal_environment_def Let_def command_env_def inherited_names_def minimal_names_def
      split: option.splits if_splits)

text \<open>C14: A child is started with the program, arguments and directory of the
  request. Every bound value is where its binding asks for it: in its environment variable, on
  standard input, or in a file of the private directory that its variable names. Every other
  variable is one of the six of the minimal environment, and standard input is empty when
  nothing is bound to it.\<close>

theorem child_gets_bound_values:
  assumes "validate_run_request env request caller = Inr v" and "resolve v values = Inr run"
    and "inject_bindings euid dio sios 0 (pr_bindings run) (start_injection host run) = (Inr (), st)"
  shows "(\<forall>b \<in> set (pr_bindings run). delivered st b) \<and>
    cm_program (in_command st) = rn_executable request \<and> cm_arguments (in_command st) = rn_arguments request \<and>
    cm_directory (in_command st) = rn_working_directory request \<and>
    (\<forall>name. cm_environment (in_command st) name \<noteq> None \<longrightarrow>
       name \<in> set (target_names (map pb_target (pr_bindings run))) \<or> name \<in> minimal_names) \<and>
    (ValidatedStandardInput \<notin> set (map pb_target (pr_bindings run)) \<longrightarrow> in_stdin st = None)"
proof -
  have same: "pr_executable run = rn_executable request" "pr_arguments run = rn_arguments request"
    "pr_working_directory run = rn_working_directory request"
    using assms(1,2) unfolding validate_run_request_def Let_def guard_Inr and_then_Inr_iff
    by (auto simp: resolve_def result_simps split: if_splits)
  have start: "cm_program (in_command (start_injection host run)) = pr_executable run"
    "cm_arguments (in_command (start_injection host run)) = pr_arguments run"
    "cm_directory (in_command (start_injection host run)) = pr_working_directory run"
    "in_stdin (start_injection host run) = None"
    by (simp_all add: start_injection_def apply_minimal_environment_def Let_def command_env_def inherited_names_def
        split: option.split)
  have env: "dom (cm_environment (in_command (start_injection host run))) \<subseteq> minimal_names"
    by (simp add: start_injection_def minimal_environment)
  note frame = inject_bindings_frame [OF assms(3)]
  have "name \<in> minimal_names"
    if "cm_environment (in_command st) name \<noteq> None" "name \<notin> set (target_names (map pb_target (pr_bindings run)))" for name
    using frame that env by auto
  then show ?thesis
    using inject_bindings_delivers [OF assms(3) run_targets [OF assms(1,2)]] frame unfolding same [symmetric] start [symmetric]
    by blast
qed


section \<open>Stale directories\<close>

text \<open>Only directories that this user made as run directories are removed; the marker must be a private
  file of this user that holds an identifier.\<close>

lemma cleanup_removes_own:
  assumes "cleanup_entries env euid entries = (r, removed)" and "name \<in> set removed"
  shows "\<exists>entry metadata marker txt. Some entry \<in> set entries \<and> se_name entry = name \<and> starts_with RUN_DIRECTORY_PREFIX name \<and>
    se_metadata entry = Some metadata \<and> fm_is_dir metadata \<and> fm_uid metadata = euid \<and>
    se_marker entry = Some marker \<and> fm_is_file marker \<and> fm_uid marker = euid \<and> fm_mode marker AND 0x3f = 0 \<and>
    se_content entry = Some txt \<and> parse_uuid env txt \<noteq> None"
  using assms
proof (induction env euid entries arbitrary: r removed rule: cleanup_entries.induct)
  case (3 env euid entry rest)
  then show ?case
    by (fastforce simp: skip_stale_def split: if_splits option.splits prod.splits)
qed auto

section \<open>Concrete runs\<close>

definition demo_child :: child where
  "demo_child = \<lparr>ch_id = 7, ch_try_wait = (\<lambda>k. Some (if k < 2 then None else Some (Some 0))), ch_wait = Some (Some 0),
     ch_kill = (\<lambda>_ _. KillNoProcess), ch_now = (\<lambda>k. k * 10000000), ch_cancelled = (\<lambda>_. False),
     ch_stdout = [Some (ascii ''token hun''), Some (ascii ''ter2'')], ch_stderr = [], ch_stdin = StdinOk,
     ch_finished = 30000000, ch_close = True\<rparr>"

lemma demo_child_clock: "clock_advances demo_child"
  unfolding clock_advances_def
proof (intro allI)
  fix t k :: nat
  have "t \<le> ch_now demo_child (max t k)" by (simp add: demo_child_def max_def)
  then show "\<exists>j \<ge> k. t \<le> ch_now demo_child j" by (meson max.cobounded2)
qed

theorem child_wait_ends_witness: "\<exists>r. wait_for_child demo_child 0 1000000000 0 = Some r"
  using child_wait_ends [OF demo_child_clock, of 0 1000000000] by blast

definition demo_request :: run_request where
  "demo_request = \<lparr>rn_executable = ascii ''/x'', rn_arguments = [], rn_working_directory = ascii ''/'',
     rn_bindings = [\<lparr>sbr_secret_ref = ascii ''id:5'', sbr_field = ascii ''pw'', sbr_target = EnvironmentTarget (ascii ''PW'')\<rparr>],
     rn_timeout_ms = 1000, rn_output_limit_bytes = 128\<rparr>"

definition demo_text_env :: text_env where
  "demo_text_env = \<lparr>nfc = (\<lambda>s. s), parse_uuid = (\<lambda>_. Some 5), show_uuid = (\<lambda>_. ascii ''5'')\<rparr>"

definition demo_validated :: validated_run_request where
  "demo_validated = \<lparr>vr_executable = ascii ''/x'', vr_arguments = [], vr_working_directory = ascii ''/'',
     vr_bindings = [\<lparr>vb_secret_ref = RefId (SecretId 5), vb_field = FieldName (ascii ''pw''), vb_target = ValidatedEnvironment (ascii ''PW'')\<rparr>],
     vr_timeout = 1000000000, vr_output_limit_bytes = 128\<rparr>"

definition demo_run :: prepared_run where
  "demo_run = \<lparr>pr_executable = ascii ''/x'', pr_arguments = [], pr_working_directory = ascii ''/'',
     pr_bindings = [\<lparr>pb_secret_id = SecretId 5, pb_field = FieldName (ascii ''pw''),
       pb_target = ValidatedEnvironment (ascii ''PW''), pb_value = ascii ''hunter2''\<rparr>],
     pr_timeout = 1000000000, pr_output_limit_bytes = 128\<rparr>"

definition demo_host :: host where
  "demo_host = \<lparr>ho_metadata = (\<lambda>_. None), ho_var = (\<lambda>_. None), ho_temp_dir = ascii ''/tmp'', ho_euid = 501\<rparr>"

definition demo_directory_io :: directory_io where
  "demo_directory_io = \<lparr>di_root = \<lparr>ri_first = StatNotFound, ri_create = MkdirFailed, ri_second = None, ri_chmod = False\<rparr>,
     di_created = None, di_chmod = False, di_marker = [], di_marker_open = False, di_marker_write = False\<rparr>"

definition demo_secret_io :: secret_io where
  "demo_secret_io = \<lparr>si_uuid = [], si_open = False, si_write = False, si_flush = False\<rparr>"

lemma demo_request_valid: "validate_run_request demo_text_env demo_request CliCaller = Inr demo_validated"
  by (simp add: validate_run_request_def demo_request_def demo_validated_def demo_text_env_def is_absolute_def starts_with_def
      has_nul_def ascii_def RUN_MAX_PATH_BYTES_def RUN_MAX_ARGUMENTS_def RUN_MAX_ARGUMENT_BYTES_def MAX_BINDINGS_def from_millis_def
      nanos_per_milli_def MAX_CLI_TIMEOUT_def from_secs_def nanos_per_sec_def MIN_OUTPUT_LIMIT_BYTES_def MAX_OUTPUT_LIMIT_BYTES_def
      parse_secret_ref_def strip_prefix_def parse_secret_id_def parse_field_name_def valid_field_name_def is_ascii_alphabetic_def
      is_ascii_alphanumeric_def validate_target_def validate_environment_name_def)

lemma hunter2_text: "valid_utf8 (ascii ''hunter2'')" "0 \<notin> set (ascii ''hunter2'')"
  by (simp_all add: ascii_def ascii_valid_utf8)

lemma demo_resolves:
  "resolve demo_validated [\<lparr>rb_secret_id = SecretId 5, rb_field = FieldName (ascii ''pw''), rb_value = ascii ''hunter2''\<rparr>] = Inr demo_run"
  using hunter2_text
  by (simp add: resolve_def demo_validated_def demo_run_def resolve_one_def is_environment_def MAX_INJECTED_BYTES_def contains_def windows_def)

lemma demo_injects:
  "\<exists>st. inject_bindings 501 dio sios 0 (pr_bindings demo_run) (start_injection demo_host demo_run) = (Inr (), st)"
  using hunter2_text by (simp add: demo_run_def inject_binding_def)

theorem child_gets_bound_values_witness:
  "\<exists>st. inject_bindings 501 demo_directory_io (\<lambda>_. demo_secret_io) 0 (pr_bindings demo_run) (start_injection demo_host demo_run) = (Inr (), st) \<and>
     cm_environment (in_command st) (ascii ''PW'') = Some (ascii ''hunter2'') \<and> in_stdin st = None"
proof -
  obtain st where st: "inject_bindings 501 demo_directory_io (\<lambda>_. demo_secret_io) 0 (pr_bindings demo_run)
      (start_injection demo_host demo_run) = (Inr (), st)" using demo_injects by blast
  from child_gets_bound_values [OF demo_request_valid demo_resolves st] st show ?thesis
    by (intro exI [of _ st]) (simp add: demo_run_def delivered_def)
qed


end
