(* ===== verification/Ladon_Runs.thy ===== *)
theory Ladon_Runs
  imports Ladon_Unlock
begin

text \<open>
  The coordinators of the agent broker (\<open>crates/ladon-app/src/agent_broker.rs\<close>): \<open>RunCoordinator\<close>, which
  admits one run at a time and lets a lock or a revocation wait for it to end, and
  \<open>UiLockCoordinator\<close>, which keeps a lock asked for by an agent apart from the local operations of the
  window.

  Every critical section is one operation on the state under the mutex. A wait on the condition
  variable is a step that is possible only when the condition of its loop is over. The cancellation of
  the active run is the flag \<open>ar_cancelled\<close>; it is set under the launch gate, so a launch is one step
  with its test. Poisoned mutexes are not modelled.
\<close>

section \<open>The run coordinator\<close>

record active_run =
  ar_cancelled :: bool
  ar_client :: uuid
  ar_secret_ids :: "secret_id list option"
  ar_running :: bool

record run_coordinator =
  co_active :: "active_run option"
  co_block_new :: bool

definition default_coordinator :: run_coordinator where
  "default_coordinator = \<lparr>co_active = None, co_block_new = False\<rparr>"

definition try_start :: "bool \<Rightarrow> uuid \<Rightarrow> run_coordinator \<Rightarrow> unit res \<times> run_coordinator" where
  "try_start cancelled client co =
     (if co_block_new co \<or> co_active co \<noteq> None then (Inl Busy, co)
      else (Inr (), co\<lparr>co_active := Some
        \<lparr>ar_cancelled = cancelled, ar_client = client, ar_secret_ids = None, ar_running = False\<rparr>\<rparr>))"

definition cancel_run :: "active_run \<Rightarrow> active_run" where
  "cancel_run run = run\<lparr>ar_cancelled := True\<rparr>"

definition cancel_active :: "run_coordinator \<Rightarrow> run_coordinator" where
  "cancel_active co = co\<lparr>co_active := map_option cancel_run (co_active co)\<rparr>"

text \<open>The first part of \<open>block_new_runs\<close>, which waits while another block is held, and the condition on
  which its second loop ends.\<close>

definition block_new_runs :: "run_coordinator \<Rightarrow> run_coordinator option" where
  "block_new_runs co = (if co_block_new co then None else Some (cancel_active (co\<lparr>co_block_new := True\<rparr>)))"

definition runs_drained :: "run_coordinator \<Rightarrow> bool" where
  "runs_drained co = (co_active co = None)"

definition try_block_new_runs :: "run_coordinator \<Rightarrow> bool \<times> run_coordinator" where
  "try_block_new_runs co =
     (if co_block_new co \<or> co_active co \<noteq> None then (False, co) else (True, co\<lparr>co_block_new := True\<rparr>))"

definition running_pairs :: "run_coordinator \<Rightarrow> (uuid \<times> secret_id) set" where
  "running_pairs co =
     (case co_active co of
        Some run \<Rightarrow>
          if ar_running run
          then Pair (ar_client run) ` set (case ar_secret_ids run of Some ids \<Rightarrow> ids | None \<Rightarrow> []) else {}
      | None \<Rightarrow> {})"

definition has_active_run :: "run_coordinator \<Rightarrow> bool" where
  "has_active_run co = (case co_active co of Some run \<Rightarrow> ar_running run | None \<Rightarrow> False)"

text \<open>Whether a run may use a pair: as long as its secrets are not known, it may.\<close>

definition matches_pair :: "uuid \<Rightarrow> secret_id \<Rightarrow> active_run \<Rightarrow> bool" where
  "matches_pair client i run =
     (ar_client run = client \<and> (case ar_secret_ids run of None \<Rightarrow> True | Some ids \<Rightarrow> i \<in> set ids))"

text \<open>The first component says whether the run has to be waited for.\<close>

definition block_for_revoke :: "uuid \<Rightarrow> secret_id \<Rightarrow> run_coordinator \<Rightarrow> (bool \<times> run_coordinator) option" where
  "block_for_revoke client i co =
     (if co_block_new co then None
      else
        let blocked = co\<lparr>co_block_new := True\<rparr>;
            matches = (case co_active co of Some run \<Rightarrow> matches_pair client i run | None \<Rightarrow> False)
        in Some (matches, if matches then cancel_active blocked else blocked))"

definition block_for_client_revoke :: "uuid \<Rightarrow> run_coordinator \<Rightarrow> run_coordinator option" where
  "block_for_client_revoke client co =
     (if co_block_new co then None
      else Some (co\<lparr>co_block_new := True,
        co_active := map_option (\<lambda>run. if ar_client run = client then cancel_run run else run) (co_active co)\<rparr>))"

definition client_drained :: "uuid \<Rightarrow> run_coordinator \<Rightarrow> bool" where
  "client_drained client co = (case co_active co of Some run \<Rightarrow> ar_client run \<noteq> client | None \<Rightarrow> True)"

definition set_secret_context :: "secret_id list \<Rightarrow> run_coordinator \<Rightarrow> unit res \<times> run_coordinator" where
  "set_secret_context ids co =
     (case co_active co of
        None \<Rightarrow> (Inl InvalidRequest, co)
      | Some run \<Rightarrow>
          if ar_secret_ids run \<noteq> None then (Inl InvalidRequest, co)
          else (Inr (), co\<lparr>co_active := Some (run\<lparr>ar_secret_ids := Some ids\<rparr>)\<rparr>))"

text \<open>\<open>spawned\<close> is the outcome of \<open>Command::spawn\<close> behind the launch gate.\<close>

definition spawn_child :: "'c res \<Rightarrow> run_coordinator \<Rightarrow> 'c res \<times> run_coordinator" where
  "spawn_child spawned co =
     (case co_active co of
        None \<Rightarrow> (Inl InvalidRequest, co)
      | Some run \<Rightarrow>
          if ar_secret_ids run = None then (Inl InvalidRequest, co)
          else if ar_cancelled run then (Inl ApprovalCancelled, co)
          else (case spawned of
                  Inl e \<Rightarrow> (Inl e, co)
                | Inr ch \<Rightarrow> (Inr ch, co\<lparr>co_active := Some (run\<lparr>ar_running := True\<rparr>)\<rparr>)))"

definition drop_lease :: "run_coordinator \<Rightarrow> run_coordinator" where
  "drop_lease co = co\<lparr>co_active := None\<rparr>"

definition drop_block :: "run_coordinator \<Rightarrow> run_coordinator" where
  "drop_block co = co\<lparr>co_block_new := False\<rparr>"

section \<open>The threads around it\<close>

text \<open>What a block is for, and how far the thread that asked for it is. A lease exists from \<open>try_start\<close> to
  its drop.\<close>

datatype block_kind = BlockAll | BlockPair uuid secret_id | BlockClient uuid

datatype block_phase = Draining block_kind | Holding block_kind

record run_system =
  sy_runs :: run_coordinator
  sy_lease :: bool
  sy_blocks :: "nat \<rightharpoonup> block_phase"

definition initial_runs :: "run_system \<Rightarrow> bool" where
  "initial_runs s = (s = \<lparr>sy_runs = default_coordinator, sy_lease = False, sy_blocks = Map.empty\<rparr>)"

fun drained :: "block_kind \<Rightarrow> run_coordinator \<Rightarrow> bool" where
  "drained BlockAll co = runs_drained co"
| "drained (BlockPair client i) co = runs_drained co"
| "drained (BlockClient client) co = client_drained client co"

inductive run_step :: "run_system \<Rightarrow> run_system \<Rightarrow> bool" where
  Start: "try_start cancelled client (sy_runs s) = (Inr (), co) \<Longrightarrow> run_step s (s\<lparr>sy_runs := co, sy_lease := True\<rparr>)"
| Cancel: "run_step s (s\<lparr>sy_runs := cancel_active (sy_runs s)\<rparr>)"
| Context: "sy_lease s \<Longrightarrow> set_secret_context ids (sy_runs s) = (r, co) \<Longrightarrow> run_step s (s\<lparr>sy_runs := co\<rparr>)"
| Spawn: "sy_lease s \<Longrightarrow> spawn_child (spawned :: unit res) (sy_runs s) = (r, co) \<Longrightarrow> run_step s (s\<lparr>sy_runs := co\<rparr>)"
| Finish: "sy_lease s \<Longrightarrow> run_step s (s\<lparr>sy_runs := drop_lease (sy_runs s), sy_lease := False\<rparr>)"
| Block: "sy_blocks s t = None \<Longrightarrow> block_new_runs (sy_runs s) = Some co \<Longrightarrow>
    run_step s (s\<lparr>sy_runs := co, sy_blocks := (sy_blocks s)(t \<mapsto> Draining BlockAll)\<rparr>)"
| TryBlock: "sy_blocks s t = None \<Longrightarrow> try_block_new_runs (sy_runs s) = (True, co) \<Longrightarrow>
    run_step s (s\<lparr>sy_runs := co, sy_blocks := (sy_blocks s)(t \<mapsto> Holding BlockAll)\<rparr>)"
| BlockPair: "sy_blocks s t = None \<Longrightarrow> block_for_revoke client i (sy_runs s) = Some (matches, co) \<Longrightarrow>
    run_step s (s\<lparr>sy_runs := co, sy_blocks := (sy_blocks s)(t \<mapsto>
      (if matches then Draining else Holding) (BlockPair client i))\<rparr>)"
| BlockClient: "sy_blocks s t = None \<Longrightarrow> block_for_client_revoke client (sy_runs s) = Some co \<Longrightarrow>
    run_step s (s\<lparr>sy_runs := co, sy_blocks := (sy_blocks s)(t \<mapsto> Draining (BlockClient client))\<rparr>)"
| Drained: "sy_blocks s t = Some (Draining kind) \<Longrightarrow> drained kind (sy_runs s) \<Longrightarrow>
    run_step s (s\<lparr>sy_blocks := (sy_blocks s)(t \<mapsto> Holding kind)\<rparr>)"
| Unblock: "sy_blocks s t = Some (Holding kind) \<Longrightarrow>
    run_step s (s\<lparr>sy_runs := drop_block (sy_runs s), sy_blocks := (sy_blocks s)(t := None)\<rparr>)"

section \<open>Blocks keep runs out\<close>

fun concerns :: "block_kind \<Rightarrow> active_run \<Rightarrow> bool" where
  "concerns BlockAll run = True"
| "concerns (BlockPair client i) run = matches_pair client i run"
| "concerns (BlockClient client) run = (ar_client run = client)"

fun waits_for :: "block_kind \<Rightarrow> active_run \<Rightarrow> bool" where
  "waits_for (BlockClient client) run = (ar_client run = client)"
| "waits_for _ run = True"

fun phase_ok :: "run_coordinator \<Rightarrow> block_phase \<Rightarrow> bool" where
  "phase_ok co (Draining kind) = (\<forall>run. co_active co = Some run \<longrightarrow> waits_for kind run \<longrightarrow> ar_cancelled run)"
| "phase_ok co (Holding kind) = (\<forall>run. co_active co = Some run \<longrightarrow> \<not> concerns kind run)"

definition runs_inv :: "run_system \<Rightarrow> bool" where
  "runs_inv s =
     ((sy_lease s \<longleftrightarrow> co_active (sy_runs s) \<noteq> None) \<and>
      (co_block_new (sy_runs s) \<longleftrightarrow> sy_blocks s \<noteq> Map.empty) \<and>
      (\<forall>t u. sy_blocks s t \<noteq> None \<longrightarrow> sy_blocks s u \<noteq> None \<longrightarrow> t = u) \<and>
      (\<forall>t p. sy_blocks s t = Some p \<longrightarrow> phase_ok (sy_runs s) p) \<and>
      (\<forall>run. co_active (sy_runs s) = Some run \<longrightarrow> ar_running run \<longrightarrow> ar_secret_ids run \<noteq> None))"

lemmas run_defs = try_start_def cancel_run_def cancel_active_def block_new_runs_def runs_drained_def try_block_new_runs_def
  matches_pair_def block_for_revoke_def block_for_client_revoke_def client_drained_def set_secret_context_def spawn_child_def
  drop_lease_def drop_block_def

text \<open>A change of the active run that keeps its client, cancels it at most, and learns its secrets at most
  once, keeps every block in place.\<close>

definition run_grows :: "active_run \<Rightarrow> active_run \<Rightarrow> bool" where
  "run_grows run run' =
     (ar_client run' = ar_client run \<and> (ar_cancelled run \<longrightarrow> ar_cancelled run') \<and>
      (ar_secret_ids run \<noteq> None \<longrightarrow> ar_secret_ids run' = ar_secret_ids run))"

lemma concerns_grows: "concerns kind run' \<Longrightarrow> run_grows run run' \<Longrightarrow> concerns kind run"
  by (cases kind) (auto simp: matches_pair_def run_grows_def split: option.splits)

lemma phase_ok_grows:
  assumes "phase_ok co p" and "\<forall>run'. co_active co' = Some run' \<longrightarrow> (\<exists>run. co_active co = Some run \<and> run_grows run run')"
  shows "phase_ok co' p"
proof (cases p)
  case (Draining kind)
  then show ?thesis using assms by (cases kind) (fastforce simp: run_grows_def)+
next
  case (Holding kind)
  then show ?thesis using assms concerns_grows by fastforce
qed

lemma runs_inv_grows:
  assumes inv: "runs_inv s"
    and block: "co_block_new co = co_block_new (sy_runs s)"
    and act: "co_active co = None \<longleftrightarrow> co_active (sy_runs s) = None"
    and grows: "\<forall>run'. co_active co = Some run' \<longrightarrow> (\<exists>run. co_active (sy_runs s) = Some run \<and> run_grows run run' \<and>
      (ar_running run' \<longrightarrow> ar_secret_ids run' \<noteq> None))"
  shows "runs_inv (s\<lparr>sy_runs := co\<rparr>)"
proof -
  have "phase_ok co p" if "sy_blocks s t = Some p" for t p
    using phase_ok_grows [of "sy_runs s" p co] inv grows that unfolding runs_inv_def by blast
  then show ?thesis
    using inv block act grows unfolding runs_inv_def by auto
qed


text \<open>A block that is the first one.\<close>

lemma runs_inv_block:
  assumes inv: "runs_inv s" and free: "\<not> co_block_new (sy_runs s)"
    and co: "co_block_new co" "co_active co = None \<longleftrightarrow> co_active (sy_runs s) = None"
    and ids: "\<forall>run. co_active co = Some run \<longrightarrow> ar_running run \<longrightarrow> ar_secret_ids run \<noteq> None"
    and ok: "phase_ok co p"
  shows "runs_inv (s\<lparr>sy_runs := co, sy_blocks := (sy_blocks s)(t \<mapsto> p)\<rparr>)"
proof -
  have "sy_blocks s = Map.empty" using inv free by (simp add: runs_inv_def)
  then show ?thesis using inv co ids ok unfolding runs_inv_def by simp
qed

lemma run_step_inv: "run_step s s' \<Longrightarrow> runs_inv s \<Longrightarrow> runs_inv s'"
proof (induction rule: run_step.induct)
  case (Start cancelled client s co)
  then have "sy_blocks s = Map.empty" "co_active (sy_runs s) = None" "\<not> co_block_new (sy_runs s)"
    by (auto simp: run_defs runs_inv_def split: if_splits)
  with Start show ?case by (auto simp: run_defs runs_inv_def)
next
  case (Cancel s)
  then show ?case
    by (intro runs_inv_grows) (auto simp: cancel_active_def cancel_run_def run_grows_def runs_inv_def)
next
  case (Context s ids r co)
  then show ?case
    by (intro runs_inv_grows) (auto simp: set_secret_context_def run_grows_def runs_inv_def split: option.splits if_splits)
next
  case (Spawn s spawned r co)
  then show ?case
    by (intro runs_inv_grows) (auto simp: spawn_child_def run_grows_def runs_inv_def split: option.splits if_splits sum.splits)
next
  case (Finish s)
  have "phase_ok (drop_lease co) p" for co p by (cases p) (simp_all add: drop_lease_def)
  with Finish show ?case by (auto simp: runs_inv_def drop_lease_def)
next
  case (Block s t co)
  then show ?case
    by (intro runs_inv_block) (auto simp: block_new_runs_def cancel_active_def cancel_run_def runs_inv_def split: if_splits)
next
  case (TryBlock s t co)
  then show ?case
    by (intro runs_inv_block) (auto simp: try_block_new_runs_def runs_inv_def split: if_splits)
next
  case (BlockPair s t client i matches co)
  then show ?case
    by (intro runs_inv_block)
      (auto simp: block_for_revoke_def cancel_active_def cancel_run_def runs_inv_def Let_def split: if_splits option.splits)
next
  case (BlockClient s t client co)
  let ?mark = "\<lambda>run. if ar_client run = client then cancel_run run else run"
  have free: "\<not> co_block_new (sy_runs s)"
    and co: "co = sy_runs s\<lparr>co_block_new := True, co_active := map_option ?mark (co_active (sy_runs s))\<rparr>"
    using BlockClient.hyps(2) by (simp_all add: block_for_client_revoke_def split: if_splits)
  have ids: "ar_running (?mark run) = ar_running run" "ar_secret_ids (?mark run) = ar_secret_ids run" for run
    by (simp_all add: cancel_run_def)
  have run: "ar_running run \<longrightarrow> ar_secret_ids run \<noteq> None" if "co_active (sy_runs s) = Some run" for run
    using BlockClient.prems that by (simp add: runs_inv_def)
  show ?case
  proof (rule runs_inv_block [OF BlockClient.prems free])
    show "co_block_new co" "co_active co = None \<longleftrightarrow> co_active (sy_runs s) = None" by (simp_all add: co)
    show "\<forall>run. co_active co = Some run \<longrightarrow> ar_running run \<longrightarrow> ar_secret_ids run \<noteq> None"
      using run ids by (cases "co_active (sy_runs s)") (simp_all add: co)
    show "phase_ok co (Draining (BlockClient client))"
      by (cases "co_active (sy_runs s)") (simp_all add: co cancel_run_def)
  qed
next
  case (Drained s t kind)
  then have "phase_ok (sy_runs s) (Holding kind)"
    by (cases kind) (auto simp: runs_drained_def client_drained_def)
  with Drained show ?case by (auto simp: runs_inv_def)
next
  case (Unblock s t kind)
  then have "sy_blocks s u = None" if "u \<noteq> t" for u using that unfolding runs_inv_def by blast
  then have none: "(sy_blocks s)(t := None) = Map.empty" by (simp add: fun_eq_iff)
  show ?case using Unblock.prems unfolding none by (simp add: runs_inv_def drop_block_def)
qed

interpretation runs: step_machine run_step initial_runs runs_inv
proof
  show "runs_inv s" if "initial_runs s" for s
    using that by (simp add: initial_runs_def runs_inv_def default_coordinator_def)
qed (rule run_step_inv)

text \<open>C22: In every reachable state at most one thread blocks runs, and as long as one
  does no run starts. A thread that holds a block of all runs, of a client or of a pair of client and
  secret sees no active run that concerns it. While it waits for a run to end, that run is
  cancelled and cannot spawn its child any more.\<close>

theorem run_block_excludes:
  assumes "initial_runs s0" and "run_step\<^sup>*\<^sup>* s0 s" and "sy_blocks s t = Some p"
  shows "(\<forall>u. sy_blocks s u \<noteq> None \<longrightarrow> u = t) \<and>
    (\<forall>cancelled client. fst (try_start cancelled client (sy_runs s)) = Inl Busy) \<and>
    (\<forall>kind. p = Holding kind \<longrightarrow> (\<forall>run. co_active (sy_runs s) = Some run \<longrightarrow> \<not> concerns kind run)) \<and>
    (\<forall>kind run. p = Draining kind \<longrightarrow> co_active (sy_runs s) = Some run \<longrightarrow> concerns kind run \<longrightarrow>
       ar_cancelled run \<and> (\<forall>spawned :: unit res. \<exists>e. fst (spawn_child spawned (sy_runs s)) = Inl e))"
proof -
  have inv: "runs_inv s" by (rule runs.reach_inv [OF assms(1,2)])
  then have ok: "phase_ok (sy_runs s) p" using assms(3) by (simp add: runs_inv_def)
  show ?thesis
  proof (intro conjI allI impI)
    show "u = t" if "sy_blocks s u \<noteq> None" for u using inv assms(3) that by (simp add: runs_inv_def)
    have "co_block_new (sy_runs s)" using inv assms(3) by (auto simp: runs_inv_def)
    then show "fst (try_start cancelled client (sy_runs s)) = Inl Busy" for cancelled client by (simp add: try_start_def)
    show "\<not> concerns kind run" if "p = Holding kind" "co_active (sy_runs s) = Some run" for kind run
      using ok that by simp
    fix kind run
    assume r: "p = Draining kind" "co_active (sy_runs s) = Some run" "concerns kind run"
    with ok show c: "ar_cancelled run" by (cases kind) auto
    show "\<exists>e. fst (spawn_child spawned (sy_runs s)) = Inl e" for spawned :: "unit res"
      using r(2) c by (simp add: spawn_child_def)
  qed
qed


definition demo_blocked :: run_system where
  "demo_blocked =
     \<lparr>sy_runs = \<lparr>co_active = Some \<lparr>ar_cancelled = True, ar_client = 3, ar_secret_ids = None, ar_running = False\<rparr>, co_block_new = True\<rparr>,
      sy_lease = True, sy_blocks = [0 \<mapsto> Draining (BlockClient 3)]\<rparr>"

theorem run_block_excludes_witness:
  "ar_cancelled (the (co_active (sy_runs demo_blocked))) \<and> fst (try_start False 4 (sy_runs demo_blocked)) = Inl Busy"
proof -
  define s0 where "s0 = \<lparr>sy_runs = default_coordinator, sy_lease = False, sy_blocks = Map.empty\<rparr>"
  define s1 where "s1 = s0\<lparr>sy_runs := snd (try_start False 3 (sy_runs s0)), sy_lease := True\<rparr>"
  have "run_step s0 s1"
    unfolding s1_def by (rule run_step.Start [of False 3]) (simp add: s0_def try_start_def default_coordinator_def)
  moreover have "run_step s1 demo_blocked"
    using run_step.BlockClient [of s1 0 3 "sy_runs demo_blocked"]
    by (simp add: s1_def s0_def demo_blocked_def block_for_client_revoke_def try_start_def default_coordinator_def cancel_run_def)
  ultimately have "run_step\<^sup>*\<^sup>* s0 demo_blocked" by simp
  moreover have "initial_runs s0" by (simp add: initial_runs_def s0_def)
  moreover have "sy_blocks demo_blocked 0 = Some (Draining (BlockClient 3))" by (simp add: demo_blocked_def)
  ultimately show ?thesis
    using run_block_excludes [of s0 demo_blocked 0 "Draining (BlockClient 3)"] by (simp add: demo_blocked_def)
qed

section \<open>Locks of the window\<close>

record ui_lock =
  ul_requested :: u64
  ul_acknowledged :: u64
  ul_ready :: "u64 option"
  ul_local_operation :: bool
  ul_connected :: bool
  ul_unlock_requests :: unlock_requests

definition new_ui_lock :: ui_lock where
  "new_ui_lock = \<lparr>ul_requested = 0, ul_acknowledged = 0, ul_ready = None, ul_local_operation = False, ul_connected = True,
     ul_unlock_requests = default_unlock_requests\<rparr>"

text \<open>A wait is the answer \<open>None\<close>.\<close>

definition begin_request :: "ui_lock \<Rightarrow> u64 res option \<times> ui_lock" where
  "begin_request u =
     (if (ul_requested u > ul_acknowledged u \<or> ul_local_operation u) \<and> ul_connected u then (None, u)
      else if \<not> ul_connected u then (Some (Inl EndpointUnavailable), u)
      else case checked_add (ul_requested u) 1 of
          None \<Rightarrow> (Some (Inl ProcessFailure), u)
        | Some i \<Rightarrow> (Some (Inr i), u\<lparr>ul_requested := i, ul_unlock_requests := cancel_unlock (ul_unlock_requests u)\<rparr>))"

definition try_begin_local_operation :: "ui_lock \<Rightarrow> bool res \<times> ui_lock" where
  "try_begin_local_operation u =
     (if \<not> ul_connected u then (Inl EndpointUnavailable, u)
      else if ul_requested u > ul_acknowledged u then (Inr False, u)
      else if ul_local_operation u then (Inl Busy, u)
      else (Inr True, u\<lparr>ul_local_operation := True\<rparr>))"

definition wait_begin_local_operation :: "ui_lock \<Rightarrow> bool res option \<times> ui_lock" where
  "wait_begin_local_operation u =
     (if \<not> ul_connected u then (Some (Inl EndpointUnavailable), u)
      else if ul_requested u > ul_acknowledged u then (Some (Inr False), u)
      else if \<not> ul_local_operation u then (Some (Inr True), u\<lparr>ul_local_operation := True\<rparr>)
      else (None, u))"

text \<open>The two critical sections of \<open>finish_request\<close>.\<close>

definition announce_request :: "u64 \<Rightarrow> ui_lock \<Rightarrow> unit res \<times> ui_lock" where
  "announce_request i u =
     (if i \<noteq> ul_requested u \<or> i \<le> ul_acknowledged u then (Inl InvalidRequest, u)
      else (Inr (), u\<lparr>ul_ready := Some i\<rparr>))"

definition await_acknowledgement :: "u64 \<Rightarrow> ui_lock \<Rightarrow> unit res option" where
  "await_acknowledgement i u =
     (if ul_acknowledged u < i \<and> ul_connected u then None
      else if ul_acknowledged u \<ge> i then Some (Inr ()) else Some (Inl EndpointUnavailable))"

definition pending_lock_request :: "ui_lock \<Rightarrow> u64 option" where
  "pending_lock_request u =
     (if ul_ready u = Some (ul_requested u) \<and> ul_requested u > ul_acknowledged u then Some (ul_requested u) else None)"

definition unlock_blocked :: "ui_lock \<Rightarrow> bool" where
  "unlock_blocked u = (\<not> ul_connected u \<or> ul_local_operation u \<or> ul_requested u > ul_acknowledged u)"

definition request_in_progress :: "ui_lock \<Rightarrow> bool" where
  "request_in_progress u = (ul_requested u > ul_acknowledged u)"

definition acknowledge :: "u64 \<Rightarrow> ui_lock \<Rightarrow> unit res \<times> ui_lock" where
  "acknowledge i u =
     (if i \<noteq> ul_requested u \<or> ul_ready u \<noteq> Some i \<or> i \<le> ul_acknowledged u then (Inl InvalidRequest, u)
      else (Inr (), u\<lparr>ul_acknowledged := i, ul_ready := None\<rparr>))"

definition disconnect :: "ui_lock \<Rightarrow> ui_lock" where
  "disconnect u = u\<lparr>ul_connected := False, ul_unlock_requests := cancel_unlock (ul_unlock_requests u)\<rparr>"

definition drop_local_operation :: "ui_lock \<Rightarrow> ui_lock" where
  "drop_local_operation u = u\<lparr>ul_local_operation := False\<rparr>"

datatype ui_op =
    BeginRequest | TryLocal | WaitLocal | DropLocal | Announce u64 | Acknowledge u64 | Disconnect

primrec exec_ui :: "ui_op \<Rightarrow> ui_lock \<Rightarrow> ui_lock" where
  "exec_ui BeginRequest u = snd (begin_request u)"
| "exec_ui TryLocal u = snd (try_begin_local_operation u)"
| "exec_ui WaitLocal u = snd (wait_begin_local_operation u)"
| "exec_ui DropLocal u = drop_local_operation u"
| "exec_ui (Announce i) u = snd (announce_request i u)"
| "exec_ui (Acknowledge i) u = snd (acknowledge i u)"
| "exec_ui Disconnect u = disconnect u"

lemmas ui_defs = begin_request_def try_begin_local_operation_def wait_begin_local_operation_def announce_request_def
  acknowledge_def disconnect_def drop_local_operation_def

text \<open>At most one external lock is in progress, and none during a local operation.\<close>

definition ui_inv :: "ui_lock \<Rightarrow> bool" where
  "ui_inv u =
     ((unat (ul_requested u) = unat (ul_acknowledged u) \<or>
         unat (ul_requested u) = Suc (unat (ul_acknowledged u)) \<and> \<not> ul_local_operation u) \<and>
      (\<forall>i. ul_ready u = Some i \<longrightarrow> i = ul_requested u \<and> ul_requested u > ul_acknowledged u))"

lemma exec_ui_inv: "ui_inv u \<Longrightarrow> ui_inv (exec_ui op u)"
  by (cases op) (auto simp: ui_inv_def ui_defs word_less_nat_alt word_le_nat_alt checked_add_Some_iff split: option.split)

interpretation ui: op_machine exec_ui "\<lambda>u. u = new_ui_lock" ui_inv
proof
  show "ui_inv u" if "u = new_ui_lock" for u using that by (simp add: ui_inv_def new_ui_lock_def)
qed (rule exec_ui_inv)

text \<open>What was announced and acknowledged in a run.\<close>

lemma ui_history:
  fixes ops :: "ui_op list"
  assumes "u = fold exec_ui ops new_ui_lock"
  shows "(\<forall>i. ul_ready u = Some i \<longrightarrow> Announce i \<in> set ops) \<and> (ul_acknowledged u \<noteq> 0 \<longrightarrow> Acknowledge (ul_acknowledged u) \<in> set ops)"
  unfolding assms
proof (induction ops rule: rev_induct)
  case Nil
  then show ?case by (simp add: new_ui_lock_def)
next
  case (snoc op ops)
  let ?u = "fold exec_ui ops new_ui_lock"
  have "ul_ready (exec_ui op ?u) = ul_ready ?u \<or> ul_ready (exec_ui op ?u) = None \<or>
      (\<exists>i. op = Announce i \<and> ul_ready (exec_ui op ?u) = Some i)"
    "ul_acknowledged (exec_ui op ?u) = ul_acknowledged ?u \<or> op = Acknowledge (ul_acknowledged (exec_ui op ?u))"
    by (cases op; auto simp: ui_defs split: option.split)+
  with snoc show ?case by auto
qed


text \<open>While a lock asked for by an agent is in progress no local operation of the
  window runs or starts and no unlock is possible; its beginning cancels a waiting unlock request.
  The window is asked to lock only after the lock was announced, and the agent is told
  that it is locked only after the window acknowledged this lock or a later one.\<close>

theorem external_lock_exclusive:
  assumes "u = fold exec_ui ops new_ui_lock"
  shows "(request_in_progress u \<longrightarrow> \<not> ul_local_operation u \<and> unlock_blocked u \<and>
      snd (try_begin_local_operation u) = u \<and> snd (wait_begin_local_operation u) = u) \<and>
    (begin_request u = (Some (Inr i), u') \<longrightarrow> \<not> ul_local_operation u \<and> request_in_progress u' \<and>
      unat i = Suc (unat (ul_acknowledged u')) \<and>
      (\<forall>st. uq_state (ul_unlock_requests u') = Some st \<longrightarrow> us_decision st = Some (Inl ApprovalCancelled))) \<and>
    (pending_lock_request u = Some i \<longrightarrow> Announce i \<in> set ops) \<and>
    (0 < i \<longrightarrow> await_acknowledgement i u = Some (Inr ()) \<longrightarrow> (\<exists>j \<ge> i. Acknowledge j \<in> set ops))"
proof (intro conjI impI)
  have inv: "ui_inv u" using ui.run_inv [OF refl] assms by simp
  note hist = ui_history [OF assms]
  {
    assume p: "request_in_progress u"
    show l: "\<not> ul_local_operation u" using p inv by (auto simp: ui_inv_def request_in_progress_def word_less_nat_alt)
    show "unlock_blocked u" using p by (simp add: unlock_blocked_def request_in_progress_def)
    show "snd (try_begin_local_operation u) = u" "snd (wait_begin_local_operation u) = u"
      using p l by (simp_all add: ui_defs request_in_progress_def)
  next
    assume b: "begin_request u = (Some (Inr i), u')"
    then have b': "\<not> ul_local_operation u" "\<not> ul_requested u > ul_acknowledged u" "checked_add (ul_requested u) 1 = Some i"
      "u' = u\<lparr>ul_requested := i, ul_unlock_requests := cancel_unlock (ul_unlock_requests u)\<rparr>"
      by (auto simp: begin_request_def split: if_splits option.splits)
    then show "\<not> ul_local_operation u" by simp
    show n: "unat i = Suc (unat (ul_acknowledged u'))"
      using b' inv by (auto simp: ui_inv_def checked_add_Some_iff word_less_nat_alt)
    then show "request_in_progress u'" using b'(4) by (simp add: request_in_progress_def word_less_nat_alt)
    show "\<forall>st. uq_state (ul_unlock_requests u') = Some st \<longrightarrow> us_decision st = Some (Inl ApprovalCancelled)"
      using b'(4) by (auto simp: cancel_unlock_def)
  next
    assume "pending_lock_request u = Some i"
    then show "Announce i \<in> set ops" using hist by (auto simp: pending_lock_request_def split: if_splits)
  next
    assume "0 < i" "await_acknowledgement i u = Some (Inr ())"
    then have "i \<le> ul_acknowledged u" by (auto simp: await_acknowledgement_def split: if_splits)
    moreover from this \<open>0 < i\<close> have "ul_acknowledged u \<noteq> 0" by auto
    ultimately show "\<exists>j \<ge> i. Acknowledge j \<in> set ops" using hist by blast
  }
qed

theorem external_lock_exclusive_witness:
  "request_in_progress (fold exec_ui [BeginRequest, Announce 1] new_ui_lock) \<and>
   \<not> ul_local_operation (fold exec_ui [BeginRequest, Announce 1] new_ui_lock) \<and>
   unlock_blocked (fold exec_ui [BeginRequest, Announce 1] new_ui_lock)"
proof -
  have "request_in_progress (fold exec_ui [BeginRequest, Announce 1] new_ui_lock)"
    by (simp add: ui_defs new_ui_lock_def request_in_progress_def checked_add_def)
  with external_lock_exclusive [OF refl, of "[BeginRequest, Announce 1]"] show ?thesis by blast
qed

end
