(* ===== verification/Ladon_Agent.thy ===== *)
theory Ladon_Agent
  imports Ladon_Approval_Properties Ladon_Controller_Properties Ladon_Supervisor_Properties Ladon_Runs
begin

text \<open>
  The agent broker (\<open>AgentBroker\<close> of \<open>crates/ladon-app/src/agent_broker.rs\<close>): how a request of an agent
  goes through the approval coordinator, the run coordinator, the vault controller and the
  supervisor.

  A handler is a sequence of critical sections on the shared state \<open>agent_world\<close>. Before each of
  them the other threads may do anything: \<open>en_others\<close> is an arbitrary function of the number of the section,
  and the clocks are read anew in each. A wait repeats its section until it is answered and is
  \<open>None\<close> if it never is. The \<open>RunCancellation\<close> of a connection is a token of the approval
  coordinator; while its run is active it is the flag of the run as well, and \<open>share_cancellation\<close> keeps the
  two together. The log records what was planned, resolved and launched, and in which state.
\<close>

section \<open>Handlers\<close>

record agent_world =
  aw_approval :: approval_state
  aw_runs :: run_coordinator
  aw_controller :: vault_controller
  aw_ui :: "ui_lock option"
  aw_supervisor :: supervisor
  aw_shutting_down :: bool

datatype agent_event =
    Planned vault_controller approval_plan
  | Resolved reading agent_world "resolved_secret_binding list"
  | Launched reading agent_world command

record handler_state =
  hs_turn :: nat
  hs_world :: agent_world
  hs_log :: "agent_event list"

record agent_env =
  en_others :: "nat \<Rightarrow> agent_world \<Rightarrow> agent_world"
  en_reading :: "nat \<Rightarrow> reading"
  en_now :: "nat \<Rightarrow> instant"

type_synonym 'a handler = "handler_state \<Rightarrow> ('a res \<times> handler_state) option"

definition critical ::
    "agent_env \<Rightarrow> (reading \<Rightarrow> instant \<Rightarrow> agent_world \<Rightarrow> 'a \<times> agent_world) \<Rightarrow> handler_state \<Rightarrow> 'a \<times> handler_state" where
  "critical env f s =
     (case f (en_reading env (hs_turn s)) (en_now env (hs_turn s)) (en_others env (hs_turn s) (hs_world s)) of
        (x, w) \<Rightarrow> (x, s\<lparr>hs_turn := Suc (hs_turn s), hs_world := w\<rparr>))"

definition act :: "agent_env \<Rightarrow> (reading \<Rightarrow> instant \<Rightarrow> agent_world \<Rightarrow> 'a res \<times> agent_world) \<Rightarrow> 'a handler" where
  "act env f s = Some (critical env f s)"

definition pure :: "'a res \<Rightarrow> 'a handler" where
  "pure x s = Some (x, s)"

text \<open>The \<open>?\<close> operator: an error ends the handler.\<close>

definition hbind :: "'a handler \<Rightarrow> ('a \<Rightarrow> 'b handler) \<Rightarrow> 'b handler" where
  "hbind m f s = Option.bind (m s) (\<lambda>(r, s'). case r of Inl e \<Rightarrow> Some (Inl e, s') | Inr x \<Rightarrow> f x s')"

text \<open>What happens on every way out, like the drop of a guard.\<close>

definition on_exit :: "'a handler \<Rightarrow> (handler_state \<Rightarrow> handler_state) \<Rightarrow> 'a handler" where
  "on_exit m g s = map_option (\<lambda>(r, s'). (r, g s')) (m s)"

definition note_event :: "agent_event \<Rightarrow> unit handler" where
  "note_event e s = Some (Inr (), s\<lparr>hs_log := hs_log s @ [e]\<rparr>)"

partial_function (option) await ::
    "agent_env \<Rightarrow> (reading \<Rightarrow> instant \<Rightarrow> agent_world \<Rightarrow> 'a option \<times> agent_world) \<Rightarrow> handler_state \<Rightarrow> ('a \<times> handler_state) option" where
  "await env f s =
     (case critical env f s of
        (Some x, s') \<Rightarrow> Some (x, s')
      | (None, s') \<Rightarrow> await env f s')"

section \<open>Shared operations\<close>

definition active_cancelled :: "run_coordinator \<Rightarrow> bool" where
  "active_cancelled co = (case co_active co of Some run \<Rightarrow> ar_cancelled run | None \<Rightarrow> False)"

definition share_cancellation :: "token \<Rightarrow> agent_world \<Rightarrow> agent_world" where
  "share_cancellation t w =
     (if is_cancelled (aw_approval w) t \<or> active_cancelled (aw_runs w)
      then w\<lparr>aw_approval := cancel_tokens [t] (aw_approval w), aw_runs := cancel_active (aw_runs w)\<rparr>
      else w)"

definition on_approval :: "(approval_state \<Rightarrow> 'a \<times> approval_state) \<Rightarrow> agent_world \<Rightarrow> 'a \<times> agent_world" where
  "on_approval f w = (case f (aw_approval w) of (x, st) \<Rightarrow> (x, w\<lparr>aw_approval := st\<rparr>))"

definition on_runs :: "(run_coordinator \<Rightarrow> 'a \<times> run_coordinator) \<Rightarrow> agent_world \<Rightarrow> 'a \<times> agent_world" where
  "on_runs f w = (case f (aw_runs w) of (x, co) \<Rightarrow> (x, w\<lparr>aw_runs := co\<rparr>))"

definition on_ui :: "(ui_lock \<Rightarrow> 'a \<times> ui_lock) \<Rightarrow> 'a \<Rightarrow> agent_world \<Rightarrow> 'a \<times> agent_world" where
  "on_ui f absent w =
     (case aw_ui w of None \<Rightarrow> (absent, w) | Some u \<Rightarrow> (case f u of (x, u') \<Rightarrow> (x, w\<lparr>aw_ui := Some u'\<rparr>)))"

definition reading_of :: "agent_env \<Rightarrow> (reading \<Rightarrow> agent_world \<Rightarrow> 'a res) \<Rightarrow> 'a handler" where
  "reading_of env f = act env (\<lambda>r now w. (f r w, w))"

definition phase_name :: "vault_ui_phase \<Rightarrow> str" where
  "phase_name p =
     (case p of
        PhaseFirstRun \<Rightarrow> ascii ''first_run''
      | PhaseLocked \<Rightarrow> ascii ''locked''
      | PhaseRecoveryRequired \<Rightarrow> ascii ''recovery_required''
      | PhaseUnlocked \<Rightarrow> ascii ''unlocked'')"

definition termination_name :: "run_termination \<Rightarrow> str" where
  "termination_name t =
     (case t of Exited \<Rightarrow> ascii ''exited'' | TimedOut \<Rightarrow> ascii ''timed_out'' | Cancelled \<Rightarrow> ascii ''cancelled'')"

definition to_rpc_result :: "run_result \<Rightarrow> rpc_result" where
  "to_rpc_result result =
     RunResult (ru_exit_code result) (termination_name (ru_termination result)) (ru_stdout result) (ru_stderr result)
       (duration_millis (ru_duration result)) (of_nat (ru_redaction_count result))
       (ru_output_truncated result \<or> ru_output_suppressed result) (ru_temp_cleanup_warning result)"

section \<open>Waiting for the local user\<close>

definition cancelled_or_blocked :: "agent_env \<Rightarrow> unit handler" where
  "cancelled_or_blocked env =
     act env (\<lambda>r now w.
       (if aw_shutting_down w \<or> (case aw_ui w of Some u \<Rightarrow> unlock_blocked u | None \<Rightarrow> True)
        then Inl ApprovalCancelled else Inr (), w))"

text \<open>The wake closure of the wait: a lock that began in between cancels the new request.\<close>

definition wake_or_cancel :: "agent_env \<Rightarrow> unit handler" where
  "wake_or_cancel env =
     act env (\<lambda>r now w.
       (Inr (), case aw_ui w of
          Some u \<Rightarrow>
            if aw_shutting_down w \<or> unlock_blocked u
            then w\<lparr>aw_ui := Some (u\<lparr>ul_unlock_requests := cancel_unlock (ul_unlock_requests u)\<rparr>)\<rparr> else w
        | None \<Rightarrow> w))"

definition wait_for_unlock ::
    "agent_env \<Rightarrow> uuid \<Rightarrow> token \<Rightarrow> u64 \<Rightarrow> str \<Rightarrow> str \<Rightarrow> unit handler" where
  "wait_for_unlock env fresh t epoch client_label purpose =
     hbind (act env (\<lambda>r now w. on_ui (\<lambda>u.
         case wait_begin epoch client_label purpose fresh (ul_unlock_requests u) of
           (Inl e, q) \<Rightarrow> (Inl e, u\<lparr>ul_unlock_requests := q\<rparr>)
         | (Inr _, q) \<Rightarrow> (Inr (now + DEFAULT_APPROVAL_TIMEOUT), u\<lparr>ul_unlock_requests := q\<rparr>)) (Inl ProcessFailure) w)) (\<lambda>deadline.
     hbind (wake_or_cancel env) (\<lambda>_.
     await env (\<lambda>r now w. on_ui (\<lambda>u.
         case wait_poll (is_cancelled (aw_approval w) t) now deadline (ul_unlock_requests u) of
           (x, q) \<Rightarrow> (x, u\<lparr>ul_unlock_requests := q\<rparr>)) (Some (Inl ProcessFailure)) w)))"

definition unlocked_now :: "agent_env \<Rightarrow> (unit \<Rightarrow> unit handler) \<Rightarrow> unit handler" where
  "unlocked_now env otherwise =
     hbind (reading_of env (\<lambda>r w. Inr (phase (aw_controller w) = PhaseUnlocked))) (\<lambda>open.
     if open then pure (Inr ()) else otherwise ())"

definition await_local_unlock ::
    "agent_env \<Rightarrow> uuid \<Rightarrow> uuid \<Rightarrow> str \<Rightarrow> str \<Rightarrow> token \<Rightarrow> unit handler" where
  "await_local_unlock env fresh client client_label purpose t =
     (let prompt = (\<lambda>epoch _.
            hbind (cancelled_or_blocked env) (\<lambda>_.
            hbind (wait_for_unlock env fresh t epoch client_label purpose) (\<lambda>_.
            hbind (cancelled_or_blocked env) (\<lambda>_.
            hbind (reading_of env (\<lambda>r w. require_app_active (aw_approval w))) (\<lambda>_.
            unlocked_now env (\<lambda>_. pure (Inl VaultLocked)))))));
          interactive = (\<lambda>_.
            hbind (reading_of env (\<lambda>r w. Inr (map_option (\<lambda>u. uq_epoch (ul_unlock_requests u)) (aw_ui w)))) (\<lambda>ui.
            case ui of
              None \<Rightarrow> act env (\<lambda>r now w. on_approval (require_client_access r client) w)
            | Some epoch \<Rightarrow>
                hbind (reading_of env (\<lambda>r w. Inr (is_app_active (aw_approval w)))) (\<lambda>app_active.
                if app_active then unlocked_now env (prompt epoch) else prompt epoch ())))
      in hbind (act env (\<lambda>r now w. case on_approval (coord_has_unattended r client) w of (has, w') \<Rightarrow> (Inr has, w'))) (\<lambda>has.
         if has then unlocked_now env interactive else interactive ()))"

section \<open>Locking\<close>

definition first_of :: "ladon_error option \<Rightarrow> ladon_error option \<Rightarrow> ladon_error option" where
  "first_of first later = (case first of Some e \<Rightarrow> Some e | None \<Rightarrow> later)"

definition error_of :: "'a res \<Rightarrow> ladon_error option" where
  "error_of r = (case r of Inl e \<Rightarrow> Some e | Inr _ \<Rightarrow> None)"

text \<open>A \<open>RunBlock\<close>: wait until no other block is held, take it, wait for the run it concerns, and give it back on every
  way out.\<close>

definition with_run_block ::
    "agent_env \<Rightarrow> (run_coordinator \<Rightarrow> (bool \<times> run_coordinator) option) \<Rightarrow> (run_coordinator \<Rightarrow> bool) \<Rightarrow> 'a handler \<Rightarrow> 'a handler" where
  "with_run_block env take_block ready m s =
     Option.bind (await env (\<lambda>r now w.
         case take_block (aw_runs w) of None \<Rightarrow> (None, w) | Some (wait, co) \<Rightarrow> (Some wait, w\<lparr>aw_runs := co\<rparr>)) s) (\<lambda>(wait, s1).
     Option.bind (if wait then await env (\<lambda>r now w. (if ready (aw_runs w) then Some () else None, w)) s1 else Some ((), s1)) (\<lambda>(_, s2).
     map_option (\<lambda>(x, s3). (x, snd (critical env (\<lambda>r now w. ((), w\<lparr>aw_runs := drop_block (aw_runs w)\<rparr>)) s3))) (m s2)))"

definition all_runs :: "run_coordinator \<Rightarrow> (bool \<times> run_coordinator) option" where
  "all_runs co = map_option (Pair True) (block_new_runs co)"

text \<open>What is done while new runs are blocked: the vault is locked, the approvals are reset, and the
  window answers its request.\<close>

definition lock_under_block :: "agent_env \<Rightarrow> u64 option \<Rightarrow> ladon_error option \<Rightarrow> unit handler" where
  "lock_under_block env ui_request first_error s0 =
     (let (_, s1) = critical env (\<lambda>r now w. ((), w\<lparr>aw_controller := lock (aw_controller w)\<rparr>)) s0;
          (reset, s2) = critical env (\<lambda>r now w. on_approval reset_after_vault_lock w) s1;
          done_with = (\<lambda>finished s. Some (case first_of first_error (first_of (error_of reset) finished) of
            Some e \<Rightarrow> Inl e | None \<Rightarrow> Inr (), s))
      in case ui_request of
           None \<Rightarrow> done_with None s2
         | Some i \<Rightarrow>
             (case critical env (\<lambda>r now w. on_ui (announce_request i) (Inl InvalidRequest) w) s2 of
                (Inl e, s3) \<Rightarrow> done_with (Some e) s3
              | (Inr _, s3) \<Rightarrow>
                  Option.bind (await env (\<lambda>r now w. on_ui (\<lambda>u. (await_acknowledgement i u, u)) (Some (Inl EndpointUnavailable)) w) s3)
                    (\<lambda>(x, s4). done_with (error_of x) s4)))"

text \<open>\<open>lock_controller_and_runs\<close>; \<open>with_ui\<close> says whether the window takes part. The block is dropped at
  the end, after the window has answered. No error on the way skips the lock of the vault.\<close>

definition lock_controller_and_runs :: "agent_env \<Rightarrow> bool \<Rightarrow> unit handler" where
  "lock_controller_and_runs env with_ui s0 =
     Option.bind
       (if with_ui \<and> aw_ui (hs_world s0) \<noteq> None
        then map_option (\<lambda>(x, s). (Some x, s))
          (await env (\<lambda>r now w. on_ui begin_request (Some (Inl EndpointUnavailable)) w) s0)
        else Some (None, s0)) (\<lambda>(ui_request, s1).
     let (_, s2) = critical env (\<lambda>r now w. ((), w\<lparr>aw_approval := cancel_pending r (aw_approval w)\<rparr>)) s1;
         (revoked, s3) = critical env (\<lambda>r now w. on_approval coord_revoke_all w) s2;
         began = Option.bind ui_request error_of;
         request = Option.bind ui_request (\<lambda>x. case x of Inl _ \<Rightarrow> None | Inr i \<Rightarrow> Some i)
     in with_run_block env all_runs runs_drained (lock_under_block env request (first_of began (error_of revoked))) s3)"


section \<open>Running a command\<close>

text \<open>What the broker calls outside: the libraries of the vault, the redactor, the host with the outcomes of its
  file operations, the spawn of a command, and fresh identifiers.\<close>

record 'r agent_libs =
  al_libs :: "'r libs"
  al_redact :: redact_lib
  al_host :: host
  al_directory :: directory_io
  al_secrets :: "nat \<Rightarrow> secret_io"
  al_spawn :: "command \<Rightarrow> child res"
  al_approval_id :: uuid
  al_unlock_id :: uuid
  al_connection_id :: uuid

text \<open>The command that \<open>execute\<close> hands to the launch closure, if it gets there.\<close>

definition injected_command :: "'r agent_libs \<Rightarrow> prepared_run \<Rightarrow> command option" where
  "injected_command al run =
     (case make_redactor (al_redact al) (pr_bindings run) (pr_output_limit_bytes run) of
        Inl e \<Rightarrow> None
      | Inr _ \<Rightarrow>
          (case inject_bindings (ho_euid (al_host al)) (al_directory al) (al_secrets al) 0 (pr_bindings run)
                  (start_injection (al_host al) run) of
             (Inl e, _) \<Rightarrow> None
           | (Inr _, st) \<Rightarrow> Some (in_command st)))"

text \<open>\<open>execute\<close> with a launch closure that works on the shared state.\<close>

definition execute_shared ::
    "agent_env \<Rightarrow> 'r agent_libs \<Rightarrow> token \<Rightarrow> (reading \<Rightarrow> command \<Rightarrow> agent_world \<Rightarrow> child res \<times> agent_world) \<Rightarrow>
       prepared_run \<Rightarrow> run_result handler" where
  "execute_shared env al t launch_at run s =
     (let r = en_reading env (hs_turn s);
          w = share_cancellation t (en_others env (hs_turn s) (hs_world s));
          result = fst (execute (al_redact al) (al_host al) (al_directory al) (al_secrets al) (en_now env (hs_turn s))
            (\<lambda>c. fst (launch_at r c w)) run);
          (w', log') = (case injected_command al run of
              None \<Rightarrow> (w, [])
            | Some c \<Rightarrow>
                (case launch_at r c w of
                   (Inl e, w') \<Rightarrow> (w', [])
                 | (Inr ch, w') \<Rightarrow> (w', [Launched r w c])))
      in map_option (\<lambda>x. (x, s\<lparr>hs_turn := Suc (hs_turn s), hs_world := w', hs_log := hs_log s @ log'\<rparr>)) result)"

definition log_resolved :: "reading \<Rightarrow> agent_world \<Rightarrow> resolved_secret_binding list res \<Rightarrow> agent_event list" where
  "log_resolved r w x = (case x of Inl e \<Rightarrow> [] | Inr values \<Rightarrow> [Resolved r w values])"

definition resolve_shared ::
    "agent_env \<Rightarrow> token \<Rightarrow> (reading \<Rightarrow> instant \<Rightarrow> agent_world \<Rightarrow> resolved_secret_binding list res \<times> agent_world) \<Rightarrow>
       resolved_secret_binding list handler" where
  "resolve_shared env t resolve_at s =
     (let r = en_reading env (hs_turn s);
          w = share_cancellation t (en_others env (hs_turn s) (hs_world s))
      in case resolve_at r (en_now env (hs_turn s)) w of
           (x, w') \<Rightarrow> Some (x, s\<lparr>hs_turn := Suc (hs_turn s), hs_world := w', hs_log := hs_log s @ log_resolved r w x\<rparr>))"

text \<open>\<open>run_guarded\<close> with closures on the shared state.\<close>

definition run_guarded_shared ::
    "agent_env \<Rightarrow> 'r agent_libs \<Rightarrow> token \<Rightarrow>
       (reading \<Rightarrow> instant \<Rightarrow> agent_world \<Rightarrow> resolved_secret_binding list res \<times> agent_world) \<Rightarrow>
       (reading \<Rightarrow> command \<Rightarrow> agent_world \<Rightarrow> child res \<times> agent_world) \<Rightarrow> validated_run_request \<Rightarrow> run_result handler" where
  "run_guarded_shared env al t resolve_at launch_at request =
     hbind (act env (\<lambda>r now w. case acquire_run (aw_supervisor w) of (x, sv) \<Rightarrow> (x, w\<lparr>aw_supervisor := sv\<rparr>))) (\<lambda>_.
     on_exit
       (hbind (pure (validate_filesystem (al_host al) request)) (\<lambda>_.
        hbind (resolve_shared env t resolve_at) (\<lambda>values.
        hbind (pure (resolve request values)) (\<lambda>run.
        execute_shared env al t launch_at run))))
       (\<lambda>s. snd (critical env (\<lambda>r now w. ((), w\<lparr>aw_supervisor := release_run (aw_supervisor w)\<rparr>)) s)))"

text \<open>The closures: values are read and a child is spawned only under a valid grant.\<close>

definition resolve_granted ::
    "'r agent_libs \<Rightarrow> grant_ticket \<Rightarrow> validated_secret_binding list \<Rightarrow> secret_id list \<Rightarrow> reading \<Rightarrow> instant \<Rightarrow> agent_world \<Rightarrow>
       resolved_secret_binding list res \<times> agent_world" where
  "resolve_granted al ticket bindings ids r now w =
     (case with_valid_grant r ticket (resolve_bindings_for_ids (al_libs al) now bindings ids) (aw_controller w) (aw_approval w) of
        (x, vc, st) \<Rightarrow> (x, w\<lparr>aw_controller := vc, aw_approval := st\<rparr>))"

definition launch_granted ::
    "'r agent_libs \<Rightarrow> grant_ticket \<Rightarrow> reading \<Rightarrow> command \<Rightarrow> agent_world \<Rightarrow> child res \<times> agent_world" where
  "launch_granted al ticket r c w =
     (case with_valid_grant r ticket (spawn_child (al_spawn al c)) (aw_runs w) (aw_approval w) of
        (x, co, st) \<Rightarrow> (x, w\<lparr>aw_runs := co, aw_approval := st\<rparr>))"

definition resolve_free ::
    "'r agent_libs \<Rightarrow> validated_secret_binding list \<Rightarrow> reading \<Rightarrow> instant \<Rightarrow> agent_world \<Rightarrow>
       resolved_secret_binding list res \<times> agent_world" where
  "resolve_free al bindings r now w =
     (case resolve_bindings (al_libs al) now bindings (aw_controller w) of (x, vc) \<Rightarrow> (x, w\<lparr>aw_controller := vc\<rparr>))"

definition launch_free ::
    "'r agent_libs \<Rightarrow> uuid \<Rightarrow> reading \<Rightarrow> command \<Rightarrow> agent_world \<Rightarrow> child res \<times> agent_world" where
  "launch_free al client r c w =
     (case require_client_access r client (aw_approval w) of
        (Inl e, st) \<Rightarrow> (Inl e, w\<lparr>aw_approval := st\<rparr>)
      | (Inr _, st) \<Rightarrow> on_runs (spawn_child (al_spawn al c)) (w\<lparr>aw_approval := st\<rparr>))"

definition authorize_with_wake ::
    "agent_env \<Rightarrow> token \<Rightarrow> pending_approval \<Rightarrow> grant_ticket handler" where
  "authorize_with_wake env t request s =
     (case critical env (\<lambda>r now w. on_approval (authorize_begin r now DEFAULT_APPROVAL_TIMEOUT request) (share_cancellation t w)) s of
        (Finished x, s') \<Rightarrow> Some (x, s')
      | (Waiting approval_id ticket deadline, s') \<Rightarrow>
          await env (\<lambda>r now w.
            case on_approval (authorize_poll r now t approval_id ticket deadline) (share_cancellation t w) of
              (Finished x, w') \<Rightarrow> (Some x, w')
            | (Waiting _ _ _, w') \<Rightarrow> (None, w')) s')"

definition ensure_running :: "agent_env \<Rightarrow> unit handler" where
  "ensure_running env = reading_of env (\<lambda>r w. if aw_shutting_down w then Inl EndpointUnavailable else Inr ())"

definition record_run_activity :: "agent_env \<Rightarrow> handler_state \<Rightarrow> handler_state" where
  "record_run_activity env s =
     snd (critical env (\<lambda>r now w. ((), w\<lparr>aw_controller := record_secret_activity now (aw_controller w)\<rparr>)) s)"

definition run_with_secrets ::
    "agent_env \<Rightarrow> 'r agent_libs \<Rightarrow> uuid \<Rightarrow> str \<Rightarrow> token \<Rightarrow> validated_run_request \<Rightarrow> rpc_result handler" where
  "run_with_secrets env al client client_label t validated =
     hbind (act env (\<lambda>r now w. (map_sum id (Pair (aw_controller w)) (make_approval_plan (vr_bindings validated) (aw_controller w)), w))) (\<lambda>(vc, plan).
     hbind (note_event (Planned vc plan)) (\<lambda>_.
     hbind (act env (\<lambda>r now w. on_runs (set_secret_context (pl_binding_secret_ids plan)) (share_cancellation t w))) (\<lambda>_.
     hbind (authorize_with_wake env t
              (new_pending_approval (al_approval_id al) (pl_vault_session_id plan) client client_label (pl_secrets plan)
                 (vr_executable validated) (vr_arguments validated) (vr_working_directory validated))) (\<lambda>ticket.
     hbind (on_exit
              (run_guarded_shared env al t
                 (resolve_granted al ticket (vr_bindings validated) (pl_binding_secret_ids plan))
                 (launch_granted al ticket) validated)
              (record_run_activity env)) (\<lambda>result.
     pure (Inr (to_rpc_result result)))))))"

definition run_without_secrets ::
    "agent_env \<Rightarrow> 'r agent_libs \<Rightarrow> uuid \<Rightarrow> token \<Rightarrow> validated_run_request \<Rightarrow> rpc_result handler" where
  "run_without_secrets env al client t validated =
     hbind (act env (\<lambda>r now w. on_runs (set_secret_context []) (share_cancellation t w))) (\<lambda>_.
     hbind (on_exit
              (run_guarded_shared env al t (resolve_free al (vr_bindings validated)) (launch_free al client) validated)
              (record_run_activity env)) (\<lambda>result.
     pure (Inr (to_rpc_result result))))"

definition handle_run ::
    "agent_env \<Rightarrow> 'r agent_libs \<Rightarrow> uuid \<Rightarrow> str \<Rightarrow> run_request \<Rightarrow> token \<Rightarrow> rpc_result handler" where
  "handle_run env al client client_label request t =
     hbind (ensure_running env) (\<lambda>_.
     hbind (pure (validate_run_request (lb_env (al_libs al)) request CliCaller)) (\<lambda>validated.
     hbind (await_local_unlock env (al_unlock_id al) client client_label (ascii ''Run a command (review follows unlock)'') t) (\<lambda>_.
     hbind (act env (\<lambda>r now w. on_runs (try_start (is_cancelled (aw_approval w) t) client) w)) (\<lambda>_.
     on_exit
       (hbind (act env (\<lambda>r now w. on_approval (require_client_access r client) (share_cancellation t w))) (\<lambda>_.
        hbind (act env (\<lambda>r now w.
            (Inr (), (share_cancellation t w)\<lparr>aw_approval := observe_run r client (vr_working_directory validated) (vr_executable validated)
               (aw_approval (share_cancellation t w))\<rparr>))) (\<lambda>_.
        hbind (ensure_running env) (\<lambda>_.
        if vr_bindings validated \<noteq> [] then run_with_secrets env al client client_label t validated
        else run_without_secrets env al client t validated))))
       (\<lambda>s. snd (critical env (\<lambda>r now w. ((), w\<lparr>aw_runs := drop_lease (aw_runs w)\<rparr>)) s))))))"


section \<open>Requests\<close>

text \<open>Every field is reported as text.\<close>

definition summarize :: "text_env \<Rightarrow> secret_metadata \<Rightarrow> secret_summary res" where
  "summarize env m =
     and_then (ok_or InvalidVaultPayload (parse_uuid env (display_secret_id env (smd_id m)))) (\<lambda>i.
     Inr \<lparr>ss_id = i, ss_name = smd_name m, ss_fields = map (\<lambda>name. \<lparr>sfs_name = name, sfs_text = True\<rparr>) (smd_field_names m)\<rparr>)"

fun collect_results :: "'a res list \<Rightarrow> 'a list res" where
  "collect_results [] = Inr []"
| "collect_results (x # xs) = and_then x (\<lambda>y. and_then (collect_results xs) (\<lambda>ys. Inr (y # ys)))"

definition list_visible :: "text_env \<Rightarrow> secret_id set option \<Rightarrow> vault_controller \<Rightarrow> secret_summary list res" where
  "list_visible env authorized vc =
     (if phase vc \<noteq> PhaseUnlocked then Inl VaultLocked
      else collect_results (map (summarize env)
        (filter (\<lambda>m. case authorized of None \<Rightarrow> True | Some ids \<Rightarrow> smd_id m \<in> ids) (secrets vc))))"

definition unattended_secrets :: "uuid \<Rightarrow> active_grant_snapshot list \<Rightarrow> secret_id set" where
  "unattended_secrets client grants = ag_secret ` set (filter (\<lambda>g. ag_client g = client \<and> ag_unattended g) grants)"

definition handle_list ::
    "agent_env \<Rightarrow> 'r agent_libs \<Rightarrow> uuid \<Rightarrow> str \<Rightarrow> token \<Rightarrow> rpc_result handler" where
  "handle_list env al client client_label t =
     hbind (await_local_unlock env (al_unlock_id al) client client_label (ascii ''List secret names'') t) (\<lambda>_.
     hbind (act env (\<lambda>r now w. on_approval (require_client_access r client) w)) (\<lambda>_.
     hbind (reading_of env (\<lambda>r w. Inr (is_app_active (aw_approval w)))) (\<lambda>app_active.
     hbind (if app_active then pure (Inr None)
            else act env (\<lambda>r now w. case on_approval (active_grants r) w of
                   (grants, w') \<Rightarrow> (Inr (Some (unattended_secrets client grants)), w'))) (\<lambda>authorized.
     reading_of env (\<lambda>r w. map_sum id ListResult (list_visible (lb_env (al_libs al)) authorized (aw_controller w)))))))"

definition handle_status :: "agent_env \<Rightarrow> rpc_result handler" where
  "handle_status env =
     hbind (reading_of env (\<lambda>r w. Inr (is_app_active (aw_approval w)))) (\<lambda>app_active.
     if \<not> app_active then pure (Inr (StatusResult (ascii ''locked'') None))
     else act env (\<lambda>r now w.
       (Inr (StatusResult (phase_name (phase (aw_controller w)))
          (map_option duration_millis (remaining_unlocked now (aw_controller w)))), w)))"

definition observe :: "agent_env \<Rightarrow> uuid \<Rightarrow> str \<Rightarrow> unit handler" where
  "observe env client client_label =
     act env (\<lambda>r now w. (Inr (), w\<lparr>aw_approval := observe_client r client client_label (aw_approval w)\<rparr>))"

definition handle_method ::
    "agent_env \<Rightarrow> 'r agent_libs \<Rightarrow> uuid \<Rightarrow> str \<Rightarrow> rpc_method \<Rightarrow> token \<Rightarrow> rpc_result handler" where
  "handle_method env al client client_label meth t =
     hbind (observe env client client_label) (\<lambda>_.
     case meth of
       SessionOpenMethod \<Rightarrow>
         hbind (act env (\<lambda>r now w. on_approval (register_client_session r (al_connection_id al) client t) w)) (\<lambda>_.
         hbind (observe env client client_label) (\<lambda>_. pure (Inr SessionOpenedResult)))
     | StatusMethod \<Rightarrow> handle_status env
     | ListMethod \<Rightarrow> handle_list env al client client_label t
     | LockMethod \<Rightarrow> hbind (lock_controller_and_runs env True) (\<lambda>_. pure (Inr LockedResult))
     | RunMethod executable arguments working_directory bindings timeout_ms output_limit \<Rightarrow>
         handle_run env al client client_label
           \<lparr>rn_executable = executable, rn_arguments = arguments, rn_working_directory = working_directory,
            rn_bindings = bindings, rn_timeout_ms = timeout_ms, rn_output_limit_bytes = output_limit\<rparr> t)"

definition handle ::
    "agent_env \<Rightarrow> 'r agent_libs \<Rightarrow> rpc_request \<Rightarrow> token \<Rightarrow> handler_state \<Rightarrow> (rpc_response \<times> handler_state) option" where
  "handle env al request t s =
     map_option (\<lambda>(r, s'). (case r of
         Inr result \<Rightarrow> response_success (rq_request_id request) result
       | Inl e \<Rightarrow> response_error (rq_request_id request) e, s'))
       (handle_method env al (rq_client_session_id request) (rq_client_label request) (rq_method request) t s)"

end
