(* ===== verification/Ladon_Local.thy ===== *)
theory Ladon_Local
  imports Ladon_Agent "HOL-Library.List_Lexorder" "HOL-Library.Product_Lexorder"
begin

text \<open>
  What the desktop asks of the broker: the operations of \<open>LocalBrokerHandle\<close>
  (\<open>crates/ladon-app/src/agent_broker.rs\<close>), as handlers over the same shared state as the requests of
  agents. Guards that are dropped on every way out are combinators; a thread that an operation starts
  is a handler of its own.
\<close>

section \<open>Guards\<close>

text \<open>\<open>try_begin_local_operation\<close> with a window, which an operation needs or may do without.\<close>

definition drop_local :: "agent_env \<Rightarrow> handler_state \<Rightarrow> handler_state" where
  "drop_local env s = snd (critical env (\<lambda>r now w. on_ui (\<lambda>u. ((), drop_local_operation u)) () w) s)"

definition try_local :: "agent_env \<Rightarrow> bool res \<Rightarrow> bool handler" where
  "try_local env absent = act env (\<lambda>r now w. on_ui try_begin_local_operation absent w)"

definition on_error :: "'a handler \<Rightarrow> (handler_state \<Rightarrow> handler_state) \<Rightarrow> 'a handler" where
  "on_error m g s = map_option (\<lambda>(x, s'). case x of Inl e \<Rightarrow> (Inl e, g s') | Inr y \<Rightarrow> (Inr y, s')) (m s)"

text \<open>An operation that holds the local operation, or runs without a window; \<open>Busy\<close> when an external lock is under way.\<close>

definition while_local :: "agent_env \<Rightarrow> 'a handler \<Rightarrow> 'a handler" where
  "while_local env m =
     hbind (reading_of env (\<lambda>r w. Inr (aw_ui w \<noteq> None))) (\<lambda>has_ui.
     if \<not> has_ui then m
     else hbind (try_local env (Inr True)) (\<lambda>got. if got then on_exit m (drop_local env) else pure (Inl Busy)))"

text \<open>\<open>wait_begin_local_operation\<close>: \<open>otherwise\<close> when an external lock owns the transition.\<close>

definition wait_local :: "agent_env \<Rightarrow> 'a handler \<Rightarrow> 'a handler \<Rightarrow> 'a handler" where
  "wait_local env otherwise m =
     hbind (reading_of env (\<lambda>r w. Inr (aw_ui w \<noteq> None))) (\<lambda>has_ui.
     if \<not> has_ui then m
     else hbind (await env (\<lambda>r now w. on_ui wait_begin_local_operation (Some (Inl EndpointUnavailable)) w)) (\<lambda>got.
       if got then on_exit m (drop_local env) else otherwise))"

section \<open>The external lock, as the window sees it\<close>

definition pending_external_lock :: "agent_env \<Rightarrow> u64 option handler" where
  "pending_external_lock env =
     reading_of env (\<lambda>r w. Inr (case aw_ui w of None \<Rightarrow> None | Some u \<Rightarrow> pending_lock_request u))"

definition acknowledge_external_lock :: "agent_env \<Rightarrow> u64 \<Rightarrow> unit handler" where
  "acknowledge_external_lock env request_id = act env (\<lambda>r now w. on_ui (acknowledge request_id) (Inl InvalidRequest) w)"

definition external_lock_in_progress :: "agent_env \<Rightarrow> bool handler" where
  "external_lock_in_progress env =
     reading_of env (\<lambda>r w. Inr (case aw_ui w of None \<Rightarrow> False | Some u \<Rightarrow> request_in_progress u))"

definition local_pending_unlock :: "agent_env \<Rightarrow> pending_unlock option handler" where
  "local_pending_unlock env =
     reading_of env (\<lambda>r w. Inr (case aw_ui w of None \<Rightarrow> None | Some u \<Rightarrow> pending_unlock_request (ul_unlock_requests u)))"

definition local_resolve_unlock :: "agent_env \<Rightarrow> uuid \<Rightarrow> bool \<Rightarrow> unit handler" where
  "local_resolve_unlock env i allow =
     act env (\<lambda>r now w. on_ui (\<lambda>u. case resolve_unlock i allow (ul_unlock_requests u) of
         (x, q) \<Rightarrow> (x, u\<lparr>ul_unlock_requests := q\<rparr>)) (Inl EndpointUnavailable) w)"

section \<open>Locking the app\<close>

text \<open>The channel of an \<open>AppLockAttempt\<close>: nothing yet, the result, or a worker that died.\<close>

datatype app_lock_channel = NoResult | WorkerResult "unit res" | WorkerGone

fun try_result :: "app_lock_channel \<Rightarrow> unit res option" where
  "try_result NoResult = None"
| "try_result (WorkerResult x) = Some x"
| "try_result WorkerGone = Some (Inl ProcessFailure)"

text \<open>The part of \<open>begin_app_lock\<close> that runs in the window; \<open>spawned\<close> says whether the worker could be started. The local
  operation passes to the worker.\<close>

definition start_app_lock :: "agent_env \<Rightarrow> bool \<Rightarrow> u64 handler" where
  "start_app_lock env spawned =
     hbind (try_local env (Inl InvalidRequest)) (\<lambda>got.
     if \<not> got then pure (Inl Busy)
     else on_error
       (hbind (act env (\<lambda>r now w. on_approval (begin_app_lock r) w)) (\<lambda>epoch.
        hbind (act env (\<lambda>r now w. (Inr (), w\<lparr>aw_runs := cancel_active (aw_runs w)\<rparr>))) (\<lambda>_.
        if spawned then pure (Inr epoch) else pure (Inl ProcessFailure))))
       (drop_local env))"

definition app_lock_worker :: "agent_env \<Rightarrow> u64 \<Rightarrow> unit handler" where
  "app_lock_worker env epoch =
     on_error
       (with_run_block env all_runs runs_drained
          (hbind (act env (\<lambda>r now w. on_approval (finish_app_lock epoch) w)) (\<lambda>_ s. Some (Inr (), drop_local env s))))
       (drop_local env)"

text \<open>The automatic lock keeps a run that unattended grants cover. \<open>same\<close> says whether the run it looked at is still the
  active one when it is cancelled.\<close>

definition covered_run :: "reading \<Rightarrow> uuid \<Rightarrow> secret_id list option \<Rightarrow> agent_world \<Rightarrow> bool \<times> agent_world" where
  "covered_run r client ids w = on_approval (unattended_covers r client (case ids of None \<Rightarrow> [] | Some l \<Rightarrow> l)) w"

definition cancel_uncovered :: "agent_env \<Rightarrow> bool \<Rightarrow> unit handler" where
  "cancel_uncovered env same =
     hbind (reading_of env (\<lambda>r w. Inr (map_option (\<lambda>run. (ar_client run, ar_secret_ids run)) (co_active (aw_runs w))))) (\<lambda>active.
     case active of
       None \<Rightarrow> pure (Inr ())
     | Some (client, ids) \<Rightarrow>
         hbind (act env (\<lambda>r now w. case covered_run r client ids w of (ok, w') \<Rightarrow> (Inr ok, w'))) (\<lambda>ok.
         if ok \<or> \<not> same then pure (Inr ())
         else act env (\<lambda>r now w. (Inr (), w\<lparr>aw_runs := cancel_active (aw_runs w)\<rparr>))))"

definition start_auto_app_lock :: "agent_env \<Rightarrow> bool \<Rightarrow> bool \<Rightarrow> u64 handler" where
  "start_auto_app_lock env same spawned =
     hbind (try_local env (Inl InvalidRequest)) (\<lambda>got.
     if \<not> got then pure (Inl Busy)
     else on_error
       (hbind (act env (\<lambda>r now w. on_approval (begin_auto_app_lock r) w)) (\<lambda>epoch.
        hbind (cancel_uncovered env same) (\<lambda>_.
        if spawned then pure (Inr epoch) else pure (Inl ProcessFailure))))
       (drop_local env))"

definition auto_app_lock_worker :: "agent_env \<Rightarrow> u64 \<Rightarrow> unit handler" where
  "auto_app_lock_worker env epoch =
     on_exit
       (hbind (await env (\<lambda>r now w. (if active_cancelled (aw_runs w) then None else Some (Inr ()), w))) (\<lambda>_.
        act env (\<lambda>r now w. on_approval (finish_app_lock epoch) w)))
       (drop_local env)"

definition local_unlock_app :: "agent_env \<Rightarrow> u64 \<Rightarrow> unit handler" where
  "local_unlock_app env epoch = act env (\<lambda>r now w. on_approval (unlock_app epoch) w)"

section \<open>Locking the vault\<close>

definition cancel_approvals :: "agent_env \<Rightarrow> unit handler" where
  "cancel_approvals env = act env (\<lambda>r now w. (Inr (), w\<lparr>aw_approval := cancel_pending r (aw_approval w)\<rparr>))"

definition revoke_everything :: "agent_env \<Rightarrow> unit handler" where
  "revoke_everything env = act env (\<lambda>r now w. on_approval coord_revoke_all w)"

definition cancel_active_run :: "agent_env \<Rightarrow> unit handler" where
  "cancel_active_run env = act env (\<lambda>r now w. (Inr (), w\<lparr>aw_runs := cancel_active (aw_runs w)\<rparr>))"

definition cancel_active_run_and_wait :: "agent_env \<Rightarrow> unit handler" where
  "cancel_active_run_and_wait env =
     hbind (cancel_approvals env) (\<lambda>_. with_run_block env all_runs runs_drained (pure (Inr ())))"

text \<open>An attempt whose error does not end the operation.\<close>

definition attempt :: "'a handler \<Rightarrow> 'a res handler" where
  "attempt m s = map_option (\<lambda>(x, s'). (Inr x, s')) (m s)"

definition cancel_active_run_and_lock :: "agent_env \<Rightarrow> unit handler" where
  "cancel_active_run_and_lock env =
     hbind (cancel_approvals env) (\<lambda>_.
     hbind (attempt (revoke_everything env)) (\<lambda>revoked.
     hbind (cancel_active_run env) (\<lambda>_.
     wait_local env (pure revoked)
       (hbind (act env (\<lambda>r now w. (Inr (), case aw_ui w of
            None \<Rightarrow> w | Some u \<Rightarrow> w\<lparr>aw_ui := Some (u\<lparr>ul_unlock_requests := cancel_unlock (ul_unlock_requests u)\<rparr>)\<rparr>))) (\<lambda>_.
        hbind (attempt (lock_controller_and_runs env False)) (\<lambda>locked.
        pure (and_then revoked (\<lambda>_. locked))))))))"

definition auto_lock_controller_if_idle :: "agent_env \<Rightarrow> bool handler" where
  "auto_lock_controller_if_idle env =
     hbind (act env (\<lambda>r now w. case try_block_new_runs (aw_runs w) of (got, co) \<Rightarrow> (Inr got, w\<lparr>aw_runs := co\<rparr>))) (\<lambda>got.
     if \<not> got then pure (Inr False)
     else on_exit
       (hbind (act env (\<lambda>r now w. case auto_lock_if_idle_at now (aw_controller w) of
            (locked, vc) \<Rightarrow> (Inr locked, w\<lparr>aw_controller := vc\<rparr>))) (\<lambda>locked.
        if locked then hbind (act env (\<lambda>r now w. on_approval reset_after_vault_lock w)) (\<lambda>_. pure (Inr True))
        else pure (Inr False)))
       (\<lambda>s. snd (critical env (\<lambda>r now w. ((), w\<lparr>aw_runs := drop_block (aw_runs w)\<rparr>)) s)))"

section \<open>Decisions and revocations\<close>

definition local_pending_approval :: "agent_env \<Rightarrow> pending_approval option handler" where
  "local_pending_approval env =
     act env (\<lambda>r now w. case on_approval pending_request w of (p, w') \<Rightarrow> (Inr p, w'))"

definition local_approve :: "agent_env \<Rightarrow> uuid \<Rightarrow> unit handler" where
  "local_approve env i = act env (\<lambda>r now w. on_approval (approve r i) w)"

definition local_approve_for :: "agent_env \<Rightarrow> uuid \<Rightarrow> duration \<Rightarrow> unit handler" where
  "local_approve_for env i lifetime = act env (\<lambda>r now w. on_approval (approve_for r i lifetime) w)"

definition local_approve_until :: "agent_env \<Rightarrow> uuid \<Rightarrow> system_time \<Rightarrow> unit handler" where
  "local_approve_until env i deadline = act env (\<lambda>r now w. on_approval (approve_until r i deadline) w)"

definition local_approve_session :: "agent_env \<Rightarrow> uuid \<Rightarrow> unit handler" where
  "local_approve_session env i = act env (\<lambda>r now w. on_approval (approve_session r i) w)"

definition local_session_connected :: "agent_env \<Rightarrow> uuid \<Rightarrow> bool handler" where
  "local_session_connected env client =
     act env (\<lambda>r now w. case on_approval (client_session_connected client) w of (b, w') \<Rightarrow> (Inr b, w'))"

definition local_deny :: "agent_env \<Rightarrow> uuid \<Rightarrow> unit handler" where
  "local_deny env i = act env (\<lambda>r now w. on_approval (deny r i) w)"

definition revoke_grants :: "agent_env \<Rightarrow> unit handler" where
  "revoke_grants env =
     hbind (cancel_approvals env) (\<lambda>_.
     hbind (revoke_everything env) (\<lambda>_.
     hbind (cancel_active_run env) (\<lambda>_.
     wait_local env (pure (Inr ()))
       (hbind (cancel_approvals env) (\<lambda>_.
        with_run_block env all_runs runs_drained (revoke_everything env))))))"

definition block_client :: "uuid \<Rightarrow> run_coordinator \<Rightarrow> (bool \<times> run_coordinator) option" where
  "block_client client co = map_option (Pair True) (block_for_client_revoke client co)"

definition revoke_session :: "agent_env \<Rightarrow> uuid \<Rightarrow> unit handler" where
  "revoke_session env client =
     while_local env (with_run_block env (block_client client) (client_drained client)
       (act env (\<lambda>r now w. on_approval (coord_revoke_client r client) w)))"

definition revoke_grant :: "agent_env \<Rightarrow> uuid \<Rightarrow> secret_id \<Rightarrow> unit handler" where
  "revoke_grant env client i =
     while_local env (with_run_block env (block_for_revoke client i) runs_drained
       (hbind (act env (\<lambda>r now w. on_approval (coord_revoke_pair r client i) w)) (\<lambda>_. pure (Inr ()))))"

definition local_annotation :: "agent_env \<Rightarrow> uuid \<Rightarrow> uuid \<Rightarrow> str \<Rightarrow> str \<Rightarrow> unit handler" where
  "local_annotation env client connection name note =
     act env (\<lambda>r now w. on_approval (set_session_annotation_checked client (Some connection) name note) w)"

definition agent_run_active :: "agent_env \<Rightarrow> bool handler" where
  "agent_run_active env = reading_of env (\<lambda>r w. Inr (has_active_run (aw_runs w)))"

section \<open>Views of the sessions\<close>

record agent_grant_view =
  av_client :: uuid
  av_label :: str
  av_secret :: secret_id
  av_secret_name :: str
  av_remaining :: duration
  av_expires_with_session :: bool
  av_running :: bool
  av_unattended :: bool
  av_expires_at :: "system_time option"

record agent_session_view =
  sv_details :: session_details
  sv_grants :: "agent_grant_view list"
  sv_active :: bool
  sv_waiting :: bool

definition secret_names :: "secret_metadata list \<Rightarrow> secret_id \<rightharpoonup> str" where
  "secret_names metadata = map_of (rev (map (\<lambda>m. (smd_id m, smd_name m)) metadata))"

definition grant_view :: "(uuid \<times> secret_id) set \<Rightarrow> active_grant_snapshot \<Rightarrow> str \<Rightarrow> agent_grant_view" where
  "grant_view running g name =
     \<lparr>av_client = ag_client g, av_label = ag_label g, av_secret = ag_secret g, av_secret_name = name,
      av_remaining = ag_remaining g, av_expires_with_session = ag_expires_with_session g,
      av_running = ((ag_client g, ag_secret g) \<in> running), av_unattended = ag_unattended g, av_expires_at = ag_expires_at g\<rparr>"

text \<open>The comparison closure of \<open>sort_by\<close>: label, then client, then secret name. The sort is stable.\<close>

definition view_key :: "agent_grant_view \<Rightarrow> str \<times> uuid \<times> str" where
  "view_key v = (av_label v, av_client v, av_secret_name v)"

definition agent_grants :: "agent_env \<Rightarrow> agent_grant_view list handler" where
  "agent_grants env =
     hbind (act env (\<lambda>r now w. case on_approval (active_grants r) w of (gs, w') \<Rightarrow> (Inr gs, w'))) (\<lambda>grants.
     hbind (reading_of env (\<lambda>r w. Inr (running_pairs (aw_runs w)))) (\<lambda>running.
     hbind (reading_of env (\<lambda>r w. Inr (secret_names (secrets (aw_controller w))))) (\<lambda>names.
     pure (Inr (sort_key view_key (List.map_filter (\<lambda>g. map_option (grant_view running g) (names (ag_secret g))) grants))))))"

definition agent_sessions :: "agent_env \<Rightarrow> agent_session_view list handler" where
  "agent_sessions env =
     hbind (agent_grants env) (\<lambda>grants.
     hbind (local_pending_approval env) (\<lambda>pending.
     hbind (reading_of env (\<lambda>r w. Inr (case co_active (aw_runs w) of
         Some run \<Rightarrow> if ar_running run then Some (ar_client run) else None | None \<Rightarrow> None))) (\<lambda>active_client.
     hbind (act env (\<lambda>r now w. case on_approval sessions w of (ds, w') \<Rightarrow> (Inr ds, w'))) (\<lambda>details.
     pure (Inr (map (\<lambda>d. \<lparr>sv_details = d, sv_grants = filter (\<lambda>g. av_client g = sd_client d) grants,
        sv_active = (active_client = Some (sd_client d)),
        sv_waiting = (case pending of Some p \<Rightarrow> pa_client p = sd_client d | None \<Rightarrow> False)\<rparr>) details))))))"

section \<open>Unattended access\<close>

record unattended_consent =
  uo_context :: unattended_context
  uo_secrets :: "secret_metadata list"

definition controller_snapshot :: "vault_controller \<Rightarrow> (uuid \<times> secret_metadata list) res" where
  "controller_snapshot vc = and_then (ok_or VaultLocked (vc_session_id vc)) (\<lambda>i. Inr (i, secrets vc))"

definition snapshot_unattended :: "agent_env \<Rightarrow> uuid \<Rightarrow> unattended_consent handler" where
  "snapshot_unattended env client =
     hbind (act env (\<lambda>r now w. on_approval (capture_unattended_with client (controller_snapshot (aw_controller w))) w)) (\<lambda>(ctx, secrets).
     if secrets = [] then pure (Inl InvalidRequest) else pure (Inr \<lparr>uo_context = ctx, uo_secrets = secrets\<rparr>))"

definition consent_valid :: "unattended_consent \<Rightarrow> vault_controller \<Rightarrow> unit res" where
  "consent_valid consent vc =
     (if vc_session_id vc \<noteq> Some (uc_vault (uo_context consent)) \<or>
         list_ex (\<lambda>s. \<not> list_ex (\<lambda>current. smd_id current = smd_id s) (secrets vc)) (uo_secrets consent)
      then Inl ApprovalCancelled else Inr ())"

definition local_grant_unattended :: "agent_env \<Rightarrow> unattended_consent \<Rightarrow> system_time \<Rightarrow> unit handler" where
  "local_grant_unattended env consent deadline =
     act env (\<lambda>r now w. on_approval (grant_unattended r (uo_context consent) (map smd_id (uo_secrets consent)) deadline
       (consent_valid consent (aw_controller w))) w)"

section \<open>Changing a secret\<close>

text \<open>Both closures run inside the mutation, on the controller and the disk.\<close>

definition local_update_secret ::
    "'r libs \<Rightarrow> commit_io \<Rightarrow> reading \<Rightarrow> instant \<Rightarrow> edit_secret_draft \<Rightarrow> agent_world \<Rightarrow> 'r world \<Rightarrow>
       unit res \<times> agent_world \<times> 'r world" where
  "local_update_secret libs io r now draft w d =
     (case coordinate_secret_mutation r (ed_id draft)
        (\<lambda>(vc, d). (prepare_secret_update libs draft vc, vc, d))
        (\<lambda>update (vc, d). apply_secret_update libs io now update vc d) (aw_controller w, d) (aw_approval w) of
        (x, (vc, d'), st) \<Rightarrow> (x, w\<lparr>aw_controller := vc, aw_approval := st\<rparr>, d'))"

definition local_delete_secret ::
    "'r libs \<Rightarrow> commit_io \<Rightarrow> reading \<Rightarrow> instant \<Rightarrow> secret_id \<Rightarrow> agent_world \<Rightarrow> 'r world \<Rightarrow>
       unit res \<times> agent_world \<times> 'r world" where
  "local_delete_secret libs io r now i w d =
     (case coordinate_secret_mutation r i
        (\<lambda>(vc, d). (ensure_secret_exists i vc, vc, d))
        (\<lambda>_ (vc, d). delete_secret libs io now i vc d) (aw_controller w, d) (aw_approval w) of
        (x, (vc, d'), st) \<Rightarrow> (x, w\<lparr>aw_controller := vc, aw_approval := st\<rparr>, d'))"

section \<open>The end of the broker\<close>

definition drop_handle :: "agent_env \<Rightarrow> unit handler" where
  "drop_handle env =
     hbind (act env (\<lambda>r now w. (Inr (), case aw_ui w of None \<Rightarrow> w | Some u \<Rightarrow> w\<lparr>aw_ui := Some (disconnect u)\<rparr>))) (\<lambda>_.
     hbind (act env (\<lambda>r now w. (Inr (), w\<lparr>aw_shutting_down := True\<rparr>))) (\<lambda>_.
     hbind (act env (\<lambda>r now w. (Inr (), w\<lparr>aw_approval := close_client_sessions (aw_approval w)\<rparr>))) (\<lambda>_.
     hbind (cancel_approvals env) (\<lambda>_.
     hbind (attempt (revoke_everything env)) (\<lambda>_.
     hbind (attempt (cancel_active_run_and_wait env)) (\<lambda>_. pure (Inr ())))))))"

end
