(* ===== verification/Ladon_Agent_Properties.thy ===== *)
theory Ladon_Agent_Properties
  imports Ladon_Agent
begin

text \<open>
  Properties of the agent broker: a child of an agent's run is spawned only under a grant that is valid at
  that moment, and gets only values that were read under the same grant.
\<close>

section \<open>What handlers record\<close>

text \<open>A handler that records nothing.\<close>

definition silent :: "'a handler \<Rightarrow> bool" where
  "silent m = (\<forall>s r s'. m s = Some (r, s') \<longrightarrow> hs_log s' = hs_log s)"

named_theorems silent_intros \<open>handlers that record nothing\<close>

lemma silentD: "silent m \<Longrightarrow> m s = Some (r, s') \<Longrightarrow> hs_log s' = hs_log s"
  by (simp add: silent_def)

lemma critical_log [simp]: "hs_log (snd (critical env f s)) = hs_log s"
  by (simp add: critical_def split: prod.split)

lemma critical_log_eq: "critical env f s = (x, s') \<Longrightarrow> hs_log s' = hs_log s"
  using critical_log [of env f s] by simp

lemma silent_act [silent_intros]: "silent (act env f)"
  by (auto simp: silent_def act_def dest: critical_log_eq)

lemma silent_reading [silent_intros]: "silent (reading_of env f)"
  by (simp add: reading_of_def silent_act)

lemma silent_pure [silent_intros]: "silent (pure x)"
  by (simp add: silent_def pure_def)

lemma hbind_cases:
  assumes "hbind m f s = Some (r, s')"
  obtains (failed) e where "m s = Some (Inl e, s')" "r = Inl e"
    | (continues) x s1 where "m s = Some (Inr x, s1)" "f x s1 = Some (r, s')"
proof (cases "m s")
  case None
  with assms show ?thesis by (simp add: hbind_def)
next
  case (Some p)
  then show ?thesis using assms failed continues by (cases p; cases "fst p") (auto simp: hbind_def)
qed

lemma silent_hbind [silent_intros]: "silent m \<Longrightarrow> (\<And>x. silent (f x)) \<Longrightarrow> silent (hbind m f)"
  unfolding silent_def by (metis hbind_cases)

lemma await_log:
  assumes "await env f s = Some r"
  shows "hs_log (snd r) = hs_log s"
  using _ assms
proof (rule await.raw_induct)
  fix loop :: "agent_env \<Rightarrow> (reading \<Rightarrow> instant \<Rightarrow> agent_world \<Rightarrow> 'a option \<times> agent_world) \<Rightarrow> handler_state \<Rightarrow> ('a \<times> handler_state) option"
    and env f s r
  assume IH: "\<And>env f s r. loop env f s = Some r \<Longrightarrow> hs_log (snd r) = hs_log s"
    and step: "(case critical env f s of (Some x, s') \<Rightarrow> Some (x, s') | (None, s') \<Rightarrow> loop env f s') = Some r"
  obtain x s1 where c: "critical env f s = (x, s1)" by fastforce
  from critical_log_eq [OF c] step IH [of env f s1] show "hs_log (snd r) = hs_log s"
    by (cases x) (auto simp: c)
qed

lemma silent_await [silent_intros]: "silent (await env f)"
  using await_log by (fastforce simp: silent_def)

lemma on_exit_cases:
  assumes "on_exit m g s = Some (r, s')"
  obtains s1 where "m s = Some (r, s1)" "s' = g s1"
  using assms by (auto simp: on_exit_def)

lemma silent_if [silent_intros]: "silent m \<Longrightarrow> silent n \<Longrightarrow> silent (if b then m else n)"
  by simp

lemma silent_unlocked_now [silent_intros]: "silent (k ()) \<Longrightarrow> silent (unlocked_now env k)"
  unfolding unlocked_now_def by (intro silent_intros)

lemma silent_await_local_unlock [silent_intros]: "silent (await_local_unlock env fresh client label purpose t)"
  unfolding await_local_unlock_def Let_def cancelled_or_blocked_def wait_for_unlock_def wake_or_cancel_def
  by (intro silent_intros) (auto intro!: silent_intros split: option.split)

lemma silent_authorize [silent_intros]: "silent (authorize_with_wake env t request)"
  using silentD [OF silent_await]
  by (fastforce simp: silent_def authorize_with_wake_def dest: critical_log_eq split: prod.splits authorize_outcome.splits)

lemma silent_ensure_running [silent_intros]: "silent (ensure_running env)"
  by (simp add: ensure_running_def silent_reading)


section \<open>Tickets\<close>

text \<open>The coordinator would use the ticket in this state; \<open>permitted\<close> says when that is.\<close>

definition honoured :: "reading \<Rightarrow> grant_ticket \<Rightarrow> approval_state \<Rightarrow> bool" where
  "honoured r ticket st = (fst (with_valid_grant r ticket (\<lambda>u. (Inr (), u)) () st) = Inr ())"

lemma with_valid_grant_honoured:
  assumes "with_valid_grant r ticket operation w st = (Inr x, w', st')"
  shows "honoured r ticket st \<and> operation w = (Inr x, w')"
  using assms by (auto simp: with_valid_grant_def honoured_def Let_def split: prod.splits if_splits)

definition ticket_for :: "pending_approval \<Rightarrow> grant_ticket \<Rightarrow> bool" where
  "ticket_for request ticket =
     (gt_vault_session ticket = pa_vault_session request \<and> gt_client ticket = pa_client request \<and>
      set (gt_secret_ids ticket) = set (request_ids request))"

lemma ticket_of_for: "ticket_for request (ticket_of request)"
  by (simp add: ticket_for_def ticket_of_def set_first_occurrences)

lemma authorize_locked_ticket: "authorize_locked r request st = (Inr ticket, st') \<Longrightarrow> ticket_for request ticket"
  by (auto simp: authorize_locked_def Let_def ticket_for_def split: prod.splits if_splits)

fun outcome_ticket :: "authorize_outcome \<Rightarrow> grant_ticket option" where
  "outcome_ticket (Finished (Inr ticket)) = Some ticket"
| "outcome_ticket (Finished (Inl e)) = None"
| "outcome_ticket (Waiting i ticket deadline) = Some ticket"

lemma authorize_begin_ticket:
  assumes "authorize_begin r now timeout request st = (x, st')" and "outcome_ticket x = Some ticket"
  shows "ticket_for request ticket"
proof (cases "is_app_active (purge_disconnected_clients st)")
  case True
  have "x = fst (authorize_begin r now timeout request st)" using assms(1) by simp
  with True have "x = Finished (Inl Busy) \<or> x = Finished (Inr (ticket_of request)) \<or> (\<exists>i d. x = Waiting i (ticket_of request) d)"
    by (simp add: authorize_begin_def Let_def split: prod.split)
  with assms(2) show ?thesis by (auto simp: ticket_of_for)
next
  case False
  with assms obtain y where y: "authorize_locked r request (purge_disconnected_clients st) = (y, st')" "x = Finished y"
    by (auto simp: authorize_begin_def Let_def split: prod.splits)
  with assms(2) show ?thesis by (cases y) (auto intro: authorize_locked_ticket)
qed

lemma apply_decision_ticket: "apply_decision r ticket p decision st = (Inr ticket', st') \<Longrightarrow> ticket' = ticket"
  by (cases decision) (simp_all add: apply_decision_def Let_def split: option.splits prod.splits if_splits)

lemma authorize_poll_ticket:
  assumes "authorize_poll r now t i ticket deadline st = (Finished (Inr ticket'), st')"
  shows "ticket' = ticket"
proof -
  obtain p decision st1 where "apply_decision r ticket p decision st1 = (Inr ticket', st')"
    using assms unfolding authorize_poll_def Let_def by (simp split: if_splits option.splits prod.splits)
  then show ?thesis by (rule apply_decision_ticket)
qed

lemma await_answer:
  assumes "await env f s = Some r"
  shows "\<exists>rd now w w'. f rd now w = (Some (fst r), w')"
  using _ assms
proof (rule await.raw_induct)
  fix loop :: "agent_env \<Rightarrow> (reading \<Rightarrow> instant \<Rightarrow> agent_world \<Rightarrow> 'a option \<times> agent_world) \<Rightarrow> handler_state \<Rightarrow> ('a \<times> handler_state) option"
    and env f s r
  assume IH: "\<And>env f s r. loop env f s = Some r \<Longrightarrow> \<exists>rd now w w'. f rd now w = (Some (fst r), w')"
    and step: "(case critical env f s of (Some x, s') \<Rightarrow> Some (x, s') | (None, s') \<Rightarrow> loop env f s') = Some r"
  obtain x s1 where c: "critical env f s = (x, s1)" by fastforce
  show "\<exists>rd now w w'. f rd now w = (Some (fst r), w')"
  proof (cases x)
    case None
    with step c IH [of env f s1 r] show ?thesis by simp
  next
    case (Some y)
    with step c have r: "r = (y, s1)" by simp
    obtain w where "f (en_reading env (hs_turn s)) (en_now env (hs_turn s)) (en_others env (hs_turn s) (hs_world s)) = (Some y, w)"
      using c Some by (auto simp: critical_def split: prod.splits)
    with r show ?thesis by auto
  qed
qed

lemma authorize_ticket:
  assumes "authorize_with_wake env t request s = Some (Inr ticket, s')"
  shows "ticket_for request ticket"
proof -
  obtain x s1 where c: "critical env (\<lambda>r now w. on_approval (authorize_begin r now DEFAULT_APPROVAL_TIMEOUT request)
      (share_cancellation t w)) s = (x, s1)" by fastforce
  then obtain r now st st' where b: "authorize_begin r now DEFAULT_APPROVAL_TIMEOUT request st = (x, st')"
    by (auto simp: critical_def on_approval_def split: prod.splits)
  show ?thesis
  proof (cases x)
    case (Finished y)
    with assms c authorize_begin_ticket [OF b, of ticket] show ?thesis by (simp add: authorize_with_wake_def)
  next
    case (Waiting i tk deadline)
    let ?poll = "\<lambda>r now w. case on_approval (authorize_poll r now t i tk deadline) (share_cancellation t w) of
        (Finished x, w') \<Rightarrow> (Some x, w') | (Waiting _ _ _, w') \<Rightarrow> (None, w')"
    from Waiting assms c have "await env ?poll s1 = Some (Inr ticket, s')" by (simp add: authorize_with_wake_def)
    from await_answer [OF this] have "ticket = tk"
      by (auto simp: on_approval_def split: prod.splits authorize_outcome.splits dest: authorize_poll_ticket)
    with Waiting authorize_begin_ticket [OF b, of tk] show ?thesis by simp
  qed
qed

section \<open>What a run records\<close>

text \<open>A handler records nothing, or a list of events of a certain kind.\<close>

definition records :: "(agent_event list \<Rightarrow> bool) \<Rightarrow> 'a handler \<Rightarrow> bool" where
  "records P m = (\<forall>s x s'. m s = Some (x, s') \<longrightarrow> (\<exists>l. hs_log s' = hs_log s @ l \<and> (l = [] \<or> P l)))"

lemma recordsD:
  assumes "records P m" and "m s = Some (x, s')"
  obtains l where "hs_log s' = hs_log s @ l" "l = [] \<or> P l"
  using assms unfolding records_def by blast

lemma records_silent: "silent m \<Longrightarrow> records P m"
  by (auto simp: records_def silent_def)

lemma records_after:
  assumes "silent m" and "\<And>s x s'. m s = Some (Inr x, s') \<Longrightarrow> Q x" and "\<And>x. Q x \<Longrightarrow> records P (f x)"
  shows "records P (hbind m f)"
  unfolding records_def
proof (intro allI impI)
  fix s y s'
  assume "hbind m f s = Some (y, s')"
  then show "\<exists>l. hs_log s' = hs_log s @ l \<and> (l = [] \<or> P l)"
  proof (cases rule: hbind_cases)
    case (failed e)
    then show ?thesis using silentD [OF assms(1)] by auto
  next
    case (continues x s1)
    then have "hs_log s1 = hs_log s" "records P (f x)" using silentD [OF assms(1)] assms(2,3) by blast+
    with continues(2) show ?thesis by (auto elim: recordsD)
  qed
qed

lemma records_then: "silent m \<Longrightarrow> (\<And>x. records P (f x)) \<Longrightarrow> records P (hbind m f)"
  by (rule records_after [where Q = "\<lambda>_. True"]) simp_all

lemma records_pure: "(\<And>x. v = Inr x \<Longrightarrow> records P (f x)) \<Longrightarrow> records P (hbind (pure v) f)"
  by (rule records_after [where Q = "\<lambda>x. v = Inr x"]) (simp_all add: silent_pure, simp add: pure_def)

lemma records_before: "records P m \<Longrightarrow> (\<And>x. silent (f x)) \<Longrightarrow> records P (hbind m f)"
  by (fastforce simp: records_def elim!: hbind_cases dest: silentD)

lemma records_on_exit: "records P m \<Longrightarrow> (\<And>s. hs_log (g s) = hs_log s) \<Longrightarrow> records P (on_exit m g)"
  by (fastforce simp: records_def elim!: on_exit_cases)

lemma records_mono: "records Q m \<Longrightarrow> (\<And>l. Q l \<Longrightarrow> P l) \<Longrightarrow> records P m"
  by (fastforce simp: records_def)

lemma records_event:
  assumes "records Q m" and "P [e]" and "\<And>l. Q l \<Longrightarrow> P (e # l)"
  shows "records P (hbind (note_event e) (\<lambda>_. m))"
  unfolding records_def
proof (intro allI impI)
  fix s x s'
  assume "hbind (note_event e) (\<lambda>_. m) s = Some (x, s')"
  then have "m (s\<lparr>hs_log := hs_log s @ [e]\<rparr>) = Some (x, s')" by (simp add: hbind_def note_event_def)
  with assms(1) obtain l where "hs_log s' = hs_log s @ e # l" "l = [] \<or> Q l" by (auto elim: recordsD)
  with assms(2,3) show "\<exists>l. hs_log s' = hs_log s @ l \<and> (l = [] \<or> P l)" by (intro exI [of _ "e # l"]) auto
qed

text \<open>The events of a run whose closures are given: values are resolved, and a child is launched with them.\<close>

definition launch_event ::
    "'r agent_libs \<Rightarrow> (reading \<Rightarrow> command \<Rightarrow> agent_world \<Rightarrow> child res \<times> agent_world) \<Rightarrow> prepared_run \<Rightarrow> agent_event list \<Rightarrow> bool" where
  "launch_event al launch_at run l =
     (\<exists>r w c ch. l = [Launched r w c] \<and> injected_command al run = Some c \<and> fst (launch_at r c w) = Inr ch)"

definition run_events ::
    "'r agent_libs \<Rightarrow> (reading \<Rightarrow> instant \<Rightarrow> agent_world \<Rightarrow> resolved_secret_binding list res \<times> agent_world) \<Rightarrow>
       (reading \<Rightarrow> command \<Rightarrow> agent_world \<Rightarrow> child res \<times> agent_world) \<Rightarrow> validated_run_request \<Rightarrow> agent_event list \<Rightarrow> bool" where
  "run_events al resolve_at launch_at request l =
     (\<exists>r now w vals w' l'. l = Resolved r w vals # l' \<and> resolve_at r now w = (Inr vals, w') \<and>
        (l' = [] \<or> (\<exists>run. resolve request vals = Inr run \<and> launch_event al launch_at run l')))"

lemma records_execute: "records (launch_event al launch_at run) (execute_shared env al t launch_at run)"
  unfolding records_def launch_event_def
  by (auto simp: execute_shared_def Let_def split: option.splits prod.splits sum.splits)

lemma records_resolve:
  assumes "\<And>vals. records (P vals) (f vals)"
  shows "records (\<lambda>l. \<exists>r now w vals w' l'. l = Resolved r w vals # l' \<and> resolve_at r now w = (Inr vals, w') \<and> (l' = [] \<or> P vals l'))
    (hbind (resolve_shared env t resolve_at) f)"
  unfolding records_def
proof (intro allI impI)
  fix s x s'
  assume "hbind (resolve_shared env t resolve_at) f s = Some (x, s')"
  then show "\<exists>l. hs_log s' = hs_log s @ l \<and> (l = [] \<or> (\<exists>r now w vals w' l'. l = Resolved r w vals # l' \<and>
      resolve_at r now w = (Inr vals, w') \<and> (l' = [] \<or> P vals l')))"
  proof (cases rule: hbind_cases)
    case (failed e)
    then show ?thesis by (auto simp: resolve_shared_def Let_def log_resolved_def split: prod.splits)
  next
    case (continues vals s1)
    from continues(1) obtain r now w w' where r: "resolve_at r now w = (Inr vals, w')" "hs_log s1 = hs_log s @ [Resolved r w vals]"
      by (auto simp: resolve_shared_def Let_def log_resolved_def split: prod.splits)
    from recordsD [OF assms continues(2)] obtain l where l: "hs_log s' = hs_log s1 @ l" "l = [] \<or> P vals l" .
    with r have "hs_log s' = hs_log s @ Resolved r w vals # l" by simp
    with r(1) l(2) show ?thesis by blast
  qed
qed

lemma records_run_guarded:
  "records (run_events al resolve_at launch_at request) (run_guarded_shared env al t resolve_at launch_at request)"
proof -
  have "records (\<lambda>l. \<exists>run. resolve request vals = Inr run \<and> launch_event al launch_at run l)
      (hbind (pure (resolve request vals)) (\<lambda>run. execute_shared env al t launch_at run))" for vals
    by (rule records_pure, rule records_mono [OF records_execute]) blast
  note resolved = records_resolve [where P = "\<lambda>vals l. \<exists>run. resolve request vals = Inr run \<and> launch_event al launch_at run l", OF this]
  show ?thesis
    unfolding run_guarded_shared_def run_events_def [abs_def]
    by (rule records_then [OF silent_act], rule records_on_exit, rule records_pure, rule resolved) simp
qed


section \<open>Secrets reach a command only under a valid grant\<close>

text \<open>The events of a run with secrets: a plan, then values resolved and a child launched with them, each under
  the ticket the approval gave.\<close>

definition secret_run_events ::
    "'r agent_libs \<Rightarrow> uuid \<Rightarrow> validated_run_request \<Rightarrow> agent_event list \<Rightarrow> bool" where
  "secret_run_events al client validated l =
     (\<exists>vc plan l' request ticket. l = Planned vc plan # l' \<and> make_approval_plan (vr_bindings validated) vc = Inr plan \<and>
        pa_vault_session request = pl_vault_session_id plan \<and> pa_client request = client \<and> pa_secrets request = pl_secrets plan \<and>
        (l' = [] \<or> ticket_for request ticket \<and>
          run_events al (resolve_granted al ticket (vr_bindings validated) (pl_binding_secret_ids plan))
            (launch_granted al ticket) validated l'))"

lemma record_run_activity_log: "hs_log (record_run_activity env s) = hs_log s"
  by (simp add: record_run_activity_def critical_log)

lemma records_run_with_secrets:
  "records (secret_run_events al client validated) (run_with_secrets env al client label t validated)"
proof -
  let ?request = "\<lambda>plan. new_pending_approval (al_approval_id al) (pl_vault_session_id plan) client label (pl_secrets plan)
    (vr_executable validated) (vr_arguments validated) (vr_working_directory validated)"
  let ?resolve = "\<lambda>ticket plan. resolve_granted al ticket (vr_bindings validated) (pl_binding_secret_ids plan)"
  let ?events = "\<lambda>plan l. \<exists>ticket. ticket_for (?request plan) ticket \<and>
    run_events al (?resolve ticket plan) (launch_granted al ticket) validated l"
  have guarded: "records (?events plan) (hbind (on_exit
        (run_guarded_shared env al t (?resolve ticket plan) (launch_granted al ticket) validated) (record_run_activity env))
      (\<lambda>result. pure (Inr (to_rpc_result result))))" if "ticket_for (?request plan) ticket" for plan ticket
    by (rule records_before [OF records_on_exit], rule records_mono [OF records_run_guarded])
      (use that in \<open>auto simp: record_run_activity_log silent_pure\<close>)
  have authorized: "records (?events plan) (hbind (act env (\<lambda>r now w.
        on_runs (set_secret_context (pl_binding_secret_ids plan)) (share_cancellation t w))) (\<lambda>_.
      hbind (authorize_with_wake env t (?request plan)) (\<lambda>ticket. hbind (on_exit
        (run_guarded_shared env al t (?resolve ticket plan) (launch_granted al ticket) validated) (record_run_activity env))
      (\<lambda>result. pure (Inr (to_rpc_result result))))))" for plan
    by (rule records_then [OF silent_act], rule records_after [OF silent_authorize authorize_ticket], assumption, rule guarded)
  have planned: "secret_run_events al client validated (Planned vc plan # l)"
    if "make_approval_plan (vr_bindings validated) vc = Inr plan" "l = [] \<or> ?events plan l" for vc plan l
    using that unfolding secret_run_events_def by (auto simp: new_pending_approval_def intro!: exI [of _ "?request plan"])
  show ?thesis
    unfolding run_with_secrets_def
  proof (rule records_after [OF silent_act, where Q = "\<lambda>(vc, plan). make_approval_plan (vr_bindings validated) vc = Inr plan"])
    fix s x s'
    assume "act env (\<lambda>r now w. (map_sum id (Pair (aw_controller w)) (make_approval_plan (vr_bindings validated) (aw_controller w)), w)) s =
      Some (Inr x, s')"
    then show "case x of (vc, plan) \<Rightarrow> make_approval_plan (vr_bindings validated) vc = Inr plan"
      by (auto simp: act_def critical_def map_sum_def split: sum.splits)
  next
    fix x :: "vault_controller \<times> approval_plan"
    assume x: "case x of (vc, plan) \<Rightarrow> make_approval_plan (vr_bindings validated) vc = Inr plan"
    then show "records (secret_run_events al client validated) (case x of (vc, plan) \<Rightarrow>
        hbind (note_event (Planned vc plan)) (\<lambda>_. hbind (act env (\<lambda>r now w.
          on_runs (set_secret_context (pl_binding_secret_ids plan)) (share_cancellation t w))) (\<lambda>_.
        hbind (authorize_with_wake env t (?request plan)) (\<lambda>ticket. hbind (on_exit
          (run_guarded_shared env al t (?resolve ticket plan) (launch_granted al ticket) validated) (record_run_activity env))
        (\<lambda>result. pure (Inr (to_rpc_result result)))))))"
      by (cases x) (auto intro!: records_event [OF authorized] planned)
  qed
qed

lemma validated_bindings:
  assumes "validate_run_request env request caller = Inr validated" and "rn_bindings request \<noteq> []"
  shows "vr_bindings validated \<noteq> []"
proof -
  have "validate_bindings env {} False (rn_bindings request) = Inr (vr_bindings validated)"
    using assms(1) unfolding validate_run_request_def Let_def guard_Inr and_then_Inr_iff by auto
  then have "length (rn_bindings request) = length (vr_bindings validated)"
    by (auto simp: validate_bindings_Inr dest: list_all2_lengthD)
  with assms(2) show ?thesis by auto
qed

lemma records_handle_run:
  assumes "rn_bindings request \<noteq> []"
  shows "records (\<lambda>l. \<exists>validated. validate_run_request (lb_env (al_libs al)) request CliCaller = Inr validated \<and>
      secret_run_events al client validated l) (handle_run env al client label request t)"
  unfolding handle_run_def
proof (rule records_then [OF silent_ensure_running], rule records_pure, rule records_then [OF silent_await_local_unlock],
    rule records_then [OF silent_act], rule records_on_exit, rule records_then [OF silent_act], rule records_then [OF silent_act],
    rule records_then [OF silent_ensure_running])
  fix validated
  assume v: "validate_run_request (lb_env (al_libs al)) request CliCaller = Inr validated"
  then have "vr_bindings validated \<noteq> []" using assms by (rule validated_bindings)
  with v show "records (\<lambda>l. \<exists>validated. validate_run_request (lb_env (al_libs al)) request CliCaller = Inr validated \<and>
      secret_run_events al client validated l)
    (if vr_bindings validated \<noteq> [] then run_with_secrets env al client label t validated
     else run_without_secrets env al client t validated)"
    using records_mono [OF records_run_with_secrets] by fastforce
qed (simp add: critical_log)


lemma resolve_granted_under_grant:
  assumes "resolve_granted al ticket bindings ids r now w = (Inr vals, w')"
  shows "honoured r ticket (aw_approval w) \<and>
    (\<exists>vc. resolve_bindings_for_ids (al_libs al) now bindings ids (aw_controller w) = (Inr vals, vc))"
  using assms by (auto simp: resolve_granted_def split: prod.splits dest!: with_valid_grant_honoured)

lemma launch_granted_under_grant:
  assumes "fst (launch_granted al ticket r c w) = Inr ch"
  shows "honoured r ticket (aw_approval w) \<and> \<not> active_cancelled (aw_runs w) \<and> al_spawn al c = Inr ch"
proof -
  from assms obtain co st where
    "with_valid_grant r ticket (spawn_child (al_spawn al c)) (aw_runs w) (aw_approval w) = (Inr ch, co, st)"
    by (auto simp: launch_granted_def split: prod.splits)
  from with_valid_grant_honoured [OF this] show ?thesis
    by (auto simp: spawn_child_def active_cancelled_def split: option.splits if_splits sum.splits)
qed

lemma secret_run_launched:
  assumes "secret_run_events al client validated l" and "Launched r w c \<in> set l"
  obtains vc plan r0 now w0 vals w' request ticket run where
    "l = [Planned vc plan, Resolved r0 w0 vals, Launched r w c]" "make_approval_plan (vr_bindings validated) vc = Inr plan"
    "pa_vault_session request = pl_vault_session_id plan" "pa_client request = client" "pa_secrets request = pl_secrets plan"
    "ticket_for request ticket" "resolve validated vals = Inr run" "injected_command al run = Some c"
    "resolve_granted al ticket (vr_bindings validated) (pl_binding_secret_ids plan) r0 now w0 = (Inr vals, w')"
    "\<exists>ch. fst (launch_granted al ticket r c w) = Inr ch"
  using assms that unfolding secret_run_events_def run_events_def launch_event_def by fastforce

text \<open>C1: A command that gets secrets is launched only at the end of this
  chain, whatever the other threads do in between. The vault planned which secrets the request means, the approval
  coordinator gave this client a ticket for exactly those, and it honoured the ticket both when the values
  were read and when the child was spawned. The run was not cancelled then. Each value is a field
  of the secret its binding names, in the vault open at that moment, and its secret is on the ticket; the command
  is the one these values are injected into.\<close>

theorem secrets_only_under_grant:
  assumes "text_laws (lb_env (al_libs al))" and "handle_run env al client label request t s = Some (res, s')"
    and "hs_log s = []" and "rn_bindings request \<noteq> []" and "Launched r w c \<in> set (hs_log s')"
  shows "\<exists>validated vc plan r0 w0 vals ticket run session since.
    validate_run_request (lb_env (al_libs al)) request CliCaller = Inr validated \<and>
    hs_log s' = [Planned vc plan, Resolved r0 w0 vals, Launched r w c] \<and>
    make_approval_plan (vr_bindings validated) vc = Inr plan \<and>
    gt_client ticket = client \<and> gt_vault_session ticket = pl_vault_session_id plan \<and>
    set (gt_secret_ids ticket) = as_id ` set (pl_secrets plan) \<and>
    honoured r0 ticket (aw_approval w0) \<and> honoured r ticket (aw_approval w) \<and> \<not> active_cancelled (aw_runs w) \<and>
    vc_state (aw_controller w0) = ManagedUnlocked session since \<and> length vals = length (vr_bindings validated) \<and>
    (\<forall>k < length vals. denotes session (vr_bindings validated ! k) (rb_secret_id (vals ! k)) (rb_value (vals ! k)) \<and>
       rb_secret_id (vals ! k) \<in> set (gt_secret_ids ticket)) \<and>
    resolve validated vals = Inr run \<and> injected_command al run = Some c"
proof -
  from recordsD [OF records_handle_run [OF assms(4)] assms(2)] assms(3,5) obtain validated where
    v: "validate_run_request (lb_env (al_libs al)) request CliCaller = Inr validated"
      and l: "secret_run_events al client validated (hs_log s')" by force
  from l assms(5) show ?thesis
  proof (rule secret_run_launched)
    fix vc plan r0 now w0 vals w' req ticket run
    assume chain: "hs_log s' = [Planned vc plan, Resolved r0 w0 vals, Launched r w c]"
        "make_approval_plan (vr_bindings validated) vc = Inr plan"
      and req: "pa_vault_session req = pl_vault_session_id plan" "pa_client req = client" "pa_secrets req = pl_secrets plan"
        "ticket_for req ticket"
      and run: "resolve validated vals = Inr run" "injected_command al run = Some c"
      and resolved: "resolve_granted al ticket (vr_bindings validated) (pl_binding_secret_ids plan) r0 now w0 = (Inr vals, w')"
      and launched: "\<exists>ch. fst (launch_granted al ticket r c w) = Inr ch"
    from resolve_granted_under_grant [OF resolved] obtain vc' where h0: "honoured r0 ticket (aw_approval w0)"
      and r: "resolve_bindings_for_ids (al_libs al) now (vr_bindings validated) (pl_binding_secret_ids plan) (aw_controller w0) =
        (Inr vals, vc')" by blast
    from launched have h: "honoured r ticket (aw_approval w)" "\<not> active_cancelled (aw_runs w)"
      using launch_granted_under_grant by blast+
    from req have tk: "gt_client ticket = client" "gt_vault_session ticket = pl_vault_session_id plan"
      "set (gt_secret_ids ticket) = as_id ` set (pl_secrets plan)"
      by (auto simp: ticket_for_def request_ids_def)
    from resolved_bindings_approved [OF assms(1) chain(2) r] obtain session since where
      s: "vc_state (aw_controller w0) = ManagedUnlocked session since" "length vals = length (vr_bindings validated)"
      and k: "\<forall>k < length (vr_bindings validated). rb_secret_id (vals ! k) = pl_binding_secret_ids plan ! k \<and>
          rb_field (vals ! k) = vb_field (vr_bindings validated ! k) \<and>
          denotes session (vr_bindings validated ! k) (rb_secret_id (vals ! k)) (rb_value (vals ! k))"
      and cov: "\<forall>i f. covered (pl_secrets plan) i f =
        (\<exists>k < length (vr_bindings validated). i = pl_binding_secret_ids plan ! k \<and> f = field_str (vb_field (vr_bindings validated ! k)))"
      by blast
    have on_ticket: "rb_secret_id (vals ! k) \<in> set (gt_secret_ids ticket)" if "k < length vals" for k
    proof -
      have "covered (pl_secrets plan) (pl_binding_secret_ids plan ! k) (field_str (vb_field (vr_bindings validated ! k)))"
        using cov that s(2) by auto
      then show ?thesis using k that s(2) unfolding tk(3) covered_def image_iff by metis
    qed
    have "\<forall>k < length vals. denotes session (vr_bindings validated ! k) (rb_secret_id (vals ! k)) (rb_value (vals ! k)) \<and>
        rb_secret_id (vals ! k) \<in> set (gt_secret_ids ticket)"
      using k s(2) on_ticket by metis
    with v chain tk h0 h s run show ?thesis by metis
  qed
qed

section \<open>A run with a secret\<close>

definition granted_state :: approval_state where
  "granted_state = \<lparr>ap_grants = \<lparr>lifetime_millis = 0, deadlines = [((7, SecretId 5), SessionEnd)]\<rparr>,
      ap_vault = Some 1, ap_pending = None, ap_labels = [], ap_client_sessions = [(7, 2)], ap_sessions_closed = False,
      ap_access = AppActive, ap_lock_epoch = 0, ap_revision = 0, ap_sessions = [], cancelled_tokens = []\<rparr>"

definition granted_world :: agent_world where
  "granted_world = \<lparr>aw_approval = granted_state, aw_runs = default_coordinator, aw_controller = demo_open demo_uv, aw_ui = None,
     aw_supervisor = new_supervisor, aw_shutting_down = False\<rparr>"

definition quiet_env :: agent_env where
  "quiet_env = \<lparr>en_others = (\<lambda>_ w. w), en_reading = (\<lambda>_. demo_reading), en_now = (\<lambda>k. k)\<rparr>"

definition open_host :: host where
  "open_host = \<lparr>ho_metadata = (\<lambda>p. Some \<lparr>fm_is_file = (p = ascii ''/x''), fm_is_dir = (p \<noteq> ascii ''/x''), fm_mode = 0x1ed, fm_uid = 501, fm_len = 0\<rparr>),
     ho_var = (\<lambda>_. None), ho_temp_dir = ascii ''/tmp'', ho_euid = 501\<rparr>"

definition demo_agent :: "byte agent_libs" where
  "demo_agent = \<lparr>al_libs = demo_libs, al_redact = demo_redact_lib, al_host = open_host, al_directory = demo_directory_io,
     al_secrets = (\<lambda>_. demo_secret_io), al_spawn = (\<lambda>_. Inr demo_child), al_approval_id = 40, al_unlock_id = 41, al_connection_id = 42\<rparr>"

definition stdin_request :: run_request where
  "stdin_request = \<lparr>rn_executable = ascii ''/x'', rn_arguments = [], rn_working_directory = ascii ''/'',
     rn_bindings = [\<lparr>sbr_secret_ref = ascii ''c'', sbr_field = ascii ''b'', sbr_target = StandardInputTarget\<rparr>],
     rn_timeout_ms = 1000, rn_output_limit_bytes = 128\<rparr>"

definition stdin_validated :: validated_run_request where
  "stdin_validated = \<lparr>vr_executable = ascii ''/x'', vr_arguments = [], vr_working_directory = ascii ''/'',
     vr_bindings = [demo_binding], vr_timeout = 1000000000, vr_output_limit_bytes = 128\<rparr>"

definition start_state :: handler_state where
  "start_state = \<lparr>hs_turn = 0, hs_world = granted_world, hs_log = []\<rparr>"

lemma stdin_request_valid: "validate_run_request plain_env stdin_request CliCaller = Inr stdin_validated"
proof -
  have "parse_secret_ref plain_env (ascii ''c'') = Inr (RefName (SecretName [0x63]))"
    by (simp add: parse_secret_ref_def strip_prefix_def ascii_def starts_with_def parse_secret_name_def plain_env_def valid_secret_name_def
        sublist_def is_forbidden_name_character_def chars.simps codepoint_def Let_def)
  then show ?thesis
    by (simp add: validate_run_request_def stdin_request_def stdin_validated_def is_absolute_def starts_with_def
      has_nul_def ascii_def RUN_MAX_PATH_BYTES_def RUN_MAX_ARGUMENTS_def RUN_MAX_ARGUMENT_BYTES_def MAX_BINDINGS_def from_millis_def
      nanos_per_milli_def MAX_CLI_TIMEOUT_def from_secs_def nanos_per_sec_def MIN_OUTPUT_LIMIT_BYTES_def MAX_OUTPUT_LIMIT_BYTES_def
      parse_field_name_def valid_field_name_def is_ascii_alphabetic_def validate_target_def demo_binding_def)
qed

definition granted_to :: "(uuid \<times> str) list \<Rightarrow> approval_state" where
  "granted_to l = granted_state\<lparr>ap_labels := l\<rparr>"

lemma granted_purge: "purge_disconnected_clients (granted_to l) = granted_to l"
  by (simp add: coordinator_defs granted_to_def granted_state_def)

lemma granted_unattended: "coord_has_unattended demo_reading 7 (granted_to l) = (False, granted_to l)"
  apply (simp add: coord_has_unattended_def granted_purge client_has_unattended_def duration_max_def)
  apply (simp add: granted_to_def granted_state_def coordinator_defs has_unattended_def duration_max_def)
  done

lemma granted_access: "require_client_access demo_reading 7 (granted_to l) = (Inr (), granted_to l)"
  by (simp add: require_client_access_def granted_purge Let_def is_app_active_def) (simp add: granted_to_def granted_state_def)

lemma granted_use: "with_valid_grant demo_reading \<lparr>gt_vault_session = 1, gt_client = 7, gt_secret_ids = [SecretId 5]\<rparr> f w (granted_to l) =
   (fst (f w), snd (f w), granted_to l)"
  apply (simp add: with_valid_grant_def granted_purge Let_def access_valid_def)
  apply (simp add: granted_to_def granted_state_def coordinator_defs missing_def duration_max_def split: prod.split)
  done


lemma hbind_Some: "m s = Some (Inr x, s') \<Longrightarrow> hbind m f s = f x s'"
  by (simp add: hbind_def)

definition demo_running :: "bool \<Rightarrow> secret_id list option \<Rightarrow> bool \<Rightarrow> (uuid \<times> str) list \<Rightarrow> vault_controller \<Rightarrow> agent_world" where
  "demo_running busy ids started l vc = \<lparr>aw_approval = granted_to l, aw_runs = \<lparr>co_active = Some
     \<lparr>ar_cancelled = False, ar_client = 7, ar_secret_ids = ids, ar_running = started\<rparr>, co_block_new = False\<rparr>,
     aw_controller = vc, aw_ui = None, aw_supervisor = \<lparr>sv_running = busy\<rparr>, aw_shutting_down = False\<rparr>"

lemma demo_running_shared: "share_cancellation 2 (demo_running busy ids started l vc) = demo_running busy ids started l vc"
  by (simp add: share_cancellation_def demo_running_def is_cancelled_def active_cancelled_def granted_to_def granted_state_def)

definition state_at :: "nat \<Rightarrow> agent_world \<Rightarrow> agent_event list \<Rightarrow> handler_state" where
  "state_at k w l = \<lparr>hs_turn = k, hs_world = w, hs_log = l\<rparr>"

abbreviation "demo_waiting \<equiv> granted_world\<lparr>aw_approval := granted_to []\<rparr>"

lemma quiet_critical: "critical quiet_env f (state_at k w l) = (case f demo_reading k w of (x, w') \<Rightarrow> (x, state_at (Suc k) w' l))"
  by (simp add: state_at_def critical_def quiet_env_def split: prod.split)

lemma quiet_act: "act quiet_env f (state_at k w l) = (case f demo_reading k w of (x, w') \<Rightarrow> Some (x, state_at (Suc k) w' l))"
  by (simp add: act_def quiet_critical split: prod.split)

lemma quiet_note: "note_event e (state_at k w l) = Some (Inr (), state_at k w (l @ [e]))"
  by (simp add: note_event_def state_at_def)

lemmas demo_steps = hbind_def quiet_act reading_of_def on_approval_def

lemma run_open: "await_local_unlock quiet_env 41 7 label purpose 2 (state_at k demo_waiting l) = Some (Inr (), state_at (Suc (Suc (Suc k))) demo_waiting l)"
  by (simp add: await_local_unlock_def demo_steps granted_unattended granted_access granted_world_def)

lemma run_authorized:
  "authorize_with_wake quiet_env 2 (new_pending_approval 40 1 7 label [\<lparr>as_id = SecretId 5, as_name = n, as_fields = fs\<rparr>] x y z)
     (state_at k (demo_running busy ids started [] vc) l) =
   Some (Inr \<lparr>gt_vault_session = 1, gt_client = 7, gt_secret_ids = [SecretId 5]\<rparr>, state_at (Suc k) (demo_running busy ids started [(7, label)] vc) l)"
proof -
  have "authorize_begin demo_reading k DEFAULT_APPROVAL_TIMEOUT (new_pending_approval 40 1 7 label [\<lparr>as_id = SecretId 5, as_name = n, as_fields = fs\<rparr>] x y z) (granted_to []) =
    (Finished (Inr \<lparr>gt_vault_session = 1, gt_client = 7, gt_secret_ids = [SecretId 5]\<rparr>), granted_to [(7, label)])"
    by (simp add: authorize_begin_def granted_purge Let_def new_pending_approval_def ticket_of_def request_ids_def)
      (simp add: granted_to_def granted_state_def coordinator_defs missing_def duration_max_def)
  then show ?thesis
    by (simp add: authorize_with_wake_def quiet_critical demo_running_shared on_approval_def) (simp add: demo_running_def)
qed

definition stdin_values :: "resolved_secret_binding list" where
  "stdin_values = [\<lparr>rb_secret_id = SecretId 5, rb_field = FieldName [0x62], rb_value = [9]\<rparr>]"

lemma demo_resolves_at:
  "\<exists>vc'. resolve_bindings_for_ids demo_libs k [demo_binding] [SecretId 5] (demo_open demo_uv) = (Inr stdin_values, vc')"
proof -
  have "parse_uuid plain_env (show_uuid plain_env 5) = Some 5"
    using plain_env_laws by (simp add: text_laws_def)
  then show ?thesis
    by (simp add: resolve_bindings_for_ids_def metadata_id_def demo_open_def demo_uv_def demo_binding_def demo_libs_def stdin_values_def
      list_records_def new_vault_session_def payload_at_def demo_record_def demo_field_def with_field_def find_record_index_def
      new_resolved_binding_def parse_secret_id_def parse_field_name_def valid_field_name_def is_ascii_alphabetic_def)
qed

lemma run_resolves:
  obtains vc' where "resolve_granted demo_agent \<lparr>gt_vault_session = 1, gt_client = 7, gt_secret_ids = [SecretId 5]\<rparr> [demo_binding] [SecretId 5]
     demo_reading k (demo_running busy ids started l (demo_open demo_uv)) = (Inr stdin_values, demo_running busy ids started l vc')"
proof -
  obtain vc' where "resolve_bindings_for_ids demo_libs k [demo_binding] [SecretId 5] (demo_open demo_uv) = (Inr stdin_values, vc')"
    using demo_resolves_at by blast
  then have "resolve_granted demo_agent \<lparr>gt_vault_session = 1, gt_client = 7, gt_secret_ids = [SecretId 5]\<rparr> [demo_binding] [SecretId 5]
     demo_reading k (demo_running busy ids started l (demo_open demo_uv)) = (Inr stdin_values, demo_running busy ids started l vc')"
    by (simp add: resolve_granted_def demo_running_def granted_use demo_agent_def)
  then show ?thesis by (rule that)
qed

definition stdin_run :: prepared_run where
  "stdin_run = \<lparr>pr_executable = ascii ''/x'', pr_arguments = [], pr_working_directory = ascii ''/'',
     pr_bindings = [\<lparr>pb_secret_id = SecretId 5, pb_field = FieldName [0x62], pb_target = ValidatedStandardInput, pb_value = [9]\<rparr>],
     pr_timeout = 1000000000, pr_output_limit_bytes = 128\<rparr>"

lemma stdin_resolves: "resolve stdin_validated stdin_values = Inr stdin_run"
  by (simp add: resolve_def stdin_validated_def stdin_values_def stdin_run_def demo_binding_def resolve_one_def is_environment_def MAX_INJECTED_BYTES_def
      contains_def windows_def ascii_def)

lemma stdin_command: "injected_command demo_agent stdin_run = Some (in_command (start_injection open_host stdin_run))"
  by (simp add: injected_command_def make_redactor_def new_redactor_def demo_agent_def stdin_run_def inject_binding_def 
   Let_def MIN_OUTPUT_LIMIT_BYTES_def MAX_OUTPUT_LIMIT_BYTES_def split_beta)

lemma stdin_launched:
  "launch_granted demo_agent \<lparr>gt_vault_session = 1, gt_client = 7, gt_secret_ids = [SecretId 5]\<rparr> demo_reading c
     (demo_running busy (Some ids) started l vc') = (Inr demo_child, demo_running busy (Some ids) True l vc')"
  by (simp add: launch_granted_def demo_running_def granted_use demo_agent_def spawn_child_def) 


definition stdin_ticket :: grant_ticket where
  "stdin_ticket = \<lparr>gt_vault_session = 1, gt_client = 7, gt_secret_ids = [SecretId 5]\<rparr>"

lemma stdin_executes:
  obtains res where "execute_shared quiet_env demo_agent 2 (launch_granted demo_agent stdin_ticket) stdin_run
     (state_at k (demo_running True (Some ids) False l vc) log) =
   Some (res, state_at (Suc k) (demo_running True (Some ids) True l vc)
     (log @ [Launched demo_reading (demo_running True (Some ids) False l vc) (in_command (start_injection open_host stdin_run))]))"
proof -
  let ?w = "demo_running True (Some ids) False l vc"
  have launched: "launch_granted demo_agent stdin_ticket demo_reading c ?w = (Inr demo_child, demo_running True (Some ids) True l vc)" for c
    using stdin_launched by (simp add: stdin_ticket_def)
  obtain r where "fst (execute demo_redact_lib open_host demo_directory_io (\<lambda>_. demo_secret_io) k (\<lambda>_. Inr demo_child) stdin_run) = Some r"
    using executed_run_safe [OF demo_redact_lib_law] demo_child_clock by force
  with launched have "execute_shared quiet_env demo_agent 2 (launch_granted demo_agent stdin_ticket) stdin_run (state_at k ?w log) =
     Some (r, state_at (Suc k) (demo_running True (Some ids) True l vc)
       (log @ [Launched demo_reading ?w (in_command (start_injection open_host stdin_run))]))"
    by (simp add: execute_shared_def Let_def stdin_command state_at_def quiet_env_def demo_running_shared)
      (simp add: demo_agent_def)
  then show ?thesis by (rule that)
qed


lemma stdin_guarded:
  obtains res w' w0 where "run_guarded_shared quiet_env demo_agent 2
      (resolve_granted demo_agent stdin_ticket [demo_binding] [SecretId 5]) (launch_granted demo_agent stdin_ticket) stdin_validated
     (state_at k (demo_running False (Some ids) False l (demo_open demo_uv)) log) =
   Some (res, state_at (Suc (Suc (Suc (Suc k)))) w' (log @ [Resolved demo_reading (demo_running True (Some ids) False l (demo_open demo_uv)) stdin_values,
      Launched demo_reading w0 (in_command (start_injection open_host stdin_run))]))"
proof -
  obtain vc where vc: "resolve_granted demo_agent stdin_ticket [demo_binding] [SecretId 5] demo_reading (Suc k)
      (demo_running True (Some ids) False l (demo_open demo_uv)) = (Inr stdin_values, demo_running True (Some ids) False l vc)"
    using run_resolves [of "Suc k" True "Some ids" False l] by (auto simp: stdin_ticket_def)
  then have r: "resolve_shared quiet_env 2 (resolve_granted demo_agent stdin_ticket [demo_binding] [SecretId 5])
      (state_at (Suc k) (demo_running True (Some ids) False l (demo_open demo_uv)) log) =
    Some (Inr stdin_values, state_at (Suc (Suc k)) (demo_running True (Some ids) False l vc)
      (log @ [Resolved demo_reading (demo_running True (Some ids) False l (demo_open demo_uv)) stdin_values]))"
    by (simp add: resolve_shared_def state_at_def quiet_env_def demo_running_shared log_resolved_def)
  have fs: "validate_filesystem (al_host demo_agent) stdin_validated = Inr ()"
    by (simp add: validate_filesystem_def demo_agent_def open_host_def stdin_validated_def ascii_def)
  have a: "(case acquire_run (aw_supervisor (demo_running False (Some ids) False l (demo_open demo_uv))) of
      (x, sv) \<Rightarrow> (x, (demo_running False (Some ids) False l (demo_open demo_uv))\<lparr>aw_supervisor := sv\<rparr>)) =
      (Inr (), demo_running True (Some ids) False l (demo_open demo_uv))"
    by (simp add: demo_running_def acquire_run_def)
  obtain res where e: "execute_shared quiet_env demo_agent 2 (launch_granted demo_agent stdin_ticket) stdin_run
      (state_at (Suc (Suc k)) (demo_running True (Some ids) False l vc)
        (log @ [Resolved demo_reading (demo_running True (Some ids) False l (demo_open demo_uv)) stdin_values])) =
    Some (res, state_at (Suc (Suc (Suc k))) (demo_running True (Some ids) True l vc)
      ((log @ [Resolved demo_reading (demo_running True (Some ids) False l (demo_open demo_uv)) stdin_values]) @
       [Launched demo_reading (demo_running True (Some ids) False l vc) (in_command (start_injection open_host stdin_run))]))"
    by (rule stdin_executes)
  have "run_guarded_shared quiet_env demo_agent 2
      (resolve_granted demo_agent stdin_ticket [demo_binding] [SecretId 5]) (launch_granted demo_agent stdin_ticket) stdin_validated
     (state_at k (demo_running False (Some ids) False l (demo_open demo_uv)) log) =
   Some (res, state_at (Suc (Suc (Suc (Suc k)))) ((demo_running True (Some ids) True l vc)\<lparr>aw_supervisor := release_run (aw_supervisor (demo_running True (Some ids) True l vc))\<rparr>)
     (log @ [Resolved demo_reading (demo_running True (Some ids) False l (demo_open demo_uv)) stdin_values,
      Launched demo_reading (demo_running True (Some ids) False l vc) (in_command (start_injection open_host stdin_run))]))"
    by (simp add: run_guarded_shared_def hbind_def quiet_act a on_exit_def pure_def fs r stdin_resolves e quiet_critical)
  then show ?thesis by (rule that)
qed

abbreviation stdin_plan :: approval_plan where
  "stdin_plan \<equiv> \<lparr>pl_vault_session_id = 1, pl_secrets = [\<lparr>as_id = SecretId 5, as_name = [0x63], as_fields = [[0x62]]\<rparr>],
          pl_binding_secret_ids = [SecretId 5]\<rparr>"

lemma stdin_with_secrets:
  obtains res k' w' w1 w0 where "run_with_secrets quiet_env demo_agent 7 [] 2 stdin_validated
      (state_at k (demo_running False None False [] (demo_open demo_uv)) []) =
    Some (res, state_at k' w' [Planned (demo_open demo_uv) stdin_plan, Resolved demo_reading w1 stdin_values,
      Launched demo_reading w0 (in_command (start_injection open_host stdin_run))])"
proof -
  let ?log = "[Planned (demo_open demo_uv) stdin_plan]"
  obtain res w' w1 w0 where g: "run_guarded_shared quiet_env demo_agent 2
      (resolve_granted demo_agent stdin_ticket [demo_binding] [SecretId 5]) (launch_granted demo_agent stdin_ticket) stdin_validated
     (state_at (Suc (Suc (Suc k))) (demo_running False (Some [SecretId 5]) False [(7, [])] (demo_open demo_uv)) ?log) =
   Some (res, state_at (Suc (Suc (Suc (Suc (Suc (Suc (Suc k))))))) w' (?log @ [Resolved demo_reading w1 stdin_values,
      Launched demo_reading w0 (in_command (start_injection open_host stdin_run))]))"
    using stdin_guarded by metis
  have b: "vr_bindings stdin_validated = [demo_binding]" by (simp add: stdin_validated_def)
  have c: "aw_controller (demo_running x y z l vc) = vc" for x y z l vc by (simp add: demo_running_def)
  have sc: "on_runs (set_secret_context [SecretId 5]) (demo_running False None False [] vc) = (Inr (), demo_running False (Some [SecretId 5]) False [] vc)" for vc
    by (simp add: on_runs_def demo_running_def set_secret_context_def)
  have ids: "al_approval_id demo_agent = 40" by (simp add: demo_agent_def)
  have "\<exists>res k' w'. run_with_secrets quiet_env demo_agent 7 [] 2 stdin_validated
      (state_at k (demo_running False None False [] (demo_open demo_uv)) []) =
    Some (res, state_at k' w' [Planned (demo_open demo_uv) stdin_plan, Resolved demo_reading w1 stdin_values,
      Launched demo_reading w0 (in_command (start_injection open_host stdin_run))])"
    by (cases res) (simp_all add: run_with_secrets_def hbind_def quiet_act b c demo_plan quiet_note demo_running_shared sc ids
      run_authorized [folded stdin_ticket_def] g on_exit_def record_run_activity_def quiet_critical pure_def, blast+)
  then show ?thesis using that by blast
qed

lemma stdin_run_launches:
  obtains res k' w' w1 w0 where "handle_run quiet_env demo_agent 7 [] stdin_request 2 (state_at 0 demo_waiting []) =
    Some (res, state_at k' w' [Planned (demo_open demo_uv) stdin_plan, Resolved demo_reading w1 stdin_values,
      Launched demo_reading w0 (in_command (start_injection open_host stdin_run))])"
proof -
  obtain res k' w' w1 w0 where g: "run_with_secrets quiet_env demo_agent 7 [] 2 stdin_validated
      (state_at (Suc (Suc (Suc (Suc (Suc (Suc (Suc (Suc 0)))))))) (demo_running False None False [] (demo_open demo_uv)) []) =
    Some (res, state_at k' w' [Planned (demo_open demo_uv) stdin_plan, Resolved demo_reading w1 stdin_values,
      Launched demo_reading w0 (in_command (start_injection open_host stdin_run))])"
    by (rule stdin_with_secrets)
  have v: "validate_run_request (lb_env (al_libs demo_agent)) stdin_request CliCaller = Inr stdin_validated"
    using stdin_request_valid by (simp add: demo_agent_def demo_libs_def)
  have ids: "al_unlock_id demo_agent = 41" by (simp add: demo_agent_def)
  have start: "on_runs (try_start (is_cancelled (granted_to []) 2) 7) demo_waiting = (Inr (), demo_running False None False [] (demo_open demo_uv))"
    by (simp add: on_runs_def try_start_def demo_running_def granted_world_def default_coordinator_def is_cancelled_def granted_to_def granted_state_def
      new_supervisor_def)
  have access: "on_approval (require_client_access demo_reading 7) (demo_running False None False [] vc) = (Inr (), demo_running False None False [] vc)" for vc
    by (simp add: on_approval_def demo_running_def granted_access)
  have observed: "(demo_running False None False [] vc)\<lparr>aw_approval := observe_run demo_reading 7 a b (aw_approval (demo_running False None False [] vc))\<rparr> =
      demo_running False None False [] vc" for vc a b
    by (simp add: demo_running_def observe_run_def granted_to_def granted_state_def)
  have up: "\<not> aw_shutting_down demo_waiting" "\<not> aw_shutting_down (demo_running False None False [] vc)" for vc
    by (simp_all add: granted_world_def demo_running_def)
  have b: "vr_bindings stdin_validated \<noteq> []" by (simp add: stdin_validated_def)
  have "\<exists>k' w'. handle_run quiet_env demo_agent 7 [] stdin_request 2 (state_at 0 demo_waiting []) =
    Some (res, state_at k' w' [Planned (demo_open demo_uv) stdin_plan, Resolved demo_reading w1 stdin_values,
      Launched demo_reading w0 (in_command (start_injection open_host stdin_run))])"
    by (simp add: handle_run_def ensure_running_def hbind_def reading_of_def quiet_act up pure_def v ids run_open
        start on_exit_def demo_running_shared access observed b g quiet_critical) blast
  then show ?thesis using that by blast
qed

theorem secrets_only_under_grant_witness:
  "\<exists>res s' w c. handle_run quiet_env demo_agent 7 [] stdin_request 2 (state_at 0 demo_waiting []) = Some (res, s') \<and>
     Launched demo_reading w c \<in> set (hs_log s') \<and>
     (\<exists>ticket. honoured demo_reading ticket (aw_approval w) \<and> gt_client ticket = 7)"
proof -
  obtain res k' w' w1 w0 where r: "handle_run quiet_env demo_agent 7 [] stdin_request 2 (state_at 0 demo_waiting []) =
    Some (res, state_at k' w' [Planned (demo_open demo_uv) stdin_plan, Resolved demo_reading w1 stdin_values,
      Launched demo_reading w0 (in_command (start_injection open_host stdin_run))])"
    by (rule stdin_run_launches)
  have "text_laws (lb_env (al_libs demo_agent))" using plain_env_laws by (simp add: demo_agent_def demo_libs_def)
  from secrets_only_under_grant [OF this r, of demo_reading w0 "in_command (start_injection open_host stdin_run)"] r
  show ?thesis by (fastforce simp: state_at_def stdin_request_def)
qed

end
