(* ===== verification/Ladon_Local_Properties.thy ===== *)
theory Ladon_Local_Properties
  imports Ladon_Local Ladon_Agent_Properties
begin

text \<open>
  What the local operations of the broker promise while the other threads run: a hard lock locks the
  vault on every path, a revocation leaves no grant behind and no run that could use it, and the view of the grants
  lists the live ones in order.
\<close>

section \<open>Handlers and what the other threads keep\<close>

text \<open>The others keep a condition on the shared state; a handler then keeps it, or brings it about.\<close>

definition others_keep :: "agent_env \<Rightarrow> (agent_world \<Rightarrow> bool) \<Rightarrow> bool" where
  "others_keep env P = (\<forall>k w. P w \<longrightarrow> P (en_others env k w))"

definition leads :: "(agent_world \<Rightarrow> bool) \<Rightarrow> 'a handler \<Rightarrow> ('a res \<Rightarrow> agent_world \<Rightarrow> bool) \<Rightarrow> bool" where
  "leads P m Q = (\<forall>s x s'. P (hs_world s) \<longrightarrow> m s = Some (x, s') \<longrightarrow> Q x (hs_world s'))"

lemma leadsD: "leads P m Q \<Longrightarrow> P (hs_world s) \<Longrightarrow> m s = Some (x, s') \<Longrightarrow> Q x (hs_world s')"
  by (auto simp: leads_def)

lemma critical_leads:
  assumes keep: "others_keep env P" and f: "\<forall>r now w x w'. P w \<longrightarrow> f r now w = (x, w') \<longrightarrow> Q x w'"
    and "P (hs_world s)" and c: "critical env f s = (x, s')"
  shows "Q x (hs_world s')"
proof -
  have "P (en_others env (hs_turn s) (hs_world s))" using keep assms(3) by (simp add: others_keep_def)
  with f c show ?thesis by (auto simp: critical_def split: prod.splits)
qed

lemma leads_act:
  assumes "others_keep env P" and "\<And>r now w x w'. P w \<Longrightarrow> f r now w = (x, w') \<Longrightarrow> Q x w'"
  shows "leads P (act env f) Q"
proof -
  have "\<forall>r now w x w'. P w \<longrightarrow> f r now w = (x, w') \<longrightarrow> Q x w'" using assms(2) by blast
  from critical_leads [OF assms(1) this] show ?thesis by (auto simp: leads_def act_def)
qed

lemma leads_pure: "(\<And>w. P w \<Longrightarrow> Q x w) \<Longrightarrow> leads P (pure x) Q"
  by (simp add: leads_def pure_def)

lemma leads_hbind:
  assumes "leads P m (\<lambda>x w. case x of Inl e \<Rightarrow> Q (Inl e) w | Inr y \<Rightarrow> R y w)" and "\<And>y. leads (R y) (f y) Q"
  shows "leads P (hbind m f) Q"
  unfolding leads_def
proof (intro allI impI)
  fix s x s'
  assume P: "P (hs_world s)" and h: "hbind m f s = Some (x, s')"
  from h show "Q x (hs_world s')"
  proof (cases rule: hbind_cases)
    case (failed e)
    then show ?thesis using leadsD [OF assms(1) P] by fastforce
  next
    case (continues y s1)
    then have "R y (hs_world s1)" using leadsD [OF assms(1) P] by fastforce
    then show ?thesis using leadsD [OF assms(2)] continues(2) by blast
  qed
qed

lemma await_leads_all:
  assumes "await env f s = Some p"
  shows "others_keep env P \<longrightarrow> (\<forall>r now w w'. P w \<longrightarrow> f r now w = (None, w') \<longrightarrow> P w') \<longrightarrow>
    (\<forall>r now w y w'. P w \<longrightarrow> f r now w = (Some y, w') \<longrightarrow> Q y w') \<longrightarrow> P (hs_world s) \<longrightarrow> Q (fst p) (hs_world (snd p))"
  using _ assms
proof (rule await.raw_induct)
  fix loop :: "agent_env \<Rightarrow> (reading \<Rightarrow> instant \<Rightarrow> agent_world \<Rightarrow> 'a option \<times> agent_world) \<Rightarrow> handler_state \<Rightarrow> ('a \<times> handler_state) option"
    and env f s p
  assume IH: "\<And>env f s p. loop env f s = Some p \<Longrightarrow> others_keep env P \<longrightarrow>
      (\<forall>r now w w'. P w \<longrightarrow> f r now w = (None, w') \<longrightarrow> P w') \<longrightarrow>
      (\<forall>r now w y w'. P w \<longrightarrow> f r now w = (Some y, w') \<longrightarrow> Q y w') \<longrightarrow> P (hs_world s) \<longrightarrow> Q (fst p) (hs_world (snd p))"
    and step: "(case critical env f s of (Some x, s') \<Rightarrow> Some (x, s') | (None, s') \<Rightarrow> loop env f s') = Some p"
  obtain x s1 where c: "critical env f s = (x, s1)" by fastforce
  show "others_keep env P \<longrightarrow> (\<forall>r now w w'. P w \<longrightarrow> f r now w = (None, w') \<longrightarrow> P w') \<longrightarrow>
      (\<forall>r now w y w'. P w \<longrightarrow> f r now w = (Some y, w') \<longrightarrow> Q y w') \<longrightarrow> P (hs_world s) \<longrightarrow> Q (fst p) (hs_world (snd p))"
  proof (intro impI)
    assume keep: "others_keep env P" and stay: "\<forall>r now w w'. P w \<longrightarrow> f r now w = (None, w') \<longrightarrow> P w'"
      and answer: "\<forall>r now w y w'. P w \<longrightarrow> f r now w = (Some y, w') \<longrightarrow> Q y w'" and "P (hs_world s)"
    then have 1: "case x of None \<Rightarrow> P (hs_world s1) | Some y \<Rightarrow> Q y (hs_world s1)"
      by (intro critical_leads [where Q = "\<lambda>x w. case x of None \<Rightarrow> P w | Some y \<Rightarrow> Q y w", OF keep _ _ c])
        (auto split: option.splits)
    show "Q (fst p) (hs_world (snd p))"
    proof (cases x)
      case None
      with step c have "loop env f s1 = Some p" by simp
      from IH [OF this] keep stay answer 1 None show ?thesis by simp
    next
      case (Some y)
      with step c 1 show ?thesis by auto
    qed
  qed
qed

lemma await_leads:
  assumes "others_keep env P" and "\<And>r now w w'. P w \<Longrightarrow> f r now w = (None, w') \<Longrightarrow> P w'"
    and "\<And>r now w y w'. P w \<Longrightarrow> f r now w = (Some y, w') \<Longrightarrow> Q y w'"
    and "await env f s = Some (y, s')" and "P (hs_world s)"
  shows "Q y (hs_world s')"
  using await_leads_all [OF assms(4), of P Q] assms(1-3,5) by auto

lemma leads_with_run_block:
  assumes keep: "others_keep env P" "others_keep env P'" "\<And>x. others_keep env (Q x)"
    and take_block: "\<And>w wait co. P w \<Longrightarrow> take_block (aw_runs w) = Some (wait, co) \<Longrightarrow>
      (if wait then P' (w\<lparr>aw_runs := co\<rparr>) else R (w\<lparr>aw_runs := co\<rparr>))"
    and ready: "\<And>w. P' w \<Longrightarrow> ready (aw_runs w) \<Longrightarrow> R w"
    and body: "leads R m Q" and drop_it: "\<And>x w. Q x w \<Longrightarrow> Q x (w\<lparr>aw_runs := drop_block (aw_runs w)\<rparr>)"
  shows "leads P (with_run_block env take_block ready m) Q"
  unfolding leads_def
proof (intro allI impI)
  fix s x s'
  assume P: "P (hs_world s)" and "with_run_block env take_block ready m s = Some (x, s')"
  then obtain p q z where
    "await env (\<lambda>r now w. case take_block (aw_runs w) of None \<Rightarrow> (None, w) | Some (wait, co) \<Rightarrow> (Some wait, w\<lparr>aw_runs := co\<rparr>)) s = Some p"
    "(if fst p then await env (\<lambda>r now w. (if ready (aw_runs w) then Some () else None, w)) (snd p) else Some ((), snd p)) = Some q"
    "m (snd q) = Some z" "x = fst z" "s' = snd (critical env (\<lambda>r now w. ((), w\<lparr>aw_runs := drop_block (aw_runs w)\<rparr>)) (snd z))"
    unfolding with_run_block_def Option.bind_eq_Some_conv split_beta by auto
  then obtain wait s1 u s2 s3 where
    taken: "await env (\<lambda>r now w. case take_block (aw_runs w) of None \<Rightarrow> (None, w) | Some (wait, co) \<Rightarrow> (Some wait, w\<lparr>aw_runs := co\<rparr>)) s = Some (wait, s1)"
    and waited: "(if wait then await env (\<lambda>r now w. (if ready (aw_runs w) then Some () else None, w)) s1 else Some ((), s1)) = Some (u, s2)"
    and m: "m s2 = Some (x, s3)" and dropped: "critical env (\<lambda>r now w. ((), w\<lparr>aw_runs := drop_block (aw_runs w)\<rparr>)) s3 = ((), s')"
    by (cases p; cases q; cases z) (simp add: prod_eq_iff)
  from taken P have 1: "if wait then P' (hs_world s1) else R (hs_world s1)"
    by (rule await_leads [where Q = "\<lambda>wait w. if wait then P' w else R w", OF keep(1), rotated 2])
      (auto split: option.splits dest: take_block)
  have "R (hs_world s2)"
  proof (cases wait)
    case True
    with waited have "await env (\<lambda>r now w. (if ready (aw_runs w) then Some () else None, w)) s1 = Some (u, s2)" by simp
    then show ?thesis
      by (rule await_leads [where Q = "\<lambda>_. R", OF keep(2), rotated 2]) (use 1 True in \<open>auto split: if_splits intro: ready\<close>)
  next
    case False
    with waited 1 show ?thesis by simp
  qed
  with m have "Q x (hs_world s3)" using leadsD [OF body] by blast
  with dropped show "Q x (hs_world s')"
    using drop_it by (intro critical_leads [where Q = "\<lambda>_. Q x", OF keep(3)]) auto
qed

section \<open>A hard lock always locks\<close>

definition vault_closed :: "agent_world \<Rightarrow> bool" where
  "vault_closed w = (vc_state (aw_controller w) \<in> {ManagedLocked, ManagedFirstRun} \<and> vc_session_id (aw_controller w) = None)"

definition no_grants :: "agent_world \<Rightarrow> bool" where
  "no_grants w = (deadlines (ap_grants (aw_approval w)) = [])"

lemma lock_closes: "vault_closed (w\<lparr>aw_controller := lock (aw_controller w)\<rparr>)"
  by (simp add: vault_closed_def lock_def)

lemma vault_closed_frame [simp]:
  "vault_closed (w\<lparr>aw_approval := st\<rparr>) = vault_closed w" "vault_closed (w\<lparr>aw_runs := co\<rparr>) = vault_closed w"
  "vault_closed (w\<lparr>aw_ui := u\<rparr>) = vault_closed w"
  by (simp_all add: vault_closed_def)

lemma no_grants_frame [simp]:
  "no_grants (w\<lparr>aw_controller := vc\<rparr>) = no_grants w" "no_grants (w\<lparr>aw_runs := co\<rparr>) = no_grants w"
  "no_grants (w\<lparr>aw_ui := u\<rparr>) = no_grants w"
  by (simp_all add: no_grants_def)

lemma on_ui_frame:
  assumes "on_ui f absent w = (x, w')"
  obtains u where "w' = w\<lparr>aw_ui := u\<rparr>"
proof (cases "aw_ui w")
  case None
  with assms have "w' = w\<lparr>aw_ui := aw_ui w\<rparr>" by (simp add: on_ui_def)
  then show ?thesis by (rule that)
next
  case (Some u)
  with assms that show ?thesis by (auto simp: on_ui_def split: prod.splits)
qed

lemma on_approval_frame:
  assumes "on_approval f w = (x, w')"
  obtains st where "f (aw_approval w) = (x, st)" "w' = w\<lparr>aw_approval := st\<rparr>"
  using assms that by (auto simp: on_approval_def split: prod.splits)

lemma reset_clears: "reset_after_vault_lock st = (Inr (), st') \<Longrightarrow> deadlines (ap_grants st') = []"
  by (auto simp: reset_after_vault_lock_def revoke_all_def Let_def split: option.splits)

definition locked_down :: "unit res \<Rightarrow> agent_world \<Rightarrow> bool" where
  "locked_down reset w = (vault_closed w \<and> (reset = Inr () \<longrightarrow> no_grants w))"

lemma lock_under_block_locks:
  assumes keep: "others_keep env vault_closed" "others_keep env no_grants"
  shows "leads (\<lambda>_. True) (lock_under_block env request first_error) locked_down"
  unfolding leads_def
proof (intro allI impI)
  fix s0 x s'
  assume run: "lock_under_block env request first_error s0 = Some (x, s')"
  have keep': "others_keep env (locked_down reset)" for reset
    using keep by (auto simp: others_keep_def locked_down_def)
  obtain u1 s1 where c1: "critical env (\<lambda>r now w. ((), w\<lparr>aw_controller := lock (aw_controller w)\<rparr>)) s0 = (u1, s1)" by (rule prod.exhaust)
  have "vault_closed (hs_world s1)"
    by (rule critical_leads [where P = "\<lambda>_. True" and Q = "\<lambda>_. vault_closed", OF _ _ _ c1]) (auto simp: others_keep_def lock_closes)
  obtain reset s2 where c2: "critical env (\<lambda>r now w. on_approval reset_after_vault_lock w) s1 = (reset, s2)" by fastforce
  have 2: "locked_down reset (hs_world s2)"
    by (rule critical_leads [where Q = locked_down, OF keep(1) _ \<open>vault_closed (hs_world s1)\<close> c2])
      (auto simp: locked_down_def no_grants_def elim!: on_approval_frame dest: reset_clears)
  have ok: "locked_down x (hs_world s)" if "locked_down reset (hs_world s)" "x = Inr () \<Longrightarrow> reset = Inr ()" for s
    using that by (auto simp: locked_down_def)
  have answer: "x = Inr () \<Longrightarrow> reset = Inr ()"
    if "Some (case first_of first_error (first_of (error_of reset) finished) of Some e \<Rightarrow> Inl e | None \<Rightarrow> Inr (), s) = Some (x, s')" for finished s
    using that by (cases reset) (auto simp: first_of_def error_of_def split: option.splits)
  show "locked_down x (hs_world s')"
  proof (cases request)
    case None
    with run c1 c2 have "Some (case first_of first_error (first_of (error_of reset) None) of Some e \<Rightarrow> Inl e | None \<Rightarrow> Inr (), s2) = Some (x, s')"
      by (simp add: lock_under_block_def)
    with ok [of s2] 2 answer [of None s2] show ?thesis by auto
  next
    case (Some i)
    obtain y s3 where c3: "critical env (\<lambda>r now w. on_ui (announce_request i) (Inl InvalidRequest) w) s2 = (y, s3)" by fastforce
    have 3: "locked_down reset (hs_world s3)"
      by (rule critical_leads [where Q = "\<lambda>_. locked_down reset", OF keep' _ 2 c3])
        (auto simp: locked_down_def elim!: on_ui_frame)
    obtain finished s4 where 4: "locked_down reset (hs_world s4)"
      "Some (case first_of first_error (first_of (error_of reset) finished) of Some e \<Rightarrow> Inl e | None \<Rightarrow> Inr (), s4) = Some (x, s')"
    proof (cases y)
      case (Inl e)
      with run c1 c2 c3 Some 3 show ?thesis by (intro that [of s3 "Some e"]) (simp_all add: lock_under_block_def)
    next
      case (Inr u)
      with run c1 c2 c3 Some obtain a s4 where a: "await env (\<lambda>r now w. on_ui (\<lambda>u. (await_acknowledgement i u, u)) (Some (Inl EndpointUnavailable)) w) s3 = Some (a, s4)"
        "Some (case first_of first_error (first_of (error_of reset) (error_of a)) of Some e \<Rightarrow> Inl e | None \<Rightarrow> Inr (), s4) = Some (x, s')"
        by (auto simp: lock_under_block_def Option.bind_eq_Some_conv)
      have "locked_down reset (hs_world s4)"
        by (rule await_leads [where Q = "\<lambda>_. locked_down reset", OF keep' _ _ a(1) 3]) (auto simp: locked_down_def elim!: on_ui_frame)
      from that [OF this a(2)] show ?thesis .
    qed
    with ok [of s4] answer [of finished s4] show ?thesis by auto
  qed
qed

lemma hard_lock_leads:
  assumes "others_keep env vault_closed" "others_keep env no_grants"
  shows "leads (\<lambda>_. True) (lock_controller_and_runs env with_ui) locked_down"
  unfolding leads_def
proof (intro allI impI)
  fix s x s'
  assume "lock_controller_and_runs env with_ui s = Some (x, s')"
  then obtain s3 request first_error where
    run: "with_run_block env all_runs runs_drained (lock_under_block env request first_error) s3 = Some (x, s')"
    unfolding lock_controller_and_runs_def Option.bind_eq_Some_conv Let_def split_beta by blast
  have "others_keep env (locked_down y)" for y
    using assms by (auto simp: others_keep_def locked_down_def)
  then have "leads (\<lambda>_. True) (with_run_block env all_runs runs_drained (lock_under_block env request first_error)) locked_down"
    by (intro leads_with_run_block [where P' = "\<lambda>_. True" and R = "\<lambda>_. True"] lock_under_block_locks assms)
      (auto simp: others_keep_def locked_down_def)
  from leadsD [OF this _ run] show "locked_down x (hs_world s')" by simp
qed

text \<open>C4: An agent's request to lock always locks the vault, even when it is answered with an error: the keys are gone when
  the answer is given, unless another thread opened the vault in between. Success is answered only when all
  grants are revoked as well.\<close>

theorem lock_request_locks:
  assumes "others_keep env vault_closed" and "others_keep env no_grants"
    and "rq_method request = LockMethod" and "handle env al request t s = Some (response, s')"
  shows "vault_closed (hs_world s') \<and>
    (response = response_success (rq_request_id request) LockedResult \<longrightarrow> no_grants (hs_world s'))"
proof -
  from assms(4) obtain a where a: "handle_method env al (rq_client_session_id request) (rq_client_label request) LockMethod t s = Some (a, s')"
    "response = (case a of Inr result \<Rightarrow> response_success (rq_request_id request) result | Inl e \<Rightarrow> response_error (rq_request_id request) e)"
    using assms(3) by (auto simp: handle_def)
  obtain s1 where "observe env (rq_client_session_id request) (rq_client_label request) s = Some (Inr (), s1)"
    by (auto simp: observe_def act_def critical_def)
  with a(1) have h: "hbind (lock_controller_and_runs env True) (\<lambda>_. pure (Inr LockedResult)) s1 = Some (a, s')"
    by (simp add: handle_method_def hbind_def [of "observe _ _ _"])
  obtain y where y: "lock_controller_and_runs env True s1 = Some (y, s')"
    "response = (case y of Inl e \<Rightarrow> response_error (rq_request_id request) e | Inr _ \<Rightarrow> response_success (rq_request_id request) LockedResult)"
    using h a(2) by (cases rule: hbind_cases) (auto simp: pure_def)
  have "locked_down y (hs_world s')" using leadsD [OF hard_lock_leads [OF assms(1,2)] _ y(1)] by simp
  with y(2) show ?thesis
    by (cases y) (auto simp: locked_down_def response_success_def response_error_def)
qed

definition ending_env :: agent_env where
  "ending_env = \<lparr>en_others = (\<lambda>_ w. w\<lparr>aw_runs := drop_lease (aw_runs w)\<rparr>), en_reading = (\<lambda>_. demo_reading), en_now = (\<lambda>k. k)\<rparr>"

definition lock_request :: rpc_request where
  "lock_request = \<lparr>rq_version = 1, rq_request_id = 1, rq_client_session_id = 7, rq_client_label = [], rq_method = LockMethod\<rparr>"

definition busy_world :: agent_world where
  "busy_world = granted_world\<lparr>aw_runs := \<lparr>co_active = Some
     \<lparr>ar_cancelled = False, ar_client = 7, ar_secret_ids = None, ar_running = True\<rparr>, co_block_new = False\<rparr>\<rparr>"

lemma ending_critical: "critical ending_env f (state_at k w l) =
    (case f demo_reading k (w\<lparr>aw_runs := drop_lease (aw_runs w)\<rparr>) of (x, w') \<Rightarrow> (x, state_at (Suc k) w' l))"
  by (simp add: state_at_def critical_def ending_env_def split: prod.split)

lemma ending_await: "await ending_env f (state_at k w l) =
    (case f demo_reading k (w\<lparr>aw_runs := drop_lease (aw_runs w)\<rparr>) of
       (Some x, w') \<Rightarrow> Some (x, state_at (Suc k) w' l)
     | (None, w') \<Rightarrow> await ending_env f (state_at (Suc k) w' l))"
  by (subst await.simps) (simp add: ending_critical split: prod.split)

lemma lock_request_runs: "\<exists>response s'. handle ending_env demo_agent lock_request 2 (state_at 0 busy_world []) = Some (response, s')"
proof -
  have ui: "aw_ui (hs_world (state_at k w l)) = aw_ui w" for k w l by (simp add: state_at_def)
  have "\<exists>x s'. lock_controller_and_runs ending_env True (state_at 1 w []) = Some (x, s')"
    if "co_block_new (aw_runs w) = False" "aw_ui w = None" for w
    using that
    by (simp add: lock_controller_and_runs_def ending_critical ui with_run_block_def on_approval_def ending_await all_runs_def
      block_new_runs_def drop_lease_def cancel_active_def runs_drained_def lock_under_block_def split_beta)
  moreover define w where "w = busy_world\<lparr>aw_runs := drop_lease (aw_runs busy_world),
      aw_approval := observe_client demo_reading 7 [] (aw_approval busy_world)\<rparr>"
  moreover have "co_block_new (aw_runs w) = False" "aw_ui w = None"
    by (simp_all add: w_def busy_world_def granted_world_def drop_lease_def)
  ultimately obtain x s' where x: "lock_controller_and_runs ending_env True (state_at 1 w []) = Some (x, s')" by blast
  have "observe ending_env 7 [] (state_at 0 busy_world []) = Some (Inr (), state_at 1 w [])"
    by (simp add: observe_def act_def ending_critical w_def)
  with x show ?thesis
    by (cases x) (simp_all add: handle_def handle_method_def lock_request_def hbind_def pure_def)
qed

theorem lock_request_locks_witness:
  "\<exists>response s'. handle ending_env demo_agent lock_request 2 (state_at 0 busy_world []) = Some (response, s') \<and>
     phase (aw_controller busy_world) = PhaseUnlocked \<and> vault_closed (hs_world s')"
proof -
  obtain response s' where r: "handle ending_env demo_agent lock_request 2 (state_at 0 busy_world []) = Some (response, s')"
    using lock_request_runs by blast
  have "others_keep ending_env vault_closed" "others_keep ending_env no_grants"
    by (simp_all add: others_keep_def ending_env_def)
  from lock_request_locks [OF this _ r] r show ?thesis
    by (auto simp: lock_request_def busy_world_def granted_world_def demo_open_def phase_def)
qed

section \<open>A revocation is complete\<close>

definition no_pair :: "uuid \<Rightarrow> secret_id \<Rightarrow> agent_world \<Rightarrow> bool" where
  "no_pair client i w = (\<not> hm_contains (deadlines (ap_grants (aw_approval w))) (client, i))"

lemma no_pair_frame [simp]:
  "no_pair client i (w\<lparr>aw_controller := vc\<rparr>) = no_pair client i w" "no_pair client i (w\<lparr>aw_runs := co\<rparr>) = no_pair client i w"
  "no_pair client i (w\<lparr>aw_ui := u\<rparr>) = no_pair client i w"
  by (simp_all add: no_pair_def)

lemma retain_contains: "hm_contains (hm_retain P m) k \<Longrightarrow> hm_contains m k"
  by (force simp: hm_contains_def hm_retain_def map_of_eq_None_iff)

lemma revoked_pair_gone:
  assumes "coord_revoke_pair r client i st = (Inr b, st')"
  shows "\<not> hm_contains (deadlines (ap_grants st')) (client, i)"
  using assms
  by (auto simp: coord_revoke_pair_def Let_def revoke_pair_def prune_client_labels_def active_def purge_expired_def
      split: sum.splits dest!: retain_contains)

lemma leads_on_exit:
  assumes "leads P m Q" and "\<And>s x. Q x (hs_world s) \<Longrightarrow> Q x (hs_world (g s))"
  shows "leads P (on_exit m g) Q"
  using assms by (fastforce simp: leads_def elim!: on_exit_cases)

lemma drop_local_leads:
  assumes "others_keep env Q" and "\<And>u w. Q w \<Longrightarrow> Q (w\<lparr>aw_ui := u\<rparr>)" and "Q (hs_world s)"
  shows "Q (hs_world (drop_local env s))"
proof -
  obtain y s' where c: "critical env (\<lambda>r now w. on_ui (\<lambda>u. ((), drop_local_operation u)) () w) s = (y, s')" by (rule prod.exhaust)
  have "Q (hs_world s')"
    by (rule critical_leads [where Q = "\<lambda>_. Q", OF assms(1) _ assms(3) c]) (use assms(2) in \<open>auto elim!: on_ui_frame\<close>)
  with c show ?thesis by (simp add: drop_local_def)
qed

lemma leads_while_local:
  assumes m: "leads (\<lambda>_. True) m Q" and keep: "\<And>x. others_keep env (Q x)" and frame: "\<And>x u w. Q x w \<Longrightarrow> Q x (w\<lparr>aw_ui := u\<rparr>)"
    and errors: "\<And>e w. Q (Inl e) w"
  shows "leads (\<lambda>_. True) (while_local env m) Q"
  unfolding while_local_def
proof (rule leads_hbind [where R = "\<lambda>_ _. True"])
  fix has_ui
  have "leads (\<lambda>_. True) (on_exit m (drop_local env)) Q"
    by (rule leads_on_exit [OF m]) (rule drop_local_leads [OF keep frame])
  then have "leads (\<lambda>_. True) (hbind (try_local env (Inr True)) (\<lambda>got. if got then on_exit m (drop_local env) else pure (Inl Busy))) Q"
    by (intro leads_hbind [where R = "\<lambda>_ _. True"]) (auto simp: leads_def pure_def errors split: sum.split)
  with m show "leads (\<lambda>_. True) (if \<not> has_ui then m
      else hbind (try_local env (Inr True)) (\<lambda>got. if got then on_exit m (drop_local env) else pure (Inl Busy))) Q"
    by simp
qed (auto simp: leads_def errors split: sum.split)

lemma revoked_grant_gone:
  assumes "others_keep env (no_pair client i)"
  shows "leads (\<lambda>_. True) (revoke_grant env client i) (\<lambda>x w. x = Inr () \<longrightarrow> no_pair client i w)"
  unfolding revoke_grant_def
proof (rule leads_while_local)
  have keep: "others_keep env (\<lambda>w. x = Inr () \<longrightarrow> no_pair client i w)" for x
    using assms by (auto simp: others_keep_def)
  have "leads (\<lambda>_. True) (hbind (act env (\<lambda>r now w. on_approval (coord_revoke_pair r client i) w)) (\<lambda>_. pure (Inr ())))
      (\<lambda>x w. x = Inr () \<longrightarrow> no_pair client i w)"
  proof (rule leads_hbind [where R = "\<lambda>_. no_pair client i"])
    show "leads (\<lambda>_. True) (act env (\<lambda>r now w. on_approval (coord_revoke_pair r client i) w))
        (\<lambda>x w. case x of Inl e \<Rightarrow> Inl e = Inr () \<longrightarrow> no_pair client i w | Inr y \<Rightarrow> no_pair client i w)"
      by (rule leads_act) (auto simp: others_keep_def no_pair_def split: sum.split elim!: on_approval_frame dest: revoked_pair_gone)
  qed (simp add: leads_def pure_def)
  with keep show "leads (\<lambda>_. True) (with_run_block env (block_for_revoke client i) runs_drained
      (hbind (act env (\<lambda>r now w. on_approval (coord_revoke_pair r client i) w)) (\<lambda>_. pure (Inr ()))))
      (\<lambda>x w. x = Inr () \<longrightarrow> no_pair client i w)"
    by (intro leads_with_run_block [where P' = "\<lambda>_. True" and R = "\<lambda>_. True"]) (auto simp: others_keep_def)
  show "others_keep env (\<lambda>w. x = Inr () \<longrightarrow> no_pair client i w)" for x by (rule keep)
qed simp_all

section \<open>The view of the grants\<close>

text \<open>Each view shows a grant that was live when the grants were read, under the name its secret had when the vault was
  read, and the views are in order.\<close>

lemma agent_grants_shown:
  assumes "agent_grants env s = Some (Inr views, s')"
  shows "sorted (map view_key views) \<and>
    (\<exists>(r :: reading) (w1 :: agent_world) (w2 :: agent_world) (w3 :: agent_world). \<forall>v. v \<in> set views \<longleftrightarrow>
       (\<exists>g \<in> set (fst (active_grants r (aw_approval w1))). \<exists>name. secret_names (secrets (aw_controller w3)) (ag_secret g) = Some name \<and>
          v = grant_view (running_pairs (aw_runs w2)) g name))"
proof -
  obtain gs s1 where 1: "act env (\<lambda>r now w. case on_approval (active_grants r) w of (gs, w') \<Rightarrow> (Inr gs, w')) s = Some (Inr gs, s1)"
    "hbind (reading_of env (\<lambda>r w. Inr (running_pairs (aw_runs w)))) (\<lambda>running.
       hbind (reading_of env (\<lambda>r w. Inr (secret_names (secrets (aw_controller w))))) (\<lambda>names.
       pure (Inr (sort_key view_key (List.map_filter (\<lambda>g. map_option (grant_view running g) (names (ag_secret g))) gs))))) s1 = Some (Inr views, s')"
    using assms unfolding agent_grants_def by (cases rule: hbind_cases) auto
  from 1(2) obtain running s2 where 2: "reading_of env (\<lambda>r w. Inr (running_pairs (aw_runs w))) s1 = Some (Inr running, s2)"
    "hbind (reading_of env (\<lambda>r w. Inr (secret_names (secrets (aw_controller w))))) (\<lambda>names.
       pure (Inr (sort_key view_key (List.map_filter (\<lambda>g. map_option (grant_view running g) (names (ag_secret g))) gs)))) s2 = Some (Inr views, s')"
    by (cases rule: hbind_cases) auto
  from 2(2) obtain names s3 where 3: "reading_of env (\<lambda>r w. Inr (secret_names (secrets (aw_controller w)))) s2 = Some (Inr names, s3)"
    "views = sort_key view_key (List.map_filter (\<lambda>g. map_option (grant_view running g) (names (ag_secret g))) gs)"
    by (cases rule: hbind_cases) (auto simp: pure_def)
  have "gs = fst (active_grants (en_reading env (hs_turn s)) (aw_approval (en_others env (hs_turn s) (hs_world s))))"
    using 1(1) by (auto simp: act_def critical_def on_approval_def split: prod.splits)
  then obtain r :: reading and w1 :: agent_world where "gs = fst (active_grants r (aw_approval w1))" by (rule that)
  moreover obtain w2 :: agent_world where "running = running_pairs (aw_runs w2)"
    using 2(1) by (auto simp: reading_of_def act_def critical_def)
  moreover obtain w3 :: agent_world where "names = secret_names (secrets (aw_controller w3))"
    using 3(1) by (auto simp: reading_of_def act_def critical_def)
  ultimately have "views = sort_key view_key (List.map_filter (\<lambda>g. map_option (grant_view (running_pairs (aw_runs w2)) g)
      (secret_names (secrets (aw_controller w3)) (ag_secret g))) (fst (active_grants r (aw_approval w1))))"
    using 3(2) by simp
  then have "sorted (map view_key views)" and "\<forall>v. v \<in> set views \<longleftrightarrow>
       (\<exists>g \<in> set (fst (active_grants r (aw_approval w1))). \<exists>name. secret_names (secrets (aw_controller w3)) (ag_secret g) = Some name \<and>
          v = grant_view (running_pairs (aw_runs w2)) g name)"
    by (simp, force simp: map_filter_def image_iff)
  then show ?thesis by blast
qed

end
