(* ===== verification/Ladon_Lifetime.thy ===== *)
theory Ladon_Lifetime
  imports Ladon_Local
begin

text \<open>
  How long an approval lasts (\<open>crates/ladon-app/src/approval_lifetime.rs\<close>). The calendar of the C library is a
  parameter: \<open>lc_localtime\<close> is \<open>localtime_r\<close>, \<open>None\<close> when it fails, and \<open>lc_mktime\<close> is \<open>mktime\<close>, which returns the
  time and normalises its argument.
\<close>

section \<open>Definitions\<close>

record tm =
  tm_sec :: int
  tm_min :: int
  tm_hour :: int
  tm_mday :: int
  tm_mon :: int
  tm_year :: int
  tm_isdst :: int

record local_clock =
  lc_localtime :: "int \<Rightarrow> tm option"
  lc_mktime :: "tm \<Rightarrow> int \<times> tm"

datatype approval_lifetime = ThirtyMinutes | EndOfDay | WholeSession

definition lifetime_label :: "approval_lifetime \<Rightarrow> str" where
  "lifetime_label l =
     (case l of ThirtyMinutes \<Rightarrow> ascii ''30 minutes'' | EndOfDay \<Rightarrow> ascii ''Until end of day''
      | WholeSession \<Rightarrow> ascii ''Until session ends'')"

datatype unattended_lifetime = UnattendedThirtyMinutes | TwoHours | EightHours | TwelveHours | Custom

definition deadline_at :: "unattended_lifetime \<Rightarrow> system_time \<Rightarrow> system_time res" where
  "deadline_at l now =
     and_then (case l of
         UnattendedThirtyMinutes \<Rightarrow> Inr (30 * 60) | TwoHours \<Rightarrow> Inr (2 * 3600) | EightHours \<Rightarrow> Inr (8 * 3600)
       | TwelveHours \<Rightarrow> Inr (12 * 3600) | Custom \<Rightarrow> Inl InvalidRequest) (\<lambda>seconds.
     ok_or InvalidRequest (checked_add_time now (from_secs seconds)))"

text \<open>The seconds since the epoch as a \<open>time_t\<close> of 64 bits.\<close>

definition to_timestamp :: "system_time \<Rightarrow> int res" where
  "to_timestamp now =
     and_then (ok_or InvalidRequest (duration_since now 0)) (\<lambda>elapsed.
     if elapsed div nanos_per_sec < 2 ^ 63 then Inr (int (elapsed div nanos_per_sec)) else Inl InvalidRequest)"

definition local_time :: "local_clock \<Rightarrow> system_time \<Rightarrow> tm res" where
  "local_time clock now = and_then (to_timestamp now) (\<lambda>timestamp. ok_or InvalidRequest (lc_localtime clock timestamp))"

definition two_digits :: "byte \<Rightarrow> byte \<Rightarrow> int" where
  "two_digits a b = int (unat (a - 0x30)) * 10 + int (unat (b - 0x30))"

definition parse_hhmm :: "str \<Rightarrow> (int \<times> int) res" where
  "parse_hhmm v =
     (if length v \<noteq> 5 \<or> v ! 2 \<noteq> 0x3a \<or> \<not> list_all is_ascii_digit [v ! 0, v ! 1, v ! 3, v ! 4] then Inl InvalidRequest
      else let hour = two_digits (v ! 0) (v ! 1); minute = two_digits (v ! 3) (v ! 4) in
        if hour \<ge> 24 \<or> minute \<ge> 60 then Inl InvalidRequest else Inr (hour, minute))"

text \<open>The loop \<open>for _ in 0..2\<close>: today, then tomorrow.\<close>

fun deadline_attempts :: "nat \<Rightarrow> local_clock \<Rightarrow> int \<Rightarrow> int \<Rightarrow> system_time \<Rightarrow> tm \<Rightarrow> system_time res" where
  "deadline_attempts 0 clock hour minute now t = Inl InvalidRequest"
| "deadline_attempts (Suc n) clock hour minute now t =
     (let t1 = t\<lparr>tm_hour := hour, tm_min := minute, tm_sec := 0, tm_isdst := -1\<rparr>;
          (timestamp, candidate) = lc_mktime clock t1
      in if tm_hour candidate \<noteq> hour \<or> tm_min candidate \<noteq> minute then Inl InvalidRequest
         else if timestamp < 0 then Inl InvalidRequest
         else case checked_add_time 0 (from_secs (nat timestamp)) of
             None \<Rightarrow> Inl InvalidRequest
           | Some deadline \<Rightarrow>
               (case duration_since deadline now of
                  Some d \<Rightarrow> if d \<noteq> 0 \<and> d \<le> from_secs (24 * 3600) then Inr deadline
                    else deadline_attempts n clock hour minute now (t1\<lparr>tm_mday := tm_mday t1 + 1\<rparr>)
                | None \<Rightarrow> deadline_attempts n clock hour minute now (t1\<lparr>tm_mday := tm_mday t1 + 1\<rparr>)))"

definition local_deadline_at :: "local_clock \<Rightarrow> str \<Rightarrow> system_time \<Rightarrow> system_time res" where
  "local_deadline_at clock v now =
     and_then (parse_hhmm v) (\<lambda>(hour, minute).
     and_then (local_time clock now) (\<lambda>t. deadline_attempts 2 clock hour minute now t))"

definition until_local_day_end_at :: "local_clock \<Rightarrow> system_time \<Rightarrow> duration res" where
  "until_local_day_end_at clock now =
     and_then (ok_or InvalidRequest (duration_since now 0)) (\<lambda>elapsed.
     and_then (local_time clock now) (\<lambda>t.
     let (midnight, _) = lc_mktime clock (t\<lparr>tm_mday := tm_mday t + 1, tm_hour := 0, tm_min := 0, tm_sec := 0, tm_isdst := -1\<rparr>)
     in if midnight < 0 then Inl InvalidRequest
        else if elapsed \<le> from_secs (nat midnight) then Inr (from_secs (nat midnight) - elapsed) else Inl InvalidRequest))"

definition local_day_end :: "local_clock \<Rightarrow> system_time \<Rightarrow> system_time res" where
  "local_day_end clock now = and_then (until_local_day_end_at clock now) (\<lambda>d. Inr (now + int d))"

text \<open>\<open>{:04}\<close> and \<open>{:02}\<close>: decimal digits, with zeros up to the width; a minus sign counts.\<close>

definition padded :: "nat \<Rightarrow> int \<Rightarrow> str" where
  "padded width n =
     (let digits = decimal (nat \<bar>n\<bar>); sign = (if n < 0 then [0x2d] else [])
      in sign @ replicate (width - length sign - length digits) 0x30 @ digits)"

definition format_local_time :: "local_clock \<Rightarrow> system_time \<Rightarrow> str" where
  "format_local_time clock now =
     (case local_time clock now of
        Inr t \<Rightarrow> padded 4 (tm_year t + 1900) @ ascii ''-'' @ padded 2 (tm_mon t + 1) @ ascii ''-'' @ padded 2 (tm_mday t) @
          ascii '' '' @ padded 2 (tm_hour t) @ ascii '':'' @ padded 2 (tm_min t) @ ascii '':'' @ padded 2 (tm_sec t) @ ascii '' local''
      | Inl _ \<Rightarrow> ascii ''Unavailable'')"

text \<open>\<open>ApprovalLifetime::approve\<close>; the end of the day is computed from a clock reading of its own.\<close>

definition lifetime_approve :: "agent_env \<Rightarrow> local_clock \<Rightarrow> system_time \<Rightarrow> approval_lifetime \<Rightarrow> uuid \<Rightarrow> unit handler" where
  "lifetime_approve env clock now l approval_id =
     (case l of
        ThirtyMinutes \<Rightarrow> local_approve_for env approval_id (from_secs (30 * 60))
      | EndOfDay \<Rightarrow> hbind (pure (local_day_end clock now)) (\<lambda>deadline. local_approve_until env approval_id deadline)
      | WholeSession \<Rightarrow> local_approve_session env approval_id)"

section \<open>Properties\<close>

lemma deadline_attempts_bounds:
  "deadline_attempts n clock hour minute now t = Inr deadline \<Longrightarrow>
     now < deadline \<and> deadline \<le> now + int (from_secs (24 * 3600)) \<and>
     (\<exists>t' timestamp candidate. lc_mktime clock t' = (timestamp, candidate) \<and> tm_hour candidate = hour \<and> tm_min candidate = minute \<and>
        deadline = timestamp * int nanos_per_sec)"
proof (induction n arbitrary: t)
  case (Suc n)
  obtain timestamp candidate where m: "lc_mktime clock (t\<lparr>tm_hour := hour, tm_min := minute, tm_sec := 0, tm_isdst := -1\<rparr>) = (timestamp, candidate)"
    by fastforce
  show ?case
  proof (cases "\<exists>d. checked_add_time 0 (from_secs (nat timestamp)) = Some deadline \<and> duration_since deadline now = Some d \<and> d \<noteq> 0 \<and>
      d \<le> from_secs (24 * 3600) \<and> tm_hour candidate = hour \<and> tm_min candidate = minute \<and> 0 \<le> timestamp")
    case True
    then have "deadline = timestamp * int nanos_per_sec" "now < deadline" "deadline \<le> now + int (from_secs (24 * 3600))"
      by (auto simp: checked_add_time_def from_secs_def duration_since_def split: if_splits)
    with True m show ?thesis by blast
  next
    case False
    with Suc.prems m have "\<exists>t'. deadline_attempts n clock hour minute now t' = Inr deadline"
      by (auto simp: Let_def split: if_splits option.splits)
    with Suc.IH show ?thesis by blast
  qed
qed simp

text \<open>A deadline typed as a local time lies after the moment of the request and at most a day later, and it is a time at which the local clock
  shows what was typed.\<close>

theorem local_deadline_exact:
  assumes "local_deadline_at clock v now = Inr deadline"
  shows "now < deadline \<and> deadline \<le> now + int (from_secs (24 * 3600)) \<and> length v = 5 \<and>
    (\<exists>t timestamp candidate. lc_mktime clock t = (timestamp, candidate) \<and> deadline = timestamp * int nanos_per_sec \<and>
       tm_hour candidate = two_digits (v ! 0) (v ! 1) \<and> tm_min candidate = two_digits (v ! 3) (v ! 4) \<and>
       tm_hour candidate < 24 \<and> tm_min candidate < 60)"
proof -
  from assms obtain t where v: "length v = 5" "two_digits (v ! 0) (v ! 1) < 24" "two_digits (v ! 3) (v ! 4) < 60"
    and "deadline_attempts 2 clock (two_digits (v ! 0) (v ! 1)) (two_digits (v ! 3) (v ! 4)) now t = Inr deadline"
    by (auto simp: local_deadline_at_def parse_hhmm_def Let_def and_then_Inr_iff split: if_splits)
  from deadline_attempts_bounds [OF this(4)] v show ?thesis by metis
qed

text \<open>A chosen span is one of four, at most half a day; the end of the day is the next local midnight, not before now.\<close>

lemma deadline_at_bounds: "deadline_at l now = Inr deadline \<Longrightarrow> now < deadline \<and> deadline \<le> now + int (from_secs (12 * 3600))"
  by (cases l) (auto simp: deadline_at_def checked_add_time_def from_secs_def nanos_per_sec_def split: if_splits)

lemma local_day_end_bounds: "local_day_end clock now = Inr deadline \<Longrightarrow> now \<le> deadline"
  by (auto simp: local_day_end_def and_then_Inr_iff)

definition utc_clock :: local_clock where
  "utc_clock = \<lparr>lc_localtime = (\<lambda>s. Some \<lparr>tm_sec = s mod 60, tm_min = s div 60 mod 60, tm_hour = s div 3600 mod 24, tm_mday = s div 86400,
       tm_mon = 0, tm_year = 70, tm_isdst = 0\<rparr>),
     lc_mktime = (\<lambda>t. (((tm_mday t * 24 + tm_hour t) * 60 + tm_min t) * 60 + tm_sec t, t))\<rparr>"

lemma demo_deadline: "local_deadline_at utc_clock (ascii ''12:30'') 0 = Inr (45000 * 1000000000)"
proof -
  have "deadline_attempts 2 = deadline_attempts (Suc (Suc 0))" by (simp add: numeral_2_eq_2)
  moreover have "parse_hhmm (ascii ''12:30'') = Inr (12, 30)"
    by (simp add: parse_hhmm_def ascii_def two_digits_def is_ascii_digit_def)
  moreover have "local_time utc_clock 0 = Inr \<lparr>tm_sec = 0, tm_min = 0, tm_hour = 0, tm_mday = 0, tm_mon = 0, tm_year = 70, tm_isdst = 0\<rparr>"
    by (simp add: local_time_def to_timestamp_def duration_since_def utc_clock_def)
  ultimately show ?thesis
    by (simp add: local_deadline_at_def utc_clock_def checked_add_time_def system_time_max_def from_secs_def nanos_per_sec_def duration_since_def)
qed

theorem local_deadline_exact_witness:
  "(0 :: int) < 45000 * 1000000000 \<and> (45000 * 1000000000 :: int) \<le> 0 + int (from_secs (24 * 3600)) \<and> length (ascii ''12:30'') = 5"
  using local_deadline_exact [OF demo_deadline] by blast

end
