(* ===== verification/Ladon_Desktop.thy ===== *)
theory Ladon_Desktop
  imports Ladon_Lifetime Ladon_Pin Ladon_Detail
begin

text \<open>
  The desktop application (\<open>LadonDesktop\<close> of \<open>crates/ladon-app/src/desktop.rs\<close>): the buffers the window owns, the
  lock of the interface, local authentication by PIN or Touch ID, and what each button does. A method of the window is
  a state transformer over the window, the shared state of the broker and the disk; it is \<open>None\<close> when a
  broker call it waits for never returns. What the operating system answers (Touch ID, the clock, a thread that is
  started) comes with the call, in \<open>desk_io\<close>. Layout and drawing have no counterpart here.
\<close>

section \<open>State\<close>

datatype desktop_lock = DesktopActive | DesktopLocking u64 | DesktopLocked u64

record session_editor =
  se_connection_id :: "uuid option"
  se_session_name :: str
  se_note :: str

record unattended_confirmation =
  un_consent :: unattended_consent
  un_captured_at :: system_time
  un_lifetime :: unattended_lifetime
  un_local_time :: str

datatype touch_id_target =
    UnattendedTarget unattended_consent system_time
  | AppUnlockTarget uuid u64
  | SecretTarget local_auth_attempt uuid
  | ApprovalTarget uuid uuid approval_lifetime

record notice =
  no_text :: str
  no_danger :: bool

record 'r desktop =
  dk_broker :: bool
  dk_agent_grants :: "agent_grant_view list"
  dk_agent_sessions :: "agent_session_view list"
  dk_session_editors :: "(uuid, session_editor) hashmap"
  dk_unattended :: "unattended_confirmation option"
  dk_command_active :: bool
  dk_grants_session :: "uuid option"
  dk_grants_error_shown :: bool
  dk_passphrase :: str
  dk_confirmation :: str
  dk_session_pin :: str
  dk_session_pin_confirmation :: str
  dk_local_pin :: str
  dk_session_confirmation :: "session_confirmation option"
  dk_lock :: desktop_lock
  dk_lock_epoch :: u64
  dk_pending_app_lock :: "u64 option"
  dk_unlock_pin_visible :: bool
  dk_pending_touch_id :: "touch_id_target option"
  dk_focused_approval :: "uuid option"
  dk_draft :: add_secret_draft
  dk_add_form_error :: "add_draft_error option"
  dk_notice :: "notice option"
  dk_detail :: secret_detail_state
  dk_unlock_confirmation :: bool
  dk_discard_confirmation :: bool
  dk_pending_delete :: "secret_id option"
  dk_last_phase :: vault_ui_phase
  dk_scan_open :: bool
  dk_scan_task :: "bool option"
  dk_scan_report :: "'r option"
  dk_scan_error :: bool
  dk_focused_unlock :: "uuid option"
  dk_focus_auth_input :: bool
  dk_quitting :: bool

definition new_desktop :: "vault_ui_phase \<Rightarrow> 'r desktop" where
  "new_desktop last_phase =
     \<lparr>dk_broker = True, dk_agent_grants = [], dk_agent_sessions = [], dk_session_editors = [], dk_unattended = None,
      dk_command_active = False, dk_grants_session = None, dk_grants_error_shown = False, dk_passphrase = [], dk_confirmation = [],
      dk_session_pin = [], dk_session_pin_confirmation = [], dk_local_pin = [], dk_session_confirmation = None,
      dk_lock = DesktopActive, dk_lock_epoch = 0, dk_pending_app_lock = None, dk_unlock_pin_visible = False,
      dk_pending_touch_id = None, dk_focused_approval = None, dk_draft = new_add_draft, dk_add_form_error = None,
      dk_notice = None, dk_detail = default_detail_state, dk_unlock_confirmation = False, dk_discard_confirmation = False,
      dk_pending_delete = None, dk_last_phase = last_phase, dk_scan_open = False, dk_scan_task = None, dk_scan_report = None,
      dk_scan_error = False, dk_focused_unlock = None, dk_focus_auth_input = False, dk_quitting = False\<rparr>"

datatype confirmation_action = ConfirmTouchId | ConfirmPin

datatype app_unlock = StartTouchId | StartPin | StartHardLock

datatype detail_action = ShowValues | HideValues | EditValues | SaveValues | CancelEdit

datatype delete_action = RequestDelete | ConfirmDelete | CancelDelete

datatype selected_actions = UnlockActions | HiddenActions | RevealedActions | EditingActions

definition app_unlock_start :: "bool \<Rightarrow> bool \<Rightarrow> app_unlock" where
  "app_unlock_start touch_id_available pin_configured =
     (if touch_id_available then StartTouchId else if pin_configured then StartPin else StartHardLock)"

definition can_finish_session_setup :: "bool \<Rightarrow> bool \<Rightarrow> bool" where
  "can_finish_session_setup touch_id_available pin_configured = (touch_id_available \<or> pin_configured)"

definition confirmation_actions :: "bool \<Rightarrow> bool \<Rightarrow> confirmation_action list" where
  "confirmation_actions touch_id_available pin_configured =
     (if touch_id_available then [ConfirmTouchId] else []) @ (if pin_configured then [ConfirmPin] else [])"

definition selected_action_set :: "bool \<Rightarrow> detail_mode \<Rightarrow> selected_actions" where
  "selected_action_set authorized mode =
     (case mode of
        DetailEditing _ _ \<Rightarrow> EditingActions
      | DetailHidden \<Rightarrow> if authorized then HiddenActions else UnlockActions
      | DetailRevealed _ \<Rightarrow> if authorized then RevealedActions else UnlockActions)"

definition manager_rendering_allowed :: "vault_ui_phase \<Rightarrow> desktop_lock \<Rightarrow> bool" where
  "manager_rendering_allowed p l = (p = PhaseUnlocked \<and> l = DesktopActive)"

definition copyable_text :: "editable_value \<Rightarrow> str option" where
  "copyable_text v = (case v of EditText t \<Rightarrow> Some t | EditBinary _ _ \<Rightarrow> None)"

definition unattended_deadline_of :: "local_clock \<Rightarrow> unattended_confirmation \<Rightarrow> system_time res" where
  "unattended_deadline_of clock c =
     (if un_lifetime c = Custom then local_deadline_at clock (un_local_time c) (un_captured_at c)
      else deadline_at (un_lifetime c) (un_captured_at c))"

section \<open>Methods\<close>

record ('r, 'w) desk_state =
  ds_desktop :: "'r desktop"
  ds_broker :: handler_state
  ds_files :: "'w world"

type_synonym ('r, 'w, 'a) desk = "('r, 'w) desk_state \<Rightarrow> ('a \<times> ('r, 'w) desk_state) option"

definition dpure :: "'a \<Rightarrow> ('r, 'w, 'a) desk" where
  "dpure x ds = Some (x, ds)"

definition dbind :: "('r, 'w, 'a) desk \<Rightarrow> ('a \<Rightarrow> ('r, 'w, 'b) desk) \<Rightarrow> ('r, 'w, 'b) desk" where
  "dbind m f ds = Option.bind (m ds) (\<lambda>(x, ds'). f x ds')"

definition dthen :: "('r, 'w, 'a) desk \<Rightarrow> ('r, 'w, 'b) desk \<Rightarrow> ('r, 'w, 'b) desk" where
  "dthen m n = dbind m (\<lambda>_. n)"

definition change :: "('r desktop \<Rightarrow> 'r desktop) \<Rightarrow> ('r, 'w, unit) desk" where
  "change f ds = Some ((), ds\<lparr>ds_desktop := f (ds_desktop ds)\<rparr>)"

definition look :: "('r desktop \<Rightarrow> 'a) \<Rightarrow> ('r, 'w, 'a) desk" where
  "look f ds = Some (f (ds_desktop ds), ds)"

definition call :: "'a handler \<Rightarrow> ('r, 'w, 'a res) desk" where
  "call m ds = map_option (\<lambda>(x, s). (x, ds\<lparr>ds_broker := s\<rparr>)) (m (ds_broker ds))"

text \<open>A call of the broker, which the window may be without.\<close>

definition broker_call :: "'a handler \<Rightarrow> ('r, 'w, 'a res) desk" where
  "broker_call m = dbind (look dk_broker) (\<lambda>present. if present then call m else dpure (Inl EndpointUnavailable))"

text \<open>A section on the shared state and the files.\<close>

definition on_files ::
    "agent_env \<Rightarrow> (reading \<Rightarrow> instant \<Rightarrow> agent_world \<Rightarrow> 'w world \<Rightarrow> 'a \<times> agent_world \<times> 'w world) \<Rightarrow> ('r, 'w, 'a) desk" where
  "on_files env f ds =
     (let s = ds_broker ds; k = hs_turn s
      in case f (en_reading env k) (en_now env k) (en_others env k (hs_world s)) (ds_files ds) of
           (x, w, files) \<Rightarrow> Some (x, ds\<lparr>ds_broker := s\<lparr>hs_turn := Suc k, hs_world := w\<rparr>, ds_files := files\<rparr>))"

text \<open>\<open>with_controller\<close>\<close>

definition with_controller ::
    "agent_env \<Rightarrow> (instant \<Rightarrow> vault_controller \<Rightarrow> 'w world \<Rightarrow> 'a \<times> vault_controller \<times> 'w world) \<Rightarrow> ('r, 'w, 'a) desk" where
  "with_controller env f =
     on_files env (\<lambda>r now w files. case f now (aw_controller w) files of (x, vc, files') \<Rightarrow> (x, w\<lparr>aw_controller := vc\<rparr>, files'))"

definition controller_view :: "agent_env \<Rightarrow> (vault_controller \<Rightarrow> 'a) \<Rightarrow> ('r, 'w, 'a) desk" where
  "controller_view env f = with_controller env (\<lambda>now vc files. (f vc, vc, files))"

text \<open>What the system answers during a call. \<open>io_touch_start\<close> is the outcome of \<open>TouchIdAuthenticator::authenticate_*\<close>.\<close>

record 'w desk_io =
  io_env :: agent_env
  io_libs :: "'w libs"
  io_commit :: commit_io
  io_parent :: "unit res"
  io_open_first :: io_outcome
  io_open_second :: io_outcome
  io_kdf :: pin_kdf
  io_fill :: "byte list option"
  io_clock :: local_clock
  io_time :: system_time
  io_touch_available :: bool
  io_touch_start :: "unit res"
  io_spawned :: bool
  io_same_run :: bool
  io_fresh :: uuid
  io_fresh_session :: uuid

section \<open>Wiping\<close>

definition clear_agent_grants :: "'r desktop \<Rightarrow> 'r desktop" where
  "clear_agent_grants d = d\<lparr>dk_agent_grants := [], dk_agent_sessions := [], dk_session_editors := [], dk_command_active := False,
     dk_grants_session := None, dk_grants_error_shown := False\<rparr>"

definition clear_unlock_fields :: "'r desktop \<Rightarrow> 'r desktop" where
  "clear_unlock_fields d = d\<lparr>dk_passphrase := [], dk_confirmation := []\<rparr>"

definition clear_sensitive_buffers :: "'r desktop \<Rightarrow> 'r desktop" where
  "clear_sensitive_buffers d =
     (clear_unlock_fields d)\<lparr>dk_scan_task := None, dk_scan_report := None, dk_scan_open := False, dk_session_pin := [],
        dk_session_pin_confirmation := [], dk_local_pin := [], dk_unlock_pin_visible := False, dk_pending_touch_id := None,
        dk_focused_approval := None, dk_unattended := None, dk_session_editors := [], dk_draft := new_add_draft,
        dk_detail := clear_for_vault_lock (dk_detail d), dk_unlock_confirmation := False, dk_discard_confirmation := False,
        dk_pending_delete := None, dk_add_form_error := None\<rparr>"

definition clear_for_app_lock :: "'r desktop \<Rightarrow> 'r desktop" where
  "clear_for_app_lock d = (clear_sensitive_buffers (clear_agent_grants d))\<lparr>dk_notice := None\<rparr>"

definition clear_sensitive_state :: "'r desktop \<Rightarrow> 'r desktop" where
  "clear_sensitive_state d =
     (clear_for_app_lock d)\<lparr>dk_session_confirmation := None, dk_pending_app_lock := None, dk_lock := DesktopActive\<rparr>"

definition notice_from :: "unit res \<Rightarrow> str \<Rightarrow> 'r desktop \<Rightarrow> 'r desktop" where
  "notice_from result success d =
     d\<lparr>dk_notice := Some (case result of
         Inr _ \<Rightarrow> \<lparr>no_text = success, no_danger = False\<rparr>
       | Inl e \<Rightarrow> \<lparr>no_text = ascii (safe_message e), no_danger = True\<rparr>)\<rparr>"

definition set_clipboard_notice :: "str \<Rightarrow> 'r desktop \<Rightarrow> 'r desktop" where
  "set_clipboard_notice txt d =
     (case dk_notice d of
        Some n \<Rightarrow> if no_danger n then d else d\<lparr>dk_notice := Some \<lparr>no_text = txt, no_danger = False\<rparr>\<rparr>
      | None \<Rightarrow> d\<lparr>dk_notice := Some \<lparr>no_text = txt, no_danger = False\<rparr>\<rparr>)"

definition tell :: "str \<Rightarrow> bool \<Rightarrow> 'r desktop \<Rightarrow> 'r desktop" where
  "tell txt danger d = d\<lparr>dk_notice := Some \<lparr>no_text = txt, no_danger = danger\<rparr>\<rparr>"

section \<open>Locking\<close>

definition finish_immediate_lock :: "unit res \<Rightarrow> ('r, 'w, unit) desk" where
  "finish_immediate_lock result =
     change (\<lambda>d. case result of
         Inr _ \<Rightarrow> (clear_sensitive_state d)\<lparr>dk_notice := None\<rparr>
       | Inl e \<Rightarrow> notice_from (Inl e) [] (clear_sensitive_state d))"

definition lock_immediately :: "'w desk_io \<Rightarrow> ('r, 'w, unit) desk" where
  "lock_immediately io =
     dbind (look dk_broker) (\<lambda>present.
     dbind (if present then call (cancel_active_run_and_lock (io_env io))
            else with_controller (io_env io) (\<lambda>now vc files. (Inr (), lock vc, files))) finish_immediate_lock)"

definition has_configured_pin :: "'r desktop \<Rightarrow> bool" where
  "has_configured_pin d = (case dk_session_confirmation d of Some c \<Rightarrow> has_pin c | None \<Rightarrow> False)"

definition begin_interface_lock :: "'w desk_io \<Rightarrow> bool \<Rightarrow> ('r, 'w, unit) desk" where
  "begin_interface_lock io automatic =
     dbind (look has_configured_pin) (\<lambda>pin.
     if \<not> (io_touch_available io \<or> pin) then lock_immediately io
     else dbind (broker_call (if automatic then start_auto_app_lock (io_env io) (io_same_run io) (io_spawned io)
                              else start_app_lock (io_env io) (io_spawned io))) (\<lambda>attempt.
       case attempt of
         Inr epoch \<Rightarrow> change (\<lambda>d. clear_for_app_lock
           (d\<lparr>dk_lock_epoch := epoch, dk_lock := DesktopLocking epoch, dk_pending_app_lock := Some epoch\<rparr>))
       | Inl _ \<Rightarrow> lock_immediately io))"

definition lock_app :: "'w desk_io \<Rightarrow> ('r, 'w, unit) desk" where
  "lock_app io =
     dbind (look dk_lock) (\<lambda>l.
     if l \<noteq> DesktopActive then
       dbind (broker_call (revoke_grants (io_env io))) (\<lambda>result.
       case result of Inl _ \<Rightarrow> lock_immediately io | Inr _ \<Rightarrow> change clear_for_app_lock)
     else begin_interface_lock io False)"

definition finish_app_lock_result :: "'w desk_io \<Rightarrow> u64 \<Rightarrow> unit res \<Rightarrow> ('r, 'w, unit) desk" where
  "finish_app_lock_result io epoch result =
     dbind (look (\<lambda>d. dk_lock d = DesktopLocking epoch \<and> dk_lock_epoch d = epoch)) (\<lambda>expected.
     if result = Inr () \<and> expected then change (\<lambda>d. d\<lparr>dk_lock := DesktopLocked epoch\<rparr>) else lock_immediately io)"

text \<open>\<open>channel\<close> is what the worker of the attempt sent.\<close>

definition process_app_lock_result :: "'w desk_io \<Rightarrow> app_lock_channel \<Rightarrow> ('r, 'w, unit) desk" where
  "process_app_lock_result io channel =
     dbind (look dk_pending_app_lock) (\<lambda>attempt.
     case (attempt, try_result channel) of
       (Some epoch, Some result) \<Rightarrow>
         dthen (change (\<lambda>d. d\<lparr>dk_pending_app_lock := None\<rparr>)) (finish_app_lock_result io epoch result)
     | _ \<Rightarrow> dpure ())"

definition synchronize_phase :: "'w desk_io \<Rightarrow> vault_ui_phase \<Rightarrow> ('r, 'w, unit) desk" where
  "synchronize_phase io p =
     dbind (look (\<lambda>d. dk_last_phase d = PhaseUnlocked \<and> p \<noteq> PhaseUnlocked)) (\<lambda>left.
     dthen
       (if left then
          dthen (dbind (look dk_broker) (\<lambda>present.
              if \<not> present then dpure ()
              else dbind (call (external_lock_in_progress (io_env io))) (\<lambda>in_progress.
                if in_progress = Inr False then dbind (call (revoke_grants (io_env io))) (\<lambda>_. dpure ()) else dpure ())))
            (change clear_sensitive_state)
        else dpure ())
       (change (\<lambda>d. d\<lparr>dk_last_phase := p\<rparr>)))"

definition finish_auto_lock :: "bool \<Rightarrow> ('r, 'w, unit) desk" where
  "finish_auto_lock locked =
     (if locked then change (\<lambda>d. tell (ascii ''Vault locked after 30 minutes without secret activity'') False (clear_sensitive_state d))
      else dpure ())"

definition handle_idle_timeout :: "'w desk_io \<Rightarrow> ('r, 'w, unit) desk" where
  "handle_idle_timeout io =
     dbind (look dk_session_confirmation) (\<lambda>confirmation.
     if confirmation \<noteq> None then
       dbind (look dk_lock) (\<lambda>l. if l = DesktopActive then begin_interface_lock io True else dpure ())
     else dbind (look dk_broker) (\<lambda>present.
       dbind (if present then call (auto_lock_controller_if_idle (io_env io))
              else with_controller (io_env io) (\<lambda>now vc files.
                case auto_lock_if_idle_at now vc of (locked, vc') \<Rightarrow> (Inr locked, vc', files))) (\<lambda>locked.
       finish_auto_lock (case locked of Inr b \<Rightarrow> b | Inl _ \<Rightarrow> False))))"

definition process_external_lock :: "'w desk_io \<Rightarrow> ('r, 'w, unit) desk" where
  "process_external_lock io =
     dbind (broker_call (pending_external_lock (io_env io))) (\<lambda>pending.
     case pending of
       Inr (Some request_id) \<Rightarrow>
         dthen (change (\<lambda>d. (clear_sensitive_state d)\<lparr>dk_last_phase := PhaseLocked\<rparr>))
           (dbind (broker_call (acknowledge_external_lock (io_env io) request_id)) (\<lambda>result.
            case result of Inl e \<Rightarrow> change (notice_from (Inl e) []) | Inr _ \<Rightarrow> dpure ()))
     | Inr None \<Rightarrow> dpure ()
     | Inl e \<Rightarrow> change (notice_from (Inl e) []))"

section \<open>Unlocking the interface\<close>

definition vault_session_id :: "'w desk_io \<Rightarrow> ('r, 'w, uuid res) desk" where
  "vault_session_id io = controller_view (io_env io) (\<lambda>vc. ok_or VaultLocked (vc_session_id vc))"

definition current_app_unlock_context :: "'w desk_io \<Rightarrow> ('r, 'w, (uuid \<times> u64) option) desk" where
  "current_app_unlock_context io =
     dbind (look (\<lambda>d. (dk_lock d, dk_lock_epoch d))) (\<lambda>(l, last_epoch).
     case l of
       DesktopLocked epoch \<Rightarrow>
         if last_epoch \<noteq> epoch then dpure None
         else controller_view (io_env io) (\<lambda>vc.
           if phase vc \<noteq> PhaseUnlocked then None else map_option (\<lambda>i. (i, epoch)) (vc_session_id vc))
     | _ \<Rightarrow> dpure None)"

definition reject_stale_app_unlock :: "'r desktop \<Rightarrow> 'r desktop" where
  "reject_stale_app_unlock d =
     tell (ascii ''Authentication expired because the app lock context changed'') True (d\<lparr>dk_pending_touch_id := None, dk_local_pin := []\<rparr>)"

definition use_app_unlock_pin :: "'r desktop \<Rightarrow> 'r desktop" where
  "use_app_unlock_pin d = d\<lparr>dk_pending_touch_id := None, dk_local_pin := [], dk_unlock_pin_visible := True, dk_notice := None\<rparr>"

definition begin_app_unlock :: "'w desk_io \<Rightarrow> ('r, 'w, app_unlock) desk" where
  "begin_app_unlock io =
     dbind (look has_configured_pin) (\<lambda>pin.
     let start = app_unlock_start (io_touch_available io) pin in
     dthen (case start of
         StartTouchId \<Rightarrow>
           dbind (look dk_pending_touch_id) (\<lambda>pending.
           if pending \<noteq> None then dpure ()
           else dbind (current_app_unlock_context io) (\<lambda>ctx.
             case ctx of
               None \<Rightarrow> change reject_stale_app_unlock
             | Some (session, epoch) \<Rightarrow>
                 dthen (change (\<lambda>d. d\<lparr>dk_unlock_pin_visible := False, dk_local_pin := []\<rparr>))
                   (change (\<lambda>d. case io_touch_start io of
                      Inr _ \<Rightarrow> d\<lparr>dk_pending_touch_id := Some (AppUnlockTarget session epoch)\<rparr>
                    | Inl e \<Rightarrow> notice_from (Inl e) [] d))))
       | StartPin \<Rightarrow> change use_app_unlock_pin
       | StartHardLock \<Rightarrow> lock_immediately io) (dpure start))"

definition finish_app_unlock :: "'w desk_io \<Rightarrow> uuid \<Rightarrow> u64 \<Rightarrow> ('r, 'w, unit) desk" where
  "finish_app_unlock io session epoch =
     dthen (change (\<lambda>d. d\<lparr>dk_pending_touch_id := None, dk_local_pin := []\<rparr>))
       (dbind (current_app_unlock_context io) (\<lambda>ctx.
        if ctx \<noteq> Some (session, epoch) then change reject_stale_app_unlock
        else dbind (broker_call (local_unlock_app (io_env io) epoch)) (\<lambda>result.
          case result of
            Inl e \<Rightarrow> change (notice_from (Inl e) [])
          | Inr _ \<Rightarrow>
              dthen (with_controller (io_env io) (\<lambda>now vc files. ((), record_secret_activity now vc, files)))
                (change (\<lambda>d. tell (ascii ''App unlocked'') False (d\<lparr>dk_lock := DesktopActive, dk_unlock_pin_visible := False\<rparr>))))))"

text \<open>The check of the typed PIN, which is cleared, and what its answer leads to.\<close>

definition check_pin :: "'w desk_io \<Rightarrow> ('r, 'w, pin_verification res) desk" where
  "check_pin io ds =
     (let d = ds_desktop ds in
      case dk_session_confirmation d of
        None \<Rightarrow> Some (Inl ApprovalAuthenticationFailed, ds\<lparr>ds_desktop := d\<lparr>dk_local_pin := []\<rparr>\<rparr>)
      | Some c \<Rightarrow>
          (case verify_pin (io_kdf io) (dk_local_pin d) c of
             (x, c') \<Rightarrow> Some (x, ds\<lparr>ds_desktop := d\<lparr>dk_session_confirmation := Some c', dk_local_pin := []\<rparr>\<rparr>)))"

definition pin_rejected :: "u8 \<Rightarrow> str" where
  "pin_rejected n = ascii ''PIN rejected; '' @ decimal (unat n) @ ascii '' attempts remain''"

definition after_pin :: "'w desk_io \<Rightarrow> ('r, 'w, unit) desk \<Rightarrow> pin_verification res \<Rightarrow> ('r, 'w, unit) desk" where
  "after_pin io accepted verification =
     (case verification of
        Inr PinAccepted \<Rightarrow> accepted
      | Inr (PinRejected n) \<Rightarrow> change (tell (pin_rejected n) True)
      | Inr PinLockVault \<Rightarrow> lock_immediately io
      | Inl e \<Rightarrow> change (notice_from (Inl e) []))"

definition authenticate_app_pin :: "'w desk_io \<Rightarrow> ('r, 'w, unit) desk" where
  "authenticate_app_pin io =
     dbind (current_app_unlock_context io) (\<lambda>ctx.
     case ctx of
       None \<Rightarrow> change reject_stale_app_unlock
     | Some (session, epoch) \<Rightarrow>
         dbind (current_app_unlock_context io) (\<lambda>again.
         if again \<noteq> Some (session, epoch) then change reject_stale_app_unlock
         else dthen (change (\<lambda>d. d\<lparr>dk_pending_touch_id := None\<rparr>))
           (dbind (check_pin io) (after_pin io (finish_app_unlock io session epoch)))))"

definition touch_id_succeeded :: "'r desktop \<Rightarrow> 'r desktop" where
  "touch_id_succeeded d = d\<lparr>dk_session_confirmation := map_option record_touch_id_success (dk_session_confirmation d)\<rparr>"

definition finish_app_unlock_touch_id :: "'w desk_io \<Rightarrow> uuid \<Rightarrow> u64 \<Rightarrow> ('r, 'w, unit) desk" where
  "finish_app_unlock_touch_id io session epoch =
     dthen (change (\<lambda>d. d\<lparr>dk_local_pin := []\<rparr>))
       (dbind (current_app_unlock_context io) (\<lambda>ctx.
        if ctx \<noteq> Some (session, epoch) then change reject_stale_app_unlock
        else dbind (look dk_session_confirmation) (\<lambda>confirmation.
          if confirmation = None then change reject_stale_app_unlock
          else dthen (change touch_id_succeeded) (finish_app_unlock io session epoch))))"

section \<open>The selected secret\<close>

definition reject_stale_authentication :: "'w desk_io \<Rightarrow> ('r, 'w, unit) desk" where
  "reject_stale_authentication io =
     dthen (change (\<lambda>d. d\<lparr>dk_pending_touch_id := None\<rparr>))
       (dbind (controller_view (io_env io) phase) (\<lambda>p.
        dthen (synchronize_phase io p)
          (change (\<lambda>d. tell (ascii ''Authentication expired because the selected context changed'') True
             (d\<lparr>dk_unlock_confirmation := False, dk_local_pin := []\<rparr>)))))"

definition finish_applied_navigation :: "'r desktop \<Rightarrow> 'r desktop" where
  "finish_applied_navigation d =
     d\<lparr>dk_pending_touch_id := None, dk_unlock_confirmation := False, dk_discard_confirmation := False, dk_local_pin := [],
       dk_pending_delete := None, dk_add_form_error := None, dk_notice := None\<rparr>"

definition desk_navigation :: "navigation_target \<Rightarrow> 'r desktop \<Rightarrow> 'r desktop" where
  "desk_navigation target d =
     (case request_navigation target (dk_detail d) of
        (NavApplied, detail) \<Rightarrow> finish_applied_navigation (d\<lparr>dk_detail := detail\<rparr>)
      | (NavConfirmDiscard, detail) \<Rightarrow> d\<lparr>dk_detail := detail, dk_discard_confirmation := True\<rparr>)"

definition finish_discard_navigation :: "'r desktop \<Rightarrow> bool \<times> 'r desktop" where
  "finish_discard_navigation d =
     (dt_pending_navigation (dk_detail d) = Some NavClose,
      finish_applied_navigation (d\<lparr>dk_detail := snd (discard_pending_navigation (dk_detail d))\<rparr>))"

text \<open>The end of a local authentication for the selected secret.\<close>

definition accept_selected :: "'w desk_io \<Rightarrow> local_auth_attempt \<Rightarrow> uuid \<Rightarrow> ('r desktop \<Rightarrow> 'r desktop) \<Rightarrow> ('r, 'w, unit) desk" where
  "accept_selected io tried i also_do =
     dbind (vault_session_id io) (\<lambda>current.
     dbind (look (\<lambda>d. accept_authentication tried i (dk_detail d))) (\<lambda>(accepted, detail).
     if current = Inr i \<and> accepted then
       change (\<lambda>d. tell (ascii ''Secret unlocked for this selection'') False (also_do (d\<lparr>dk_detail := detail, dk_unlock_confirmation := False\<rparr>)))
     else reject_stale_authentication io))"

definition authenticate_selected_secret :: "'w desk_io \<Rightarrow> confirmation_action \<Rightarrow> ('r, 'w, unit) desk" where
  "authenticate_selected_secret io action =
     dbind (vault_session_id io) (\<lambda>i.
     case i of
       Inl _ \<Rightarrow> synchronize_phase io PhaseLocked
     | Inr session \<Rightarrow>
         dbind (look (\<lambda>d. authentication_attempt session (dk_detail d))) (\<lambda>tried.
         case tried of
           None \<Rightarrow> change (\<lambda>d. d\<lparr>dk_unlock_confirmation := False, dk_local_pin := []\<rparr>)
         | Some a \<Rightarrow>
             (case action of
                ConfirmTouchId \<Rightarrow>
                  change (\<lambda>d. if dk_pending_touch_id d \<noteq> None then d
                    else case io_touch_start io of
                      Inr _ \<Rightarrow> d\<lparr>dk_pending_touch_id := Some (SecretTarget a session)\<rparr>
                    | Inl e \<Rightarrow> notice_from (Inl e) [] d)
              | ConfirmPin \<Rightarrow>
                  dthen (change (\<lambda>d. d\<lparr>dk_pending_touch_id := None\<rparr>))
                    (dbind (check_pin io) (after_pin io (accept_selected io a session (\<lambda>d. d)))))))"

definition finish_selected_touch_id :: "'w desk_io \<Rightarrow> local_auth_attempt \<Rightarrow> uuid \<Rightarrow> ('r, 'w, unit) desk" where
  "finish_selected_touch_id io tried i =
     accept_selected io tried i (\<lambda>d. (touch_id_succeeded d)\<lparr>dk_local_pin := []\<rparr>)"

definition handle_sensitive_operation_error :: "'w desk_io \<Rightarrow> ladon_error \<Rightarrow> ('r, 'w, unit) desk" where
  "handle_sensitive_operation_error io e =
     dbind (controller_view (io_env io) phase) (\<lambda>p.
     dthen (synchronize_phase io p) (change (notice_from (Inl e) [])))"

definition desk_update_secret :: "'w desk_io \<Rightarrow> edit_secret_draft \<Rightarrow> ('r, 'w, unit res) desk" where
  "desk_update_secret io draft =
     dbind (look dk_broker) (\<lambda>present.
     if \<not> present then dpure (Inl EndpointUnavailable)
     else on_files (io_env io) (\<lambda>r now. local_update_secret (io_libs io) (io_commit io) r now draft))"

definition desk_delete_secret :: "'w desk_io \<Rightarrow> secret_id \<Rightarrow> ('r, 'w, unit res) desk" where
  "desk_delete_secret io i =
     dbind (look dk_broker) (\<lambda>present.
     if \<not> present then dpure (Inl EndpointUnavailable)
     else on_files (io_env io) (\<lambda>r now. local_delete_secret (io_libs io) (io_commit io) r now i))"

text \<open>The values are loaded and handed to the detail view in one section.\<close>

definition open_values :: "'w desk_io \<Rightarrow> bool \<Rightarrow> secret_id \<Rightarrow> ('r, 'w, (uuid \<times> edit_secret_draft) res) desk" where
  "open_values io editing i =
     with_controller (io_env io) (\<lambda>now vc files.
       case vc_session_id vc of
         None \<Rightarrow> (Inl VaultLocked, vc, files)
       | Some session \<Rightarrow>
           (case load_secret now i vc of (x, vc') \<Rightarrow> (map_sum id (Pair session) x, vc', files)))"

definition handle_detail_action :: "'w desk_io \<Rightarrow> detail_action \<Rightarrow> ('r, 'w, unit) desk" where
  "handle_detail_action io action =
     (let open_with = (\<lambda>editing.
            dbind (look (\<lambda>d. dt_selected (dk_detail d))) (\<lambda>selected.
            case selected of
              None \<Rightarrow> dpure ()
            | Some i \<Rightarrow>
                dbind (open_values io editing i) (\<lambda>loaded.
                case loaded of
                  Inl e \<Rightarrow> handle_sensitive_operation_error io e
                | Inr (session, draft) \<Rightarrow>
                    change (\<lambda>d. case (if editing then begin_edit else begin_reveal) session draft (dk_detail d) of
                      (x, detail) \<Rightarrow> (if x = Inr () then d\<lparr>dk_detail := detail\<rparr>
                        else tell (ascii ''The selected secret changed before it could be opened'') True (d\<lparr>dk_detail := detail\<rparr>))))))
      in case action of
           ShowValues \<Rightarrow> open_with False
         | EditValues \<Rightarrow> open_with True
         | HideValues \<Rightarrow> change (\<lambda>d. d\<lparr>dk_detail := hide_values (dk_detail d)\<rparr>)
         | CancelEdit \<Rightarrow> change (\<lambda>d. d\<lparr>dk_detail := hide_values (dk_detail d)\<rparr>)
         | SaveValues \<Rightarrow>
             dbind (look (\<lambda>d. dt_mode (dk_detail d))) (\<lambda>mode.
             dbind (case mode of DetailEditing draft _ \<Rightarrow> desk_update_secret io draft | _ \<Rightarrow> dpure (Inl InvalidRequest)) (\<lambda>result.
             case result of
               Inr _ \<Rightarrow> change (\<lambda>d. tell (ascii ''Secret changes saved locally'') False (d\<lparr>dk_detail := finish_save (dk_detail d)\<rparr>))
             | Inl e \<Rightarrow> handle_sensitive_operation_error io e)))"

definition handle_delete_action :: "'w desk_io \<Rightarrow> secret_id \<Rightarrow> delete_action \<Rightarrow> ('r, 'w, unit) desk" where
  "handle_delete_action io i action =
     (case action of
        RequestDelete \<Rightarrow> change (\<lambda>d. tell (ascii ''Delete this secret permanently?'') True (d\<lparr>dk_pending_delete := Some i\<rparr>))
      | CancelDelete \<Rightarrow> change (\<lambda>d. d\<lparr>dk_pending_delete := None\<rparr>)
      | ConfirmDelete \<Rightarrow>
          dbind (desk_delete_secret io i) (\<lambda>result.
          dthen (change (\<lambda>d. d\<lparr>dk_pending_delete := None\<rparr>))
            (case result of
               Inr _ \<Rightarrow> change (\<lambda>d. tell (ascii ''Secret deleted'') False
                 (d\<lparr>dk_pending_touch_id := None, dk_detail := navigate_now NavAdd (dk_detail d), dk_unlock_confirmation := False, dk_local_pin := []\<rparr>))
             | Inl e \<Rightarrow> handle_sensitive_operation_error io e)))"

definition save_new_secret :: "'w desk_io \<Rightarrow> ('r, 'w, unit) desk" where
  "save_new_secret io =
     dbind (look dk_draft) (\<lambda>draft.
     case validate_add_draft draft of
       Inl e \<Rightarrow> change (\<lambda>d. d\<lparr>dk_add_form_error := Some e, dk_notice := None\<rparr>)
     | Inr _ \<Rightarrow>
         dbind (with_controller (io_env io) (\<lambda>now vc files.
             case add_secret (io_libs io) (io_commit io) now (io_fresh io) draft vc files of
               (x, draft', vc', files') \<Rightarrow> ((x, draft'), vc', files'))) (\<lambda>(x, draft').
         dthen (change (\<lambda>d. d\<lparr>dk_draft := draft'\<rparr>))
           (case x of
              Inr _ \<Rightarrow> change (\<lambda>d. tell (ascii ''Secret saved locally'') False (d\<lparr>dk_add_form_error := None\<rparr>))
            | Inl e \<Rightarrow> handle_sensitive_operation_error io e)))"

end
