(* ===== verification/Ladon_Window.thy ===== *)
theory Ladon_Window
  imports Ladon_Desktop
begin

text \<open>
  The rest of the desktop application (\<open>crates/ladon-app/src/desktop.rs\<close>): the requests of agents and the access they
  have, the screens, and the frame that \<open>update\<close> draws. A screen is a function of the input the user gives it; a frame has
  at most one input, so that several inputs are several frames. \<open>crates/ladon-app/src/touch_id.rs\<close> is here as the channel
  of an attempt and the reasons it shows.
\<close>

section \<open>Touch ID\<close>

datatype touch_channel = TouchWaiting | TouchAnswer "unit res" | TouchGone

fun touch_result :: "touch_channel \<Rightarrow> unit res option" where
  "touch_result TouchWaiting = None"
| "touch_result (TouchAnswer x) = Some x"
| "touch_result TouchGone = Some (Inl ProcessFailure)"

definition APP_UNLOCK_REASON :: str where "APP_UNLOCK_REASON = ascii ''Unlock Ladon on this device''"

definition agent_session_reason :: str where
  "agent_session_reason = ascii ''Allow this agent session to use the displayed Ladon secrets for 30 minutes''"

section \<open>The access of agents\<close>

definition editor_of :: "session_details \<Rightarrow> session_editor" where
  "editor_of details = \<lparr>se_connection_id = Some (sd_connection details), se_session_name = sd_user_name details, se_note = sd_note details\<rparr>"

definition sync_editor :: "session_details \<Rightarrow> (uuid, session_editor) hashmap \<Rightarrow> (uuid, session_editor) hashmap" where
  "sync_editor details editors =
     (case map_of editors (sd_client details) of
        Some e \<Rightarrow> if se_connection_id e \<noteq> Some (sd_connection details) then hm_insert (sd_client details) (editor_of details) editors else editors
      | None \<Rightarrow> hm_insert (sd_client details) (editor_of details) editors)"

definition refresh_agent_grants :: "'w desk_io \<Rightarrow> ('r, 'w, unit) desk" where
  "refresh_agent_grants io =
     dbind (look dk_lock) (\<lambda>l.
     if l \<noteq> DesktopActive then change clear_agent_grants
     else dbind (vault_session_id io) (\<lambda>session.
       dbind (case session of
           Inl e \<Rightarrow> dpure (Inl e)
         | Inr i \<Rightarrow>
             dthen (change (\<lambda>d. if dk_grants_session d \<noteq> Some i then (clear_agent_grants d)\<lparr>dk_grants_session := Some i\<rparr> else d))
               (broker_call (hbind (agent_grants (io_env io)) (\<lambda>gs. hbind (agent_sessions (io_env io)) (\<lambda>ss.
                  hbind (agent_run_active (io_env io)) (\<lambda>running. pure (Inr (gs, ss, running)))))))) (\<lambda>result.
       change (\<lambda>d. case result of
           Inr (gs, ss, running) \<Rightarrow>
             d\<lparr>dk_session_editors := hm_retain (\<lambda>i _. list_ex (\<lambda>s. sd_client (sv_details s) = i) ss) (dk_session_editors d),
               dk_agent_sessions := ss, dk_agent_grants := gs, dk_command_active := running, dk_grants_error_shown := False\<rparr>
         | Inl e \<Rightarrow>
             if e = VaultLocked then clear_agent_grants d
             else if \<not> dk_grants_error_shown d then (notice_from (Inl e) [] d)\<lparr>dk_grants_error_shown := True\<rparr>
             else d))))"

definition revoke_agent_grant :: "'w desk_io \<Rightarrow> uuid \<Rightarrow> secret_id \<Rightarrow> ('r, 'w, unit) desk" where
  "revoke_agent_grant io session i =
     dbind (broker_call (revoke_grant (io_env io) session i)) (\<lambda>result.
     dthen (change (notice_from result (ascii ''Agent access revoked'')))
       (if result = Inr () then refresh_agent_grants io else dpure ()))"

definition revoke_all_agent_grants :: "'w desk_io \<Rightarrow> ('r, 'w, unit) desk" where
  "revoke_all_agent_grants io =
     dbind (broker_call (revoke_grants (io_env io))) (\<lambda>result.
     change (\<lambda>d. notice_from result (ascii ''Agent access revoked'') (if result = Inr () then clear_agent_grants d else d)))"

definition active_session_count :: "'r desktop \<Rightarrow> nat" where
  "active_session_count d = card (set (map av_client (dk_agent_grants d) @ map (\<lambda>s. sd_client (sv_details s)) (dk_agent_sessions d)))"

definition short_session_id :: "text_env \<Rightarrow> uuid \<Rightarrow> str" where
  "short_session_id env i = take 8 (show_uuid env i)"

definition minutes_and_seconds :: "duration \<Rightarrow> str" where
  "minutes_and_seconds t = (let s = t div nanos_per_sec in padded 2 (int (s div 60)) @ ascii '':'' @ padded 2 (int (s mod 60)))"

section \<open>Unattended access\<close>

definition begin_unattended_confirmation :: "'w desk_io \<Rightarrow> uuid \<Rightarrow> ('r, 'w, unit) desk" where
  "begin_unattended_confirmation io client =
     dbind (look (\<lambda>d. dk_lock d \<noteq> DesktopActive \<or> dk_pending_touch_id d \<noteq> None)) (\<lambda>refused.
     if refused then dpure ()
     else dbind (broker_call (snapshot_unattended (io_env io) client)) (\<lambda>consent.
       dthen (change (\<lambda>d. d\<lparr>dk_local_pin := []\<rparr>))
         (change (\<lambda>d. case consent of
            Inr c \<Rightarrow> d\<lparr>dk_unattended := Some \<lparr>un_consent = c, un_captured_at = io_time io, un_lifetime = UnattendedThirtyMinutes, un_local_time = []\<rparr>\<rparr>
          | Inl e \<Rightarrow> notice_from (Inl e) [] d))))"

definition finish_authenticated_unattended :: "'w desk_io \<Rightarrow> unattended_consent \<Rightarrow> system_time \<Rightarrow> bool \<Rightarrow> ('r, 'w, unit) desk" where
  "finish_authenticated_unattended io consent deadline touch_id =
     dthen (change (\<lambda>d. d\<lparr>dk_unattended := None, dk_local_pin := []\<rparr>))
       (dbind (look dk_lock) (\<lambda>l.
        dbind (if l \<noteq> DesktopActive then dpure (Inl ApprovalCancelled)
               else broker_call (local_grant_unattended (io_env io) consent deadline)) (\<lambda>result.
        dthen (if result = Inr () then
                 dthen (change (\<lambda>d. if touch_id then touch_id_succeeded d else d)) (refresh_agent_grants io)
               else dpure ())
          (change (notice_from result (ascii ''Unattended access granted until the confirmed deadline''))))))"

definition authenticate_unattended :: "'w desk_io \<Rightarrow> confirmation_action \<Rightarrow> ('r, 'w, unit) desk" where
  "authenticate_unattended io action =
     dbind (look dk_unattended) (\<lambda>confirmation.
     case confirmation of
       None \<Rightarrow> dpure ()
     | Some c \<Rightarrow>
         (case unattended_deadline_of (io_clock io) c of
            Inl _ \<Rightarrow> change (notice_from (Inl InvalidRequest) [])
          | Inr deadline \<Rightarrow>
              if \<not> deadline > io_time io then change (notice_from (Inl InvalidRequest) [])
              else dbind (look dk_lock) (\<lambda>l.
                dbind (if l \<noteq> DesktopActive then dpure (Inl VaultLocked) else vault_session_id io) (\<lambda>session.
                if session \<noteq> Inr (uc_vault (uo_context (un_consent c))) then
                  dthen (reject_stale_authentication io) (change (\<lambda>d. d\<lparr>dk_unattended := None\<rparr>))
                else case action of
                  ConfirmTouchId \<Rightarrow>
                    change (\<lambda>d. if dk_pending_touch_id d \<noteq> None then d
                      else case io_touch_start io of
                        Inr _ \<Rightarrow> d\<lparr>dk_pending_touch_id := Some (UnattendedTarget (un_consent c) deadline)\<rparr>
                      | Inl e \<Rightarrow> notice_from (Inl e) [] d)
                | ConfirmPin \<Rightarrow>
                    dbind (check_pin io) (after_pin io (finish_authenticated_unattended io (un_consent c) deadline False))))))"

section \<open>Requests of agents\<close>

definition lifetime_notice :: "approval_lifetime \<Rightarrow> str" where
  "lifetime_notice l =
     (case l of
        ThirtyMinutes \<Rightarrow> ascii ''Agent access allowed for 30 minutes''
      | EndOfDay \<Rightarrow> ascii ''Agent access allowed until end of day''
      | WholeSession \<Rightarrow> ascii ''Agent access allowed until session ends'')"

definition finish_authenticated_approval :: "'w desk_io \<Rightarrow> uuid \<Rightarrow> uuid \<Rightarrow> bool \<Rightarrow> approval_lifetime \<Rightarrow> ('r, 'w, unit) desk" where
  "finish_authenticated_approval io i session touch_id l =
     dbind (vault_session_id io) (\<lambda>current.
     dbind (broker_call (local_pending_approval (io_env io))) (\<lambda>pending.
     if current \<noteq> Inr session \<or>
        \<not> (case pending of Inr (Some p) \<Rightarrow> pa_id p = i \<and> pa_vault_session p = session | _ \<Rightarrow> False)
     then reject_stale_authentication io
     else dbind (broker_call (lifetime_approve (io_env io) (io_clock io) (io_time io) l i)) (\<lambda>result.
       change (\<lambda>d. notice_from result (lifetime_notice l)
         ((if result = Inr () \<and> touch_id then touch_id_succeeded d else d)\<lparr>dk_local_pin := []\<rparr>)))))"

definition authenticate_pending_approval :: "'w desk_io \<Rightarrow> confirmation_action \<Rightarrow> pending_approval \<Rightarrow> approval_lifetime \<Rightarrow> ('r, 'w, unit) desk" where
  "authenticate_pending_approval io action p l =
     dbind (vault_session_id io) (\<lambda>current.
     if current \<noteq> Inr (pa_vault_session p) then reject_stale_authentication io
     else case action of
       ConfirmTouchId \<Rightarrow>
         change (\<lambda>d. if dk_pending_touch_id d \<noteq> None then d
           else case io_touch_start io of
             Inr _ \<Rightarrow> d\<lparr>dk_pending_touch_id := Some (ApprovalTarget (pa_id p) (pa_vault_session p) l)\<rparr>
           | Inl e \<Rightarrow> notice_from (Inl e) [] d)
     | ConfirmPin \<Rightarrow>
         dthen (change (\<lambda>d. d\<lparr>dk_pending_touch_id := None\<rparr>))
           (dbind (check_pin io) (after_pin io (finish_authenticated_approval io (pa_id p) (pa_vault_session p) False l))))"

definition cancel_stale_approval_touch_id :: "(uuid \<times> uuid) option \<Rightarrow> 'r desktop \<Rightarrow> 'r desktop" where
  "cancel_stale_approval_touch_id current d =
     (case dk_pending_touch_id d of
        Some (ApprovalTarget i session _) \<Rightarrow> if current \<noteq> Some (i, session) then d\<lparr>dk_pending_touch_id := None\<rparr> else d
      | _ \<Rightarrow> d)"

definition update_focused_approval :: "uuid option \<Rightarrow> 'r desktop \<Rightarrow> 'r desktop" where
  "update_focused_approval next_request d =
     (if dk_focused_approval d = next_request then d else d\<lparr>dk_local_pin := [], dk_focused_approval := next_request\<rparr>)"

text \<open>The lifetime remembered for the request, unless the session it is tied to has gone.\<close>

definition picked_lifetime :: "approval_lifetime option \<Rightarrow> bool \<Rightarrow> approval_lifetime" where
  "picked_lifetime stored session_connected =
     (let l = (case stored of Some l \<Rightarrow> l | None \<Rightarrow> ThirtyMinutes)
      in if l = WholeSession \<and> \<not> session_connected then ThirtyMinutes else l)"

datatype approval_click = ApproveWith confirmation_action | DenyRequest | AllowAllSecrets

text \<open>\<open>stored\<close> is the lifetime the window remembers for the request.\<close>

definition show_pending_approval :: "'w desk_io \<Rightarrow> approval_lifetime option \<Rightarrow> approval_click option \<Rightarrow> ('r, 'w, unit) desk" where
  "show_pending_approval io stored click =
     dbind (look dk_unattended) (\<lambda>confirmation.
     if confirmation \<noteq> None then dpure ()
     else dbind (broker_call (local_pending_approval (io_env io))) (\<lambda>pending.
       case pending of
         Inl e \<Rightarrow> change (\<lambda>d. notice_from (Inl e) [] (update_focused_approval None (cancel_stale_approval_touch_id None d)))
       | Inr None \<Rightarrow> change (\<lambda>d. update_focused_approval None (cancel_stale_approval_touch_id None d))
       | Inr (Some p) \<Rightarrow>
           dthen (change (\<lambda>d. update_focused_approval (Some (pa_id p))
               (cancel_stale_approval_touch_id (Some (pa_id p, pa_vault_session p)) d)))
             (dbind (broker_call (local_session_connected (io_env io) (pa_client p))) (\<lambda>connected.
              dbind (look (\<lambda>d. (confirmation_actions (io_touch_available io) (has_configured_pin d), dk_pending_touch_id d))) (\<lambda>(actions, waiting).
              case click of
                None \<Rightarrow> dpure ()
              | Some AllowAllSecrets \<Rightarrow>
                  if connected = Inr True \<and> waiting = None then begin_unattended_confirmation io (pa_client p) else dpure ()
              | Some (ApproveWith action) \<Rightarrow>
                  if action \<in> set actions
                  then authenticate_pending_approval io action p (picked_lifetime stored (connected = Inr True)) else dpure ()
              | Some DenyRequest \<Rightarrow>
                  dthen (change (\<lambda>d. d\<lparr>dk_pending_touch_id := None, dk_local_pin := []\<rparr>))
                    (dbind (broker_call (local_deny (io_env io) (pa_id p))) (\<lambda>result.
                     change (notice_from result (ascii ''Agent request denied'')))))))))"

definition process_touch_id_result :: "'w desk_io \<Rightarrow> touch_channel \<Rightarrow> ('r, 'w, unit) desk" where
  "process_touch_id_result io channel =
     dbind (look dk_pending_touch_id) (\<lambda>pending.
     case (pending, touch_result channel) of
       (Some target, Some result) \<Rightarrow>
         dthen (change (\<lambda>d. d\<lparr>dk_pending_touch_id := None, dk_local_pin := []\<rparr>))
           (case (target, result) of
              (UnattendedTarget consent deadline, Inr _) \<Rightarrow> finish_authenticated_unattended io consent deadline True
            | (AppUnlockTarget session epoch, Inr _) \<Rightarrow> finish_app_unlock_touch_id io session epoch
            | (SecretTarget tried session, Inr _) \<Rightarrow> finish_selected_touch_id io tried session
            | (ApprovalTarget i session l, Inr _) \<Rightarrow> finish_authenticated_approval io i session True l
            | (_, Inl e) \<Rightarrow> if e = ApprovalCancelled then dpure () else change (notice_from (Inl e) []))
     | _ \<Rightarrow> dpure ())"

section \<open>Inputs and screens\<close>

datatype user_input =
    TypePassphrase str | TypeConfirmation str | ClickCreate
  | ClickUnlock
  | ClickRestore | ClickContinue
  | ClickTouchIdSetup | TypeSessionPin str | TypePinAgain str | ClickSetPin
  | ClickAppUnlock | ClickUsePin | TypeLocalPin str | ClickPinUnlock | ClickLockVault
  | ClickLockApp
  | Navigate navigation_target
  | TypeAddName str | TypeAddFieldName nat str | TypeAddFieldValue nat str | RemoveAddField nat | ClickAddField | ClickSaveSecret
  | ClickUnlockSecret | ClickDetail detail_action | ClickDelete delete_action | ClickCopy nat bool
  | TypeEditName str | TypeEditFieldName nat str | TypeEditFieldValue nat str | RemoveEditField nat | ClickAddEditField
  | ConfirmSecret confirmation_action | CancelSecret
  | ContinueEditing | DiscardChanges
  | TypeAlias uuid str | TypeNote uuid str | SaveAlias uuid
  | RevokeSession uuid | RevokeGrant uuid secret_id | RevokeAll | AllowAll uuid
  | ClickApproval "approval_lifetime option" approval_click
  | ChooseLifetime unattended_lifetime | TypeLocalTime str | ConfirmUnattended confirmation_action | CancelUnattended
  | DenyUnlock
  | ClickScan | CancelScan | CloseScan

datatype panel = FirstRunPanel | LockedPanel | RecoveryPanel | AppLockingPanel | AppLockedPanel | SetupPanel | ManagerPanel

definition panel_of :: "vault_ui_phase \<Rightarrow> 'r desktop \<Rightarrow> panel" where
  "panel_of p d =
     (case p of
        PhaseFirstRun \<Rightarrow> FirstRunPanel
      | PhaseLocked \<Rightarrow> LockedPanel
      | PhaseRecoveryRequired \<Rightarrow> RecoveryPanel
      | PhaseUnlocked \<Rightarrow>
          (case dk_lock d of
             DesktopLocking _ \<Rightarrow> AppLockingPanel
           | DesktopLocked _ \<Rightarrow> AppLockedPanel
           | DesktopActive \<Rightarrow> if dk_session_confirmation d = None then SetupPanel else ManagerPanel))"

definition after_unlock_fields :: "unit res \<Rightarrow> str \<Rightarrow> ('r, 'w, unit) desk" where
  "after_unlock_fields result success = change (\<lambda>d. notice_from result success (clear_unlock_fields d))"

definition show_first_run :: "'w desk_io \<Rightarrow> user_input \<Rightarrow> ('r, 'w, unit) desk" where
  "show_first_run io input =
     (case input of
        TypePassphrase s \<Rightarrow> change (\<lambda>d. d\<lparr>dk_passphrase := s\<rparr>)
      | TypeConfirmation s \<Rightarrow> change (\<lambda>d. d\<lparr>dk_confirmation := s\<rparr>)
      | ClickCreate \<Rightarrow>
          dbind (look (\<lambda>d. (dk_passphrase d, dk_confirmation d))) (\<lambda>(passphrase, confirmation).
          dbind (with_controller (io_env io) (\<lambda>now. create (io_libs io) (io_commit io) (io_parent io) now (io_fresh io) (io_fresh_session io)
              passphrase confirmation)) (\<lambda>result.
          after_unlock_fields result (ascii ''Vault created on this device'')))
      | _ \<Rightarrow> dpure ())"

definition show_locked :: "'w desk_io \<Rightarrow> user_input \<Rightarrow> ('r, 'w, unit) desk" where
  "show_locked io input =
     dthen (change (\<lambda>d. d\<lparr>dk_focus_auth_input := False\<rparr>))
       (case input of
          TypePassphrase s \<Rightarrow> change (\<lambda>d. d\<lparr>dk_passphrase := s\<rparr>)
        | ClickUnlock \<Rightarrow>
            dbind (look dk_passphrase) (\<lambda>passphrase.
            dbind (with_controller (io_env io) (\<lambda>now vc files.
                case unlock (io_libs io) (io_open_first io) (io_open_second io) now (io_fresh_session io) passphrase vc (w_disk files) of
                  (x, vc') \<Rightarrow> (x, vc', files))) (\<lambda>result.
            after_unlock_fields result (ascii ''Vault unlocked'')))
        | _ \<Rightarrow> dpure ())"

definition show_recovery :: "'w desk_io \<Rightarrow> user_input \<Rightarrow> ('r, 'w, unit) desk" where
  "show_recovery io input =
     (case input of
        ClickRestore \<Rightarrow>
          dbind (with_controller (io_env io) (\<lambda>now. restore_backup (io_libs io) (io_commit io) now (io_fresh_session io))) (\<lambda>result.
          change (notice_from result (ascii ''Backup restored'')))
      | ClickContinue \<Rightarrow>
          dbind (controller_view (io_env io) can_continue_with_primary) (\<lambda>can_continue.
          if \<not> can_continue then dpure ()
          else dbind (with_controller (io_env io) (\<lambda>now vc files.
              case continue_with_primary now (io_fresh_session io) vc of (x, vc') \<Rightarrow> (x, vc', files))) (\<lambda>result.
            change (notice_from result (ascii ''Current vault kept''))))
      | _ \<Rightarrow> dpure ())"

definition show_session_auth_setup :: "'w desk_io \<Rightarrow> user_input \<Rightarrow> ('r, 'w, unit) desk" where
  "show_session_auth_setup io input =
     (case input of
        ClickTouchIdSetup \<Rightarrow>
          if \<not> can_finish_session_setup (io_touch_available io) False then dpure ()
          else change (\<lambda>d. tell (ascii ''Touch ID will confirm protected actions'') False
            (d\<lparr>dk_session_pin := [], dk_session_pin_confirmation := [], dk_session_confirmation := Some touch_id_only\<rparr>))
      | TypeSessionPin s \<Rightarrow> change (\<lambda>d. d\<lparr>dk_session_pin := s\<rparr>)
      | TypePinAgain s \<Rightarrow> change (\<lambda>d. d\<lparr>dk_session_pin_confirmation := s\<rparr>)
      | ClickSetPin \<Rightarrow>
          change (\<lambda>d. (case new_session_pin (io_kdf io) (io_fill io) (dk_session_pin d) (dk_session_pin_confirmation d) of
              Inr p \<Rightarrow> tell (ascii ''PIN set for this app session; five wrong attempts require the master password'') False
                (d\<lparr>dk_session_confirmation := Some (with_pin p)\<rparr>)
            | Inl e \<Rightarrow> tell (ascii (safe_message e)) True d)\<lparr>dk_session_pin := [], dk_session_pin_confirmation := []\<rparr>)
      | _ \<Rightarrow> dpure ())"

definition show_app_locked :: "'w desk_io \<Rightarrow> user_input \<Rightarrow> ('r, 'w, unit) desk" where
  "show_app_locked io input =
     dthen (change (\<lambda>d. (if \<not> io_touch_available io \<and> has_configured_pin d then d\<lparr>dk_unlock_pin_visible := True\<rparr> else d)
         \<lparr>dk_focus_auth_input := False\<rparr>))
       (dbind (look (\<lambda>d. (dk_unlock_pin_visible d, has_configured_pin d))) (\<lambda>(visible, pin).
        case input of
          ClickAppUnlock \<Rightarrow> if visible then dpure () else dbind (begin_app_unlock io) (\<lambda>_. dpure ())
        | ClickUsePin \<Rightarrow> if pin \<and> \<not> visible then change use_app_unlock_pin else dpure ()
        | TypeLocalPin s \<Rightarrow> if visible then change (\<lambda>d. d\<lparr>dk_local_pin := s\<rparr>) else dpure ()
        | ClickPinUnlock \<Rightarrow> if visible then authenticate_app_pin io else dpure ()
        | ClickLockVault \<Rightarrow> lock_immediately io
        | _ \<Rightarrow> dpure ()))"

section \<open>The manager\<close>

definition selected_metadata :: "'w desk_io \<Rightarrow> ('r, 'w, secret_metadata option) desk" where
  "selected_metadata io =
     dbind (look (\<lambda>d. dt_selected (dk_detail d))) (\<lambda>selected.
     case selected of
       None \<Rightarrow> dpure None
     | Some i \<Rightarrow> controller_view (io_env io) (\<lambda>vc. find (\<lambda>m. smd_id m = i) (secrets vc)))"

definition change_add_draft :: "(add_secret_draft \<Rightarrow> bool \<times> add_secret_draft) \<Rightarrow> 'r desktop \<Rightarrow> 'r desktop" where
  "change_add_draft f d =
     (case f (dk_draft d) of
        (altered, draft) \<Rightarrow> if altered then d\<lparr>dk_draft := draft, dk_add_form_error := None, dk_notice := None\<rparr> else d\<lparr>dk_draft := draft\<rparr>)"

definition set_add_field :: "nat \<Rightarrow> (draft_secret_field \<Rightarrow> draft_secret_field) \<Rightarrow> add_secret_draft \<Rightarrow> bool \<times> add_secret_draft" where
  "set_add_field n f draft =
     (if n < length (ad_fields draft) then (True, draft\<lparr>ad_fields := (ad_fields draft)[n := f (ad_fields draft ! n)]\<rparr>) else (False, draft))"

definition show_add_workspace :: "'w desk_io \<Rightarrow> user_input \<Rightarrow> ('r, 'w, unit) desk" where
  "show_add_workspace io input =
     (case input of
        TypeAddName s \<Rightarrow> change (change_add_draft (\<lambda>draft. (True, draft\<lparr>ad_name := s\<rparr>)))
      | TypeAddFieldName n s \<Rightarrow> change (change_add_draft (set_add_field n (\<lambda>f. f\<lparr>df_name := s\<rparr>)))
      | TypeAddFieldValue n s \<Rightarrow> change (change_add_draft (set_add_field n (\<lambda>f. f\<lparr>df_value := s\<rparr>)))
      | RemoveAddField n \<Rightarrow> change (change_add_draft (remove_draft_field n))
      | ClickAddField \<Rightarrow> change (\<lambda>d. if can_add_field (dk_draft d) then change_add_draft (\<lambda>draft. (True, add_draft_field draft)) d else d)
      | ClickSaveSecret \<Rightarrow> save_new_secret io
      | _ \<Rightarrow> dpure ())"

text \<open>A change of the edited draft through its widgets.\<close>

definition change_edit_draft :: "(edit_secret_draft \<Rightarrow> bool \<times> edit_secret_draft) \<Rightarrow> 'r desktop \<Rightarrow> 'r desktop" where
  "change_edit_draft f d =
     (case dt_mode (dk_detail d) of
        DetailEditing draft dirty \<Rightarrow>
          (case f draft of (altered, draft') \<Rightarrow>
             let detail = edit_draft (ed_name draft') (ed_fields draft') (dk_detail d)
             in d\<lparr>dk_detail := (if altered then mark_dirty detail else detail)\<rparr>)
      | _ \<Rightarrow> d)"

definition set_edit_field :: "nat \<Rightarrow> (editable_field \<Rightarrow> editable_field) \<Rightarrow> edit_secret_draft \<Rightarrow> bool \<times> edit_secret_draft" where
  "set_edit_field n f draft =
     (if n < length (ed_fields draft) then (True, draft\<lparr>ed_fields := (ed_fields draft)[n := f (ed_fields draft ! n)]\<rparr>) else (False, draft))"

definition type_value :: "str \<Rightarrow> editable_field \<Rightarrow> editable_field" where
  "type_value s f = (case ef_value f of EditText _ \<Rightarrow> f\<lparr>ef_value := EditText s\<rparr> | EditBinary _ _ \<Rightarrow> f)"

text \<open>The fields that have a copy button, and \<open>SecretClipboard::copy\<close> with the answer of the system.\<close>

definition shown_fields :: "detail_mode \<Rightarrow> editable_field list" where
  "shown_fields mode = (case mode of DetailHidden \<Rightarrow> [] | DetailRevealed draft \<Rightarrow> ed_fields draft | DetailEditing draft _ \<Rightarrow> ed_fields draft)"

definition clipboard_copy :: "bool \<Rightarrow> byte list \<Rightarrow> bool" where
  "clipboard_copy accepted bytes = (valid_utf8 bytes \<and> accepted)"

definition copy_field :: "nat \<Rightarrow> bool \<Rightarrow> 'r desktop \<Rightarrow> 'r desktop" where
  "copy_field n accepted d =
     (let fields = shown_fields (dt_mode (dk_detail d))
      in case (if n < length fields then copyable_text (ef_value (fields ! n)) else None) of
           None \<Rightarrow> d
         | Some t \<Rightarrow> set_clipboard_notice (if clipboard_copy accepted t then ascii ''Copied'' else ascii ''Clipboard is unavailable'') d)"

definition detail_clickable :: "selected_actions \<Rightarrow> detail_action \<Rightarrow> bool" where
  "detail_clickable set_of action =
     ((set_of, action) \<in> {(HiddenActions, ShowValues), (HiddenActions, EditValues), (RevealedActions, HideValues), (RevealedActions, EditValues)})"

definition show_selected_workspace :: "'w desk_io \<Rightarrow> secret_id \<Rightarrow> user_input \<Rightarrow> ('r, 'w, unit) desk" where
  "show_selected_workspace io i input =
     dbind (vault_session_id io) (\<lambda>session.
     dbind (look (\<lambda>d. (case session of Inr s \<Rightarrow> is_authorized s (dk_detail d) | Inl _ \<Rightarrow> False, dt_mode (dk_detail d), dk_pending_delete d)))
       (\<lambda>(authorized, mode, doomed).
     let actions = selected_action_set authorized mode; editing = (actions = EditingActions) in
     case input of
       ClickUnlockSecret \<Rightarrow>
         if actions = UnlockActions then change (\<lambda>d. d\<lparr>dk_unlock_confirmation := True, dk_local_pin := []\<rparr>) else dpure ()
     | ClickDetail action \<Rightarrow>
         if detail_clickable actions action \<or> (editing \<and> authorized \<and> action \<in> {SaveValues, CancelEdit})
         then handle_detail_action io action else dpure ()
     | ClickDelete action \<Rightarrow>
         if editing \<or> ((action = RequestDelete) = (doomed = Some i)) then dpure () else handle_delete_action io i action
     | ClickCopy n accepted \<Rightarrow> if authorized then change (copy_field n accepted) else dpure ()
     | TypeEditName s \<Rightarrow> if authorized then change (change_edit_draft (\<lambda>draft. (True, draft\<lparr>ed_name := s\<rparr>))) else dpure ()
     | TypeEditFieldName n s \<Rightarrow> if authorized then change (change_edit_draft (set_edit_field n (\<lambda>f. f\<lparr>ef_name := s\<rparr>))) else dpure ()
     | TypeEditFieldValue n s \<Rightarrow> if authorized then change (change_edit_draft (set_edit_field n (type_value s))) else dpure ()
     | RemoveEditField n \<Rightarrow>
         if authorized then change (change_edit_draft (\<lambda>draft. if length (ed_fields draft) > 1 then remove_edit_field n draft else (False, draft)))
         else dpure ()
     | ClickAddEditField \<Rightarrow> if authorized then change (change_edit_draft (\<lambda>draft. (True, add_text_field draft))) else dpure ()
     | _ \<Rightarrow> dpure ()))"

definition show_secret_confirmation :: "'w desk_io \<Rightarrow> user_input \<Rightarrow> ('r, 'w, unit) desk" where
  "show_secret_confirmation io input =
     dbind (look (\<lambda>d. confirmation_actions (io_touch_available io) (has_configured_pin d))) (\<lambda>actions.
     case input of
       TypeLocalPin s \<Rightarrow> if ConfirmPin \<in> set actions then change (\<lambda>d. d\<lparr>dk_local_pin := s\<rparr>) else dpure ()
     | ConfirmSecret action \<Rightarrow> if action \<in> set actions then authenticate_selected_secret io action else dpure ()
     | CancelSecret \<Rightarrow> change (\<lambda>d. d\<lparr>dk_pending_touch_id := None, dk_unlock_confirmation := False, dk_local_pin := []\<rparr>)
     | _ \<Rightarrow> dpure ())"

definition show_discard_confirmation :: "user_input \<Rightarrow> ('r, 'w, unit) desk" where
  "show_discard_confirmation input =
     (case input of
        ContinueEditing \<Rightarrow> change (\<lambda>d. d\<lparr>dk_detail := cancel_pending_navigation (dk_detail d), dk_discard_confirmation := False\<rparr>)
      | DiscardChanges \<Rightarrow> change (\<lambda>d. snd (finish_discard_navigation d))
      | _ \<Rightarrow> dpure ())"

section \<open>The list of sessions\<close>

text \<open>A grant of a client that has no session connection.\<close>

definition legacy_grants :: "'r desktop \<Rightarrow> agent_grant_view list" where
  "legacy_grants d = filter (\<lambda>g. \<not> list_ex (\<lambda>s. sd_client (sv_details s) = av_client g) (dk_agent_sessions d)) (dk_agent_grants d)"

definition some_access :: "'r desktop \<Rightarrow> bool" where
  "some_access d = (dk_agent_grants d \<noteq> [] \<or> dk_command_active d)"

definition show_legacy_agent_access :: "'w desk_io \<Rightarrow> user_input \<Rightarrow> ('r, 'w, unit) desk" where
  "show_legacy_agent_access io input =
     dbind (look (\<lambda>d. (legacy_grants d, some_access d))) (\<lambda>(legacy, access).
     case input of
       RevokeGrant session i \<Rightarrow>
         if list_ex (\<lambda>g. av_client g = session \<and> av_secret g = i) legacy then revoke_agent_grant io session i else dpure ()
     | RevokeAll \<Rightarrow> if access then revoke_all_agent_grants io else dpure ()
     | _ \<Rightarrow> dpure ())"

definition set_editor :: "uuid \<Rightarrow> (session_editor \<Rightarrow> session_editor) \<Rightarrow> 'r desktop \<Rightarrow> 'r desktop" where
  "set_editor i f d =
     (case map_of (dk_session_editors d) i of Some e \<Rightarrow> d\<lparr>dk_session_editors := hm_insert i (f e) (dk_session_editors d)\<rparr> | None \<Rightarrow> d)"

definition shown_session :: "uuid \<Rightarrow> 'r desktop \<Rightarrow> agent_session_view option" where
  "shown_session i d = find (\<lambda>s. sd_client (sv_details s) = i) (dk_agent_sessions d)"

definition save_annotation :: "'w desk_io \<Rightarrow> uuid \<Rightarrow> ('r, 'w, unit) desk" where
  "save_annotation io i =
     dbind (look (\<lambda>d. (shown_session i d, map_of (dk_session_editors d) i))) (\<lambda>(session, editor).
     case (session, editor) of
       (Some s, Some e) \<Rightarrow>
         dbind (broker_call (local_annotation (io_env io) i (sd_connection (sv_details s)) (se_session_name e) (se_note e))) (\<lambda>result.
         dthen (change (notice_from result (ascii ''Session alias and note saved''))) (refresh_agent_grants io))
     | _ \<Rightarrow> dpure ())"

definition revoke_shown_session :: "'w desk_io \<Rightarrow> uuid \<Rightarrow> ('r, 'w, unit) desk" where
  "revoke_shown_session io i =
     dbind (broker_call (revoke_session (io_env io) i)) (\<lambda>result.
     dthen (change (notice_from result (ascii ''Session access revoked''))) (refresh_agent_grants io))"

definition show_agent_access :: "'w desk_io \<Rightarrow> user_input \<Rightarrow> ('r, 'w, unit) desk" where
  "show_agent_access io input =
     dbind (look dk_agent_sessions) (\<lambda>sessions.
     if sessions = [] then show_legacy_agent_access io input
     else dthen (change (\<lambda>d. d\<lparr>dk_session_editors := fold (\<lambda>s. sync_editor (sv_details s)) sessions (dk_session_editors d)\<rparr>))
       (dbind (look (\<lambda>d. (legacy_grants d, some_access d, dk_pending_touch_id d))) (\<lambda>(legacy, access, waiting).
        let shown = (\<lambda>i. list_ex (\<lambda>s. sd_client (sv_details s) = i) sessions) in
        case input of
          TypeAlias i s \<Rightarrow> change (set_editor i (\<lambda>e. e\<lparr>se_session_name := s\<rparr>))
        | TypeNote i s \<Rightarrow> change (set_editor i (\<lambda>e. e\<lparr>se_note := s\<rparr>))
        | SaveAlias i \<Rightarrow> save_annotation io i
        | RevokeSession i \<Rightarrow> if shown i then revoke_shown_session io i else dpure ()
        | AllowAll i \<Rightarrow> if shown i \<and> waiting = None then begin_unattended_confirmation io i else dpure ()
        | RevokeAll \<Rightarrow> if access then revoke_all_agent_grants io else dpure ()
        | RevokeGrant i secret \<Rightarrow>
            if list_ex (\<lambda>s. sd_client (sv_details s) = i \<and> list_ex (\<lambda>g. av_secret g = secret) (sv_grants s)) sessions
            then revoke_agent_grant io i secret
            else show_legacy_agent_access io input
        | _ \<Rightarrow> dpure ())))"

definition show_unattended_confirmation :: "'w desk_io \<Rightarrow> user_input \<Rightarrow> ('r, 'w, unit) desk" where
  "show_unattended_confirmation io input =
     dbind (look (\<lambda>d. (dk_unattended d, confirmation_actions (io_touch_available io) (has_configured_pin d), dk_pending_touch_id d \<noteq> None)))
       (\<lambda>(confirmation, actions, busy).
     case confirmation of
       None \<Rightarrow> dpure ()
     | Some c \<Rightarrow>
         (let enabled = (\<not> busy \<and> \<not> isl (unattended_deadline_of (io_clock io) c)) in
          case input of
            ChooseLifetime l \<Rightarrow> if busy then dpure () else change (\<lambda>d. d\<lparr>dk_unattended := Some (c\<lparr>un_lifetime := l\<rparr>)\<rparr>)
          | TypeLocalTime s \<Rightarrow> if busy \<or> un_lifetime c \<noteq> Custom then dpure () else change (\<lambda>d. d\<lparr>dk_unattended := Some (c\<lparr>un_local_time := s\<rparr>)\<rparr>)
          | TypeLocalPin s \<Rightarrow> if enabled \<and> ConfirmPin \<in> set actions then change (\<lambda>d. d\<lparr>dk_local_pin := s\<rparr>) else dpure ()
          | ConfirmUnattended action \<Rightarrow> if enabled \<and> action \<in> set actions then authenticate_unattended io action else dpure ()
          | CancelUnattended \<Rightarrow> change (\<lambda>d. d\<lparr>dk_unattended := None, dk_pending_touch_id := None, dk_local_pin := []\<rparr>)
          | _ \<Rightarrow> dpure ()))"

text \<open>The PIN field of a pending request, in front of its buttons.\<close>

definition pending_approval_input :: "'w desk_io \<Rightarrow> user_input \<Rightarrow> ('r, 'w, unit) desk" where
  "pending_approval_input io input =
     (case input of
        ClickApproval stored click \<Rightarrow> show_pending_approval io stored (Some click)
      | TypeLocalPin s \<Rightarrow>
          dthen (show_pending_approval io None None)
            (change (\<lambda>d. if dk_focused_approval d \<noteq> None \<and> dk_unattended d = None \<and> has_configured_pin d then d\<lparr>dk_local_pin := s\<rparr> else d))
      | _ \<Rightarrow> show_pending_approval io None None)"

definition show_unlocked :: "'w desk_io \<Rightarrow> user_input \<Rightarrow> ('r, 'w, bool) desk" where
  "show_unlocked io input =
     dthen (case input of Navigate target \<Rightarrow> if target = NavClose then dpure () else change (desk_navigation target) | _ \<Rightarrow> dpure ())
       (dbind (selected_metadata io) (\<lambda>selected.
        dthen (if input = ClickLockApp then lock_app io else dpure ())
       (dbind (look (\<lambda>d. dt_navigation_target (dk_detail d))) (\<lambda>target.
        dthen (if target = NavSessions then show_agent_access io input
               else case selected of Some m \<Rightarrow> show_selected_workspace io (smd_id m) input | None \<Rightarrow> show_add_workspace io input)
       (dbind (controller_view (io_env io) phase) (\<lambda>p.
        dbind (look (\<lambda>d. manager_rendering_allowed p (dk_lock d))) (\<lambda>allowed.
        if \<not> allowed then dpure False
        else dbind (look dk_unlock_confirmation) (\<lambda>confirming.
          dthen (if confirming then
                   dbind (selected_metadata io) (\<lambda>selected'.
                   if selected' \<noteq> None then show_secret_confirmation io input
                   else change (\<lambda>d. d\<lparr>dk_unlock_confirmation := False, dk_local_pin := []\<rparr>))
                 else dpure ())
            (dbind (look dk_discard_confirmation) (\<lambda>discarding.
             dthen (if discarding then show_discard_confirmation input else dpure ()) (dpure True)))))))))))"

section \<open>The frame\<close>

datatype tray_action = TrayOpen | TrayLockApp | TrayLockVault | TrayQuit

definition tray_event :: "'w desk_io \<Rightarrow> tray_action \<Rightarrow> ('r, 'w, unit) desk" where
  "tray_event io action =
     (case action of
        TrayOpen \<Rightarrow> dpure ()
      | TrayLockApp \<Rightarrow> lock_app io
      | TrayLockVault \<Rightarrow> lock_immediately io
      | TrayQuit \<Rightarrow> dthen (lock_immediately io) (change (\<lambda>d. d\<lparr>dk_quitting := True\<rparr>)))"

text \<open>\<open>closing\<close>: the window has a tray and the user asks to close it.\<close>

fun process_tray :: "('w desk_io \<times> tray_action) list \<Rightarrow> 'w desk_io \<Rightarrow> bool \<Rightarrow> ('r, 'w, unit) desk" where
  "process_tray [] io closing =
     dbind (look dk_quitting) (\<lambda>quitting. if \<not> quitting \<and> closing then lock_app io else dpure ())"
| "process_tray ((io', action) # events) io closing = dthen (tray_event io' action) (process_tray events io closing)"

datatype 'r scan_channel = ScanRunning | ScanDone "'r option" | ScanGone

fun scan_result :: "'r scan_channel \<Rightarrow> 'r option option" where
  "scan_result ScanRunning = None"
| "scan_result (ScanDone x) = Some x"
| "scan_result ScanGone = Some None"

text \<open>\<open>home\<close>: the home directory is set and absolute.\<close>

definition start_exposure_scan :: "bool \<Rightarrow> bool \<Rightarrow> 'r desktop \<Rightarrow> 'r desktop" where
  "start_exposure_scan home spawned d =
     (let d' = d\<lparr>dk_scan_report := None, dk_scan_error := False\<rparr>
      in if home \<and> spawned then d'\<lparr>dk_scan_task := Some False\<rparr> else d'\<lparr>dk_scan_error := True\<rparr>)"

definition show_exposure_scan :: "bool \<Rightarrow> bool \<Rightarrow> 'r scan_channel \<Rightarrow> user_input option \<Rightarrow> 'r desktop \<Rightarrow> 'r desktop" where
  "show_exposure_scan home spawned channel input d =
     (let d1 = (if input = Some ClickScan then
                  (let d' = d\<lparr>dk_scan_open := True\<rparr> in if dk_scan_task d' = None then start_exposure_scan home spawned d' else d') else d);
          d2 = (case (dk_scan_task d1, scan_result channel) of
                  (Some _, Some result) \<Rightarrow> d1\<lparr>dk_scan_task := None, dk_scan_error := (result = None), dk_scan_report := result\<rparr>
                | _ \<Rightarrow> d1)
      in if \<not> dk_scan_open d2 then d2
         else let d3 = (if input = Some CancelScan then d2\<lparr>dk_scan_task := map_option (\<lambda>_. True) (dk_scan_task d2)\<rparr> else d2)
              in if input = Some CloseScan then d3\<lparr>dk_scan_open := False, dk_scan_task := None\<rparr> else d3)"

definition show_unlock_request :: "'w desk_io \<Rightarrow> bool \<Rightarrow> ('r, 'w, unit) desk" where
  "show_unlock_request io denied =
     dbind (broker_call (local_pending_unlock (io_env io))) (\<lambda>pending.
     case pending of
       Inr (Some request) \<Rightarrow>
         dthen (change (\<lambda>d. if dk_focused_unlock d = Some (pu_id request) then d
             else d\<lparr>dk_focused_unlock := Some (pu_id request), dk_scan_open := False, dk_focus_auth_input := True\<rparr>))
           (dbind (look (\<lambda>d. dk_lock d = DesktopActive \<and> dk_session_confirmation d \<noteq> None)) (\<lambda>open.
            dbind (if open then controller_view (io_env io) (\<lambda>vc. phase vc = PhaseUnlocked) else dpure False) (\<lambda>ready.
            if ready then dbind (broker_call (local_resolve_unlock (io_env io) (pu_id request) True)) (\<lambda>_. dpure ())
            else if denied then
              dthen (dbind (broker_call (local_resolve_unlock (io_env io) (pu_id request) False)) (\<lambda>_. dpure ()))
                (change (\<lambda>d. d\<lparr>dk_local_pin := [], dk_passphrase := [], dk_pending_touch_id := None\<rparr>))
            else dpure ())))
     | _ \<Rightarrow> change (\<lambda>d. d\<lparr>dk_focused_unlock := None\<rparr>))"

record ('r, 'w) frame =
  fr_tray :: "('w desk_io \<times> tray_action) list"
  fr_has_tray :: bool
  fr_close :: bool
  fr_lock_io :: "'w desk_io"
  fr_idle_io :: "'w desk_io"
  fr_io :: "'w desk_io"
  fr_app_lock :: app_lock_channel
  fr_touch :: touch_channel
  fr_home :: bool
  fr_scan_spawned :: bool
  fr_scan :: "'r scan_channel"
  fr_input :: "user_input option"

definition show_panel :: "'w desk_io \<Rightarrow> panel \<Rightarrow> user_input option \<Rightarrow> ('r, 'w, unit) desk" where
  "show_panel io panel given =
     (let input = (case given of Some i \<Rightarrow> i | None \<Rightarrow> DenyUnlock)
      in case panel of
           FirstRunPanel \<Rightarrow> show_first_run io input
         | LockedPanel \<Rightarrow> show_locked io input
         | RecoveryPanel \<Rightarrow> show_recovery io input
         | AppLockingPanel \<Rightarrow> dpure ()
         | AppLockedPanel \<Rightarrow> show_app_locked io input
         | SetupPanel \<Rightarrow> show_session_auth_setup io input
         | ManagerPanel \<Rightarrow>
             dbind (show_unlocked io input) (\<lambda>shown.
             if shown then dthen (pending_approval_input io input) (show_unattended_confirmation io input) else dpure ()))"

definition close_request :: "bool \<Rightarrow> vault_ui_phase \<Rightarrow> 'r desktop \<Rightarrow> 'r desktop" where
  "close_request asked p d =
     (if asked \<and> p = PhaseUnlocked \<and> dk_lock d = DesktopActive then
        (case request_navigation NavClose (dk_detail d) of
           (NavConfirmDiscard, detail) \<Rightarrow> d\<lparr>dk_detail := detail, dk_discard_confirmation := True\<rparr>
         | (NavApplied, detail) \<Rightarrow> d\<lparr>dk_detail := detail\<rparr>)
      else d)"

definition update_window :: "('r, 'w) frame \<Rightarrow> ('r, 'w, unit) desk" where
  "update_window fr =
     (let io = fr_io fr in
      dthen (process_tray (if fr_has_tray fr then fr_tray fr else []) (fr_lock_io fr) (fr_has_tray fr \<and> fr_close fr))
     (dthen (process_external_lock io)
     (dbind (with_controller (io_env io) (\<lambda>now vc files. (remaining_unlocked now vc = Some 0, vc, files))) (\<lambda>idle.
      dthen (if idle then handle_idle_timeout (fr_idle_io fr) else dpure ())
     (dthen (process_app_lock_result io (fr_app_lock fr))
     (dthen (process_touch_id_result io (fr_touch fr))
     (dbind (controller_view (io_env io) phase) (\<lambda>p.
      dthen (synchronize_phase io p)
     (dthen (refresh_agent_grants io)
     (dthen (change (close_request (\<not> fr_has_tray fr \<and> fr_close fr) p))
     (dthen (change (show_exposure_scan (fr_home fr) (fr_scan_spawned fr) (fr_scan fr) (fr_input fr)))
     (dthen (show_unlock_request io (fr_input fr = Some DenyUnlock))
     (dbind (look (panel_of p)) (\<lambda>panel.
      show_panel io panel (fr_input fr)))))))))))))))"

definition on_exit_window :: "'w desk_io \<Rightarrow> ('r, 'w, unit) desk" where
  "on_exit_window io =
     dthen (process_external_lock io)
     (dbind (look dk_broker) (\<lambda>present.
      dthen (if present then dbind (call (cancel_active_run_and_lock (io_env io))) (\<lambda>_. dpure ())
             else with_controller (io_env io) (\<lambda>now vc files. ((), lock vc, files)))
        (change clear_sensitive_state)))"

end
