(* ===== verification/Ladon_Window_Properties.thy ===== *)
theory Ladon_Window_Properties
  imports Ladon_Window Ladon_Local_Properties
begin

text \<open>
  Properties of the desktop window: what is left in it while it is locked, what a frame needs to unlock it, and where the
  lock of the window and the lock of the vault come apart. A small calculus of what a method does to the window
  carries the proofs.
\<close>

section \<open>What a method leaves in the window\<close>

named_theorems ends_intros

definition ends :: "('r, 'w, 'a) desk \<Rightarrow> 'r desktop \<Rightarrow> ('a \<Rightarrow> 'r desktop \<Rightarrow> bool) \<Rightarrow> bool" where
  "ends m d Q = (\<forall>ds x ds'. ds_desktop ds = d \<longrightarrow> m ds = Some (x, ds') \<longrightarrow> Q x (ds_desktop ds'))"

lemma endsD: "ends m (ds_desktop ds) Q \<Longrightarrow> m ds = Some (x, ds') \<Longrightarrow> Q x (ds_desktop ds')"
  by (auto simp: ends_def)

lemma ends_mono: "ends m d Q \<Longrightarrow> (\<And>x d'. Q x d' \<Longrightarrow> R x d') \<Longrightarrow> ends m d R"
  by (auto simp: ends_def)

lemma ends_dpure [ends_intros]: "Q x d \<Longrightarrow> ends (dpure x) d Q"
  by (simp add: ends_def dpure_def)

lemma ends_dbind [ends_intros]: "ends m d (\<lambda>x d'. ends (f x) d' Q) \<Longrightarrow> ends (dbind m f) d Q"
  by (auto simp: ends_def dbind_def bind_eq_Some_conv)

lemma ends_dthen [ends_intros]: "ends m d (\<lambda>_ d'. ends n d' Q) \<Longrightarrow> ends (dthen m n) d Q"
  by (simp add: dthen_def ends_dbind)

lemma ends_change [ends_intros]: "Q () (f d) \<Longrightarrow> ends (change f) d Q"
  by (simp add: ends_def change_def)

lemma ends_look [ends_intros]: "Q (f d) d \<Longrightarrow> ends (look f) d Q"
  by (simp add: ends_def look_def)

lemma ends_call [ends_intros]: "(\<And>x. Q x d) \<Longrightarrow> ends (call h) d Q"
  by (auto simp: ends_def call_def)

lemma ends_broker_call [ends_intros]: "(\<And>x. Q x d) \<Longrightarrow> ends (broker_call h) d Q"
  unfolding broker_call_def by (intro ends_intros) (auto intro: ends_intros)

lemma ends_on_files [ends_intros]: "(\<And>x. Q x d) \<Longrightarrow> ends (on_files env f) d Q"
  by (auto simp: ends_def on_files_def Let_def split: prod.splits)

lemma ends_with_controller [ends_intros]: "(\<And>x. Q x d) \<Longrightarrow> ends (with_controller env f) d Q"
  by (simp add: with_controller_def ends_on_files)

lemma ends_controller_view [ends_intros]: "(\<And>x. Q x d) \<Longrightarrow> ends (controller_view env f) d Q"
  by (simp add: controller_view_def ends_with_controller)

lemma ends_vault_session_id [ends_intros]: "(\<And>x. Q x d) \<Longrightarrow> ends (vault_session_id io) d Q"
  by (simp add: vault_session_id_def ends_controller_view)

lemma ends_if [ends_intros]:
  "(b \<Longrightarrow> ends m d Q) \<Longrightarrow> (\<not> b \<Longrightarrow> ends n d Q) \<Longrightarrow> ends (if b then m else n) d Q"
  by simp

lemma ends_sum [ends_intros]:
  "(\<And>e. x = Inl e \<Longrightarrow> ends (f e) d Q) \<Longrightarrow> (\<And>y. x = Inr y \<Longrightarrow> ends (g y) d Q) \<Longrightarrow>
     ends (case x of Inl e \<Rightarrow> f e | Inr y \<Rightarrow> g y) d Q"
  by (simp split: sum.split)

lemma ends_option [ends_intros]:
  "(x = None \<Longrightarrow> ends m d Q) \<Longrightarrow> (\<And>y. x = Some y \<Longrightarrow> ends (g y) d Q) \<Longrightarrow>
     ends (case x of None \<Rightarrow> m | Some y \<Rightarrow> g y) d Q"
  by (simp split: option.split)

lemma ends_prod [ends_intros]:
  "(\<And>a b. x = (a, b) \<Longrightarrow> ends (f a b) d Q) \<Longrightarrow> ends (case x of (a, b) \<Rightarrow> f a b) d Q"
  by (simp split: prod.split)

lemma ends_let [ends_intros]: "(\<And>y. y = x \<Longrightarrow> ends (f y) d Q) \<Longrightarrow> ends (let y = x in f y) d Q"
  by (simp add: Let_def)

lemma ends_action [ends_intros]:
  "(a = ConfirmTouchId \<Longrightarrow> ends m d Q) \<Longrightarrow> (a = ConfirmPin \<Longrightarrow> ends n d Q) \<Longrightarrow>
     ends (case a of ConfirmTouchId \<Rightarrow> m | ConfirmPin \<Rightarrow> n) d Q"
  by (simp split: confirmation_action.split)

section \<open>The locked window\<close>

text \<open>Nothing of a secret, of a session or of an agent is in the window, and the only answer of Touch ID it may wait for
  is the one that unlocks it. The passphrase of a locked vault and the PIN are typed on the lock screens themselves.\<close>

definition touch_clean :: "touch_id_target option \<Rightarrow> bool" where
  "touch_clean t = (case t of None \<Rightarrow> True | Some (AppUnlockTarget _ _) \<Rightarrow> True | _ \<Rightarrow> False)"

definition detail_clean :: "secret_detail_state \<Rightarrow> bool" where
  "detail_clean dt = (dt_mode dt = DetailHidden \<and> dt_selected dt = None \<and> dt_authorized dt = None \<and> dt_pending_navigation dt = None)"

definition window_clean :: "'r desktop \<Rightarrow> bool" where
  "window_clean d =
     (dk_agent_grants d = [] \<and> dk_agent_sessions d = [] \<and> dk_session_editors d = [] \<and> dk_unattended d = None \<and>
      dk_session_pin d = [] \<and> dk_session_pin_confirmation d = [] \<and> touch_clean (dk_pending_touch_id d) \<and>
      dk_focused_approval d = None \<and> dk_draft d = new_add_draft \<and> detail_clean (dk_detail d) \<and>
      \<not> dk_unlock_confirmation d \<and> \<not> dk_discard_confirmation d \<and> dk_pending_delete d = None)"

fun lock_matches :: "desktop_lock \<Rightarrow> u64 \<Rightarrow> bool" where
  "lock_matches DesktopActive n = True"
| "lock_matches (DesktopLocking e) n = (e = n)"
| "lock_matches (DesktopLocked e) n = (e = n)"

definition window_inv :: "'r desktop \<Rightarrow> bool" where
  "window_inv d = (lock_matches (dk_lock d) (dk_lock_epoch d) \<and> (dk_lock d \<noteq> DesktopActive \<longrightarrow> window_clean d))"

lemmas window_simps = window_clean_def window_inv_def detail_clean_def touch_clean_def

lemma active_inv [simp]: "dk_lock d = DesktopActive \<Longrightarrow> window_inv d"
  by (simp add: window_inv_def)

lemma clean_for_app_lock [simp]: "window_clean (clear_for_app_lock d)"
  by (simp add: clear_for_app_lock_def clear_sensitive_buffers_def clear_unlock_fields_def clear_agent_grants_def window_simps
      clear_for_vault_lock_def drop_sensitive_mode_def)

lemma clean_sensitive_state [simp]:
  "window_clean (clear_sensitive_state d)" "dk_lock (clear_sensitive_state d) = DesktopActive"
  "dk_session_confirmation (clear_sensitive_state d) = None" "dk_pending_touch_id (clear_sensitive_state d) = None"
  by (simp_all add: clear_sensitive_state_def clear_for_app_lock_def clear_sensitive_buffers_def clear_unlock_fields_def
      clear_agent_grants_def window_simps clear_for_vault_lock_def drop_sensitive_mode_def)

lemma lock_of_app_lock [simp]:
  "dk_lock (clear_for_app_lock d) = dk_lock d" "dk_lock_epoch (clear_for_app_lock d) = dk_lock_epoch d"
  "dk_session_confirmation (clear_for_app_lock d) = dk_session_confirmation d"
  by (simp_all add: clear_for_app_lock_def clear_sensitive_buffers_def clear_unlock_fields_def clear_agent_grants_def)

lemma notice_keeps [simp]:
  "dk_lock (notice_from r s d) = dk_lock d" "dk_lock_epoch (notice_from r s d) = dk_lock_epoch d"
  "window_clean (notice_from r s d) = window_clean d" "dk_session_confirmation (notice_from r s d) = dk_session_confirmation d"
  by (simp_all add: notice_from_def window_clean_def)

lemma tell_keeps [simp]:
  "dk_lock (tell t b d) = dk_lock d" "dk_lock_epoch (tell t b d) = dk_lock_epoch d"
  "window_clean (tell t b d) = window_clean d" "dk_session_confirmation (tell t b d) = dk_session_confirmation d"
  by (simp_all add: tell_def window_clean_def)

lemma clean_updates [simp]:
  "window_clean (d\<lparr>dk_notice := n\<rparr>) = window_clean d" "window_clean (d\<lparr>dk_lock := l\<rparr>) = window_clean d"
  "window_clean (d\<lparr>dk_lock_epoch := e\<rparr>) = window_clean d" "window_clean (d\<lparr>dk_last_phase := p\<rparr>) = window_clean d"
  "window_clean (d\<lparr>dk_local_pin := s\<rparr>) = window_clean d" "window_clean (d\<lparr>dk_passphrase := s\<rparr>) = window_clean d"
  "window_clean (d\<lparr>dk_confirmation := s\<rparr>) = window_clean d" "window_clean (d\<lparr>dk_pending_app_lock := a\<rparr>) = window_clean d"
  "window_clean (d\<lparr>dk_unlock_pin_visible := b\<rparr>) = window_clean d" "window_clean (d\<lparr>dk_session_confirmation := c\<rparr>) = window_clean d"
  "window_clean (d\<lparr>dk_focus_auth_input := b\<rparr>) = window_clean d" "window_clean (d\<lparr>dk_focused_unlock := i\<rparr>) = window_clean d"
  "window_clean (d\<lparr>dk_scan_open := b\<rparr>) = window_clean d" "window_clean (d\<lparr>dk_scan_task := t\<rparr>) = window_clean d"
  "window_clean (d\<lparr>dk_scan_report := r\<rparr>) = window_clean d" "window_clean (d\<lparr>dk_scan_error := b\<rparr>) = window_clean d"
  "window_clean (d\<lparr>dk_quitting := b\<rparr>) = window_clean d" "window_clean (d\<lparr>dk_command_active := b\<rparr>) = window_clean d"
  "window_clean (d\<lparr>dk_grants_session := g\<rparr>) = window_clean d" "window_clean (d\<lparr>dk_grants_error_shown := b\<rparr>) = window_clean d"
  by (simp_all add: window_clean_def)

lemma clean_no_touch [simp]: "window_clean d \<Longrightarrow> window_clean (d\<lparr>dk_pending_touch_id := None\<rparr>)"
  by (simp add: window_clean_def touch_clean_def)

text \<open>A window that has been wiped by a lock of the vault, and one that shows nothing it should not.\<close>

definition window_forgotten :: "'r desktop \<Rightarrow> bool" where
  "window_forgotten d = (dk_lock d = DesktopActive \<and> dk_session_confirmation d = None \<and> detail_clean (dk_detail d))"

definition window_shut :: "'r desktop \<Rightarrow> bool" where
  "window_shut d = (dk_lock d \<noteq> DesktopActive \<and> window_clean d \<or> window_forgotten d)"

definition window_wiped :: "'r desktop \<Rightarrow> bool" where
  "window_wiped d = (window_forgotten d \<and> dk_local_pin d = [])"

lemma clean_sensitive_detail [simp]: "detail_clean (dk_detail (clear_sensitive_state d))"
  using clean_sensitive_state(1) [of d] by (simp add: window_clean_def)

lemma wiped_cleared [simp]: "window_wiped (clear_sensitive_state d)"
  by (simp add: window_wiped_def window_forgotten_def)
    (simp add: clear_sensitive_state_def clear_for_app_lock_def clear_sensitive_buffers_def)

lemma wiped_notice [simp]:
  "window_wiped (d\<lparr>dk_notice := n\<rparr>) = window_wiped d" "window_wiped (d\<lparr>dk_last_phase := p\<rparr>) = window_wiped d"
  "window_wiped (notice_from r s d) = window_wiped d" "window_wiped (tell t b d) = window_wiped d"
  by (simp_all add: window_wiped_def window_forgotten_def notice_from_def tell_def)

lemma ends_lock_immediately [ends_intros]:
  assumes "\<And>d'. window_wiped d' \<Longrightarrow> Q () d'"
  shows "ends (lock_immediately io) d Q"
  unfolding lock_immediately_def finish_immediate_lock_def
  by (intro ends_intros assms) (simp_all split: sum.split)

lemma touch_id_absent: "dk_session_confirmation d = None \<Longrightarrow> touch_id_succeeded d = d"
  by (cases d) (simp add: touch_id_succeeded_def)

lemma lock_of_agent_grants [simp]: "dk_lock (clear_agent_grants d) = dk_lock d" "dk_lock_epoch (clear_agent_grants d) = dk_lock_epoch d"
  "dk_session_confirmation (clear_agent_grants d) = dk_session_confirmation d" "dk_detail (clear_agent_grants d) = dk_detail d"
  by (simp_all add: clear_agent_grants_def)

lemma clean_detail_for_app_lock [simp]: "detail_clean (dk_detail (clear_for_app_lock d))"
  using clean_for_app_lock [of d] by (simp add: window_clean_def)

lemma verify_pin_pin: "verify_pin kdf s c = (x, c') \<Longrightarrow> sc_pin c' = sc_pin c"
  by (auto simp: verify_pin_def Let_def split: option.splits sum.splits if_splits)

text \<open>A method keeps a predicate of the window.\<close>

definition keeps :: "('r desktop \<Rightarrow> bool) \<Rightarrow> ('r, 'w, 'a) desk \<Rightarrow> bool" where
  "keeps P m = (\<forall>d. P d \<longrightarrow> ends m d (\<lambda>_. P))"

lemma keepsI: "(\<And>d. P d \<Longrightarrow> ends m d (\<lambda>_. P)) \<Longrightarrow> keeps P m"
  by (simp add: keeps_def)

lemma ends_keeps: "keeps P m \<Longrightarrow> P d \<Longrightarrow> (\<And>x d'. P d' \<Longrightarrow> Q x d') \<Longrightarrow> ends m d Q"
  by (auto simp: keeps_def ends_def)

named_theorems keeps_intros

lemma keeps_dbind [keeps_intros]: "keeps P m \<Longrightarrow> (\<And>x. keeps P (f x)) \<Longrightarrow> keeps P (dbind m f)"
  unfolding keeps_def by (blast intro: ends_dbind ends_mono)

lemma keeps_dthen [keeps_intros]: "keeps P m \<Longrightarrow> keeps P n \<Longrightarrow> keeps P (dthen m n)"
  by (simp add: dthen_def keeps_dbind)

lemma keeps_same [keeps_intros]:
  "keeps P (dpure x)" "keeps P (look g)" "keeps P (call h)" "keeps P (broker_call h)" "keeps P (on_files env s)"
  "keeps P (with_controller env t)" "keeps P (controller_view env v)" "keeps P (vault_session_id io)"
  by (auto simp: keeps_def intro: ends_intros)

lemma keeps_change [keeps_intros]: "(\<And>d. P d \<Longrightarrow> P (f d)) \<Longrightarrow> keeps P (change f)"
  by (auto simp: keeps_def intro: ends_intros)

lemma keeps_cases [keeps_intros]:
  "(b \<Longrightarrow> keeps P m) \<Longrightarrow> (\<not> b \<Longrightarrow> keeps P n) \<Longrightarrow> keeps P (if b then m else n)"
  "(\<And>e. keeps P (f e)) \<Longrightarrow> (\<And>y. keeps P (g y)) \<Longrightarrow> keeps P (case r of Inl e \<Rightarrow> f e | Inr y \<Rightarrow> g y)"
  "keeps P m \<Longrightarrow> (\<And>y. keeps P (h y)) \<Longrightarrow> keeps P (case v of None \<Rightarrow> m | Some y \<Rightarrow> h y)"
  "(\<And>a c. keeps P (k a c)) \<Longrightarrow> keeps P (case q of (a, c) \<Rightarrow> k a c)"
  "keeps P m \<Longrightarrow> keeps P n \<Longrightarrow> keeps P (case a of ConfirmTouchId \<Rightarrow> m | ConfirmPin \<Rightarrow> n)"
  by (auto split: sum.split option.split prod.split confirmation_action.split)

section \<open>Predicates that the screens keep\<close>

text \<open>A predicate that admits a forgotten window and does not depend on what the lock screens, the notices and the list of
  agents write.\<close>

locale screen_predicate =
  fixes P :: "'r desktop \<Rightarrow> bool"
  assumes emptied: "window_wiped d \<Longrightarrow> P d"
    and notice: "P d \<Longrightarrow> P (d\<lparr>dk_notice := n\<rparr>)"
    and typed: "P d \<Longrightarrow> P (d\<lparr>dk_local_pin := []\<rparr>)" "P d \<Longrightarrow> P (d\<lparr>dk_passphrase := s\<rparr>)" "P d \<Longrightarrow> P (d\<lparr>dk_confirmation := s\<rparr>)"
    and cancelled: "P d \<Longrightarrow> P (d\<lparr>dk_pending_touch_id := None\<rparr>)" "P d \<Longrightarrow> P (d\<lparr>dk_unlock_confirmation := False\<rparr>)"
      "P d \<Longrightarrow> P (d\<lparr>dk_unattended := None\<rparr>)"
    and unlocking: "P d \<Longrightarrow> P (d\<lparr>dk_pending_touch_id := Some (AppUnlockTarget i e)\<rparr>)" "P d \<Longrightarrow> P (d\<lparr>dk_unlock_pin_visible := b\<rparr>)"
    and bookkeeping: "P d \<Longrightarrow> P (d\<lparr>dk_last_phase := p\<rparr>)" "P d \<Longrightarrow> P (d\<lparr>dk_pending_app_lock := a\<rparr>)"
      "P d \<Longrightarrow> P (d\<lparr>dk_focus_auth_input := b\<rparr>)" "P d \<Longrightarrow> P (d\<lparr>dk_focused_unlock := f\<rparr>)" "P d \<Longrightarrow> P (d\<lparr>dk_quitting := b\<rparr>)"
      "P d \<Longrightarrow> P (d\<lparr>dk_focused_approval := None\<rparr>)"
    and scanning: "P d \<Longrightarrow> P (d\<lparr>dk_scan_open := b\<rparr>)" "P d \<Longrightarrow> P (d\<lparr>dk_scan_error := b\<rparr>)" "P d \<Longrightarrow> P (d\<lparr>dk_scan_task := t\<rparr>)"
      "P d \<Longrightarrow> P (d\<lparr>dk_scan_report := r\<rparr>)"
    and counted: "P d \<Longrightarrow> dk_session_confirmation d = Some c \<Longrightarrow> sc_pin c' = sc_pin c \<Longrightarrow> P (d\<lparr>dk_session_confirmation := Some c'\<rparr>)"
    and cleared: "P d \<Longrightarrow> P (clear_agent_grants d)"
    and listed: "P d \<Longrightarrow> dk_lock d = DesktopActive \<Longrightarrow> P (d\<lparr>dk_session_editors := es\<rparr>)"
      "P d \<Longrightarrow> dk_lock d = DesktopActive \<Longrightarrow> P (d\<lparr>dk_agent_sessions := ss\<rparr>)"
      "P d \<Longrightarrow> dk_lock d = DesktopActive \<Longrightarrow> P (d\<lparr>dk_agent_grants := gs\<rparr>)"
      "P d \<Longrightarrow> P (d\<lparr>dk_command_active := b\<rparr>)" "P d \<Longrightarrow> P (d\<lparr>dk_grants_session := g\<rparr>)"
      "P d \<Longrightarrow> P (d\<lparr>dk_grants_error_shown := b\<rparr>)"
    and closed: "P d \<Longrightarrow> dk_lock d = DesktopActive \<Longrightarrow> P (close_request asked p d)"
begin

lemmas screen_updates = notice typed cancelled unlocking bookkeeping scanning cleared

lemma kept_notice: "P d \<Longrightarrow> P (notice_from x s d)" "P d \<Longrightarrow> P (tell s b d)"
  by (simp_all add: notice_from_def tell_def notice)

lemma kept_touch_id_succeeded: "P d \<Longrightarrow> P (touch_id_succeeded d)"
  by (cases "dk_session_confirmation d") (simp add: touch_id_absent, simp add: touch_id_succeeded_def record_touch_id_success_def counted)

lemma kept_cleared: "P (clear_sensitive_state d)"
  by (simp add: emptied)

lemma keeps_lock_immediately: "keeps P (lock_immediately io)"
  by (auto simp: keeps_def intro: ends_intros emptied)

lemma keeps_process_external_lock: "keeps P (process_external_lock io)"
  unfolding process_external_lock_def by (intro keeps_intros kept_notice bookkeeping kept_cleared)

lemma keeps_synchronize_phase: "keeps P (synchronize_phase io p)"
  unfolding synchronize_phase_def by (intro keeps_intros bookkeeping kept_cleared)

lemma keeps_finish_auto_lock: "keeps P (finish_auto_lock locked)"
  unfolding finish_auto_lock_def by (intro keeps_intros kept_notice kept_cleared)

lemma keeps_reject_stale_authentication: "keeps P (reject_stale_authentication io)"
  unfolding reject_stale_authentication_def
  by (intro keeps_intros keeps_synchronize_phase kept_notice cancelled typed)

lemma kept_reject_stale_app_unlock: "P d \<Longrightarrow> P (reject_stale_app_unlock d)"
  by (simp add: reject_stale_app_unlock_def kept_notice cancelled typed)

lemma keeps_handle_sensitive_operation_error: "keeps P (handle_sensitive_operation_error io e)"
  unfolding handle_sensitive_operation_error_def by (intro keeps_intros keeps_synchronize_phase kept_notice)

lemma keeps_check_pin: "keeps P (check_pin io)"
  by (auto simp: keeps_def ends_def check_pin_def Let_def typed counted dest: verify_pin_pin split: option.splits prod.splits)

lemma keeps_after_pin: "keeps P m \<Longrightarrow> keeps P (after_pin io m v)"
  unfolding after_pin_def
  by (auto split: sum.split pin_verification.split intro!: keeps_intros keeps_lock_immediately kept_notice)

lemma keeps_current_app_unlock_context: "keeps P (current_app_unlock_context io)"
  unfolding current_app_unlock_context_def by (auto split: desktop_lock.split intro!: keeps_intros)

lemma kept_exposure_scan: "P d \<Longrightarrow> P (show_exposure_scan home spawned channel input d)"
  by (auto simp: show_exposure_scan_def start_exposure_scan_def Let_def scanning split: option.split)

lemma keeps_show_unlock_request: "keeps P (show_unlock_request io denied)"
  unfolding show_unlock_request_def
  by (intro keeps_intros) (auto simp: bookkeeping scanning typed cancelled)

lemma keeps_show_first_run: "keeps P (show_first_run io input)"
  unfolding show_first_run_def after_unlock_fields_def clear_unlock_fields_def
  by (cases input) (auto intro!: keeps_intros kept_notice simp: typed)

lemma keeps_show_locked: "keeps P (show_locked io input)"
  unfolding show_locked_def after_unlock_fields_def clear_unlock_fields_def
  by (cases input) (auto intro!: keeps_intros kept_notice simp: typed bookkeeping)

lemma keeps_show_recovery: "keeps P (show_recovery io input)"
  unfolding show_recovery_def by (cases input) (auto intro!: keeps_intros kept_notice)

lemma keeps_begin_app_unlock: "keeps P (begin_app_unlock io)"
  unfolding begin_app_unlock_def Let_def
  by (auto split: app_unlock.split sum.split
      intro!: keeps_intros keeps_lock_immediately keeps_current_app_unlock_context kept_reject_stale_app_unlock kept_notice
      simp: use_app_unlock_pin_def unlocking typed cancelled notice)

lemma keeps_refresh_agent_grants: "keeps P (refresh_agent_grants io)"
proof -
  have "ends (refresh_agent_grants io) d (\<lambda>_. P)" if "P d" for d
    unfolding refresh_agent_grants_def using that
    by (intro ends_intros) (auto simp: cleared listed kept_notice notice split: sum.split)
  then show ?thesis by (simp add: keeps_def)
qed

lemma kept_close_request: "P d \<Longrightarrow> P (close_request asked p d)"
  using closed [of d asked p] by (cases "dk_lock d = DesktopActive") (simp, simp add: close_request_def)

end


text \<open>One that a lock of the window keeps too.\<close>

locale lock_predicate = screen_predicate +
  assumes begun: "P d \<Longrightarrow> P (clear_for_app_lock (d\<lparr>dk_lock_epoch := e, dk_lock := DesktopLocking e, dk_pending_app_lock := a\<rparr>))"
    and wiped: "P d \<Longrightarrow> P (clear_for_app_lock d)"
    and finished: "P d \<Longrightarrow> dk_lock d = DesktopLocking e \<Longrightarrow> P (d\<lparr>dk_lock := DesktopLocked e\<rparr>)"
begin

lemma keeps_begin_interface_lock: "keeps P (begin_interface_lock io automatic)"
  unfolding begin_interface_lock_def by (intro keeps_intros keeps_lock_immediately begun)

lemma keeps_lock_app: "keeps P (lock_app io)"
  unfolding lock_app_def by (intro keeps_intros keeps_lock_immediately keeps_begin_interface_lock wiped)

lemma keeps_handle_idle_timeout: "keeps P (handle_idle_timeout io)"
  unfolding handle_idle_timeout_def
  by (intro keeps_intros keeps_begin_interface_lock keeps_finish_auto_lock)

lemma keeps_finish_app_lock_result: "keeps P (finish_app_lock_result io epoch x)"
  unfolding finish_app_lock_result_def keeps_def
  by (intro allI impI ends_intros) (auto simp: finished emptied)

lemma keeps_process_app_lock_result: "keeps P (process_app_lock_result io channel)"
  unfolding process_app_lock_result_def
  by (auto split: option.split intro!: keeps_intros keeps_finish_app_lock_result bookkeeping)

lemma keeps_tray_event: "keeps P (tray_event io action)"
  unfolding tray_event_def
  by (cases action) (auto intro!: keeps_intros keeps_lock_app keeps_lock_immediately bookkeeping)

lemma keeps_process_tray: "keeps P (process_tray events io closing)"
  by (induction events io closing rule: process_tray.induct)
    (auto intro!: keeps_intros keeps_lock_app keeps_tray_event)

end

lemma screen_updates_window: "window_clean d \<Longrightarrow> window_clean (d\<lparr>dk_pending_touch_id := Some (AppUnlockTarget i e)\<rparr>)"
  "window_clean d \<Longrightarrow> window_clean (d\<lparr>dk_unlock_confirmation := False\<rparr>)" "window_clean d \<Longrightarrow> window_clean (d\<lparr>dk_unattended := None\<rparr>)"
  "window_clean d \<Longrightarrow> window_clean (d\<lparr>dk_focused_approval := None\<rparr>)" "window_clean d \<Longrightarrow> window_clean (clear_agent_grants d)"
  by (simp_all add: window_clean_def touch_clean_def clear_agent_grants_def)

lemma closed_window:
  "dk_lock (close_request asked p d) = dk_lock d" "dk_session_confirmation (close_request asked p d) = dk_session_confirmation d"
  "detail_clean (dk_detail d) \<Longrightarrow> detail_clean (dk_detail (close_request asked p d))"
  by (auto simp: close_request_def request_navigation_def navigate_now_def drop_sensitive_mode_def detail_clean_def split: detail_mode.split bool.split)

interpretation locked: lock_predicate window_inv
  by unfold_locales (auto simp: window_inv_def window_wiped_def window_forgotten_def screen_updates_window closed_window)

interpretation shut: lock_predicate window_shut
  by unfold_locales (auto simp: window_shut_def window_wiped_def window_forgotten_def screen_updates_window closed_window)

interpretation open_window: screen_predicate "\<lambda>d. dk_lock d = DesktopActive"
  by unfold_locales (auto simp: window_wiped_def window_forgotten_def closed_window)


section \<open>A window without authentication\<close>

text \<open>A shut window whose PIN is \<open>p\<close>, when it has one, and in which nothing but \<open>pin\<close> is typed as the PIN.\<close>

definition guarded :: "session_pin option \<Rightarrow> str \<Rightarrow> 'r desktop \<Rightarrow> bool" where
  "guarded p pin d =
     (window_shut d \<and> dk_local_pin d \<in> {pin, []} \<and> (\<forall>c. dk_session_confirmation d = Some c \<longrightarrow> sc_pin c = p))"

lemma guarded_start:
  "window_shut d \<Longrightarrow> dk_session_confirmation d = Some c \<Longrightarrow> guarded (sc_pin c) (dk_local_pin d) d"
  by (simp add: guarded_def)


lemma lock_pin_of_app_lock [simp]: "dk_local_pin (clear_for_app_lock d) = []"
  by (simp add: clear_for_app_lock_def clear_sensitive_buffers_def)

lemma pin_of_others [simp]: "dk_local_pin (clear_agent_grants d) = dk_local_pin d" "dk_local_pin (close_request asked q d) = dk_local_pin d"
  by (auto simp: clear_agent_grants_def close_request_def split: prod.split navigation_result.split)

interpretation guarded: lock_predicate "guarded p pin" for p pin
  by unfold_locales (auto simp: guarded_def window_shut_def window_wiped_def window_forgotten_def screen_updates_window closed_window)


text \<open>Neither of the texts that may stand in the PIN field is the PIN.\<close>

definition pin_wrong :: "pin_kdf \<Rightarrow> session_pin option \<Rightarrow> str \<Rightarrow> bool" where
  "pin_wrong kdf p pin = (\<forall>q. p = Some q \<longrightarrow> (\<forall>s \<in> {pin, []}. session_pin_verify kdf q s \<noteq> Inr ()))"

lemma ends_check_wrong_pin:
  assumes "guarded p pin d" "pin_wrong (io_kdf io) p pin"
  shows "ends (check_pin io) d (\<lambda>x d'. guarded p pin d' \<and> x \<noteq> Inr PinAccepted)"
proof -
  have "ends (check_pin io) d (\<lambda>_. guarded p pin)"
    using guarded.keeps_check_pin assms(1) by (auto simp: keeps_def)
  moreover have "ends (check_pin io) d (\<lambda>x _. x \<noteq> Inr PinAccepted)"
    using assms by (auto simp: ends_def check_pin_def verify_pin_def guarded_def pin_wrong_def Let_def split: option.splits sum.splits if_splits prod.splits)
  ultimately show ?thesis by (auto simp: ends_def)
qed

lemma guarded_shut: "guarded p pin d \<Longrightarrow> window_shut d"
  by (simp add: guarded_def)

lemma ends_after_wrong_pin:
  assumes "guarded p pin d" "x \<noteq> Inr PinAccepted"
  shows "ends (after_pin io m x) d (\<lambda>_. guarded p pin)"
  using assms
  by (auto simp: after_pin_def guarded.kept_notice guarded.emptied intro!: ends_intros split: sum.split pin_verification.split)

lemma ends_wrong_app_pin:
  assumes "guarded p pin d" "pin_wrong (io_kdf io) p pin"
  shows "ends (authenticate_app_pin io) d (\<lambda>_. guarded p pin)"
proof -
  have ctx: "ends (current_app_unlock_context io) d' (\<lambda>_. guarded p pin)" if "guarded p pin d'" for d' :: "'a desktop"
    using guarded.keeps_current_app_unlock_context that by (auto simp: keeps_def)
  have check: "ends (dbind (check_pin io) (after_pin io m)) d' (\<lambda>_. guarded p pin)" if "guarded p pin d'" for d' :: "'a desktop" and m
    by (rule ends_dbind [OF ends_mono [OF ends_check_wrong_pin [OF that assms(2)]]]) (simp add: ends_after_wrong_pin)
  show ?thesis
    unfolding authenticate_app_pin_def
    by (rule ends_dbind, rule ends_mono [OF ctx [OF assms(1)]], intro ends_option ends_prod ends_change guarded.kept_reject_stale_app_unlock)
      (auto intro!: ends_dbind ends_mono [OF ctx] ends_if ends_change ends_dthen check guarded.kept_reject_stale_app_unlock guarded.cancelled)
qed

lemma shut_typed: "window_shut d \<Longrightarrow> window_shut (d\<lparr>dk_local_pin := s\<rparr>)"
  by (simp add: window_shut_def window_forgotten_def)

lemma ends_guarded_app_locked:
  assumes "guarded p pin d" "input = ClickPinUnlock \<Longrightarrow> pin_wrong (io_kdf io) p pin"
  shows "ends (show_app_locked io input) d (\<lambda>_. window_shut)"
proof -
  have shown: "ends (dbind (look (\<lambda>d. (dk_unlock_pin_visible d, has_configured_pin d))) (\<lambda>(visible, pin).
        case input of
          ClickAppUnlock \<Rightarrow> if visible then dpure () else dbind (begin_app_unlock io) (\<lambda>_. dpure ())
        | ClickUsePin \<Rightarrow> if pin \<and> \<not> visible then change use_app_unlock_pin else dpure ()
        | TypeLocalPin s \<Rightarrow> if visible then change (\<lambda>d. d\<lparr>dk_local_pin := s\<rparr>) else dpure ()
        | ClickPinUnlock \<Rightarrow> if visible then authenticate_app_pin io else dpure ()
        | ClickLockVault \<Rightarrow> lock_immediately io
        | _ \<Rightarrow> dpure ())) e (\<lambda>_. window_shut)" if g: "guarded p pin e" for e
    by (rule ends_dbind, rule ends_look, cases input)
      (use guarded_shut [OF g] assms(2) in \<open>auto intro!: ends_intros ends_keeps [OF shut.keeps_begin_app_unlock]
         ends_mono [OF ends_wrong_app_pin [OF g]] intro: guarded_shut
         simp: shut_typed use_app_unlock_pin_def shut.cancelled shut.unlocking shut.notice shut.typed shut.emptied\<close>)
  show ?thesis
    unfolding show_app_locked_def
    by (rule ends_dthen, rule ends_change, rule shown) (use assms(1) in \<open>simp add: guarded.unlocking guarded.bookkeeping\<close>)
qed

lemma ends_guarded_touch:
  assumes "guarded p pin d" "channel \<noteq> TouchAnswer (Inr ())"
  shows "ends (process_touch_id_result io channel) d (\<lambda>_. guarded p pin)"
  unfolding process_touch_id_result_def using assms
  by (cases channel)
    (auto split: option.split touch_id_target.split sum.split
      intro!: ends_intros guarded.kept_notice guarded.cancelled guarded.typed)

lemma ends_guarded_setup:
  assumes "window_forgotten d" "input \<noteq> ClickSetPin" "input \<noteq> ClickTouchIdSetup"
  shows "ends (show_session_auth_setup io input) d (\<lambda>_. window_shut)"
  unfolding show_session_auth_setup_def using assms
  by (cases input) (auto intro!: ends_intros simp: window_shut_def window_forgotten_def)


definition no_authentication :: "session_pin option \<Rightarrow> str \<Rightarrow> ('r, 'w) frame \<Rightarrow> bool" where
  "no_authentication p pin fr =
     (fr_touch fr \<noteq> TouchAnswer (Inr ()) \<and> fr_input fr \<noteq> Some ClickSetPin \<and> fr_input fr \<noteq> Some ClickTouchIdSetup \<and>
      (fr_input fr = Some ClickPinUnlock \<longrightarrow> pin_wrong (io_kdf (fr_io fr)) p pin))"

lemma ends_guarded_panel:
  assumes "guarded p pin d" "no_authentication p pin fr"
  shows "ends (show_panel (fr_io fr) (panel_of q d) (fr_input fr)) d (\<lambda>_. window_shut)"
proof -
  have w: "window_shut d" by (rule guarded_shut [OF assms(1)])
  define input where "input = (case fr_input fr of Some i \<Rightarrow> i | None \<Rightarrow> DenyUnlock)"
  have i: "input \<noteq> ClickSetPin" "input \<noteq> ClickTouchIdSetup" "input = ClickPinUnlock \<Longrightarrow> pin_wrong (io_kdf (fr_io fr)) p pin"
    using assms(2) by (auto simp: input_def no_authentication_def split: option.splits)
  show ?thesis
  proof (cases "panel_of q d")
    case SetupPanel
    then have "window_forgotten d"
      using w by (auto simp: panel_of_def window_shut_def split: vault_ui_phase.splits desktop_lock.splits)
    then show ?thesis using SetupPanel i by (simp add: show_panel_def input_def [symmetric] ends_guarded_setup)
  next
    case ManagerPanel
    then have False
      using w by (auto simp: panel_of_def window_shut_def window_forgotten_def split: vault_ui_phase.splits desktop_lock.splits if_splits)
    then show ?thesis ..
  qed (use w i assms(1) in \<open>auto simp: show_panel_def input_def [symmetric] intro: ends_dpure ends_guarded_app_locked
      ends_keeps [OF shut.keeps_show_first_run] ends_keeps [OF shut.keeps_show_locked] ends_keeps [OF shut.keeps_show_recovery]\<close>)
qed

lemma ends_guarded_frame:
  assumes "guarded p pin d" "no_authentication p pin fr"
  shows "ends (update_window fr) d (\<lambda>_. window_shut)"
proof -
  have touch: "ends (process_touch_id_result (fr_io fr) (fr_touch fr)) e (\<lambda>_. guarded p pin)" if "guarded p pin e" for e
    using assms(2) by (intro ends_guarded_touch that) (simp add: no_authentication_def)
  have keep: "ends m e Q" if "keeps (guarded p pin) m" "guarded p pin e" "\<And>x e'. guarded p pin e' \<Longrightarrow> Q x e'"
    for m :: "('a, 'b, unit) desk" and e Q using that by (rule ends_keeps)
  show ?thesis
    unfolding update_window_def Let_def
    by (rule ends_dthen, rule keep [OF guarded.keeps_process_tray assms(1)],
        rule ends_dthen, rule keep [OF guarded.keeps_process_external_lock], assumption,
        rule ends_dbind, rule ends_with_controller,
        rule ends_dthen, rule keep, intro keeps_intros guarded.keeps_handle_idle_timeout, assumption,
        rule ends_dthen, rule keep [OF guarded.keeps_process_app_lock_result], assumption,
        rule ends_dthen, rule ends_mono, rule touch, assumption,
        rule ends_dbind, rule ends_controller_view,
        rule ends_dthen, rule keep [OF guarded.keeps_synchronize_phase], assumption,
        rule ends_dthen, rule keep [OF guarded.keeps_refresh_agent_grants], assumption,
        rule ends_dthen, rule ends_change,
        rule ends_dthen, rule ends_change,
        rule ends_dthen, rule keep [OF guarded.keeps_show_unlock_request],
        intro guarded.kept_exposure_scan guarded.kept_close_request, assumption,
        rule ends_dbind, rule ends_look, rule ends_guarded_panel, assumption, rule assms(2))
qed


section \<open>The open window\<close>

abbreviation window_active :: "'r desktop \<Rightarrow> bool" where
  "window_active \<equiv> \<lambda>d. dk_lock d = DesktopActive"

lemma touch_lock [simp]: "dk_lock (touch_id_succeeded d) = dk_lock d" "dk_lock_epoch (touch_id_succeeded d) = dk_lock_epoch d"
  by (simp_all add: touch_id_succeeded_def)

lemma manager_lock [simp]:
  "dk_lock (desk_navigation target d) = dk_lock d" "dk_lock (snd (finish_discard_navigation d)) = dk_lock d"
  "dk_lock (change_add_draft f d) = dk_lock d" "dk_lock (change_edit_draft g d) = dk_lock d" "dk_lock (copy_field n b d) = dk_lock d"
  "dk_lock (set_editor i h d) = dk_lock d" "dk_lock (cancel_stale_approval_touch_id current d) = dk_lock d"
  "dk_lock (update_focused_approval req d) = dk_lock d"
  by (auto simp: desk_navigation_def finish_applied_navigation_def finish_discard_navigation_def change_add_draft_def change_edit_draft_def
      copy_field_def set_clipboard_notice_def set_editor_def cancel_stale_approval_touch_id_def update_focused_approval_def Let_def
      split: prod.split navigation_result.split detail_mode.split option.split touch_id_target.split if_splits)

lemma active_after_pin [keeps_intros]: "keeps window_active m \<Longrightarrow> keeps window_active (after_pin io m v)"
  by (rule open_window.keeps_after_pin)

lemmas active_steps [keeps_intros] = open_window.keeps_check_pin open_window.keeps_lock_immediately open_window.keeps_synchronize_phase
  open_window.keeps_reject_stale_authentication open_window.keeps_handle_sensitive_operation_error open_window.keeps_refresh_agent_grants

lemma active_selected [keeps_intros]: "keeps window_active (accept_selected io tried i also_do)"
  if "\<And>d. dk_lock (also_do d) = dk_lock d"
  unfolding accept_selected_def using that by (auto intro!: keeps_intros)

lemma active_authenticate_selected [keeps_intros]: "keeps window_active (authenticate_selected_secret io action)"
  unfolding authenticate_selected_secret_def by (auto intro!: keeps_intros split: sum.split)

lemma active_selected_touch_id [keeps_intros]: "keeps window_active (finish_selected_touch_id io tried i)"
  unfolding finish_selected_touch_id_def by (rule active_selected) simp

lemma active_updates [keeps_intros]:
  "keeps window_active (desk_update_secret io draft)" "keeps window_active (desk_delete_secret io i)" "keeps window_active (open_values io b i)"
  unfolding desk_update_secret_def desk_delete_secret_def open_values_def by (intro keeps_intros)+

lemma active_detail_action [keeps_intros]: "keeps window_active (handle_detail_action io action)"
  unfolding handle_detail_action_def Let_def
  by (cases action) (auto intro!: keeps_intros split: prod.split detail_mode.split)

lemma active_delete_action [keeps_intros]: "keeps window_active (handle_delete_action io i action)"
  unfolding handle_delete_action_def by (cases action) (auto intro!: keeps_intros)

lemma active_save [keeps_intros]: "keeps window_active (save_new_secret io)"
  unfolding save_new_secret_def by (auto intro!: keeps_intros)

lemma active_workspaces [keeps_intros]:
  "keeps window_active (show_add_workspace io input)" "keeps window_active (show_selected_workspace io i input)"
  "keeps window_active (show_secret_confirmation io input)" "keeps window_active (show_discard_confirmation input)"
  unfolding show_add_workspace_def show_selected_workspace_def show_secret_confirmation_def show_discard_confirmation_def Let_def
  by (cases input; auto intro!: keeps_intros)+

lemma active_agent_access [keeps_intros]:
  "keeps window_active (revoke_agent_grant io i j)" "keeps window_active (revoke_all_agent_grants io)"
  "keeps window_active (begin_unattended_confirmation io i)" "keeps window_active (save_annotation io i)"
  "keeps window_active (revoke_shown_session io i)"
  unfolding revoke_agent_grant_def revoke_all_agent_grants_def begin_unattended_confirmation_def save_annotation_def revoke_shown_session_def
  by (auto intro!: keeps_intros split: sum.split option.split)

lemma active_show_agent_access [keeps_intros]: "keeps window_active (show_agent_access io input)"
  unfolding show_agent_access_def show_legacy_agent_access_def Let_def by (cases input) (auto intro!: keeps_intros)

lemma active_unattended [keeps_intros]:
  "keeps window_active (finish_authenticated_unattended io consent deadline b)"
  unfolding finish_authenticated_unattended_def by (auto intro!: keeps_intros)

lemma active_authenticate_unattended [keeps_intros]: "keeps window_active (authenticate_unattended io action)"
  unfolding authenticate_unattended_def by (auto intro!: keeps_intros split: sum.split)

lemma active_show_unattended [keeps_intros]: "keeps window_active (show_unattended_confirmation io input)"
  unfolding show_unattended_confirmation_def Let_def by (cases input) (auto intro!: keeps_intros)

lemma active_approval [keeps_intros]: "keeps window_active (finish_authenticated_approval io i session b l)"
  unfolding finish_authenticated_approval_def by (auto intro!: keeps_intros)

lemma active_authenticate_approval [keeps_intros]: "keeps window_active (authenticate_pending_approval io action q l)"
  unfolding authenticate_pending_approval_def by (auto intro!: keeps_intros split: sum.split)

lemma active_show_approval [keeps_intros]: "keeps window_active (show_pending_approval io stored click)"
  unfolding show_pending_approval_def by (auto intro!: keeps_intros split: approval_click.split)

lemma active_approval_input [keeps_intros]: "keeps window_active (pending_approval_input io input)"
  unfolding pending_approval_input_def by (cases input) (auto intro!: keeps_intros)

lemma active_setup [keeps_intros]: "keeps window_active (show_session_auth_setup io input)"
  unfolding show_session_auth_setup_def by (cases input) (auto intro!: keeps_intros split: sum.split)


lemma active_keeps_inv: "keeps window_active m \<Longrightarrow> dk_lock d = DesktopActive \<Longrightarrow> ends m d (\<lambda>_. window_inv)"
  by (auto elim!: ends_keeps)

lemma inv_finish_app_unlock: "keeps window_inv (finish_app_unlock io session epoch)"
  unfolding finish_app_unlock_def
  by (auto intro!: keeps_intros locked.keeps_current_app_unlock_context simp: locked.cancelled locked.typed locked.kept_reject_stale_app_unlock locked.kept_notice)

lemma inv_app_unlock_touch_id: "keeps window_inv (finish_app_unlock_touch_id io session epoch)"
  unfolding finish_app_unlock_touch_id_def
  by (auto intro!: keeps_intros inv_finish_app_unlock locked.keeps_current_app_unlock_context
      simp: locked.typed locked.kept_reject_stale_app_unlock locked.kept_touch_id_succeeded)

lemma inv_app_pin: "keeps window_inv (authenticate_app_pin io)"
  unfolding authenticate_app_pin_def
  by (auto intro!: keeps_intros inv_finish_app_unlock locked.keeps_current_app_unlock_context locked.keeps_check_pin locked.keeps_after_pin
      simp: locked.cancelled locked.kept_reject_stale_app_unlock)

lemma inv_typed: "window_inv d \<Longrightarrow> window_inv (d\<lparr>dk_local_pin := s\<rparr>)"
  by (simp add: window_inv_def)

lemma inv_app_locked: "keeps window_inv (show_app_locked io input)"
  unfolding show_app_locked_def
  by (cases input) (auto intro!: keeps_intros locked.keeps_begin_app_unlock inv_app_pin locked.keeps_lock_immediately
      simp: use_app_unlock_pin_def inv_typed locked.screen_updates)

lemma ends_active_touch:
  "dk_lock d = DesktopActive \<Longrightarrow> ends (finish_app_unlock_touch_id io session epoch) d (\<lambda>_. window_inv)"
  by (rule ends_keeps [OF inv_app_unlock_touch_id]) simp_all

lemma inv_touch: "keeps window_inv (process_touch_id_result io channel)"
proof (rule keepsI)
  fix d assume inv: "window_inv d"
  show "ends (process_touch_id_result io channel) d (\<lambda>_. window_inv)"
  proof (cases "dk_lock d = DesktopActive")
    case True
    then show ?thesis
      unfolding process_touch_id_result_def
      by (auto split: option.split touch_id_target.split sum.split
          intro!: ends_intros ends_active_touch active_keeps_inv [OF active_unattended] active_keeps_inv [OF active_selected_touch_id]
            active_keeps_inv [OF active_approval])
  next
    case False
    then have "touch_clean (dk_pending_touch_id d)" using inv by (simp add: window_inv_def window_clean_def)
    moreover have "window_inv (d\<lparr>dk_pending_touch_id := None, dk_local_pin := []\<rparr>)"
      using inv by (simp add: locked.cancelled locked.typed)
    ultimately show ?thesis
      unfolding process_touch_id_result_def using inv
      by (auto simp: touch_clean_def split: option.splits touch_id_target.splits sum.split
          intro!: ends_intros ends_keeps [OF inv_app_unlock_touch_id] locked.kept_notice)
  qed
qed

text \<open>After the button that locks the app, the rest of the manager does nothing.\<close>

lemma inv_agent_access_locked: "keeps window_inv (show_agent_access io ClickLockApp)"
proof (rule keepsI)
  fix d assume inv: "window_inv d"
  show "ends (show_agent_access io ClickLockApp) d (\<lambda>_. window_inv)"
  proof (cases "dk_lock d = DesktopActive")
    case False
    then have "dk_agent_sessions d = []" using inv by (simp add: window_inv_def window_clean_def)
    then show ?thesis
      using inv by (auto simp: show_agent_access_def show_legacy_agent_access_def intro!: ends_intros)
  qed (rule active_keeps_inv [OF active_show_agent_access])
qed

lemma inv_workspaces_locked:
  "keeps window_inv (show_add_workspace io ClickLockApp)" "keeps window_inv (show_selected_workspace io i ClickLockApp)"
  "keeps window_inv (show_secret_confirmation io ClickLockApp)" "keeps window_inv (show_discard_confirmation ClickLockApp)"
  unfolding show_add_workspace_def show_selected_workspace_def show_secret_confirmation_def show_discard_confirmation_def
  by (auto simp: Let_def intro!: keeps_intros)

lemma keeps_selected_metadata [keeps_intros]: "keeps P (selected_metadata io)"
  unfolding selected_metadata_def by (intro keeps_intros)


lemma ends_show_unlocked:
  assumes "dk_lock d = DesktopActive"
  shows "ends (show_unlocked io input) d (\<lambda>shown d'. window_inv d' \<and> (shown \<longrightarrow> dk_lock d' = DesktopActive))"
proof -
  have rest: "ends (dbind (look dk_unlock_confirmation) (\<lambda>confirming.
          dthen (if confirming then
                   dbind (selected_metadata io) (\<lambda>selected'.
                   if selected' \<noteq> None then show_secret_confirmation io input
                   else change (\<lambda>d. d\<lparr>dk_unlock_confirmation := False, dk_local_pin := []\<rparr>))
                 else dpure ())
            (dbind (look dk_discard_confirmation) (\<lambda>discarding.
             dthen (if discarding then show_discard_confirmation input else dpure ()) (dpure True))))) e
       (\<lambda>shown d'. window_inv d' \<and> (shown \<longrightarrow> dk_lock d' = DesktopActive))" if "dk_lock e = DesktopActive" for e
    by (rule ends_keeps [of window_active, OF _ that]) (auto intro!: keeps_intros)
  have work: "ends (if target = NavSessions then show_agent_access io input
        else case selected of Some m \<Rightarrow> show_selected_workspace io (smd_id m) input | None \<Rightarrow> show_add_workspace io input) e (\<lambda>_. window_inv)"
    if "if input = ClickLockApp then window_inv e else dk_lock e = DesktopActive" for e target selected
  proof (cases "input = ClickLockApp")
    case True
    with that show ?thesis
      by (auto split: option.split intro: ends_keeps [OF inv_agent_access_locked] ends_keeps [OF inv_workspaces_locked(1)]
          ends_keeps [OF inv_workspaces_locked(2)])
  qed (use that in \<open>auto split: option.split intro: active_keeps_inv active_show_agent_access active_workspaces\<close>)
  have lock: "ends (if input = ClickLockApp then lock_app io else dpure ()) e
      (\<lambda>_ e. if input = ClickLockApp then window_inv e else dk_lock e = DesktopActive)" if "dk_lock e = DesktopActive" for e
    using that by (auto intro: ends_dpure ends_keeps [OF locked.keeps_lock_app])
  have nav: "keeps window_active (case input of Navigate target \<Rightarrow> if target = NavClose then dpure () else change (desk_navigation target) | _ \<Rightarrow> dpure ())"
    by (cases input) (auto intro!: keeps_intros)
  show ?thesis
    unfolding show_unlocked_def
    by (rule ends_dthen, rule ends_keeps [OF nav assms], rule ends_dbind, rule ends_keeps [OF keeps_selected_metadata], assumption,
        rule ends_dthen, rule ends_mono [OF lock], assumption, rule ends_dbind, rule ends_look,
        rule ends_dthen, rule ends_mono [OF work], assumption, rule ends_dbind, rule ends_controller_view,
        rule ends_dbind, rule ends_look, rule ends_if, rule ends_dpure, simp, rule rest)
      (simp add: manager_rendering_allowed_def)
qed

lemma ends_show_panel:
  assumes "window_inv d"
  shows "ends (show_panel io (panel_of q d) input) d (\<lambda>_. window_inv)"
proof (cases "panel_of q d")
  case SetupPanel
  then have "dk_lock d = DesktopActive" by (auto simp: panel_of_def split: vault_ui_phase.splits desktop_lock.splits)
  then show ?thesis using SetupPanel by (simp add: show_panel_def active_keeps_inv active_setup)
next
  case ManagerPanel
  then have "dk_lock d = DesktopActive" by (auto simp: panel_of_def split: vault_ui_phase.splits desktop_lock.splits)
  then show ?thesis
    unfolding ManagerPanel show_panel_def Let_def panel.case
    by (rule ends_dbind [OF ends_mono [OF ends_show_unlocked]], intro ends_if active_keeps_inv keeps_intros ends_dpure) simp_all
qed (use assms in \<open>auto simp: show_panel_def intro: ends_dpure ends_keeps [OF locked.keeps_show_first_run]
    ends_keeps [OF locked.keeps_show_locked] ends_keeps [OF locked.keeps_show_recovery] ends_keeps [OF inv_app_locked]\<close>)

lemma inv_frame: "keeps window_inv (update_window fr)"
proof -
  have panel: "keeps window_inv (dbind (look (panel_of q)) (\<lambda>panel. show_panel io panel input))" for q io input
    by (auto simp: keeps_def intro!: ends_dbind ends_look ends_show_panel)
  show ?thesis
    unfolding update_window_def Let_def
    by (intro keeps_intros panel inv_touch locked.keeps_process_tray locked.keeps_process_external_lock locked.keeps_handle_idle_timeout
      locked.keeps_process_app_lock_result locked.keeps_synchronize_phase locked.keeps_refresh_agent_grants
      locked.keeps_show_unlock_request locked.kept_close_request locked.kept_exposure_scan)
qed

end
