(* ===== verification/Ladon_Window_Safety.thy ===== *)
theory Ladon_Window_Safety
  imports Ladon_Window_Properties
begin

text \<open>
  What holds of the desktop window over whole frames, with frames that are evaluated: a locked window is empty, a shut window stays
  shut without authentication, and a lock of the vault that meets the lock of an agent does not lock.
\<close>

section \<open>Frames\<close>

fun run_frames :: "('r, 'w) frame list \<Rightarrow> ('r, 'w, unit) desk" where
  "run_frames [] = dpure ()"
| "run_frames (fr # frs) = dthen (update_window fr) (run_frames frs)"

lemma inv_run_frames: "keeps window_inv (run_frames frs)"
  by (induction frs) (auto intro!: keeps_intros inv_frame)

text \<open>C9: whatever the user, the tray, Touch ID, the agents and the other threads do, frame after frame, a window that is locking or
  locked holds no value, draft, selection, authorization, consent, session or agent data, waits for no Touch ID answer
  but the one that unlocks it, and its lock carries the epoch the broker gave it.\<close>

theorem locked_window_empty:
  assumes "run_frames frs ds = Some ((), ds')" "ds_desktop ds = new_desktop p"
  shows "window_inv (ds_desktop ds')"
proof -
  have "window_inv (ds_desktop ds)" using assms(2) by (simp add: new_desktop_def)
  then have "ends (run_frames frs) (ds_desktop ds) (\<lambda>_. window_inv)" by (rule ends_keeps [OF inv_run_frames])
  then show ?thesis using assms(1) by (rule endsD)
qed

definition demo_desk_io :: "byte desk_io" where
  "demo_desk_io = \<lparr>io_env = quiet_env, io_libs = demo_libs, io_commit = demo_io, io_parent = Inr (), io_open_first = IoOk, io_open_second = IoOk,
     io_kdf = demo_kdf, io_fill = Some [7], io_clock = utc_clock, io_time = 0, io_touch_available = False, io_touch_start = Inl ProcessFailure,
     io_spawned = True, io_same_run = False, io_fresh = 50, io_fresh_session = 51\<rparr>"

definition demo_frame :: "bool \<Rightarrow> tray_action list \<Rightarrow> user_input option \<Rightarrow> (unit, byte) frame" where
  "demo_frame touch tray input = (let io = demo_desk_io\<lparr>io_touch_available := touch\<rparr> in
     \<lparr>fr_tray = map (Pair io) tray, fr_has_tray = True, fr_close = False, fr_lock_io = io, fr_idle_io = io, fr_io = io, fr_app_lock = NoResult,
      fr_touch = TouchWaiting, fr_home = False, fr_scan_spawned = False, fr_scan = ScanRunning, fr_input = input\<rparr>)"

definition demo_desk :: "unit desktop \<Rightarrow> nat \<Rightarrow> agent_world \<Rightarrow> (unit, byte) desk_state" where
  "demo_desk d k w = \<lparr>ds_desktop = d, ds_broker = state_at k w [], ds_files = \<lparr>w_random = 0, w_disk = Map.empty\<rparr>\<rparr>"

lemma demo_run [simp]:
  "dpure x (demo_desk d k w) = Some (x, demo_desk d k w)"
  "dbind (look g) h (demo_desk d k w) = h (g d) (demo_desk d k w)"
  "change c (demo_desk d k w) = Some ((), demo_desk (c d) k w)"
  "dbind (controller_view quiet_env v) h (demo_desk d k w) = h (v (aw_controller w)) (demo_desk d (Suc k) w)"
  by (simp_all add: demo_desk_def dpure_def dbind_def look_def change_def controller_view_def with_controller_def on_files_def state_at_def quiet_env_def Let_def)

lemma demo_run_more:
  "m (demo_desk d k w) = Some (x, demo_desk d' k' w') \<Longrightarrow> dbind m h (demo_desk d k w) = h x (demo_desk d' k' w')"
  "m (demo_desk d k w) = Some (x, demo_desk d' k' w') \<Longrightarrow> dthen m n (demo_desk d k w) = n (demo_desk d' k' w')"
  by (simp_all add: dthen_def dbind_def)

lemma demo_call: "dk_broker d \<Longrightarrow> dbind (broker_call (reading_of quiet_env f)) h (demo_desk d k w) = h (f demo_reading w) (demo_desk d (Suc k) w)"
  by (simp add: broker_call_def demo_desk_def dbind_def look_def call_def reading_of_def quiet_act)

definition demo_waits :: "agent_world \<Rightarrow> bool" where
  "demo_waits w = (aw_controller w = demo_open demo_uv \<and> (case aw_ui w of None \<Rightarrow> False | Some u \<Rightarrow>
     pending_lock_request u = None \<and> pending_unlock_request (ul_unlock_requests u) = None))"

lemma demo_idle: "k < 100 \<Longrightarrow> aw_controller w = demo_open demo_uv \<Longrightarrow>
    dbind (with_controller quiet_env (\<lambda>now vc files. (remaining_unlocked now vc = Some 0, vc, files))) h (demo_desk d k w) =
    h False (demo_desk d (Suc k) w)"
  by (simp add: demo_desk_def dbind_def with_controller_def on_files_def state_at_def quiet_env_def remaining_unlocked_def demo_open_def
      DEFAULT_IDLE_TIMEOUT_def from_secs_def nanos_per_sec_def)

lemma demo_no_lock:
  "demo_waits w \<Longrightarrow> dk_broker d \<Longrightarrow> io_env io = quiet_env \<Longrightarrow> process_external_lock io (demo_desk d k w) = Some ((), demo_desk d (Suc k) w)"
  by (auto simp: process_external_lock_def pending_external_lock_def demo_call demo_waits_def split: option.splits)

lemma demo_no_request:
  "demo_waits w \<Longrightarrow> dk_broker d \<Longrightarrow> io_env io = quiet_env \<Longrightarrow>
     show_unlock_request io b (demo_desk d k w) = Some ((), demo_desk (d\<lparr>dk_focused_unlock := None\<rparr>) (Suc k) w)"
  by (auto simp: show_unlock_request_def local_pending_unlock_def demo_call demo_waits_def split: option.splits)

lemma demo_quiet:
  "process_tray [] io False (demo_desk d k w) = Some ((), demo_desk d k w)"
  "process_app_lock_result io NoResult (demo_desk d k w) = Some ((), demo_desk d k w)"
  "process_touch_id_result io TouchWaiting (demo_desk d k w) = Some ((), demo_desk d k w)"
  "dk_lock d \<noteq> DesktopActive \<Longrightarrow> refresh_agent_grants io (demo_desk d k w) = Some ((), demo_desk (clear_agent_grants d) k w)"
  "synchronize_phase io PhaseUnlocked (demo_desk d k w) = Some ((), demo_desk (d\<lparr>dk_last_phase := PhaseUnlocked\<rparr>) k w)"
  by (simp_all add: process_app_lock_result_def process_touch_id_result_def refresh_agent_grants_def synchronize_phase_def dthen_def
      split: option.split) (simp_all add: dbind_def)

lemma scan_keeps [simp]:
  "dk_lock (show_exposure_scan h s c i d) = dk_lock d" "dk_lock_epoch (show_exposure_scan h s c i d) = dk_lock_epoch d"
  "dk_local_pin (show_exposure_scan h s c i d) = dk_local_pin d" "dk_session_confirmation (show_exposure_scan h s c i d) = dk_session_confirmation d"
  "dk_unlock_pin_visible (show_exposure_scan h s c i d) = dk_unlock_pin_visible d" "dk_broker (show_exposure_scan h s c i d) = dk_broker d"
  by (simp_all add: show_exposure_scan_def start_exposure_scan_def Let_def split: option.split)

lemma grants_keep [simp]:
  "dk_broker (clear_agent_grants d) = dk_broker d" "dk_unlock_pin_visible (clear_agent_grants d) = dk_unlock_pin_visible d"
  by (simp_all add: clear_agent_grants_def)

lemma close_not_asked [simp]: "close_request False p d = d"
  by (simp add: close_request_def)

definition demo_window :: "unit desktop" where
  "demo_window = (new_desktop PhaseUnlocked)\<lparr>dk_session_confirmation := Some (with_pin demo_pin), dk_lock := DesktopLocked 1, dk_lock_epoch := 1,
     dk_unlock_pin_visible := True, dk_local_pin := ascii ''1111''\<rparr>"

lemma demo_frame_locked:
  assumes "dk_broker d" "dk_lock d \<noteq> DesktopActive" "demo_waits w" "Suc k < 100"
  shows "\<exists>d' k'. update_window (demo_frame touch [] input) (demo_desk d k w) =
     show_panel (demo_desk_io\<lparr>io_touch_available := touch\<rparr>) (panel_of PhaseUnlocked d') input (demo_desk d' k' w) \<and>
     dk_lock d' = dk_lock d \<and> dk_lock_epoch d' = dk_lock_epoch d \<and> dk_local_pin d' = dk_local_pin d \<and>
     dk_session_confirmation d' = dk_session_confirmation d \<and> dk_unlock_pin_visible d' = dk_unlock_pin_visible d"
proof -
  have io: "io_env (demo_desk_io\<lparr>io_touch_available := touch\<rparr>) = quiet_env" by (simp add: demo_desk_io_def)
  have unl: "phase (demo_open demo_uv) = PhaseUnlocked" "aw_controller w = demo_open demo_uv"
    using assms(3) by (simp_all add: demo_waits_def demo_open_def phase_def)
  let ?d = "(show_exposure_scan False False ScanRunning input (clear_agent_grants (d\<lparr>dk_last_phase := PhaseUnlocked\<rparr>)))\<lparr>dk_focused_unlock := None\<rparr>"
  show ?thesis
    using assms unfolding update_window_def demo_frame_def Let_def
    by (intro exI [of _ ?d] exI [of _ "Suc (Suc (Suc (Suc k)))"])
      (simp add: demo_run_more(2) demo_quiet demo_no_lock demo_no_request demo_idle unl io)
qed

lemma demo_view: "controller_view quiet_env v (demo_desk d k w) = Some (v (aw_controller w), demo_desk d (Suc k) w)"
  by (simp add: demo_desk_def controller_view_def with_controller_def on_files_def state_at_def quiet_env_def Let_def)

lemma demo_context:
  "dk_lock d = DesktopLocked e \<Longrightarrow> dk_lock_epoch d = e \<Longrightarrow> demo_waits w \<Longrightarrow> io_env io = quiet_env \<Longrightarrow>
     current_app_unlock_context io (demo_desk d k w) = Some (Some (1, e), demo_desk d (Suc k) w)"
  by (simp add: current_app_unlock_context_def demo_view demo_waits_def demo_open_def phase_def)

lemma demo_check:
  "dk_session_confirmation d = Some (with_pin demo_pin) \<Longrightarrow> dk_local_pin d = ascii ''1111'' \<Longrightarrow> io_kdf io = demo_kdf \<Longrightarrow>
     check_pin io (demo_desk d k w) = Some (Inr (PinRejected 4),
       demo_desk (d\<lparr>dk_session_confirmation := Some ((with_pin demo_pin)\<lparr>sc_failed_pin_attempts := 1\<rparr>), dk_local_pin := []\<rparr>) k w)"
  by (simp add: check_pin_def demo_desk_def verify_pin_def with_pin_def session_pin_verify_def derive_def demo_kdf_def demo_pin_def ascii_def
      saturating_add_def MAX_FAILED_PIN_ATTEMPTS_def word_le_nat_alt Let_def)

lemma demo_wrong_pin_returns:
  "\<exists>ds'. update_window (demo_frame False [] (Some ClickPinUnlock)) (demo_desk demo_window 0 (granted_world\<lparr>aw_ui := Some new_ui_lock\<rparr>)) = Some ((), ds')"
proof -
  let ?w = "granted_world\<lparr>aw_ui := Some new_ui_lock\<rparr>" and ?io = "demo_desk_io\<lparr>io_touch_available := False\<rparr>"
  have w: "demo_waits ?w"
    by (simp add: demo_waits_def granted_world_def new_ui_lock_def pending_lock_request_def pending_unlock_request_def default_unlock_requests_def)
  obtain d k where d: "update_window (demo_frame False [] (Some ClickPinUnlock)) (demo_desk demo_window 0 ?w) =
      show_panel ?io (panel_of PhaseUnlocked d) (Some ClickPinUnlock) (demo_desk d k ?w)"
    "dk_lock d = DesktopLocked 1" "dk_lock_epoch d = 1" "dk_local_pin d = ascii ''1111''" "dk_session_confirmation d = Some (with_pin demo_pin)"
    "dk_unlock_pin_visible d"
    using demo_frame_locked [of demo_window ?w 0 False "Some ClickPinUnlock"] w by (auto simp: demo_window_def new_desktop_def)
  show ?thesis
    unfolding d(1)
    by (simp add: panel_of_def show_panel_def show_app_locked_def d demo_run_more(2),
        simp add: d authenticate_app_pin_def demo_run_more demo_context demo_check after_pin_def w demo_desk_io_def)
qed

lemma demo_tray:
  assumes "process_tray (map (Pair (demo_desk_io\<lparr>io_touch_available := touch\<rparr>)) tray) (demo_desk_io\<lparr>io_touch_available := touch\<rparr>) False (demo_desk d k w) =
    Some ((), demo_desk d' k' w')"
  shows "update_window (demo_frame touch tray input) (demo_desk d k w) = update_window (demo_frame touch [] input) (demo_desk d' k' w')"
proof -
  have fields: "fr_tray (demo_frame touch tr input) = map (Pair (demo_desk_io\<lparr>io_touch_available := touch\<rparr>)) tr"
    "fr_has_tray (demo_frame touch tr input)" "\<not> fr_close (demo_frame touch tr input)"
    "fr_lock_io (demo_frame touch tr input) = demo_desk_io\<lparr>io_touch_available := touch\<rparr>"
    "fr_idle_io (demo_frame touch tr input) = demo_desk_io\<lparr>io_touch_available := touch\<rparr>"
    "fr_io (demo_frame touch tr input) = demo_desk_io\<lparr>io_touch_available := touch\<rparr>"
    "fr_app_lock (demo_frame touch tr input) = NoResult" "fr_touch (demo_frame touch tr input) = TouchWaiting"
    "\<not> fr_home (demo_frame touch tr input)" "\<not> fr_scan_spawned (demo_frame touch tr input)"
    "fr_scan (demo_frame touch tr input) = ScanRunning" "fr_input (demo_frame touch tr input) = input" for tr
    by (simp_all add: demo_frame_def Let_def)
  show ?thesis
    unfolding update_window_def Let_def by (simp add: fields assms demo_run_more(2) demo_quiet cong: if_cong)
qed

lemma demo_lock_app:
  "\<exists>d' k' w'. process_tray (map (Pair (demo_desk_io\<lparr>io_touch_available := True\<rparr>)) [TrayLockApp]) (demo_desk_io\<lparr>io_touch_available := True\<rparr>) False
      (demo_desk (new_desktop PhaseUnlocked) 0 (granted_world\<lparr>aw_ui := Some new_ui_lock\<rparr>)) = Some ((), demo_desk d' k' w') \<and>
      dk_lock d' = DesktopLocking 1 \<and> dk_broker d' \<and> k' < 50 \<and> demo_waits w'"
proof -
  let ?w = "granted_world\<lparr>aw_ui := Some new_ui_lock\<rparr>"
  have "\<exists>w'. start_app_lock quiet_env True (state_at 0 ?w []) = Some (Inr 1, state_at (Suc (Suc (Suc 0))) w' []) \<and>
      aw_controller w' = demo_open demo_uv \<and> aw_ui w' = Some (new_ui_lock\<lparr>ul_local_operation := True\<rparr>)"
    by (simp add: start_app_lock_def hbind_def try_local_def quiet_act on_ui_def try_begin_local_operation_def new_ui_lock_def
      on_error_def on_approval_def begin_app_lock_def begin_app_lock_with_policy_def granted_world_def granted_state_def is_app_active_def
      checked_add_def pure_def Let_def) (rule exI, rule conjI, rule refl, simp)
  then obtain w' where w': "start_app_lock quiet_env True (state_at 0 ?w []) = Some (Inr 1, state_at (Suc (Suc (Suc 0))) w' [])" "demo_waits w'"
    by (auto simp: demo_waits_def new_ui_lock_def pending_lock_request_def pending_unlock_request_def default_unlock_requests_def)
  let ?d = "new_desktop PhaseUnlocked :: unit desktop"
  let ?d' = "clear_for_app_lock (?d\<lparr>dk_lock_epoch := 1, dk_lock := DesktopLocking 1, dk_pending_app_lock := Some 1\<rparr>)"
  have "broker_call (start_app_lock quiet_env True) (demo_desk ?d 0 ?w) = Some (Inr 1, demo_desk ?d (Suc (Suc (Suc 0))) w')"
    using w'(1) by (simp add: broker_call_def demo_desk_def dbind_def look_def call_def new_desktop_def)
  then have "process_tray (map (Pair (demo_desk_io\<lparr>io_touch_available := True\<rparr>)) [TrayLockApp]) (demo_desk_io\<lparr>io_touch_available := True\<rparr>) False
      (demo_desk ?d 0 ?w) = Some ((), demo_desk ?d' (Suc (Suc (Suc 0))) w')"
    by (simp add: tray_event_def lock_app_def begin_interface_lock_def demo_run_more demo_quiet demo_desk_io_def new_desktop_def)
  then show ?thesis
    using w'(2) by (intro exI [of _ ?d'] exI [of _ "Suc (Suc (Suc 0))"] exI [of _ w'] conjI)
      (simp_all add: clear_for_app_lock_def clear_sensitive_buffers_def clear_unlock_fields_def clear_agent_grants_def new_desktop_def)
qed

theorem locked_window_empty_witness:
  "\<exists>ds'. run_frames [demo_frame True [TrayLockApp] None] (demo_desk (new_desktop PhaseUnlocked) 0 (granted_world\<lparr>aw_ui := Some new_ui_lock\<rparr>)) = Some ((), ds') \<and>
     dk_lock (ds_desktop ds') = DesktopLocking 1 \<and> window_inv (ds_desktop ds')"
proof -
  let ?ds = "demo_desk (new_desktop PhaseUnlocked) 0 (granted_world\<lparr>aw_ui := Some new_ui_lock\<rparr>)"
  obtain d k w where t: "process_tray (map (Pair (demo_desk_io\<lparr>io_touch_available := True\<rparr>)) [TrayLockApp]) (demo_desk_io\<lparr>io_touch_available := True\<rparr>) False
      ?ds = Some ((), demo_desk d k w)" "dk_lock d = DesktopLocking 1" "dk_broker d" "k < 50" "demo_waits w"
    using demo_lock_app by blast
  obtain d' k' where "update_window (demo_frame True [] None) (demo_desk d k w) =
      show_panel (demo_desk_io\<lparr>io_touch_available := True\<rparr>) (panel_of PhaseUnlocked d') None (demo_desk d' k' w)" "dk_lock d' = DesktopLocking 1"
    using demo_frame_locked [of d w k True None] t by auto
  then have r: "run_frames [demo_frame True [TrayLockApp] None] ?ds = Some ((), demo_desk d' k' w)"
    using demo_tray [OF t(1), of None] by (simp add: panel_of_def show_panel_def dthen_def dbind_def)
  have "ds_desktop ?ds = new_desktop PhaseUnlocked" "ds_desktop (demo_desk d' k' w) = d'" by (simp_all add: demo_desk_def)
  with locked_window_empty [OF r] r \<open>dk_lock d' = DesktopLocking 1\<close> show ?thesis by metis
qed

text \<open>C3: a window that is shut (locked, or emptied by a lock of the vault) stays shut through a frame in which Touch ID does not
  succeed, no PIN is set up and the PIN entered, if any, is wrong: it shows no secret and no request of an agent.\<close>

theorem shut_window_needs_authentication:
  assumes "update_window fr ds = Some ((), ds')" "window_shut (ds_desktop ds)"
    and "no_authentication (Option.bind (dk_session_confirmation (ds_desktop ds)) sc_pin) (dk_local_pin (ds_desktop ds)) fr"
  shows "window_shut (ds_desktop ds') \<and> panel_of q (ds_desktop ds') \<noteq> ManagerPanel"
proof -
  have "guarded (Option.bind (dk_session_confirmation (ds_desktop ds)) sc_pin) (dk_local_pin (ds_desktop ds)) (ds_desktop ds)"
    using assms(2) by (simp add: guarded_def)
  then have "window_shut (ds_desktop ds')" by (rule endsD [OF ends_guarded_frame [OF _ assms(3)] assms(1)])
  then show ?thesis
    by (auto simp: panel_of_def window_shut_def window_forgotten_def split: vault_ui_phase.splits desktop_lock.splits)
qed

theorem shut_window_needs_authentication_witness:
  "\<exists>ds'. update_window (demo_frame False [] (Some ClickPinUnlock)) (demo_desk demo_window 0 (granted_world\<lparr>aw_ui := Some new_ui_lock\<rparr>)) = Some ((), ds') \<and>
     window_shut (ds_desktop ds')"
proof -
  let ?ds = "demo_desk demo_window 0 (granted_world\<lparr>aw_ui := Some new_ui_lock\<rparr>)"
  obtain ds' where r: "update_window (demo_frame False [] (Some ClickPinUnlock)) ?ds = Some ((), ds')"
    using demo_wrong_pin_returns by blast
  have "window_shut (ds_desktop ?ds)"
    by (simp add: demo_desk_def demo_window_def new_desktop_def window_shut_def window_clean_def touch_clean_def detail_clean_def default_detail_state_def)
  moreover have "no_authentication (Option.bind (dk_session_confirmation (ds_desktop ?ds)) sc_pin) (dk_local_pin (ds_desktop ?ds))
      (demo_frame False [] (Some ClickPinUnlock))"
    by (simp add: no_authentication_def pin_wrong_def demo_frame_def demo_desk_def demo_window_def demo_desk_io_def with_pin_def demo_pin_def
        session_pin_verify_def derive_def demo_kdf_def ascii_def Let_def)
  ultimately show ?thesis using shut_window_needs_authentication [OF r, of PhaseUnlocked] r by blast
qed

section \<open>A lock of the vault during the lock of an agent\<close>

text \<open>An agent has asked for a lock that waits for a command to end: the vault is still open.\<close>

definition agent_locking :: "agent_world \<Rightarrow> bool" where
  "agent_locking w =
     (phase (aw_controller w) = PhaseUnlocked \<and>
      (case aw_ui w of None \<Rightarrow> False | Some u \<Rightarrow> ul_connected u \<and> ul_requested u > ul_acknowledged u))"

lemma agent_locking_frame [simp]:
  "agent_locking (w\<lparr>aw_approval := st\<rparr>) = agent_locking w" "agent_locking (w\<lparr>aw_runs := co\<rparr>) = agent_locking w"
  by (simp_all add: agent_locking_def)

definition stays_locking :: "'a handler \<Rightarrow> bool" where
  "stays_locking m = (\<forall>s. agent_locking (hs_world s) \<longrightarrow> (\<exists>x s'. m s = Some (x, s') \<and> agent_locking (hs_world s')))"

lemma stays_locking_act:
  assumes "others_keep env agent_locking" "\<And>r now w. agent_locking w \<Longrightarrow> agent_locking (snd (f r now w))"
  shows "stays_locking (act env f)"
  unfolding stays_locking_def
proof (intro allI impI)
  fix s :: handler_state assume "agent_locking (hs_world s)"
  then have "agent_locking (en_others env (hs_turn s) (hs_world s))" using assms(1) by (simp add: others_keep_def)
  then show "\<exists>x s'. act env f s = Some (x, s') \<and> agent_locking (hs_world s')"
    using assms(2) [of "en_others env (hs_turn s) (hs_world s)" "en_reading env (hs_turn s)" "en_now env (hs_turn s)"]
    by (auto simp: act_def critical_def split: prod.split)
qed

lemma stays_locking_rules:
  "stays_locking (pure x)" "stays_locking m \<Longrightarrow> stays_locking (attempt m)"
  "stays_locking m \<Longrightarrow> (\<And>y. stays_locking (f y)) \<Longrightarrow> stays_locking (hbind m f)"
  unfolding stays_locking_def
  by (simp_all add: pure_def attempt_def hbind_def) (fastforce, (fastforce split: sum.split))

lemma stays_locking_wait:
  assumes keep: "others_keep env agent_locking" and "stays_locking otherwise"
  shows "stays_locking (wait_local env otherwise m)"
  unfolding stays_locking_def
proof (intro allI impI)
  fix s :: handler_state assume s: "agent_locking (hs_world s)"
  let ?w = "en_others env (hs_turn s) (hs_world s)" let ?s = "s\<lparr>hs_turn := Suc (hs_turn s), hs_world := ?w\<rparr>"
  let ?w' = "en_others env (Suc (hs_turn s)) ?w" let ?s' = "s\<lparr>hs_turn := Suc (Suc (hs_turn s)), hs_world := ?w'\<rparr>"
  have w: "agent_locking ?w" using s keep by (simp add: others_keep_def)
  then have w': "agent_locking ?w'" using keep by (simp add: others_keep_def)
  have "await env (\<lambda>r now w. on_ui wait_begin_local_operation (Some (Inl EndpointUnavailable)) w) ?s = Some (Inr False, ?s')"
    using w' by (subst await.simps) (auto simp: critical_def on_ui_def agent_locking_def wait_begin_local_operation_def split: option.splits)
  moreover have "reading_of env (\<lambda>r w. Inr (aw_ui w \<noteq> None)) s = Some (Inr True, ?s)"
    using w by (auto simp: reading_of_def act_def critical_def agent_locking_def split: option.splits)
  ultimately have "wait_local env otherwise m s = otherwise ?s'"
    by (simp add: wait_local_def hbind_def)
  then show "\<exists>x s'. wait_local env otherwise m s = Some (x, s') \<and> agent_locking (hs_world s')"
    using assms(2) w' by (auto simp: stays_locking_def)
qed

lemma stays_locking_lock: "others_keep env agent_locking \<Longrightarrow> stays_locking (cancel_active_run_and_lock env)"
  unfolding cancel_active_run_and_lock_def cancel_approvals_def revoke_everything_def cancel_active_run_def
  by (intro stays_locking_rules stays_locking_act stays_locking_wait) (auto simp: on_approval_def split: prod.split)


text \<open>C38: while an agent's lock waits for a command to end, \<open>Lock vault completely\<close> (like five wrong PINs) reports success
  without locking: the vault stays open, the window forgets how the session was protected, and whoever sits at it sets a PIN of
  their own and has the manager before them.\<close>

theorem agent_lock_reopens_window:
  assumes "others_keep (io_env io) agent_locking" "agent_locking (hs_world (ds_broker ds))" "dk_broker (ds_desktop ds)"
    and "new_session_pin (io_kdf io) (io_fill io) pin pin = Inr p"
  shows "\<exists>ds'. dthen (lock_immediately io)
       (dthen (show_panel io SetupPanel (Some (TypeSessionPin pin)))
       (dthen (show_panel io SetupPanel (Some (TypePinAgain pin))) (show_panel io SetupPanel (Some ClickSetPin)))) ds = Some ((), ds') \<and>
     panel_of (phase (aw_controller (hs_world (ds_broker ds')))) (ds_desktop ds') = ManagerPanel \<and>
     dk_session_confirmation (ds_desktop ds') = Some (with_pin p)"
proof -
  obtain x s where l: "cancel_active_run_and_lock (io_env io) (ds_broker ds) = Some (x, s)" "agent_locking (hs_world s)"
    using stays_locking_lock [OF assms(1)] assms(2) by (auto simp: stays_locking_def)
  then have c: "phase (aw_controller (hs_world s)) = PhaseUnlocked" by (simp add: agent_locking_def)
  obtain ds1 where d: "lock_immediately io ds = Some ((), ds1)" "ds_broker ds1 = s"
    using l assms(3) by (simp add: lock_immediately_def dbind_def look_def call_def finish_immediate_lock_def change_def)
  have "window_wiped (ds_desktop ds1)"
    using endsD [OF ends_lock_immediately [where Q = "\<lambda>_. window_wiped"] d(1)] by simp
  then have a: "dk_lock (ds_desktop ds1) = DesktopActive" by (simp add: window_wiped_def window_forgotten_def)
  show ?thesis
    using d a c assms(4)
    by (simp add: dthen_def dbind_def show_panel_def show_session_auth_setup_def change_def panel_of_def tell_def)
qed

theorem agent_lock_reopens_window_witness:
  "\<exists>ds'. dthen (lock_immediately demo_desk_io)
       (dthen (show_panel demo_desk_io SetupPanel (Some (TypeSessionPin (ascii ''2468''))))
       (dthen (show_panel demo_desk_io SetupPanel (Some (TypePinAgain (ascii ''2468'')))) (show_panel demo_desk_io SetupPanel (Some ClickSetPin))))
     (demo_desk demo_window 0 (busy_world\<lparr>aw_ui := Some (new_ui_lock\<lparr>ul_requested := 1\<rparr>)\<rparr>)) = Some ((), ds') \<and>
     panel_of (phase (aw_controller (hs_world (ds_broker ds')))) (ds_desktop ds') = ManagerPanel"
proof -
  let ?w = "busy_world\<lparr>aw_ui := Some (new_ui_lock\<lparr>ul_requested := 1\<rparr>)\<rparr>"
  have "others_keep (io_env demo_desk_io) agent_locking" by (simp add: others_keep_def demo_desk_io_def quiet_env_def)
  moreover have "agent_locking (hs_world (ds_broker (demo_desk demo_window 0 ?w)))"
    by (simp add: demo_desk_def state_at_def agent_locking_def busy_world_def granted_world_def demo_open_def phase_def new_ui_lock_def)
  moreover have "dk_broker (ds_desktop (demo_desk demo_window 0 ?w))"
    by (simp add: demo_desk_def demo_window_def new_desktop_def)
  moreover have "new_session_pin (io_kdf demo_desk_io) (io_fill demo_desk_io) (ascii ''2468'') (ascii ''2468'') = Inr demo_pin"
    using demo_pin_new by (simp add: demo_desk_io_def)
  ultimately show ?thesis using agent_lock_reopens_window by blast
qed

text \<open>A window that was locked while the vault was: Touch ID never unlocks it.\<close>

lemma unconfirmed_window_stays_locked:
  assumes "finish_app_unlock_touch_id io session epoch ds = Some ((), ds')" "dk_session_confirmation (ds_desktop ds) = None"
  shows "dk_lock (ds_desktop ds') = dk_lock (ds_desktop ds)"
proof -
  have "ends (finish_app_unlock_touch_id io session epoch) (ds_desktop ds) (\<lambda>_ d'. dk_lock d' = dk_lock (ds_desktop ds))"
    unfolding finish_app_unlock_touch_id_def current_app_unlock_context_def
    using assms(2) by (auto intro!: ends_intros simp: reject_stale_app_unlock_def split: desktop_lock.split)
  then show ?thesis using assms(1) by (rule endsD)
qed

end
