(* ===== verification/Ladon_Text.thy ===== *)
theory Ladon_Text
  imports Ladon_Runner
begin

text \<open>
  Methods of \<open>str\<close> that the search for plain secrets and the command line use: searching, splitting and parsing. A text is its UTF-8 bytes.
\<close>

section \<open>Texts\<close>

definition find_sub :: "str \<Rightarrow> str \<Rightarrow> nat option" where
  "find_sub needle s = List.find (\<lambda>i. take (length needle) (drop i s) = needle) [0..<Suc (length s) - length needle]"

definition contains_sub :: "str \<Rightarrow> str \<Rightarrow> bool" where
  "contains_sub needle s = (find_sub needle s \<noteq> None)"

definition split_once :: "str \<Rightarrow> str \<Rightarrow> (str \<times> str) option" where
  "split_once needle s = map_option (\<lambda>i. (take i s, drop (i + length needle) s)) (find_sub needle s)"

definition rsplit_once :: "byte \<Rightarrow> str \<Rightarrow> (str \<times> str) option" where
  "rsplit_once b s =
     (if b \<in> set s then Some (rev (tl (dropWhile (\<lambda>c. c \<noteq> b) (rev s))), rev (takeWhile (\<lambda>c. c \<noteq> b) (rev s))) else None)"

definition ends_with :: "str \<Rightarrow> str \<Rightarrow> bool" where
  "ends_with ending s = (length ending \<le> length s \<and> drop (length s - length ending) s = ending)"

definition to_ascii_lowercase :: "str \<Rightarrow> str" where
  "to_ascii_lowercase s = map (\<lambda>b. if 0x41 \<le> b \<and> b \<le> 0x5a then b + 0x20 else b) s"

definition trim_matches :: "byte set \<Rightarrow> str \<Rightarrow> str" where
  "trim_matches bs s = rev (dropWhile (\<lambda>b. b \<in> bs) (rev (dropWhile (\<lambda>b. b \<in> bs) s)))"

text \<open>\<open>split_inclusive\<close> at line ends, and \<open>lines\<close>.\<close>

function split_lines :: "str \<Rightarrow> str list" where
  "split_lines s =
     (if s = [] then []
      else case find_sub [0x0a] s of
        None \<Rightarrow> [s]
      | Some i \<Rightarrow> take (Suc i) s # split_lines (drop (Suc i) s))"
  by pat_completeness auto

termination by (relation "measure length") auto

declare split_lines.simps [simp del]

definition strip_line_end :: "str \<Rightarrow> str" where
  "strip_line_end l =
     (if ends_with [0x0d, 0x0a] l then take (length l - 2) l else if ends_with [0x0a] l then take (length l - 1) l else l)"

definition lines_of :: "str \<Rightarrow> str list" where
  "lines_of s = map strip_line_end (split_lines s)"

definition is_ascii_whitespace :: "byte \<Rightarrow> bool" where
  "is_ascii_whitespace b = (b \<in> {0x20, 0x09, 0x0a, 0x0c, 0x0d})"

definition is_ascii_lowercase :: "byte \<Rightarrow> bool" where
  "is_ascii_lowercase b = (0x61 \<le> b \<and> b \<le> 0x7a)"

definition is_ascii_uppercase :: "byte \<Rightarrow> bool" where
  "is_ascii_uppercase b = (0x41 \<le> b \<and> b \<le> 0x5a)"

text \<open>\<open>split\<close> at a byte, with the part before it so far, and \<open>rsplit_once\<close> at a text.\<close>

fun split_at :: "byte \<Rightarrow> str \<Rightarrow> str \<Rightarrow> str list" where
  "split_at c acc [] = [acc]"
| "split_at c acc (b # bs) = (if b = c then acc # split_at c [] bs else split_at c (acc @ [b]) bs)"

definition rfind_sub :: "str \<Rightarrow> str \<Rightarrow> nat option" where
  "rfind_sub needle s = List.find (\<lambda>i. take (length needle) (drop i s) = needle) (rev [0..<Suc (length s) - length needle])"

definition rsplit_once_at :: "str \<Rightarrow> str \<Rightarrow> (str \<times> str) option" where
  "rsplit_once_at needle s = map_option (\<lambda>i. (take i s, drop (i + length needle) s)) (rfind_sub needle s)"

text \<open>\<open>parse::<u64>()\<close>: digits after an optional plus sign, in range.\<close>

definition digits_value :: "str \<Rightarrow> nat" where
  "digits_value s = foldl (\<lambda>n b. n * 10 + (unat b - 48)) 0 s"

definition parse_u64 :: "str \<Rightarrow> nat option" where
  "parse_u64 s =
     (let ds = (case strip_prefix (ascii ''+'') s of Some r \<Rightarrow> r | None \<Rightarrow> s)
      in if ds \<noteq> [] \<and> list_all is_ascii_digit ds \<and> digits_value ds < 2 ^ 64 then Some (digits_value ds) else None)"

end
