(* ===== verification/Ladon_Scan_Properties.thy ===== *)
theory Ladon_Scan_Properties
  imports Ladon_Scan
begin

text \<open>
  The search for plain secrets, step by step: the detections of a text, the lines they are reported at, what happens to one file,
  and the locale of the relations between states that a whole scan keeps once its small steps do.
\<close>

section \<open>Detection\<close>

definition candidates :: "scan_lib \<Rightarrow> str \<Rightarrow> detection list" where
  "candidates lib t = pattern_detections lib t @ List.map_filter (classify_assignment lib t) (sl_assignments lib t)"

definition covered_by :: "detection list \<Rightarrow> detection \<Rightarrow> bool" where
  "covered_by found c = (\<exists>d \<in> set found. d = c \<or> overlaps (de_range d) (de_range c))"

definition apart :: "detection \<Rightarrow> detection \<Rightarrow> bool" where
  "apart d e = (\<not> overlaps (de_range d) (de_range e))"

lemma apart_commute: "apart d e = apart e d"
  by (auto simp: apart_def overlaps_def)

lemma covered_by_mono: "covered_by found c \<Longrightarrow> set found \<subseteq> set found' \<Longrightarrow> covered_by found' c"
  by (auto simp: covered_by_def)

text \<open>The detections kept so far, when each one offered is in \<open>C\<close>.\<close>

definition kept :: "detection set \<Rightarrow> nat \<Rightarrow> detection list \<Rightarrow> bool" where
  "kept C limit found = (set found \<subseteq> C \<and> length found \<le> limit \<and> sorted_wrt apart found)"

text \<open>What a step of the search does: it keeps what was found, and stops only when it is asked to or no room is left.\<close>

definition searched :: "(nat \<Rightarrow> bool) \<Rightarrow> nat \<Rightarrow> detection set \<Rightarrow> detection set \<Rightarrow> detect_state \<Rightarrow> bool \<times> detect_state \<Rightarrow> bool" where
  "searched stops limit C new s x =
     (case x of (going, s') \<Rightarrow>
        kept C limit (ds_found s') \<and> set (ds_found s) \<subseteq> set (ds_found s') \<and> ds_moment s \<le> ds_moment s' \<and>
        (going \<longrightarrow> (\<forall>d \<in> new. covered_by (ds_found s') d)) \<and>
        (\<not> going \<longrightarrow> (\<exists>k. ds_moment s \<le> k \<and> k < ds_moment s' \<and> stops k) \<or>
           length (ds_found s') = limit \<and> (\<exists>d \<in> C. \<forall>f \<in> set (ds_found s'). apart f d)))"

lemma searched_trans:
  assumes "searched stops limit C new s (True, s')" and "searched stops limit C new' s' x"
  shows "searched stops limit C (new \<union> new') s x"
  using assms by (fastforce simp: searched_def split: prod.splits intro: covered_by_mono elim: order_trans)

lemma searched_stop:
  "searched stops limit C new s (False, s') \<Longrightarrow> searched stops limit C new' s (False, s')"
  by (auto simp: searched_def)

lemma searched_refl: "kept C limit (ds_found s) \<Longrightarrow> searched stops limit C {} s (True, s)"
  by (auto simp: searched_def)

lemma searched_kept: "searched stops limit C new s (going, s') \<Longrightarrow> kept C limit (ds_found s')"
  by (simp add: searched_def)

lemma record_detection_searched:
  assumes "kept C limit (ds_found s)" and "d \<in> C"
  shows "searched stops limit C {d} s (record_detection stops limit d s)"
proof (cases "stops (ds_moment s)")
  case True
  then show ?thesis using assms by (auto simp: record_detection_def searched_def Let_def)
next
  case False
  show ?thesis
  proof (cases "list_ex (\<lambda>f. overlaps (de_range f) (de_range d)) (ds_found s)")
    case True
    then show ?thesis using False assms
      by (auto simp: record_detection_def searched_def Let_def add_detection_def covered_by_def list_ex_iff)
  next
    case apart: False
    show ?thesis
    proof (cases "length (ds_found s) \<ge> limit")
      case True
      then show ?thesis using False apart assms
        by (fastforce simp: record_detection_def searched_def Let_def add_detection_def list_ex_iff kept_def apart_def)
    next
      case room: False
      then show ?thesis using False apart assms
        by (auto simp: record_detection_def searched_def Let_def add_detection_def covered_by_def list_ex_iff kept_def
            sorted_wrt_append apart_def)
    qed
  qed
qed

lemma record_all_searched:
  assumes "kept C limit (ds_found s)" and "set ds \<subseteq> C"
  shows "searched stops limit C (set ds) s (record_all stops limit ds s)"
  using assms
proof (induction ds arbitrary: s)
  case Nil
  then show ?case by (simp add: searched_refl)
next
  case (Cons d ds)
  obtain going s' where r: "record_detection stops limit d s = (going, s')" by fastforce
  have first: "searched stops limit C {d} s (going, s')"
    using record_detection_searched [of C limit s d stops] Cons.prems r by simp
  show ?case
  proof (cases going)
    case True
    with first have "searched stops limit C (set ds) s' (record_all stops limit ds s')"
      using Cons.IH [of s'] Cons.prems(2) searched_kept by auto
    from searched_trans [OF _ this, of "{d}" s] first show ?thesis using r True by simp
  next
    case False
    with first r show ?thesis using searched_stop by simp
  qed
qed

definition asked :: "detect_state \<Rightarrow> detect_state" where
  "asked s = s\<lparr>ds_moment := Suc (ds_moment s)\<rparr>"

lemma asked_searched: "kept C limit (ds_found s) \<Longrightarrow> searched stops limit C {} s (\<not> stops (ds_moment s), asked s)"
  by (auto simp: searched_def asked_def)

lemma record_assignments_searched:
  assumes "kept C limit (ds_found s)" and "set (List.map_filter (classify_assignment lib t) as) \<subseteq> C"
  shows "searched stops limit C (set (List.map_filter (classify_assignment lib t) as)) s (record_assignments lib t stops limit as s)"
  using assms
proof (induction as arbitrary: s)
  case Nil
  then show ?case by (simp add: searched_refl List.map_filter_def)
next
  case (Cons a as)
  have ask: "searched stops limit C {} s (\<not> stops (ds_moment s), asked s)" using asked_searched Cons.prems(1) .
  have unfold: "record_assignments lib t stops limit (a # as) s =
      (if stops (ds_moment s) then (False, asked s)
       else case classify_assignment lib t a of None \<Rightarrow> record_assignments lib t stops limit as (asked s)
         | Some d \<Rightarrow> (case record_detection stops limit d (asked s) of
             (going, s'') \<Rightarrow> if going then record_assignments lib t stops limit as s'' else (False, s'')))"
    unfolding asked_def by (simp add: Let_def)
  show ?case
  proof (cases "stops (ds_moment s)")
    case True
    with ask show ?thesis unfolding unfold using searched_stop by simp
  next
    case False
    with ask have go: "searched stops limit C {} s (True, asked s)" by simp
    then have k: "kept C limit (ds_found (asked s))" by (rule searched_kept)
    show ?thesis
    proof (cases "classify_assignment lib t a")
      case None
      with Cons.IH [OF k] Cons.prems(2) searched_trans [OF go] False show ?thesis
        unfolding unfold by (simp add: List.map_filter_def)
    next
      case (Some d)
      then have d: "d \<in> C" and rest: "set (List.map_filter (classify_assignment lib t) as) \<subseteq> C"
        using Cons.prems(2) by (auto simp: List.map_filter_def)
      obtain going s'' where r: "record_detection stops limit d (asked s) = (going, s'')" by fastforce
      with record_detection_searched [OF k d, of stops] searched_trans [OF go]
      have first: "searched stops limit C {d} s (going, s'')" by (metis Un_empty_left)
      show ?thesis
      proof (cases going)
        case True
        with searched_trans [of stops limit C "{d}" s s'', OF _ Cons.IH [OF _ rest]] first searched_kept [OF first]
        show ?thesis unfolding unfold using False Some r by (simp add: List.map_filter_def)
      next
        case not: False
        with first r False Some show ?thesis unfolding unfold using searched_stop by simp
      qed
    qed
  qed
qed

lemma sorted_wrt_insort:
  "sorted_wrt apart (d # ds) \<Longrightarrow> sorted_wrt apart (insort_key f d ds)"
  by (induction ds) (auto simp: set_insort_key apart_commute)

lemma sorted_wrt_sort: "sorted_wrt apart ds \<Longrightarrow> sorted_wrt apart (sort_key f ds)"
  by (induction ds) (auto intro!: sorted_wrt_insort)

lemma detect_searched:
  assumes "detect lib t limit stops k = (found, incomplete, k')"
  obtains s where "found = sort_key (\<lambda>d. fst (de_range d)) (ds_found s)" "ds_moment s = k'"
    "searched stops limit (set (candidates lib t)) (set (candidates lib t)) \<lparr>ds_found = [], ds_moment = k\<rparr> (\<not> incomplete, s)"
proof -
  let ?C = "set (candidates lib t)" and ?s = "\<lparr>ds_found = [], ds_moment = k\<rparr>"
  obtain going s where r: "record_all stops limit (pattern_detections lib t) ?s = (going, s)" by fastforce
  have first: "searched stops limit ?C (set (pattern_detections lib t)) ?s (going, s)"
    using record_all_searched [of ?C limit ?s "pattern_detections lib t" stops] r by (auto simp: kept_def candidates_def)
  show ?thesis
  proof (cases going)
    case True
    obtain going' s' where r': "record_assignments lib t stops limit (sl_assignments lib t) s = (going', s')" by fastforce
    have "searched stops limit ?C (set (List.map_filter (classify_assignment lib t) (sl_assignments lib t))) s (going', s')"
      using record_assignments_searched [OF searched_kept [OF first], of lib t "sl_assignments lib t" stops] r'
      by (simp add: candidates_def)
    with searched_trans first True have "searched stops limit ?C ?C ?s (going', s')" by (fastforce simp: candidates_def)
    moreover have "incomplete = (\<not> going')" "found = sort_key (\<lambda>d. fst (de_range d)) (ds_found s')" "ds_moment s' = k'"
      using assms r r' True by (auto simp: detect_def)
    ultimately show ?thesis using that by simp
  next
    case False
    with first have "searched stops limit ?C ?C ?s (False, s)" using searched_stop by simp
    with that assms r False show ?thesis by (auto simp: detect_def)
  qed
qed

text \<open>The detections of a text are in its order and do not overlap, each matches a rule, and
  they are at most as many as asked for. A search that is not marked incomplete has found every match or one that overlaps it; one that is marked was
  stopped, or is full while a further match is left.\<close>

lemma detect_spec:
  assumes "detect lib t limit stops k = (found, incomplete, k')"
  shows "sorted (map (\<lambda>d. fst (de_range d)) found) \<and> sorted_wrt apart found \<and> set found \<subseteq> set (candidates lib t) \<and>
    length found \<le> limit \<and>
    (\<not> incomplete \<longrightarrow> (\<forall>c \<in> set (candidates lib t). covered_by found c)) \<and>
    (incomplete \<longrightarrow> (\<exists>j. k \<le> j \<and> j < k' \<and> stops j) \<or>
       length found = limit \<and> (\<exists>c \<in> set (candidates lib t). \<forall>f \<in> set found. apart f c))"
  using assms
  by (rule detect_searched)
    (auto simp: searched_def kept_def covered_by_def sorted_wrt_sort)

section \<open>Lines\<close>

text \<open>The finding of a detection.\<close>

definition finding_of :: "scan_path \<Rightarrow> str \<Rightarrow> detection \<Rightarrow> scan_finding" where
  "finding_of p t d =
     \<lparr>sf_path = p, sf_line = 1 + count_list (take (fst (de_range d)) t) 0x0a, sf_rule = de_rule d\<rparr>"

lemma count_take_slice: "a \<le> b \<Longrightarrow> count_list (take a t) x + count_list (slice a b t) x = count_list (take b t) x"
  by (metis count_list_append le_add_diff_inverse slice_def take_add)

lemma findings_of_lines:
  assumes "sorted (map (\<lambda>d. fst (de_range d)) ds)" and "\<forall>d \<in> set ds. previous \<le> fst (de_range d)"
  shows "findings_of t p previous (1 + count_list (take previous t) 0x0a) ds = map (finding_of p t) ds"
  using assms
proof (induction ds arbitrary: previous)
  case (Cons d ds)
  have "1 + count_list (take previous t) 0x0a + count_list (slice previous (fst (de_range d)) t) 0x0a =
      1 + count_list (take (fst (de_range d)) t) 0x0a"
    using Cons.prems(2) count_take_slice [of previous "fst (de_range d)" t "0x0a"] by simp
  with Cons.IH [of "fst (de_range d)"] Cons.prems(1) show ?case by (simp add: finding_of_def)
qed simp

lemma findings_of_detected:
  "detect lib t limit stops k = (found, incomplete, k') \<Longrightarrow> findings_of t p 0 1 found = map (finding_of p t) found"
  using findings_of_lines [of found 0 t p] by (auto elim!: detect_searched)

section \<open>Relations between the states of a scan\<close>

text \<open>What is seen stays seen, what is found stays found, and a report that is incomplete stays so.\<close>

definition grows :: "scanner \<Rightarrow> scanner \<Rightarrow> bool" where
  "grows s s' =
     (sc_seen_files s \<subseteq> sc_seen_files s' \<and> sc_seen_directories s \<subseteq> sc_seen_directories s' \<and>
      set (sp_findings (sc_report s)) \<subseteq> set (sp_findings (sc_report s')) \<and>
      (sp_incomplete (sc_report s) \<longrightarrow> sp_incomplete (sc_report s')) \<and>
      sc_display_root s' = sc_display_root s \<and> sc_moment s \<le> sc_moment s')"

lemmas scanner_updates = pass_moment_def set_incomplete_def skip_file_def on_report_def

lemma grows_refl: "grows s s"
  by (simp add: grows_def)

lemma grows_trans: "grows s s' \<Longrightarrow> grows s' s'' \<Longrightarrow> grows s s''"
  by (auto simp: grows_def)

definition entered :: "scan_path \<Rightarrow> scanner \<Rightarrow> bool" where
  "entered d s = (sp_incomplete (sc_report s) \<or> d \<in> sc_seen_directories s)"

definition looked_at :: "scan_path \<Rightarrow> scanner \<Rightarrow> bool" where
  "looked_at p s = (sp_incomplete (sc_report s) \<or> p \<in> sc_seen_files s)"

lemma entered_mono: "grows s s' \<Longrightarrow> entered d s \<Longrightarrow> entered d s'"
  by (auto simp: grows_def entered_def)

lemma looked_at_mono: "grows s s' \<Longrightarrow> looked_at p s \<Longrightarrow> looked_at p s'"
  by (auto simp: grows_def looked_at_def)

text \<open>Every entry of a directory has been dealt with.\<close>

definition listed :: "scan_path \<Rightarrow> (str \<times> file_kind option) option list \<Rightarrow> scanner \<Rightarrow> bool" where
  "listed d entries s =
     (\<forall>name. (Some (name, Some Folder) \<in> set entries \<longrightarrow> \<not> ignored_directory name \<longrightarrow> entered (child_path d name) s) \<and>
        (Some (name, Some RegularFile) \<in> set entries \<longrightarrow> looked_at (child_path d name) s))"

lemma listed_mono: "grows s s' \<Longrightarrow> listed d entries s \<Longrightarrow> listed d entries s'"
  using entered_mono looked_at_mono by (auto simp: listed_def)

lemma listed_incomplete: "sp_incomplete (sc_report s) \<Longrightarrow> listed d entries s"
  by (simp add: listed_def entered_def looked_at_def)

lemma incomplete_simps [simp]:
  "sp_incomplete (sc_report (set_incomplete s))" "sp_incomplete (sc_report (skip_file s)) = sp_incomplete (sc_report s)"
  "sp_incomplete (sc_report (pass_moment s)) = sp_incomplete (sc_report s)"
  by (simp_all add: scanner_updates)

lemma scan_file_seen: "p \<in> sc_seen_files (scan_file w l p s)"
  by (auto simp: scan_file_def scanner_updates Let_def read_file_def scan_bytes_def scan_text_def
      split: option.split open_outcome.split prod.split)

text \<open>A reflexive and transitive relation that the small steps of a scan keep: the scan keeps it as a whole. For a directory the
  relation has to be shown once its entries are dealt with.\<close>

locale scan_relation =
  fixes w :: scan_world and l :: scan_limits
    and R :: "scanner \<Rightarrow> scanner \<Rightarrow> bool"
  assumes growing: "R s s' \<Longrightarrow> grows s s'"
    and same: "R s s"
    and both: "R s s' \<Longrightarrow> R s' s'' \<Longrightarrow> R s s''"
    and ticked: "R s (pass_moment s)"
    and marked_incomplete: "R s (set_incomplete s)"
    and skipped: "R s (skip_file s)"
    and filed: "R s (scan_file w l p s)"
    and counted: "sc_entries_seen s < max_entries l \<Longrightarrow> R s (s\<lparr>sc_entries_seen := sc_entries_seen s + 1\<rparr>)"
    and unreadable: "R s (set_incomplete (s\<lparr>sc_seen_directories := insert d (sc_seen_directories s)\<rparr>))"
    and opened: "R (s\<lparr>sc_seen_directories := insert d (sc_seen_directories s)\<rparr>) s' \<Longrightarrow>
      fs_read_dir (sw_fs w (sc_moment s)) d = Some entries \<Longrightarrow> listed d entries s' \<Longrightarrow> R s s'"
begin

lemma pass_unreadable: "R s (set_incomplete (pass_moment (s\<lparr>sc_seen_directories := insert d (sc_seen_directories s)\<rparr>)))"
proof -
  have "set_incomplete (pass_moment (s\<lparr>sc_seen_directories := insert d (sc_seen_directories s)\<rparr>)) =
      set_incomplete ((pass_moment s)\<lparr>sc_seen_directories := insert d (sc_seen_directories (pass_moment s))\<rparr>)"
    by (cases s) (simp add: scanner_updates)
  then show ?thesis using both [OF ticked unreadable [of "pass_moment s" d]] by simp
qed

lemma stopped_related: "stopped w l s = (b, s') \<Longrightarrow> R s s' \<and> (b \<longrightarrow> sp_incomplete (sc_report s'))"
  using both [OF ticked marked_incomplete] ticked by (auto simp: stopped_def split: if_splits)

definition walks :: "(scan_path \<Rightarrow> scanner \<Rightarrow> scanner) \<Rightarrow> bool" where
  "walks f = (\<forall>p s. R s (f p s) \<and> entered p (f p s))"

lemma walk_entry_related:
  assumes "walks descend"
  shows "R s (walk_entry w l descend d e s) \<and> listed d [e] (walk_entry w l descend d e s)"
  using assms same marked_incomplete skipped filed scan_file_seen
  by (auto simp: walk_entry_def walks_def listed_def looked_at_def listed_incomplete split: option.split file_kind.split)

lemma walk_entries_related:
  assumes "walks descend"
  shows "R s (walk_entries w l descend d es s) \<and> listed d es (walk_entries w l descend d es s)"
proof (induction es arbitrary: s)
  case Nil
  then show ?case by (simp add: same listed_def)
next
  case (Cons e es)
  obtain b s1 where st: "stopped w l s = (b, s1)" by fastforce
  note st' = stopped_related [OF st]
  show ?case
  proof (cases "b \<or> sc_entries_seen s1 \<ge> max_entries l")
    case True
    then show ?thesis using st st' both marked_incomplete by (auto simp: listed_incomplete split: bool.split)
  next
    case False
    let ?s2 = "walk_entry w l descend d e (s1\<lparr>sc_entries_seen := sc_entries_seen s1 + 1\<rparr>)"
    let ?s3 = "walk_entries w l descend d es ?s2"
    have "R s1 (s1\<lparr>sc_entries_seen := sc_entries_seen s1 + 1\<rparr>)" using False by (intro counted) simp
    with st' walk_entry_related [OF assms] have "R s ?s2" "listed d [e] ?s2" using both by blast+
    moreover have "R ?s2 ?s3" "listed d es ?s3" using Cons.IH by simp_all
    ultimately have "R s ?s3" "listed d [e] ?s3" "listed d es ?s3" using both listed_mono [OF growing] by blast+
    then have "R s ?s3" "listed d (e # es) ?s3" by (auto simp: listed_def)
    moreover have "walk_entries w l descend d (e # es) s = ?s3" using st False by simp
    ultimately show ?thesis by simp
  qed
qed

lemma walk_directory_related:
  assumes "\<And>descend. deeper = Some descend \<Longrightarrow> walks descend"
  shows "walks (walk_directory w l deeper)"
  unfolding walks_def
proof (intro allI)
  fix d s
  obtain b s1 where st: "stopped w l s = (b, s1)" by fastforce
  have s1: "R s s1" "b \<longrightarrow> sp_incomplete (sc_report s1)" using stopped_related [OF st] by simp_all
  have inc: "R s (set_incomplete s1)" "R s (set_incomplete (pass_moment s1))"
    using both [OF s1(1)] both [OF ticked marked_incomplete] marked_incomplete by blast+
  let ?s2 = "(pass_moment s1)\<lparr>sc_seen_directories := insert d (sc_seen_directories s1)\<rparr>"
  have seen: "?s2 = (pass_moment s1)\<lparr>sc_seen_directories := insert d (sc_seen_directories (pass_moment s1))\<rparr>" by (simp add: pass_moment_def)
  have shut: "R s (set_incomplete (pass_moment ?s2))" using both [OF both [OF s1(1) ticked] pass_unreadable [of _ d]] seen by simp
  have "R s (walk_entries w l descend d entries (pass_moment ?s2))" "entered d (walk_entries w l descend d entries (pass_moment ?s2))"
    if "deeper = Some descend" and "fs_read_dir (sw_fs w (sc_moment ?s2)) d = Some entries" for descend entries
  proof -
    have e: "R (pass_moment ?s2) (walk_entries w l descend d entries (pass_moment ?s2))" "listed d entries (walk_entries w l descend d entries (pass_moment ?s2))"
      using walk_entries_related [OF assms [OF that(1)]] by simp_all
    have "R (pass_moment s1) (walk_entries w l descend d entries (pass_moment ?s2))"
      by (rule opened [OF _ _ e(2)]) (use both [OF ticked e(1)] that(2) seen in simp_all)
    with both [OF both [OF s1(1) ticked]] show "R s (walk_entries w l descend d entries (pass_moment ?s2))" by blast
    have "entered d (pass_moment ?s2)" by (simp add: entered_def pass_moment_def)
    with entered_mono [OF growing [OF e(1)]] show "entered d (walk_entries w l descend d entries (pass_moment ?s2))" .
  qed
  with s1 inc shut show "R s (walk_directory w l deeper d s) \<and> entered d (walk_directory w l deeper d s)"
    by (auto simp: walk_directory_def st same Let_def entered_def [of d "set_incomplete _"] entered_def [of d s] entered_def [of d s1]
        split: option.split bool.split)
qed

lemma walk_levels_related: "walks (walk_levels w l n)"
  by (induction n) (auto intro!: walk_directory_related)

lemma walk_related: "R s (walk w l d n s) \<and> entered d (walk w l d n s)"
  using walk_levels_related by (simp add: walk_def walks_def)

lemma push_parts_related: "push_parts w names p safe s = (q, safe', s') \<Longrightarrow> R s s'"
  by (induction names arbitrary: p s) (auto simp: same ticked Let_def split: if_splits intro: both [OF ticked])

lemma priority_file_related: "R s (priority_file w l root relative s)"
proof -
  obtain q safe s' where p: "push_parts w (split_at 0x2f [] relative) root
      (map_option fm_kind (fs_meta (sw_fs w (sc_moment s)) root) = Some Folder) (pass_moment s) = (q, safe, s')"
    using prod_cases3 by blast
  have "R s s'" using both [OF ticked push_parts_related [OF p]] .
  with p show ?thesis using both [OF _ ticked] both [OF _ both [OF ticked filed]] by (simp add: priority_file_def Let_def)
qed

lemma priority_files_from_related: "R s (priority_files_from w l root rs s)"
proof (induction rs arbitrary: s)
  case (Cons relative rs)
  obtain b s1 where "stopped w l s = (b, s1)" by fastforce
  with stopped_related both [OF _ both [OF priority_file_related Cons.IH]] show ?case by (auto split: bool.split)
qed (simp add: same)

text \<open>Both passes over the roots.\<close>

lemma first_pass_related:
  "R s (fold (\<lambda>root s. if path_is_absolute root then priority_files w l root s else set_incomplete s) roots s) \<and>
   (\<forall>root \<in> set roots. path_is_absolute root \<or>
      sp_incomplete (sc_report (fold (\<lambda>root s. if path_is_absolute root then priority_files w l root s else set_incomplete s) roots s)))"
proof (induction roots arbitrary: s)
  case (Cons root roots)
  let ?s = "if path_is_absolute root then priority_files w l root s else set_incomplete s"
  let ?f = "fold (\<lambda>root s. if path_is_absolute root then priority_files w l root s else set_incomplete s) roots"
  have "R s ?s" using priority_files_from_related marked_incomplete by (simp add: priority_files_def)
  moreover have "path_is_absolute root \<or> sp_incomplete (sc_report ?s)" by simp
  moreover have "grows ?s (?f ?s)" using Cons.IH growing by blast
  ultimately show ?case using Cons.IH [of ?s] both by (auto simp: grows_def)
qed (simp add: same)

lemma second_pass_related:
  "R s (fold (\<lambda>root s. if path_is_absolute root then walk w l root 0 s else s) roots s) \<and>
   (\<forall>root \<in> set roots. path_is_absolute root \<longrightarrow>
      entered root (fold (\<lambda>root s. if path_is_absolute root then walk w l root 0 s else s) roots s))"
proof (induction roots arbitrary: s)
  case (Cons root roots)
  let ?s = "if path_is_absolute root then walk w l root 0 s else s"
  let ?f = "fold (\<lambda>root s. if path_is_absolute root then walk w l root 0 s else s) roots"
  have s: "R s ?s" "path_is_absolute root \<longrightarrow> entered root ?s" using walk_related same by simp_all
  have f: "R ?s (?f ?s)" using Cons.IH by blast
  have "path_is_absolute root \<longrightarrow> entered root (?f ?s)" using entered_mono [OF growing [OF f]] s(2) by blast
  with both [OF s(1) f] Cons.IH [of ?s] show ?case by simp
qed (simp add: same)

lemma scan_related:
  assumes "scan_user_files w l home extra = Some report"
  obtains s where "report = sc_report s"
    "R (on_report (\<lambda>r. r\<lparr>sp_roots := scan_roots home extra\<rparr>) (pass_moment (new_scanner None))) s"
    "\<And>root. root \<in> set (scan_roots home extra) \<Longrightarrow> entered root s"
proof -
  let ?s0 = "on_report (\<lambda>r. r\<lparr>sp_roots := scan_roots home extra\<rparr>) (pass_moment (new_scanner None))"
  let ?s1 = "fold (\<lambda>root s. if path_is_absolute root then priority_files w l root s else set_incomplete s) (scan_roots home extra) ?s0"
  let ?s2 = "fold (\<lambda>root s. if path_is_absolute root then walk w l root 0 s else s) (scan_roots home extra) ?s1"
  have "report = sc_report ?s2" using assms by (auto simp: scan_user_files_def Let_def split: if_splits)
  moreover have "R ?s0 ?s2" by (rule both [OF conjunct1 [OF first_pass_related] conjunct1 [OF second_pass_related]])
  moreover have "entered root ?s2" if "root \<in> set (scan_roots home extra)" for root
  proof (cases "path_is_absolute root")
    case True
    then show ?thesis using second_pass_related [of ?s1 "scan_roots home extra"] that by simp
  next
    case False
    then have "entered root ?s1" using first_pass_related [of ?s0 "scan_roots home extra"] that by (auto simp: entered_def)
    then show ?thesis by (rule entered_mono [OF growing [OF conjunct1 [OF second_pass_related]]])
  qed
  ultimately show ?thesis by (rule that)
qed

end

section \<open>Files\<close>

lemma grows_updates:
  "grows s (pass_moment s)" "grows s (set_incomplete s)" "grows s (skip_file s)" "grows s (s\<lparr>sc_entries_seen := n\<rparr>)"
  "grows s (s\<lparr>sc_seen_files := insert p (sc_seen_files s)\<rparr>)" "grows s (s\<lparr>sc_total_bytes := b\<rparr>)"
  "grows s (s\<lparr>sc_seen_directories := insert d (sc_seen_directories s)\<rparr>)"
  by (auto simp: grows_def scanner_updates)

text \<open>The state after the text of a file: the findings of what was detected in it.\<close>

lemma scan_text_eq:
  assumes "detect (sw_lib w) t (max_findings l - length (sp_findings (sc_report s))) (interrupted w l) (sc_moment s) = (found, incomplete, k)"
  shows "scan_text w l p t s = on_report (\<lambda>r. r\<lparr>sp_files_scanned := sp_files_scanned r + 1, sp_incomplete := sp_incomplete r \<or> incomplete,
      sp_findings := sp_findings r @ map (finding_of (display_path (sc_display_root s) p) t) found\<rparr>) (s\<lparr>sc_moment := k\<rparr>)"
  using assms findings_of_detected [OF assms] by (simp add: scan_text_def Let_def)

lemma detect_moment: "detect lib t limit stops k = (found, incomplete, k') \<Longrightarrow> k \<le> k'"
  by (auto elim!: detect_searched simp: searched_def)

lemma scan_text_grows: "grows s (scan_text w l p t s)"
proof -
  obtain found incomplete k where d: "detect (sw_lib w) t (max_findings l - length (sp_findings (sc_report s))) (interrupted w l)
      (sc_moment s) = (found, incomplete, k)" using prod_cases3 by blast
  show ?thesis using detect_moment [OF d] by (auto simp: scan_text_eq [OF d] grows_def on_report_def)
qed

text \<open>How a file is read: at some moment it was opened, and its bytes are all there is of it, and fit.\<close>

definition fits :: "scan_limits \<Rightarrow> open_file \<Rightarrow> scanner \<Rightarrow> bool" where
  "fits l f s = (length (of_bytes f) \<le> unat (max_file_bytes l) \<and> length (of_bytes f) \<le> unat (max_total_bytes l) - unat (sc_total_bytes s))"

lemma read_file_cases:
  assumes "unat (max_file_bytes l) + 1 < 2 ^ 64"
  obtains "fits l f s" "read_file w l p f s = scan_bytes w l p (of_bytes f) s"
  | "read_file w l p f s = skip_file (set_incomplete s)"
proof -
  define cap where "cap = min (max_file_bytes l) (saturating_sub (max_total_bytes l) (sc_total_bytes s))"
  have cap: "unat cap \<le> unat (max_file_bytes l)" "unat cap \<le> unat (max_total_bytes l) - unat (sc_total_bytes s)"
    by (auto simp: cap_def unat_saturating_sub [symmetric] min_def word_le_nat_alt)
  then have n: "unat (saturating_add cap 1) = unat cap + 1"
    using assms by (simp add: unat_saturating_add)
  show ?thesis
  proof (cases "length (of_bytes f) \<le> unat cap")
    case True
    then have b: "read_at_most (unat (saturating_add cap 1)) f = (if of_fails f then None else Some (of_bytes f))"
      using n by (auto simp: read_at_most_def)
    show ?thesis
    proof (cases "of_fails f")
      case True
      with b show ?thesis by (intro that(2)) (simp add: read_file_def Let_def flip: cap_def)
    next
      case False
      have "fits l f s" using \<open>length (of_bytes f) \<le> unat cap\<close> cap by (auto simp: fits_def)
      moreover have "read_file w l p f s = scan_bytes w l p (of_bytes f) s"
        using b False \<open>length (of_bytes f) \<le> unat cap\<close> by (simp add: read_file_def Let_def flip: cap_def)
      ultimately show ?thesis by (rule that(1))
    qed
  next
    case False
    then have "read_at_most (unat (saturating_add cap 1)) f = Some (take (unat cap + 1) (of_bytes f))"
      using n by (auto simp: read_at_most_def)
    with False show ?thesis by (intro that(2)) (simp add: read_file_def Let_def flip: cap_def)
  qed
qed

text \<open>What happens to a file. Either nothing is found and nothing is missed, or the report becomes incomplete, or its text is searched.\<close>

definition text_file :: "file_system \<Rightarrow> scan_path \<Rightarrow> str \<Rightarrow> bool" where
  "text_file fs p t =
     (map_option fm_kind (fs_meta fs p) = Some RegularFile \<and>
      (\<exists>f. fs_open fs p = Opened f \<and> of_bytes f = t) \<and> 0 \<notin> set t \<and> valid_utf8 t)"

text \<open>Fields that only the search of a text changes.\<close>

definition unfound :: "scanner \<Rightarrow> scanner \<Rightarrow> bool" where
  "unfound s s' =
     (grows s s' \<and> sp_findings (sc_report s') = sp_findings (sc_report s) \<and>
      sp_files_scanned (sc_report s') = sp_files_scanned (sc_report s) \<and> sc_entries_seen s' = sc_entries_seen s \<and>
      sc_seen_directories s' = sc_seen_directories s)"

lemma unfound_refl: "unfound s s"
  by (simp add: unfound_def grows_refl)

lemma unfound_trans: "unfound s s' \<Longrightarrow> unfound s' s'' \<Longrightarrow> unfound s s''"
  by (auto simp: unfound_def intro: grows_trans)

lemma unfound_updates:
  "unfound s (pass_moment s)" "unfound s (set_incomplete s)" "unfound s (skip_file s)"
  "unfound s (s\<lparr>sc_seen_files := insert p (sc_seen_files s)\<rparr>)" "unfound s (s\<lparr>sc_total_bytes := b\<rparr>)"
  by (auto simp: unfound_def grows_updates, simp_all add: scanner_updates)

definition bytes_within :: "scan_limits \<Rightarrow> scanner \<Rightarrow> bool" where
  "bytes_within l s = (unat (sc_total_bytes s) \<le> unat (max_total_bytes l))"

lemma bytes_within_updates [simp]:
  "bytes_within l (pass_moment s) = bytes_within l s" "bytes_within l (set_incomplete s) = bytes_within l s"
  "bytes_within l (skip_file s) = bytes_within l s" "bytes_within l (s\<lparr>sc_seen_files := x\<rparr>) = bytes_within l s"
  "bytes_within l (s\<lparr>sc_entries_seen := n\<rparr>) = bytes_within l s" "bytes_within l (s\<lparr>sc_seen_directories := x\<rparr>) = bytes_within l s"
  "bytes_within l (scan_text w l' p t s) = bytes_within l s"
  by (simp_all add: bytes_within_def scanner_updates scan_text_def split: prod.split)

lemma fits_within:
  assumes "fits l f s" and "bytes_within l s" and "unat (max_file_bytes l) + 1 < 2 ^ 64"
  shows "bytes_within l (s\<lparr>sc_total_bytes := saturating_add (sc_total_bytes s) (of_nat (length (of_bytes f)))\<rparr>)"
proof -
  have "unat (of_nat (length (of_bytes f)) :: u64) = length (of_bytes f)"
    using assms(1,3) by (auto simp: fits_def unat_of_nat)
  with assms(1,2) show ?thesis by (auto simp: bytes_within_def fits_def unat_saturating_add)
qed

text \<open>A state on the way of the file: it is taken note of, and nothing else has happened.\<close>

definition noted :: "scan_limits \<Rightarrow> scan_path \<Rightarrow> scanner \<Rightarrow> scanner \<Rightarrow> bool" where
  "noted l p s s' =
     (unfound s s' \<and> (bytes_within l s \<longrightarrow> bytes_within l s') \<and> sc_seen_files s' = insert p (sc_seen_files s))"

lemma noted_updates:
  "noted l p s s' \<Longrightarrow> noted l p s (pass_moment s')" "noted l p s s' \<Longrightarrow> noted l p s (set_incomplete s')"
  "noted l p s s' \<Longrightarrow> noted l p s (skip_file s')" "noted l p s (s\<lparr>sc_seen_files := insert p (sc_seen_files s)\<rparr>)"
proof -
  assume n: "noted l p s s'"
  have same: "sc_seen_files (pass_moment s') = sc_seen_files s'" "sc_seen_files (set_incomplete s') = sc_seen_files s'"
    "sc_seen_files (skip_file s') = sc_seen_files s'" by (simp_all add: scanner_updates)
  show "noted l p s (pass_moment s')" "noted l p s (set_incomplete s')" "noted l p s (skip_file s')"
    using n same unfound_trans [OF _ unfound_updates(1)] unfound_trans [OF _ unfound_updates(2)] unfound_trans [OF _ unfound_updates(3)]
    by (simp_all add: noted_def)
qed (simp add: noted_def unfound_updates)

definition quiet_file :: "scan_world \<Rightarrow> scan_limits \<Rightarrow> scan_path \<Rightarrow> scanner \<Rightarrow> scanner \<Rightarrow> bool" where
  "quiet_file w l p s s' =
     (noted l p s s' \<and> (\<not> sp_incomplete (sc_report s') \<longrightarrow> (\<forall>fs t. sw_fs w = (\<lambda>_. fs) \<longrightarrow> \<not> text_file fs p t)))"

definition searched_file :: "scan_world \<Rightarrow> scan_limits \<Rightarrow> scan_path \<Rightarrow> scanner \<Rightarrow> scanner \<Rightarrow> bool" where
  "searched_file w l p s s' =
     (\<exists>s1 k f. noted l p s s1 \<and> sp_files_scanned (sc_report s) < max_files l \<and> fs_open (sw_fs w k) p = Opened f \<and>
        s' = scan_text w l p (of_bytes f) s1)"

lemma quiet_incomplete: "noted l p s s' \<Longrightarrow> quiet_file w l p s (skip_file (set_incomplete s'))"
  by (simp add: quiet_file_def noted_updates)

lemma quiet_skipped:
  "noted l p s s' \<Longrightarrow> (\<And>fs t. sw_fs w = (\<lambda>_. fs) \<Longrightarrow> \<not> text_file fs p t) \<Longrightarrow> quiet_file w l p s (skip_file s')"
  by (simp add: quiet_file_def noted_updates)

lemma read_file_outcome:
  assumes limit: "unat (max_file_bytes l) + 1 < 2 ^ 64" and s': "noted l p s s'"
    and files: "sp_files_scanned (sc_report s) < max_files l" and f: "fs_open (sw_fs w k) p = Opened f"
  shows "quiet_file w l p s (read_file w l p f s') \<or> searched_file w l p s (read_file w l p f s')"
proof (rule read_file_cases [OF limit, of f s' w p])
  let ?b = "s'\<lparr>sc_total_bytes := saturating_add (sc_total_bytes s') (of_nat (length (of_bytes f)))\<rparr>"
  assume fit: "fits l f s'" and r: "read_file w l p f s' = scan_bytes w l p (of_bytes f) s'"
  have b: "noted l p s ?b"
    using s' fits_within [OF fit _ limit] by (auto simp: noted_def intro: unfound_trans [OF _ unfound_updates(5)])
  show ?thesis
  proof (cases "0 \<in> set (of_bytes f) \<or> \<not> valid_utf8 (of_bytes f)")
    case True
    then have "quiet_file w l p s (skip_file ?b)" using f by (intro quiet_skipped [OF b]) (auto simp: text_file_def)
    with True r show ?thesis by (simp add: scan_bytes_def)
  next
    case False
    with b files f r show ?thesis by (auto simp: searched_file_def scan_bytes_def)
  qed
qed (simp add: quiet_incomplete [OF s'])

lemma scan_file_outcome:
  assumes "unat (max_file_bytes l) + 1 < 2 ^ 64" and "p \<notin> sc_seen_files s"
  shows "quiet_file w l p s (scan_file w l p s) \<or> searched_file w l p s (scan_file w l p s)"
proof (cases "sp_files_scanned (sc_report s) < max_files l")
  case files: True
  let ?s = "s\<lparr>sc_seen_files := insert p (sc_seen_files s)\<rparr>"
  have n: "noted l p s ?s" "noted l p s (pass_moment ?s)" "noted l p s (pass_moment (pass_moment ?s))" by (simp_all add: noted_updates)
  show ?thesis
  proof (cases "fs_meta (sw_fs w (sc_moment s)) p")
    case None
    with files quiet_incomplete [OF n(2)] assms(2) show ?thesis by (simp add: scan_file_def)
  next
    case (Some m)
    have other: "quiet_file w l p s (skip_file (pass_moment ?s))" if "fm_kind m \<noteq> RegularFile"
      using that Some by (intro quiet_skipped [OF n(2)]) (auto simp: text_file_def)
    have q: "scan_file w l p s =
        (if fm_kind m \<noteq> RegularFile then skip_file (pass_moment ?s)
         else if fm_len m > max_file_bytes l \<or> saturating_add (sc_total_bytes s) (fm_len m) > max_total_bytes l
         then skip_file (set_incomplete (pass_moment ?s))
         else case fs_open (sw_fs w (Suc (sc_moment s))) p of
           OpenFailed \<Rightarrow> skip_file (set_incomplete (pass_moment (pass_moment ?s))) | NotRegular \<Rightarrow> skip_file (pass_moment (pass_moment ?s))
         | Opened f \<Rightarrow> read_file w l p f (pass_moment (pass_moment ?s)))"
      using files assms(2) Some by (simp add: scan_file_def pass_moment_def Let_def)
    have not_regular: "quiet_file w l p s (skip_file (pass_moment (pass_moment ?s)))" if "fs_open (sw_fs w (Suc (sc_moment s))) p = NotRegular"
      using that by (intro quiet_skipped [OF n(3)]) (auto simp: text_file_def)
    show ?thesis
      unfolding q using other not_regular quiet_incomplete [OF n(2)] quiet_incomplete [OF n(3)] read_file_outcome [OF assms(1) n(3) files]
      by (simp split: open_outcome.split)
  qed
next
  case False
  with quiet_incomplete [OF noted_updates(4)] assms(2) show ?thesis by (simp add: scan_file_def)
qed

lemma scan_file_grows: "grows s (scan_file w l p s)"
proof -
  have bytes: "grows s (scan_bytes w l p b s)" for b s
    unfolding scan_bytes_def Let_def by (simp add: grows_trans [OF grows_updates(6) grows_updates(3)] grows_trans [OF grows_updates(6) scan_text_grows])
  have inc: "grows s (skip_file (set_incomplete s))" for s by (rule grows_trans [OF grows_updates(2,3)])
  have "grows s (read_file w l p f s)" for f s
    by (simp add: read_file_def Let_def bytes inc split: option.split)
  then have "grows s1 (read_file w l p f (pass_moment (pass_moment s1)))" for f s1
    using grows_trans [OF grows_trans [OF grows_updates(1,1)]] by blast
  moreover have "grows s1 (skip_file (set_incomplete (pass_moment s1)))" "grows s1 (skip_file (pass_moment s1))"
      "grows s1 (skip_file (set_incomplete (pass_moment (pass_moment s1))))" "grows s1 (skip_file (pass_moment (pass_moment s1)))" for s1
    using grows_trans [OF grows_updates(1) inc] grows_trans [OF grows_updates(1,3)] grows_trans [OF grows_trans [OF grows_updates(1,1)] inc]
      grows_trans [OF grows_trans [OF grows_updates(1,1)] grows_updates(3)] by blast+
  ultimately have "grows (s\<lparr>sc_seen_files := insert p (sc_seen_files s)\<rparr>) (scan_file w l p s)" if "p \<notin> sc_seen_files s"
    using that inc by (simp add: scan_file_def Let_def split: option.split open_outcome.split)
  with grows_trans [OF grows_updates(5)] show ?thesis by (cases "p \<in> sc_seen_files s") (auto simp: scan_file_def grows_refl)
qed

end
