(* ===== verification/Ladon_Scan_Safety.thy ===== *)
theory Ladon_Scan_Safety
  imports Ladon_Scan_Properties
begin

text \<open>
  What a scan promises: it keeps its limits, every finding comes from a text that the file system gave, and a report which is not marked
  incomplete misses nothing; with a scan that is evaluated.
\<close>

section \<open>Invariants of a scan\<close>

locale scan_invariant =
  fixes w :: scan_world and l :: scan_limits
    and I :: "scanner \<Rightarrow> bool"
  assumes inv_moment: "I s \<Longrightarrow> I (pass_moment s)"
    and inv_incomplete: "I s \<Longrightarrow> I (set_incomplete s)"
    and inv_skip: "I s \<Longrightarrow> I (skip_file s)"
    and inv_file: "I s \<Longrightarrow> I (scan_file w l p s)"
    and inv_entry: "I s \<Longrightarrow> sc_entries_seen s < max_entries l \<Longrightarrow> I (s\<lparr>sc_entries_seen := sc_entries_seen s + 1\<rparr>)"
    and inv_directory: "I s \<Longrightarrow> I (s\<lparr>sc_seen_directories := x\<rparr>)"

sublocale scan_invariant \<subseteq> scan_relation w l "\<lambda>s s'. grows s s' \<and> (I s \<longrightarrow> I s')"
proof (unfold_locales, goal_cases)
  case 9
  then show ?case using grows_trans [OF grows_updates(7) grows_updates(2)] inv_incomplete inv_directory by blast
next
  case (10 s d s' entries)
  then show ?case using grows_trans [OF grows_updates(7)] inv_directory by blast
qed (use inv_moment inv_incomplete inv_skip inv_file inv_entry grows_updates grows_refl scan_file_grows in \<open>auto intro: grows_trans\<close>)

context scan_invariant
begin

lemma scan_keeps_inv:
  assumes "scan_user_files w l home extra = Some report"
    and "I (on_report (\<lambda>r. r\<lparr>sp_roots := scan_roots home extra\<rparr>) (pass_moment (new_scanner None)))"
  obtains s where "report = sc_report s" "sc_display_root s = None" "I s"
proof (rule scan_related [OF assms(1)])
  fix s
  assume s: "report = sc_report s" and r: "grows (on_report (\<lambda>r. r\<lparr>sp_roots := scan_roots home extra\<rparr>) (pass_moment (new_scanner None))) s \<and>
    (I (on_report (\<lambda>r. r\<lparr>sp_roots := scan_roots home extra\<rparr>) (pass_moment (new_scanner None))) \<longrightarrow> I s)"
  have "sc_display_root s = None" using r by (simp add: grows_def new_scanner_def on_report_def pass_moment_def)
  with s r assms(2) show thesis by (intro that [of s]) simp_all
qed

end

text \<open>The limits: a scan never goes beyond one of them.\<close>

definition scan_within :: "scan_limits \<Rightarrow> scanner \<Rightarrow> bool" where
  "scan_within l s =
     (unat (max_file_bytes l) + 1 < 2 ^ 64 \<longrightarrow>
        length (sp_findings (sc_report s)) \<le> max_findings l \<and> sp_files_scanned (sc_report s) \<le> max_files l \<and>
        sc_entries_seen s \<le> max_entries l \<and> bytes_within l s)"

text \<open>Where findings come from: a text that the file system gave at some moment, and a match in it.\<close>

definition grounded_finding :: "scan_world \<Rightarrow> scan_finding \<Rightarrow> bool" where
  "grounded_finding w f =
     (\<exists>k file d. fs_open (sw_fs w k) (sf_path f) = Opened file \<and> d \<in> set (candidates (sw_lib w) (of_bytes file)) \<and>
        f = finding_of (sf_path f) (of_bytes file) d)"

definition grounded :: "scan_world \<Rightarrow> scan_limits \<Rightarrow> scanner \<Rightarrow> bool" where
  "grounded w l s =
     (unat (max_file_bytes l) + 1 < 2 ^ 64 \<longrightarrow> sc_display_root s = None \<longrightarrow>
        (\<forall>f \<in> set (sp_findings (sc_report s)). grounded_finding w f))"

lemma scan_text_within:
  assumes "length (sp_findings (sc_report s)) \<le> max_findings l" and "sp_files_scanned (sc_report s) < max_files l"
    and "sc_entries_seen s \<le> max_entries l" and "bytes_within l s"
  shows "scan_within l (scan_text w l p t s)"
proof -
  obtain found incomplete k where d: "detect (sw_lib w) t (max_findings l - length (sp_findings (sc_report s))) (interrupted w l)
      (sc_moment s) = (found, incomplete, k)" using prod_cases3 by blast
  show ?thesis using assms detect_spec [OF d] bytes_within_updates(7) [of l w l p t s]
    by (auto simp: scan_within_def scan_text_eq [OF d] on_report_def)
qed

lemma scan_file_within: "scan_within l s \<Longrightarrow> scan_within l (scan_file w l p s)"
proof (cases "unat (max_file_bytes l) + 1 < 2 ^ 64 \<and> p \<notin> sc_seen_files s")
  case True
  assume "scan_within l s"
  with True have s: "length (sp_findings (sc_report s)) \<le> max_findings l" "sp_files_scanned (sc_report s) \<le> max_files l"
      "sc_entries_seen s \<le> max_entries l" "bytes_within l s" by (simp_all add: scan_within_def)
  from scan_file_outcome [of l p s w] True
  consider "quiet_file w l p s (scan_file w l p s)" | "searched_file w l p s (scan_file w l p s)" by blast
  then show ?thesis
  proof cases
    case 1
    with s show ?thesis by (simp add: quiet_file_def noted_def unfound_def scan_within_def)
  next
    case 2
    then obtain s1 k and f :: open_file where n: "noted l p s s1" "sp_files_scanned (sc_report s) < max_files l"
      and q: "scan_file w l p s = scan_text w l p (of_bytes f) s1" unfolding searched_file_def by blast
    show ?thesis unfolding q using n s by (intro scan_text_within) (simp_all add: noted_def unfound_def)
  qed
qed (auto simp: scan_within_def scan_file_def)

lemma scan_within_updates:
  "scan_within l (pass_moment s) = scan_within l s" "scan_within l (set_incomplete s) = scan_within l s"
  "scan_within l (skip_file s) = scan_within l s" "scan_within l (s\<lparr>sc_seen_directories := x\<rparr>) = scan_within l s"
  by (simp_all add: scan_within_def) (simp_all add: scanner_updates)

interpretation limited: scan_invariant w l "scan_within l" for w l
  by unfold_locales (simp_all add: scan_within_updates scan_file_within, simp add: scan_within_def)

lemma scan_text_grounded:
  assumes "grounded w l s" and "fs_open (sw_fs w k) p = Opened file"
  shows "grounded w l (scan_text w l p (of_bytes file) s)"
proof -
  obtain found incomplete k' where d: "detect (sw_lib w) (of_bytes file) (max_findings l - length (sp_findings (sc_report s)))
      (interrupted w l) (sc_moment s) = (found, incomplete, k')" using prod_cases3 by blast
  have "grounded_finding w (finding_of p (of_bytes file) c)" if "c \<in> set found" for c
    using that detect_spec [OF d] assms(2) by (auto simp: grounded_finding_def finding_of_def)
  with assms(1) show ?thesis
    by (auto simp: grounded_def scan_text_eq [OF d] on_report_def display_path_def)
qed

lemma grounded_unfound: "unfound s s' \<Longrightarrow> grounded w l s \<Longrightarrow> grounded w l s'"
  by (auto simp: unfound_def grounded_def grows_def)

lemma scan_file_grounded: "grounded w l s \<Longrightarrow> grounded w l (scan_file w l p s)"
proof (cases "unat (max_file_bytes l) + 1 < 2 ^ 64 \<and> p \<notin> sc_seen_files s")
  case True
  assume s: "grounded w l s"
  from scan_file_outcome [of l p s w] True
  consider "quiet_file w l p s (scan_file w l p s)" | "searched_file w l p s (scan_file w l p s)" by blast
  then show ?thesis
  proof cases
    case 1
    with s show ?thesis by (auto simp: quiet_file_def noted_def intro: grounded_unfound)
  next
    case 2
    then obtain s1 k and f :: open_file where n: "noted l p s s1" "fs_open (sw_fs w k) p = Opened f"
      and q: "scan_file w l p s = scan_text w l p (of_bytes f) s1" unfolding searched_file_def by blast
    from n(1) s have "grounded w l s1" by (auto simp: noted_def intro: grounded_unfound)
    then show ?thesis unfolding q using n(2) by (rule scan_text_grounded)
  qed
qed (auto simp: grounded_def scan_file_def)

interpretation sourced: scan_invariant w l "grounded w l" for w l
  by unfold_locales
    (simp_all add: grounded_unfound [OF unfound_updates(1)] grounded_unfound [OF unfound_updates(2)] grounded_unfound [OF unfound_updates(3)]
      scan_file_grounded, simp_all add: grounded_def)

section \<open>A complete report\<close>

definition reported :: "scan_world \<Rightarrow> file_system \<Rightarrow> scan_path \<Rightarrow> scanner \<Rightarrow> bool" where
  "reported w fs p s =
     (\<forall>t. text_file fs p t \<longrightarrow> (\<forall>c \<in> set (candidates (sw_lib w) t).
        \<exists>d. covered_by [d] c \<and> finding_of p t d \<in> set (sp_findings (sc_report s))))"

definition explored :: "file_system \<Rightarrow> scan_path \<Rightarrow> scanner \<Rightarrow> bool" where
  "explored fs d s = (\<forall>entries. fs_read_dir fs d = Some entries \<longrightarrow> listed d entries s)"

lemma reported_mono: "grows s s' \<Longrightarrow> reported w fs p s \<Longrightarrow> reported w fs p s'"
  unfolding reported_def grows_def by blast

lemma explored_mono: "grows s s' \<Longrightarrow> explored fs d s \<Longrightarrow> explored fs d s'"
  using listed_mono by (simp add: explored_def)

text \<open>Unless the report is incomplete, what was newly seen in a file system that stays the same has been dealt with.\<close>

definition thorough :: "scan_world \<Rightarrow> scan_limits \<Rightarrow> scanner \<Rightarrow> scanner \<Rightarrow> bool" where
  "thorough w l s s' =
     (grows s s' \<and>
      (\<forall>fs. sw_fs w = (\<lambda>_. fs) \<longrightarrow> unat (max_file_bytes l) + 1 < 2 ^ 64 \<longrightarrow> sc_display_root s = None \<longrightarrow> \<not> sp_incomplete (sc_report s') \<longrightarrow>
         (\<forall>p \<in> sc_seen_files s'. p \<in> sc_seen_files s \<or> reported w fs p s') \<and>
         (\<forall>d \<in> sc_seen_directories s'. d \<in> sc_seen_directories s \<or> explored fs d s')))"

lemma thoroughI:
  assumes "grows s s'"
    and "\<And>fs p. sw_fs w = (\<lambda>_. fs) \<Longrightarrow> unat (max_file_bytes l) + 1 < 2 ^ 64 \<Longrightarrow> sc_display_root s = None \<Longrightarrow>
      \<not> sp_incomplete (sc_report s') \<Longrightarrow> p \<in> sc_seen_files s' \<Longrightarrow> p \<in> sc_seen_files s \<or> reported w fs p s'"
    and "\<And>fs d. sw_fs w = (\<lambda>_. fs) \<Longrightarrow> unat (max_file_bytes l) + 1 < 2 ^ 64 \<Longrightarrow> sc_display_root s = None \<Longrightarrow>
      \<not> sp_incomplete (sc_report s') \<Longrightarrow> d \<in> sc_seen_directories s' \<Longrightarrow>
      d \<in> sc_seen_directories s \<or> explored fs d s'"
  shows "thorough w l s s'"
  using assms by (simp add: thorough_def)

lemma thoroughD:
  assumes "thorough w l s s'" and "sw_fs w = (\<lambda>_. fs)" and "unat (max_file_bytes l) + 1 < 2 ^ 64" and "sc_display_root s = None"
    and "\<not> sp_incomplete (sc_report s')"
  shows "p \<in> sc_seen_files s' \<Longrightarrow> p \<in> sc_seen_files s \<or> reported w fs p s'"
    and "d \<in> sc_seen_directories s' \<Longrightarrow> d \<in> sc_seen_directories s \<or> explored fs d s'"
  using assms by (auto simp: thorough_def)

lemma thorough_trans:
  assumes a: "thorough w l s s'" and b: "thorough w l s' s''"
  shows "thorough w l s s''"
proof -
  have g: "grows s s'" "grows s' s''" using a b by (simp_all add: thorough_def)
  moreover have "sp_incomplete (sc_report s') \<Longrightarrow> sp_incomplete (sc_report s'')" "sc_display_root s' = sc_display_root s"
    using g by (simp_all add: grows_def)
  ultimately show ?thesis
    using a b reported_mono [OF g(2)] explored_mono [OF g(2)] grows_trans [OF g] unfolding thorough_def by metis
qed

lemma thorough_same: "grows s s' \<Longrightarrow> sc_seen_files s' = sc_seen_files s \<Longrightarrow> sc_seen_directories s' = sc_seen_directories s \<Longrightarrow> thorough w l s s'"
  by (simp add: thorough_def)

lemma scan_text_reported:
  assumes "\<not> sp_incomplete (sc_report (scan_text w l p t s))" and "sc_display_root s = None" and "c \<in> set (candidates (sw_lib w) t)"
  shows "\<exists>d. covered_by [d] c \<and> finding_of p t d \<in> set (sp_findings (sc_report (scan_text w l p t s)))"
proof -
  obtain found incomplete k' where d: "detect (sw_lib w) t (max_findings l - length (sp_findings (sc_report s)))
      (interrupted w l) (sc_moment s) = (found, incomplete, k')" using prod_cases3 by blast
  have "\<not> incomplete" using assms(1) by (simp add: scan_text_eq [OF d] on_report_def)
  with detect_spec [OF d] assms(3) have "covered_by found c" by blast
  then obtain e where "e \<in> set found" "covered_by [e] c" by (auto simp: covered_by_def)
  with assms(2) show ?thesis by (auto simp: scan_text_eq [OF d] on_report_def display_path_def)
qed

lemma scan_text_seen:
  "sc_seen_files (scan_text w l p t s) = sc_seen_files s" "sc_seen_directories (scan_text w l p t s) = sc_seen_directories s"
  by (simp_all add: scan_text_def on_report_def Let_def split: prod.split)

lemma scan_file_thorough: "thorough w l s (scan_file w l p s)"
proof (cases "p \<in> sc_seen_files s")
  case True
  then show ?thesis by (simp add: scan_file_def thorough_same grows_refl)
next
  case new: False
  let ?q = "scan_file w l p s"
  show ?thesis
  proof (cases "unat (max_file_bytes l) + 1 < 2 ^ 64")
    case limit: True
    from scan_file_outcome [OF limit new, of w]
    consider "quiet_file w l p s ?q" | "searched_file w l p s ?q" by blast
    then show ?thesis
    proof cases
      case 1
      then show ?thesis
        by (intro thoroughI [OF scan_file_grows]) (auto simp: quiet_file_def noted_def unfound_def reported_def)
    next
      case 2
      then obtain s1 k and f :: open_file where n: "noted l p s s1" "fs_open (sw_fs w k) p = Opened f"
        and q: "?q = scan_text w l p (of_bytes f) s1" unfolding searched_file_def by blast
      have "reported w fs p ?q" if "sw_fs w = (\<lambda>_. fs)" "sc_display_root s = None" "\<not> sp_incomplete (sc_report ?q)" for fs
      proof -
        have "t = of_bytes f" if "text_file fs p t" for t using that n(2) \<open>sw_fs w = _\<close> by (simp add: text_file_def)
        moreover have "sc_display_root s1 = None" using n(1) that(2) by (simp add: noted_def unfound_def grows_def)
        ultimately show ?thesis using that(3) scan_text_reported unfolding reported_def q by blast
      qed
      moreover have "sc_seen_files ?q = insert p (sc_seen_files s)" "sc_seen_directories ?q = sc_seen_directories s"
        using n(1) by (simp_all add: q scan_text_seen noted_def unfound_def)
      ultimately show ?thesis by (intro thoroughI [OF scan_file_grows]) auto
    qed
  next
    case False
    have "sc_seen_directories ?q = sc_seen_directories s"
      by (simp add: scan_file_def read_file_def scan_bytes_def Let_def scan_text_seen split: option.split open_outcome.split)
        (simp add: scanner_updates)
    with False show ?thesis by (intro thoroughI [OF scan_file_grows]) auto
  qed
qed

interpretation careful: scan_relation w l "thorough w l" for w l
proof (unfold_locales, goal_cases)
  case (3 s s' s'')
  then show ?case by (rule thorough_trans)
next
  case (7 s p)
  show ?case by (rule scan_file_thorough)
next
  case (9 s d)
  show ?case by (rule thoroughI) (auto intro: grows_trans [OF grows_updates(7) grows_updates(2)])
next
  case (10 d s s' entries)
  then have g: "grows s s'" using grows_trans [OF grows_updates(7)] by (auto simp: thorough_def)
  show ?case
  proof (rule thoroughI [OF g])
    fix fs e
    assume "sw_fs w = (\<lambda>_. fs)" "unat (max_file_bytes l) + 1 < 2 ^ 64" "sc_display_root s = None" "\<not> sp_incomplete (sc_report s')"
    note step = thoroughD [OF 10(1) this(1,2) _ this(4)]
    with \<open>sc_display_root s = None\<close> show "e \<in> sc_seen_files s' \<Longrightarrow> e \<in> sc_seen_files s \<or> reported w fs e s'" by simp
    have "explored fs d s'" using 10(2,3) \<open>sw_fs w = _\<close> by (simp add: explored_def)
    with step(2) [of e] \<open>sc_display_root s = None\<close>
    show "e \<in> sc_seen_directories s' \<Longrightarrow> e \<in> sc_seen_directories s \<or> explored fs e s'" by auto
  qed
qed (auto simp: thorough_def grows_refl grows_updates, auto simp: scanner_updates)

text \<open>The directories under the roots that a scan is to look into.\<close>

inductive scan_reachable :: "file_system \<Rightarrow> scan_path list \<Rightarrow> scan_path \<Rightarrow> bool" for fs roots where
  at_root: "root \<in> set roots \<Longrightarrow> scan_reachable fs roots root"
| below: "scan_reachable fs roots d \<Longrightarrow> fs_read_dir fs d = Some entries \<Longrightarrow> Some (name, Some Folder) \<in> set entries \<Longrightarrow>
    \<not> ignored_directory name \<Longrightarrow> scan_reachable fs roots (child_path d name)"

lemma reachable_seen:
  assumes "scan_reachable fs roots d" and "\<not> sp_incomplete (sc_report s)"
    and "\<And>root. root \<in> set roots \<Longrightarrow> entered root s" and "\<And>e. e \<in> sc_seen_directories s \<Longrightarrow> explored fs e s"
  shows "d \<in> sc_seen_directories s"
  using assms
proof (induction rule: scan_reachable.induct)
  case (at_root root)
  then show ?case by (auto simp: entered_def)
next
  case (below d entries name)
  then have "explored fs d s" by blast
  with below show ?case by (auto simp: explored_def listed_def entered_def)
qed


text \<open>C39: Whatever happens to the file system during a scan, the report has at most as many findings and counts at most as many files as the limits
  allow, and each finding comes from a text that the file system gave for its path: a rule matches there, and the line is that of
  the match.\<close>

theorem scan_findings_grounded:
  assumes "scan_user_files w l home extra = Some report" and "unat (max_file_bytes l) + 1 < 2 ^ 64"
  shows "length (sp_findings report) \<le> max_findings l \<and> sp_files_scanned report \<le> max_files l \<and>
    (\<forall>f \<in> set (sp_findings report). \<exists>k file e. fs_open (sw_fs w k) (sf_path f) = Opened file \<and>
       e \<in> set (candidates (sw_lib w) (of_bytes file)) \<and> sf_rule f = de_rule e \<and>
       sf_line f = 1 + count_list (take (fst (de_range e)) (of_bytes file)) 0x0a)"
proof -
  let ?s0 = "on_report (\<lambda>r. r\<lparr>sp_roots := scan_roots home extra\<rparr>) (pass_moment (new_scanner None))"
  have "scan_within l ?s0" by (simp add: scan_within_def bytes_within_def scanner_updates new_scanner_def)
  then obtain s where s: "report = sc_report s" "scan_within l s" by (rule limited.scan_keeps_inv [OF assms(1)])
  have "grounded w l ?s0" by (simp add: grounded_def scanner_updates new_scanner_def)
  then obtain s' where s': "report = sc_report s'" "sc_display_root s' = None" "grounded w l s'" by (rule sourced.scan_keeps_inv [OF assms(1)])
  have "grounded_finding w f" if "f \<in> set (sp_findings report)" for f
    using that s' assms(2) by (auto simp: grounded_def)
  then have "\<exists>k file e. fs_open (sw_fs w k) (sf_path f) = Opened file \<and> e \<in> set (candidates (sw_lib w) (of_bytes file)) \<and>
       sf_rule f = de_rule e \<and> sf_line f = 1 + count_list (take (fst (de_range e)) (of_bytes file)) 0x0a"
    if "f \<in> set (sp_findings report)" for f
    using that unfolding grounded_finding_def finding_of_def by (metis (no_types, lifting) scan_finding.select_convs(2,3))
  with s assms(2) show ?thesis by (auto simp: scan_within_def)
qed

section \<open>A scan that is evaluated\<close>

definition demo_scan_lib :: scan_lib where
  "demo_scan_lib =
     \<lparr>sl_private_keys = (\<lambda>_. []), sl_tokens = (\<lambda>_. []), sl_urls = (\<lambda>_. []), sl_bearer = (\<lambda>_. []),
      sl_assignments = (\<lambda>t. if t = ascii ''a
token=k7'' then [((2, 7), (8, 10))] else []), sl_base64 = (\<lambda>_. None), sl_json_string = (\<lambda>_. None),
      sl_entropy_high = (\<lambda>_ _. False)\<rparr>"

definition demo_scan_limits :: scan_limits where
  "demo_scan_limits =
     \<lparr>max_file_bytes = 20, max_total_bytes = 30, max_files = 2, max_entries = 4, max_depth = 1, max_duration = 1, max_findings = 2\<rparr>"

definition demo_home :: scan_path where
  "demo_home = ScanPath True [ascii ''h'']"

definition demo_sub :: scan_path where
  "demo_sub = child_path demo_home (ascii ''d'')"

definition demo_text :: str where
  "demo_text = ascii ''a
token=k7''"

definition demo_fs :: file_system where
  "demo_fs =
     \<lparr>fs_meta = (\<lambda>p. if p = demo_home \<or> p = demo_sub then Some \<lparr>fm_kind = Folder, fm_len = 0\<rparr>
        else if p = child_path demo_sub (ascii ''f'') then Some \<lparr>fm_kind = RegularFile, fm_len = 10\<rparr> else None),
      fs_is_file = (\<lambda>_. False),
      fs_read_dir = (\<lambda>p. if p = demo_home then Some [Some (ascii ''d'', Some Folder), Some (ascii ''l'', Some Symlink)]
        else if p = demo_sub then Some [Some (ascii ''f'', Some RegularFile)] else None),
      fs_open = (\<lambda>p. if p = child_path demo_sub (ascii ''f'') then Opened \<lparr>of_bytes = demo_text, of_fails = False\<rparr> else OpenFailed)\<rparr>"

definition demo_scan_world :: scan_world where
  "demo_scan_world = \<lparr>sw_lib = demo_scan_lib, sw_cancelled = (\<lambda>_. False), sw_elapsed = (\<lambda>_. 0), sw_fs = (\<lambda>_. demo_fs)\<rparr>"

definition demo_scan_report :: scan_report where
  "demo_scan_report =
     \<lparr>sp_findings = [\<lparr>sf_path = child_path demo_sub (ascii ''f''), sf_line = 2, sf_rule = CredentialAssignment\<rparr>],
      sp_files_scanned = 1, sp_skipped_files = 1, sp_incomplete = False, sp_roots = [demo_home]\<rparr>"


lemma demo_path_simps [simp]:
  "demo_sub \<noteq> demo_home" "demo_home \<noteq> demo_sub" "child_path demo_home (ascii ''d'') = demo_sub" "path_is_absolute demo_home"
  by (simp_all add: demo_sub_def demo_home_def child_path_def)

lemma demo_not_interrupted: "interrupted demo_scan_world demo_scan_limits k = False"
  by (simp add: interrupted_def demo_scan_world_def demo_scan_limits_def)

lemma demo_trim: "trim (ascii ''k7'') = ascii ''k7''"
proof -
  have "ascii ''k7'' = [0x6b, 0x37]" by code_simp
  then show ?thesis by (simp add: trim_def chars_ascii is_whitespace_def codepoint_def)
qed

lemma demo_plausible: "plausible_value (ascii ''k7'')"
proof -
  have "to_ascii_lowercase (ascii ''k7'') = ascii ''k7''" "strip_prefix (ascii ''$'') (ascii ''k7'') = None"
    "\<not> starts_with (ascii ''$('') (ascii ''k7'')" "\<not> contains_sub (ascii ''${'') (ascii ''k7'')" "\<not> contains_sub (ascii ''{{'') (ascii ''k7'')"
    "\<not> starts_with (ascii ''<'') (ascii ''k7'')" "\<not> starts_with (ascii ''your_'') (ascii ''k7'')" "\<not> starts_with (ascii ''your-'') (ascii ''k7'')"
    "\<not> starts_with (ascii ''your '') (ascii ''k7'')" "\<not> starts_with (ascii ''replace_'') (ascii ''k7'')" "\<not> starts_with (ascii ''insert_'') (ascii ''k7'')"
    "ascii ''k7'' \<noteq> []" "\<not> list_all (\<lambda>b. b \<in> set (ascii ''x*-'')) (ascii ''k7'')"
    "ascii ''k7'' \<notin> set (map ascii [''null'', ''none'', ''true'', ''false'', ''changeme'', ''change_me'', ''placeholder'', ''example'', ''dummy'', ''redacted''])"
    by (code_simp+)
  then show ?thesis by (simp add: plausible_value_def demo_trim)
qed

lemma demo_classify: "classify_assignment demo_scan_lib demo_text ((2, 7), (8, 10)) = Some \<lparr>de_range = (8, 10), de_rule = CredentialAssignment\<rparr>"
proof -
  have "text_of demo_text (8, 10) = ascii ''k7''" "text_of demo_text (2, 7) = ascii ''token''"
    "\<not> starts_with (ascii ''#'') (ascii ''k7'')" "scalar_range demo_text (2, 7) (8, 10) = Some (8, 10)"
    "decoded demo_scan_lib (ascii ''k7'') = ascii ''k7''" "decoded demo_scan_lib (ascii ''token'') = ascii ''token''"
    "\<not> encrypted_value demo_scan_lib (ascii ''k7'')" "value_rule demo_scan_lib (ascii ''token'') (ascii ''k7'') = Some CredentialAssignment"
    by (code_simp+)
  then show ?thesis by (simp add: classify_assignment_def demo_plausible)
qed

lemma demo_detect:
  "0 < n \<Longrightarrow> detect demo_scan_lib demo_text n (\<lambda>_. False) m = ([\<lparr>de_range = (8, 10), de_rule = CredentialAssignment\<rparr>], False, m + 2)"
  using demo_classify
  by (simp add: detect_def pattern_detections_def marked_def demo_scan_lib_def demo_text_def record_detection_def add_detection_def)

lemma demo_valid: "valid_utf8 demo_text" "0 \<notin> set demo_text" "length demo_text = 10"
  by (code_simp+)

text \<open>When no file of the list exists, the first pass only lets time go by.\<close>

lemma push_parts_moment: "\<exists>q safe' m. push_parts w names p safe s = (q, safe', s\<lparr>sc_moment := m\<rparr>)"
proof (induction names arbitrary: p s)
  case Nil
  then show ?case by (cases s) auto
next
  case (Cons name names)
  from Cons.IH [of "child_path p name" "pass_moment s"] show ?case by (auto simp: Let_def pass_moment_def)
qed

lemma priority_file_moment:
  assumes "\<And>k p. \<not> fs_is_file (sw_fs w k) p"
  shows "\<exists>m. priority_file w l root relative s = s\<lparr>sc_moment := m\<rparr>"
proof -
  obtain q safe m where "push_parts w (split_at 0x2f [] relative) root
      (map_option fm_kind (fs_meta (sw_fs w (sc_moment s)) root) = Some Folder) (pass_moment s) = (q, safe, (pass_moment s)\<lparr>sc_moment := m\<rparr>)"
    using push_parts_moment by blast
  then show ?thesis using assms by (auto simp: priority_file_def Let_def pass_moment_def)
qed

lemma priority_files_moment:
  assumes "\<And>k p. \<not> fs_is_file (sw_fs w k) p" and "\<And>k. \<not> interrupted w l k" and "sp_files_scanned (sc_report s) < max_files l"
    and "length (sp_findings (sc_report s)) < max_findings l"
  shows "\<exists>m. priority_files_from w l root rs s = s\<lparr>sc_moment := m\<rparr>"
  using assms(3,4)
proof (induction rs arbitrary: s)
  case Nil
  then show ?case by (cases s) auto
next
  case (Cons relative rs)
  then have st: "stopped w l s = (False, pass_moment s)" using assms(2) by (simp add: stopped_def)
  obtain m where "priority_file w l root relative (pass_moment s) = (pass_moment s)\<lparr>sc_moment := m\<rparr>"
    using priority_file_moment [OF assms(1)] by blast
  with Cons.IH [of "(pass_moment s)\<lparr>sc_moment := m\<rparr>"] Cons.prems st show ?case by (auto simp: pass_moment_def)
qed

abbreviation demo_file :: scan_path where
  "demo_file \<equiv> child_path demo_sub (ascii ''f'')"

lemma demo_world_simps [simp]:
  "sw_fs demo_scan_world k = demo_fs" "sw_lib demo_scan_world = demo_scan_lib"
  "interrupted demo_scan_world demo_scan_limits = (\<lambda>_. False)"
  by (simp_all add: demo_scan_world_def fun_eq_iff interrupted_def demo_scan_limits_def)

lemma demo_limits_simps [simp]:
  "max_file_bytes demo_scan_limits = 20" "max_total_bytes demo_scan_limits = 30" "max_files demo_scan_limits = 2"
  "max_entries demo_scan_limits = 4" "max_depth demo_scan_limits = 1" "max_findings demo_scan_limits = 2"
  by (simp_all add: demo_scan_limits_def)

lemma demo_fs_simps [simp]:
  "fs_meta demo_fs demo_home = Some \<lparr>fm_kind = Folder, fm_len = 0\<rparr>" "fs_meta demo_fs demo_sub = Some \<lparr>fm_kind = Folder, fm_len = 0\<rparr>"
  "fs_meta demo_fs demo_file = Some \<lparr>fm_kind = RegularFile, fm_len = 10\<rparr>" "\<not> fs_is_file demo_fs p"
  "fs_read_dir demo_fs demo_home = Some [Some (ascii ''d'', Some Folder), Some (ascii ''l'', Some Symlink)]"
  "fs_read_dir demo_fs demo_sub = Some [Some (ascii ''f'', Some RegularFile)]"
  "fs_open demo_fs demo_file = Opened \<lparr>of_bytes = demo_text, of_fails = False\<rparr>"
  by (simp_all add: demo_fs_def) (simp_all add: demo_sub_def demo_home_def child_path_def)

lemma demo_stopped: "sp_findings (sc_report s) = [] \<Longrightarrow> sp_files_scanned (sc_report s) = 0 \<Longrightarrow>
    stopped demo_scan_world demo_scan_limits s = (False, pass_moment s)"
  by (simp add: stopped_def)

lemma demo_scan_file:
  assumes "sp_findings (sc_report s) = []" "sp_files_scanned (sc_report s) = 0" "sc_total_bytes s = 0" "sc_display_root s = None"
    "demo_file \<notin> sc_seen_files s"
  shows "scan_file demo_scan_world demo_scan_limits demo_file s =
    s\<lparr>sc_seen_files := insert demo_file (sc_seen_files s), sc_total_bytes := 10, sc_moment := sc_moment s + 4,
      sc_report := (sc_report s)\<lparr>sp_files_scanned := 1, sp_findings := [\<lparr>sf_path = demo_file, sf_line = Suc (Suc 0), sf_rule = CredentialAssignment\<rparr>]\<rparr>\<rparr>"
proof -
  have "count_list (slice 0 8 demo_text) 0x0a = 1" by code_simp
  moreover have "(30 :: u64) > 20" "(20 :: u64) > 10" by simp_all
  ultimately show ?thesis using assms demo_detect [of 2] demo_valid
    by (simp add: scan_file_def read_file_def scan_bytes_def scan_text_def read_at_most_def saturating_add_def saturating_sub_def
        display_path_def pass_moment_def on_report_def)
qed

lemma demo_not_ignored: "\<not> ignored_directory (ascii ''d'')"
  by code_simp

lemma demo_walk:
  "sc_report (walk demo_scan_world demo_scan_limits demo_home 0
     ((on_report (\<lambda>r. r\<lparr>sp_roots := [demo_home]\<rparr>) (pass_moment (new_scanner None)))\<lparr>sc_moment := m\<rparr>)) = demo_scan_report"
  by (simp add: walk_def walk_directory_def demo_stopped walk_entry_def demo_not_ignored demo_scan_file
      pass_moment_def on_report_def skip_file_def new_scanner_def stopped_def demo_scan_report_def)

lemma demo_scan: "scan_user_files demo_scan_world demo_scan_limits demo_home [] = Some demo_scan_report"
proof -
  let ?s0 = "on_report (\<lambda>r. r\<lparr>sp_roots := [demo_home]\<rparr>) (pass_moment (new_scanner None))"
  obtain m where "priority_files_from demo_scan_world demo_scan_limits demo_home PRIORITY ?s0 = ?s0\<lparr>sc_moment := m\<rparr>"
    using priority_files_moment [of demo_scan_world demo_scan_limits ?s0 demo_home PRIORITY]
    by (auto simp: on_report_def pass_moment_def new_scanner_def)
  then show ?thesis by (simp add: scan_user_files_def scan_roots_def priority_files_def demo_walk)
qed


theorem scan_findings_grounded_witness:
  "\<exists>f k file e. sp_findings demo_scan_report = [f] \<and> fs_open (sw_fs demo_scan_world k) (sf_path f) = Opened file \<and>
     e \<in> set (candidates (sw_lib demo_scan_world) (of_bytes file)) \<and> sf_rule f = de_rule e \<and>
     sf_line f = 1 + count_list (take (fst (de_range e)) (of_bytes file)) 0x0a"
proof -
  obtain f where f: "sp_findings demo_scan_report = [f]" by (simp add: demo_scan_report_def)
  then show ?thesis using scan_findings_grounded [OF demo_scan] by simp
qed

end
