(* ===== verification/Ladon_Ipc.thy ===== *)
theory Ladon_Ipc
  imports Ladon_Agent
begin

unbundle bit_operations_syntax

text \<open>
  The local endpoint (\<open>crates/ladon-app/src/ipc.rs\<close>): the socket with its directory and permissions, the frames read from a stream, the
  server side of a connection with the monitor that notices a client who leaves, and the client side. The loop that
  accepts connections (\<open>start_inner\<close> of \<open>agent_broker.rs\<close>) is here as well. What the kernel answers is an input; what is done to the file system
  is returned as a list of actions.
\<close>

section \<open>Reading frames\<close>

datatype io_kind =
    KUnexpectedEof | KConnectionReset | KConnectionAborted | KWouldBlock | KTimedOut | KInterrupted | KConnectionRefused
  | KNotFound | KAddrInUse | KOther

text \<open>What a stream gives to its reader: bytes in pieces, failures, and then the end.\<close>

datatype read_event = Received "byte list" | ReadFails io_kind

fun read_exact :: "nat \<Rightarrow> read_event list \<Rightarrow> (io_kind + byte list) \<times> read_event list" where
  "read_exact n [] = (if n = 0 then (Inr [], []) else (Inl KUnexpectedEof, []))"
| "read_exact n (Received bs # es) =
     (if n = 0 then (Inr [], Received bs # es)
      else if n \<le> length bs then (Inr (take n bs), Received (drop n bs) # es)
      else case read_exact (n - length bs) es of
        (Inl k, rest) \<Rightarrow> (Inl k, rest)
      | (Inr later, rest) \<Rightarrow> (Inr (bs @ later), rest))"
| "read_exact n (ReadFails k # es) =
     (if n = 0 then (Inr [], ReadFails k # es) else if k = KInterrupted then read_exact n es else (Inl k, es))"

definition frame_read_error :: "io_kind \<Rightarrow> ladon_error" where
  "frame_read_error k =
     (if k \<in> {KUnexpectedEof, KConnectionReset, KConnectionAborted} then IpcDisconnected
      else if k \<in> {KWouldBlock, KTimedOut} then IpcTimeout
      else EndpointUnavailable)"

definition read_frame :: "read_event list \<Rightarrow> byte list res \<times> read_event list" where
  "read_frame es =
     (case read_exact 4 es of
        (Inl k, es1) \<Rightarrow> (Inl (frame_read_error k), es1)
      | (Inr header, es1) \<Rightarrow>
          (let declared = be_nat header
           in if declared = 0 then (Inl InvalidFrame, es1)
              else if declared > MAX_FRAME_BYTES then (Inl FrameTooLarge, es1)
              else case read_exact declared es1 of
                (Inl k, es2) \<Rightarrow> (Inl (frame_read_error k), es2)
              | (Inr payload, es2) \<Rightarrow> (Inr (header @ payload), es2)))"

text \<open>A request that cannot be accepted is answered when its identity can be read, whether the peer is still there or not.\<close>

definition read_request :: "json_lib \<Rightarrow> read_event list \<Rightarrow> rpc_request res \<times> byte list \<times> read_event list" where
  "read_request js es =
     (case read_frame es of
        (Inl e, es1) \<Rightarrow> (Inl e, [], es1)
      | (Inr frame, es1) \<Rightarrow>
          (case decode_request_frame js frame of
             Inr request \<Rightarrow> (Inr request, [], es1)
           | Inl e \<Rightarrow>
               (Inl e, case request_error_response js frame e of
                  None \<Rightarrow> []
                | Some response \<Rightarrow> (case encode_response_frame js response of Inl _ \<Rightarrow> [] | Inr reply \<Rightarrow> reply), es1)))"

section \<open>The endpoint\<close>

datatype node_kind = DirectoryNode | SocketNode | OtherNode

record node_meta =
  nm_kind :: node_kind
  nm_uid :: u32
  nm_mode :: u32

definition private_mode :: "u32 \<Rightarrow> bool" where
  "private_mode mode = (mode AND 0x3f = 0)"

datatype endpoint_action = MakeParent | CloseParent | RemoveEndpoint | BindEndpoint | CloseEndpoint

text \<open>The answers of the operating system while an endpoint is bound.\<close>

record bind_io =
  bd_has_parent :: bool
  bd_parent_exists :: bool
  bd_make_parent :: bool
  bd_close_parent :: bool
  bd_parent_meta :: "node_meta option"
  bd_stale_meta :: "node_meta option"
  bd_connect :: "io_kind option"
  bd_remove :: bool
  bd_bind :: "io_kind option"
  bd_close_endpoint :: bool
  bd_endpoint_meta :: "node_meta option"

definition when_ok :: "bool \<Rightarrow> ladon_error \<Rightarrow> unit res" where
  "when_ok ok e = (if ok then Inr () else Inl e)"

definition prepare_parent :: "u32 \<Rightarrow> bind_io \<Rightarrow> unit res \<times> endpoint_action list" where
  "prepare_parent euid io =
     (if \<not> bd_has_parent io then (Inl UnsafeEndpoint, [])
      else if \<not> bd_make_parent io then (Inl EndpointUnavailable, [MakeParent])
      else let did = (if bd_parent_exists io then [MakeParent] else [MakeParent, CloseParent])
        in if \<not> bd_parent_exists io \<and> \<not> bd_close_parent io then (Inl EndpointUnavailable, did)
           else case bd_parent_meta io of
             None \<Rightarrow> (Inl UnsafeEndpoint, did)
           | Some m \<Rightarrow>
               (when_ok (nm_kind m = DirectoryNode \<and> nm_uid m = euid \<and> private_mode (nm_mode m)) UnsafeEndpoint, did))"

definition recover_stale_endpoint :: "u32 \<Rightarrow> bind_io \<Rightarrow> unit res \<times> endpoint_action list" where
  "recover_stale_endpoint euid io =
     (case bd_stale_meta io of
        None \<Rightarrow> (Inr (), [])
      | Some m \<Rightarrow>
          if nm_kind m \<noteq> SocketNode \<or> nm_uid m \<noteq> euid then (Inl UnsafeEndpoint, [])
          else case bd_connect io of
            None \<Rightarrow> (Inl AlreadyRunning, [])
          | Some k \<Rightarrow>
              if k = KConnectionRefused \<or> k = KNotFound then (when_ok (bd_remove io) EndpointUnavailable, [RemoveEndpoint])
              else (Inl EndpointUnavailable, []))"

definition validate_endpoint :: "u32 \<Rightarrow> node_meta option \<Rightarrow> unit res" where
  "validate_endpoint euid meta =
     (case meta of
        None \<Rightarrow> Inl EndpointUnavailable
      | Some m \<Rightarrow> when_ok (nm_kind m = SocketNode \<and> nm_uid m = euid \<and> private_mode (nm_mode m)) UnsafeEndpoint)"

definition local_server_bind :: "u32 \<Rightarrow> bind_io \<Rightarrow> unit res \<times> endpoint_action list" where
  "local_server_bind euid io =
     (case prepare_parent euid io of
        (Inl e, did) \<Rightarrow> (Inl e, did)
      | (Inr _, did) \<Rightarrow>
          (case recover_stale_endpoint euid io of
             (Inl e, did') \<Rightarrow> (Inl e, did @ did')
           | (Inr _, did') \<Rightarrow>
               (case bd_bind io of
                  Some k \<Rightarrow> (Inl (if k = KAddrInUse then AlreadyRunning else EndpointUnavailable), did @ did')
                | None \<Rightarrow>
                    if \<not> bd_close_endpoint io then (Inl EndpointUnavailable, did @ did' @ [BindEndpoint])
                    else (validate_endpoint euid (bd_endpoint_meta io), did @ did' @ [BindEndpoint, CloseEndpoint]))))"

text \<open>\<open>Drop\<close>: only an endpoint that is still ours is removed.\<close>

definition drop_server :: "u32 \<Rightarrow> node_meta option \<Rightarrow> endpoint_action list" where
  "drop_server euid meta = (if validate_endpoint euid meta = Inr () then [RemoveEndpoint] else [])"

definition default_endpoint_path :: "str option \<Rightarrow> str \<Rightarrow> u32 \<Rightarrow> str" where
  "default_endpoint_path runtime temp euid =
     (let private = path_join (path_join temp (ascii ''ladon-'' @ decimal (unat euid))) (ascii ''broker.sock'')
      in case runtime of
           Some r \<Rightarrow> if starts_with (ascii ''/'') r then path_join (path_join r (ascii ''ladon'')) (ascii ''broker.sock'') else private
         | None \<Rightarrow> private)"

section \<open>Peers\<close>

text \<open>\<open>peer_uid\<close> is what the kernel says of the other side, \<open>None\<close> when the call fails.\<close>

definition verify_peer :: "u32 \<Rightarrow> u32 option \<Rightarrow> unit res" where
  "verify_peer euid peer_uid = when_ok (peer_uid = Some euid) InvalidPeer"

record accept_io =
  ac_accept :: "io_kind option"
  ac_configure :: bool
  ac_peer :: "u32 option"

text \<open>Whether a connection was accepted.\<close>

definition try_accept :: "u32 \<Rightarrow> accept_io \<Rightarrow> bool res" where
  "try_accept euid io =
     (case ac_accept io of
        Some k \<Rightarrow> if k = KWouldBlock then Inr False else Inl EndpointUnavailable
      | None \<Rightarrow>
          and_then (when_ok (ac_configure io) EndpointUnavailable) (\<lambda>_.
          and_then (verify_peer euid (ac_peer io)) (\<lambda>_. Inr True)))"

text \<open>\<open>serve_once\<close> and \<open>try_serve_once\<close>, with a handler that is a function: the value says whether a request was served. A write is whole or
  fails.\<close>

definition answer_one :: "json_lib \<Rightarrow> bool \<Rightarrow> (rpc_request \<Rightarrow> rpc_response) \<Rightarrow> read_event list \<Rightarrow> unit res \<times> byte list" where
  "answer_one js write_ok handler es =
     (case read_request js es of
        (Inl e, reply, _) \<Rightarrow> (Inl e, reply)
      | (Inr request, _, _) \<Rightarrow>
          (case encode_response_frame js (handler request) of
             Inl e \<Rightarrow> (Inl e, [])
           | Inr frame \<Rightarrow> if write_ok then (Inr (), frame) else (Inl EndpointUnavailable, [])))"

definition try_serve_once ::
    "u32 \<Rightarrow> json_lib \<Rightarrow> accept_io \<Rightarrow> bool \<Rightarrow> (rpc_request \<Rightarrow> rpc_response) \<Rightarrow> read_event list \<Rightarrow> bool res \<times> byte list" where
  "try_serve_once euid js io write_ok handler es =
     (case try_accept euid io of
        Inl e \<Rightarrow> (Inl e, [])
      | Inr False \<Rightarrow> (Inr False, [])
      | Inr True \<Rightarrow> (case answer_one js write_ok handler es of (x, written) \<Rightarrow> (map_sum id (\<lambda>_. True) x, written)))"

definition serve_once ::
    "u32 \<Rightarrow> json_lib \<Rightarrow> accept_io \<Rightarrow> bool \<Rightarrow> (rpc_request \<Rightarrow> rpc_response) \<Rightarrow> read_event list \<Rightarrow> unit res \<times> byte list" where
  "serve_once euid js io write_ok handler es =
     (if ac_accept io \<noteq> None then (Inl EndpointUnavailable, [])
      else case try_accept euid io of Inl e \<Rightarrow> (Inl e, []) | Inr _ \<Rightarrow> answer_one js write_ok handler es)"

section \<open>The server side of a connection\<close>

text \<open>The monitor of a connection: the answers of its reads are numbered. The value says whether it cancelled the token; it is
  \<open>None\<close> if it never ends.\<close>

datatype monitor_read = MonitorEnd | MonitorByte | MonitorFails io_kind

definition monitor_cancels :: "monitor_read \<Rightarrow> bool" where
  "monitor_cancels a =
     (case a of MonitorEnd \<Rightarrow> True | MonitorByte \<Rightarrow> True | MonitorFails k \<Rightarrow> k \<notin> {KWouldBlock, KTimedOut, KInterrupted})"

partial_function (option) monitor :: "(nat \<Rightarrow> bool) \<Rightarrow> (nat \<Rightarrow> monitor_read) \<Rightarrow> nat \<Rightarrow> bool option" where
  "monitor stop answers k =
     (if stop k then Some False else if monitor_cancels (answers k) then Some True else monitor stop answers (Suc k))"

record serve_io =
  sv_monitor :: bool
  sv_write :: bool

text \<open>\<open>serve\<close>, with the handler of the broker: the result, the bytes written and the state. The connection of a session stays until
  its token is cancelled.\<close>

definition wait_cancelled :: "agent_env \<Rightarrow> token \<Rightarrow> handler_state \<Rightarrow> (unit \<times> handler_state) option" where
  "wait_cancelled env t = await env (\<lambda>r now w. (if is_cancelled (aw_approval w) t then Some () else None, w))"

definition cancel_connection :: "agent_env \<Rightarrow> token \<Rightarrow> handler_state \<Rightarrow> handler_state" where
  "cancel_connection env t s =
     snd (critical env (\<lambda>r now w. ((), w\<lparr>aw_approval := cancel_tokens [t] (aw_approval w)\<rparr>)) s)"

definition write_response :: "json_lib \<Rightarrow> serve_io \<Rightarrow> rpc_response \<Rightarrow> unit res \<times> byte list" where
  "write_response js io response =
     (case encode_response_frame js response of
        Inl e \<Rightarrow> (Inl e, [])
      | Inr frame \<Rightarrow> if sv_write io then (Inr (), frame) else (Inl EndpointUnavailable, []))"

definition serve_request ::
    "agent_env \<Rightarrow> 'r agent_libs \<Rightarrow> json_lib \<Rightarrow> serve_io \<Rightarrow> token \<Rightarrow> rpc_request \<Rightarrow> handler_state \<Rightarrow> (unit res \<times> byte list \<times> handler_state) option" where
  "serve_request env al js io t request s =
     Option.bind (handle env al request t s) (\<lambda>(response, s1).
       let is_session_open = (rq_method request = SessionOpenMethod);
           session_opened = (is_session_open \<and> response_result response = Some SessionOpenedResult);
           (write_result, written) = write_response js io response
       in if \<not> is_session_open then Some (write_result, written, s1)
          else if session_opened \<and> write_result = Inr ()
          then map_option (\<lambda>(_, s2). (write_result, written, s2)) (wait_cancelled env t s1)
          else Some (write_result, written, cancel_connection env t s1))"

definition serve_connection ::
    "agent_env \<Rightarrow> 'r agent_libs \<Rightarrow> json_lib \<Rightarrow> serve_io \<Rightarrow> token \<Rightarrow> read_event list \<Rightarrow> handler_state \<Rightarrow> (unit res \<times> byte list \<times> handler_state) option" where
  "serve_connection env al js io t es s =
     (case read_request js es of
        (Inl e, reply, _) \<Rightarrow> Some (Inl e, reply, s)
      | (Inr request, _, _) \<Rightarrow>
          if \<not> sv_monitor io then Some (Inl EndpointUnavailable, [], s) else serve_request env al js io t request s)"

section \<open>The client side\<close>

record exchange_io =
  ex_endpoint :: "node_meta option"
  ex_connect :: bool
  ex_peer :: "u32 option"
  ex_write :: bool
  ex_reply :: "read_event list"

definition response_decode_error :: "ladon_error \<Rightarrow> ladon_error" where
  "response_decode_error e = (if e = InvalidRequest then InvalidResponse else e)"

definition exchange :: "u32 \<Rightarrow> json_lib \<Rightarrow> exchange_io \<Rightarrow> rpc_request \<Rightarrow> rpc_response res" where
  "exchange euid js io request =
     and_then (validate_endpoint euid (ex_endpoint io)) (\<lambda>_.
     and_then (when_ok (ex_connect io) EndpointUnavailable) (\<lambda>_.
     and_then (verify_peer euid (ex_peer io)) (\<lambda>_.
     and_then (encode_request_frame js request) (\<lambda>frame.
     and_then (when_ok (ex_write io) EndpointUnavailable) (\<lambda>_.
     and_then (fst (read_frame (ex_reply io))) (\<lambda>reply.
     and_then (case decode_response_frame js reply of Inl e \<Rightarrow> Inl (response_decode_error e) | Inr response \<Rightarrow> Inr response) (\<lambda>response.
     if rs_request_id response \<noteq> rq_request_id request then Inl InvalidResponse else Inr response)))))))"

definition client_call :: "u32 \<Rightarrow> json_lib \<Rightarrow> exchange_io \<Rightarrow> rpc_request \<Rightarrow> rpc_response res" where
  "client_call euid js io request = exchange euid js io request"

text \<open>\<open>from_code\<close> on the bytes of a code.\<close>

definition error_from_code :: "str \<Rightarrow> ladon_error option" where
  "error_from_code c = map_of (map (\<lambda>(name, e). (ascii name, e)) code_table) c"

definition open_session :: "u32 \<Rightarrow> json_lib \<Rightarrow> exchange_io \<Rightarrow> rpc_request \<Rightarrow> unit res" where
  "open_session euid js io request =
     (if rq_method request \<noteq> SessionOpenMethod then Inl InvalidRequest
      else and_then (exchange euid js io request) (\<lambda>response.
        case error_details response of
          Some (c, _) \<Rightarrow> Inl (case error_from_code c of Some e \<Rightarrow> e | None \<Rightarrow> InvalidResponse)
        | None \<Rightarrow> if response_result response \<noteq> Some SessionOpenedResult then Inl InvalidResponse else Inr ()))"

text \<open>The answer of \<open>recv\<close> with \<open>MSG_PEEK | MSG_DONTWAIT\<close>: a number of bytes, or the kind of the failure.\<close>

definition is_connected :: "nat + io_kind \<Rightarrow> bool" where
  "is_connected received = (received = Inr KWouldBlock)"

section \<open>Accepting connections\<close>

definition MAX_CONNECTION_WORKERS :: nat where
  "MAX_CONNECTION_WORKERS = MAX_TRACKED_SESSIONS + 8"

text \<open>\<open>swap_remove\<close> puts the last element where one is taken out.\<close>

definition swap_remove :: "nat \<Rightarrow> 'a list \<Rightarrow> 'a list" where
  "swap_remove i xs = butlast (xs[i := last xs])"

function reap :: "('a \<Rightarrow> bool) \<Rightarrow> nat \<Rightarrow> 'a list \<Rightarrow> 'a list" where
  "reap finished i workers =
     (if i < length workers
      then if finished (workers ! i) then reap finished i (swap_remove i workers) else reap finished (Suc i) workers
      else workers)"
  by pat_completeness auto

termination
  by (relation "measures [\<lambda>(_, _, ws). length ws, \<lambda>(_, i, ws). length ws - i]") (auto simp: swap_remove_def)

declare reap.simps [simp del]

text \<open>One turn of the loop; \<open>w\<close> names the worker that a new connection gets.\<close>

definition accept_turn :: "u32 \<Rightarrow> ('a \<Rightarrow> bool) \<times> accept_io \<times> 'a \<Rightarrow> 'a list \<Rightarrow> 'a list" where
  "accept_turn euid turn workers =
     (case turn of (finished, io, w) \<Rightarrow>
        let workers' = reap finished 0 workers
        in if try_accept euid io = Inr True \<and> length workers' < MAX_CONNECTION_WORKERS then workers' @ [w] else workers')"

section \<open>Starting the broker\<close>

text \<open>\<open>start_inner\<close> with the outcome of \<open>set_nonblocking\<close>; a server that is given up removes its endpoint. The shared state of a broker that starts has
  fresh coordinators, one for the window too when the desktop starts it.\<close>

definition start_inner :: "u32 \<Rightarrow> bind_io \<Rightarrow> bool \<Rightarrow> unit res \<times> endpoint_action list" where
  "start_inner euid io nonblocking =
     (case local_server_bind euid io of
        (Inl e, did) \<Rightarrow> (Inl e, did)
      | (Inr _, did) \<Rightarrow>
          if nonblocking then (Inr (), did) else (Inl EndpointUnavailable, did @ drop_server euid (bd_endpoint_meta io)))"

definition start_world :: "bool \<Rightarrow> vault_controller \<Rightarrow> agent_world" where
  "start_world for_desktop controller =
     \<lparr>aw_approval = new_coordinator DEFAULT_GRANT_LIFETIME, aw_runs = default_coordinator, aw_controller = controller,
      aw_ui = (if for_desktop then Some new_ui_lock else None), aw_supervisor = new_supervisor, aw_shutting_down = False\<rparr>"

end
