(* ===== verification/Ladon_Ipc_Properties.thy ===== *)
theory Ladon_Ipc_Properties
  imports Ladon_Ipc Ladon_Local_Properties "HOL-Library.Multiset"
begin

text \<open>
  What the local endpoint promises: a call through it gives what the handler answers, however the kernel cuts the bytes; the socket is one that only
  its user can reach; the connection of a session does not end before its token is cancelled; and the number of workers is bounded.
\<close>

section \<open>Frames arrive whole\<close>

fun bytes_of :: "read_event list \<Rightarrow> byte list" where
  "bytes_of [] = []"
| "bytes_of (Received bs # es) = bs @ bytes_of es"
| "bytes_of (ReadFails k # es) = bytes_of es"

text \<open>A stream on which reads fail only because a signal interrupts them.\<close>

definition intact :: "read_event list \<Rightarrow> bool" where
  "intact es = (\<forall>k. ReadFails k \<in> set es \<longrightarrow> k = KInterrupted)"

lemma intact_simps [simp]:
  "intact []" "intact (Received bs # es) = intact es" "intact (ReadFails k # es) = (k = KInterrupted \<and> intact es)"
  by (auto simp: intact_def)

lemma read_exact_intact:
  assumes "intact es" and "n \<le> length (bytes_of es)"
  shows "\<exists>rest. read_exact n es = (Inr (take n (bytes_of es)), rest) \<and> intact rest \<and> bytes_of rest = drop n (bytes_of es)"
  using assms
proof (induction n es rule: read_exact.induct)
  case (2 n bs es)
  show ?case
  proof (cases "n \<le> length bs")
    case True
    with "2.prems" show ?thesis by auto
  next
    case False
    have "n - length bs \<le> length (bytes_of es)" using "2.prems"(2) by simp
    with False "2.IH" "2.prems"(1) obtain rest where "read_exact (n - length bs) es = (Inr (take (n - length bs) (bytes_of es)), rest)"
      "intact rest" "bytes_of rest = drop (n - length bs) (bytes_of es)" by auto
    with False show ?thesis by auto
  qed
qed auto

lemma read_exact_sound:
  "read_exact n es = (Inr bs, rest) \<Longrightarrow> length bs = n \<and> bytes_of es = bs @ bytes_of rest"
proof (induction n es arbitrary: bs rest rule: read_exact.induct)
  case (2 n ds es)
  show ?case
  proof (cases "n \<le> length ds")
    case True
    with "2.prems" show ?thesis by (auto split: if_splits)
  next
    case False
    with "2.prems" obtain later where r: "read_exact (n - length ds) es = (Inr later, rest)" "bs = ds @ later"
      by (auto split: prod.splits sum.splits)
    with "2.IH" [of later rest] False show ?thesis by auto
  qed
qed (auto split: if_splits)

lemma read_frame_intact:
  assumes "intact es" and "bytes_of es = be_bytes 4 (length p) @ p @ rest" and "p \<noteq> []" and "length p \<le> MAX_FRAME_BYTES"
  shows "\<exists>es'. read_frame es = (Inr (be_bytes 4 (length p) @ p), es') \<and> intact es' \<and> bytes_of es' = rest"
proof -
  have len: "length (be_bytes 4 (length p)) = 4" by (simp del: be_bytes.simps)
  have small: "length p < 256 ^ 4" using assms(4) by (simp add: MAX_FRAME_BYTES_def)
  obtain es1 where h: "read_exact 4 es = (Inr (be_bytes 4 (length p)), es1)" "intact es1" "bytes_of es1 = p @ rest"
    using read_exact_intact [OF assms(1), of 4] assms(2) len by (auto simp del: be_bytes.simps)
  obtain es2 where "read_exact (length p) es1 = (Inr p, es2)" "intact es2" "bytes_of es2 = rest"
    using read_exact_intact [OF h(2), of "length p"] h(3) by auto
  with h small assms(3,4) show ?thesis by (simp add: read_frame_def be_nat_be_bytes del: be_bytes.simps)
qed

lemma read_frame_sound:
  assumes "read_frame es = (Inr frame, es')"
  shows "bytes_of es = frame @ bytes_of es' \<and> (\<exists>p. frame = be_bytes 4 (length p) @ p \<and> p \<noteq> [] \<and> length p \<le> MAX_FRAME_BYTES)"
proof -
  from assms obtain header es1 p where h: "read_exact 4 es = (Inr header, es1)" "be_nat header \<noteq> 0" "be_nat header \<le> MAX_FRAME_BYTES"
    "read_exact (be_nat header) es1 = (Inr p, es')" "frame = header @ p"
    by (auto simp: read_frame_def Let_def split: prod.splits sum.splits if_splits)
  from read_exact_sound [OF h(1)] read_exact_sound [OF h(4)] h
  have "bytes_of es = frame @ bytes_of es'" "length p = be_nat header" "length header = 4" by auto
  moreover have "be_bytes 4 (length p) = header" using be_bytes_be_nat [of header 4] calculation(2,3) by simp
  ultimately show ?thesis using h(2,3,5) by (auto simp del: be_bytes.simps)
qed

section \<open>A call through the socket\<close>

lemma encoded_frame:
  "encode_frame json = Inr frame \<Longrightarrow> \<exists>p. frame = be_bytes 4 (length p) @ p \<and> p \<noteq> [] \<and> length p \<le> MAX_FRAME_BYTES"
  by (auto simp: encode_frame_def result_simps simp del: be_bytes.simps split: if_splits)

lemma read_encoded_frame:
  assumes "encode_frame json = Inr frame" and "intact es" and "bytes_of es = frame @ rest"
  shows "\<exists>es'. read_frame es = (Inr frame, es') \<and> intact es' \<and> bytes_of es' = rest"
proof -
  obtain p where p: "frame = be_bytes 4 (length p) @ p" "p \<noteq> []" "length p \<le> MAX_FRAME_BYTES" using encoded_frame [OF assms(1)] by blast
  show ?thesis using read_frame_intact [OF assms(2) _ p(2,3), of rest] assms(3) p(1) by (simp del: be_bytes.simps)
qed

lemma decode_encoded_request:
  assumes "json_laws js" and "encode_request_frame js request = Inr frame" and "validate_request request = Inr ()"
  shows "decode_request_frame js frame = Inr request"
  using assms payload_of_frame
  by (fastforce simp: encode_request_frame_def decode_request_frame_def validate_json_document_def json_laws_def)

lemma decode_encoded_response:
  assumes "json_laws js" and "encode_response_frame js response = Inr frame" and "rs_version response = PROTOCOL_VERSION"
  shows "decode_response_frame js frame = Inr response"
  using assms payload_of_frame
  by (fastforce simp: encode_response_frame_def decode_response_frame_def validate_json_document_def json_laws_def)

lemma read_request_delivers:
  assumes "json_laws js" and "encode_request_frame js request = Inr frame" and "validate_request request = Inr ()"
    and "intact es" and "bytes_of es = frame @ rest"
  shows "\<exists>es'. read_request js es = (Inr request, [], es') \<and> intact es' \<and> bytes_of es' = rest"
proof -
  obtain es' where "read_frame es = (Inr frame, es')" "intact es'" "bytes_of es' = rest"
    using read_encoded_frame [of "js_write_request js request" frame es rest] assms by (auto simp: encode_request_frame_def)
  then show ?thesis using decode_encoded_request [OF assms(1-3)] by (simp add: read_request_def)
qed

lemma handle_response:
  assumes "handle env al request t s = Some (response, s')"
  shows "rs_version response = PROTOCOL_VERSION \<and> rs_request_id response = rq_request_id request"
proof -
  from assms obtain a where "response = (case a of Inr result \<Rightarrow> response_success (rq_request_id request) result
      | Inl e \<Rightarrow> response_error (rq_request_id request) e)" by (auto simp: handle_def)
  then show ?thesis by (cases a) (simp_all add: response_success_def response_error_def)
qed

text \<open>The client's side of the exchange, when nothing fails on the way.\<close>

definition reachable_endpoint :: "u32 \<Rightarrow> exchange_io \<Rightarrow> bool" where
  "reachable_endpoint euid io =
     (validate_endpoint euid (ex_endpoint io) = Inr () \<and> ex_connect io \<and> ex_peer io = Some euid \<and> ex_write io)"

lemma exchange_delivers:
  assumes "json_laws js" and "encode_request_frame js request = Inr frame" and "reachable_endpoint euid io"
    and "encode_response_frame js response = Inr reply" and "rs_version response = PROTOCOL_VERSION"
    and "rs_request_id response = rq_request_id request" and "intact (ex_reply io)" and "bytes_of (ex_reply io) = reply @ rest"
  shows "exchange euid js io request = Inr response"
proof -
  obtain es' where "read_frame (ex_reply io) = (Inr reply, es')"
    using read_encoded_frame [of "js_write_response js response" reply "ex_reply io" rest] assms by (auto simp: encode_response_frame_def)
  then show ?thesis
    using assms decode_encoded_response [OF assms(1,4,5)] by (simp add: exchange_def reachable_endpoint_def when_ok_def verify_peer_def)
qed

lemma serve_request_plain:
  assumes "serve_request env al js io t request s = Some (x, written, s')" and "rq_method request \<noteq> SessionOpenMethod"
  shows "\<exists>response. handle env al request t s = Some (response, s') \<and> write_response js io response = (x, written)"
proof -
  obtain response s1 where h: "handle env al request t s = Some (response, s1)"
    using assms(1) by (auto simp: serve_request_def Option.bind_eq_Some_conv)
  obtain y bs where "write_response js io response = (y, bs)" by fastforce
  with h assms show ?thesis by (auto simp: serve_request_def)
qed

lemma case_decoded: "(case d of Inl e \<Rightarrow> Inl (g e) | Inr x \<Rightarrow> Inr x) = Inr y \<longleftrightarrow> d = Inr y"
  by (cases d) auto

text \<open>C16: A call through the socket is the call of the broker: when the endpoint is reached and a connection is served, the client gets exactly
  what \<open>handle\<close> answers to exactly the request it made, in whatever pieces the bytes arrive on either side, and the server's state is the one that
  \<open>handle\<close> leaves.\<close>

theorem remote_call_is_local:
  assumes "json_laws js" and "validate_request request = Inr ()" and "encode_request_frame js request = Inr frame"
    and "rq_method request \<noteq> SessionOpenMethod" and "sv_monitor sio" and "intact es" and "bytes_of es = frame @ extra"
    and "serve_connection env al js sio t es s = Some (Inr (), written, s')"
    and "reachable_endpoint euid io" and "intact (ex_reply io)" and "bytes_of (ex_reply io) = written @ later"
  shows "\<exists>response. handle env al request t s = Some (response, s') \<and> client_call euid js io request = Inr response"
proof -
  obtain es' where r: "read_request js es = (Inr request, [], es')"
    using read_request_delivers [OF assms(1,3,2,6,7)] by blast
  with assms(5,8) have "serve_request env al js sio t request s = Some (Inr (), written, s')" by (simp add: serve_connection_def)
  from serve_request_plain [OF this assms(4)] obtain response where h: "handle env al request t s = Some (response, s')"
    and w: "write_response js sio response = (Inr (), written)" by blast
  from w have "encode_response_frame js response = Inr written" by (auto simp: write_response_def split: sum.splits if_splits)
  from exchange_delivers [OF assms(1,3,9) this _ _ assms(10,11)] handle_response [OF h] h show ?thesis by (simp add: client_call_def)
qed

section \<open>Who can talk to whom\<close>


section \<open>The connection of a session\<close>

lemma wait_cancelled_ends: "wait_cancelled env t s = Some (u, s') \<Longrightarrow> is_cancelled (aw_approval (hs_world s')) t"
  unfolding wait_cancelled_def
  by (rule await_leads [where P = "\<lambda>_. True" and Q = "\<lambda>_ w. is_cancelled (aw_approval w) t"])
    (auto simp: others_keep_def split: if_splits)

lemma cancel_connection_cancels: "is_cancelled (aw_approval (hs_world (cancel_connection env t s))) t"
  by (simp add: cancel_connection_def critical_def is_cancelled_def cancel_tokens_def)

lemma serve_session_cancelled:
  assumes "serve_request env al js io t request s = Some (x, written, s')" and "rq_method request = SessionOpenMethod"
  shows "is_cancelled (aw_approval (hs_world s')) t"
proof -
  obtain response s1 where h: "handle env al request t s = Some (response, s1)"
    using assms(1) by (auto simp: serve_request_def Option.bind_eq_Some_conv)
  obtain y bs where w: "write_response js io response = (y, bs)" by fastforce
  show ?thesis
  proof (cases "response_result response = Some SessionOpenedResult \<and> y = Inr ()")
    case True
    with assms h w obtain u where "wait_cancelled env t s1 = Some (u, s')"
      by (auto simp: serve_request_def)
    then show ?thesis by (rule wait_cancelled_ends)
  next
    case False
    with assms h w have "s' = cancel_connection env t s1" by (auto simp: serve_request_def split: if_splits)
    then show ?thesis by (simp add: cancel_connection_cancels)
  qed
qed

text \<open>C19: The connection with which a client opens its session is served until the session's token is cancelled, or is cancelled at
  once when the session was refused or the answer could not be written. If the session is registered with this token when the connection ends, then
  the sweep that every access starts with removes it with all its grants.\<close>

theorem session_ends_with_connection:
  assumes "serve_connection env al js io t es s = Some (x, written, s')" and "read_request js es = (Inr request, reply, rest)"
    and "rq_method request = SessionOpenMethod" and "sv_monitor io"
    and "map_of (ap_client_sessions (aw_approval (hs_world s'))) c = Some t" and "store_wf (ap_grants (aw_approval (hs_world s')))"
  shows "map_of (ap_client_sessions (purge_disconnected_clients (aw_approval (hs_world s')))) c = None \<and>
    (\<forall>i. map_of (deadlines (ap_grants (purge_disconnected_clients (aw_approval (hs_world s'))))) (c, i) = None)"
proof -
  have "serve_request env al js io t request s = Some (x, written, s')" using assms(1,2,4) by (simp add: serve_connection_def)
  then have "is_cancelled (aw_approval (hs_world s')) t" using assms(3) by (rule serve_session_cancelled)
  then have "c \<in> set (disconnected_clients (aw_approval (hs_world s')))" using assms(5) by (rule purge_lists [rotated])
  then show ?thesis using fold_disconnect_get [OF assms(6)]
    by (simp add: purge_disconnected_clients_def fold_disconnect_sessions)
qed

text \<open>The monitor notices a client that leaves, or sends anything more, at its next read.\<close>

lemma monitor_notices:
  assumes "monitor_cancels (answers n)" and "\<And>j. k \<le> j \<Longrightarrow> j < n \<Longrightarrow> \<not> monitor_cancels (answers j)"
    and "\<And>j. k \<le> j \<Longrightarrow> j \<le> n \<Longrightarrow> \<not> stop j" and "k \<le> n"
  shows "monitor stop answers k = Some True"
  using assms(4,2,3)
proof (induction k rule: inc_induct)
  case base
  then show ?case using assms(1) by (subst monitor.simps) simp
next
  case (step k)
  then show ?case by (subst monitor.simps) (simp add: Suc_le_eq)
qed

section \<open>Workers\<close>

lemma mset_swap_remove: "i < length xs \<Longrightarrow> mset (swap_remove i xs) = mset xs - {#xs ! i#}"
proof -
  assume i: "i < length xs"
  then have ne: "xs[i := last xs] \<noteq> []" by auto
  have "xs \<noteq> []" using i by auto
  then have "last (xs[i := last xs]) = last xs" using i ne by (cases "i = length xs - 1") (simp_all add: last_conv_nth)
  moreover have "mset (butlast ys) = mset ys - {#last ys#}" if "ys \<noteq> []" for ys :: "'a list"
    using that by (induction ys rule: rev_induct) auto
  ultimately have "mset (swap_remove i xs) = mset (xs[i := last xs]) - {#last xs#}"
    using ne by (simp add: swap_remove_def)
  also have "\<dots> = mset xs - {#xs ! i#}" using i by (simp add: mset_update)
  finally show ?thesis .
qed

text \<open>The workers that are left are those that have not finished.\<close>

lemma reap_unfinished:
  assumes "\<forall>j < i. j < length ws \<longrightarrow> \<not> finished (ws ! j)"
  shows "mset (reap finished i ws) = filter_mset (\<lambda>w. \<not> finished w) (mset ws)"
  using assms
proof (induction finished i ws rule: reap.induct)
  case (1 finished i ws)
  show ?case
  proof (cases "i < length ws")
    case True
    show ?thesis
    proof (cases "finished (ws ! i)")
      case f: True
      have "\<not> finished (swap_remove i ws ! j)" if "j < i" "j < length (swap_remove i ws)" for j
        using that "1.prems" by (auto simp: swap_remove_def nth_butlast)
      with "1.IH"(1) True f have "mset (reap finished i (swap_remove i ws)) = filter_mset (\<lambda>w. \<not> finished w) (mset (swap_remove i ws))"
        by simp
      also have "\<dots> = filter_mset (\<lambda>w. \<not> finished w) (mset ws)"
        using True f by (simp add: mset_swap_remove)
      finally show ?thesis using True f by (simp add: reap.simps [of finished i ws])
    next
      case False
      then have "\<forall>j < Suc i. j < length ws \<longrightarrow> \<not> finished (ws ! j)" using "1.prems" by (auto simp: less_Suc_eq)
      with "1.IH"(2) True False show ?thesis by (simp add: reap.simps [of finished i ws])
    qed
  next
    case False
    with "1.prems" have "\<forall>w \<in> set ws. \<not> finished w" by (auto simp: in_set_conv_nth)
    then have "filter (\<lambda>w. \<not> finished w) ws = ws" by (simp add: filter_id_conv)
    then have "filter_mset (\<lambda>w. \<not> finished w) (mset ws) = mset ws" by (metis mset_filter)
    then show ?thesis using False by (simp add: reap.simps [of finished i ws])
  qed
qed

lemma reap_length: "length (reap finished 0 ws) \<le> length ws"
  using reap_unfinished [of 0 ws finished] by (metis less_nat_zero_code multiset_filter_subset size_mset size_mset_mono)

interpretation workers: op_machine "accept_turn euid" "\<lambda>ws. ws = []" "\<lambda>ws. length ws \<le> MAX_CONNECTION_WORKERS" for euid
proof (unfold_locales, goal_cases)
  case (2 ws turn)
  obtain finished io w where "turn = (finished, io, w)" using prod_cases3 by blast
  then show ?case using 2 reap_length [of finished ws] by (auto simp: accept_turn_def Let_def)
qed simp

section \<open>An exchange that is evaluated\<close>

definition reply_json :: "rpc_response \<Rightarrow> json_lib" where
  "reply_json response =
     \<lparr>js_document = (\<lambda>bs. if bs = [1] \<or> bs = [2] then Some (JObject []) else None),
      js_write_request = (\<lambda>r. if r = demo_rpc then Some [1] else None),
      js_read_request = (\<lambda>bs. if bs = [1] then Some demo_rpc else None),
      js_write_response = (\<lambda>r. if r = response then Some [2] else None),
      js_read_response = (\<lambda>bs. if bs = [2] then Some response else None),
      js_read_identity = (\<lambda>bs. None)\<rparr>"

lemma reply_json_laws: "json_laws (reply_json response)"
  by (auto simp: json_laws_def reply_json_def MAX_JSON_DEPTH_def)

lemma reply_json_frames:
  "encode_request_frame (reply_json response) demo_rpc = Inr (be_bytes 4 1 @ [1])"
  "encode_response_frame (reply_json response) response = Inr (be_bytes 4 1 @ [2])"
  by (simp_all add: encode_request_frame_def encode_response_frame_def encode_frame_def reply_json_def MAX_FRAME_BYTES_def del: be_bytes.simps)

definition own_socket :: node_meta where
  "own_socket = \<lparr>nm_kind = SocketNode, nm_uid = 501, nm_mode = 0xc180\<rparr>"

definition demo_exchange :: exchange_io where
  "demo_exchange = \<lparr>ex_endpoint = Some own_socket, ex_connect = True, ex_peer = Some 501, ex_write = True,
     ex_reply = [Received [0, 0], ReadFails KInterrupted, Received [0, 1, 2]]\<rparr>"

lemma demo_exchange_reachable: "reachable_endpoint 501 demo_exchange"
  by (simp add: reachable_endpoint_def demo_exchange_def validate_endpoint_def when_ok_def own_socket_def private_mode_def)

lemma demo_frame_header: "be_bytes 4 1 = [0, 0, 0, 1]" "be_bytes 4 (Suc 0) = [0, 0, 0, 1]"
  by code_simp+

lemma status_answers: "\<exists>response s'. handle env al demo_rpc t s = Some (response, s')"
proof -
  obtain s1 where o: "observe env 7 [0x61] s = Some (Inr (), s1)" by (auto simp: observe_def act_def critical_def)
  obtain x s2 where "handle_status env s1 = Some (x, s2)"
    by (cases "is_app_active (aw_approval (en_others env (hs_turn s1) (hs_world s1)))")
      (auto simp: handle_status_def hbind_def reading_of_def act_def pure_def critical_def)
  with o show ?thesis by (cases x) (simp_all add: handle_def handle_method_def demo_rpc_def hbind_def [of "observe _ _ _"])
qed

theorem remote_call_is_local_witness:
  "\<exists>response s'. handle quiet_env demo_agent demo_rpc 2 (state_at 0 granted_world []) = Some (response, s') \<and>
     client_call 501 (reply_json response) demo_exchange demo_rpc = Inr response"
proof -
  obtain response s' where h: "handle quiet_env demo_agent demo_rpc 2 (state_at 0 granted_world []) = Some (response, s')"
    using status_answers by blast
  let ?js = "reply_json response" and ?io = "\<lparr>sv_monitor = True, sv_write = True\<rparr>"
  let ?es = "[Received [0], ReadFails KInterrupted, Received [0, 0, 1, 1]]"
  obtain es' where r: "read_request ?js ?es = (Inr demo_rpc, [], es')"
    using read_request_delivers [OF reply_json_laws reply_json_frames(1) demo_rpc_frame(2), where es = ?es and rest = "[]"] by (auto simp: demo_frame_header)
  have "write_response ?js ?io response = (Inr (), be_bytes 4 1 @ [2])"
    using reply_json_frames(2) by (simp add: write_response_def)
  with h r have "serve_connection quiet_env demo_agent ?js ?io 2 ?es (state_at 0 granted_world []) = Some (Inr (), be_bytes 4 1 @ [2], s')"
    by (simp add: serve_connection_def serve_request_def demo_rpc_def)
  from remote_call_is_local [OF reply_json_laws demo_rpc_frame(2) reply_json_frames(1) _ _ _ _ this demo_exchange_reachable]
  show ?thesis using h by (auto simp: demo_frame_header demo_exchange_def demo_rpc_def)
qed


definition session_rpc :: rpc_request where
  "session_rpc = demo_rpc\<lparr>rq_method := SessionOpenMethod\<rparr>"

definition session_json :: json_lib where
  "session_json =
     \<lparr>js_document = (\<lambda>bs. if bs = [1] then Some (JObject []) else None), js_write_request = (\<lambda>r. if r = session_rpc then Some [1] else None),
      js_read_request = (\<lambda>bs. if bs = [1] then Some session_rpc else None), js_write_response = (\<lambda>r. Some [2]),
      js_read_response = (\<lambda>bs. None), js_read_identity = (\<lambda>bs. None)\<rparr>"

definition empty_world :: agent_world where
  "empty_world = granted_world\<lparr>aw_approval := granted_state\<lparr>ap_client_sessions := [], ap_grants := \<lparr>lifetime_millis = 0, deadlines = []\<rparr>\<rparr>\<rparr>"

text \<open>The client leaves after its session was opened.\<close>

definition leaving_env :: agent_env where
  "leaving_env =
     \<lparr>en_others = (\<lambda>k w. if k < 4 then w else w\<lparr>aw_approval := cancel_tokens [5] (aw_approval w)\<rparr>), en_reading = (\<lambda>_. demo_reading),
      en_now = (\<lambda>k. k)\<rparr>"

definition session_state :: approval_state where
  "session_state = snd (register_client_session demo_reading 42 7 5 (observe_client demo_reading 7 [0x61] (aw_approval empty_world)))"

lemma session_handled:
  "handle leaving_env demo_agent session_rpc 5 (state_at 0 empty_world []) =
     Some (response_success 1 SessionOpenedResult, state_at 3 (empty_world\<lparr>aw_approval := observe_client demo_reading 7 [0x61] session_state\<rparr>) [])"
proof -
  have "fst (register_client_session demo_reading 42 7 5 (observe_client demo_reading 7 [0x61] (aw_approval empty_world))) = Inr ()"
    by (simp add: register_client_session_def observe_client_def empty_world_def granted_state_def coordinator_defs active_def
        prune_client_labels_def MAX_TRACKED_SESSIONS_def)
  then have "register_client_session demo_reading 42 7 5 (observe_client demo_reading 7 [0x61] (aw_approval empty_world)) = (Inr (), session_state)"
    by (simp add: session_state_def prod_eq_iff)
  then show ?thesis
    by (simp add: handle_def handle_method_def session_rpc_def demo_rpc_def observe_def hbind_def act_def critical_def leaving_env_def state_at_def
        pure_def on_approval_def demo_agent_def numeral_3_eq_3)
qed

lemma session_registered:
  "map_of (ap_client_sessions (cancel_tokens [5] (observe_client demo_reading 7 [0x61] session_state))) 7 = Some 5"
  "store_wf (ap_grants (cancel_tokens [5] (observe_client demo_reading 7 [0x61] session_state)))"
  "\<not> is_cancelled (observe_client demo_reading 7 [0x61] session_state) 5"
  by (simp_all add: session_state_def register_client_session_def observe_client_def empty_world_def granted_state_def coordinator_defs
      active_def prune_client_labels_def MAX_TRACKED_SESSIONS_def cancel_tokens_def store_wf_def)

theorem session_ends_with_connection_witness:
  "\<exists>x written s'. serve_connection leaving_env demo_agent session_json \<lparr>sv_monitor = True, sv_write = True\<rparr> 5
      [Received [0, 0, 0], Received [1, 1]] (state_at 0 empty_world []) = Some (x, written, s') \<and>
    map_of (ap_client_sessions (aw_approval (hs_world s'))) 7 = Some 5 \<and>
    map_of (ap_client_sessions (purge_disconnected_clients (aw_approval (hs_world s')))) 7 = None"
proof -
  let ?io = "\<lparr>sv_monitor = True, sv_write = True\<rparr>" and ?es = "[Received [0, 0, 0], Received [1, 1]]"
  let ?st = "observe_client demo_reading 7 [0x61] session_state"
  have laws: "json_laws (session_json\<lparr>js_write_response := \<lambda>_. None\<rparr>)"
    by (auto simp: json_laws_def session_json_def MAX_JSON_DEPTH_def)
  have "validate_request session_rpc = Inr ()"
    by (simp add: session_rpc_def demo_rpc_def validate_request_def PROTOCOL_VERSION_def MAX_CLIENT_LABEL_BYTES_def has_nul_def)
  moreover have "encode_request_frame (session_json\<lparr>js_write_response := \<lambda>_. None\<rparr>) session_rpc = Inr (be_bytes 4 1 @ [1])"
    by (simp add: encode_request_frame_def encode_frame_def session_json_def MAX_FRAME_BYTES_def del: be_bytes.simps)
  ultimately have "\<exists>rest. read_request (session_json\<lparr>js_write_response := \<lambda>_. None\<rparr>) ?es = (Inr session_rpc, [], rest)"
    using read_request_delivers [OF laws, where es = ?es and rest = "[]"] by (auto simp: demo_frame_header)
  then obtain rest where r: "read_request session_json ?es = (Inr session_rpc, [], rest)"
    by (auto simp: read_request_def decode_request_frame_def validate_json_document_def session_json_def split: prod.splits sum.splits)
  have w: "write_response session_json ?io (response_success 1 SessionOpenedResult) = (Inr (), be_bytes 4 1 @ [2])"
    by (simp add: write_response_def encode_response_frame_def encode_frame_def session_json_def MAX_FRAME_BYTES_def del: be_bytes.simps)
  have "wait_cancelled leaving_env 5 (state_at 3 (empty_world\<lparr>aw_approval := ?st\<rparr>) []) =
      Some ((), state_at 5 (empty_world\<lparr>aw_approval := cancel_tokens [5] ?st\<rparr>) [])"
    using session_registered(3)
    by (simp add: wait_cancelled_def await.simps critical_def leaving_env_def state_at_def is_cancelled_def cancel_tokens_def)
  with session_handled w have "serve_request leaving_env demo_agent session_json ?io 5 session_rpc (state_at 0 empty_world []) =
      Some (Inr (), be_bytes 4 1 @ [2], state_at 5 (empty_world\<lparr>aw_approval := cancel_tokens [5] ?st\<rparr>) [])"
    by (simp add: serve_request_def session_rpc_def response_result_def response_success_def)
  with r have s: "serve_connection leaving_env demo_agent session_json ?io 5 ?es (state_at 0 empty_world []) =
      Some (Inr (), be_bytes 4 1 @ [2], state_at 5 (empty_world\<lparr>aw_approval := cancel_tokens [5] ?st\<rparr>) [])"
    by (simp add: serve_connection_def)
  from session_ends_with_connection [OF s r] session_registered s show ?thesis
    by (simp add: session_rpc_def state_at_def)
qed

definition demo_bind :: bind_io where
  "demo_bind =
     \<lparr>bd_has_parent = True, bd_parent_exists = False, bd_make_parent = True, bd_close_parent = True,
      bd_parent_meta = Some \<lparr>nm_kind = DirectoryNode, nm_uid = 501, nm_mode = 0x41c0\<rparr>, bd_stale_meta = Some own_socket,
      bd_connect = Some KConnectionRefused, bd_remove = True, bd_bind = None, bd_close_endpoint = True, bd_endpoint_meta = Some own_socket\<rparr>"

lemma demo_bind_bound:
  "local_server_bind 501 demo_bind = (Inr (), [MakeParent, CloseParent, RemoveEndpoint, BindEndpoint, CloseEndpoint])"
  by (simp add: local_server_bind_def prepare_parent_def recover_stale_endpoint_def validate_endpoint_def when_ok_def demo_bind_def own_socket_def
      private_mode_def)


end
