(* ===== verification/Ladon_Client.thy ===== *)
theory Ladon_Client
  imports Ladon_Text Ladon_Ipc
begin

text \<open>
  The command line (\<open>crates/ladon-cli/src/commands.rs\<close> and \<open>client.rs\<close>): the arguments of \<open>ladon run\<close>, the executable they name, and the
  calls to the broker. The transport is a parameter, with the local one as an instance; what the file system and the environment
  answer is in \<open>cli_host\<close>. Requests that leave the program are kept in a log.
\<close>

section \<open>The transport\<close>

record 'l transport =
  tr_open :: "nat \<Rightarrow> uuid \<Rightarrow> str \<Rightarrow> 'l res"
  tr_connected :: "nat \<Rightarrow> 'l \<Rightarrow> bool"
  tr_call :: "nat \<Rightarrow> rpc_request \<Rightarrow> rpc_response res"
  tr_uuid :: "nat \<Rightarrow> uuid"

datatype client_event = OpenedSession uuid str | SentRequest rpc_request

record client_state =
  cs_moment :: nat
  cs_log :: "client_event list"

definition next_moment :: "client_state \<Rightarrow> client_state" where
  "next_moment s = s\<lparr>cs_moment := Suc (cs_moment s)\<rparr>"

definition log_event :: "client_event \<Rightarrow> client_state \<Rightarrow> client_state" where
  "log_event e s = s\<lparr>cs_log := cs_log s @ [e]\<rparr>"

definition fresh_uuid :: "'l transport \<Rightarrow> client_state \<Rightarrow> uuid \<times> client_state" where
  "fresh_uuid tr s = (tr_uuid tr (cs_moment s), next_moment s)"

definition send_request :: "'l transport \<Rightarrow> rpc_request \<Rightarrow> client_state \<Rightarrow> rpc_response res \<times> client_state" where
  "send_request tr request s = (tr_call tr (cs_moment s) request, log_event (SentRequest request) (next_moment s))"

definition open_lease :: "'l transport \<Rightarrow> uuid \<Rightarrow> str \<Rightarrow> client_state \<Rightarrow> 'l res \<times> client_state" where
  "open_lease tr client label s =
     (case tr_open tr (cs_moment s) client label of
        Inl e \<Rightarrow> (Inl e, next_moment s)
      | Inr lease \<Rightarrow> (Inr lease, log_event (OpenedSession client label) (next_moment s)))"

text \<open>\<open>LocalRpcTransport\<close>: every call is an exchange of its own with the endpoint.\<close>

definition local_transport :: "u32 \<Rightarrow> json_lib \<Rightarrow> (nat \<Rightarrow> exchange_io) \<Rightarrow> (nat \<Rightarrow> nat + io_kind) \<Rightarrow> (nat \<Rightarrow> uuid) \<Rightarrow> unit transport" where
  "local_transport euid js ios peeks ids =
     \<lparr>tr_open = (\<lambda>k client label. open_session euid js (ios k)
        \<lparr>rq_version = PROTOCOL_VERSION, rq_request_id = ids k, rq_client_session_id = client, rq_client_label = label,
         rq_method = SessionOpenMethod\<rparr>),
      tr_connected = (\<lambda>k _. is_connected (peeks k)),
      tr_call = (\<lambda>k request. client_call euid js (ios k) request),
      tr_uuid = ids\<rparr>"

definition LOCAL_SERVICE_RECOVERY_GUIDANCE :: str where
  "LOCAL_SERVICE_RECOVERY_GUIDANCE =
     ascii ''Ask the user to check Ladon and that its app and client builds are compatible. Do not restart, stop, replace, or globally lock the shared Ladon app. Do not automatically retry a command after losing its reply.''"

definition needs_user_recovery :: "ladon_error \<Rightarrow> bool" where
  "needs_user_recovery e =
     (e \<in> {IpcDisconnected, IpcTimeout, InvalidFrame, InvalidResponse, FrameTooLarge, UnsupportedProtocolVersion, EndpointUnavailable,
           UnsafeEndpoint, InvalidPeer})"

section \<open>References and executables\<close>

definition parse_reference :: "str \<Rightarrow> (str \<times> str) res" where
  "parse_reference reference =
     (case rsplit_once_at (ascii ''::'') reference of
        Some (secret_ref, fld) \<Rightarrow> if secret_ref = [] \<or> fld = [] then Inl InvalidBinding else Inr (secret_ref, fld)
      | None \<Rightarrow> if reference = [] then Inl InvalidBinding else Inr (reference, ascii ''value''))"

definition parse_named_binding :: "str \<Rightarrow> bool \<Rightarrow> secret_binding_request res" where
  "parse_named_binding v file =
     and_then (ok_or InvalidBinding (split_once (ascii ''='') v)) (\<lambda>(name, reference).
     and_then (parse_reference reference) (\<lambda>(secret_ref, fld).
     Inr \<lparr>sbr_secret_ref = secret_ref, sbr_field = fld,
          sbr_target = (if file then TemporaryFileTarget name None else EnvironmentTarget name)\<rparr>))"

definition parse_stdin_binding :: "str \<Rightarrow> secret_binding_request res" where
  "parse_stdin_binding v =
     and_then (parse_reference v) (\<lambda>(secret_ref, fld).
     Inr \<lparr>sbr_secret_ref = secret_ref, sbr_field = fld, sbr_target = StandardInputTarget\<rparr>)"

text \<open>The file system and the environment. A path is its bytes; \<open>canonicalize\<close> fails when nothing is there.\<close>

record cli_host =
  ch_current_dir :: "str option"
  ch_canonicalize :: "str \<Rightarrow> str option"
  ch_is_dir :: "str \<Rightarrow> bool"
  ch_is_file :: "str \<Rightarrow> bool"
  ch_is_executable :: "str \<Rightarrow> bool"
  ch_path :: "str option"

definition into_string :: "ladon_error \<Rightarrow> str \<Rightarrow> str res" where
  "into_string e p = (if valid_utf8 p then Inr p else Inl e)"

definition canonical_directory :: "cli_host \<Rightarrow> str \<Rightarrow> str res" where
  "canonical_directory h path =
     and_then (ok_or InvalidWorkingDirectory (ch_canonicalize h path)) (\<lambda>canonical.
     if \<not> ch_is_dir h canonical then Inl InvalidWorkingDirectory else into_string InvalidWorkingDirectory canonical)"

text \<open>\<open>components().count() > 1\<close>: empty parts do not count, nor does a \<open>.\<close> that is not the first part; a leading separator counts.\<close>

definition has_path_separator :: "str \<Rightarrow> bool" where
  "has_path_separator p =
     (let parts = filter (\<lambda>q. q \<noteq> []) (split_at 0x2f [] p);
          names = (case parts of [] \<Rightarrow> [] | q # qs \<Rightarrow> q # filter (\<lambda>r. r \<noteq> ascii ''.'') qs);
          rooted = starts_with (ascii ''/'') p
      in 1 < (if rooted then Suc (length (filter (\<lambda>r. r \<noteq> ascii ''.'') parts)) else length names))"

definition find_in_path :: "cli_host \<Rightarrow> str \<Rightarrow> str option" where
  "find_in_path h executable =
     (case ch_path h of
        None \<Rightarrow> None
      | Some path \<Rightarrow>
          List.find (\<lambda>candidate. ch_is_file h candidate \<and> ch_is_executable h candidate)
            (map (\<lambda>directory. path_join directory executable) (split_at 0x3a [] path)))"

definition resolve_executable :: "cli_host \<Rightarrow> str \<Rightarrow> str \<Rightarrow> str res" where
  "resolve_executable h input working_directory =
     (if 0 \<in> set input then Inl InvalidExecutablePath
      else and_then
        (if is_absolute input then Inr input
         else if has_path_separator input then Inr (path_join working_directory input)
         else ok_or InvalidExecutablePath (find_in_path h input)) (\<lambda>candidate.
      and_then (ok_or InvalidExecutablePath (ch_canonicalize h candidate)) (\<lambda>canonical.
      if \<not> ch_is_file h canonical \<or> \<not> ch_is_executable h canonical then Inl InvalidExecutablePath
      else into_string InvalidExecutablePath canonical)))"

section \<open>The arguments of a run\<close>

definition DEFAULT_RUN_TIMEOUT_SECS :: nat where
  "DEFAULT_RUN_TIMEOUT_SECS = 5 * 60"

record run_options =
  ro_bindings :: "secret_binding_request list"
  ro_timeout_ms :: u64
  ro_output_limit :: nat
  ro_directory :: str

definition seconds_to_millis :: "nat \<Rightarrow> u64 option" where
  "seconds_to_millis seconds = (if seconds * 1000 < 2 ^ 64 then Some (of_nat (seconds * 1000)) else None)"

definition apply_flag :: "str \<Rightarrow> str \<Rightarrow> run_options \<Rightarrow> run_options res" where
  "apply_flag flag v o0 =
     (if flag = ascii ''--env'' then
        and_then (parse_named_binding v False) (\<lambda>b. Inr (o0\<lparr>ro_bindings := ro_bindings o0 @ [b]\<rparr>))
      else if flag = ascii ''--file-env'' then
        and_then (parse_named_binding v True) (\<lambda>b. Inr (o0\<lparr>ro_bindings := ro_bindings o0 @ [b]\<rparr>))
      else if flag = ascii ''--stdin'' then
        and_then (parse_stdin_binding v) (\<lambda>b. Inr (o0\<lparr>ro_bindings := ro_bindings o0 @ [b]\<rparr>))
      else if flag = ascii ''--timeout-seconds'' then
        and_then (ok_or InvalidTimeout (Option.bind (parse_u64 v) seconds_to_millis)) (\<lambda>ms. Inr (o0\<lparr>ro_timeout_ms := ms\<rparr>))
      else if flag = ascii ''--output-limit-bytes'' then
        and_then (ok_or InvalidOutputLimit (parse_u64 v)) (\<lambda>n. Inr (o0\<lparr>ro_output_limit := n\<rparr>))
      else if flag = ascii ''--cwd'' then Inr (o0\<lparr>ro_directory := v\<rparr>)
      else Inl InvalidRequest)"

text \<open>The loop over the flags up to \<open>--\<close>, and what follows it.\<close>

fun parse_flags :: "str list \<Rightarrow> run_options \<Rightarrow> (run_options \<times> str list) res" where
  "parse_flags [] o0 = Inl InvalidRequest"
| "parse_flags [flag] o0 = (if flag = ascii ''--'' then Inr (o0, []) else Inl InvalidRequest)"
| "parse_flags (flag # v # rest) o0 =
     (if flag = ascii ''--'' then Inr (o0, v # rest) else and_then (apply_flag flag v o0) (parse_flags rest))"

definition checked_run :: "text_env \<Rightarrow> run_caller \<Rightarrow> run_request \<Rightarrow> rpc_method res" where
  "checked_run env caller run =
     and_then (validate_run_request env run caller) (\<lambda>_.
     Inr (RunMethod (rn_executable run) (rn_arguments run) (rn_working_directory run) (rn_bindings run) (rn_timeout_ms run)
       (rn_output_limit_bytes run)))"

definition parse_run :: "text_env \<Rightarrow> cli_host \<Rightarrow> str list \<Rightarrow> run_caller \<Rightarrow> rpc_method res" where
  "parse_run env h arguments caller =
     and_then (ok_or InvalidRequest (ch_current_dir h)) (\<lambda>current.
     and_then (parse_flags arguments
         \<lparr>ro_bindings = [], ro_timeout_ms = of_nat (DEFAULT_RUN_TIMEOUT_SECS * 1000), ro_output_limit = DEFAULT_OUTPUT_LIMIT_BYTES,
          ro_directory = current\<rparr>) (\<lambda>(options, command).
     case command of
       [] \<Rightarrow> Inl InvalidExecutablePath
     | executable # command_arguments \<Rightarrow>
         and_then (canonical_directory h (ro_directory options)) (\<lambda>working_directory.
         and_then (resolve_executable h executable working_directory) (\<lambda>resolved.
         checked_run env caller
           \<lparr>rn_executable = resolved, rn_arguments = command_arguments, rn_working_directory = working_directory,
            rn_bindings = ro_bindings options, rn_timeout_ms = ro_timeout_ms options, rn_output_limit_bytes = ro_output_limit options\<rparr>))))"

section \<open>Commands\<close>

datatype cli_failure = LocalFailure ladon_error | ServiceFailure ladon_error

text \<open>Run and list keep a session open for the call. \<open>render\<close> is the printing of a result by \<open>serde_json\<close>, with whether it could be
  written.\<close>

definition needs_session :: "rpc_method \<Rightarrow> bool" where
  "needs_session m = (case m of RunMethod _ _ _ _ _ _ \<Rightarrow> True | ListMethod \<Rightarrow> True | _ \<Rightarrow> False)"

definition exchange_and_render ::
    "'l transport \<Rightarrow> (rpc_result \<Rightarrow> str option) \<Rightarrow> rpc_request \<Rightarrow> client_state \<Rightarrow> (cli_failure + str) \<times> client_state" where
  "exchange_and_render tr render request s =
     (case send_request tr request s of
        (Inl e, s') \<Rightarrow> (Inl (ServiceFailure e), s')
      | (Inr response, s') \<Rightarrow>
          (case error_details response of
             Some (c, _) \<Rightarrow> (Inl (ServiceFailure (case error_from_code c of Some e \<Rightarrow> e | None \<Rightarrow> InvalidResponse)), s')
           | None \<Rightarrow>
               (case Option.bind (response_result response) render of
                  None \<Rightarrow> (Inl (LocalFailure InvalidRequest), s')
                | Some txt \<Rightarrow> (Inr txt, s'))))"

definition call_and_render ::
    "'l transport \<Rightarrow> (rpc_result \<Rightarrow> str option) \<Rightarrow> rpc_method \<Rightarrow> client_state \<Rightarrow> (cli_failure + str) \<times> client_state" where
  "call_and_render tr render m s0 =
     (let (request_id, s1) = fresh_uuid tr s0;
          (client, s2) = fresh_uuid tr s1;
          request = \<lparr>rq_version = PROTOCOL_VERSION, rq_request_id = request_id, rq_client_session_id = client,
            rq_client_label = ascii ''Ladon CLI'', rq_method = m\<rparr>
      in if needs_session m
         then (case open_lease tr client (ascii ''Ladon CLI'') s2 of
             (Inl e, s3) \<Rightarrow> (Inl (ServiceFailure e), s3)
           | (Inr lease, s3) \<Rightarrow> exchange_and_render tr render request s3)
         else exchange_and_render tr render request s2)"

end
