(* ===== verification/Ladon_Mcp.thy ===== *)
theory Ladon_Mcp
  imports Ladon_Client
begin

text \<open>
  The MCP server of the command line (\<open>crates/ladon-cli/src/mcp.rs\<close>): one JSON-RPC message per line, the tools it offers, and the session it keeps with the
  broker. Reading the arguments of a tool into their structs, and writing results and values as JSON text, are done by \<open>serde\<close> and
  are parameters; the documents themselves are the values of \<open>json\<close>.
\<close>

section \<open>The session\<close>

definition MAX_REPORTED_NAME_BYTES :: nat where
  "MAX_REPORTED_NAME_BYTES = 64"

record 'l mcp_session =
  ms_id :: uuid
  ms_initialized_name :: "str option"
  ms_display_name :: "str option"
  ms_lifetime :: "'l option"

definition new_mcp_session :: "'l transport \<Rightarrow> client_state \<Rightarrow> 'l mcp_session \<times> client_state" where
  "new_mcp_session tr s =
     (case fresh_uuid tr s of
        (i, s') \<Rightarrow> (\<lparr>ms_id = i, ms_initialized_name = None, ms_display_name = None, ms_lifetime = None\<rparr>, s'))"

definition session_label :: "'l mcp_session \<Rightarrow> str" where
  "session_label ms =
     (case ms_display_name ms of
        Some name \<Rightarrow> name
      | None \<Rightarrow> (case ms_initialized_name ms of Some name \<Rightarrow> name | None \<Rightarrow> ascii ''MCP client''))"

definition validate_name :: "str \<Rightarrow> str res" where
  "validate_name v =
     (let name = trim v
      in if name = [] \<or> length name > MAX_REPORTED_NAME_BYTES \<or> list_ex is_control (chars name) then Inl InvalidRequest else Inr name)"

definition identify :: "str \<Rightarrow> 'l mcp_session \<Rightarrow> unit res \<times> 'l mcp_session" where
  "identify v ms = (case validate_name v of Inl e \<Rightarrow> (Inl e, ms) | Inr name \<Rightarrow> (Inr (), ms\<lparr>ms_display_name := Some name\<rparr>))"

definition record_initialized_name :: "str \<Rightarrow> 'l mcp_session \<Rightarrow> 'l mcp_session" where
  "record_initialized_name v ms =
     (case validate_name v of Inl e \<Rightarrow> ms | Inr name \<Rightarrow> ms\<lparr>ms_initialized_name := Some name\<rparr>)"

section \<open>JSON values\<close>

definition json_get :: "string \<Rightarrow> json \<Rightarrow> json option" where
  "json_get key v = (case v of JObject entries \<Rightarrow> map_of entries (ascii key) | _ \<Rightarrow> None)"

definition as_str :: "json \<Rightarrow> str option" where
  "as_str v = (case v of JString s \<Rightarrow> Some s | _ \<Rightarrow> None)"

definition obj :: "(string \<times> json) list \<Rightarrow> json" where
  "obj entries = JObject (map (\<lambda>(k, v). (ascii k, v)) entries)"

definition jtext :: "string \<Rightarrow> json" where
  "jtext s = JString (ascii s)"

definition empty_object :: "json \<Rightarrow> bool" where
  "empty_object v = (v = JObject [])"

datatype mcp_binding_target = McpEnvironment | McpStandardInput | McpTemporaryFileEnvironment

record mcp_binding =
  mb_secret_ref :: str
  mb_field :: str
  mb_target :: mcp_binding_target
  mb_name :: "str option"
  mb_suggested_filename :: "str option"

record mcp_run_arguments =
  ma_executable :: str
  ma_arguments :: "str list"
  ma_working_directory :: "str option"
  ma_bindings :: "mcp_binding list"
  ma_timeout_seconds :: "nat option"
  ma_output_limit_bytes :: "nat option"

text \<open>The reading of the two structs (a missing field of a binding is \<open>value\<close>), a result as a value, the text of a value, and the package
  version.\<close>

record mcp_lib =
  ml_display_name :: "json \<Rightarrow> str option"
  ml_run_arguments :: "json \<Rightarrow> mcp_run_arguments option"
  ml_result :: "rpc_result \<Rightarrow> json option"
  ml_text :: "json \<Rightarrow> str"
  ml_version :: str

section \<open>Answers\<close>

definition jsonrpc_error :: "json \<Rightarrow> int \<Rightarrow> string \<Rightarrow> json" where
  "jsonrpc_error i c message =
     obj [(''jsonrpc'', jtext ''2.0''), (''id'', i), (''error'', obj [(''code'', JNumber c), (''message'', jtext message)])]"

definition jsonrpc_result :: "json \<Rightarrow> json \<Rightarrow> json" where
  "jsonrpc_result i result = obj [(''jsonrpc'', jtext ''2.0''), (''id'', i), (''result'', result)]"

definition tool_result :: "json \<Rightarrow> str \<Rightarrow> json \<Rightarrow> bool \<Rightarrow> json" where
  "tool_result i content structured is_error =
     jsonrpc_result i (obj
       [(''content'', JArray [obj [(''type'', jtext ''text''), (''text'', JString content)]]),
        (''structuredContent'', structured), (''isError'', JBool is_error)])"

definition tool_error :: "mcp_lib \<Rightarrow> json \<Rightarrow> string \<Rightarrow> string \<Rightarrow> json" where
  "tool_error lib i c message =
     (let structured = obj [(''code'', jtext c), (''message'', jtext message)] in tool_result i (ml_text lib structured) structured True)"

datatype local_call_phase = SessionOpenPhase | RunPhase | RequestPhase

fun phase_texts :: "local_call_phase \<Rightarrow> string \<times> string \<times> string" where
  "phase_texts SessionOpenPhase =
     (''session_open'', ''not_started'',
      ''A client session could not be established. The running app may not support this client's session protocol, or the connection was interrupted. No command was submitted.'')"
| "phase_texts RunPhase =
     (''run'', ''unknown'', ''The run request did not produce a valid reply. Do not assume whether the command executed.'')"
| "phase_texts RequestPhase = (''request'', ''not_applicable'', ''The local Ladon request/response exchange failed.'')"

definition local_tool_error :: "mcp_lib \<Rightarrow> json \<Rightarrow> str \<Rightarrow> local_call_phase \<Rightarrow> json" where
  "local_tool_error lib i c ph =
     (let e = (case error_from_code c of Some e \<Rightarrow> e | None \<Rightarrow> InvalidResponse)
      in if \<not> needs_user_recovery e \<and> e \<noteq> InvalidRequest then tool_error lib i (code e) (safe_message e)
         else case phase_texts ph of (stage, execution, ctxt) \<Rightarrow>
           let structured = obj
                 [(''code'', jtext (code e)),
                  (''message'', JString (ascii (safe_message e) @ [0x20] @ ascii ctxt @ [0x20] @ LOCAL_SERVICE_RECOVERY_GUIDANCE)),
                  (''source'', jtext ''local_ladon''), (''phase'', jtext stage), (''execution'', jtext execution),
                  (''recovery'', obj [(''action'', jtext ''ask_user''), (''automatic_retry'', JBool False), (''manage_shared_app'', JBool False)])]
           in tool_result i (ml_text lib structured) structured True)"

section \<open>Tools\<close>

definition mcp_target :: "mcp_binding \<Rightarrow> binding_target res" where
  "mcp_target b =
     (case mb_target b of
        McpEnvironment \<Rightarrow> and_then (ok_or InvalidBinding (mb_name b)) (\<lambda>name. Inr (EnvironmentTarget name))
      | McpStandardInput \<Rightarrow>
          if mb_name b \<noteq> None \<or> mb_suggested_filename b \<noteq> None then Inl InvalidBinding else Inr StandardInputTarget
      | McpTemporaryFileEnvironment \<Rightarrow>
          and_then (ok_or InvalidBinding (mb_name b)) (\<lambda>name. Inr (TemporaryFileTarget name (mb_suggested_filename b))))"

fun mcp_bindings :: "mcp_binding list \<Rightarrow> secret_binding_request list res" where
  "mcp_bindings [] = Inr []"
| "mcp_bindings (b # bs) =
     and_then (mcp_target b) (\<lambda>target.
     and_then (mcp_bindings bs) (\<lambda>rest.
     Inr (\<lparr>sbr_secret_ref = mb_secret_ref b, sbr_field = mb_field b, sbr_target = target\<rparr> # rest)))"

text \<open>The working directory defaults to the current one, as text, and to the empty path when that fails.\<close>

definition parse_mcp_run :: "text_env \<Rightarrow> cli_host \<Rightarrow> mcp_lib \<Rightarrow> json \<Rightarrow> rpc_method res" where
  "parse_mcp_run env h lib arguments =
     and_then (ok_or InvalidRequest (ml_run_arguments lib arguments)) (\<lambda>a.
     let directory = (case ma_working_directory a of
            Some d \<Rightarrow> d
          | None \<Rightarrow> (case ch_current_dir h of Some d \<Rightarrow> if valid_utf8 d then d else [] | None \<Rightarrow> []))
     in and_then (ok_or InvalidWorkingDirectory (ch_canonicalize h directory)) (\<lambda>canonical.
     and_then (into_string InvalidWorkingDirectory canonical) (\<lambda>working_directory.
     and_then (resolve_executable h (ma_executable a) working_directory) (\<lambda>executable.
     and_then (mcp_bindings (ma_bindings a)) (\<lambda>bindings.
     and_then (ok_or InvalidTimeout (seconds_to_millis (case ma_timeout_seconds a of Some n \<Rightarrow> n | None \<Rightarrow> DEFAULT_RUN_TIMEOUT_SECS))) (\<lambda>timeout_ms.
     checked_run env McpCaller
       \<lparr>rn_executable = executable, rn_arguments = ma_arguments a, rn_working_directory = working_directory, rn_bindings = bindings,
        rn_timeout_ms = timeout_ms,
        rn_output_limit_bytes = (case ma_output_limit_bytes a of Some n \<Rightarrow> n | None \<Rightarrow> DEFAULT_OUTPUT_LIMIT_BYTES)\<rparr>))))))"

definition identify_session :: "mcp_lib \<Rightarrow> json \<Rightarrow> json \<Rightarrow> 'l mcp_session \<Rightarrow> json \<times> 'l mcp_session" where
  "identify_session lib i arguments ms =
     (case ml_display_name lib arguments of
        None \<Rightarrow> (tool_error lib i ''invalid_request'' ''invalid request'', ms)
      | Some name \<Rightarrow>
          (case identify name ms of
             (Inl e, ms') \<Rightarrow> (tool_error lib i (code e) (safe_message e), ms')
           | (Inr _, ms') \<Rightarrow> (tool_result i (ascii ''session name recorded'') (obj [(''identified'', JBool True)]) False, ms')))"

definition tool_method :: "text_env \<Rightarrow> cli_host \<Rightarrow> mcp_lib \<Rightarrow> str \<Rightarrow> json \<Rightarrow> rpc_method res" where
  "tool_method env h lib name arguments =
     (if name = ascii ''ladon_status'' \<and> empty_object arguments then Inr StatusMethod
      else if name = ascii ''ladon_list_secrets'' \<and> empty_object arguments then Inr ListMethod
      else if name = ascii ''ladon_lock'' \<and> empty_object arguments then Inr LockMethod
      else if name = ascii ''ladon_run'' then parse_mcp_run env h lib arguments
      else Inl InvalidRequest)"

text \<open>A lease that is no longer connected is given up; run and list open a new one when there is none.\<close>

definition ensure_lease :: "'l transport \<Rightarrow> 'l mcp_session \<Rightarrow> client_state \<Rightarrow> unit res \<times> 'l mcp_session \<times> client_state" where
  "ensure_lease tr ms s =
     (let (ms1, s1) = (case ms_lifetime ms of
            Some lease \<Rightarrow> ((if tr_connected tr (cs_moment s) lease then ms else ms\<lparr>ms_lifetime := None\<rparr>), next_moment s)
          | None \<Rightarrow> (ms, s))
      in if ms_lifetime ms1 \<noteq> None then (Inr (), ms1, s1)
         else case open_lease tr (ms_id ms1) (session_label ms1) s1 of
           (Inl e, s2) \<Rightarrow> (Inl e, ms1, s2)
         | (Inr lease, s2) \<Rightarrow> (Inr (), ms1\<lparr>ms_lifetime := Some lease\<rparr>, s2))"

definition tool_answer :: "mcp_lib \<Rightarrow> json \<Rightarrow> local_call_phase \<Rightarrow> rpc_response res \<Rightarrow> json" where
  "tool_answer lib i ph answer =
     (case answer of
        Inl e \<Rightarrow> local_tool_error lib i (ascii (code e)) ph
      | Inr response \<Rightarrow>
          (case error_details response of
             Some (c, _) \<Rightarrow> local_tool_error lib i c ph
           | None \<Rightarrow>
               (case response_result response of
                  Some result \<Rightarrow>
                    (let structured = (case ml_result lib result of Some v \<Rightarrow> v | None \<Rightarrow> obj [])
                     in tool_result i (ml_text lib structured) structured False)
                | None \<Rightarrow> local_tool_error lib i (ascii ''invalid_response'') ph)))"

definition call_method ::
    "'l transport \<Rightarrow> mcp_lib \<Rightarrow> json \<Rightarrow> rpc_method \<Rightarrow> 'l mcp_session \<Rightarrow> client_state \<Rightarrow> json \<times> 'l mcp_session \<times> client_state" where
  "call_method tr lib i m ms s =
     (case (if needs_session m then ensure_lease tr ms s else (Inr (), ms, s)) of
        (Inl e, ms1, s1) \<Rightarrow> (local_tool_error lib i (ascii (code e)) SessionOpenPhase, ms1, s1)
      | (Inr _, ms1, s1) \<Rightarrow>
          (let ph = (case m of RunMethod _ _ _ _ _ _ \<Rightarrow> RunPhase | _ \<Rightarrow> RequestPhase);
               (request_id, s2) = fresh_uuid tr s1
           in case send_request tr
                \<lparr>rq_version = PROTOCOL_VERSION, rq_request_id = request_id, rq_client_session_id = ms_id ms1,
                 rq_client_label = session_label ms1, rq_method = m\<rparr> s2 of
                (answer, s3) \<Rightarrow> (tool_answer lib i ph answer, ms1, s3)))"

definition call_tool ::
    "text_env \<Rightarrow> cli_host \<Rightarrow> 'l transport \<Rightarrow> mcp_lib \<Rightarrow> json \<Rightarrow> json option \<Rightarrow> 'l mcp_session \<Rightarrow> client_state \<Rightarrow> json \<times> 'l mcp_session \<times> client_state" where
  "call_tool env h tr lib i params ms s =
     (case Option.bind params (\<lambda>p. Option.bind (json_get ''name'' p) as_str) of
        None \<Rightarrow> (jsonrpc_error i (- 32602) ''invalid params'', ms, s)
      | Some name \<Rightarrow>
          (let arguments = (case Option.bind params (json_get ''arguments'') of Some a \<Rightarrow> a | None \<Rightarrow> obj [])
           in if name = ascii ''ladon_identify_session''
              then (case identify_session lib i arguments ms of (v, ms') \<Rightarrow> (v, ms', s))
              else case tool_method env h lib name arguments of
                Inl e \<Rightarrow> (tool_error lib i (code e) (safe_message e), ms, s)
              | Inr m \<Rightarrow> call_method tr lib i m ms s))"

section \<open>Messages\<close>

definition tools :: json where
  "tools = JArray
     [obj [(''name'', jtext ''ladon_status''),
        (''description'', jtext ''Read local Ladon lock/session status without opening a prompt. If locked, call ladon_list_secrets or ladon_run to request local unlock; do not ask the user to unlock separately. No secret values are returned.''),
        (''inputSchema'', obj [(''type'', jtext ''object''),
          (''properties'', obj []),
          (''additionalProperties'', JBool False)]),
        (''annotations'', obj [(''readOnlyHint'', JBool True),
          (''destructiveHint'', JBool False)])],
      obj [(''name'', jtext ''ladon_list_secrets''),
        (''description'', jtext ''List secret names, IDs, and field names only. If Ladon is locked, opens its local unlock prompt and waits; do not ask the user to unlock separately or paste secrets. On IPC/protocol errors, follow the returned recovery guidance; never stop, restart or replace the shared Ladon app.''),
        (''inputSchema'', obj [(''type'', jtext ''object''),
          (''properties'', obj []),
          (''additionalProperties'', JBool False)]),
        (''annotations'', obj [(''readOnlyHint'', JBool True),
          (''destructiveHint'', JBool False)])],
      obj [(''name'', jtext ''ladon_lock''),
        (''description'', jtext ''Lock the local Ladon vault and cancel any active secret-bearing run.''),
        (''inputSchema'', obj [(''type'', jtext ''object''),
          (''properties'', obj []),
          (''additionalProperties'', JBool False)]),
        (''annotations'', obj [(''readOnlyHint'', JBool False),
          (''destructiveHint'', JBool True),
          (''idempotentHint'', JBool True)])],
      obj [(''name'', jtext ''ladon_identify_session''),
        (''description'', JString (ascii ''Set a short non-secret reported name for this MCP process, such as 'Codex '' @ [0xe2, 0x80, 0x94] @ ascii '' deploy payments'. Call once before the first secret-bearing run when a useful task name is known.'')),
        (''inputSchema'', obj [(''type'', jtext ''object''),
          (''required'', JArray [jtext ''display_name'']),
          (''additionalProperties'', JBool False),
          (''properties'', obj [(''display_name'', obj [(''type'', jtext ''string''),
              (''minLength'', JNumber 1),
              (''maxLength'', JNumber 64)])])]),
        (''annotations'', obj [(''readOnlyHint'', JBool False),
          (''destructiveHint'', JBool False)])],
      obj [(''name'', jtext ''ladon_run''),
        (''description'', jtext ''Run a local non-interactive program with named secret fields injected via environment, stdin, or a temporary file. Pass references only; never pass a secret value. A locked desktop opens a local unlock prompt and waits, then asks for command approval; do not ask the user to unlock separately. The command may modify external state. On IPC/protocol errors, follow the returned recovery guidance; never stop, restart or replace the shared Ladon app or automatically repeat a run with an unknown outcome.''),
        (''inputSchema'', obj [(''type'', jtext ''object''),
          (''required'', JArray [jtext ''executable'']),
          (''additionalProperties'', JBool False),
          (''properties'', obj [(''executable'', obj [(''type'', jtext ''string''),
              (''description'', jtext ''Absolute, working-directory-relative, or PATH-resolved local executable.'')]),
            (''arguments'', obj [(''type'', jtext ''array''),
              (''maxItems'', JNumber 256),
              (''items'', obj [(''type'', jtext ''string'')])]),
            (''working_directory'', obj [(''type'', jtext ''string'')]),
            (''timeout_seconds'', obj [(''type'', jtext ''integer''),
              (''minimum'', JNumber 1),
              (''maximum'', JNumber 900),
              (''default'', JNumber 300)]),
            (''output_limit_bytes'', obj [(''type'', jtext ''integer''),
              (''minimum'', JNumber 128),
              (''maximum'', JNumber 2097152),
              (''default'', JNumber 524288)]),
            (''bindings'', obj [(''type'', jtext ''array''),
              (''maxItems'', JNumber 16),
              (''items'', obj [(''type'', jtext ''object''),
                (''required'', JArray [jtext ''secret_ref'', jtext ''target'']),
                (''additionalProperties'', JBool False),
                (''properties'', obj [(''secret_ref'', obj [(''type'', jtext ''string''),
                    (''description'', jtext ''Exact secret name or id:<uuid>.'')]),
                  (''field'', obj [(''type'', jtext ''string''),
                    (''default'', jtext ''value'')]),
                  (''target'', obj [(''type'', jtext ''string''),
                    (''enum'', JArray [jtext ''environment'', jtext ''standard_input'', jtext ''temporary_file_environment''])]),
                  (''name'', obj [(''type'', jtext ''string''),
                    (''description'', jtext ''Required environment variable name for environment targets.'')]),
                  (''suggested_filename'', obj [(''type'', jtext ''string''),
                    (''description'', jtext ''Optional safe basename used only to retain an extension for a temporary file.'')])])])])])]),
        (''annotations'', obj [(''readOnlyHint'', JBool False),
          (''destructiveHint'', JBool True)])]]"


definition INSTRUCTIONS :: string where
  "INSTRUCTIONS = ''Use named secret references with Ladon tools. Never ask the user to paste a secret value.''"

definition server_info :: "mcp_lib \<Rightarrow> json" where
  "server_info lib = obj [(''name'', jtext ''ladon''), (''version'', JString (ml_version lib))]"

definition initialize_result :: "mcp_lib \<Rightarrow> json" where
  "initialize_result lib =
     obj [(''protocolVersion'', jtext ''2025-11-25''), (''capabilities'', obj [(''tools'', obj [(''listChanged'', JBool False)])]),
       (''serverInfo'', server_info lib),
       (''instructions'', jtext (INSTRUCTIONS @ '' When useful, call ladon_identify_session once with a short non-secret task name before a secret-bearing run.''))]"

definition discover_result :: "mcp_lib \<Rightarrow> json" where
  "discover_result lib =
     obj [(''resultType'', jtext ''complete''), (''supportedVersions'', JArray [jtext ''2026-07-28'', jtext ''2025-11-25'']),
       (''capabilities'', obj [(''tools'', obj [])]), (''serverInfo'', server_info lib), (''instructions'', jtext INSTRUCTIONS)]"

definition client_name :: "json \<Rightarrow> str option" where
  "client_name request =
     Option.bind (json_get ''params'' request) (\<lambda>params. Option.bind (json_get ''clientInfo'' params) (\<lambda>info.
     Option.bind (json_get ''name'' info) as_str))"

definition handle_method_call ::
    "text_env \<Rightarrow> cli_host \<Rightarrow> 'l transport \<Rightarrow> mcp_lib \<Rightarrow> json \<Rightarrow> str \<Rightarrow> json \<Rightarrow> 'l mcp_session \<Rightarrow> client_state \<Rightarrow> json \<times> 'l mcp_session \<times> client_state" where
  "handle_method_call env h tr lib i m request ms s =
     (if m = ascii ''initialize'' then
        (jsonrpc_result i (initialize_result lib),
         case client_name request of Some name \<Rightarrow> record_initialized_name name ms | None \<Rightarrow> ms, s)
      else if m = ascii ''server/discover'' then (jsonrpc_result i (discover_result lib), ms, s)
      else if m = ascii ''ping'' then (jsonrpc_result i (obj []), ms, s)
      else if m = ascii ''tools/list'' then (jsonrpc_result i (obj [(''tools'', tools)]), ms, s)
      else if m = ascii ''tools/call'' then call_tool env h tr lib i (json_get ''params'' request) ms s
      else (jsonrpc_error i (- 32601) ''method not found'', ms, s))"

definition handle_message ::
    "text_env \<Rightarrow> cli_host \<Rightarrow> 'l transport \<Rightarrow> json_lib \<Rightarrow> mcp_lib \<Rightarrow> byte list \<Rightarrow> 'l mcp_session \<Rightarrow> client_state \<Rightarrow>
       json option \<times> 'l mcp_session \<times> client_state" where
  "handle_message env h tr js lib input ms s =
     (case (validate_json_document js input, js_document js input) of
        (Inr _, Some request) \<Rightarrow>
          (let i = json_get ''id'' request; m = Option.bind (json_get ''method'' request) as_str
           in if Option.bind (json_get ''jsonrpc'' request) as_str \<noteq> Some (ascii ''2.0'') \<or> m = None
              then (map_option (\<lambda>i. jsonrpc_error i (- 32600) ''invalid request'') i, ms, s)
              else case (i, m) of
                (Some i, Some m) \<Rightarrow>
                  (case handle_method_call env h tr lib i m request ms s of (v, ms', s') \<Rightarrow> (Some v, ms', s'))
              | _ \<Rightarrow> (None, ms, s))
      | _ \<Rightarrow> (Some (jsonrpc_error JNull (- 32700) ''invalid JSON''), ms, s))"

text \<open>The loop. The input is its bytes; a line is at most \<open>MAX_FRAME_BYTES + 1\<close> of them up to a line end, and must be UTF-8. The answers of writes
  are numbered. The value has the lines that were answered.\<close>

definition next_line :: "byte list \<Rightarrow> byte list" where
  "next_line input =
     (let window = take (MAX_FRAME_BYTES + 1) input
      in case find_sub [0x0a] window of None \<Rightarrow> window | Some at \<Rightarrow> take (Suc at) window)"

definition trim_line_end :: "byte list \<Rightarrow> byte list" where
  "trim_line_end l = rev (dropWhile (\<lambda>b. b = 0x0d \<or> b = 0x0a) (rev l))"

lemma next_line_shortens: "input \<noteq> [] \<Longrightarrow> length input - length (next_line input) < length input"
  by (rule diff_less; cases input) (auto simp: next_line_def Let_def split: option.split)

function serve_mcp_loop ::
    "text_env \<Rightarrow> cli_host \<Rightarrow> 'l transport \<Rightarrow> json_lib \<Rightarrow> mcp_lib \<Rightarrow> (nat \<Rightarrow> bool) \<Rightarrow> byte list \<Rightarrow> 'l mcp_session \<Rightarrow> client_state \<Rightarrow>
       json list \<Rightarrow> unit res \<times> json list \<times> client_state" where
  "serve_mcp_loop env h tr js lib write_ok input ms s answers =
     (if input = [] then (Inr (), answers, s)
      else let line = next_line input; rest = drop (length line) input; trimmed = trim_line_end line
        in if \<not> valid_utf8 line then (Inl InvalidFrame, answers, s)
           else if length line > MAX_FRAME_BYTES then (Inl FrameTooLarge, answers, s)
           else if trimmed = [] then serve_mcp_loop env h tr js lib write_ok rest ms s answers
           else case handle_message env h tr js lib trimmed ms s of
             (None, ms', s') \<Rightarrow> serve_mcp_loop env h tr js lib write_ok rest ms' s' answers
           | (Some v, ms', s') \<Rightarrow>
               if write_ok (length answers) then serve_mcp_loop env h tr js lib write_ok rest ms' s' (answers @ [v])
               else (Inl InvalidRequest, answers, s'))"
  by pat_completeness auto

termination
  by (relation "measure (\<lambda>(_, _, _, _, _, _, input, _). length input)") (auto simp: next_line_shortens)

declare serve_mcp_loop.simps [simp del]

definition serve_mcp ::
    "text_env \<Rightarrow> cli_host \<Rightarrow> 'l transport \<Rightarrow> json_lib \<Rightarrow> mcp_lib \<Rightarrow> (nat \<Rightarrow> bool) \<Rightarrow> byte list \<Rightarrow> client_state \<Rightarrow>
       unit res \<times> json list \<times> client_state" where
  "serve_mcp env h tr js lib write_ok input s =
     (case new_mcp_session tr s of (ms, s') \<Rightarrow> serve_mcp_loop env h tr js lib write_ok input ms s' [])"

end
