(* ===== verification/Ladon_Integrate.thy ===== *)
theory Ladon_Integrate
  imports Ladon_Client
begin

text \<open>
  The integration with coding agents (\<open>crates/ladon-cli/src/integrate.rs\<close>): the entry that Ladon writes into the configuration of another program, and
  how the file is replaced. JSON text and TOML documents are read, edited and printed by libraries, which are parameters; the
  outcomes of file operations are inputs, and the disk is the configuration file with its backup.
\<close>

datatype integration_target = Codex | Claude

section \<open>Entries\<close>

datatype toml_value = TomlString str | TomlStrings "str list" | TomlInteger int

text \<open>A TOML document with the operations on the item at a path of keys.\<close>

record 'd config_lib =
  cl_parse_json :: "byte list \<Rightarrow> json option"
  cl_pretty_json :: "json \<Rightarrow> byte list option"
  cl_new_toml :: 'd
  cl_parse_toml :: "str \<Rightarrow> 'd option"
  cl_print_toml :: "'d \<Rightarrow> str"
  cl_contains :: "string list \<Rightarrow> 'd \<Rightarrow> bool"
  cl_is_table :: "string list \<Rightarrow> 'd \<Rightarrow> bool"
  cl_new_table :: "string list \<Rightarrow> 'd \<Rightarrow> 'd"
  cl_set :: "string list \<Rightarrow> toml_value \<Rightarrow> 'd \<Rightarrow> 'd"
  cl_remove :: "string list \<Rightarrow> 'd \<Rightarrow> 'd"

definition path_text :: "str \<Rightarrow> str res" where
  "path_text p = (if valid_utf8 p then Inr p else Inl InvalidExecutablePath)"

definition ensure_table :: "'d config_lib \<Rightarrow> string list \<Rightarrow> 'd \<Rightarrow> 'd res" where
  "ensure_table cl path d =
     (let d' = (if cl_contains cl path d then d else cl_new_table cl path d)
      in if cl_is_table cl path d' then Inr d' else Inl IntegrationFailure)"

definition set_codex_entry :: "'d config_lib \<Rightarrow> str \<Rightarrow> 'd \<Rightarrow> 'd res" where
  "set_codex_entry cl executable d =
     and_then (path_text executable) (\<lambda>command.
     and_then (ensure_table cl [''mcp_servers''] d) (\<lambda>d1.
     and_then (ensure_table cl [''mcp_servers'', ''ladon''] d1) (\<lambda>d2.
     let entry = (\<lambda>key. [''mcp_servers'', ''ladon'', key]);
         d3 = cl_set cl (entry ''command'') (TomlString command) d2;
         d4 = cl_set cl (entry ''args'') (TomlStrings [ascii ''mcp'']) d3;
         d5 = cl_set cl (entry ''tool_timeout_sec'') (TomlInteger 1200) d4
     in Inr (cl_remove cl (entry ''experimental_environment'') (cl_remove cl (entry ''url'') d5)))))"

definition render_codex :: "'d config_lib \<Rightarrow> byte list option \<Rightarrow> str \<Rightarrow> byte list res" where
  "render_codex cl existing executable =
     (let source = (case existing of Some bs \<Rightarrow> bs | None \<Rightarrow> [])
      in if \<not> valid_utf8 source then Inl IntegrationFailure
         else and_then (if trim source = [] then Inr (cl_new_toml cl) else ok_or IntegrationFailure (cl_parse_toml cl source)) (\<lambda>d.
           and_then (set_codex_entry cl executable d) (\<lambda>d'. Inr (cl_print_toml cl d'))))"

definition claude_entry :: "str \<Rightarrow> json" where
  "claude_entry command =
     JObject [(ascii ''type'', JString (ascii ''stdio'')), (ascii ''command'', JString command),
       (ascii ''args'', JArray [JString (ascii ''mcp'')]), (ascii ''env'', JObject [])]"

definition set_claude_entry :: "str \<Rightarrow> (str, json) hashmap \<Rightarrow> (str, json) hashmap res" where
  "set_claude_entry executable root =
     (case (case map_of root (ascii ''mcpServers'') of Some v \<Rightarrow> v | None \<Rightarrow> JObject []) of
        JObject servers \<Rightarrow>
          and_then (path_text executable) (\<lambda>command.
          Inr (hm_insert (ascii ''mcpServers'') (JObject (hm_insert (ascii ''ladon'') (claude_entry command) servers)) root))
      | _ \<Rightarrow> Inl IntegrationFailure)"

definition render_claude :: "'d config_lib \<Rightarrow> byte list option \<Rightarrow> str \<Rightarrow> byte list res" where
  "render_claude cl existing executable =
     and_then
       (case existing of
          Some bytes \<Rightarrow>
            if bytes \<noteq> []
            then (case cl_parse_json cl bytes of Some (JObject root) \<Rightarrow> Inr root | _ \<Rightarrow> Inl IntegrationFailure) else Inr []
        | None \<Rightarrow> Inr []) (\<lambda>root.
     and_then (set_claude_entry executable root) (\<lambda>root'.
     and_then (ok_or IntegrationFailure (cl_pretty_json cl (JObject root'))) (\<lambda>bytes. Inr (bytes @ [0x0a]))))"

definition render_config :: "'d config_lib \<Rightarrow> integration_target \<Rightarrow> byte list option \<Rightarrow> str \<Rightarrow> byte list res" where
  "render_config cl target existing executable =
     (case target of Codex \<Rightarrow> render_codex cl existing executable | Claude \<Rightarrow> render_claude cl existing executable)"

definition validate_executable :: "cli_host \<Rightarrow> str \<Rightarrow> unit res" where
  "validate_executable h executable = when_ok (is_absolute executable \<and> ch_is_file h executable) InvalidExecutablePath"

definition integration_preview :: "cli_host \<Rightarrow> 'd config_lib \<Rightarrow> integration_target \<Rightarrow> str \<Rightarrow> str res" where
  "integration_preview h cl target executable =
     and_then (validate_executable h executable) (\<lambda>_.
     case target of
       Codex \<Rightarrow> and_then (set_codex_entry cl executable (cl_new_toml cl)) (\<lambda>d. Inr (cl_print_toml cl d))
     | Claude \<Rightarrow>
         and_then (set_claude_entry executable [(ascii ''mcpServers'', JObject [])]) (\<lambda>root.
         ok_or IntegrationFailure (cl_pretty_json cl (JObject root))))"

section \<open>Replacing the file\<close>

record config_disk =
  cd_config :: "byte list option"
  cd_backup :: "byte list option"
  cd_candidate :: "byte list option"

text \<open>\<open>ci_read\<close> is false when the first read fails for another reason than that there is no file. A copy that fails leaves nothing that counts as a
  backup.\<close>

record config_io =
  ci_read :: bool
  ci_clock :: bool
  ci_copy :: bool
  ci_has_parent :: bool
  ci_parent_exists :: bool
  ci_make_parent :: bool
  ci_close_parent :: bool
  ci_open :: bool
  ci_write :: bool
  ci_rename :: bool
  ci_sync :: bool
  ci_remove :: bool
  ci_reread :: bool

text \<open>A candidate that was not renamed is removed again, if that works.\<close>

definition write_private_atomic :: "config_io \<Rightarrow> byte list \<Rightarrow> config_disk \<Rightarrow> unit res \<times> config_disk" where
  "write_private_atomic io bytes d =
     (if \<not> ci_has_parent io \<or> \<not> ci_make_parent io \<or> (\<not> ci_parent_exists io \<and> \<not> ci_close_parent io) then (Inl IntegrationFailure, d)
      else let removed = (\<lambda>e. e\<lparr>cd_candidate := (if ci_remove io then None else cd_candidate e)\<rparr>);
               written = d\<lparr>cd_candidate := Some bytes\<rparr>
        in if \<not> ci_open io then (Inl IntegrationFailure, removed d)
           else if \<not> ci_write io \<or> \<not> ci_rename io then (Inl IntegrationFailure, removed written)
           else let renamed = written\<lparr>cd_config := cd_candidate written, cd_candidate := None\<rparr>
             in (when_ok (ci_sync io) IntegrationFailure, renamed))"

definition verify_written_config ::
    "'d config_lib \<Rightarrow> config_io \<Rightarrow> integration_target \<Rightarrow> str \<Rightarrow> config_disk \<Rightarrow> unit res" where
  "verify_written_config cl io target executable d =
     (case cd_config d of
        Some bytes \<Rightarrow>
          if \<not> ci_reread io then Inl IntegrationFailure
          else and_then (render_config cl target (Some bytes) executable) (\<lambda>rendered. when_ok (rendered = bytes) IntegrationFailure)
      | None \<Rightarrow> Inl IntegrationFailure)"

text \<open>The outcome is whether the file changed.\<close>

definition apply_integration_config ::
    "cli_host \<Rightarrow> 'd config_lib \<Rightarrow> config_io \<Rightarrow> integration_target \<Rightarrow> str \<Rightarrow> config_disk \<Rightarrow> bool res \<times> config_disk" where
  "apply_integration_config h cl io target executable d =
     (case validate_executable h executable of
        Inl e \<Rightarrow> (Inl e, d)
      | Inr _ \<Rightarrow>
          if \<not> ci_read io then (Inl IntegrationFailure, d)
          else case render_config cl target (cd_config d) executable of
            Inl e \<Rightarrow> (Inl e, d)
          | Inr updated \<Rightarrow>
              if cd_config d = Some updated then (Inr False, d)
              else if cd_config d \<noteq> None \<and> (\<not> ci_clock io \<or> \<not> ci_copy io) then (Inl IntegrationFailure, d)
              else let d1 = (if cd_config d \<noteq> None then d\<lparr>cd_backup := cd_config d\<rparr> else d)
                in case write_private_atomic io updated d1 of
                  (Inl e, d2) \<Rightarrow> (Inl e, d2)
                | (Inr _, d2) \<Rightarrow>
                    (case verify_written_config cl io target executable d2 of
                       Inl e \<Rightarrow> (Inl e, d2)
                     | Inr _ \<Rightarrow> (Inr True, d2)))"

section \<open>The command\<close>

definition parse_arguments :: "str list \<Rightarrow> (integration_target \<times> bool) res" where
  "parse_arguments arguments =
     and_then
       (case arguments of
          a # _ \<Rightarrow> if a = ascii ''codex'' then Inr Codex else if a = ascii ''claude'' then Inr Claude else Inl InvalidRequest
        | [] \<Rightarrow> Inl InvalidRequest) (\<lambda>target.
     and_then
       (case tl arguments of
          [] \<Rightarrow> Inr False
        | b # more_arguments \<Rightarrow> if b = ascii ''--yes'' \<and> more_arguments = [] then Inr True else Inl InvalidRequest) (\<lambda>assume_yes.
     Inr (target, assume_yes)))"

record integration_env =
  ie_codex_home :: "str option"
  ie_home :: "str option"
  ie_user_profile :: "str option"
  ie_executable :: "str option"
  ie_output :: bool
  ie_answer :: "str option"
  ie_report :: bool

definition user_home :: "integration_env \<Rightarrow> str option" where
  "user_home ie = (case ie_home ie of Some p \<Rightarrow> Some p | None \<Rightarrow> ie_user_profile ie)"

definition default_config_path :: "integration_env \<Rightarrow> integration_target \<Rightarrow> str option" where
  "default_config_path ie target =
     (case target of
        Codex \<Rightarrow>
          (case ie_codex_home ie of
             Some directory \<Rightarrow> Some (path_join directory (ascii ''config.toml''))
           | None \<Rightarrow> map_option (\<lambda>directory. path_join (path_join directory (ascii ''.codex'')) (ascii ''config.toml'')) (user_home ie))
      | Claude \<Rightarrow> map_option (\<lambda>home. path_join home (ascii ''.claude.json'')) (user_home ie))"

text \<open>The current executable is already canonical in \<open>ie_executable\<close>; \<open>ie_answer\<close> is empty when the question could not be written or the answer not be
  read. The value says whether the configuration was applied.\<close>

definition execute_integration ::
    "cli_host \<Rightarrow> 'd config_lib \<Rightarrow> integration_env \<Rightarrow> config_io \<Rightarrow> str list \<Rightarrow> config_disk \<Rightarrow> bool res \<times> config_disk" where
  "execute_integration h cl ie io arguments d =
     (case and_then (parse_arguments arguments) (\<lambda>(target, assume_yes).
           and_then (ok_or IntegrationFailure (ie_executable ie)) (\<lambda>executable.
           and_then (ok_or IntegrationFailure (default_config_path ie target)) (\<lambda>_.
           and_then (integration_preview h cl target executable) (\<lambda>_.
           and_then (when_ok (ie_output ie) IntegrationFailure) (\<lambda>_.
           and_then (if assume_yes then Inr True
                     else and_then (ok_or IntegrationFailure (ie_answer ie)) (\<lambda>answer.
                       Inr (trim answer \<in> set (map ascii [''y'', ''Y'', ''yes'', ''YES''])))) (\<lambda>go.
           Inr (target, executable, go))))))) of
        Inl e \<Rightarrow> (Inl e, d)
      | Inr (target, executable, go) \<Rightarrow>
          if \<not> go then (map_sum id (\<lambda>_. False) (when_ok (ie_report ie) IntegrationFailure), d)
          else case apply_integration_config h cl io target executable d of
            (Inl e, d') \<Rightarrow> (Inl e, d')
          | (Inr _, d') \<Rightarrow> (map_sum id (\<lambda>_. True) (when_ok (ie_report ie) IntegrationFailure), d'))"

end
