(* ===== verification/Ladon_Cli.thy ===== *)
theory Ladon_Cli
  imports Ladon_Mcp Ladon_Integrate
begin

text \<open>
  The commands of \<open>ladon\<close> (\<open>execute\<close> and \<open>execute_cli\<close> of \<open>crates/ladon-cli/src/commands.rs\<close>): the dispatch over the first argument, the exit code and what is
  written about a failure.
\<close>

datatype cli_output = Printed str | Answered "json list" | Integrated bool

record ('l, 'd) cli_context =
  cc_env :: text_env
  cc_host :: cli_host
  cc_transport :: "'l transport"
  cc_json :: json_lib
  cc_mcp :: mcp_lib
  cc_config :: "'d config_lib"
  cc_integration :: integration_env
  cc_config_io :: config_io
  cc_render :: "rpc_result \<Rightarrow> str option"
  cc_writes :: "nat \<Rightarrow> bool"
  cc_input :: "byte list"

definition print_call :: "('l, 'd) cli_context \<Rightarrow> rpc_method \<Rightarrow> client_state \<Rightarrow> config_disk \<Rightarrow> (cli_failure + cli_output) \<times> client_state \<times> config_disk" where
  "print_call cc m s d = (case call_and_render (cc_transport cc) (cc_render cc) m s of (r, s') \<Rightarrow> (map_sum id Printed r, s', d))"

definition execute_command ::
    "('l, 'd) cli_context \<Rightarrow> str list \<Rightarrow> client_state \<Rightarrow> config_disk \<Rightarrow> (cli_failure + cli_output) \<times> client_state \<times> config_disk" where
  "execute_command cc arguments s d =
     (case arguments of
        _ # command # rest \<Rightarrow>
          if command = ascii ''status'' \<and> rest = [] then print_call cc StatusMethod s d
          else if command = ascii ''list'' \<and> rest = [] then print_call cc ListMethod s d
          else if command = ascii ''lock'' \<and> rest = [] then print_call cc LockMethod s d
          else if command = ascii ''run'' then
            (case parse_run (cc_env cc) (cc_host cc) rest CliCaller of
               Inl e \<Rightarrow> (Inl (LocalFailure e), s, d)
             | Inr m \<Rightarrow> print_call cc m s d)
          else if command = ascii ''mcp'' \<and> rest = [] then
            (case serve_mcp (cc_env cc) (cc_host cc) (cc_transport cc) (cc_json cc) (cc_mcp cc) (cc_writes cc) (cc_input cc) s of
               (r, answers, s') \<Rightarrow> (map_sum LocalFailure (\<lambda>_. Answered answers) r, s', d))
          else if command = ascii ''integrate'' then
            (case execute_integration (cc_host cc) (cc_config cc) (cc_integration cc) (cc_config_io cc) rest d of
               (r, d') \<Rightarrow> (map_sum LocalFailure Integrated r, s, d'))
          else (Inl (LocalFailure InvalidRequest), s, d)
      | _ \<Rightarrow> (Inl (LocalFailure InvalidRequest), s, d))"

definition failure_text :: "cli_failure \<Rightarrow> str" where
  "failure_text f =
     (let (e, service_origin) = (case f of LocalFailure e \<Rightarrow> (e, False) | ServiceFailure e \<Rightarrow> (e, True))
      in ascii (code e) @ ascii '': '' @ ascii (safe_message e) @ [0x0a] @
         (if service_origin \<and> (needs_user_recovery e \<or> e = InvalidRequest) then LOCAL_SERVICE_RECOVERY_GUIDANCE @ [0x0a] else []))"

text \<open>The exit code and the text on standard error.\<close>

definition execute_cli ::
    "('l, 'd) cli_context \<Rightarrow> str list \<Rightarrow> client_state \<Rightarrow> config_disk \<Rightarrow> int \<times> str \<times> client_state \<times> config_disk" where
  "execute_cli cc arguments s d =
     (case execute_command cc arguments s d of
        (Inr _, s', d') \<Rightarrow> (0, [], s', d')
      | (Inl f, s', d') \<Rightarrow> (2, failure_text f, s', d'))"

end
