(* ===== verification/Ladon_Cli_Properties.thy ===== *)
theory Ladon_Cli_Properties
  imports Ladon_Cli Ladon_Ipc_Properties
begin

text \<open>
  What the command line promises: whatever it sends passes the checks of the broker and goes out under a session where one is needed, the answers of the MCP
  server belong to their requests and repeat nothing of a peer's messages, and the integration changes its own entry only.
\<close>

section \<open>Requests that are sent\<close>

text \<open>A run that the command line has checked is one that the broker accepts.\<close>

definition acceptable_run :: "text_env \<Rightarrow> rpc_method \<Rightarrow> bool" where
  "acceptable_run env m =
     (case m of
        RunMethod exe args cwd bs ms lim \<Rightarrow>
          (\<exists>v. validate_run_request env \<lparr>rn_executable = exe, rn_arguments = args, rn_working_directory = cwd, rn_bindings = bs,
             rn_timeout_ms = ms, rn_output_limit_bytes = lim\<rparr> CliCaller = Inr v)
      | _ \<Rightarrow> True)"

definition label_ok :: "str \<Rightarrow> bool" where
  "label_ok l = (l \<noteq> [] \<and> length l \<le> MAX_CLIENT_LABEL_BYTES \<and> \<not> has_nul l)"

lemma mcp_run_is_cli_run:
  assumes "validate_run_request env run McpCaller = Inr v"
  shows "validate_run_request env run CliCaller = Inr v"
  using assms
  by (auto simp: validate_run_request_def Let_def MAX_MCP_TIMEOUT_def MAX_CLI_TIMEOUT_def from_secs_def nanos_per_sec_def split: if_splits)

lemma checked_run_acceptable: "checked_run env caller run = Inr m \<Longrightarrow> acceptable_run env m"
  using mcp_run_is_cli_run by (cases caller; cases run) (auto simp: checked_run_def acceptable_run_def result_simps)

lemma parse_run_acceptable: "parse_run env h args caller = Inr m \<Longrightarrow> acceptable_run env m"
  by (auto simp: parse_run_def result_simps neq_Nil_conv split: list.split_asm dest: checked_run_acceptable)

lemma parse_mcp_run_acceptable: "parse_mcp_run env h lib args = Inr m \<Longrightarrow> acceptable_run env m"
  by (auto simp: parse_mcp_run_def result_simps Let_def dest: checked_run_acceptable)

lemma tool_method_acceptable: "tool_method env h lib name args = Inr m \<Longrightarrow> acceptable_run env m"
  by (auto simp: tool_method_def acceptable_run_def parse_mcp_run_acceptable [unfolded acceptable_run_def] split: if_splits)

lemma acceptable_request:
  assumes "acceptable_run env (rq_method q)" and "label_ok (rq_client_label q)" and "rq_version q = PROTOCOL_VERSION"
  shows "validate_request q = Inr ()"
proof (cases "rq_method q")
  case (RunMethod exe args cwd bs ms lim)
  with assms(1) obtain v where "validate_run_request env \<lparr>rn_executable = exe, rn_arguments = args, rn_working_directory = cwd, rn_bindings = bs,
      rn_timeout_ms = ms, rn_output_limit_bytes = lim\<rparr> CliCaller = Inr v" by (auto simp: acceptable_run_def)
  then have "exe \<noteq> [] \<and> length exe \<le> RUN_MAX_PATH_BYTES \<and> \<not> has_nul exe \<and> cwd \<noteq> [] \<and> length cwd \<le> RUN_MAX_PATH_BYTES \<and> \<not> has_nul cwd \<and>
      length args \<le> RUN_MAX_ARGUMENTS \<and> \<not> list_ex has_nul args \<and> sum_list (map length args) \<le> RUN_MAX_ARGUMENT_BYTES"
    by (auto simp: validate_run_request_def is_absolute_def starts_with_def ascii_def Let_def split: if_splits)
  with RunMethod assms show ?thesis
    by (simp add: validate_request_def label_ok_def MAX_PATH_BYTES_def RUN_MAX_PATH_BYTES_def MAX_ARGUMENTS_def RUN_MAX_ARGUMENTS_def
        MAX_ARGUMENT_BYTES_def RUN_MAX_ARGUMENT_BYTES_def)
qed (use assms in \<open>simp_all add: validate_request_def label_ok_def\<close>)


text \<open>The names that a client reports become labels that the broker accepts.\<close>

lemma nul_char: "is_char c \<Longrightarrow> 0 \<in> set c \<Longrightarrow> is_control c"
proof -
  assume c: "is_char c" "0 \<in> set c"
  then obtain b bs where b: "c = b # bs" by (cases c) auto
  have "c = [0]"
    using c by (auto simp: b is_char_def utf8_width_def is_cont_def second_ok_def split: if_splits list.splits)
  then show ?thesis by (simp add: is_control_def codepoint_def)
qed

lemma trim_valid: "valid_utf8 (trim v)"
  unfolding trim_def
  by (rule concat_chars_valid) (auto dest!: set_dropWhileD intro: chars_are_chars)

lemma validated_name_label: "validate_name v = Inr name \<Longrightarrow> label_ok name"
proof -
  assume v: "validate_name v = Inr name"
  then have name: "name = trim v" "name \<noteq> []" "length name \<le> MAX_REPORTED_NAME_BYTES" "\<not> list_ex is_control (chars name)"
    by (auto simp: validate_name_def Let_def split: if_splits)
  have "0 \<notin> set (concat (chars name))"
    using name(4) chars_are_chars nul_char by (fastforce simp: list_ex_iff)
  then show ?thesis
    using name trim_valid concat_chars by (simp add: label_ok_def has_nul_def MAX_REPORTED_NAME_BYTES_def MAX_CLIENT_LABEL_BYTES_def)
qed

text \<open>The log of a client, with the sessions that were opened before it: every request passes the checks of the broker, and one that needs a
  session has one of its own.\<close>

fun log_ok :: "text_env \<Rightarrow> uuid set \<Rightarrow> client_event list \<Rightarrow> bool" where
  "log_ok env opened [] = True"
| "log_ok env opened (OpenedSession c l # es) = (label_ok l \<and> log_ok env (insert c opened) es)"
| "log_ok env opened (SentRequest q # es) =
     (validate_request q = Inr () \<and> acceptable_run env (rq_method q) \<and>
      (needs_session (rq_method q) \<longrightarrow> rq_client_session_id q \<in> opened) \<and> log_ok env opened es)"

fun opened_by :: "client_event list \<Rightarrow> uuid set" where
  "opened_by [] = {}"
| "opened_by (OpenedSession c l # es) = insert c (opened_by es)"
| "opened_by (SentRequest q # es) = opened_by es"

lemma opened_by_append [simp]: "opened_by (es @ fs) = opened_by es \<union> opened_by fs"
  by (induction es rule: opened_by.induct) auto

lemma log_ok_append: "log_ok env opened (es @ fs) = (log_ok env opened es \<and> log_ok env (opened \<union> opened_by es) fs)"
  by (induction env opened es rule: log_ok.induct) (auto simp: Un_commute)

definition client_ok :: "text_env \<Rightarrow> client_state \<Rightarrow> bool" where
  "client_ok env s = log_ok env {} (cs_log s)"

lemma log_simps [simp]:
  "cs_log (next_moment s) = cs_log s" "cs_log (log_event e s) = cs_log s @ [e]"
  by (simp_all add: next_moment_def log_event_def)

lemma send_request_ok:
  assumes "client_ok env s" and "acceptable_run env (rq_method q)" and "label_ok (rq_client_label q)" and "rq_version q = PROTOCOL_VERSION"
    and "needs_session (rq_method q) \<Longrightarrow> rq_client_session_id q \<in> opened_by (cs_log s)"
    and "send_request tr q s = (answer, s')"
  shows "client_ok env s' \<and> opened_by (cs_log s') = opened_by (cs_log s)"
  using assms acceptable_request [OF assms(2-4)] by (auto simp: client_ok_def send_request_def log_ok_append)

lemma open_lease_ok:
  assumes "client_ok env s" and "label_ok label" and "open_lease tr c label s = (answer, s')"
  shows "client_ok env s' \<and> opened_by (cs_log s) \<subseteq> opened_by (cs_log s') \<and> (\<forall>lease. answer = Inr lease \<longrightarrow> c \<in> opened_by (cs_log s'))"
  using assms by (auto simp: client_ok_def open_lease_def log_ok_append split: sum.splits)

section \<open>The MCP session\<close>

definition mcp_ok :: "text_env \<Rightarrow> 'l mcp_session \<Rightarrow> client_state \<Rightarrow> bool" where
  "mcp_ok env ms s =
     (client_ok env s \<and> pred_option label_ok (ms_initialized_name ms) \<and> pred_option label_ok (ms_display_name ms) \<and>
      (ms_lifetime ms \<noteq> None \<longrightarrow> ms_id ms \<in> opened_by (cs_log s)))"

lemma session_label_ok: "mcp_ok env ms s \<Longrightarrow> label_ok (session_label ms)"
  by (auto simp: mcp_ok_def session_label_def label_ok_def MAX_CLIENT_LABEL_BYTES_def has_nul_def ascii_def split: option.splits)

lemma new_mcp_session_ok: "client_ok env s \<Longrightarrow> new_mcp_session tr s = (ms, s') \<Longrightarrow> mcp_ok env ms s'"
  by (auto simp: new_mcp_session_def fresh_uuid_def mcp_ok_def client_ok_def)

lemma record_initialized_name_ok: "mcp_ok env ms s \<Longrightarrow> mcp_ok env (record_initialized_name v ms) s"
  using validated_name_label by (auto simp: record_initialized_name_def mcp_ok_def split: sum.split)

lemma identify_session_ok: "mcp_ok env ms s \<Longrightarrow> identify_session lib i args ms = (v, ms') \<Longrightarrow> mcp_ok env ms' s"
  using validated_name_label
  by (auto simp: identify_session_def identify_def mcp_ok_def split: option.splits sum.splits prod.splits)

lemma ensure_lease_ok:
  assumes "mcp_ok env ms s" and "ensure_lease tr ms s = (answer, ms', s')"
  shows "mcp_ok env ms' s' \<and> (\<forall>u. answer = Inr u \<longrightarrow> ms_id ms' \<in> opened_by (cs_log s'))"
proof -
  obtain ms1 s1 where p: "(case ms_lifetime ms of
      Some lease \<Rightarrow> ((if tr_connected tr (cs_moment s) lease then ms else ms\<lparr>ms_lifetime := None\<rparr>), next_moment s) | None \<Rightarrow> (ms, s)) = (ms1, s1)"
    by force
  have ok: "mcp_ok env ms1 s1"
    using assms(1) p by (auto simp: mcp_ok_def client_ok_def split: option.splits if_splits)
  have unfold: "ensure_lease tr ms s = (if ms_lifetime ms1 \<noteq> None then (Inr (), ms1, s1)
      else case open_lease tr (ms_id ms1) (session_label ms1) s1 of
        (Inl e, s2) \<Rightarrow> (Inl e, ms1, s2) | (Inr lease, s2) \<Rightarrow> (Inr (), ms1\<lparr>ms_lifetime := Some lease\<rparr>, s2))"
    by (simp add: ensure_lease_def p)
  show ?thesis
  proof (cases "ms_lifetime ms1 = None")
    case True
    obtain r s2 where o: "open_lease tr (ms_id ms1) (session_label ms1) s1 = (r, s2)" by force
    from open_lease_ok [OF _ session_label_ok [OF ok] this] ok True assms(2) o show ?thesis
      by (auto simp: unfold mcp_ok_def split: sum.splits)
  next
    case False
    with assms(2) ok show ?thesis by (auto simp: unfold mcp_ok_def)
  qed
qed

lemma call_method_ok:
  assumes "mcp_ok env ms s" and "acceptable_run env m" and "call_method tr lib i m ms s = (v, ms', s')"
  shows "mcp_ok env ms' s'"
proof -
  obtain r ms1 s1 where l: "(if needs_session m then ensure_lease tr ms s else (Inr (), ms, s)) = (r, ms1, s1)"
    using prod_cases3 by blast
  with ensure_lease_ok [of env ms s tr] assms(1)
  have ok: "mcp_ok env ms1 s1" "\<And>u. r = Inr u \<Longrightarrow> needs_session m \<Longrightarrow> ms_id ms1 \<in> opened_by (cs_log s1)"
    by (auto split: if_splits)
  show ?thesis
  proof (cases r)
    case (Inl e)
    with assms(3) l ok show ?thesis by (simp add: call_method_def)
  next
    case (Inr u)
    define q where "q = \<lparr>rq_version = PROTOCOL_VERSION, rq_request_id = tr_uuid tr (cs_moment s1), rq_client_session_id = ms_id ms1,
      rq_client_label = session_label ms1, rq_method = m\<rparr>"
    obtain a s3 where sent: "send_request tr q (next_moment s1) = (a, s3)" by force
    have "client_ok env s3 \<and> opened_by (cs_log s3) = opened_by (cs_log (next_moment s1))"
      using ok Inr session_label_ok [OF ok(1)] assms(2)
      by (intro send_request_ok [OF _ _ _ _ _ sent]) (auto simp: q_def mcp_ok_def client_ok_def)
    moreover have "ms' = ms1" "s' = s3"
      using assms(3) l Inr sent by (auto simp: call_method_def fresh_uuid_def q_def Let_def split: prod.splits)
    ultimately show ?thesis using ok(1) by (simp add: mcp_ok_def)
  qed
qed

lemma call_tool_ok:
  assumes "mcp_ok env ms s" and "call_tool env h tr lib i params ms s = (v, ms', s')"
  shows "mcp_ok env ms' s'"
  using assms
  by (auto simp: call_tool_def Let_def split: option.splits if_splits sum.splits prod.splits
      dest: identify_session_ok tool_method_acceptable intro: call_method_ok)

lemma handle_method_call_ok:
  assumes "mcp_ok env ms s" and "handle_method_call env h tr lib i m request ms s = (v, ms', s')"
  shows "mcp_ok env ms' s'"
  using assms
  by (auto simp: handle_method_call_def split: if_splits option.splits dest: call_tool_ok intro: record_initialized_name_ok)

lemma handle_message_ok:
  assumes "mcp_ok env ms s" and "handle_message env h tr js lib input ms s = (v, ms', s')"
  shows "mcp_ok env ms' s'"
  using assms
  by (auto simp: handle_message_def Let_def split: sum.splits option.splits if_splits prod.splits dest: handle_method_call_ok)

lemma serve_mcp_loop_ok:
  "mcp_ok env ms s \<Longrightarrow> client_ok env (snd (snd (serve_mcp_loop env h tr js lib write_ok input ms s answers)))"
proof (induction env h tr js lib write_ok input ms s answers rule: serve_mcp_loop.induct)
  case (1 env h tr js lib write_ok input ms s answers)
  obtain v ms' s' where m: "handle_message env h tr js lib (trim_line_end (next_line input)) ms s = (v, ms', s')"
    using prod_cases3 by blast
  with "1.prems" have ok: "mcp_ok env ms' s'" by (rule handle_message_ok)
  have base: "client_ok env s" "client_ok env s'" using "1.prems" ok by (auto simp: mcp_ok_def)
  show ?case
    using "1.IH" "1.prems" ok base m
    by (subst serve_mcp_loop.simps) (auto simp: Let_def split: option.splits)
qed

section \<open>The commands\<close>

lemma exchange_and_render_ok:
  assumes "client_ok env s" and "acceptable_run env (rq_method q)" and "label_ok (rq_client_label q)" and "rq_version q = PROTOCOL_VERSION"
    and "needs_session (rq_method q) \<Longrightarrow> rq_client_session_id q \<in> opened_by (cs_log s)"
  shows "client_ok env (snd (exchange_and_render tr render q s))"
proof -
  obtain a s' where "send_request tr q s = (a, s')" by force
  with send_request_ok [OF assms this] show ?thesis
    by (auto simp: exchange_and_render_def split: sum.split option.split)
qed

lemma call_and_render_ok:
  assumes "client_ok env s" and "acceptable_run env m"
  shows "client_ok env (snd (call_and_render tr render m s))"
proof -
  define s2 where "s2 = next_moment (next_moment s)"
  define c where "c = tr_uuid tr (cs_moment (next_moment s))"
  define q where "q = \<lparr>rq_version = PROTOCOL_VERSION, rq_request_id = tr_uuid tr (cs_moment s), rq_client_session_id = c,
    rq_client_label = ascii ''Ladon CLI'', rq_method = m\<rparr>"
  have label: "label_ok (ascii ''Ladon CLI'')" by (simp add: label_ok_def MAX_CLIENT_LABEL_BYTES_def has_nul_def ascii_def)
  have s2: "client_ok env s2" using assms(1) by (simp add: s2_def client_ok_def)
  obtain r s3 where l: "open_lease tr c (ascii ''Ladon CLI'') s2 = (r, s3)" by force
  have "client_ok env (snd (exchange_and_render tr render q t))"
    if "client_ok env t" "needs_session m \<Longrightarrow> c \<in> opened_by (cs_log t)" for t
    using that assms(2) label by (intro exchange_and_render_ok) (auto simp: q_def)
  with s2 open_lease_ok [OF s2 label l] l show ?thesis
    by (auto simp: call_and_render_def fresh_uuid_def Let_def q_def c_def s2_def split: sum.splits)
qed

lemma print_call_ok: "client_ok (cc_env cc) s \<Longrightarrow> acceptable_run (cc_env cc) m \<Longrightarrow> client_ok (cc_env cc) (fst (snd (print_call cc m s d)))"
  using call_and_render_ok [of "cc_env cc" s m "cc_transport cc" "cc_render cc"] by (auto simp: print_call_def split: prod.split)

lemma serve_mcp_ok: "client_ok env s \<Longrightarrow> client_ok env (snd (snd (serve_mcp env h tr js lib write_ok input s)))"
  by (auto simp: serve_mcp_def split: prod.split intro: serve_mcp_loop_ok new_mcp_session_ok)

lemma execute_command_ok:
  assumes "client_ok (cc_env cc) s"
  shows "client_ok (cc_env cc) (fst (snd (execute_command cc arguments s d)))"
proof -
  have plain: "acceptable_run (cc_env cc) StatusMethod" "acceptable_run (cc_env cc) ListMethod" "acceptable_run (cc_env cc) LockMethod"
    by (simp_all add: acceptable_run_def)
  have mcp: "client_ok (cc_env cc) s'"
    if "serve_mcp (cc_env cc) (cc_host cc) (cc_transport cc) (cc_json cc) (cc_mcp cc) (cc_writes cc) (cc_input cc) s = (r, answers, s')"
    for r answers s' using serve_mcp_ok [OF assms] that by (metis snd_conv)
  show ?thesis
    using assms
    by (auto simp: execute_command_def print_call_ok plain intro: print_call_ok parse_run_acceptable dest: mcp
        split: list.split sum.split prod.split)
qed

lemma log_ok_sent:
  assumes "log_ok env opened es" and "es = earlier @ SentRequest q # later"
  shows "validate_request q = Inr () \<and> acceptable_run env (rq_method q) \<and>
    (needs_session (rq_method q) \<longrightarrow> rq_client_session_id q \<in> opened \<union> opened_by earlier)"
  using assms by (simp add: log_ok_append)


text \<open>A run of \<open>deploy\<close>, found through the search path, with one secret.\<close>

definition demo_cli_host :: cli_host where
  "demo_cli_host =
     \<lparr>ch_current_dir = Some (ascii ''/w''), ch_canonicalize = Some, ch_is_dir = (\<lambda>p. p = ascii ''/w''), ch_is_file = (\<lambda>p. p = ascii ''/b/deploy''),
      ch_is_executable = (\<lambda>_. True), ch_path = Some (ascii ''/a:/b'')\<rparr>"

definition demo_transport :: "unit transport" where
  "demo_transport =
     \<lparr>tr_open = (\<lambda>_ _ _. Inr ()), tr_connected = (\<lambda>_ _. True), tr_call = (\<lambda>_ _. Inl IpcTimeout), tr_uuid = of_nat\<rparr>"

definition demo_mcp :: mcp_lib where
  "demo_mcp =
     \<lparr>ml_display_name = (\<lambda>v. Option.bind (json_get ''display_name'' v) as_str), ml_run_arguments = (\<lambda>_. None), ml_result = (\<lambda>_. None),
      ml_text = (\<lambda>_. []), ml_version = ascii ''0.1.0''\<rparr>"

definition demo_config :: "unit config_lib" where
  "demo_config =
     \<lparr>cl_parse_json = (\<lambda>bs. if bs = ascii ''{}'' \<or> bs = ascii ''{e}'' @ [0x0a] then Some (JObject []) else None),
      cl_pretty_json = (\<lambda>_. Some (ascii ''{e}'')),
      cl_new_toml = (), cl_parse_toml = (\<lambda>_. None), cl_print_toml = (\<lambda>_. []), cl_contains = (\<lambda>_ _. True), cl_is_table = (\<lambda>_ _. True),
      cl_new_table = (\<lambda>_ _. ()), cl_set = (\<lambda>_ _ _. ()), cl_remove = (\<lambda>_ _. ())\<rparr>"

definition demo_config_io :: config_io where
  "demo_config_io =
     \<lparr>ci_read = True, ci_clock = True, ci_copy = True, ci_has_parent = True, ci_parent_exists = True, ci_make_parent = True,
      ci_close_parent = True, ci_open = True, ci_write = True, ci_rename = True, ci_sync = True, ci_remove = True, ci_reread = True\<rparr>"

definition demo_cli :: "(unit, unit) cli_context" where
  "demo_cli =
     \<lparr>cc_env = demo_text_env, cc_host = demo_cli_host, cc_transport = demo_transport, cc_json = demo_json, cc_mcp = demo_mcp, cc_config = demo_config,
      cc_integration = \<lparr>ie_codex_home = None, ie_home = None, ie_user_profile = None, ie_executable = None, ie_output = True,
        ie_answer = None, ie_report = True\<rparr>,
      cc_config_io = demo_config_io, cc_render = (\<lambda>_. None), cc_writes = (\<lambda>_. True), cc_input = []\<rparr>"

definition demo_arguments :: "str list" where
  "demo_arguments = map ascii [''ladon'', ''run'', ''--env'', ''T=token'', ''--'', ''deploy'', ''now'']"

definition demo_cli_request :: rpc_request where
  "demo_cli_request =
     \<lparr>rq_version = PROTOCOL_VERSION, rq_request_id = 0, rq_client_session_id = 1, rq_client_label = ascii ''Ladon CLI'',
      rq_method = RunMethod (ascii ''/b/deploy'') [ascii ''now''] (ascii ''/w'')
        [\<lparr>sbr_secret_ref = ascii ''token'', sbr_field = ascii ''value'', sbr_target = EnvironmentTarget (ascii ''T'')\<rparr>] 300000
        DEFAULT_OUTPUT_LIMIT_BYTES\<rparr>"

definition demo_disk :: config_disk where
  "demo_disk = \<lparr>cd_config = None, cd_backup = None, cd_candidate = None\<rparr>"

lemma demo_cli_directory: "canonical_directory demo_cli_host (ascii ''/w'') = Inr (ascii ''/w'')"
  by code_simp

lemma demo_cli_executable: "resolve_executable demo_cli_host (ascii ''deploy'') (ascii ''/w'') = Inr (ascii ''/b/deploy'')"
  by code_simp

lemma demo_cli_binding:
  "parse_named_binding (ascii ''T=token'') False =
     Inr \<lparr>sbr_secret_ref = ascii ''token'', sbr_field = ascii ''value'', sbr_target = EnvironmentTarget (ascii ''T'')\<rparr>"
  by code_simp

lemma demo_cli_flags:
  "parse_flags (map ascii [''--env'', ''T=token'', ''--'', ''deploy'', ''now'']) o0 =
   Inr (o0\<lparr>ro_bindings := ro_bindings o0 @
     [\<lparr>sbr_secret_ref = ascii ''token'', sbr_field = ascii ''value'', sbr_target = EnvironmentTarget (ascii ''T'')\<rparr>]\<rparr>, map ascii [''deploy'', ''now''])"
  using demo_cli_binding by (simp add: apply_flag_def ascii_def)

lemma demo_cli_bindings:
  "\<exists>vs. validate_bindings demo_text_env {} False
     [\<lparr>sbr_secret_ref = ascii ''token'', sbr_field = ascii ''value'', sbr_target = EnvironmentTarget (ascii ''T'')\<rparr>] = Inr vs"
proof -
  have "parse_secret_ref demo_text_env (ascii ''token'') = Inr (RefName (SecretName (ascii ''token'')))"
    by (simp add: parse_secret_ref_def strip_prefix_def ascii_def starts_with_def parse_secret_name_def demo_text_env_def valid_secret_name_def
        sublist_def is_forbidden_name_character_def chars.simps codepoint_def Let_def utf8_width_def Cons_eq_append_conv)
  moreover have "parse_field_name (ascii ''value'') = Inr (FieldName (ascii ''value''))"
    by (simp add: parse_field_name_def valid_field_name_def is_ascii_alphabetic_def ascii_def is_ascii_alphanumeric_def)
  ultimately show ?thesis
    by (auto simp: validate_target_def validate_environment_name_def ascii_def)
qed

lemma demo_cli_checked:
  "checked_run demo_text_env CliCaller
     \<lparr>rn_executable = ascii ''/b/deploy'', rn_arguments = [ascii ''now''], rn_working_directory = ascii ''/w'',
      rn_bindings = [\<lparr>sbr_secret_ref = ascii ''token'', sbr_field = ascii ''value'', sbr_target = EnvironmentTarget (ascii ''T'')\<rparr>],
      rn_timeout_ms = 300000, rn_output_limit_bytes = DEFAULT_OUTPUT_LIMIT_BYTES\<rparr> = Inr (rq_method demo_cli_request)"
  using demo_cli_bindings
  by (auto simp: checked_run_def validate_run_request_def demo_cli_request_def Let_def is_absolute_def starts_with_def has_nul_def ascii_def
      RUN_MAX_PATH_BYTES_def RUN_MAX_ARGUMENTS_def RUN_MAX_ARGUMENT_BYTES_def MAX_BINDINGS_def from_millis_def nanos_per_milli_def MAX_CLI_TIMEOUT_def
      from_secs_def nanos_per_sec_def MIN_OUTPUT_LIMIT_BYTES_def MAX_OUTPUT_LIMIT_BYTES_def DEFAULT_OUTPUT_LIMIT_BYTES_def
      simp del: validate_bindings.simps)

lemma demo_cli_parse: "parse_run demo_text_env demo_cli_host (drop 2 demo_arguments) CliCaller = Inr (rq_method demo_cli_request)"
  using demo_cli_directory demo_cli_executable demo_cli_checked
  by (simp add: parse_run_def demo_arguments_def demo_cli_flags [simplified] DEFAULT_RUN_TIMEOUT_SECS_def) (simp add: demo_cli_host_def)

lemma demo_cli_log:
  "cs_log (fst (snd (execute_command demo_cli demo_arguments \<lparr>cs_moment = 0, cs_log = []\<rparr> demo_disk))) =
     [OpenedSession 1 (ascii ''Ladon CLI'')] @ SentRequest demo_cli_request # []"
proof -
  have args: "demo_arguments = ascii ''ladon'' # ascii ''run'' # drop 2 demo_arguments" by (simp add: demo_arguments_def)
  have ne: "ascii ''run'' \<noteq> ascii ''status''" "ascii ''run'' \<noteq> ascii ''list''" "ascii ''run'' \<noteq> ascii ''lock''" by (simp_all add: ascii_def)
  show ?thesis
    unfolding execute_command_def
    by (subst args) (simp add: ne demo_cli_def demo_cli_parse print_call_def call_and_render_def fresh_uuid_def Let_def demo_transport_def
        next_moment_def open_lease_def log_event_def exchange_and_render_def send_request_def demo_cli_request_def needs_session_def)
qed


section \<open>Answers of the MCP server\<close>

fun requests_in :: "client_event list \<Rightarrow> rpc_request list" where
  "requests_in [] = []"
| "requests_in (OpenedSession c l # es) = requests_in es"
| "requests_in (SentRequest q # es) = q # requests_in es"

lemma requests_in_append [simp]: "requests_in (es @ fs) = requests_in es @ requests_in fs"
  by (induction es rule: requests_in.induct) auto

definition requests_sent :: "client_state \<Rightarrow> rpc_request list" where
  "requests_sent s = requests_in (cs_log s)"

lemma answer_ids [simp]:
  "json_get ''id'' (jsonrpc_error i c message) = Some i" "json_get ''id'' (jsonrpc_result i v) = Some i" "json_get ''id'' (tool_result i t v b) = Some i"
  "json_get ''id'' (tool_error lib i c' message) = Some i" "json_get ''id'' (local_tool_error lib i c'' ph) = Some i"
  "json_get ''id'' (tool_answer lib i ph answer) = Some i"
  by (simp_all add: json_get_def jsonrpc_error_def jsonrpc_result_def tool_result_def tool_error_def local_tool_error_def tool_answer_def obj_def ascii_def
      Let_def split: prod.split option.split sum.split)

lemma ensure_lease_sends_nothing: "ensure_lease tr ms s = (r, ms', s') \<Longrightarrow> requests_sent s' = requests_sent s"
  by (auto simp: ensure_lease_def requests_sent_def open_lease_def split: option.splits if_splits sum.splits prod.splits)

text \<open>A call sends its request once, or not at all when no session could be opened, and the answer tells the two apart.\<close>

lemma call_method_outcome:
  assumes "call_method tr lib i m ms s = (v, ms', s')"
  shows "(\<exists>e. v = local_tool_error lib i (ascii (code e)) SessionOpenPhase \<and> requests_sent s' = requests_sent s) \<or>
    (\<exists>q answer ph. v = tool_answer lib i ph answer \<and> rq_method q = m \<and> requests_sent s' = requests_sent s @ [q])"
proof -
  obtain r ms1 s1 where l: "(if needs_session m then ensure_lease tr ms s else (Inr (), ms, s)) = (r, ms1, s1)"
    using prod_cases3 by blast
  then have same: "requests_sent s1 = requests_sent s" using ensure_lease_sends_nothing by (auto split: if_splits)
  show ?thesis
  proof (cases r)
    case (Inl e)
    with assms l same show ?thesis by (auto simp: call_method_def)
  next
    case (Inr u)
    define q where "q = \<lparr>rq_version = PROTOCOL_VERSION, rq_request_id = tr_uuid tr (cs_moment s1), rq_client_session_id = ms_id ms1,
      rq_client_label = session_label ms1, rq_method = m\<rparr>"
    have "requests_sent s' = requests_sent s @ [q]" "\<exists>answer ph. v = tool_answer lib i ph answer"
      using assms l Inr same by (auto simp: call_method_def fresh_uuid_def q_def Let_def send_request_def requests_sent_def)
    then show ?thesis by (auto simp: q_def)
  qed
qed

lemma call_tool_outcome:
  assumes "call_tool env h tr lib i params ms s = (v, ms', s')"
  shows "json_get ''id'' v = Some i \<and> (\<exists>qs. requests_sent s' = requests_sent s @ qs \<and> length qs \<le> 1)"
  using assms
  by (auto simp: call_tool_def identify_session_def Let_def split: option.splits if_splits sum.splits prod.splits
      dest!: call_method_outcome)

lemma handle_method_call_outcome:
  assumes "handle_method_call env h tr lib i m request ms s = (v, ms', s')"
  shows "json_get ''id'' v = Some i \<and> (\<exists>qs. requests_sent s' = requests_sent s @ qs \<and> length qs \<le> 1)"
  using assms by (auto simp: handle_method_call_def split: if_splits dest!: call_tool_outcome)


lemma error_from_code_code: "error_from_code (ascii (code e)) = Some e"
proof -
  have "map fst (map (\<lambda>(name, e). (ascii name, e)) code_table) = map (ascii \<circ> code) all_errors" by (simp add: code_table_eq)
  moreover have "distinct (map (ascii \<circ> code) all_errors)" by code_simp
  ultimately show ?thesis
    unfolding error_from_code_def using code_table_complete [of e] by (intro map_of_is_SomeI) (auto simp: comp_def)
qed

text \<open>Of an error that a peer reports only the code matters, and only when it is a known one: the answer is that of the same failure here.\<close>

lemma peer_error_is_local:
  assumes "error_details response = Some (c, message)"
  shows "tool_answer lib i ph (Inr response) =
    tool_answer lib i ph (Inl (case error_from_code c of Some e \<Rightarrow> e | None \<Rightarrow> InvalidResponse))"
  using assms by (simp add: tool_answer_def local_tool_error_def error_from_code_code split: option.split)

section \<open>The integration\<close>

text \<open>The entry of Claude: nothing else in the document changes.\<close>

lemma set_claude_entry_frame:
  assumes "set_claude_entry executable root = Inr root'"
  shows "\<exists>servers. map_of root' (ascii ''mcpServers'') = Some (JObject servers) \<and>
      map_of servers (ascii ''ladon'') = Some (claude_entry executable) \<and>
      (\<forall>k. k \<noteq> ascii ''mcpServers'' \<longrightarrow> map_of root' k = map_of root k) \<and>
      (\<forall>k. k \<noteq> ascii ''ladon'' \<longrightarrow> map_of servers k =
         (case map_of root (ascii ''mcpServers'') of Some (JObject old) \<Rightarrow> map_of old k | _ \<Rightarrow> None))"
  using assms by (auto simp: set_claude_entry_def path_text_def split: option.splits json.splits if_splits)

lemma write_private_atomic_outcome:
  assumes "write_private_atomic io bytes d = (r, d')"
  shows "cd_backup d' = cd_backup d \<and> (cd_config d' = cd_config d \<or> cd_config d' = Some bytes) \<and> (r = Inr () \<longrightarrow> cd_config d' = Some bytes)"
  using assms by (auto simp: write_private_atomic_def Let_def split: if_splits)

lemma applied_config:
  assumes "apply_integration_config h cl io target executable d = (r, d')"
  shows "cd_config d' = cd_config d \<or>
    (\<exists>updated. render_config cl target (cd_config d) executable = Inr updated \<and> cd_config d' = Some updated)"
  using assms by (auto simp: apply_integration_config_def Let_def split: sum.splits if_splits prod.splits dest!: write_private_atomic_outcome)

lemma applied_backup:
  assumes "apply_integration_config h cl io target executable d = (r, d')" and "cd_config d' \<noteq> cd_config d" and "cd_config d \<noteq> None"
  shows "cd_backup d' = cd_config d"
  using assms by (auto simp: apply_integration_config_def Let_def split: sum.splits if_splits prod.splits dest!: write_private_atomic_outcome)

lemma applied_again:
  assumes "apply_integration_config h cl io target executable d = (Inr altered, d')" and "ci_read io'"
  shows "apply_integration_config h cl io' target executable d' = (Inr False, d')"
  using assms
  by (auto simp: apply_integration_config_def verify_written_config_def when_ok_def result_simps Let_def
      split: sum.splits if_splits prod.splits option.splits)

text \<open>C21: whatever fails while an integration is applied, the configuration is either as it was or the rendered one as a whole, and a replaced one is
  in the backup; and after a success the file is what rendering it again gives, so that applying the integration again changes nothing.\<close>

theorem integration_preserves_config:
  assumes "apply_integration_config h cl io target executable d = (r, d')"
  shows "(cd_config d' = cd_config d \<or>
      (\<exists>updated. render_config cl target (cd_config d) executable = Inr updated \<and> cd_config d' = Some updated)) \<and>
    (cd_config d' \<noteq> cd_config d \<and> cd_config d \<noteq> None \<longrightarrow> cd_backup d' = cd_config d) \<and>
    (\<forall>altered io'. r = Inr altered \<and> ci_read io' \<longrightarrow>
      apply_integration_config h cl io' target executable d' = (Inr False, d'))"
  using applied_config [OF assms] applied_backup [OF assms] applied_again assms by blast

definition empty_config :: config_disk where
  "empty_config = \<lparr>cd_config = Some (ascii ''{}''), cd_backup = None, cd_candidate = None\<rparr>"

definition entered_config :: config_disk where
  "entered_config = \<lparr>cd_config = Some (ascii ''{e}'' @ [0x0a]), cd_backup = Some (ascii ''{}''), cd_candidate = None\<rparr>"

lemma demo_integration:
  "apply_integration_config demo_cli_host demo_config demo_config_io Claude (ascii ''/b/deploy'') empty_config = (Inr True, entered_config)"
  by code_simp

theorem integration_preserves_config_witness:
  "cd_backup entered_config = Some (ascii ''{}'') \<and>
    apply_integration_config demo_cli_host demo_config demo_config_io Claude (ascii ''/b/deploy'') entered_config = (Inr False, entered_config)"
  using integration_preserves_config [OF demo_integration] by (simp add: empty_config_def entered_config_def demo_config_io_def ascii_def)

end
