(* ===== verification/Ladon_Touch.thy ===== *)
theory Ladon_Touch
  imports Ladon_Window
begin

text \<open>
  An attempt with Touch ID (\<open>crates/ladon-app/src/touch_id.rs\<close>): the thread it runs in, the prompt of the system, and the wait for its answer. What the
  system answers is a parameter; the moments of the loop are numbered. The lemmas show that the wait ends, and that it succeeds only on a positive answer
  that came within the time and before a cancellation.
\<close>

definition AUTHENTICATION_TIMEOUT :: duration where
  "AUTHENTICATION_TIMEOUT = from_secs 60"

datatype touch_reply = TouchReply bool | NoReply | ReplyLost

record touch_io =
  ti_spawns :: bool
  ti_can_evaluate :: bool
  ti_now :: "nat \<Rightarrow> duration"
  ti_cancelled :: "nat \<Rightarrow> bool"
  ti_recv :: "nat \<Rightarrow> touch_reply"

partial_function (option) touch_wait :: "touch_io \<Rightarrow> duration \<Rightarrow> nat \<Rightarrow> unit res option" where
  "touch_wait io deadline k =
     (if ti_cancelled io k then Some (Inl ApprovalCancelled)
      else if ti_now io k \<ge> deadline then Some (Inl ApprovalAuthenticationFailed)
      else case ti_recv io k of
          TouchReply success \<Rightarrow> Some (if success then Inr () else Inl ApprovalAuthenticationFailed)
        | ReplyLost \<Rightarrow> Some (Inl ApprovalAuthenticationFailed)
        | NoReply \<Rightarrow> touch_wait io deadline (Suc k))"

definition touch_authenticate :: "touch_io \<Rightarrow> str \<Rightarrow> unit res option" where
  "touch_authenticate io reason =
     (if reason = [] then Some (Inl InvalidRequest)
      else if \<not> ti_can_evaluate io then Some (Inl TouchIdUnavailable)
      else touch_wait io (ti_now io 0 + AUTHENTICATION_TIMEOUT) 1)"

text \<open>The thread sends its result; a thread that still waits has sent nothing.\<close>

definition touch_spawn :: "touch_io \<Rightarrow> str \<Rightarrow> touch_channel res" where
  "touch_spawn io reason =
     (if \<not> ti_spawns io then Inl ProcessFailure
      else Inr (case touch_authenticate io reason of None \<Rightarrow> TouchWaiting | Some result \<Rightarrow> TouchAnswer result))"

definition touch_start :: "touch_io \<Rightarrow> str \<Rightarrow> touch_channel res" where
  "touch_start io reason = (if reason = [] then Inl InvalidRequest else touch_spawn io reason)"

definition secret_reason :: "str \<Rightarrow> str" where
  "secret_reason secret_name =
     ascii ''Unlock Ladon secret '' @ [0xe2, 0x80, 0x9c] @ sanitize_untrusted secret_name @ [0xe2, 0x80, 0x9d] @ ascii '' for viewing and editing''"

definition authenticate_secret :: "touch_io \<Rightarrow> str \<Rightarrow> touch_channel res" where
  "authenticate_secret io secret_name = touch_start io (secret_reason secret_name)"

definition authenticate_agent_session :: "touch_io \<Rightarrow> touch_channel res" where
  "authenticate_agent_session io = touch_start io agent_session_reason"

definition authenticate_app :: "touch_io \<Rightarrow> touch_channel res" where
  "authenticate_app io = touch_start io APP_UNLOCK_REASON"

section \<open>The wait\<close>

text \<open>What a result of the wait goes back to: the answer at its last moment, with nothing before it that would have ended the wait.\<close>

definition still_waiting :: "touch_io \<Rightarrow> duration \<Rightarrow> nat \<Rightarrow> bool" where
  "still_waiting io deadline k = (\<not> ti_cancelled io k \<and> ti_now io k < deadline \<and> ti_recv io k = NoReply)"

definition answered_at :: "touch_io \<Rightarrow> duration \<Rightarrow> nat \<Rightarrow> unit res \<Rightarrow> bool" where
  "answered_at io deadline k result =
     (case result of
        Inr _ \<Rightarrow> \<not> ti_cancelled io k \<and> ti_now io k < deadline \<and> ti_recv io k = TouchReply True
      | Inl e \<Rightarrow> e = (if ti_cancelled io k then ApprovalCancelled else ApprovalAuthenticationFailed) \<and>
          (ti_cancelled io k \<or> deadline \<le> ti_now io k \<or> ti_recv io k \<in> {TouchReply False, ReplyLost}))"

lemma touch_wait_step:
  "touch_wait io deadline k =
     (if still_waiting io deadline k then touch_wait io deadline (Suc k)
      else Some (if ti_cancelled io k then Inl ApprovalCancelled
        else if ti_now io k < deadline \<and> ti_recv io k = TouchReply True then Inr () else Inl ApprovalAuthenticationFailed))"
  by (subst touch_wait.simps) (auto simp: still_waiting_def split: touch_reply.split)

lemma touch_wait_ends:
  assumes "k \<le> j" and "deadline \<le> ti_now io j"
  shows "\<exists>i result. touch_wait io deadline k = Some result \<and> k \<le> i \<and> i \<le> j \<and> answered_at io deadline i result \<and>
    (\<forall>h. k \<le> h \<and> h < i \<longrightarrow> still_waiting io deadline h)"
  using assms
proof (induction "j - k" arbitrary: k)
  case 0
  then have "\<not> still_waiting io deadline k" by (simp add: still_waiting_def)
  with 0 show ?case by (intro exI [of _ k]) (auto simp: touch_wait_step [of io deadline k] answered_at_def)
next
  case (Suc d)
  show ?case
  proof (cases "still_waiting io deadline k")
    case True
    have "d = j - Suc k" "Suc k \<le> j" using Suc.hyps(2) by simp_all
    then obtain i result where i: "touch_wait io deadline (Suc k) = Some result" "Suc k \<le> i" "i \<le> j" "answered_at io deadline i result"
      "\<forall>h. Suc k \<le> h \<and> h < i \<longrightarrow> still_waiting io deadline h"
      using Suc.hyps(1) Suc.prems(2) by blast
    have "still_waiting io deadline h" if "k \<le> h" "h < i" for h
      using that i(5) True by (cases "h = k") auto
    with i True show ?thesis by (intro exI [of _ i]) (auto simp: touch_wait_step [of io deadline k])
  next
    case False
    with Suc.prems Suc.hyps(2) show ?thesis
      by (cases "ti_recv io k"; intro exI [of _ k])
        (auto simp: touch_wait_step [of io deadline k] answered_at_def still_waiting_def)
  qed
qed

lemma touch_authenticate_ends:
  assumes "1 \<le> j" and "ti_now io 0 + AUTHENTICATION_TIMEOUT \<le> ti_now io j"
  shows "\<exists>result. touch_authenticate io reason = Some result \<and>
    (result = Inr () \<longrightarrow> reason \<noteq> [] \<and> ti_can_evaluate io \<and>
       (\<exists>i. ti_recv io i = TouchReply True \<and> ti_now io i < ti_now io 0 + AUTHENTICATION_TIMEOUT \<and> (\<forall>h. 1 \<le> h \<and> h \<le> i \<longrightarrow> \<not> ti_cancelled io h)))"
proof (cases "reason = [] \<or> \<not> ti_can_evaluate io")
  case True
  then show ?thesis by (auto simp: touch_authenticate_def)
next
  case False
  obtain i result where i: "touch_wait io (ti_now io 0 + AUTHENTICATION_TIMEOUT) 1 = Some result" "1 \<le> i"
    "answered_at io (ti_now io 0 + AUTHENTICATION_TIMEOUT) i result"
    "\<forall>h. 1 \<le> h \<and> h < i \<longrightarrow> still_waiting io (ti_now io 0 + AUTHENTICATION_TIMEOUT) h"
    using touch_wait_ends [OF assms] by blast
  have "\<not> ti_cancelled io h" if "1 \<le> h" "h \<le> i" "result = Inr ()" for h
    using that i(3,4) by (cases "h = i") (auto simp: answered_at_def still_waiting_def)
  with False i show ?thesis by (auto simp: touch_authenticate_def answered_at_def)
qed

text \<open>An attempt that starts reports success to the window only when the system did.\<close>

lemma touch_success_reported:
  assumes "touch_start io reason = Inr channel" and "touch_result channel = Some (Inr ())"
  shows "touch_authenticate io reason = Some (Inr ())"
  using assms by (auto simp: touch_start_def touch_spawn_def split: if_splits option.splits)

end
