(* ===== verification/Spec2Isabelle.thy ===== *)
theory Spec2Isabelle
  imports Ladon_Approval_Properties Ladon_Vault_Properties Ladon_Broker Ladon_Runner Ladon_Redact_Properties
    Ladon_Pin Ladon_Unlock Ladon_Controller_Properties Ladon_Detail Ladon_Supervisor_Properties Ladon_Runs
    Ladon_Local_Properties Ladon_Window_Safety Ladon_Scan_Safety Ladon_Ipc_Properties Ladon_Cli_Properties Ladon_Touch
begin

text \<open>
  A verification of Ladon, a local secrets manager for coding agents. The vault is an encrypted file; a desktop
  application unlocks it, and agents ask it over a local socket to list secrets, to run commands with
  secrets and to lock or unlock. What an agent gets is the output of a command with every secret cut out, and that only after the
  person at the machine approved.

  \<^bold>\<open>The program's parts and how they interact.\<close> \<open>crates/ladon-core\<close> has the data (\<open>model.rs\<close>), the vault from its bytes to an open
  session (\<open>codec.rs\<close>, \<open>crypto.rs\<close>, \<open>store.rs\<close>, \<open>vault.rs\<close>), the grants (\<open>grants.rs\<close>), the protocol (\<open>protocol.rs\<close>), the
  requests to run (\<open>runner.rs\<close>), the redactor (\<open>redact.rs\<close>) and the lock state (\<open>broker.rs\<close>). \<open>crates/ladon-app\<close> puts
  them together: a request of an agent enters \<open>AgentBroker\<close> (\<open>agent_broker.rs\<close>), which asks \<open>ApprovalCoordinator\<close> (\<open>approval.rs\<close>)
  for a ticket, registers the run with \<open>RunCoordinator\<close>, has the \<open>VaultController\<close> (\<open>ui.rs\<close>) read the values, starts the
  command under \<open>supervisor.rs\<close> and redacts what comes back. The desktop window (\<open>desktop.rs\<close>) decides pending requests, unlocks
  with a master password, a session PIN (\<open>session_auth.rs\<close>) or Touch ID, edits secrets (\<open>secret_editor.rs\<close>), locks, and starts
  the search for secrets in plain files (\<open>exposure_scan.rs\<close>); it calls the broker through \<open>LocalBrokerHandle\<close>.
  The socket between them is \<open>ipc.rs\<close>. \<open>crates/ladon-cli\<close> is what an agent runs: a command line (\<open>commands.rs\<close>) and an MCP server
  (\<open>mcp.rs\<close>) over the client side of the socket (\<open>client.rs\<close>), and the entry in the configuration of an agent (\<open>integrate.rs\<close>).

  \<^bold>\<open>Which theory models what.\<close> Definitions keep the names of the code, in its order; a name that HOL or another component has
  already carries an addition. Records stand for structs, datatypes for enums, \<open>error + 'a\<close> for \<open>Result\<close>.
  \<^item> \<open>Ladon_Prelude\<close>: checked and saturating words, \<open>Duration\<close> and \<open>SystemTime\<close>, hash maps and deques as lists, the locales
    \<open>op_machine\<close> (operations that keep an invariant) and \<open>step_machine\<close> (steps that keep one). \<open>Ladon_Str\<close>: Rust strings as UTF-8 bytes.
    \<open>Ladon_Error\<close>: \<open>error.rs\<close>. \<open>Ladon_Model\<close>: \<open>model.rs\<close>; a \<open>SensitiveBytes\<close> is its bytes.
  \<^item> \<open>Ladon_Codec\<close>, \<open>Ladon_Crypto\<close>, \<open>Ladon_Store\<close>, \<open>Ladon_Vault\<close>, each with a theory \<open>_Properties\<close>: canonical decoding, the layout and keys of
    the file, the two copies on disk, and the session over them. \<open>Ladon_Cbor\<close> is a concrete CBOR library.
  \<^item> \<open>Ladon_Grants\<close>: \<open>grants.rs\<close>, with the abstract authority it refines and the locale \<open>grant_queries\<close> for
    the four queries of the coordinator. \<open>Ladon_Approval\<close>: \<open>approval.rs\<close>; \<open>Ladon_Approval_Inv\<close>, \<open>_Safety\<close> and \<open>_Properties\<close> prove it.
  \<^item> \<open>Ladon_Protocol\<close>, \<open>Ladon_Runner\<close>, \<open>Ladon_Redact\<close> (with \<open>_Properties\<close>), \<open>Ladon_Broker\<close>: the rest of the core crate.
  \<^item> \<open>Ladon_Supervisor\<close>, \<open>Ladon_Controller\<close> (with \<open>_Properties\<close>), \<open>Ladon_Pin\<close>, \<open>Ladon_Unlock\<close>, \<open>Ladon_Editor\<close>, \<open>Ladon_Detail\<close>, \<open>Ladon_Lifetime\<close>:
    \<open>supervisor.rs\<close>, \<open>ui.rs\<close>, \<open>session_auth.rs\<close>, \<open>unlock_request.rs\<close>, \<open>secret_editor.rs\<close>, the detail view of \<open>ui.rs\<close>, and
    \<open>approval_lifetime.rs\<close>.
  \<^item> \<open>Ladon_Runs\<close>: \<open>RunCoordinator\<close>, \<open>UiLockCoordinator\<close> and their guards, as step relations over several threads.
    \<open>Ladon_Agent\<close>: the handlers of \<open>AgentBroker\<close>. \<open>Ladon_Local\<close>: the operations of \<open>LocalBrokerHandle\<close>. Both with \<open>_Properties\<close>.
  \<^item> \<open>Ladon_Desktop\<close>, \<open>Ladon_Window\<close>: \<open>LadonDesktop\<close>, its buffers, its buttons and one frame of \<open>update\<close>.
    \<open>Ladon_Window_Properties\<close> has a calculus of what a method does to the window, \<open>Ladon_Window_Safety\<close> the theorems.
    \<open>Ladon_Touch\<close>: \<open>touch_id.rs\<close>, the wait for the answer of the system.
  \<^item> \<open>Ladon_Text\<close>: searches and splits of Rust strings. \<open>Ladon_Scan\<close>: \<open>exposure_scan.rs\<close> and \<open>detection.rs\<close>. \<open>Ladon_Scan_Properties\<close> has the
    locale \<open>scan_relation\<close> (what a step may do to the scanner, carried over the walk), \<open>Ladon_Scan_Safety\<close> its extension
    \<open>scan_invariant\<close> with the theorems.
  \<^item> \<open>Ladon_Ipc\<close> (with \<open>_Properties\<close>): \<open>ipc.rs\<close> and the loop of \<open>agent_broker.rs\<close> that accepts connections.
  \<^item> \<open>Ladon_Client\<close>: \<open>client.rs\<close>, the arguments of a run and the calls of \<open>commands.rs\<close>. \<open>Ladon_Mcp\<close>: \<open>mcp.rs\<close>. \<open>Ladon_Integrate\<close>:
    \<open>integrate.rs\<close>. \<open>Ladon_Cli\<close>: the dispatch of \<open>commands.rs\<close>. \<open>Ladon_Cli_Properties\<close>: the theorems on all four.
  \<^bold>\<open>What the lemmas show.\<close> Storage: a byte string decodes to a payload exactly when it is the encoding of one; a file that unlocks is
  authenticated as a whole; a commit that is interrupted anywhere leaves a vault that opens; a session refines a map from names to
  records. Access: every grant goes back to a decision of the person at the machine; a lock, a lost connection, a
  revocation or a change of a secret takes grants away at once; a ticket is honoured exactly when it is permitted. Running: an agent's command starts
  only under a grant that is honoured at that moment, gets only values read under it, and what it prints comes back without any
  form of a secret, whatever the chunks it was read in. Locking: runs and locks exclude each other, a lock that is answered has locked
  the vault. The window: a locked window is empty, and stays locked without an authentication that succeeded.
  The scan: a report that is not marked incomplete misses no match, and each finding comes from a file. The socket: a call through it is the call of the
  handler, it is closed to other users, and a session ends with its connection. The client: whatever it sends is accepted by the
  broker and sent under a session where one is needed; an MCP message sends at most one request and its answer carries its identity; an
  integration replaces a configuration as a whole or not at all.
  Some theorems record where the code does less than it means to (\<open>add_exceeds_record_limit\<close>, \<open>agent_lock_reopens_window\<close>).

  \<^bold>\<open>State, time and threads.\<close> A component under a mutex is a record, and an operation under the mutex is one function
  on it. Sequences of operations are folds (\<open>exec_approval\<close>, \<open>exec_grant\<close>, \<open>exec_vault\<close>, \<open>exec_ui\<close>, \<open>exec_detail\<close>) and interpretations of \<open>op_machine\<close>; the
  threads around \<open>RunCoordinator\<close> are an interpretation of \<open>step_machine\<close>. In \<open>Ladon_Agent\<close> and \<open>Ladon_Local\<close> a handler is a sequence of
  critical sections, and before each of them an arbitrary function \<open>en_others\<close> stands for what the other threads did; the theorems
  name what they need of it (\<open>others_keep\<close>). The screens of the window are
  covered by the locales \<open>screen_predicate\<close> and \<open>lock_predicate\<close>, interpreted for each predicate the theorems are about. Clocks are read anew at
  each moment; nothing relates two readings except where a theorem says so.

  \<^bold>\<open>Loops and bounds.\<close> Loops over data are structural or have a measure. A loop that sleeps or waits is a
  \<open>partial_function (option)\<close>, so that a wait that never ends is \<open>None\<close>: the theorems on the child, on a decision and on the redactor show that they
  end. There is no fuel apart from the depth of the search for plain secrets, which is a limit of the code itself. Integers
  that can overflow are words; lengths are naturals where memory bounds them.

  \<^bold>\<open>Parameters.\<close> Code outside the repository is an argument with laws that say what is relied on: CBOR (\<open>cbor_laws\<close>, satisfied by
  \<open>Ladon_Cbor\<close>), the ciphers and the key derivation (\<open>cipher_laws\<close>), randomness (\<open>random_laws\<close>), Unicode (\<open>text_laws\<close>), JSON
  (\<open>json_laws\<close>), the search automaton and encoders of the redactor (\<open>redact_lib\<close>), the file system and the child process (their answers), the calendar,
  the regular expressions and decoders of the scan (\<open>scan_lib\<close>), the answers of the kernel at the socket, the reading of argument structs by \<open>serde\<close>
  (\<open>mcp_lib\<close>) and the documents of \<open>serde_json\<close> and \<open>toml_edit\<close> (\<open>config_lib\<close>).
  Each theorem with such a law has a witness where the parameter is a concrete function.

  \<^bold>\<open>Not modelled.\<close> Drawing, layout, fonts and colours of the window, and several inputs within one frame (a frame of the model
  takes at most one, several inputs are several frames). Wiping of memory (\<open>sensitive.rs\<close> and the \<open>Zeroizing\<close> wrappers), which has no
  counterpart for values. Objective-C calls of Touch ID, the tray and the clipboard beyond what the window does with their
  answers. The variants of the code for Windows. The texts that the commands print besides results and errors. Module declarations and
  \<open>main\<close>, \<open>scan_directory\<close> and other code that only tests call, and the tests of the repository.
\<close>

end
